(* ===== verification/Prelude.thy ===== *)
theory Prelude
  imports Complex_Main "HOL-Library.Sublist"
begin

text \<open>
  What every other theory shares: Python computations as functions on an explicit state, the
  Python control structures they are built from, a weakest-precondition calculus for them, and
  a few facts about strings and lists.

  A computation of type \<open>('e, 's, 'a) py\<close> takes the state and yields \<open>None\<close> when it does not
  return, and otherwise the outcome (\<open>Inl e\<close>: exception \<open>e\<close> propagates, \<open>Inr x\<close>: the value
  \<open>x\<close> is returned) together with the state it leaves.  A raise keeps the state changes made
  before it, as in Python.
\<close>

named_theorems py_defs \<open>definitions of the Python control structures\<close>
named_theorems wp_simps \<open>weakest preconditions of the Python control structures\<close>

type_synonym ('e, 's, 'a) py = "'s \<Rightarrow> (('e + 'a) \<times> 's) option"

section \<open>Control structures\<close>

definition ret :: "'a \<Rightarrow> ('e, 's, 'a) py" where
  [py_defs]: "ret x = (\<lambda>s. Some (Inr x, s))"

definition raise :: "'e \<Rightarrow> ('e, 's, 'a) py" where
  [py_defs]: "raise e = (\<lambda>s. Some (Inl e, s))"

definition bindM :: "('e, 's, 'a) py \<Rightarrow> ('a \<Rightarrow> ('e, 's, 'b) py) \<Rightarrow> ('e, 's, 'b) py" where
  [py_defs]: "bindM m f = (\<lambda>s. case m s of None \<Rightarrow> None
     | Some (r, t) \<Rightarrow> (case r of Inl e \<Rightarrow> Some (Inl e, t) | Inr x \<Rightarrow> f x t))"

definition thenM :: "('e, 's, 'a) py \<Rightarrow> ('e, 's, 'b) py \<Rightarrow> ('e, 's, 'b) py" where
  [py_defs]: "thenM m n = bindM m (\<lambda>_. n)"

text \<open>\<open>try: m except e: h e\<close>\<close>

definition catchM :: "('e, 's, 'a) py \<Rightarrow> ('e \<Rightarrow> ('e, 's, 'a) py) \<Rightarrow> ('e, 's, 'a) py" where
  [py_defs]: "catchM m h = (\<lambda>s. case m s of None \<Rightarrow> None
     | Some (r, t) \<Rightarrow> (case r of Inl e \<Rightarrow> h e t | Inr x \<Rightarrow> Some (Inr x, t)))"

text \<open>\<open>try: m except e: h e else x: k x\<close>: an exception of \<open>k\<close> is not caught.\<close>

definition tryElseM ::
  "('e, 's, 'a) py \<Rightarrow> ('e \<Rightarrow> ('e, 's, 'b) py) \<Rightarrow> ('a \<Rightarrow> ('e, 's, 'b) py) \<Rightarrow> ('e, 's, 'b) py" where
  [py_defs]: "tryElseM m h k = (\<lambda>s. case m s of None \<Rightarrow> None
     | Some (r, t) \<Rightarrow> (case r of Inl e \<Rightarrow> h e t | Inr x \<Rightarrow> k x t))"

text \<open>\<open>try: m finally: f\<close>: an exception of \<open>f\<close> replaces the outcome of \<open>m\<close>.\<close>

definition finallyM :: "('e, 's, 'a) py \<Rightarrow> ('e, 's, unit) py \<Rightarrow> ('e, 's, 'a) py" where
  [py_defs]: "finallyM m f = (\<lambda>s. case m s of None \<Rightarrow> None
     | Some (r, t) \<Rightarrow> (case f t of None \<Rightarrow> None
        | Some (q, u) \<Rightarrow> (case q of Inl e \<Rightarrow> Some (Inl e, u) | Inr _ \<Rightarrow> Some (r, u))))"

definition getM :: "('s \<Rightarrow> 'a) \<Rightarrow> ('e, 's, 'a) py" where
  [py_defs]: "getM f = (\<lambda>s. Some (Inr (f s), s))"

definition modifyM :: "('s \<Rightarrow> 's) \<Rightarrow> ('e, 's, unit) py" where
  [py_defs]: "modifyM f = (\<lambda>s. Some (Inr (), f s))"

definition whenM :: "bool \<Rightarrow> ('e, 's, unit) py \<Rightarrow> ('e, 's, unit) py" where
  [py_defs]: "whenM b m = (if b then m else ret ())"

text \<open>Statements one after the other.\<close>

fun seqM :: "('e, 's, unit) py list \<Rightarrow> ('e, 's, unit) py" where
  "seqM [] = ret ()"
| "seqM (m # ms) = thenM m (seqM ms)"

text \<open>\<open>for x in xs: f x\<close>\<close>

fun forM :: "'a list \<Rightarrow> ('a \<Rightarrow> ('e, 's, unit) py) \<Rightarrow> ('e, 's, unit) py" where
  "forM [] f = ret ()"
| "forM (x # xs) f = thenM (f x) (forM xs f)"

text \<open>\<open>[f(x) for x in xs]\<close>\<close>

fun mapPy :: "('a \<Rightarrow> ('e, 's, 'b) py) \<Rightarrow> 'a list \<Rightarrow> ('e, 's, 'b list) py" where
  "mapPy f [] = ret []"
| "mapPy f (x # xs) = bindM (f x) (\<lambda>y. bindM (mapPy f xs) (\<lambda>ys. ret (y # ys)))"

text \<open>The control structures, run from a state\<close>

lemma run_at:
  "ret x s = Some (Inr x, s)" "raise e s = Some (Inl e, s)" "getM g s = Some (Inr (g s), s)"
  "modifyM u s = Some (Inr (), u s)"
  "bindM m f s = (case m s of None \<Rightarrow> None | Some (r, t) \<Rightarrow> (case r of Inl e \<Rightarrow> Some (Inl e, t) | Inr x \<Rightarrow> f x t))"
  "thenM m n s = (case m s of None \<Rightarrow> None | Some (r, t) \<Rightarrow> (case r of Inl e \<Rightarrow> Some (Inl e, t) | Inr x \<Rightarrow> n t))"
  "catchM m h s = (case m s of None \<Rightarrow> None | Some (r, t) \<Rightarrow> (case r of Inl e \<Rightarrow> h e t | Inr x \<Rightarrow> Some (Inr x, t)))"
  "tryElseM m h' k s = (case m s of None \<Rightarrow> None | Some (r, t) \<Rightarrow> (case r of Inl e \<Rightarrow> h' e t | Inr x \<Rightarrow> k x t))"
  "finallyM m g' s = (case m s of None \<Rightarrow> None
     | Some (r, t) \<Rightarrow> (case g' t of None \<Rightarrow> None
        | Some (q, u) \<Rightarrow> (case q of Inl e \<Rightarrow> Some (Inl e, u) | Inr _ \<Rightarrow> Some (r, u))))"
  "whenM b c s = (if b then c s else Some (Inr (), s))"
  by (simp_all add: py_defs)

section \<open>Weakest preconditions\<close>

text \<open>
  \<open>wp m Q E s\<close>: if \<open>m\<close> returns from \<open>s\<close>, a returned value and its state satisfy \<open>Q\<close> and a
  raised exception and its state satisfy \<open>E\<close>.  That a computation returns at all is stated
  separately, as \<open>m s \<noteq> None\<close>.
\<close>

definition wp :: "('e, 's, 'a) py \<Rightarrow> ('a \<Rightarrow> 's \<Rightarrow> bool) \<Rightarrow> ('e \<Rightarrow> 's \<Rightarrow> bool) \<Rightarrow> 's \<Rightarrow> bool" where
  "wp m Q E s = (case m s of None \<Rightarrow> True
     | Some (r, t) \<Rightarrow> (case r of Inl e \<Rightarrow> E e t | Inr x \<Rightarrow> Q x t))"

lemma wpI:
  assumes "\<And>e t. m s = Some (Inl e, t) \<Longrightarrow> E e t" and "\<And>x t. m s = Some (Inr x, t) \<Longrightarrow> Q x t"
  shows "wp m Q E s"
  using assms by (auto simp: wp_def split: option.splits sum.splits)

lemma wp_returnsD: "wp m Q E s \<Longrightarrow> m s = Some (Inr x, t) \<Longrightarrow> Q x t"
  by (simp add: wp_def)

lemma wp_raisesD: "wp m Q E s \<Longrightarrow> m s = Some (Inl e, t) \<Longrightarrow> E e t"
  by (simp add: wp_def)

lemma wp_mono:
  assumes "wp m Q E s" and "\<And>x t. Q x t \<Longrightarrow> Q' x t" and "\<And>e t. E e t \<Longrightarrow> E' e t"
  shows "wp m Q' E' s"
  using assms by (auto simp: wp_def split: option.splits sum.splits)

lemma wp_ret [wp_simps]: "wp (ret x) Q E s = Q x s"
  by (simp add: wp_def ret_def)

lemma wp_raise [wp_simps]: "wp (raise e) Q E s = E e s"
  by (simp add: wp_def raise_def)

lemma wp_bindM [wp_simps]: "wp (bindM m f) Q E s = wp m (\<lambda>x. wp (f x) Q E) E s"
  by (simp add: wp_def bindM_def split: option.splits sum.splits prod.splits)

lemma wp_thenM [wp_simps]: "wp (thenM m n) Q E s = wp m (\<lambda>_. wp n Q E) E s"
  by (simp add: thenM_def wp_bindM)

lemma wp_catchM [wp_simps]: "wp (catchM m h) Q E s = wp m Q (\<lambda>e. wp (h e) Q E) s"
  by (simp add: wp_def catchM_def split: option.splits sum.splits prod.splits)

lemma wp_tryElseM [wp_simps]:
  "wp (tryElseM m h k) Q E s = wp m (\<lambda>x. wp (k x) Q E) (\<lambda>e. wp (h e) Q E) s"
  by (simp add: wp_def tryElseM_def split: option.splits sum.splits prod.splits)

lemma wp_finallyM [wp_simps]:
  "wp (finallyM m f) Q E s =
     wp m (\<lambda>x. wp f (\<lambda>_. Q x) E) (\<lambda>e. wp f (\<lambda>_. E e) E) s"
  by (auto simp: wp_def finallyM_def split: option.splits sum.splits prod.splits)

lemma wp_getM [wp_simps]: "wp (getM f) Q E s = Q (f s) s"
  by (simp add: wp_def getM_def)

lemma wp_modifyM [wp_simps]: "wp (modifyM f) Q E s = Q () (f s)"
  by (simp add: wp_def modifyM_def)

lemma wp_whenM [wp_simps]: "wp (whenM b m) Q E s = (if b then wp m Q E s else Q () s)"
  by (simp add: whenM_def wp_ret)

lemma wp_seqM_Nil [wp_simps]: "wp (seqM []) Q E s = Q () s"
  by (simp add: wp_ret)

lemma wp_seqM_Cons [wp_simps]: "wp (seqM (m # ms)) Q E s = wp m (\<lambda>_. wp (seqM ms) Q E) E s"
  by (simp add: wp_thenM)

lemma wp_if [wp_simps]:
  "wp (if b then m else n) Q E s = (if b then wp m Q E s else wp n Q E s)"
  by simp

text \<open>Statements in sequence, with the assertion between them.\<close>

lemma wp_thenM_step:
  "wp m (\<lambda>_. P) E s \<Longrightarrow> (\<And>t. P t \<Longrightarrow> wp n Q E t) \<Longrightarrow> wp (thenM m n) Q E s"
  unfolding wp_thenM by (rule wp_mono)

lemma wp_seqM_step:
  "wp m (\<lambda>_. P) E s \<Longrightarrow> (\<And>t. P t \<Longrightarrow> wp (seqM ms) Q E t) \<Longrightarrow> wp (seqM (m # ms)) Q E s"
  unfolding wp_seqM_Cons by (rule wp_mono)

text \<open>An invariant kept by the body of a loop over a list is kept by the loop.\<close>

lemma wp_forM_inv:
  assumes "\<And>x s. x \<in> set xs \<Longrightarrow> I s \<Longrightarrow> wp (f x) (\<lambda>_. I) (\<lambda>_. I) s" and "I s"
  shows "wp (forM xs f) (\<lambda>_. I) (\<lambda>_. I) s"
  using assms
proof (induction xs arbitrary: s)
  case Nil
  then show ?case by (simp add: wp_ret)
next
  case (Cons x xs)
  have IH: "wp (forM xs f) (\<lambda>_. I) (\<lambda>_. I) t" if "I t" for t
    using Cons.IH [OF _ that] Cons.prems(1) by simp
  have "wp (f x) (\<lambda>_. I) (\<lambda>_. I) s"
    using Cons.prems by simp
  then show ?case
    unfolding forM.simps wp_thenM by (rule wp_mono) (simp_all add: IH)
qed

section \<open>Returning\<close>

text \<open>A computation built from computations that return, returns.\<close>

definition returns :: "('e, 's, 'a) py \<Rightarrow> bool" where
  "returns m = (\<forall>s. m s \<noteq> None)"

lemma returnsI: "(\<And>s. m s \<noteq> None) \<Longrightarrow> returns m"
  by (simp add: returns_def)

lemma returnsD: "returns m \<Longrightarrow> \<exists>r t. m s = Some (r, t)"
  by (metis not_None_eq prod.exhaust returns_def)

lemma returns_ret [simp, intro]: "returns (ret x)"
  by (simp add: returns_def ret_def)

lemma returns_raise [simp, intro]: "returns (raise e)"
  by (simp add: returns_def raise_def)

lemma returns_getM [simp, intro]: "returns (getM f)"
  by (simp add: returns_def getM_def)

lemma returns_modifyM [simp, intro]: "returns (modifyM f)"
  by (simp add: returns_def modifyM_def)

lemma returns_bindM [intro]: "returns m \<Longrightarrow> (\<And>x. returns (f x)) \<Longrightarrow> returns (bindM m f)"
  by (fastforce simp: returns_def bindM_def split: option.splits sum.splits prod.splits)

lemma returns_thenM [intro]: "returns m \<Longrightarrow> returns n \<Longrightarrow> returns (thenM m n)"
  by (auto simp: thenM_def)

lemma returns_catchM [intro]: "returns m \<Longrightarrow> (\<And>e. returns (h e)) \<Longrightarrow> returns (catchM m h)"
  by (fastforce simp: returns_def catchM_def split: option.splits sum.splits prod.splits)

lemma returns_tryElseM [intro]:
  "returns m \<Longrightarrow> (\<And>e. returns (h e)) \<Longrightarrow> (\<And>x. returns (k x)) \<Longrightarrow> returns (tryElseM m h k)"
  by (fastforce simp: returns_def tryElseM_def split: option.splits sum.splits prod.splits)

lemma returns_finallyM [intro]:
  assumes "returns m" and "returns f"
  shows "returns (finallyM m f)"
proof (rule returnsI)
  fix s
  obtain r t where "m s = Some (r, t)" using returnsD [OF assms(1)] by blast
  moreover obtain q u where "f t = Some (q, u)" using returnsD [OF assms(2)] by blast
  ultimately show "finallyM m f s \<noteq> None"
    by (simp add: finallyM_def split: sum.splits)
qed

lemma returns_whenM [intro]: "returns m \<Longrightarrow> returns (whenM b m)"
  by (auto simp: whenM_def)

lemma returns_if [intro]: "returns m \<Longrightarrow> returns n \<Longrightarrow> returns (if b then m else n)"
  by simp

lemma returns_seqM [intro]: "(\<And>m. m \<in> set ms \<Longrightarrow> returns m) \<Longrightarrow> returns (seqM ms)"
  by (induction ms) auto

lemma returns_forM [intro]: "(\<And>x. x \<in> set xs \<Longrightarrow> returns (f x)) \<Longrightarrow> returns (forM xs f)"
  by (induction xs) auto

section \<open>Invariants\<close>

text \<open>Computations that keep an invariant on either exit.\<close>

named_theorems keeps_intros \<open>computations that keep an invariant\<close>

definition keeps :: "('s \<Rightarrow> bool) \<Rightarrow> ('e, 's, 'a) py \<Rightarrow> bool" where
  "keeps I f = (\<forall>s. I s \<longrightarrow> wp f (\<lambda>_. I) (\<lambda>_. I) s)"

lemma keepsD: "keeps I f \<Longrightarrow> I s \<Longrightarrow> wp f (\<lambda>_. I) (\<lambda>_. I) s"
  by (simp add: keeps_def)

lemma wp_outcome: "wp f (\<lambda>_. I) (\<lambda>_. I) m \<Longrightarrow> f m = Some (r, m') \<Longrightarrow> I m'"
  by (cases r) (auto simp: wp_def)

lemma keepsI: "(\<And>s. I s \<Longrightarrow> wp f (\<lambda>_. I) (\<lambda>_. I) s) \<Longrightarrow> keeps I f"
  by (simp add: keeps_def)

lemma keeps_ret [keeps_intros]: "keeps I (ret x)"
  by (simp add: keeps_def wp_ret)

lemma keeps_raise [keeps_intros]: "keeps I (raise e)"
  by (simp add: keeps_def wp_raise)

lemma keeps_bindM [keeps_intros]: "keeps I f \<Longrightarrow> (\<And>x. keeps I (g x)) \<Longrightarrow> keeps I (bindM f g)"
  unfolding keeps_def wp_bindM by (blast intro: wp_mono)

lemma keeps_thenM [keeps_intros]: "keeps I f \<Longrightarrow> keeps I g \<Longrightarrow> keeps I (thenM f g)"
  by (simp add: thenM_def keeps_bindM)

lemma keeps_seqM [keeps_intros]: "list_all (keeps I) ms \<Longrightarrow> keeps I (seqM ms)"
  by (induction ms) (auto intro: keeps_ret keeps_thenM)

lemma keeps_catchM [keeps_intros]: "keeps I f \<Longrightarrow> (\<And>e. keeps I (h e)) \<Longrightarrow> keeps I (catchM f h)"
  unfolding keeps_def wp_catchM by (blast intro: wp_mono)

lemma keeps_tryElseM [keeps_intros]:
  "keeps I f \<Longrightarrow> (\<And>e. keeps I (h e)) \<Longrightarrow> (\<And>x. keeps I (g x)) \<Longrightarrow> keeps I (tryElseM f h g)"
  unfolding keeps_def wp_tryElseM by (blast intro: wp_mono)

lemma keeps_if [keeps_intros]: "keeps I f \<Longrightarrow> keeps I g \<Longrightarrow> keeps I (if b then f else g)"
  by simp

lemma keeps_whenM [keeps_intros]: "keeps I f \<Longrightarrow> keeps I (whenM b f)"
  by (simp add: whenM_def keeps_ret)

lemma keeps_finallyM [keeps_intros]: "keeps I f \<Longrightarrow> keeps I g \<Longrightarrow> keeps I (finallyM f g)"
  unfolding keeps_def wp_finallyM by (blast intro: wp_mono)

lemma keeps_forM [keeps_intros]: "(\<And>x. x \<in> set xs \<Longrightarrow> keeps I (f x)) \<Longrightarrow> keeps I (forM xs f)"
  by (induction xs) (auto intro: keeps_ret keeps_thenM)

lemma keeps_mapPy [keeps_intros]: "(\<And>x. x \<in> set xs \<Longrightarrow> keeps I (f x)) \<Longrightarrow> keeps I (mapPy f xs)"
  by (induction xs) (auto intro!: keeps_ret keeps_bindM)

lemma keeps_getM [keeps_intros]: "keeps I (getM f)"
  by (simp add: keeps_def wp_getM)

lemma keeps_modifyM: "(\<And>s. I s \<Longrightarrow> I (f s)) \<Longrightarrow> keeps I (modifyM f)"
  by (simp add: keeps_def wp_modifyM)

lemma keeps_option [keeps_intros]:
  "keeps I f \<Longrightarrow> (\<And>x. keeps I (g x)) \<Longrightarrow> keeps I (case y of None \<Rightarrow> f | Some x \<Rightarrow> g x)"
  by (cases y) simp_all

lemma keeps_prod [keeps_intros]:
  "(\<And>x y. keeps I (f x y)) \<Longrightarrow> keeps I (case p of (x, y) \<Rightarrow> f x y)"
  by (cases p) simp

section \<open>Pure code that may raise\<close>

definition bindE :: "'e + 'a \<Rightarrow> ('a \<Rightarrow> 'e + 'b) \<Rightarrow> 'e + 'b" where
  "bindE r f = (case r of Inl e \<Rightarrow> Inl e | Inr x \<Rightarrow> f x)"

fun mapE :: "('a \<Rightarrow> 'e + 'b) \<Rightarrow> 'a list \<Rightarrow> 'e + 'b list" where
  "mapE f [] = Inr []"
| "mapE f (x # xs) = bindE (f x) (\<lambda>y. bindE (mapE f xs) (\<lambda>ys. Inr (y # ys)))"

text \<open>A result without effects as a computation.\<close>

definition lift :: "'e + 'a \<Rightarrow> ('e, 's, 'a) py" where
  "lift r = (case r of Inl e \<Rightarrow> raise e | Inr x \<Rightarrow> ret x)"

lemma lift_simps [simp]: "lift (Inl e) = raise e" "lift (Inr x) = ret x"
  by (simp_all add: lift_def)

lemma wp_lift [wp_simps]: "wp (lift r) Q E s = (case r of Inl e \<Rightarrow> E e s | Inr x \<Rightarrow> Q x s)"
  by (simp add: wp_simps split: sum.split)

lemma bindE_simps [simp]: "bindE (Inl e) f = Inl e" "bindE (Inr x) f = f x"
  by (simp_all add: bindE_def)

lemma bindE_Inr: "bindE r f = Inr y \<longleftrightarrow> (\<exists>x. r = Inr x \<and> f x = Inr y)"
  by (cases r) simp_all

lemma mapE_Inr: "mapE f xs = Inr ys \<longleftrightarrow> list_all2 (\<lambda>x y. f x = Inr y) xs ys"
  by (induction xs arbitrary: ys) (auto simp: bindE_Inr list_all2_Cons1)

lemma mapE_total: "(\<And>x. x \<in> set xs \<Longrightarrow> f x = Inr (g x)) \<Longrightarrow> mapE f xs = Inr (map g xs)"
  by (induction xs) simp_all

section \<open>Strings\<close>

text \<open>\<open>needle in hay\<close> for two Python strings.\<close>

definition str_in :: "string \<Rightarrow> string \<Rightarrow> bool" where
  "str_in needle hay = sublist needle hay"

lemma str_in_refl [simp]: "str_in x x"
  by (simp add: str_in_def)

lemma str_in_middle [simp]: "str_in x (a @ x @ b)"
  by (simp add: str_in_def)

lemma str_in_Nil_right: "str_in x [] = (x = [])"
  by (simp add: str_in_def)

lemma str_in_Cons_right: "str_in x (c # cs) = (prefix x (c # cs) \<or> str_in x cs)"
  by (simp add: str_in_def sublist_Cons_right)

text \<open>\<open>sep.join(xs)\<close>\<close>

fun str_join :: "string \<Rightarrow> string list \<Rightarrow> string" where
  "str_join sep [] = []"
| "str_join sep [x] = x"
| "str_join sep (x # y # xs) = x @ sep @ str_join sep (y # xs)"

lemma length_str_join:
  "xs \<noteq> [] \<Longrightarrow>
   length (str_join sep xs) = sum_list (map length xs) + (length xs - 1) * length sep"
  by (induction sep xs rule: str_join.induct) auto

end
