(* ===== verification/Errors.thy ===== *)
theory Errors
  imports Prelude
begin

text \<open>
  \<open>perfkitbenchmarker/errors.py\<close>, the retry errors of \<open>perfkitbenchmarker/vm_util.py\<close> and the
  status strings of \<open>perfkitbenchmarker/benchmark_status.py\<close>: the exception classes with their
  base classes, names and \<open>STATUS\<close> attributes, \<open>isinstance\<close>, the enumeration of the
  subclasses of \<open>Error\<close> and the mapping of an exception to a benchmark status.

  A class defined outside these files is \<open>Subclass base name own\<close>: the class called \<open>name\<close>
  with base class \<open>base\<close>, which assigns \<open>own\<close> to \<open>STATUS\<close> or assigns nothing.
\<close>

section \<open>Statuses\<close>

datatype FailedSubstatus =
    QUOTA | INSUFFICIENT_CAPACITY | KNOWN_INTERMITTENT | INTERRUPTED | UNSUPPORTED
  | PROCESS_KILLED | UNCATEGORIZED | RESTORE_FAILED | FREEZE_FAILED | COMMAND_TIMEOUT
  | RETRIES_EXCEEDED | INVALID_VALUE | VM_NOT_READY

fun substatus_value :: "FailedSubstatus \<Rightarrow> string" where
  "substatus_value QUOTA = ''QUOTA_EXCEEDED''"
| "substatus_value INSUFFICIENT_CAPACITY = ''INSUFFICIENT_CAPACITY''"
| "substatus_value KNOWN_INTERMITTENT = ''KNOWN_INTERMITTENT''"
| "substatus_value INTERRUPTED = ''INTERRUPTED''"
| "substatus_value UNSUPPORTED = ''UNSUPPORTED''"
| "substatus_value PROCESS_KILLED = ''PROCESS_KILLED''"
| "substatus_value UNCATEGORIZED = ''UNCATEGORIZED''"
| "substatus_value RESTORE_FAILED = ''RESTORE_FAILED''"
| "substatus_value FREEZE_FAILED = ''FREEZE_FAILED''"
| "substatus_value COMMAND_TIMEOUT = ''COMMAND_TIMEOUT''"
| "substatus_value RETRIES_EXCEEDED = ''RETRIES_EXCEEDED''"
| "substatus_value INVALID_VALUE = ''INVALID_VALUE''"
| "substatus_value VM_NOT_READY = ''VM_NOT_READY''"

definition RETRYABLE_SUBSTATUSES :: "FailedSubstatus list" where
  "RETRYABLE_SUBSTATUSES =
     [QUOTA, INSUFFICIENT_CAPACITY, KNOWN_INTERMITTENT, INTERRUPTED, UNSUPPORTED,
      COMMAND_TIMEOUT, RETRIES_EXCEEDED, VM_NOT_READY]"

section \<open>Exception classes\<close>

datatype builtin_class =
    BaseException | KeyboardInterrupt | Exception | NotImplementedError | ValueError
  | TypeError | KeyError | IndexError | AssertionError | AttributeError

datatype setup_error =
    PythonPackageRequirementUnfulfilled | MissingExecutableError | NoRunURIError
  | BadRunURIError | BadPreprovisionedDataError | InvalidSetupError
  | InvalidFlagConfigurationError | InvalidConfigurationError

datatype virtual_machine_error =
  RemoteCommandError | RemoteExceptionError | AuthError | VirtualMachineError | VmStateError

datatype vm_util_error =
    RestConnectionError | IpParsingError | UserSetupError | ThreadException
  | CalledProcessException | IssueCommandError | IssueCommandTimeoutError

datatype benchmarks_error =
    BucketCreationError | PrepareException | MissingObjectCredentialException | RunError
  | InsufficientCapacityCloudFailure | RateLimitExceededError | QuotaFailure
  | KnownIntermittentError | UnsupportedConfigError

datatype resource_error =
    CreationError | CreationInternalError | CleanupError | RetryableCreationError
  | RetryableDeletionError | GetError | RetryableGetError | UpdateError
  | SubclassNotFoundError | RestoreError | FreezeError | ProvisionTimeoutError

datatype config_error = InvalidValue | MissingOption | ParseError | UnrecognizedOption

datatype juju_error = TimeoutException | UnitErrorException

datatype retry_error =
  RetryError | TimeoutExceededRetryError | RetriesExceededRetryError | ImageNotFoundError

datatype exn_class =
    Builtin builtin_class
  | Error
  | Setup setup_error
  | VirtualMachine virtual_machine_error
  | VmUtil vm_util_error
  | Benchmarks benchmarks_error
  | Resource resource_error
  | Config config_error
  | Juju juju_error
  | Retrying retry_error
  | Subclass exn_class string "FailedSubstatus option"

text \<open>
  The method resolution order of a class: the class itself, then its base classes, nearest
  first.
\<close>

abbreviation exception_mro :: "exn_class list" where
  "exception_mro \<equiv> [Builtin Exception, Builtin BaseException]"

fun mro :: "exn_class \<Rightarrow> exn_class list" where
  "mro (Builtin c) =
     (if c = BaseException then [Builtin BaseException]
      else if c = KeyboardInterrupt then [Builtin KeyboardInterrupt, Builtin BaseException]
      else if c = Exception then exception_mro
      else Builtin c # exception_mro)"
| "mro Error = Error # exception_mro"
| "mro (VirtualMachine c) =
     (if c = VmStateError
      then VirtualMachine c # VirtualMachine VirtualMachineError # Error # exception_mro
      else VirtualMachine c # Error # exception_mro)"
| "mro (Retrying c) =
     (if c = TimeoutExceededRetryError \<or> c = RetriesExceededRetryError
      then Retrying c # Retrying RetryError # Error # exception_mro
      else Retrying c # Error # exception_mro)"
| "mro (Subclass b n st) = Subclass b n st # mro b"
| "mro c = c # Error # exception_mro"

definition issubclass :: "exn_class \<Rightarrow> exn_class \<Rightarrow> bool" where
  "issubclass c d = (d \<in> set (mro c))"

text \<open>The value a class body assigns to \<open>STATUS\<close>, if it assigns one.\<close>

fun own_status :: "exn_class \<Rightarrow> FailedSubstatus option" where
  "own_status Error = Some UNCATEGORIZED"
| "own_status (Benchmarks c) = map_of
     [(InsufficientCapacityCloudFailure, INSUFFICIENT_CAPACITY), (QuotaFailure, QUOTA),
      (KnownIntermittentError, KNOWN_INTERMITTENT), (UnsupportedConfigError, UNSUPPORTED)] c"
| "own_status (Resource c) = map_of
     [(CreationInternalError, KNOWN_INTERMITTENT), (RestoreError, RESTORE_FAILED),
      (FreezeError, FREEZE_FAILED), (ProvisionTimeoutError, KNOWN_INTERMITTENT)] c"
| "own_status (Config c) = map_of [(InvalidValue, INVALID_VALUE)] c"
| "own_status (Retrying c) = map_of
     [(TimeoutExceededRetryError, COMMAND_TIMEOUT),
      (RetriesExceededRetryError, RETRIES_EXCEEDED), (ImageNotFoundError, UNSUPPORTED)] c"
| "own_status (Subclass b n st) = st"
| "own_status c = None"

fun first_some :: "'a option list \<Rightarrow> 'a option" where
  "first_some [] = None"
| "first_some (Some x # xs) = Some x"
| "first_some (None # xs) = first_some xs"

definition STATUS :: "exn_class \<Rightarrow> FailedSubstatus option" where
  "STATUS c = first_some (map own_status (mro c))"

text \<open>\<open>__name__\<close> of a class.\<close>

fun class_name :: "exn_class \<Rightarrow> string" where
  "class_name (Builtin c) = (case c of BaseException \<Rightarrow> ''BaseException''
     | KeyboardInterrupt \<Rightarrow> ''KeyboardInterrupt'' | Exception \<Rightarrow> ''Exception''
     | NotImplementedError \<Rightarrow> ''NotImplementedError'' | ValueError \<Rightarrow> ''ValueError''
     | TypeError \<Rightarrow> ''TypeError'' | KeyError \<Rightarrow> ''KeyError'' | IndexError \<Rightarrow> ''IndexError''
     | AssertionError \<Rightarrow> ''AssertionError'' | AttributeError \<Rightarrow> ''AttributeError'')"
| "class_name Error = ''Error''"
| "class_name (Setup c) = (case c of
       PythonPackageRequirementUnfulfilled \<Rightarrow> ''PythonPackageRequirementUnfulfilled''
     | MissingExecutableError \<Rightarrow> ''MissingExecutableError'' | NoRunURIError \<Rightarrow> ''NoRunURIError''
     | BadRunURIError \<Rightarrow> ''BadRunURIError''
     | BadPreprovisionedDataError \<Rightarrow> ''BadPreprovisionedDataError''
     | InvalidSetupError \<Rightarrow> ''InvalidSetupError''
     | InvalidFlagConfigurationError \<Rightarrow> ''InvalidFlagConfigurationError''
     | InvalidConfigurationError \<Rightarrow> ''InvalidConfigurationError'')"
| "class_name (VirtualMachine c) = (case c of RemoteCommandError \<Rightarrow> ''RemoteCommandError''
     | RemoteExceptionError \<Rightarrow> ''RemoteExceptionError'' | AuthError \<Rightarrow> ''AuthError''
     | VirtualMachineError \<Rightarrow> ''VirtualMachineError'' | VmStateError \<Rightarrow> ''VmStateError'')"
| "class_name (VmUtil c) = (case c of RestConnectionError \<Rightarrow> ''RestConnectionError''
     | IpParsingError \<Rightarrow> ''IpParsingError'' | UserSetupError \<Rightarrow> ''UserSetupError''
     | ThreadException \<Rightarrow> ''ThreadException''
     | CalledProcessException \<Rightarrow> ''CalledProcessException''
     | IssueCommandError \<Rightarrow> ''IssueCommandError''
     | IssueCommandTimeoutError \<Rightarrow> ''IssueCommandTimeoutError'')"
| "class_name (Benchmarks c) = (case c of BucketCreationError \<Rightarrow> ''BucketCreationError''
     | PrepareException \<Rightarrow> ''PrepareException''
     | MissingObjectCredentialException \<Rightarrow> ''MissingObjectCredentialException''
     | RunError \<Rightarrow> ''RunError''
     | InsufficientCapacityCloudFailure \<Rightarrow> ''InsufficientCapacityCloudFailure''
     | RateLimitExceededError \<Rightarrow> ''RateLimitExceededError'' | QuotaFailure \<Rightarrow> ''QuotaFailure''
     | KnownIntermittentError \<Rightarrow> ''KnownIntermittentError''
     | UnsupportedConfigError \<Rightarrow> ''UnsupportedConfigError'')"
| "class_name (Resource c) = (case c of CreationError \<Rightarrow> ''CreationError''
     | CreationInternalError \<Rightarrow> ''CreationInternalError'' | CleanupError \<Rightarrow> ''CleanupError''
     | RetryableCreationError \<Rightarrow> ''RetryableCreationError''
     | RetryableDeletionError \<Rightarrow> ''RetryableDeletionError'' | GetError \<Rightarrow> ''GetError''
     | RetryableGetError \<Rightarrow> ''RetryableGetError'' | UpdateError \<Rightarrow> ''UpdateError''
     | SubclassNotFoundError \<Rightarrow> ''SubclassNotFoundError'' | RestoreError \<Rightarrow> ''RestoreError''
     | FreezeError \<Rightarrow> ''FreezeError'' | ProvisionTimeoutError \<Rightarrow> ''ProvisionTimeoutError'')"
| "class_name (Config c) = (case c of InvalidValue \<Rightarrow> ''InvalidValue''
     | MissingOption \<Rightarrow> ''MissingOption'' | ParseError \<Rightarrow> ''ParseError''
     | UnrecognizedOption \<Rightarrow> ''UnrecognizedOption'')"
| "class_name (Juju c) = (case c of TimeoutException \<Rightarrow> ''TimeoutException''
     | UnitErrorException \<Rightarrow> ''UnitErrorException'')"
| "class_name (Retrying c) = (case c of RetryError \<Rightarrow> ''RetryError''
     | TimeoutExceededRetryError \<Rightarrow> ''TimeoutExceededRetryError''
     | RetriesExceededRetryError \<Rightarrow> ''RetriesExceededRetryError''
     | ImageNotFoundError \<Rightarrow> ''ImageNotFoundError'')"
| "class_name (Subclass b n st) = n"

text \<open>An exception instance: its class and \<open>str(e)\<close>.\<close>

record exn =
  type_of :: exn_class
  str_of :: string

definition exn :: "exn_class \<Rightarrow> string \<Rightarrow> exn" where
  "exn c m = \<lparr>type_of = c, str_of = m\<rparr>"

definition isinstance :: "exn \<Rightarrow> exn_class \<Rightarrow> bool" where
  "isinstance e c = issubclass (type_of e) c"

text \<open>
  Some \<open>except\<close> clauses of the code: \<open>except Exception\<close> and
  \<open>except (Exception, KeyboardInterrupt)\<close>.
\<close>

definition is_exception :: "exn \<Rightarrow> bool" where
  "is_exception e = isinstance e (Builtin Exception)"

definition is_interrupt :: "exn \<Rightarrow> bool" where
  "is_interrupt e = isinstance e (Builtin KeyboardInterrupt)"

text \<open>Exceptions that the language raises.\<close>

definition zero_division :: exn where
  "zero_division = exn (Subclass (Builtin Exception) ''ZeroDivisionError'' None) ''division by zero''"

definition missing_key :: "string \<Rightarrow> exn" where
  "missing_key k = exn (Builtin KeyError) k"

definition no_number :: exn where
  "no_number = exn (Builtin ValueError) ''could not convert string to float''"

definition index_error :: exn where
  "index_error = exn (Builtin IndexError) ''list index out of range''"

section \<open>The status of an exception\<close>

text \<open>
  The classes below a class, each with the classes defined directly from it in the order they
  were created (\<open>__subclasses__()\<close>).  The class body of \<open>QuotaFailure\<close> creates
  \<open>RateLimitExceededError\<close> before \<open>QuotaFailure\<close> itself exists.  \<open>extra c\<close> are the classes
  that other modules derive from \<open>c\<close>, in the order they were imported.
\<close>

datatype class_tree = ClassNode exn_class "class_tree list"

fun root_class :: "class_tree \<Rightarrow> exn_class" where
  "root_class (ClassNode c ts) = c"

definition error_subclasses :: "exn_class list" where
  "error_subclasses =
     map Setup [PythonPackageRequirementUnfulfilled, MissingExecutableError, NoRunURIError,
       BadRunURIError, BadPreprovisionedDataError, InvalidSetupError,
       InvalidFlagConfigurationError, InvalidConfigurationError] @
     map VirtualMachine [RemoteCommandError, RemoteExceptionError, AuthError,
       VirtualMachineError] @
     map VmUtil [RestConnectionError, IpParsingError, UserSetupError, ThreadException,
       CalledProcessException, IssueCommandError, IssueCommandTimeoutError] @
     map Benchmarks [BucketCreationError, PrepareException, MissingObjectCredentialException,
       RunError, InsufficientCapacityCloudFailure, RateLimitExceededError, QuotaFailure,
       KnownIntermittentError, UnsupportedConfigError] @
     map Resource [CreationError, CreationInternalError, CleanupError, RetryableCreationError,
       RetryableDeletionError, GetError, RetryableGetError, UpdateError,
       SubclassNotFoundError, RestoreError, FreezeError, ProvisionTimeoutError] @
     map Config [InvalidValue, MissingOption, ParseError, UnrecognizedOption] @
     map Juju [TimeoutException, UnitErrorException]"

definition error_tree :: "(exn_class \<Rightarrow> class_tree list) \<Rightarrow> class_tree" where
  "error_tree extra = ClassNode Error
     (map (\<lambda>c. ClassNode c
        (if c = VirtualMachine VirtualMachineError
         then ClassNode (VirtualMachine VmStateError) (extra (VirtualMachine VmStateError))
                # extra c
         else extra c)) error_subclasses @ extra Error)"

text \<open>What \<open>vm_util.py\<close>, imported after \<open>errors.py\<close>, adds below \<open>Error\<close>.\<close>

fun vm_util_classes :: "exn_class \<Rightarrow> class_tree list" where
  "vm_util_classes Error =
     [ClassNode (Retrying RetryError)
        [ClassNode (Retrying TimeoutExceededRetryError) [],
         ClassNode (Retrying RetriesExceededRetryError) []],
      ClassNode (Retrying ImageNotFoundError) []]"
| "vm_util_classes c = []"

fun GetAllErrorSubclasses :: "class_tree \<Rightarrow> exn_class list" where
  "GetAllErrorSubclasses (ClassNode c ts) =
     concat (map (\<lambda>t. root_class t # GetAllErrorSubclasses t) ts)"

definition categorized :: "exn_class \<Rightarrow> bool" where
  "categorized c = (STATUS c \<noteq> None \<and> STATUS c \<noteq> Some UNCATEGORIZED)"

fun status_from_text :: "exn_class list \<Rightarrow> string \<Rightarrow> FailedSubstatus" where
  "status_from_text [] txt = UNCATEGORIZED"
| "status_from_text (c # cs) txt =
     (if categorized c \<and> str_in (class_name c) txt then the (STATUS c)
      else status_from_text cs txt)"

definition GetBenchmarkStatusFromException :: "class_tree \<Rightarrow> exn \<Rightarrow> FailedSubstatus" where
  "GetBenchmarkStatusFromException tree e =
     (if isinstance e (Builtin KeyboardInterrupt)
         \<or> str_in (class_name (Builtin KeyboardInterrupt)) (str_of e) then PROCESS_KILLED
      else if isinstance e Error \<and> STATUS (type_of e) \<noteq> Some UNCATEGORIZED
        then the (STATUS (type_of e))
      else status_from_text (GetAllErrorSubclasses tree) (str_of e))"

section \<open>Lemmas\<close>

lemmas exn_defs = exn_def isinstance_def issubclass_def is_exception_def is_interrupt_def

lemma type_of_exn [simp]: "type_of (exn c m) = c"
  by (simp add: exn_def)

lemma str_of_exn [simp]: "str_of (exn c m) = m"
  by (simp add: exn_def)

lemma isinstance_exn [simp]: "isinstance (exn c m) d = issubclass c d"
  by (simp add: isinstance_def)

lemma mro_self: "c \<in> set (mro c)"
  by (cases c) auto

lemma issubclass_refl [simp]: "issubclass c c"
  by (simp add: issubclass_def mro_self)

lemma issubclass_Subclass: "issubclass b d \<Longrightarrow> issubclass (Subclass b n st) d"
  by (simp add: issubclass_def)

text \<open>Below \<open>Error\<close> every class reaches \<open>Error\<close>, whose own status is set.\<close>

lemma first_some_None: "first_some xs = None \<longleftrightarrow> (\<forall>x \<in> set xs. x = None)"
  by (induction xs rule: first_some.induct) auto

lemma error_has_status: "issubclass c Error \<Longrightarrow> STATUS c \<noteq> None"
  unfolding STATUS_def issubclass_def first_some_None
  using own_status.simps(1) by (metis image_eqI list.set_map option.distinct(1))

lemma STATUS_Subclass:
  "STATUS (Subclass b n st) = (case st of None \<Rightarrow> STATUS b | Some x \<Rightarrow> Some x)"
  by (cases st) (simp_all add: STATUS_def)

lemma status_from_text_uncategorized:
  "status_from_text cs txt = UNCATEGORIZED \<longleftrightarrow>
     (\<forall>c \<in> set cs. categorized c \<longrightarrow> \<not> str_in (class_name c) txt)"
  by (induction cs) (auto simp: categorized_def)

lemma status_from_text_named:
  "status_from_text cs txt \<noteq> UNCATEGORIZED \<Longrightarrow>
     \<exists>c \<in> set cs. str_in (class_name c) txt \<and> STATUS c = Some (status_from_text cs txt)"
  by (induction cs) (auto simp: categorized_def)

lemma status_from_text_unknown:
  "(\<forall>c \<in> set cs. \<not> str_in (class_name c) txt) \<Longrightarrow> status_from_text cs txt = UNCATEGORIZED"
  by (induction cs) auto

text \<open>Every class the traversal yields is an \<open>Error\<close> if the tree respects inheritance.\<close>

fun inherits_from :: "exn_class \<Rightarrow> class_tree \<Rightarrow> bool" where
  "inherits_from d (ClassNode c ts) = (issubclass c d \<and> (\<forall>t \<in> set ts. inherits_from d t))"

lemma inherits_from_root: "inherits_from d t \<Longrightarrow> issubclass (root_class t) d"
  by (cases t) simp

lemma GetAllErrorSubclasses_inherit:
  "inherits_from d t \<Longrightarrow> c \<in> set (GetAllErrorSubclasses t) \<Longrightarrow> issubclass c d"
proof (induction t rule: GetAllErrorSubclasses.induct)
  case (1 c' ts)
  then obtain u where u: "u \<in> set ts" "c = root_class u \<or> c \<in> set (GetAllErrorSubclasses u)"
    by auto
  then have "inherits_from d u" using "1.prems"(1) by simp
  with u "1.IH" show ?case using inherits_from_root by blast
qed

lemma pkb_tree_inherits: "inherits_from Error (error_tree vm_util_classes)"
  by (simp add: error_tree_def error_subclasses_def issubclass_def)

section \<open>Properties\<close>

text \<open>A class defined anywhere that derives from a class of PKB without assigning
  STATUS reports the status of that class, and one that assigns it reports its own: the status
  a raised error reports is that of the nearest class in its ancestry that sets one, whatever
  its text says, unless the text names KeyboardInterrupt.\<close>

lemma status_of_raised_error:
  assumes "isinstance e Error" and "STATUS (type_of e) \<noteq> Some UNCATEGORIZED"
    and "\<not> str_in ''KeyboardInterrupt'' (str_of e)" and "\<not> isinstance e (Builtin KeyboardInterrupt)"
  shows "Some (GetBenchmarkStatusFromException tree e) = STATUS (type_of e)
    \<and> (\<forall>n. GetBenchmarkStatusFromException tree
          \<lparr>type_of = Subclass (type_of e) n None, str_of = str_of e\<rparr>
        = GetBenchmarkStatusFromException tree e)"
proof -
  obtain st where st: "STATUS (type_of e) = Some st"
    using error_has_status assms(1) by (auto simp: isinstance_def)
  with assms show ?thesis
    by (simp add: GetBenchmarkStatusFromException_def isinstance_def issubclass_def STATUS_Subclass)
qed

theorem status_of_raised_error_witness:
  "GetBenchmarkStatusFromException (error_tree vm_util_classes)
     (exn (Resource RestoreError) ''Error restoring resource'') = RESTORE_FAILED"
proof -
  have "STATUS (Resource RestoreError) = Some RESTORE_FAILED" by (simp add: STATUS_def)
  then show ?thesis
    using status_of_raised_error [of "exn (Resource RestoreError) ''Error restoring resource''"
        "error_tree vm_util_classes"]
    by (simp add: issubclass_def str_in_Cons_right str_in_Nil_right)
qed

text \<open>An error whose own status is uncategorized, such as the ThreadException that wraps
  the traceback of a background thread, is categorized exactly when its text names a class of
  the tree that has a status, and it then gets the status of a class it names.\<close>

lemma status_of_wrapped_error:
  assumes "\<not> categorized (type_of e)" and "isinstance e Error"
    and "\<not> isinstance e (Builtin KeyboardInterrupt)" and "\<not> str_in ''KeyboardInterrupt'' (str_of e)"
  shows "(GetBenchmarkStatusFromException tree e \<noteq> UNCATEGORIZED \<longleftrightarrow>
      (\<exists>c \<in> set (GetAllErrorSubclasses tree). categorized c \<and> str_in (class_name c) (str_of e)))
    \<and> (GetBenchmarkStatusFromException tree e \<noteq> UNCATEGORIZED \<longrightarrow>
      (\<exists>c \<in> set (GetAllErrorSubclasses tree). str_in (class_name c) (str_of e)
         \<and> STATUS c = Some (GetBenchmarkStatusFromException tree e)))"
proof -
  have "STATUS (type_of e) = Some UNCATEGORIZED"
    using assms(1,2) error_has_status [of "type_of e"] by (auto simp: categorized_def isinstance_def)
  then have "GetBenchmarkStatusFromException tree e
      = status_from_text (GetAllErrorSubclasses tree) (str_of e)"
    using assms by (simp add: GetBenchmarkStatusFromException_def)
  then show ?thesis
    using status_from_text_uncategorized status_from_text_named by metis
qed

theorem status_of_wrapped_error_witness:
  "GetBenchmarkStatusFromException (error_tree vm_util_classes)
     (exn (VmUtil ThreadException) ''raise CreationInternalError'') \<noteq> UNCATEGORIZED"
proof -
  let ?e = "exn (VmUtil ThreadException) ''raise CreationInternalError''"
  let ?t = "error_tree vm_util_classes"
  have "Resource CreationInternalError \<in> set (GetAllErrorSubclasses ?t)"
    by (simp add: error_tree_def error_subclasses_def)
  moreover have "categorized (Resource CreationInternalError)"
    by (simp add: categorized_def STATUS_def)
  ultimately have ex: "\<exists>c \<in> set (GetAllErrorSubclasses ?t). categorized c
      \<and> str_in (class_name c) (str_of ?e)"
    by (auto simp: str_in_Cons_right intro!: bexI [of _ "Resource CreationInternalError"])
  have "\<not> categorized (type_of ?e)" "isinstance ?e Error"
    "\<not> isinstance ?e (Builtin KeyboardInterrupt)" "\<not> str_in ''KeyboardInterrupt'' (str_of ?e)"
    by (simp_all add: categorized_def STATUS_def issubclass_def str_in_Cons_right str_in_Nil_right)
  from status_of_wrapped_error [OF this, of ?t] ex show ?thesis by blast
qed

text \<open>The status of a rate-limit failure depends on where it surfaces: raised directly
  it is uncategorized, since RateLimitExceededError only stands inside the body of QuotaFailure
  and derives from Error, while the traceback of a thread that raised it spells the enclosing
  class and is reported as a quota failure.\<close>

lemma rate_limit_status_depends_on_wrapping:
  "GetBenchmarkStatusFromException (error_tree vm_util_classes)
     (exn (Benchmarks RateLimitExceededError) ''quota'') = UNCATEGORIZED
   \<and> GetBenchmarkStatusFromException (error_tree vm_util_classes)
     (exn (VmUtil ThreadException) ''QuotaFailure.RateLimitExceededError'') = QUOTA"
  by (simp add: GetBenchmarkStatusFromException_def issubclass_def STATUS_def categorized_def
      error_tree_def error_subclasses_def str_in_Cons_right str_in_Nil_right)

end
