(* ===== verification/Retry.thy ===== *)
theory Retry
  imports Errors
begin

text \<open>
  The clock, the random numbers and the retry decorator of \<open>perfkitbenchmarker/vm_util.py\<close>.

  A machine carries the wall clock \<open>now\<close>, the time that passes unobserved before each reading
  of the clock (\<open>lags\<close>), the numbers that \<open>random.random()\<close> will return (\<open>draws\<close>) and the rest
  of the world.  Times are exact rationals where Python has floats.

  \<open>Retry\<close> is the decorator; its loop may run forever (no deadline and no retry limit), so it is
  a partial function whose \<open>None\<close> means that the call does not return.
\<close>

section \<open>The machine\<close>

record 'w mach =
  now :: rat
  lags :: "nat \<Rightarrow> rat"
  draws :: "nat \<Rightarrow> rat"
  world :: 'w

text \<open>\<open>time.time()\<close>, \<open>random.random()\<close> and \<open>time.sleep(d)\<close>\<close>

definition time_time :: "(exn, 'w mach, rat) py" where
  "time_time = (\<lambda>m. let t = now m + lags m 0
     in Some (Inr t, m\<lparr>now := t, lags := (\<lambda>i. lags m (Suc i))\<rparr>))"

definition random_random :: "(exn, 'w mach, rat) py" where
  "random_random = (\<lambda>m. Some (Inr (draws m 0), m\<lparr>draws := (\<lambda>i. draws m (Suc i))\<rparr>))"

definition time_sleep :: "rat \<Rightarrow> (exn, 'w mach, unit) py" where
  "time_sleep d = (\<lambda>m. if d < 0 then Some (Inl (exn (Builtin ValueError) ''sleep length''), m)
     else Some (Inr (), m\<lparr>now := now m + d\<rparr>))"

lemmas mach_ops = time_time_def random_random_def time_sleep_def Let_def

text \<open>Time does not run backwards and random numbers lie in \<open>[0, 1)\<close>.\<close>

definition sane :: "'w mach \<Rightarrow> bool" where
  "sane m = (\<forall>i. 0 \<le> lags m i \<and> 0 \<le> draws m i \<and> draws m i < 1)"

text \<open>The rest of a machine, without its clock and its random numbers.\<close>

definition retick :: "'w mach \<Rightarrow> rat \<Rightarrow> (nat \<Rightarrow> rat) \<Rightarrow> (nat \<Rightarrow> rat) \<Rightarrow> 'w mach" where
  "retick m t l d = m\<lparr>now := t, lags := l, draws := d\<rparr>"

lemma world_retick [simp]: "world (retick m t l d) = world m"
  by (simp add: retick_def)

lemma retick_retick [simp]: "retick (retick m t l d) t' l' d' = retick m t' l' d'"
  by (simp add: retick_def)

text \<open>Nothing but the clock and the random numbers changes, and time does not run backwards.\<close>

definition passes :: "'w mach \<Rightarrow> 'w mach \<Rightarrow> bool" where
  "passes m m' = (\<exists>t l d. m' = retick m t l d \<and> (sane m \<longrightarrow> sane m' \<and> now m \<le> now m'))"

lemma passes_refl: "passes m m"
  unfolding passes_def
  by (rule exI [of _ "now m"], rule exI [of _ "lags m"], rule exI [of _ "draws m"])
     (simp add: retick_def)

lemma passes_trans: "passes m m1 \<Longrightarrow> passes m1 m2 \<Longrightarrow> passes m m2"
  by (fastforce simp: passes_def)

lemma passes_world [simp]: "passes m m' \<Longrightarrow> world m' = world m"
  by (auto simp: passes_def)

lemma passes_time: "passes m m' \<Longrightarrow> sane m \<Longrightarrow> sane m' \<and> now m \<le> now m'"
  by (auto simp: passes_def)

lemma passes_clock:
  "passes m (retick m (now m + lags m 0) (\<lambda>i. lags m (Suc i)) (draws m))"
  "passes m (retick m (now m + lags m 0) (\<lambda>i. lags m (Suc i)) (\<lambda>i. draws m (Suc i)))"
  unfolding passes_def by (intro exI conjI, rule refl, simp add: sane_def retick_def)+

lemma passes_sleep: "0 \<le> d \<Longrightarrow> passes m (retick m (now m + d) (lags m) (draws m))"
  unfolding passes_def by (intro exI conjI, rule refl, simp add: sane_def retick_def)

lemma time_time_eq:
  "time_time m = (let m' = retick m (now m + lags m 0) (\<lambda>i. lags m (Suc i)) (draws m)
     in Some (Inr (now m'), m'))"
  by (simp add: time_time_def retick_def Let_def)

section \<open>The retry decorator\<close>

record retry_config =
  poll_interval :: rat
  max_retries :: int
  timeout :: "rat option"
  fuzz :: rat
  retryable :: "exn \<Rightarrow> bool"

text \<open>The defaults of the decorator's arguments: \<open>retryable_exceptions=None\<close> is \<open>Exception\<close>.\<close>

definition default_retry :: retry_config where
  "default_retry = \<lparr>poll_interval = 30, max_retries = -1, timeout = None, fuzz = 1 / 2,
     retryable = is_exception\<rparr>"

definition retry_sleep_time :: "retry_config \<Rightarrow> rat \<Rightarrow> rat" where
  "retry_sleep_time c u = poll_interval c * (1 - fuzz c + u * fuzz c)"

text \<open>
  What follows a call of the wrapped function in the body of the \<open>while True\<close> loop: the call
  returned or raised \<open>r\<close>.  \<open>tries\<close> counts the calls up to this one and \<open>deadline\<close> is \<open>None\<close> for
  \<open>float('inf')\<close>.
\<close>

datatype ('a, 'm) retry_next = Finish "exn + 'a" 'm | Again 'm

definition retry_handler ::
  "retry_config \<Rightarrow> rat option \<Rightarrow> int \<Rightarrow> exn + 'a \<Rightarrow> 'w mach \<Rightarrow> ('a, 'w mach) retry_next" where
  "retry_handler c deadline tries r m =
     (case r of
        Inr x \<Rightarrow> Finish (Inr x) m
      | Inl e \<Rightarrow>
          if \<not> retryable c e then Finish (Inl e) m
          else
            let sleep_time = retry_sleep_time c (draws m 0);
                t = now m + lags m 0;
                m' = retick m t (\<lambda>i. lags m (Suc i)) (\<lambda>i. draws m (Suc i))
            in if (case deadline of None \<Rightarrow> False | Some d \<Rightarrow> t + sleep_time \<ge> d)
               then Finish (Inl (exn (Retrying TimeoutExceededRetryError) [])) m'
               else if max_retries c \<ge> 0 \<and> tries > max_retries c
               then Finish (Inl (exn (Retrying RetriesExceededRetryError) [])) m'
               else if sleep_time < 0
               then Finish (Inl (exn (Builtin ValueError) ''sleep length'')) m'
               else Again (retick m' (t + sleep_time) (lags m') (draws m')))"

partial_function (option) retry_loop ::
  "retry_config \<Rightarrow> rat option \<Rightarrow> (exn, 'w mach, 'a) py \<Rightarrow> int \<Rightarrow> 'w mach
     \<Rightarrow> ((exn + 'a) \<times> 'w mach) option" where
  "retry_loop c deadline f tries m =
     (case f m of
        None \<Rightarrow> None
      | Some rm \<Rightarrow>
         (case retry_handler c deadline (tries + 1) (fst rm) (snd rm) of
            Finish r m' \<Rightarrow> Some (r, m')
          | Again m' \<Rightarrow> retry_loop c deadline f (tries + 1) m'))"

definition retry_timeout :: "rat \<Rightarrow> retry_config \<Rightarrow> rat" where
  "retry_timeout default_timeout c =
     (case timeout c of None \<Rightarrow> default_timeout | Some t \<Rightarrow> t)"

definition Retry :: "rat \<Rightarrow> retry_config \<Rightarrow> (exn, 'w mach, 'a) py \<Rightarrow> (exn, 'w mach, 'a) py" where
  "Retry default_timeout c f =
     (let local_timeout = retry_timeout default_timeout c
      in if local_timeout \<ge> 0
         then bindM time_time (\<lambda>t. retry_loop c (Some (t + local_timeout)) f 0)
         else retry_loop c None f 0)"

section \<open>What a retried call does\<close>

lemma retry_loop_success:
  "f m = Some (Inr x, m1) \<Longrightarrow> retry_loop c d f n m = Some (Inr x, m1)"
  by (simp add: retry_loop.simps retry_handler_def)

lemma retry_loop_propagates:
  "f m = Some (Inl e, m1) \<Longrightarrow> \<not> retryable c e \<Longrightarrow> retry_loop c d f n m = Some (Inl e, m1)"
  by (simp add: retry_loop.simps retry_handler_def)

text \<open>The errors of giving up, and how a call of the handler can end.\<close>

definition give_up_errors :: "exn set" where
  "give_up_errors = {exn (Retrying TimeoutExceededRetryError) [],
     exn (Retrying RetriesExceededRetryError) [], exn (Builtin ValueError) ''sleep length''}"


lemma retry_handler_cases:
  obtains (returned) x where "r = Inr x" "retry_handler c d n r m = Finish (Inr x) m"
  | (propagated) e where "r = Inl e" "\<not> retryable c e" "retry_handler c d n r m = Finish (Inl e) m"
  | (gave_up) e e' m' where "r = Inl e" "retryable c e" "e' \<in> give_up_errors"
      "retry_handler c d n r m = Finish (Inl e') m'" "passes m m'"
  | (again) e m' where "r = Inl e" "retryable c e"
      "retry_handler c d n r m = Again m'" "passes m m'"
proof (cases r)
  case (Inr x)
  then show ?thesis using returned by (simp add: retry_handler_def)
next
  case (Inl e)
  show ?thesis
  proof (cases "retryable c e")
    case False
    with Inl show ?thesis using propagated by (simp add: retry_handler_def)
  next
    case True
    let ?s = "retry_sleep_time c (draws m 0)" and ?t = "now m + lags m 0"
    let ?m = "retick m ?t (\<lambda>i. lags m (Suc i)) (\<lambda>i. draws m (Suc i))"
    have tick: "passes m ?m" by (rule passes_clock)
    let ?late = "case d of None \<Rightarrow> False | Some d \<Rightarrow> ?t + ?s \<ge> d"
    let ?spent = "max_retries c \<ge> 0 \<and> n > max_retries c"
    consider "?late" | "\<not> ?late" "?spent" | "\<not> ?late" "\<not> ?spent" "?s < 0"
      | "\<not> ?late" "\<not> ?spent" "\<not> ?s < 0" by blast
    then show ?thesis
    proof cases
      case 1
      with Inl True show ?thesis
        by (intro gave_up [OF _ _ _ _ tick, of e "exn (Retrying TimeoutExceededRetryError) []"])
           (simp_all add: retry_handler_def Let_def give_up_errors_def)
    next
      case 2
      with Inl True show ?thesis
        by (intro gave_up [OF _ _ _ _ tick, of e "exn (Retrying RetriesExceededRetryError) []"])
           (simp_all add: retry_handler_def Let_def give_up_errors_def)
    next
      case 3
      with Inl True show ?thesis
        by (intro gave_up [OF _ _ _ _ tick, of e "exn (Builtin ValueError) ''sleep length''"])
           (auto simp: retry_handler_def Let_def give_up_errors_def)
    next
      case 4
      have "passes ?m (retick ?m (now ?m + ?s) (lags ?m) (draws ?m))"
        by (rule passes_sleep) (use 4 in simp)
      moreover have "now ?m = ?t" by (simp add: retick_def)
      ultimately have tick4: "passes m (retick ?m (?t + ?s) (lags ?m) (draws ?m))"
        using passes_trans [OF tick] by simp
      from 4 Inl True show ?thesis
        by (intro again [OF _ _ _ tick4, of e])
           (auto simp: retry_handler_def Let_def)
    qed
  qed
qed

text \<open>
  The contract of a retried call, for partial correctness: if \<open>f\<close> keeps \<open>I\<close> when it fails with
  a retryable exception, \<open>I\<close> does not look at the clock, and the three ways to give up are
  covered by \<open>E\<close>, then the outcome of the last call is the outcome of the whole.
\<close>

lemma retry_loop_wp:
  assumes f: "\<And>m. I m \<Longrightarrow> wp f Q (\<lambda>e m'. if retryable c e then I m' else E e m') m"
    and tick: "\<And>m m'. I m \<Longrightarrow> passes m m' \<Longrightarrow> I m'"
    and give_up: "\<And>e m. I m \<Longrightarrow> e \<in> give_up_errors \<Longrightarrow> E e m"
    and I: "I m"
  shows "wp (retry_loop c d f n) Q E m"
proof -
  define P where "P rm = (case fst rm of Inl e \<Rightarrow> E e (snd rm) | Inr x \<Rightarrow> Q x (snd rm))" for rm
  have main: "I m \<longrightarrow> P rm" if ret: "retry_loop c d f n m = Some rm" for rm
  proof (rule retry_loop.raw_induct
      [where P = "\<lambda>c' d' f' n m rm. c' = c \<longrightarrow> f' = f \<longrightarrow> I m \<longrightarrow> P rm", OF _ ret,
       THEN mp, THEN mp, OF _ refl refl], intro impI)
    fix loop c' d' f' n m rm
    assume IH: "\<And>c' d' f' n m rm. loop c' d' f' n m = Some rm \<Longrightarrow> c' = c \<longrightarrow> f' = f \<longrightarrow> I m \<longrightarrow> P rm"
      and eq: "(case f' m of None \<Rightarrow> None
          | Some rm \<Rightarrow> (case retry_handler c' d' (n + 1) (fst rm) (snd rm) of
              Finish r m' \<Rightarrow> Some (r, m') | Again m' \<Rightarrow> loop c' d' f' (n + 1) m')) = Some rm"
      and same: "c' = c" "f' = f" and I: "I m"
    obtain r m1 where fm: "f m = Some (r, m1)"
      using eq same by (auto split: option.splits)
    note eq' = eq [unfolded same fm option.case fst_conv snd_conv]
    show "P rm"
    proof (cases rule: retry_handler_cases [of r c d' "n + 1" m1])
      case (returned x)
      with eq' fm f [OF I] show ?thesis by (auto simp: wp_def P_def)
    next
      case (propagated e)
      with eq' fm f [OF I] show ?thesis by (auto simp: wp_def P_def)
    next
      case (gave_up e e' m2)
      with fm f [OF I] have "I m1" by (simp add: wp_def)
      then have "E e' m2" using gave_up(3,5) give_up tick by blast
      with eq' gave_up(4) show ?thesis by (auto simp: P_def)
    next
      case (again e m2)
      with fm f [OF I] have "I m1" by (simp add: wp_def)
      then have "I m2" using again(4) by (rule tick)
      with eq' again(3) IH same show ?thesis by simp
    qed
  qed
  have "case r of Inl e \<Rightarrow> E e m' | Inr x \<Rightarrow> Q x m'"
    if "retry_loop c d f n m = Some (r, m')" for r m'
    using main [OF that] I by (cases r) (simp_all add: P_def)
  then show ?thesis by (simp add: wp_def split: option.split prod.split)
qed

lemma Retry_wp:
  assumes "\<And>m. I m \<Longrightarrow> wp f Q (\<lambda>e m'. if retryable c e then I m' else E e m') m"
    and tick: "\<And>m m'. I m \<Longrightarrow> passes m m' \<Longrightarrow> I m'"
    and "\<And>e m. I m \<Longrightarrow> e \<in> give_up_errors \<Longrightarrow> E e m"
    and I: "I m"
  shows "wp (Retry dflt c f) Q E m"
proof -
  have "I (retick m (now m + lags m 0) (\<lambda>i. lags m (Suc i)) (draws m))"
    using tick [OF I passes_clock(1)] .
  with assms retry_loop_wp [of I f Q c E] show ?thesis
    by (simp add: Retry_def Let_def wp_simps) (simp add: wp_def time_time_eq Let_def)
qed

section \<open>Termination and the number of attempts\<close>

text \<open>The shortest sleep between two attempts.\<close>

definition min_sleep :: "retry_config \<Rightarrow> rat" where
  "min_sleep c = poll_interval c * (1 - fuzz c)"

lemma retry_sleep_time_ge:
  assumes "0 \<le> poll_interval c" "0 \<le> fuzz c" "0 \<le> u"
  shows "min_sleep c \<le> retry_sleep_time c u"
  using assms by (simp add: retry_sleep_time_def min_sleep_def distrib_left)

text \<open>What a retried function may rely on and must keep: time moves forward.\<close>

definition keeps_time :: "(exn, 'w mach, 'a) py \<Rightarrow> bool" where
  "keeps_time f = (\<forall>m. sane m \<longrightarrow>
     (case f m of None \<Rightarrow> False | Some (r, m') \<Rightarrow> sane m' \<and> now m \<le> now m'))"

lemma keeps_timeD:
  "keeps_time f \<Longrightarrow> sane m \<Longrightarrow> \<exists>r m'. f m = Some (r, m') \<and> sane m' \<and> now m \<le> now m'"
  by (force simp: keeps_time_def split: option.splits)

lemma keeps_timeI:
  assumes "\<And>m. sane m \<Longrightarrow> \<exists>r m'. f m = Some (r, m') \<and> sane m' \<and> now m \<le> now m'"
  shows "keeps_time f"
  unfolding keeps_time_def
proof (intro allI impI)
  fix m :: "'a mach"
  assume "sane m"
  from assms [OF this] show "case f m of None \<Rightarrow> False | Some (r, m') \<Rightarrow> sane m' \<and> now m \<le> now m'"
    by auto
qed

lemma retry_handler_time:
  assumes "retry_handler c d n r m = Again m'" "sane m" "0 \<le> poll_interval c" "0 \<le> fuzz c"
  shows "sane m' \<and> now m + min_sleep c \<le> now m' \<and> (\<forall>D. d = Some D \<longrightarrow> now m' < D)"
proof -
  have "0 \<le> lags m 0" "0 \<le> draws m 0" using assms(2) by (auto simp: sane_def)
  with assms(3,4) have "min_sleep c \<le> lags m 0 + retry_sleep_time c (draws m 0)"
    using retry_sleep_time_ge [of c "draws m 0"] by simp
  with assms show ?thesis
    by (auto simp: retry_handler_def Let_def retick_def sane_def
        split: sum.splits if_splits option.splits)
qed

lemma retry_handler_Finish_time:
  assumes "retry_handler c d n r m = Finish r' m'" "sane m"
  shows "sane m' \<and> now m \<le> now m'"
  using assms by (cases rule: retry_handler_cases [of r c d n m]) (auto dest: passes_time)

lemma retry_loop_returns:
  assumes f: "keeps_time f" and c: "0 \<le> poll_interval c" "0 \<le> fuzz c" "0 < min_sleep c"
  shows "sane m \<Longrightarrow> D - now m \<le> of_nat k * min_sleep c
     \<Longrightarrow> \<exists>r m'. retry_loop c (Some D) f n m = Some (r, m') \<and> sane m' \<and> now m \<le> now m'"
proof (induction k arbitrary: m n)
  case (0 m n)
  obtain r m1 where fm: "f m = Some (r, m1)" "sane m1" "now m \<le> now m1"
    using keeps_timeD [OF f 0(1)] by blast
  show ?case
  proof (cases "retry_handler c (Some D) (n + 1) r m1")
    case (Finish r' m')
    with fm retry_handler_Finish_time [OF Finish fm(2)] show ?thesis
      by (auto simp: retry_loop.simps)
  next
    case (Again m')
    with retry_handler_time [OF Again fm(2) c(1,2)] fm(3) 0(2) c(3) show ?thesis by simp
  qed
next
  case (Suc k m n)
  obtain r m1 where fm: "f m = Some (r, m1)" "sane m1" "now m \<le> now m1"
    using keeps_timeD [OF f Suc.prems(1)] by blast
  show ?case
  proof (cases "retry_handler c (Some D) (n + 1) r m1")
    case (Finish r' m')
    with fm retry_handler_Finish_time [OF Finish fm(2)] show ?thesis
      by (auto simp: retry_loop.simps)
  next
    case (Again m')
    have *: "sane m'" and le: "now m1 + min_sleep c \<le> now m'"
      using retry_handler_time [OF Again fm(2) c(1,2)] by auto
    have "D - now m' \<le> of_nat k * min_sleep c"
      using Suc.prems(2) fm(3) le by (simp add: distrib_right)
    from Suc.IH [OF * this, of "n + 1"] obtain q m2 where
      "retry_loop c (Some D) f (n + 1) m' = Some (q, m2)" "sane m2" "now m' \<le> now m2" by blast
    with Again fm le c(3) show ?thesis
      by (subst retry_loop.simps) auto
  qed
qed

text \<open>So a decorated function with a deadline keeps time itself.\<close>

definition bounded_retry :: "rat \<Rightarrow> retry_config \<Rightarrow> bool" where
  "bounded_retry dflt c = (0 \<le> poll_interval c \<and> 0 \<le> fuzz c \<and> 0 < min_sleep c
     \<and> 0 \<le> retry_timeout dflt c)"

lemma keeps_time_Retry:
  assumes f: "keeps_time f" and c: "bounded_retry dflt c"
  shows "keeps_time (Retry dflt c f)"
proof (rule keeps_timeI)
  fix m :: "'a mach"
  assume m: "sane m"
  let ?m = "retick m (now m + lags m 0) (\<lambda>i. lags m (Suc i)) (draws m)"
  let ?D = "now ?m + retry_timeout dflt c"
  have t: "sane ?m" "now m \<le> now ?m" using passes_time [OF passes_clock(1) m] by auto
  obtain k :: nat where "(?D - now ?m) / min_sleep c \<le> of_nat k"
    using real_arch_simple by blast
  then have "?D - now ?m \<le> of_nat k * min_sleep c"
    using c by (simp add: bounded_retry_def pos_divide_le_eq)
  with retry_loop_returns [OF f _ _ _ t(1)] c obtain r m' where
    "retry_loop c (Some ?D) f 0 ?m = Some (r, m')" "sane m'" "now ?m \<le> now m'"
    unfolding bounded_retry_def by blast
  with t c show "\<exists>r m'. Retry dflt c f m = Some (r, m') \<and> sane m' \<and> now m \<le> now m'"
    by (fastforce simp: Retry_def Let_def bindM_def time_time_eq bounded_retry_def)
qed

named_theorems keeps_time_intros \<open>computations under which time moves forward\<close>

declare keeps_time_Retry [keeps_time_intros]

lemma keeps_time_ret [keeps_time_intros]: "keeps_time (ret x)"
  by (rule keeps_timeI) (simp add: ret_def)

lemma keeps_time_raise [keeps_time_intros]: "keeps_time (raise e)"
  by (rule keeps_timeI) (simp add: raise_def)

lemma keeps_time_getM [keeps_time_intros]: "keeps_time (getM g)"
  by (rule keeps_timeI) (simp add: getM_def)

lemma keeps_time_world [keeps_time_intros]:
  "keeps_time (modifyM (\<lambda>m. m\<lparr>world := g m\<rparr>))"
  by (rule keeps_timeI) (simp add: modifyM_def sane_def)

lemma keeps_time_time [keeps_time_intros]: "keeps_time time_time"
  by (rule keeps_timeI) (auto simp: time_time_eq Let_def dest: passes_time [OF passes_clock(1)])

lemma keeps_time_sleep [keeps_time_intros]: "keeps_time (time_sleep d)"
  by (rule keeps_timeI) (simp add: time_sleep_def sane_def)

lemma keeps_time_bindM [keeps_time_intros]:
  "keeps_time f \<Longrightarrow> (\<And>x. keeps_time (g x)) \<Longrightarrow> keeps_time (bindM f g)"
proof (rule keeps_timeI)
  fix m :: "'a mach"
  assume f: "keeps_time f" and g: "\<And>x. keeps_time (g x)" and m: "sane m"
  obtain r m1 where 1: "f m = Some (r, m1)" "sane m1" "now m \<le> now m1"
    using keeps_timeD [OF f m] by blast
  show "\<exists>r m'. bindM f g m = Some (r, m') \<and> sane m' \<and> now m \<le> now m'"
  proof (cases r)
    case (Inr x)
    with 1 keeps_timeD [OF g 1(2), of x] show ?thesis by (fastforce simp: bindM_def)
  qed (use 1 in \<open>simp add: bindM_def\<close>)
qed

lemma keeps_time_thenM [keeps_time_intros]:
  "keeps_time f \<Longrightarrow> keeps_time g \<Longrightarrow> keeps_time (thenM f g)"
  by (simp add: thenM_def keeps_time_bindM)

lemma keeps_time_catchM [keeps_time_intros]:
  "keeps_time f \<Longrightarrow> (\<And>e. keeps_time (h e)) \<Longrightarrow> keeps_time (catchM f h)"
proof (rule keeps_timeI)
  fix m :: "'a mach"
  assume f: "keeps_time f" and h: "\<And>x. keeps_time (h x)" and m: "sane m"
  obtain r m1 where 1: "f m = Some (r, m1)" "sane m1" "now m \<le> now m1"
    using keeps_timeD [OF f m] by blast
  show "\<exists>r m'. catchM f h m = Some (r, m') \<and> sane m' \<and> now m \<le> now m'"
  proof (cases r)
    case (Inl e)
    with 1 keeps_timeD [OF h 1(2), of e] show ?thesis by (fastforce simp: catchM_def)
  qed (use 1 in \<open>simp add: catchM_def\<close>)
qed

lemma keeps_time_whenM [keeps_time_intros]: "keeps_time f \<Longrightarrow> keeps_time (whenM b f)"
  by (simp add: whenM_def keeps_time_ret)

lemma keeps_time_if [keeps_time_intros]:
  "keeps_time f \<Longrightarrow> keeps_time g \<Longrightarrow> keeps_time (if b then f else g)"
  by simp

lemma keeps_time_seqM [keeps_time_intros]: "list_all keeps_time ms \<Longrightarrow> keeps_time (seqM ms)"
  by (induction ms) (auto intro: keeps_time_ret keeps_time_thenM)

text \<open>A counter of the calls of \<open>f\<close>, kept somewhere in the world.\<close>

definition counts_calls :: "('w mach \<Rightarrow> nat) \<Rightarrow> (exn, 'w mach, 'a) py \<Rightarrow> bool" where
  "counts_calls cnt f =
     ((\<forall>m r m'. f m = Some (r, m') \<longrightarrow> cnt m' = Suc (cnt m)) \<and>
      (\<forall>m m'. passes m m' \<longrightarrow> cnt m' = cnt m))"

lemma retry_handler_cnt:
  assumes "counts_calls cnt f"
  shows "retry_handler c d n r m = Again m' \<Longrightarrow> cnt m' = cnt m"
    and "retry_handler c d n r m = Finish r' m' \<Longrightarrow> cnt m' = cnt m"
  using assms by (cases rule: retry_handler_cases [of r c d n m]; auto simp: counts_calls_def)+

lemma retry_handler_Again_tries:
  "retry_handler c d n r m = Again m' \<Longrightarrow> 0 \<le> max_retries c \<Longrightarrow> n \<le> max_retries c"
  by (auto simp: retry_handler_def Let_def split: sum.splits if_splits)

lemma retry_loop_attempts:
  assumes cnt: "counts_calls cnt f" and max: "0 \<le> max_retries c"
  shows "retry_loop c d f n m = Some (r, m') \<Longrightarrow> n \<le> max_retries c
     \<Longrightarrow> int (cnt m') \<le> int (cnt m) + max_retries c + 1 - n"
proof (induction "nat (max_retries c - n)" arbitrary: n m rule: less_induct)
  case less
  obtain q m1 where fm: "f m = Some (q, m1)"
    using less.prems(1) by (subst (asm) retry_loop.simps) (auto split: option.splits)
  have c1: "cnt m1 = Suc (cnt m)" using cnt fm by (simp add: counts_calls_def)
  show ?case
  proof (cases "retry_handler c d (n + 1) q m1")
    case (Finish r' m2)
    with less.prems(1) fm have "m' = m2" by (simp add: retry_loop.simps)
    with retry_handler_cnt(2) [OF cnt Finish] c1 less.prems(2) show ?thesis by simp
  next
    case (Again m2)
    have "retry_loop c d f (n + 1) m2 = Some (r, m')"
      using less.prems(1) fm Again by (subst (asm) retry_loop.simps) simp
    moreover have le: "n + 1 \<le> max_retries c" using retry_handler_Again_tries [OF Again max] .
    ultimately have "int (cnt m') \<le> int (cnt m2) + max_retries c + 1 - (n + 1)"
      using less.hyps [of "n + 1" m2] by simp
    with retry_handler_cnt(1) [OF cnt Again] c1 show ?thesis by simp
  qed
qed

lemma retry_loop_exhausts:
  fixes f :: "(exn, 'w mach, 'a) py"
  assumes cnt: "counts_calls cnt f" and max: "0 \<le> max_retries c"
    and fails: "\<And>m. \<exists>e m'. f m = Some (Inl e, m') \<and> retryable c e"
    and nonneg: "\<And>u. 0 \<le> retry_sleep_time c u"
  shows "n \<le> max_retries c \<Longrightarrow> \<exists>m'. retry_loop c None f n m =
      Some (Inl (exn (Retrying RetriesExceededRetryError) []), m')
    \<and> int (cnt m') = int (cnt m) + max_retries c + 1 - n"
proof (induction "nat (max_retries c - n)" arbitrary: n m rule: less_induct)
  case less
  obtain e m1 where fm: "f m = Some (Inl e, m1)" "retryable c e" using fails by blast
  have c1: "cnt m1 = Suc (cnt m)" using cnt fm by (simp add: counts_calls_def)
  show ?case
  proof (cases "n + 1 \<le> max_retries c")
    case True
    obtain m2 where h: "retry_handler c None (n + 1) (Inl e :: exn + 'a) m1 = Again m2"
      using fm(2) True nonneg [of "draws m1 0"]
      by (simp add: retry_handler_def Let_def not_less)
    from less.hyps [of "n + 1" m2] True obtain m' where
      "retry_loop c None f (n + 1) m2 = Some (Inl (exn (Retrying RetriesExceededRetryError) []), m')"
      "int (cnt m') = int (cnt m2) + max_retries c + 1 - (n + 1)" by auto
    with h fm c1 retry_handler_cnt(1) [OF cnt h] show ?thesis
      by (subst retry_loop.simps) simp
  next
    case False
    then obtain m2 where h: "retry_handler c None (n + 1) (Inl e :: exn + 'a) m1
        = Finish (Inl (exn (Retrying RetriesExceededRetryError) [])) m2"
      using fm(2) max by (simp add: retry_handler_def Let_def)
    with fm c1 retry_handler_cnt(2) [OF cnt h] False less.prems show ?thesis
      by (subst retry_loop.simps) simp
  qed
qed

section \<open>The interface of a retried call\<close>

text \<open>
  What a caller of a decorated function relies on: the outcome is that of the last call or one of
  the errors of giving up.  The lemmas are the two forms the clients use.
\<close>

locale reliable_call =
  fixes call :: "(exn, 'w mach, 'a) py \<Rightarrow> (exn, 'w mach, 'a) py"
    and again :: "exn \<Rightarrow> bool"
  assumes call_wp: "(\<And>m. I m \<Longrightarrow> wp f Q (\<lambda>e m'. if again e then I m' else E e m') m) \<Longrightarrow>
      (\<And>m m'. I m \<Longrightarrow> passes m m' \<Longrightarrow> I m') \<Longrightarrow>
      (\<And>e m. I m \<Longrightarrow> e \<in> give_up_errors \<Longrightarrow> E e m) \<Longrightarrow> I m \<Longrightarrow> wp (call f) Q E m"
begin

lemma call_post:
  assumes "\<And>m. I m \<Longrightarrow> wp f Q (\<lambda>_. I) m" and "\<And>m m'. I m \<Longrightarrow> passes m m' \<Longrightarrow> I m'" and "I m"
  shows "wp (call f) Q (\<lambda>_. I) m"
  by (rule call_wp [where I = I]) (use assms in auto)

lemma call_invariant:
  assumes "\<And>m. I m \<Longrightarrow> wp f (\<lambda>_. I) (\<lambda>_. I) m" and "\<And>m m'. I m \<Longrightarrow> passes m m' \<Longrightarrow> I m'"
    and "I m"
  shows "wp (call f) (\<lambda>_. I) (\<lambda>_. I) m"
  using assms by (rule call_post)

text \<open>No retryable exception of the function escapes, unless giving up is retryable itself.\<close>

lemma call_raises:
  assumes "call f m = Some (Inl e, m')"
  shows "e \<in> give_up_errors \<or> \<not> again e"
proof -
  have "wp (call f) (\<lambda>_ _. True) (\<lambda>e _. e \<in> give_up_errors \<or> \<not> again e) m"
    by (rule call_wp [where I = "\<lambda>_. True"]) (auto simp: wp_def split: option.splits sum.splits)
  with assms show ?thesis by (rule wp_raisesD [rotated])
qed

lemma call_returns_last:
  assumes "call f m = Some (Inr x, m')"
  shows "\<exists>m1. f m1 = Some (Inr x, m')"
proof -
  have "wp (call f) (\<lambda>x m'. \<exists>m1. f m1 = Some (Inr x, m')) (\<lambda>_ _. True) m"
    by (rule call_wp [where I = "\<lambda>_. True"]) (auto simp: wp_def split: option.splits sum.splits)
  with assms show ?thesis by (rule wp_returnsD [rotated])
qed

end

interpretation retried: reliable_call "Retry dflt c" "retryable c" for dflt c
  by unfold_locales (rule Retry_wp)

section \<open>Properties\<close>

text \<open>A retried call with a deadline returns: if the wrapped function returns and time does
  not run backwards, and the sleep between attempts is at least some positive time, then the
  decorated function returns a value or raises; it does not loop for ever.\<close>

lemma Retry_returns:
  assumes "keeps_time f" and "0 \<le> poll_interval c" and "0 \<le> fuzz c" and "0 < min_sleep c"
    and "0 \<le> retry_timeout default_timeout c" and "sane m"
  shows "\<exists>r m'. Retry default_timeout c f m = Some (r, m')"
  using keeps_timeD [OF keeps_time_Retry [OF assms(1)] assms(6)] assms
  by (fastforce simp: bounded_retry_def)

theorem Retry_returns_witness:
  "\<exists>r m'. Retry 300 default_retry
     (raise (exn (VmUtil IpParsingError) []) :: (exn, unit mach, unit) py)
     \<lparr>now = 0, lags = (\<lambda>_. 0), draws = (\<lambda>_. 0), world = ()\<rparr> = Some (r, m')"
  by (rule Retry_returns)
     (simp_all add: keeps_time_def raise_def default_retry_def min_sleep_def retry_timeout_def
        sane_def)

text \<open>C21: A retry limit bounds the calls: the wrapped function is called at most one more time
  than max_retries, and when every call fails with a retryable error and there is no deadline
  it is called exactly that often and RetriesExceededRetryError is raised.\<close>

theorem Retry_attempts:
  assumes "counts_calls cnt f" and "0 \<le> max_retries c"
  shows "(\<forall>r m'. Retry default_timeout c f m = Some (r, m') \<longrightarrow>
      int (cnt m') \<le> int (cnt m) + max_retries c + 1) \<and>
    ((\<forall>m. \<exists>e m'. f m = Some (Inl e, m') \<and> retryable c e) \<longrightarrow>
     (\<forall>u. 0 \<le> retry_sleep_time c u) \<longrightarrow> retry_timeout default_timeout c < 0 \<longrightarrow>
     (\<exists>m'. Retry default_timeout c f m = Some (Inl (exn (Retrying RetriesExceededRetryError) []), m')
        \<and> int (cnt m') = int (cnt m) + max_retries c + 1))"
proof -
  let ?m = "m\<lparr>now := now m + lags m 0, lags := (\<lambda>i. lags m (Suc i))\<rparr>"
  have "?m = retick m (now m + lags m 0) (\<lambda>i. lags m (Suc i)) (draws m)"
    by (simp add: retick_def)
  then have "cnt ?m = cnt m" using assms(1) passes_clock(1) [of m] by (simp add: counts_calls_def)
  then have "int (cnt m') \<le> int (cnt m) + max_retries c + 1"
    if "Retry default_timeout c f m = Some (r, m')" for r m'
    using that retry_loop_attempts [OF assms, of _ 0 _ r m'] assms(2)
    by (fastforce simp: Retry_def Let_def bindM_def time_time_def split: if_splits)
  with retry_loop_exhausts [OF assms, of 0 m] assms(2) show ?thesis
    by (auto simp: Retry_def Let_def)
qed

theorem Retry_attempts_witness:
  "let f = (\<lambda>m. Some (Inl (exn (VmUtil IpParsingError) []), m\<lparr>world := Suc (world m)\<rparr>))
            :: (exn, nat mach, unit) py;
       c = default_retry\<lparr>max_retries := 3\<rparr>;
       m = \<lparr>now = 0, lags = (\<lambda>_. 0), draws = (\<lambda>_. 0), world = 0\<rparr>
   in (case Retry 300 c f m of None \<Rightarrow> False | Some (r, m') \<Rightarrow> world m' \<le> 4)"
proof -
  let ?f = "(\<lambda>m. Some (Inl (exn (VmUtil IpParsingError) []), m\<lparr>world := Suc (world m)\<rparr>))
            :: (exn, nat mach, unit) py"
  let ?c = "default_retry\<lparr>max_retries := 3\<rparr>"
  let ?m = "\<lparr>now = 0, lags = (\<lambda>_. 0), draws = (\<lambda>_. 0), world = 0\<rparr> :: nat mach"
  have "counts_calls world ?f" by (auto simp: counts_calls_def)
  from Retry_attempts [OF this, of ?c 300 ?m]
  have "\<forall>r m'. Retry 300 ?c ?f ?m = Some (r, m') \<longrightarrow> world m' \<le> 4"
    by (simp add: default_retry_def)
  moreover have "\<exists>r m'. Retry 300 ?c ?f ?m = Some (r, m')"
    using Retry_returns [of ?f ?c 300 ?m]
    by (simp add: keeps_time_def default_retry_def min_sleep_def retry_timeout_def sane_def)
  ultimately show ?thesis by auto
qed

text \<open>A decorated function never hides an outcome: a value it returns was returned by a call
  of the wrapped function, and an exception it raises is one that is not to be retried or is one
  of the errors of giving up.\<close>

lemma Retry_outcome:
  assumes "Retry default_timeout c f m = Some (r, m')"
  shows "(\<forall>x. r = Inr x \<longrightarrow> (\<exists>m1. f m1 = Some (Inr x, m'))) \<and>
    (\<forall>e. r = Inl e \<longrightarrow> e \<in> give_up_errors \<or> \<not> retryable c e)"
  using assms retried.call_raises [of default_timeout c f m _ m']
    retried.call_returns_last [of default_timeout c f m _ m'] by simp

theorem Retry_outcome_witness:
  "exn (Resource GetError) ''x'' \<in> give_up_errors
     \<or> retryable (default_retry\<lparr>retryable := (\<lambda>e. isinstance e (Resource RetryableGetError))\<rparr>)
         (exn (Resource GetError) ''x'') = False"
proof -
  let ?c = "default_retry\<lparr>retryable := (\<lambda>e. isinstance e (Resource RetryableGetError))\<rparr>"
  let ?m = "\<lparr>now = 0, lags = (\<lambda>_. 0), draws = (\<lambda>_. 0), world = ()\<rparr> :: unit mach"
  have "Retry (- 1) ?c (raise (exn (Resource GetError) ''x'') :: (exn, unit mach, unit) py) ?m
      = Some (Inl (exn (Resource GetError) ''x''), ?m)"
    by (simp add: Retry_def retry_timeout_def default_retry_def raise_def
        retry_loop_propagates issubclass_def)
  from Retry_outcome [OF this] show ?thesis by blast
qed

end
