(* ===== verification/Sample.thy ===== *)
theory Sample
  imports Retry
begin

text \<open>
  \<open>perfkitbenchmarker/sample.py\<close>: samples, the statistics computed from lists of numbers,
  histograms and time series.

  Metadata values are the Python values that the program stores in them.  Numbers of the
  statistics are reals where Python has floats; a time is a rational of the machine's clock.
\<close>

section \<open>Python values and dictionaries\<close>

datatype pyval = VNone | VBool bool | VInt int | VNum rat | VStr string | VList "pyval list"
  | VDict "(string \<times> pyval) list"

type_synonym metadata_dict = "(string \<times> pyval) list"

text \<open>\<open>d[k] = v\<close> on a dictionary kept in insertion order, and \<open>d.update(e)\<close>.\<close>

fun dict_set :: "('k \<times> 'v) list \<Rightarrow> 'k \<Rightarrow> 'v \<Rightarrow> ('k \<times> 'v) list" where
  "dict_set [] k v = [(k, v)]"
| "dict_set ((k', v') # d) k v = (if k' = k then (k, v) # d else (k', v') # dict_set d k v)"

definition dict_update :: "('k \<times> 'v) list \<Rightarrow> ('k \<times> 'v) list \<Rightarrow> ('k \<times> 'v) list" where
  "dict_update d e = fold (\<lambda>(k, v) d. dict_set d k v) e d"

lemma dict_set_map_of [simp]: "map_of (dict_set d k v) = (map_of d)(k \<mapsto> v)"
  by (induction d k v rule: dict_set.induct) auto

lemma dict_set_keys: "set (map fst (dict_set d k v)) = insert k (set (map fst d))"
  by (induction d k v rule: dict_set.induct) auto

lemma dict_set_distinct: "distinct (map fst d) \<Longrightarrow> distinct (map fst (dict_set d k v))"
proof (induction d k v rule: dict_set.induct)
  case (2 k' v' d k v)
  then show ?case using dict_set_keys [of d k v] by auto
qed simp

lemma dict_update_map_of [simp]: "map_of (dict_update d e) = map_of d ++ map_of (rev e)"
  unfolding dict_update_def
proof (induction e arbitrary: d)
  case (Cons kv e)
  then show ?case by (cases kv) (auto simp: map_add_def fun_eq_iff split: option.splits)
qed simp

section \<open>Samples\<close>

record sample =
  metric :: string
  sample_value :: rat
  unit :: string
  sample_metadata :: metadata_dict
  timestamp :: rat

text \<open>\<open>Sample(metric, value, unit, metadata, timestamp)\<close>: no timestamp means now.\<close>

definition new_sample ::
  "string \<Rightarrow> rat option \<Rightarrow> string \<Rightarrow> metadata_dict option \<Rightarrow> rat option \<Rightarrow> (exn, 'w mach, sample) py"
where
  "new_sample name value u md ts =
     bindM (case ts of None \<Rightarrow> time_time | Some t \<Rightarrow> ret t) (\<lambda>t. ret
       \<lparr>metric = name, sample_value = (case value of None \<Rightarrow> 0 | Some v \<Rightarrow> v), unit = u,
        sample_metadata = (case md of None \<Rightarrow> [] | Some d \<Rightarrow> d), timestamp = t\<rparr>)"

lemma keeps_time_new_sample [keeps_time_intros]: "keeps_time (new_sample name value u md ts)"
  unfolding new_sample_def
  by (cases ts) (auto intro!: keeps_time_intros)

section \<open>Statistics\<close>

text \<open>The keys \<open>'p' + str(percentile)\<close>, \<open>'average'\<close> and \<open>'stddev'\<close>.\<close>

datatype stat = Percentile real | Average | Stddev

definition PERCENTILES_LIST :: "real list" where
  "PERCENTILES_LIST = [0.1, 1, 5, 10, 50, 90, 95, 99, 99.9]"

definition percentile_index :: "nat \<Rightarrow> real \<Rightarrow> nat" where
  "percentile_index count p = min (nat \<lfloor>real count * p / 100\<rfloor>) (count - 1)"

fun percentile_entries ::
  "real list \<Rightarrow> real list \<Rightarrow> (stat \<times> real) list \<Rightarrow> exn + (stat \<times> real) list" where
  "percentile_entries ns [] result = Inr result"
| "percentile_entries ns (p # ps) result =
     (if p < 0 \<or> p > 100 then Inl (exn (Builtin ValueError) ''Invalid percentile'')
      else percentile_entries ns ps
        (dict_set result (Percentile p) (ns ! percentile_index (length ns) p)))"

definition average_of :: "real list \<Rightarrow> real" where
  "average_of ns = sum_list ns / real (length ns)"

definition stddev_of :: "real list \<Rightarrow> real" where
  "stddev_of ns =
     (if length ns > 1
      then sqrt (sum_list (map (\<lambda>i. (i - average_of ns)\<^sup>2) ns) / (real (length ns) - 1))
      else 0)"

definition PercentileCalculator :: "real list \<Rightarrow> real list \<Rightarrow> exn + (stat \<times> real) list" where
  "PercentileCalculator ns ps =
     (if ns = [] then Inl (exn (Builtin ValueError) ''Can't compute percentiles of empty list.'')
      else case percentile_entries (sort ns) ps [] of
        Inl e \<Rightarrow> Inl e
      | Inr result \<Rightarrow> Inr (dict_set (dict_set result Average (average_of ns))
          Stddev (stddev_of ns)))"

definition GeoMean :: "real list \<Rightarrow> exn + real" where
  "GeoMean ns =
     (if ns = [] then Inl (exn (Builtin ValueError) ''Can't compute geomean of empty list.'')
      else Inr (prod_list ns powr (1 / real (length ns))))"

text \<open>What the percentiles are.\<close>

lemma percentile_index_less: "0 < n \<Longrightarrow> percentile_index n p < n"
  by (auto simp: percentile_index_def)

lemma percentile_index_mono: "p \<le> q \<Longrightarrow> percentile_index n p \<le> percentile_index n q"
  unfolding percentile_index_def
  by (intro min.mono nat_mono floor_mono divide_right_mono mult_left_mono) auto

lemma sort_extremes:
  fixes ns :: "real list"
  assumes "ns \<noteq> []"
  shows "sort ns ! 0 = Min (set ns)" and "sort ns ! (length ns - 1) = Max (set ns)"
proof -
  have mem: "sort ns ! i \<in> set ns" if "i < length ns" for i
    using nth_mem [of i "sort ns"] that by simp
  have idx: "\<exists>i < length ns. x = sort ns ! i" if "x \<in> set ns" for x
    using that by (metis in_set_conv_nth length_sort set_sort)
  show "sort ns ! 0 = Min (set ns)"
    by (rule Min_eqI [symmetric]) (use assms idx mem sorted_nth_mono [of "sort ns" 0] in fastforce)+
  show "sort ns ! (length ns - 1) = Max (set ns)"
    by (rule Max_eqI [symmetric])
       (use assms idx mem sorted_nth_mono [of "sort ns" _ "length ns - 1"] in fastforce)+
qed

lemma percentile_entries_spec:
  assumes "percentile_entries ns ps acc = Inr r"
  shows "\<forall>p \<in> set ps. 0 \<le> p \<and> p \<le> 100"
    and "map_of r k = (case k of Percentile p \<Rightarrow>
          if p \<in> set ps then Some (ns ! percentile_index (length ns) p) else map_of acc k
        | _ \<Rightarrow> map_of acc k)"
  using assms
  by (induction ns ps acc rule: percentile_entries.induct)
     (auto split: stat.splits if_splits)

lemma percentile_entries_error:
  "(\<exists>e. percentile_entries ns ps acc = Inl e) = (\<exists>p \<in> set ps. p < 0 \<or> p > 100)"
  by (induction ns ps acc rule: percentile_entries.induct) auto

lemma PercentileCalculator_entries:
  assumes "PercentileCalculator ns ps = Inr r" and "p \<in> set ps"
  shows "map_of r (Percentile p) = Some (sort ns ! percentile_index (length ns) p)"
  using assms percentile_entries_spec(2) [of "sort ns" ps "[]" _ "Percentile p"]
  by (auto simp: PercentileCalculator_def split: sum.splits if_splits)

section \<open>Histograms\<close>

text \<open>\<open>round(x)\<close> rounds half to even; \<open>round(x, k)\<close> does so at \<open>k\<close> decimal digits.\<close>

definition round_half_even :: "'a::floor_ceiling \<Rightarrow> int" where
  "round_half_even x =
     (let n = \<lfloor>x\<rfloor>; d = x - of_int n
      in if d < 1 / 2 then n else if d > 1 / 2 then n + 1 else if even n then n else n + 1)"

definition round_digits :: "real \<Rightarrow> int \<Rightarrow> real" where
  "round_digits x k = of_int (round_half_even (x * 10 powi k)) / 10 powi k"

text \<open>\<open>int(x)\<close>\<close>

definition py_int :: "rat \<Rightarrow> int" where
  "py_int x = (if x < 0 then \<lceil>x\<rceil> else \<lfloor>x\<rfloor>)"

definition histogram_key :: "nat \<Rightarrow> real \<Rightarrow> int \<Rightarrow> nat \<Rightarrow> real \<Rightarrow> real" where
  "histogram_key len round_bottom sig i v =
     (if real i / real len < round_bottom
      then if v > 0 then round_digits v (sig - \<lfloor>log 10 \<bar>v\<bar>\<rfloor> - 1) else 0
      else v)"

definition count_key :: "(real \<times> nat) list \<Rightarrow> real \<Rightarrow> (real \<times> nat) list" where
  "count_key h k = dict_set h k ((case map_of h k of None \<Rightarrow> 0 | Some n \<Rightarrow> n) + 1)"

definition MakeHistogram :: "real list \<Rightarrow> real \<Rightarrow> int \<Rightarrow> (real \<times> nat) list" where
  "MakeHistogram vs round_bottom sig =
     foldl count_key [] (map (\<lambda>(i, v). histogram_key (length vs) round_bottom sig i v)
       (enumerate 0 (sort vs)))"

lemma count_key_sum:
  "distinct (map fst h) \<Longrightarrow> sum_list (map snd (count_key h k)) = sum_list (map snd h) + 1"
  unfolding count_key_def
proof (induction h)
  case (Cons kv h)
  have "map_of h k = None" if "fst kv = k" using Cons.prems that by (auto simp: map_of_eq_None_iff)
  with Cons show ?case by (cases kv) auto
qed simp

lemma foldl_count_key:
  "distinct (map fst h) \<Longrightarrow>
   distinct (map fst (foldl count_key h ks)) \<and>
   sum_list (map snd (foldl count_key h ks)) = sum_list (map snd h) + length ks"
proof (induction ks arbitrary: h)
  case (Cons k ks)
  have "distinct (map fst (count_key h k))"
    using Cons.prems dict_set_distinct by (simp add: count_key_def)
  from Cons.IH [OF this] count_key_sum [OF Cons.prems] show ?case by simp
qed simp

lemma foldl_count_key_count:
  "(case map_of (foldl count_key h ks) k of None \<Rightarrow> 0 | Some n \<Rightarrow> n)
     = (case map_of h k of None \<Rightarrow> 0 | Some n \<Rightarrow> n) + count_list ks k"
  by (induction ks arbitrary: h) (auto simp: count_key_def split: option.splits)

section \<open>Time series\<close>

text \<open>Python's truth value of an optional argument that is a time.\<close>

definition truthy :: "rat option \<Rightarrow> bool" where
  "truthy t = (case t of None \<Rightarrow> False | Some x \<Rightarrow> x \<noteq> 0)"

definition add_ramp :: "string \<Rightarrow> rat option \<Rightarrow> metadata_dict \<Rightarrow> metadata_dict" where
  "add_ramp key t md = (if truthy t then dict_set md key (VNum (the t)) else md)"

definition CreateTimeSeriesSample ::
  "pyval list \<Rightarrow> rat list \<Rightarrow> string \<Rightarrow> string \<Rightarrow> rat \<Rightarrow> rat option \<Rightarrow> rat option
     \<Rightarrow> metadata_dict option \<Rightarrow> (exn, 'w mach, sample) py" where
  "CreateTimeSeriesSample vals stamps name units interval ramp_up_ends ramp_down_starts extra =
     (if length vals \<noteq> length stamps
      then raise (exn Error ''Length of values is different to length of timestamps'')
      else
        let md = [(''values'', VList vals), (''timestamps'', VList (map VNum stamps)),
                  (''interval'', VNum interval)];
            md = (case extra of None \<Rightarrow> md | Some d \<Rightarrow> dict_update md d);
            md = add_ramp ''ramp_up_ends'' ramp_up_ends md;
            md = add_ramp ''ramp_down_starts'' ramp_down_starts md
        in new_sample name (Some 0) units (Some md) None)"

text \<open>\<open>_ConvertHistogramToString\<close>, with the texts of the numbers given.\<close>

definition ConvertHistogramToString :: "(string \<times> string) list \<Rightarrow> string" where
  "ConvertHistogramToString h =
     ''{'' @ str_join '','' (map (\<lambda>(k, v). CHR 0x22 # k @ CHR 0x22 # '': '' @ v) h) @ ''}''"

definition CreateHistogramSample ::
  "(string \<times> string) list \<Rightarrow> string \<Rightarrow> string \<Rightarrow> string \<Rightarrow> metadata_dict option \<Rightarrow> string
     \<Rightarrow> (exn, 'w mach, sample) py" where
  "CreateHistogramSample h name subname units extra metric_name =
     (let md = [(''histogram'', VStr (ConvertHistogramToString h)), (''Name'', VStr name),
                (''Subname'', VStr subname)];
          md = (case extra of None \<Rightarrow> md | Some d \<Rightarrow> dict_update md d)
      in new_sample metric_name (Some 0) units (Some md) None)"

section \<open>Properties\<close>

text \<open>Percentiles are order statistics of the input: when PercentileCalculator returns, every
  requested percentile is one of the numbers, percentiles grow with the requested rank, the 0th is
  the smallest and the 100th the largest number.\<close>

lemma PercentileCalculator_order:
  assumes "PercentileCalculator ns ps = Inr r" and "p \<in> set ps" and "q \<in> set ps" and "p \<le> q"
  shows "\<exists>x y. map_of r (Percentile p) = Some x \<and> map_of r (Percentile q) = Some y
    \<and> x \<in> set ns \<and> y \<in> set ns \<and> x \<le> y
    \<and> (p = 0 \<longrightarrow> x = Min (set ns)) \<and> (q = 100 \<longrightarrow> y = Max (set ns))"
proof -
  have ne: "ns \<noteq> []" using assms(1) by (auto simp: PercentileCalculator_def)
  let ?i = "percentile_index (length ns) p" and ?j = "percentile_index (length ns) q"
  have lt: "?i < length ns" "?j < length ns" using ne by (simp_all add: percentile_index_less)
  have "sort ns ! ?i \<le> sort ns ! ?j"
    using percentile_index_mono [OF assms(4)] lt by (simp add: sorted_nth_mono)
  moreover have "sort ns ! ?i \<in> set ns" "sort ns ! ?j \<in> set ns"
    using lt nth_mem [of _ "sort ns"] by simp_all
  moreover note sort_extremes [OF ne]
  moreover have "?i = 0" if "p = 0" using that by (simp add: percentile_index_def)
  moreover have "?j = length ns - 1" if "q = 100" using that by (simp add: percentile_index_def)
  ultimately show ?thesis
    using PercentileCalculator_entries [OF assms(1)] assms(2,3) by auto
qed

theorem PercentileCalculator_order_witness:
  "\<exists>r x y. PercentileCalculator [7, 1, 4] [0, 100] = Inr r
     \<and> map_of r (Percentile 0) = Some x \<and> map_of r (Percentile 100) = Some y \<and> x \<le> y"
proof -
  obtain r where r: "PercentileCalculator [7, 1, 4] [0, 100] = Inr r"
    by (simp add: PercentileCalculator_def)
  from PercentileCalculator_order [OF this, of 0 100] r show ?thesis by auto
qed

text \<open>PercentileCalculator raises exactly for an empty list of numbers and for a requested
  percentile outside 0 to 100.\<close>

lemma PercentileCalculator_raises:
  "(\<exists>e. PercentileCalculator ns ps = Inl e) = (ns = [] \<or> (\<exists>p \<in> set ps. p < 0 \<or> 100 < p))"
  using percentile_entries_error [of "sort ns" ps "[]"]
  by (auto simp: PercentileCalculator_def split: sum.splits)

text \<open>A histogram loses nothing: its keys are distinct, its frequencies add up to the number of
  values, and without rounding the frequency of a value is the number of its occurrences.\<close>

lemma MakeHistogram_counts:
  "distinct (map fst (MakeHistogram vs round_bottom sig))
   \<and> sum_list (map snd (MakeHistogram vs round_bottom sig)) = length vs
   \<and> (round_bottom \<le> 0 \<longrightarrow> (case map_of (MakeHistogram vs round_bottom sig) v of
        None \<Rightarrow> 0 | Some n \<Rightarrow> n) = count_list vs v)"
proof -
  let ?ks = "map (\<lambda>(i, v). histogram_key (length vs) round_bottom sig i v) (enumerate 0 (sort vs))"
  have "?ks = sort vs" if "round_bottom \<le> 0"
  proof -
    have "histogram_key (length vs) round_bottom sig i v = v" for i v
    proof -
      have "round_bottom \<le> real i / real (length vs)" by (rule order_trans [OF that]) simp
      then have "\<not> real i / real (length vs) < round_bottom" by (rule leD)
      then show ?thesis unfolding histogram_key_def by (simp only: if_False)
    qed
    then have "?ks = map snd (enumerate 0 (sort vs))" by (simp add: case_prod_unfold)
    then show ?thesis by simp
  qed
  moreover have "count_list (sort vs) v = count_list vs v"
    by (simp add: count_list_eq_length_filter filter_sort)
  moreover have "(case map_of (foldl count_key [] (sort vs)) v of None \<Rightarrow> 0 | Some n \<Rightarrow> n)
      = count_list (sort vs) v"
    using foldl_count_key_count [of "[]" "sort vs" v] by simp
  moreover have "distinct (map fst (foldl count_key [] ?ks))
      \<and> sum_list (map snd (foldl count_key [] ?ks)) = length vs"
    using foldl_count_key [of "[]" ?ks] by simp
  ultimately show ?thesis
    unfolding MakeHistogram_def by simp
qed

theorem MakeHistogram_counts_witness:
  "(case map_of (MakeHistogram [2, 1, 2] 0 3) 2 of None \<Rightarrow> 0 | Some n \<Rightarrow> n) = (2 :: nat)"
  using MakeHistogram_counts [of "[2, 1, 2]" 0 3 2] by simp

end
