(* ===== verification/ResourceModel.thy ===== *)
theory ResourceModel
  imports Sample
begin

text \<open>
  \<open>perfkitbenchmarker/resource.py\<close>: the lifecycle of a cloud resource.

  \<open>resource\<close> holds the attributes of a BaseResource.  What a subclass supplies (\<open>_Create\<close>,
  \<open>_Delete\<close>, \<open>_Exists\<close>, ...) is a record of hooks that act on the cloud behind the resource;
  \<open>base_hooks\<close> are the defaults of BaseResource.  The machine's world is the resource and the
  cloud.  Log output is not modelled.
\<close>

section \<open>State\<close>

record resource =
  created :: bool
  deleted :: bool
  user_managed :: bool
  restored :: bool
  enable_freeze_restore :: bool
  create_on_restore_error :: bool
  delete_on_freeze_error :: bool
  create_start_time :: "rat option"
  delete_start_time :: "rat option"
  create_end_time :: "rat option"
  delete_end_time :: "rat option"
  resource_ready_time :: "rat option"
  metadata :: metadata_dict

record 'w rworld =
  self :: resource
  ready_checks_performed :: int
  cloud :: 'w

type_synonym 'w hook = "(exn, 'w mach, unit) py"
type_synonym ('w, 'a) meth = "(exn, 'w rworld mach, 'a) py"

record 'w hooks =
  Create_hook :: "'w hook"
  Restore_hook :: "'w hook"
  Freeze_hook :: "'w hook"
  UpdateTimeout_hook :: "int \<Rightarrow> 'w hook"
  Delete_hook :: "'w hook"
  Exists_hook :: "(exn, 'w mach, bool) py"
  WaitUntilRunning_hook :: "'w hook"
  IsReady_hook :: "(exn, 'w mach, bool) py"
  IsDeleting_hook :: "(exn, 'w mach, bool) py"
  PreDelete_hook :: "'w hook"
  UserManagedSetup_hook :: "'w hook"
  PostCreate_hook :: "'w hook"
  CreateDependencies_hook :: "'w hook"
  DeleteDependencies_hook :: "'w hook"
  CheckForReadinessErrors_hook :: "'w hook"
  GetResourceMetadata_hook :: "resource \<Rightarrow> (exn, 'w mach, metadata_dict) py"
  READY_TIMEOUT :: "rat option"
  POLL_INTERVAL :: rat
  CHECK_FOR_ERRORS_EVERY_N_READY_POLLS :: int
  RESOURCE_TYPE :: string
  class_name_of :: string
  class_repr :: string
  self_repr :: string

record resource_flags =
  default_timeout :: rat
  retry_on_insufficient_capacity_cloud_failure :: bool
  timeout_minutes :: int
  persistent_timeout_minutes :: int

text \<open>\<open>BaseResource.__init__\<close>\<close>

definition new_resource :: "bool \<Rightarrow> bool \<Rightarrow> bool \<Rightarrow> bool \<Rightarrow> resource" where
  "new_resource managed freeze create_on delete_on =
     \<lparr>created = managed, deleted = managed, user_managed = managed, restored = False,
      enable_freeze_restore = freeze, create_on_restore_error = create_on,
      delete_on_freeze_error = delete_on, create_start_time = None, delete_start_time = None,
      create_end_time = None, delete_end_time = None, resource_ready_time = None,
      metadata = []\<rparr>"

section \<open>Hooks and access to the state\<close>

text \<open>A hook runs on the cloud; it does not touch the lifecycle attributes of the resource.\<close>

definition cloud_mach :: "'w rworld mach \<Rightarrow> 'w mach" where
  "cloud_mach m = \<lparr>now = now m, lags = lags m, draws = draws m, world = cloud (world m)\<rparr>"

definition put_cloud :: "'w rworld mach \<Rightarrow> 'w mach \<Rightarrow> 'w rworld mach" where
  "put_cloud m k = \<lparr>now = now k, lags = lags k, draws = draws k,
     world = (world m)\<lparr>cloud := world k\<rparr>\<rparr>"

definition on_cloud :: "(exn, 'w mach, 'a) py \<Rightarrow> ('w, 'a) meth" where
  "on_cloud h = (\<lambda>m. case h (cloud_mach m) of None \<Rightarrow> None
     | Some (r, k) \<Rightarrow> Some (r, put_cloud m k))"

definition get_self :: "(resource \<Rightarrow> 'a) \<Rightarrow> ('w, 'a) meth" where
  "get_self f = getM (\<lambda>m. f (self (world m)))"

definition set_self :: "(resource \<Rightarrow> resource) \<Rightarrow> ('w, unit) meth" where
  "set_self f = modifyM (\<lambda>m. m\<lparr>world := (world m)\<lparr>self := f (self (world m))\<rparr>\<rparr>)"

definition raise_exn :: "exn_class \<Rightarrow> string \<Rightarrow> ('w, 'a) meth" where
  "raise_exn c msg = raise (exn c msg)"

text \<open>The methods of BaseResource that a subclass may override.\<close>

definition not_implemented :: "(exn, 'w mach, 'a) py" where
  "not_implemented = raise (exn (Builtin NotImplementedError) [])"

definition base_hooks :: "'w hooks" where
  "base_hooks = \<lparr>Create_hook = not_implemented, Restore_hook = not_implemented,
     Freeze_hook = not_implemented, UpdateTimeout_hook = (\<lambda>_. not_implemented),
     Delete_hook = not_implemented, Exists_hook = not_implemented,
     WaitUntilRunning_hook = ret (), IsReady_hook = ret True, IsDeleting_hook = ret False,
     PreDelete_hook = ret (), UserManagedSetup_hook = ret (), PostCreate_hook = ret (),
     CreateDependencies_hook = ret (), DeleteDependencies_hook = ret (),
     CheckForReadinessErrors_hook = ret (), GetResourceMetadata_hook = (\<lambda>r. ret (metadata r)),
     READY_TIMEOUT = None, POLL_INTERVAL = 5, CHECK_FOR_ERRORS_EVERY_N_READY_POLLS = 10,
     RESOURCE_TYPE = [], class_name_of = ''BaseResource'',
     class_repr = ''BaseResource'', self_repr = ''BaseResource''\<rparr>"

section \<open>Creation\<close>

definition creation_failed :: "'w hooks \<Rightarrow> exn" where
  "creation_failed H = exn (Resource RetryableCreationError)
     (''Creation of '' @ class_name_of H @ '' failed.'')"

definition ignore_not_implemented :: "('w, unit) meth \<Rightarrow> ('w, unit) meth" where
  "ignore_not_implemented m =
     catchM m (\<lambda>e. if isinstance e (Builtin NotImplementedError) then ret () else raise e)"

definition creation_retry :: retry_config where
  "creation_retry = default_retry\<lparr>retryable := (\<lambda>e. isinstance e (Resource RetryableCreationError))\<rparr>"

definition CreateResource_once :: "resource_flags \<Rightarrow> 'w hooks \<Rightarrow> ('w, unit) meth" where
  "CreateResource_once F H =
     bindM (get_self created) (\<lambda>done.
       if done then ret () else seqM [
         bindM time_time (\<lambda>t. set_self (\<lambda>r. r\<lparr>create_start_time := Some t\<rparr>)),
         catchM (on_cloud (Create_hook H)) (\<lambda>e.
           if isinstance e (Benchmarks InsufficientCapacityCloudFailure)
              \<and> retry_on_insufficient_capacity_cloud_failure F
           then raise (creation_failed H) else raise e),
         ignore_not_implemented
           (bindM (on_cloud (Exists_hook H)) (\<lambda>b. whenM (\<not> b) (raise (creation_failed H)))),
         on_cloud (WaitUntilRunning_hook H),
         set_self (\<lambda>r. r\<lparr>created := True\<rparr>),
         bindM time_time (\<lambda>t. set_self (\<lambda>r. r\<lparr>create_end_time := Some t\<rparr>))])"

definition CreateResource :: "resource_flags \<Rightarrow> 'w hooks \<Rightarrow> ('w, unit) meth" where
  "CreateResource F H = Retry (default_timeout F) creation_retry (CreateResource_once F H)"

section \<open>Readiness\<close>

definition ready_retry :: "'w hooks \<Rightarrow> retry_config" where
  "ready_retry H = \<lparr>poll_interval = POLL_INTERVAL H, max_retries = -1, timeout = READY_TIMEOUT H,
     fuzz = 0, retryable = (\<lambda>e. isinstance e (Resource RetryableCreationError))\<rparr>"

definition InnerWaitUntilReady :: "'w hooks \<Rightarrow> ('w, unit) meth" where
  "InnerWaitUntilReady H =
     bindM (on_cloud (IsReady_hook H)) (\<lambda>ready. thenM
       (modifyM (\<lambda>m. m\<lparr>world := (world m)\<lparr>ready_checks_performed :=
          ready_checks_performed (world m) + 1\<rparr>\<rparr>))
       (whenM (\<not> ready)
         (bindM (getM (\<lambda>m. ready_checks_performed (world m))) (\<lambda>n. thenM
           (whenM (n mod CHECK_FOR_ERRORS_EVERY_N_READY_POLLS H = 0)
             (on_cloud (CheckForReadinessErrors_hook H)))
           (raise_exn (Resource RetryableCreationError) ''Not yet ready'')))))"

definition WaitUntilReady :: "resource_flags \<Rightarrow> 'w hooks \<Rightarrow> ('w, unit) meth" where
  "WaitUntilReady F H = thenM
     (modifyM (\<lambda>m. m\<lparr>world := (world m)\<lparr>ready_checks_performed := 0\<rparr>\<rparr>))
     (Retry (default_timeout F) (ready_retry H) (InnerWaitUntilReady H))"

section \<open>Restoring and freezing\<close>

text \<open>\<open>UpdateTimeout\<close> logs a NotImplementedError and raises it again.\<close>

definition UpdateTimeout :: "'w hooks \<Rightarrow> int \<Rightarrow> ('w, unit) meth" where
  "UpdateTimeout H minutes =
     catchM (on_cloud (UpdateTimeout_hook H minutes)) (\<lambda>e. raise e)"

definition Restore :: "resource_flags \<Rightarrow> 'w hooks \<Rightarrow> ('w, unit) meth" where
  "Restore F H = seqM [
     catchM (on_cloud (Restore_hook H)) (\<lambda>e.
       if isinstance e (Builtin NotImplementedError)
       then raise_exn (Resource RestoreError) (''Class '' @ class_repr H
              @ '' does not have _Restore() implemented but a restore file was provided.'')
       else if is_exception e
       then raise_exn (Resource RestoreError) (''Error restoring resource '' @ self_repr H)
       else raise e),
     set_self (\<lambda>r. r\<lparr>restored := True\<rparr>),
     UpdateTimeout H (timeout_minutes F)]"

definition Freeze :: "resource_flags \<Rightarrow> 'w hooks \<Rightarrow> ('w, unit) meth" where
  "Freeze F H = seqM [
     catchM (on_cloud (Freeze_hook H)) (\<lambda>e.
       if isinstance e (Builtin NotImplementedError)
       then raise_exn (Resource FreezeError) (''Class '' @ class_repr H
              @ '' does not have _Freeze() implemented but Freeze() was called.'')
       else if is_exception e
       then raise_exn (Resource FreezeError) (''Error freezing resource '' @ self_repr H)
       else raise e),
     set_self (\<lambda>r. r\<lparr>restored := False\<rparr>),
     UpdateTimeout H (persistent_timeout_minutes F)]"

section \<open>Create and Delete\<close>

definition Create_steps :: "resource_flags \<Rightarrow> 'w hooks \<Rightarrow> ('w, unit) meth" where
  "Create_steps F H = seqM [
     on_cloud (CreateDependencies_hook H),
     CreateResource F H,
     WaitUntilReady F H,
     bindM (get_self resource_ready_time) (\<lambda>ready. whenM (\<not> truthy ready)
       (bindM time_time (\<lambda>t. set_self (\<lambda>r. r\<lparr>resource_ready_time := Some t\<rparr>)))),
     on_cloud (PostCreate_hook H)]"

definition Create :: "resource_flags \<Rightarrow> 'w hooks \<Rightarrow> bool \<Rightarrow> ('w, unit) meth" where
  "Create F H restore =
     bindM (get_self id) (\<lambda>r.
       if user_managed r then on_cloud (UserManagedSetup_hook H)
       else if restore \<and> enable_freeze_restore r then
         tryElseM (Restore F H)
           (\<lambda>e. if isinstance e (Resource RestoreError) \<and> create_on_restore_error r
                then Create_steps F H else raise e)
           (\<lambda>_. ret ())
       else Create_steps F H)"

definition deletion_retry :: retry_config where
  "deletion_retry = default_retry\<lparr>timeout := Some 3600,
     retryable := (\<lambda>e. isinstance e (Resource RetryableDeletionError))\<rparr>"

definition wait_deleted_retry :: "'w hooks \<Rightarrow> retry_config" where
  "wait_deleted_retry H = \<lparr>poll_interval = POLL_INTERVAL H, max_retries = -1,
     timeout = Some 3600, fuzz = 0,
     retryable = (\<lambda>e. isinstance e (Resource RetryableDeletionError))\<rparr>"

definition WaitUntilDeleted_once :: "'w hooks \<Rightarrow> ('w, unit) meth" where
  "WaitUntilDeleted_once H = bindM (on_cloud (IsDeleting_hook H)) (\<lambda>b.
     whenM b (raise_exn (Resource RetryableDeletionError) ''Not yet deleted''))"

definition DeleteResource_once :: "resource_flags \<Rightarrow> 'w hooks \<Rightarrow> ('w, unit) meth" where
  "DeleteResource_once F H =
     bindM (get_self id) (\<lambda>r.
       if deleted r \<or> \<not> created r then ret () else seqM [
         whenM (\<not> truthy (delete_start_time r))
           (bindM time_time (\<lambda>t. set_self (\<lambda>r. r\<lparr>delete_start_time := Some t\<rparr>))),
         on_cloud (Delete_hook H),
         Retry (default_timeout F) (wait_deleted_retry H) (WaitUntilDeleted_once H),
         ignore_not_implemented
           (bindM (on_cloud (Exists_hook H)) (\<lambda>b. whenM b
             (raise_exn (Resource RetryableDeletionError)
               (''Deletion of '' @ class_name_of H @ '' failed.''))))])"

definition DeleteResource :: "resource_flags \<Rightarrow> 'w hooks \<Rightarrow> ('w, unit) meth" where
  "DeleteResource F H = Retry (default_timeout F) deletion_retry (DeleteResource_once F H)"

definition GetResourceMetadata :: "'w hooks \<Rightarrow> ('w, metadata_dict) meth" where
  "GetResourceMetadata H = bindM (get_self id) (\<lambda>r. on_cloud (GetResourceMetadata_hook H r))"

definition Delete_steps :: "resource_flags \<Rightarrow> 'w hooks \<Rightarrow> ('w, unit) meth" where
  "Delete_steps F H = seqM [
     on_cloud (PreDelete_hook H),
     DeleteResource F H,
     set_self (\<lambda>r. r\<lparr>deleted := True\<rparr>),
     bindM time_time (\<lambda>t. set_self (\<lambda>r. r\<lparr>delete_end_time := Some t\<rparr>)),
     on_cloud (DeleteDependencies_hook H)]"

definition Delete :: "resource_flags \<Rightarrow> 'w hooks \<Rightarrow> bool \<Rightarrow> ('w, unit) meth" where
  "Delete F H freeze =
     bindM (get_self id) (\<lambda>r.
       if user_managed r then ret ()
       else thenM (bindM (GetResourceMetadata H) (\<lambda>_. ret ()))
         (if freeze \<and> enable_freeze_restore r then
            tryElseM (Freeze F H)
              (\<lambda>e. if isinstance e (Resource FreezeError) \<and> delete_on_freeze_error r
                   then Delete_steps F H else raise e)
              (\<lambda>_. ret ())
          else Delete_steps F H))"

section \<open>Samples\<close>

definition time_sample ::
  "string \<Rightarrow> rat option \<Rightarrow> rat option \<Rightarrow> metadata_dict \<Rightarrow> ('w, sample list) meth" where
  "time_sample name start finish md =
     (if truthy start \<and> truthy finish
      then bindM (new_sample name (Some (the finish - the start)) ''seconds'' (Some md) None)
        (\<lambda>s. ret [s])
      else ret [])"

definition GetSamples :: "'w hooks \<Rightarrow> ('w, sample list) meth" where
  "GetSamples H =
     bindM (GetResourceMetadata H) (\<lambda>md.
     bindM (get_self id) (\<lambda>r.
       let md = dict_set md ''resource_type'' (VStr (RESOURCE_TYPE H));
           md = dict_set md ''resource_class'' (VStr (class_name_of H))
       in bindM (time_sample ''Time to Create'' (create_start_time r) (create_end_time r) md) (\<lambda>a.
          bindM (time_sample ''Time to Ready'' (create_start_time r) (resource_ready_time r) md) (\<lambda>b.
          bindM (time_sample ''Time to Delete'' (delete_start_time r) (delete_end_time r) md) (\<lambda>c.
            ret (a @ b @ c))))))"

section \<open>Preconditions of the steps\<close>

lemma wp_on_cloud:
  "wp (on_cloud h) Q E m
     = wp h (\<lambda>x k. Q x (put_cloud m k)) (\<lambda>e k. E e (put_cloud m k)) (cloud_mach m)"
  by (simp add: wp_def on_cloud_def split: option.splits sum.splits prod.splits)

lemma wp_get_self [wp_simps]: "wp (get_self f) Q E m = Q (f (self (world m))) m"
  by (simp add: get_self_def wp_getM)

lemma wp_set_self [wp_simps]:
  "wp (set_self f) Q E m = Q () (m\<lparr>world := (world m)\<lparr>self := f (self (world m))\<rparr>\<rparr>)"
  by (simp add: set_self_def wp_modifyM)

lemma wp_time_time [wp_simps]:
  "wp time_time Q E m
     = (let m' = retick m (now m + lags m 0) (\<lambda>i. lags m (Suc i)) (draws m) in Q (now m') m')"
  by (simp add: wp_def time_time_eq Let_def)

lemma wp_ignore_not_implemented [wp_simps]:
  "wp (ignore_not_implemented f) Q E m = wp f Q
     (\<lambda>e m'. if isinstance e (Builtin NotImplementedError) then Q () m' else E e m') m"
proof -
  have "(\<lambda>e. wp (if isinstance e (Builtin NotImplementedError) then ret () else raise e) Q E)
      = (\<lambda>e m'. if isinstance e (Builtin NotImplementedError) then Q () m' else E e m')"
    by (intro ext) (simp add: wp_simps)
  then show ?thesis by (simp add: ignore_not_implemented_def wp_catchM)
qed

lemma self_put_cloud [simp]: "self (world (put_cloud m k)) = self (world m)"
  by (simp add: put_cloud_def)

lemma cloud_put_cloud [simp]: "cloud (world (put_cloud m k)) = world k"
  by (simp add: put_cloud_def)

lemma now_put_cloud [simp]: "now (put_cloud m k) = now k"
  by (simp add: put_cloud_def)

lemma sane_put_cloud [simp]: "sane (put_cloud m k) = sane k"
  by (simp add: put_cloud_def sane_def)

lemma world_cloud_mach [simp]: "world (cloud_mach m) = cloud (world m)"
  by (simp add: cloud_mach_def)

lemma now_cloud_mach [simp]: "now (cloud_mach m) = now m"
  by (simp add: cloud_mach_def)

lemma sane_cloud_mach [simp]: "sane (cloud_mach m) = sane m"
  by (simp add: cloud_mach_def sane_def)

text \<open>Hooks under which time moves forward, and what they leave of the machine.\<close>

definition later :: "'w rworld mach \<Rightarrow> 'w rworld mach \<Rightarrow> bool" where
  "later m m' = (self (world m') = self (world m) \<and> sane m' \<and> now m \<le> now m')"

lemma wp_hook_later:
  assumes "keeps_time h" and "sane m"
    and "\<And>x m'. later m m' \<Longrightarrow> Q x m'" and "\<And>e m'. later m m' \<Longrightarrow> E e m'"
  shows "wp (on_cloud h) Q E m"
proof -
  have "sane (cloud_mach m)" using assms(2) by simp
  from keeps_timeD [OF assms(1) this] assms(3,4) show ?thesis
    by (auto simp: on_cloud_def wp_def later_def split: sum.splits)
qed

lemma keeps_time_on_cloud [keeps_time_intros]: "keeps_time h \<Longrightarrow> keeps_time (on_cloud h)"
proof (rule keeps_timeI)
  fix m :: "'a rworld mach"
  assume h: "keeps_time h" and "sane m"
  then have "sane (cloud_mach m)" by simp
  from keeps_timeD [OF h this] obtain r k where
    "h (cloud_mach m) = Some (r, k)" "sane k" "now m \<le> now k" by auto
  then show "\<exists>r m'. on_cloud h m = Some (r, m') \<and> sane m' \<and> now m \<le> now m'"
    by (simp add: on_cloud_def)
qed

lemma keeps_time_get_self [keeps_time_intros]: "keeps_time (get_self f)"
  by (simp add: get_self_def keeps_time_getM)

lemma keeps_time_set_self [keeps_time_intros]: "keeps_time (set_self f)"
  by (simp add: set_self_def keeps_time_world)

lemma keeps_time_raise_exn [keeps_time_intros]: "keeps_time (raise_exn c msg)"
  by (simp add: raise_exn_def keeps_time_raise)

lemma keeps_time_ignore [keeps_time_intros]:
  "keeps_time f \<Longrightarrow> keeps_time (ignore_not_implemented f)"
  unfolding ignore_not_implemented_def by (intro keeps_time_intros)

definition hooks_keep_time :: "'w hooks \<Rightarrow> bool" where
  "hooks_keep_time H =
     (list_all keeps_time [Create_hook H, Restore_hook H, Freeze_hook H, Delete_hook H,
        WaitUntilRunning_hook H, PreDelete_hook H, UserManagedSetup_hook H, PostCreate_hook H,
        CreateDependencies_hook H, DeleteDependencies_hook H, CheckForReadinessErrors_hook H] \<and>
      list_all keeps_time [Exists_hook H, IsReady_hook H, IsDeleting_hook H] \<and>
      (\<forall>n. keeps_time (UpdateTimeout_hook H n)) \<and>
      (\<forall>r. keeps_time (GetResourceMetadata_hook H r)))"

definition bounded_waits :: "resource_flags \<Rightarrow> 'w hooks \<Rightarrow> bool" where
  "bounded_waits F H = (0 \<le> default_timeout F \<and> 0 < POLL_INTERVAL H
     \<and> (\<forall>t. READY_TIMEOUT H = Some t \<longrightarrow> 0 \<le> t))"

lemma bounded_retries:
  assumes "bounded_waits F H"
  shows "bounded_retry (default_timeout F) creation_retry"
    "bounded_retry (default_timeout F) deletion_retry"
    "bounded_retry (default_timeout F) (ready_retry H)"
    "bounded_retry (default_timeout F) (wait_deleted_retry H)"
  using assms
  by (auto simp: bounded_retry_def bounded_waits_def creation_retry_def deletion_retry_def
      ready_retry_def wait_deleted_retry_def default_retry_def min_sleep_def retry_timeout_def
      split: option.splits)

lemma keeps_time_tryElseM [keeps_time_intros]:
  "keeps_time f \<Longrightarrow> (\<And>e. keeps_time (h e)) \<Longrightarrow> (\<And>x. keeps_time (g x))
     \<Longrightarrow> keeps_time (tryElseM f h g)"
proof (rule keeps_timeI)
  fix m :: "'a mach"
  assume f: "keeps_time f" and h: "\<And>e. keeps_time (h e)" and g: "\<And>x. keeps_time (g x)"
    and m: "sane m"
  obtain r m1 where 1: "f m = Some (r, m1)" "sane m1" "now m \<le> now m1"
    using keeps_timeD [OF f m] by blast
  then show "\<exists>r m'. tryElseM f h g m = Some (r, m') \<and> sane m' \<and> now m \<le> now m'"
    using keeps_timeD [OF h 1(2)] keeps_timeD [OF g 1(2)]
    by (cases r) (fastforce simp: tryElseM_def)+
qed

section \<open>The operations return\<close>

lemma keeps_time_returns: "keeps_time f \<Longrightarrow> sane m \<Longrightarrow> \<exists>r m'. f m = Some (r, m')"
  using keeps_timeD by blast

lemmas hook_time = hooks_keep_time_def

lemma keeps_time_modify_world [keeps_time_intros]:
  "keeps_time (modifyM (\<lambda>m. m\<lparr>world := g (world m)\<rparr>))"
  by (rule keeps_time_world)

lemma keeps_time_CreateResource:
  assumes "hooks_keep_time H" and "bounded_waits F H"
  shows "keeps_time (CreateResource F H)"
  unfolding CreateResource_def
proof (rule keeps_time_Retry [OF _ bounded_retries(1) [OF assms(2)]])
  show "keeps_time (CreateResource_once F H)"
    using assms(1) unfolding CreateResource_once_def
    by (intro keeps_time_intros) (simp_all add: hook_time keeps_time_intros)
qed

lemma keeps_time_WaitUntilReady:
  assumes "hooks_keep_time H" and "bounded_waits F H"
  shows "keeps_time (WaitUntilReady F H)"
  unfolding WaitUntilReady_def
proof (rule keeps_time_thenM [OF keeps_time_world keeps_time_Retry [OF _ bounded_retries(3) [OF assms(2)]]])
  show "keeps_time (InnerWaitUntilReady H)"
    using assms(1) unfolding InnerWaitUntilReady_def
    by (intro keeps_time_intros) (simp_all add: hook_time)
qed

lemma keeps_time_DeleteResource:
  assumes "hooks_keep_time H" and "bounded_waits F H"
  shows "keeps_time (DeleteResource F H)"
  unfolding DeleteResource_def
proof (rule keeps_time_Retry [OF _ bounded_retries(2) [OF assms(2)]])
  have "keeps_time (WaitUntilDeleted_once H)"
    using assms(1) unfolding WaitUntilDeleted_once_def
    by (intro keeps_time_intros) (simp_all add: hook_time)
  then have "keeps_time (Retry (default_timeout F) (wait_deleted_retry H) (WaitUntilDeleted_once H))"
    by (rule keeps_time_Retry [OF _ bounded_retries(4) [OF assms(2)]])
  then show "keeps_time (DeleteResource_once F H)"
    using assms(1) unfolding DeleteResource_once_def
    by (intro keeps_time_intros) (simp_all add: hook_time keeps_time_intros)
qed

lemma keeps_time_freeze_restore:
  assumes "hooks_keep_time H"
  shows "keeps_time (Restore F H)" "keeps_time (Freeze F H)"
  using assms unfolding Restore_def Freeze_def UpdateTimeout_def
  by (intro keeps_time_intros; simp add: hook_time keeps_time_intros)+

lemma keeps_time_Create:
  assumes "hooks_keep_time H" and "bounded_waits F H"
  shows "keeps_time (Create F H restore)"
proof -
  have "keeps_time (Create_steps F H)"
    using assms(1) unfolding Create_steps_def
    by (intro keeps_time_intros)
       (simp_all add: hook_time keeps_time_intros keeps_time_CreateResource [OF assms]
          keeps_time_WaitUntilReady [OF assms])
  with assms(1) show ?thesis
    unfolding Create_def
    by (intro keeps_time_intros keeps_time_freeze_restore) (simp_all add: hook_time)
qed

lemma keeps_time_Delete:
  assumes "hooks_keep_time H" and "bounded_waits F H"
  shows "keeps_time (Delete F H freeze)"
proof -
  have "keeps_time (Delete_steps F H)"
    using assms(1) unfolding Delete_steps_def
    by (intro keeps_time_intros)
       (simp_all add: hook_time keeps_time_intros keeps_time_DeleteResource [OF assms])
  with assms(1) show ?thesis
    unfolding Delete_def GetResourceMetadata_def
    by (intro keeps_time_intros keeps_time_freeze_restore) (simp_all add: hook_time)
qed

section \<open>The resource and what exists in the cloud\<close>

text \<open>
  The abstract specification: \<open>ex\<close> says of a state of the cloud whether the resource exists in
  it.  A provider follows it if \<open>_Exists\<close> reports it and the hooks that only wait or look do not
  change it.
\<close>

definition follows_spec :: "('w \<Rightarrow> bool) \<Rightarrow> 'w hooks \<Rightarrow> bool" where
  "follows_spec ex H =
     ((\<forall>k. wp (Exists_hook H) (\<lambda>b k'. ex (world k') = b)
        (\<lambda>e k'. \<not> isinstance e (Builtin NotImplementedError)) k) \<and>
      list_all (keeps (\<lambda>k. ex (world k))) [WaitUntilRunning_hook H, PostCreate_hook H,
        CheckForReadinessErrors_hook H, CreateDependencies_hook H] \<and>
      keeps (\<lambda>k. ex (world k)) (IsReady_hook H) \<and>
      keeps (\<lambda>k. \<not> ex (world k)) (DeleteDependencies_hook H) \<and>
      keeps (\<lambda>k. \<not> ex (world k)) (PreDelete_hook H))"

text \<open>A resource is in step with the cloud when created means existing until it is deleted.\<close>

definition in_step :: "('w \<Rightarrow> bool) \<Rightarrow> 'w rworld mach \<Rightarrow> bool" where
  "in_step ex m = (let r = self (world m) in
     (created r \<and> \<not> deleted r \<longrightarrow> ex (cloud (world m))) \<and>
     (created r \<and> deleted r \<longrightarrow> \<not> ex (cloud (world m))))"

lemma wp_on_cloud_keeps:
  assumes "keeps (\<lambda>k. J (world k)) h" and "J (cloud (world m))"
    and "\<And>x m'. self (world m') = self (world m) \<Longrightarrow> J (cloud (world m')) \<Longrightarrow> Q x m'"
    and "\<And>e m'. self (world m') = self (world m) \<Longrightarrow> J (cloud (world m')) \<Longrightarrow> E e m'"
  shows "wp (on_cloud h) Q E m"
  unfolding wp_on_cloud
  by (rule wp_mono [OF keepsD [OF assms(1)]]) (use assms(2-4) in simp_all)

lemma wp_on_cloud_any:
  assumes "\<And>x m'. self (world m') = self (world m) \<Longrightarrow> Q x m'"
    and "\<And>e m'. self (world m') = self (world m) \<Longrightarrow> E e m'"
  shows "wp (on_cloud h) Q E m"
  unfolding wp_on_cloud by (rule wpI) (use assms in simp_all)

lemma wp_on_cloud_exists:
  assumes "follows_spec ex H"
    and "\<And>b m'. self (world m') = self (world m) \<Longrightarrow> ex (cloud (world m')) = b \<Longrightarrow> Q b m'"
    and "\<And>e m'. self (world m') = self (world m) \<Longrightarrow>
          \<not> isinstance e (Builtin NotImplementedError) \<Longrightarrow> E e m'"
  shows "wp (on_cloud (Exists_hook H)) Q E m"
proof -
  have "wp (Exists_hook H) (\<lambda>b k'. ex (world k') = b)
      (\<lambda>e k'. \<not> isinstance e (Builtin NotImplementedError)) (cloud_mach m)"
    using assms(1) by (simp add: follows_spec_def)
  then show ?thesis
    unfolding wp_on_cloud by (rule wp_mono) (use assms(2,3) in simp_all)
qed

text \<open>Creating: if \<open>_CreateResource\<close> returns, the resource is marked and exists.\<close>

lemma CreateResource_once_spec:
  assumes spec: "follows_spec ex H" and "\<not> deleted (self (world m))"
    and "created (self (world m)) \<longrightarrow> ex (cloud (world m))"
  shows "wp (CreateResource_once F H)
     (\<lambda>_ m'. created (self (world m')) \<and> \<not> deleted (self (world m')) \<and> ex (cloud (world m')))
     (\<lambda>_ m'. \<not> created (self (world m')) \<and> \<not> deleted (self (world m'))) m"
proof -
  have h: "keeps (\<lambda>k. ex (world k)) (WaitUntilRunning_hook H)"
    using spec by (simp add: follows_spec_def)
  note ex = wp_on_cloud_exists [OF spec]
  show ?thesis
    using assms(2,3) unfolding CreateResource_once_def
    by (auto simp: wp_simps Let_def issubclass_def creation_failed_def
        intro!: wp_on_cloud_any [where h = "Create_hook H"] ex
          wp_on_cloud_keeps [OF h])
qed

lemma CreateResource_spec:
  assumes spec: "follows_spec ex H" and "\<not> deleted (self (world m))"
    and "created (self (world m)) \<longrightarrow> ex (cloud (world m))"
  shows "wp (CreateResource F H)
     (\<lambda>_ m'. created (self (world m')) \<and> \<not> deleted (self (world m')) \<and> ex (cloud (world m')))
     (\<lambda>_ _. True) m"
  unfolding CreateResource_def
proof (rule wp_mono [OF retried.call_post [where I = "\<lambda>m. \<not> deleted (self (world m))
      \<and> (created (self (world m)) \<longrightarrow> ex (cloud (world m)))"]])
  fix m :: "'a rworld mach"
  assume "\<not> deleted (self (world m)) \<and> (created (self (world m)) \<longrightarrow> ex (cloud (world m)))"
  then show "wp (CreateResource_once F H)
     (\<lambda>_ m'. created (self (world m')) \<and> \<not> deleted (self (world m')) \<and> ex (cloud (world m')))
     (\<lambda>_ m. \<not> deleted (self (world m)) \<and> (created (self (world m)) \<longrightarrow> ex (cloud (world m)))) m"
    by (intro wp_mono [OF CreateResource_once_spec [OF spec]]) auto
qed (use assms in auto)

lemma WaitUntilReady_spec:
  assumes spec: "follows_spec ex H"
    and m: "created (self (world m)) \<and> \<not> deleted (self (world m)) \<and> ex (cloud (world m))"
  shows "wp (WaitUntilReady F H)
     (\<lambda>_ m'. created (self (world m')) \<and> \<not> deleted (self (world m')) \<and> ex (cloud (world m')))
     (\<lambda>_ _. True) m"
proof -
  let ?I = "\<lambda>m. created (self (world m)) \<and> \<not> deleted (self (world m)) \<and> ex (cloud (world m))"
  have h: "keeps (\<lambda>k. ex (world k)) (IsReady_hook H)"
    "keeps (\<lambda>k. ex (world k)) (CheckForReadinessErrors_hook H)"
    using spec by (simp_all add: follows_spec_def)
  have once: "wp (InnerWaitUntilReady H) (\<lambda>_. ?I) (\<lambda>_. ?I) m" if "?I m" for m
    using that unfolding InnerWaitUntilReady_def raise_exn_def
    by (auto simp: wp_simps intro!: wp_on_cloud_keeps [OF h(1)] wp_on_cloud_keeps [OF h(2)])
  have "wp (Retry (default_timeout F) (ready_retry H) (InnerWaitUntilReady H))
      (\<lambda>_. ?I) (\<lambda>_. ?I) m" if "?I m" for m
    by (rule retried.call_invariant [where I = ?I]) (use once that in auto)
  from wp_mono [OF this] m show ?thesis
    unfolding WaitUntilReady_def by (simp add: wp_simps)
qed

lemma Create_steps_spec:
  assumes spec: "follows_spec ex H" and "\<not> deleted (self (world m))"
    and "created (self (world m)) \<longrightarrow> ex (cloud (world m))"
  shows "wp (Create_steps F H)
     (\<lambda>_ m'. created (self (world m')) \<and> \<not> deleted (self (world m')) \<and> ex (cloud (world m'))
        \<and> resource_ready_time (self (world m')) \<noteq> None) (\<lambda>_ _. True) m"
proof -
  have h: "keeps (\<lambda>k. ex (world k)) (CreateDependencies_hook H)"
    "keeps (\<lambda>k. ex (world k)) (PostCreate_hook H)"
    using spec by (simp_all add: follows_spec_def)
  have deps: "wp (on_cloud (CreateDependencies_hook H)) Q (\<lambda>_ _. True) m"
    if "\<And>x m'. self (world m') = self (world m) \<Longrightarrow>
          (created (self (world m)) \<longrightarrow> ex (cloud (world m'))) \<Longrightarrow> Q x m'" for Q
  proof (cases "created (self (world m))")
    case True
    with assms(3) that show ?thesis by (auto intro!: wp_on_cloud_keeps [OF h(1)])
  next
    case False
    with that show ?thesis by (auto intro!: wp_on_cloud_any)
  qed
  note create = wp_mono [OF CreateResource_spec [OF spec]] and ready = wp_mono [OF WaitUntilReady_spec [OF spec]]
  show ?thesis
    unfolding Create_steps_def wp_seqM_Cons
    using assms(2)
    by (intro deps create ready)
       (auto simp: wp_simps Let_def truthy_def intro!: wp_on_cloud_keeps [OF h(2)]
          split: option.splits)
qed

text \<open>Deleting: if \<open>_DeleteResource\<close> returns for a created resource, it no longer exists.\<close>

lemma DeleteResource_once_spec:
  assumes spec: "follows_spec ex H" and m: "created (self (world m)) \<and> \<not> deleted (self (world m))"
  shows "wp (DeleteResource_once F H)
     (\<lambda>_ m'. created (self (world m')) \<and> \<not> deleted (self (world m')) \<and> \<not> ex (cloud (world m')))
     (\<lambda>_ m'. created (self (world m')) \<and> \<not> deleted (self (world m'))) m"
proof -
  let ?I = "\<lambda>m. created (self (world m)) \<and> \<not> deleted (self (world m))"
  have wait: "wp (Retry (default_timeout F) (wait_deleted_retry H) (WaitUntilDeleted_once H)) Q E m"
    if "?I m" "\<And>x m'. ?I m' \<Longrightarrow> Q x m'" "\<And>e m'. ?I m' \<Longrightarrow> E e m'" for m Q E
  proof (rule wp_mono [OF retried.call_invariant [where I = ?I]])
    fix m :: "'a rworld mach"
    assume "?I m"
    then show "wp (WaitUntilDeleted_once H) (\<lambda>_. ?I) (\<lambda>_. ?I) m"
      unfolding WaitUntilDeleted_once_def raise_exn_def
      by (auto simp: wp_simps intro!: wp_on_cloud_any)
  qed (use that in auto)
  show ?thesis
    using m unfolding DeleteResource_once_def raise_exn_def
    by (auto simp: wp_simps Let_def issubclass_def
        intro!: wp_on_cloud_any [where h = "Delete_hook H"] wait wp_on_cloud_exists [OF spec])
qed

lemma DeleteResource_spec:
  assumes spec: "follows_spec ex H" and m: "created (self (world m)) \<and> \<not> deleted (self (world m))"
  shows "wp (DeleteResource F H)
     (\<lambda>_ m'. created (self (world m')) \<and> \<not> deleted (self (world m')) \<and> \<not> ex (cloud (world m')))
     (\<lambda>_ _. True) m"
  unfolding DeleteResource_def
  by (rule wp_mono [OF retried.call_post
        [where I = "\<lambda>m. created (self (world m)) \<and> \<not> deleted (self (world m))"]])
     (use DeleteResource_once_spec [OF spec] m in auto)

lemma Delete_steps_spec:
  assumes spec: "follows_spec ex H" and m: "created (self (world m)) \<and> \<not> deleted (self (world m))"
  shows "wp (Delete_steps F H)
     (\<lambda>_ m'. deleted (self (world m')) \<and> \<not> ex (cloud (world m'))
        \<and> delete_end_time (self (world m')) \<noteq> None) (\<lambda>_ _. True) m"
proof -
  have h: "keeps (\<lambda>k. \<not> ex (world k)) (DeleteDependencies_hook H)"
    using spec by (simp add: follows_spec_def)
  show ?thesis
    unfolding Delete_steps_def wp_seqM_Cons
    using m
    by (intro wp_on_cloud_any [where h = "PreDelete_hook H"] wp_mono [OF DeleteResource_spec [OF spec]])
       (auto simp: wp_simps Let_def intro!: wp_on_cloud_keeps [OF h])
qed

section \<open>Times\<close>

text \<open>
  The recorded times: none lies in the future, and an end is not before its start.  The clock is
  positive, so that a recorded time is never Python's falsy \<open>0.0\<close>.
\<close>

definition time_order :: "rat option \<Rightarrow> rat option \<Rightarrow> bool" where
  "time_order s e = (case s of None \<Rightarrow> True | Some a \<Rightarrow> (case e of None \<Rightarrow> True | Some b \<Rightarrow> a \<le> b))"

definition times_ok :: "rat \<Rightarrow> resource \<Rightarrow> bool" where
  "times_ok t r =
     (time_order (create_start_time r) (Some t) \<and> time_order (create_end_time r) (Some t) \<and>
      time_order (delete_start_time r) (Some t) \<and> time_order (delete_end_time r) (Some t) \<and>
      time_order (resource_ready_time r) (Some t) \<and>
      time_order (create_start_time r) (create_end_time r) \<and>
      time_order (create_start_time r) (resource_ready_time r) \<and>
      time_order (delete_start_time r) (delete_end_time r) \<and>
      delete_start_time r \<noteq> Some 0 \<and>
      (\<not> created r \<longrightarrow> create_end_time r = None \<and> resource_ready_time r = None) \<and>
      (delete_end_time r \<noteq> None \<longrightarrow> deleted r))"

definition times_inv :: "'w rworld mach \<Rightarrow> bool" where
  "times_inv m = (sane m \<and> 0 < now m \<and> times_ok (now m) (self (world m)))"

lemmas times_defs = times_inv_def times_ok_def time_order_def

lemma times_ok_mono: "times_ok t r \<Longrightarrow> t \<le> t' \<Longrightarrow> times_ok t' r"
  by (auto simp: times_ok_def time_order_def split: option.splits)

lemma times_inv_later: "times_inv m \<Longrightarrow> later m m' \<Longrightarrow> times_inv m'"
  by (auto simp: times_inv_def later_def intro: times_ok_mono)

lemma times_inv_passes: "times_inv m \<Longrightarrow> passes m m' \<Longrightarrow> times_inv m'"
  using passes_time [of m m'] by (auto simp: times_inv_def intro: times_ok_mono)

lemma times_inv_sane: "times_inv m \<Longrightarrow> sane m"
  by (simp add: times_inv_def)

lemma keeps_Retry:
  assumes "keeps I f" and "\<And>m m'. I m \<Longrightarrow> passes m m' \<Longrightarrow> I m'"
  shows "keeps I (Retry dflt c f)"
  by (rule keepsI, rule retried.call_invariant [where I = I]) (use assms in \<open>auto dest: keepsD\<close>)

lemma keeps_times_hook: "keeps_time h \<Longrightarrow> keeps times_inv (on_cloud h)"
  by (rule keepsI, rule wp_hook_later) (auto dest: times_inv_sane times_inv_later)

lemma keeps_times_get [keeps_intros]: "keeps times_inv (get_self f)"
  by (simp add: keeps_def wp_get_self)

lemma keeps_times_Retry [keeps_intros]: "keeps times_inv f \<Longrightarrow> keeps times_inv (Retry dflt c f)"
  by (rule keeps_Retry) (auto intro: times_inv_passes)

text \<open>Reading the clock, and a hook, under an invariant that time does not break.\<close>

definition steady :: "('w rworld mach \<Rightarrow> bool) \<Rightarrow> bool" where
  "steady P = (\<forall>m m'. P m \<longrightarrow> sane m \<and> (passes m m' \<or> later m m' \<longrightarrow> P m'))"

lemma steadyD:
  assumes "steady P" and "P m"
  shows "sane m" and "passes m m' \<Longrightarrow> P m'" and "later m m' \<Longrightarrow> P m'"
  using assms unfolding steady_def by blast+

lemma wp_time_steady:
  assumes "steady P" and "P m" and "\<And>m'. P m' \<Longrightarrow> Q (now m') m'"
  shows "wp time_time Q E m"
proof -
  have "P (retick m (now m + lags m 0) (\<lambda>i. lags m (Suc i)) (draws m))"
    using steadyD(2) [OF assms(1,2) passes_clock(1)] .
  with assms(3) show ?thesis by (simp add: wp_time_time Let_def)
qed

lemma wp_hook_steady:
  assumes "steady P" and "keeps_time h" and "P m"
    and "\<And>x m'. P m' \<Longrightarrow> Q x m'" and "\<And>e m'. P m' \<Longrightarrow> E e m'"
  shows "wp (on_cloud h) Q E m"
  by (rule wp_hook_later [OF assms(2) steadyD(1) [OF assms(1,3)]])
     (rule assms(4), erule steadyD(3) [OF assms(1,3)], rule assms(5), erule steadyD(3) [OF assms(1,3)])

definition times_when :: "(resource \<Rightarrow> bool) \<Rightarrow> 'w rworld mach \<Rightarrow> bool" where
  "times_when g m = (times_inv m \<and> g (self (world m)))"

lemma steady_times: "steady (times_when g)"
  unfolding steady_def times_when_def
proof (intro allI impI)
  fix m m' :: "'a rworld mach"
  assume m: "times_inv m \<and> g (self (world m))"
  have "times_inv m' \<and> g (self (world m'))" if "passes m m' \<or> later m m'"
  proof -
    have "self (world m') = self (world m)" using that by (auto simp: later_def)
    moreover have "times_inv m'" using that m times_inv_passes times_inv_later by blast
    ultimately show ?thesis using m by simp
  qed
  moreover have "sane m" using m by (simp add: times_inv_def)
  ultimately show "sane m \<and> (passes m m' \<or> later m m' \<longrightarrow> times_inv m' \<and> g (self (world m')))"
    by blast
qed

lemmas wp_times = wp_time_steady [OF steady_times] wp_hook_steady [OF steady_times]

lemma times_set:
  assumes "times_inv m"
  shows "\<not> created (self (world m)) \<Longrightarrow> times_inv (m\<lparr>world := (world m)\<lparr>self :=
      (self (world m))\<lparr>create_start_time := Some (now m)\<rparr>\<rparr>\<rparr>)"
    and "times_inv (m\<lparr>world := (world m)\<lparr>self := (self (world m))\<lparr>created := True\<rparr>\<rparr>\<rparr>)"
    and "created (self (world m)) \<Longrightarrow> times_inv (m\<lparr>world := (world m)\<lparr>self :=
      (self (world m))\<lparr>create_end_time := Some (now m)\<rparr>\<rparr>\<rparr>)"
    and "created (self (world m)) \<Longrightarrow> times_inv (m\<lparr>world := (world m)\<lparr>self :=
      (self (world m))\<lparr>resource_ready_time := Some (now m)\<rparr>\<rparr>\<rparr>)"
    and "\<not> deleted (self (world m)) \<Longrightarrow> times_inv (m\<lparr>world := (world m)\<lparr>self :=
      (self (world m))\<lparr>delete_start_time := Some (now m)\<rparr>\<rparr>\<rparr>)"
    and "times_inv (m\<lparr>world := (world m)\<lparr>self := (self (world m))\<lparr>deleted := True\<rparr>\<rparr>\<rparr>)"
    and "deleted (self (world m)) \<Longrightarrow> times_inv (m\<lparr>world := (world m)\<lparr>self :=
      (self (world m))\<lparr>delete_end_time := Some (now m)\<rparr>\<rparr>\<rparr>)"
    and "times_inv (m\<lparr>world := (world m)\<lparr>self := (self (world m))\<lparr>restored := b\<rparr>\<rparr>\<rparr>)"
    and "times_inv (m\<lparr>world := (world m)\<lparr>ready_checks_performed := n\<rparr>\<rparr>)"
  using assms by (auto simp: times_defs sane_def split: option.splits)

lemma CreateResource_times:
  assumes H: "hooks_keep_time H"
  shows "times_when g m \<Longrightarrow> wp (CreateResource F H) (\<lambda>_. times_when created) (\<lambda>_. times_inv) m"
proof -
  assume m: "times_when g m"
  have once: "wp (CreateResource_once F H) (\<lambda>_. times_when created) (\<lambda>_. times_inv) m"
    if "times_inv m" for m
  proof (cases "created (self (world m))")
    case True
    with that show ?thesis by (simp add: CreateResource_once_def wp_simps times_when_def)
  next
    case False
    let ?P = "times_when (\<lambda>r. \<not> created r)"
    note hook = wp_times(2) [where g = "\<lambda>r. \<not> created r"]
    have P: "?P m" using that False by (simp add: times_when_def)
    have 1: "wp (bindM time_time (\<lambda>t. set_self (\<lambda>r. r\<lparr>create_start_time := Some t\<rparr>))) (\<lambda>_. ?P) E m"
      if "?P m" for m and E
      unfolding wp_bindM
      by (rule wp_times(1) [OF that]) (simp add: wp_set_self times_when_def times_set(1))
    have 2: "wp (bindM time_time (\<lambda>t. set_self (\<lambda>r. r\<lparr>create_end_time := Some t\<rparr>)))
        (\<lambda>_. times_when created) E m" if "times_when created m" for m and E
      unfolding wp_bindM
      by (rule wp_times(1) [OF that]) (simp add: wp_set_self times_when_def times_set(3))
    have create: "wp (catchM (on_cloud (Create_hook H)) (\<lambda>e.
           if isinstance e (Benchmarks InsufficientCapacityCloudFailure)
              \<and> retry_on_insufficient_capacity_cloud_failure F
           then raise (creation_failed H) else raise e)) (\<lambda>_. ?P) (\<lambda>_. ?P) m" if "?P m" for m
      unfolding wp_catchM using H
      by (intro hook [OF _ that]) (auto simp: hook_time wp_if wp_raise)
    have exists: "wp (ignore_not_implemented (bindM (on_cloud (Exists_hook H))
        (\<lambda>b. whenM (\<not> b) (raise (creation_failed H))))) (\<lambda>_. ?P) (\<lambda>_. ?P) m" if "?P m" for m
      unfolding wp_ignore_not_implemented wp_bindM using H
      by (intro hook [OF _ that]) (auto simp: hook_time wp_whenM wp_raise)
    have run: "wp (on_cloud (WaitUntilRunning_hook H)) (\<lambda>_. ?P) (\<lambda>_. ?P) m" if "?P m" for m
      using H by (intro hook [OF _ that]) (auto simp: hook_time)
    have mark: "wp (set_self (\<lambda>r. r\<lparr>created := True\<rparr>)) (\<lambda>_. times_when created) (\<lambda>_. ?P) m"
      if "?P m" for m using that by (simp add: wp_set_self times_when_def times_set(2))
    have E: "wp f Q (\<lambda>_. ?P) m \<Longrightarrow> wp f Q (\<lambda>_. times_inv) m" for f :: "('a, unit) meth" and Q m
      by (erule wp_mono) (auto simp: times_when_def)
    have "wp (seqM [
         bindM time_time (\<lambda>t. set_self (\<lambda>r. r\<lparr>create_start_time := Some t\<rparr>)),
         catchM (on_cloud (Create_hook H)) (\<lambda>e.
           if isinstance e (Benchmarks InsufficientCapacityCloudFailure)
              \<and> retry_on_insufficient_capacity_cloud_failure F
           then raise (creation_failed H) else raise e),
         ignore_not_implemented
           (bindM (on_cloud (Exists_hook H)) (\<lambda>b. whenM (\<not> b) (raise (creation_failed H)))),
         on_cloud (WaitUntilRunning_hook H),
         set_self (\<lambda>r. r\<lparr>created := True\<rparr>),
         bindM time_time (\<lambda>t. set_self (\<lambda>r. r\<lparr>create_end_time := Some t\<rparr>))])
       (\<lambda>_. times_when created) (\<lambda>_. times_inv) m"
      by (rule wp_seqM_step [OF 1 [OF P]], rule wp_seqM_step [OF E [OF create]], assumption,
          rule wp_seqM_step [OF E [OF exists]], assumption,
          rule wp_seqM_step [OF E [OF run]], assumption,
          rule wp_seqM_step [OF E [OF mark]], assumption, rule wp_seqM_step [OF 2], assumption)
         (simp add: wp_simps)
    with False show ?thesis
      unfolding CreateResource_once_def wp_bindM wp_get_self by simp
  qed
  show ?thesis
    unfolding CreateResource_def
    by (rule retried.call_post [where I = times_inv])
       (use once m in \<open>auto simp: times_when_def intro: times_inv_passes\<close>)
qed

lemma keeps_times_when_hook: "keeps_time h \<Longrightarrow> keeps (times_when g) (on_cloud h)"
  by (rule keepsI, rule wp_times(2)) auto

lemma keeps_times_when_Retry:
  "keeps (times_when g) f \<Longrightarrow> keeps (times_when g) (Retry dflt c f)"
  by (erule keeps_Retry) (rule steadyD(2) [OF steady_times])

lemma keeps_times_when_get [keeps_intros]: "keeps (times_when g) (get_self f)"
  by (simp add: keeps_def wp_get_self)

lemma keeps_times_when_raise_exn [keeps_intros]: "keeps (times_when g) (raise_exn c msg)"
  by (simp add: raise_exn_def keeps_raise)

lemma keeps_times_when_getM [keeps_intros]: "keeps (times_when g) (getM f)"
  by (simp add: keeps_def wp_getM)

lemma keeps_times_when_checks [keeps_intros]:
  "keeps (times_when g) (modifyM (\<lambda>m. m\<lparr>world := (world m)\<lparr>ready_checks_performed := n m\<rparr>\<rparr>))"
  by (simp add: keeps_def wp_modifyM times_when_def times_set(9))

lemma keeps_times_when_restored [keeps_intros]:
  "keeps (times_when (\<lambda>_. True)) (set_self (\<lambda>r. r\<lparr>restored := b\<rparr>))"
  by (simp add: keeps_def wp_set_self times_when_def times_set(8))

lemma keeps_times_when_ignore [keeps_intros]:
  "keeps (times_when g) f \<Longrightarrow> keeps (times_when g) (ignore_not_implemented f)"
  unfolding ignore_not_implemented_def by (intro keeps_intros)

lemma WaitUntilReady_times:
  assumes "hooks_keep_time H"
  shows "keeps (times_when g) (WaitUntilReady F H)"
  unfolding WaitUntilReady_def InnerWaitUntilReady_def
  using assms
  by (intro keeps_intros keeps_times_when_Retry keeps_times_when_hook) (simp_all add: hook_time)

lemma times_when_weaken: "times_when g m \<Longrightarrow> times_when (\<lambda>_. True) m"
  by (simp add: times_when_def)

lemma wp_times_weaken:
  "wp f (\<lambda>_. times_when g) (\<lambda>_. times_when h) m
     \<Longrightarrow> wp f (\<lambda>_. times_when g) (\<lambda>_. times_inv) m"
  by (erule wp_mono) (auto simp: times_when_def)

lemma Create_steps_times:
  assumes H: "hooks_keep_time H" and m: "times_inv m"
  shows "wp (Create_steps F H) (\<lambda>_. times_inv) (\<lambda>_. times_inv) m"
proof -
  have hook: "wp (on_cloud h) (\<lambda>_. times_when g) (\<lambda>_. times_inv) m"
    if "keeps_time h" "times_when g m" for h :: "'a hook" and g m
    by (rule wp_times_weaken, rule keepsD [OF keeps_times_when_hook]) (use that in auto)
  have ready: "wp (WaitUntilReady F H) (\<lambda>_. times_when created) (\<lambda>_. times_inv) m"
    if "times_when created m" for m
    by (rule wp_times_weaken, rule keepsD [OF WaitUntilReady_times [OF H] that])
  have mark: "wp (bindM (get_self resource_ready_time) (\<lambda>ready. whenM (\<not> truthy ready)
       (bindM time_time (\<lambda>t. set_self (\<lambda>r. r\<lparr>resource_ready_time := Some t\<rparr>)))))
     (\<lambda>_. times_when created) (\<lambda>_. times_inv) m" if "times_when created m" for m
    unfolding wp_bindM wp_get_self wp_whenM
    using that by (auto intro!: wp_times(1) [OF that] simp: wp_set_self times_when_def times_set(4))
  have "wp (Create_steps F H) (\<lambda>_. times_when created) (\<lambda>_. times_inv) m"
    unfolding Create_steps_def
    by (rule wp_seqM_step [where P = "times_when (\<lambda>_. True)"], rule hook,
        use H in \<open>simp add: hook_time\<close>, use m in \<open>simp add: times_when_def\<close>,
        rule wp_seqM_step [OF CreateResource_times [OF H]], assumption,
        rule wp_seqM_step [OF ready], assumption, rule wp_seqM_step [OF mark], assumption,
        rule wp_seqM_step [where P = "times_when created"], rule hook,
        use H in \<open>simp add: hook_time\<close>, assumption)
       (simp add: wp_simps)
  then show ?thesis by (rule wp_mono) (auto simp: times_when_def)
qed

lemma DeleteResource_times:
  assumes H: "hooks_keep_time H"
  shows "keeps times_inv (DeleteResource F H)"
proof -
  have wait: "keeps (times_when g) (Retry (default_timeout F) (wait_deleted_retry H)
      (WaitUntilDeleted_once H))" for g
    unfolding WaitUntilDeleted_once_def using H
    by (intro keeps_intros keeps_times_when_Retry keeps_times_when_hook) (simp_all add: hook_time)
  let ?P = "times_when (\<lambda>r. \<not> deleted r)"
  have once: "wp (DeleteResource_once F H) (\<lambda>_. times_inv) (\<lambda>_. times_inv) m" if m: "times_inv m" for m
  proof (cases "deleted (self (world m)) \<or> \<not> created (self (world m))")
    case True
    with m show ?thesis by (simp add: DeleteResource_once_def wp_simps)
  next
    case False
    then have P: "?P m" using m by (simp add: times_when_def)
    have start: "wp (whenM b (bindM time_time (\<lambda>t. set_self (\<lambda>r. r\<lparr>delete_start_time := Some t\<rparr>))))
       (\<lambda>_. ?P) (\<lambda>_. ?P) m" for b
      unfolding wp_whenM wp_bindM
      using P by (auto intro!: wp_times(1) [OF P] simp: wp_set_self times_when_def times_set(5))
    have rest: "keeps ?P (seqM [on_cloud (Delete_hook H),
        Retry (default_timeout F) (wait_deleted_retry H) (WaitUntilDeleted_once H),
        ignore_not_implemented (bindM (on_cloud (Exists_hook H)) (\<lambda>b. whenM b
          (raise_exn (Resource RetryableDeletionError) (''Deletion of '' @ class_name_of H @ '' failed.''))))])"
      using H by (intro keeps_intros)
        (auto simp: hook_time intro!: keeps_times_when_hook wait keeps_intros)
    have "wp (DeleteResource_once F H) (\<lambda>_. ?P) (\<lambda>_. ?P) m"
      unfolding DeleteResource_once_def wp_bindM wp_get_self
      using False wp_seqM_step [OF start keepsD [OF rest]] by simp
    then show ?thesis by (rule wp_mono) (auto simp: times_when_def)
  qed
  show ?thesis
    unfolding DeleteResource_def
    by (rule keeps_Retry [OF keepsI [OF once]]) (auto intro: times_inv_passes)
qed

lemma Delete_steps_times:
  assumes H: "hooks_keep_time H" and m: "times_inv m"
  shows "wp (Delete_steps F H) (\<lambda>_. times_inv) (\<lambda>_. times_inv) m"
proof -
  have pre: "wp (on_cloud (PreDelete_hook H)) (\<lambda>_. times_inv) (\<lambda>_. times_inv) m"
    "wp (on_cloud (DeleteDependencies_hook H)) (\<lambda>_. times_inv) (\<lambda>_. times_inv) m'"
    if "times_inv m" "times_inv m'" for m m'
    using H that by (auto intro!: keepsD [OF keeps_times_hook] simp: hook_time)
  have mark: "wp (set_self (\<lambda>r. r\<lparr>deleted := True\<rparr>)) (\<lambda>_. times_when deleted) (\<lambda>_. times_inv) m"
    if "times_inv m" for m
    using that by (simp add: wp_set_self times_when_def times_set(6))
  have stop: "wp (bindM time_time (\<lambda>t. set_self (\<lambda>r. r\<lparr>delete_end_time := Some t\<rparr>)))
     (\<lambda>_. times_inv) (\<lambda>_. times_inv) m" if "times_when deleted m" for m
    unfolding wp_bindM
    by (rule wp_times(1) [OF that]) (simp add: wp_set_self times_when_def times_set(7))
  show ?thesis
    unfolding Delete_steps_def
    by (rule wp_seqM_step [OF pre(1) [OF m m]],
        rule wp_seqM_step [OF keepsD [OF DeleteResource_times [OF H]]], assumption,
        rule wp_seqM_step [OF mark], assumption, rule wp_seqM_step [OF stop], assumption,
        rule wp_seqM_step [OF pre(2)], assumption, assumption)
       (simp add: wp_simps)
qed

lemma freeze_restore_times:
  assumes H: "hooks_keep_time H"
  shows "keeps times_inv (Restore F H)" "keeps times_inv (Freeze F H)"
proof -
  have eq: "times_inv = times_when (\<lambda>_. True)" by (rule ext) (simp add: times_when_def)
  show "keeps times_inv (Restore F H)" "keeps times_inv (Freeze F H)"
    unfolding eq Restore_def Freeze_def UpdateTimeout_def
    using H by (intro keeps_intros; auto simp: hook_time intro!: keeps_times_when_hook keeps_intros)+
qed

lemma Create_times: "hooks_keep_time H \<Longrightarrow> keeps times_inv (Create F H restore)"
  unfolding Create_def
  by (intro keeps_intros freeze_restore_times keepsI [of times_inv "Create_steps F H"]
      keeps_times_hook Create_steps_times) (auto simp: hook_time)

lemma Delete_times: "hooks_keep_time H \<Longrightarrow> keeps times_inv (Delete F H freeze)"
  unfolding Delete_def GetResourceMetadata_def
  by (intro keeps_intros freeze_restore_times keepsI [of times_inv "Delete_steps F H"]
      keeps_times_hook Delete_steps_times) (auto simp: hook_time)

section \<open>Runs\<close>

text \<open>
  The machines that come about by creating and deleting one resource any number of times, with
  any outcome, and by time passing in between.
\<close>

inductive lifecycle :: "resource_flags \<Rightarrow> 'w hooks \<Rightarrow> 'w rworld mach \<Rightarrow> 'w rworld mach \<Rightarrow> bool"
  for F :: resource_flags and H :: "'w hooks" and m0 :: "'w rworld mach" where
  start: "lifecycle F H m0 m0"
| creates: "lifecycle F H m0 m \<Longrightarrow> Create F H restore m = Some (r, m') \<Longrightarrow> lifecycle F H m0 m'"
| deletes: "lifecycle F H m0 m \<Longrightarrow> Delete F H freeze m = Some (r, m') \<Longrightarrow> lifecycle F H m0 m'"
| waits: "lifecycle F H m0 m \<Longrightarrow> passes m m' \<Longrightarrow> lifecycle F H m0 m'"

lemma lifecycle_times:
  assumes "hooks_keep_time H" and "times_inv m0"
  shows "lifecycle F H m0 m \<Longrightarrow> times_inv m"
proof (induction rule: lifecycle.induct)
  case (creates m restore r m')
  then show ?case using wp_outcome [OF keepsD [OF Create_times [OF assms(1)]]] by blast
next
  case (deletes m freeze r m')
  then show ?case using wp_outcome [OF keepsD [OF Delete_times [OF assms(1)]]] by blast
qed (use assms(2) times_inv_passes in auto)

definition nonneg :: "sample list \<Rightarrow> bool" where
  "nonneg ss = (\<forall>s \<in> set ss. 0 \<le> sample_value s)"

lemma time_sample_nonneg:
  "time_order s e \<Longrightarrow> wp (time_sample n s e md) (\<lambda>ss _. nonneg ss) (\<lambda>_ _. True) m"
  by (auto simp: time_sample_def new_sample_def wp_simps Let_def time_order_def truthy_def
      nonneg_def split: option.splits)

lemma nonneg_samples:
  assumes "times_ok t r"
  shows "wp (bindM (time_sample n1 (create_start_time r) (create_end_time r) md) (\<lambda>a.
      bindM (time_sample n2 (create_start_time r) (resource_ready_time r) md) (\<lambda>b.
      bindM (time_sample n3 (delete_start_time r) (delete_end_time r) md) (\<lambda>c.
        ret (a @ b @ c))))) (\<lambda>ss _. nonneg ss) (\<lambda>_ _. True) m"
proof -
  have "time_order (create_start_time r) (create_end_time r)"
    "time_order (create_start_time r) (resource_ready_time r)"
    "time_order (delete_start_time r) (delete_end_time r)"
    using assms by (simp_all add: times_ok_def)
  note steps = this [THEN time_sample_nonneg, THEN wp_mono]
  show ?thesis
    unfolding wp_bindM
    by (rule steps(1), rule steps(2), rule steps(3)) (auto simp: wp_ret nonneg_def)
qed

lemma GetSamples_nonneg:
  assumes "hooks_keep_time H" and "times_inv m"
  shows "wp (GetSamples H) (\<lambda>ss _. nonneg ss) (\<lambda>_ _. True) m"
proof -
  have hook: "keeps_time (GetResourceMetadata_hook H r)" for r
    using assms(1) by (simp add: hook_time)
  have "wp (on_cloud (GetResourceMetadata_hook H (self (world m)))) (\<lambda>_. times_inv) (\<lambda>_ _. True) m"
    by (rule wp_hook_later [OF hook times_inv_sane [OF assms(2)]])
       (simp_all add: times_inv_later [OF assms(2)])
  then show ?thesis
    unfolding GetSamples_def GetResourceMetadata_def id_def Let_def wp_bindM [of "on_cloud _"]
      wp_bindM [of "get_self _"] wp_bindM [of "bindM _ _"] wp_get_self
    by (rule wp_mono) (unfold times_inv_def, elim conjE, rule nonneg_samples, assumption, rule TrueI)
qed

lemma on_cloud_self: "on_cloud h m = Some (r, m') \<Longrightarrow> self (world m') = self (world m)"
  by (auto simp: on_cloud_def split: option.splits)

lemma bindM_get_self: "bindM (get_self f) g m = g (f (self (world m))) m"
  by (simp add: bindM_def get_self_def getM_def)

lemma thenM_cong:
  "(\<And>x t. f s = Some (Inr x, t) \<Longrightarrow> g t = g' t) \<Longrightarrow> thenM f g s = thenM f g' s"
  by (simp add: thenM_def bindM_def split: option.split sum.split prod.split)

lemma Retry_first:
  assumes "f (retick m (now m + lags m 0) (\<lambda>i. lags m (Suc i)) (draws m)) = Some (Inr x, m')"
    and "0 \<le> retry_timeout dflt c"
  shows "Retry dflt c f m = Some (Inr x, m')"
  using assms by (simp add: Retry_def bindM_def time_time_eq Let_def retry_loop_success)

lemma DeleteResource_uncreated:
  "\<not> created (self (world m)) \<Longrightarrow> DeleteResource F H m
     = Some (Inr (), retick m (now m + lags m 0) (\<lambda>i. lags m (Suc i)) (draws m))"
  unfolding DeleteResource_def
  by (rule Retry_first)
     (simp_all add: DeleteResource_once_def bindM_def get_self_def getM_def ret_def
        deletion_retry_def retry_timeout_def)

text \<open>A provider whose cloud is whether the resource exists.\<close>

definition simple_hooks :: "bool hooks" where
  "simple_hooks = base_hooks\<lparr>Create_hook := modifyM (\<lambda>m. m\<lparr>world := True\<rparr>),
     Delete_hook := modifyM (\<lambda>m. m\<lparr>world := False\<rparr>), Exists_hook := getM world,
     class_name_of := ''Simple''\<rparr>"

definition simple_flags :: resource_flags where
  "simple_flags = \<lparr>default_timeout = 1200, retry_on_insufficient_capacity_cloud_failure = False,
     timeout_minutes = 360, persistent_timeout_minutes = 60\<rparr>"

definition simple_mach :: "resource \<Rightarrow> bool \<Rightarrow> bool rworld mach" where
  "simple_mach r c = \<lparr>now = 1, lags = (\<lambda>_. 0), draws = (\<lambda>_. 0),
     world = \<lparr>self = r, ready_checks_performed = 0, cloud = c\<rparr>\<rparr>"

lemma simple_hooks_ok: "hooks_keep_time simple_hooks" "bounded_waits simple_flags simple_hooks"
  "follows_spec id simple_hooks"
  by (simp_all add: hooks_keep_time_def bounded_waits_def follows_spec_def simple_hooks_def
      simple_flags_def base_hooks_def keeps_time_intros not_implemented_def keeps_def wp_simps
      issubclass_def)

lemmas eval_py = bindM_def thenM_def catchM_def tryElseM_def getM_def modifyM_def ret_def raise_def
  whenM_def on_cloud_def put_cloud_def cloud_mach_def get_self_def set_self_def raise_exn_def
  ignore_not_implemented_def time_time_eq Let_def retick_def not_implemented_def

lemmas eval_resource = eval_py simple_hooks_def simple_flags_def base_hooks_def simple_mach_def
  new_resource_def truthy_def

lemma simple_Create:
  "\<exists>m'. Create simple_flags simple_hooks False
     (simple_mach (new_resource False False False False) False) = Some (Inr (), m')"
  unfolding Create_def Create_steps_def CreateResource_def CreateResource_once_def
    WaitUntilReady_def InnerWaitUntilReady_def creation_retry_def ready_retry_def
  by (simp add: eval_resource Retry_def retry_loop.simps retry_handler_def retry_timeout_def
      default_retry_def)

lemma simple_Delete:
  "\<exists>m'. Delete simple_flags simple_hooks False
     (simple_mach ((new_resource False False False False)\<lparr>created := True\<rparr>) True)
       = Some (Inr (), m')"
  unfolding Delete_def Delete_steps_def DeleteResource_def DeleteResource_once_def
    WaitUntilDeleted_once_def deletion_retry_def wait_deleted_retry_def GetResourceMetadata_def
  by (simp add: eval_resource Retry_def retry_loop.simps retry_handler_def retry_timeout_def
      default_retry_def)

lemma time_sample_returns: "\<exists>ss m'. time_sample n s e md m = Some (Inr ss, m')"
  by (simp add: time_sample_def new_sample_def bindM_def ret_def time_time_eq Let_def)

lemma simple_GetSamples: "\<exists>ss m'. GetSamples simple_hooks m = Some (Inr ss, m')"
proof -
  have bind: "\<exists>y m'. bindM f g m = Some (Inr y, m')"
    if "\<exists>x m'. f m = Some (Inr x, m')" "\<And>x m. \<exists>y m'. g x m = Some (Inr y, m')"
    for f :: "(bool, 'x) meth" and g :: "'x \<Rightarrow> (bool, sample list) meth" and m
    using that by (fastforce simp: bindM_def)
  have "\<exists>x m'. GetResourceMetadata simple_hooks m = Some (Inr x, m')" for m
    by (simp add: GetResourceMetadata_def eval_resource)
  then show ?thesis
    unfolding GetSamples_def Let_def
    by (intro bind time_sample_returns) (simp_all add: eval_py)
qed

section \<open>Properties\<close>

text \<open>C1: Create keeps its promise: when it returns for a resource that the benchmark manages,
  the resource is marked created and not deleted, it exists in the cloud, and the time at which
  it was ready is recorded.  The provider is assumed to report existence truthfully and its
  waiting and checking methods not to destroy the resource.\<close>

theorem Create_establishes:
  assumes "follows_spec ex H" and "\<not> user_managed (self (world m))"
    and "\<not> deleted (self (world m))" and "created (self (world m)) \<longrightarrow> ex (cloud (world m))"
    and "Create F H False m = Some (Inr u, m')"
  shows "created (self (world m')) \<and> \<not> deleted (self (world m')) \<and> ex (cloud (world m'))
    \<and> resource_ready_time (self (world m')) \<noteq> None"
proof -
  have "Create F H False m = Create_steps F H m"
    using assms(2) by (simp add: Create_def eval_py)
  with assms(5) wp_returnsD [OF Create_steps_spec [OF assms(1,3,4)]] show ?thesis by metis
qed

theorem Create_establishes_witness:
  "\<exists>m'. Create simple_flags simple_hooks False
     (simple_mach (new_resource False False False False) False) = Some (Inr (), m')
   \<and> created (self (world m')) \<and> cloud (world m')"
proof -
  obtain m' where m': "Create simple_flags simple_hooks False
     (simple_mach (new_resource False False False False) False) = Some (Inr (), m')"
    using simple_Create by blast
  from Create_establishes [OF simple_hooks_ok(3) _ _ _ this] m' show ?thesis
    by (simp add: simple_mach_def new_resource_def)
qed

text \<open>C16: Delete keeps its promise: when it returns for a created resource that the benchmark
  manages and is not frozen, the resource is marked deleted, it does not exist in the cloud any
  more, and the end of the deletion is recorded.\<close>

theorem Delete_establishes:
  assumes "follows_spec ex H" and "\<not> user_managed (self (world m))"
    and "created (self (world m))" and "\<not> deleted (self (world m))"
    and "Delete F H False m = Some (Inr u, m')"
  shows "deleted (self (world m')) \<and> \<not> ex (cloud (world m'))
    \<and> delete_end_time (self (world m')) \<noteq> None"
proof -
  let ?P = "\<lambda>m'. deleted (self (world m')) \<and> \<not> ex (cloud (world m'))
    \<and> delete_end_time (self (world m')) \<noteq> None"
  have "wp (Delete_steps F H) (\<lambda>_. ?P) (\<lambda>_ _. True) k" if "self (world k) = self (world m)" for k
    by (rule Delete_steps_spec [OF assms(1)]) (use that assms(3,4) in simp)
  then have "wp (Delete F H False) (\<lambda>_. ?P) (\<lambda>_ _. True) m"
    using assms(2) unfolding Delete_def GetResourceMetadata_def
    by (simp add: wp_simps) (rule wp_on_cloud_any; simp add: wp_ret)
  from wp_returnsD [OF this assms(5)] show ?thesis .
qed

theorem Delete_establishes_witness:
  "\<exists>m'. Delete simple_flags simple_hooks False
     (simple_mach ((new_resource False False False False)\<lparr>created := True\<rparr>) True)
       = Some (Inr (), m') \<and> deleted (self (world m')) \<and> \<not> cloud (world m')"
proof -
  obtain m' where m': "Delete simple_flags simple_hooks False
     (simple_mach ((new_resource False False False False)\<lparr>created := True\<rparr>) True)
       = Some (Inr (), m')"
    using simple_Delete by blast
  from Delete_establishes [OF simple_hooks_ok(3) _ _ _ this] m' show ?thesis
    by (simp add: simple_mach_def new_resource_def)
qed

text \<open>C20: Creating and deleting a resource always comes to an end: if the provider's methods
  return, time does not run backwards, and the flags give a non-negative default timeout and a
  positive poll interval, then Create and Delete return or raise from every state, whatever the
  cloud answers.\<close>

theorem Create_Delete_return:
  assumes "hooks_keep_time H" and "bounded_waits F H" and "sane m"
  shows "(\<exists>r m'. Create F H restore m = Some (r, m'))
    \<and> (\<exists>r m'. Delete F H freeze m = Some (r, m'))"
  using keeps_time_returns [OF keeps_time_Create [OF assms(1,2)] assms(3)]
    keeps_time_returns [OF keeps_time_Delete [OF assms(1,2)] assms(3)] by blast

theorem Create_Delete_return_witness:
  "(\<exists>r m'. Create simple_flags simple_hooks True
       (simple_mach (new_resource False True True False) False) = Some (r, m'))
   \<and> (\<exists>r m'. Delete simple_flags simple_hooks True
       (simple_mach (new_resource False True True False) False) = Some (r, m'))"
  by (rule Create_Delete_return [OF simple_hooks_ok(1,2)]) (simp add: simple_mach_def sane_def)

text \<open>The durations a resource reports (Time to Create, Time to Ready, Time to Delete) are
  never negative, however often the resource was created and deleted before, with whatever
  outcome, provided that the clock does not run backwards.\<close>

lemma reported_times_nonnegative:
  assumes "hooks_keep_time H" and "sane m0" and "0 < now m0"
    and "self (world m0) = new_resource managed freezable create_on delete_on"
    and "lifecycle F H m0 m" and "GetSamples H m = Some (Inr samples, m')"
  shows "\<forall>s \<in> set samples. 0 \<le> sample_value s"
proof -
  have "times_inv m0"
    using assms(2-4) by (simp add: times_defs new_resource_def)
  then have "times_inv m" by (rule lifecycle_times [OF assms(1) _ assms(5)])
  from wp_returnsD [OF GetSamples_nonneg [OF assms(1) this] assms(6)] show ?thesis
    by (simp add: nonneg_def)
qed

theorem reported_times_nonnegative_witness:
  "\<exists>m m' samples. lifecycle simple_flags simple_hooks
       (simple_mach (new_resource False False False False) False) m
     \<and> GetSamples simple_hooks m = Some (Inr samples, m')
     \<and> (\<forall>s \<in> set samples. 0 \<le> sample_value s)"
proof -
  let ?m0 = "simple_mach (new_resource False False False False) False"
  obtain m where "Create simple_flags simple_hooks False ?m0 = Some (Inr (), m)"
    using simple_Create by blast
  then have run: "lifecycle simple_flags simple_hooks ?m0 m"
    by (rule lifecycle.creates [OF lifecycle.start])
  obtain samples m' where get: "GetSamples simple_hooks m = Some (Inr samples, m')"
    using simple_GetSamples by blast
  have "\<forall>s \<in> set samples. 0 \<le> sample_value s"
    by (rule reported_times_nonnegative [OF simple_hooks_ok(1) _ _ _ run get])
       (simp_all add: simple_mach_def sane_def)
  with run get show ?thesis by blast
qed

text \<open>A resource whose created mark is not set is never deleted from the cloud: Delete behaves
  the same whatever the provider's _Delete method does, and still marks the resource deleted when
  it returns.\<close>

lemma Delete_skips_uncreated:
  assumes "\<not> user_managed (self (world m))" and "\<not> created (self (world m))"
  shows "Delete F (H\<lparr>Delete_hook := d\<rparr>) False m = Delete F H False m
    \<and> (\<forall>u m'. Delete F H False m = Some (Inr u, m') \<longrightarrow> deleted (self (world m')))"
proof
  let ?H = "H\<lparr>Delete_hook := d\<rparr>"
  have hooks_eq: "PreDelete_hook ?H = PreDelete_hook H"
    "DeleteDependencies_hook ?H = DeleteDependencies_hook H" by simp_all
  have same: "DeleteResource F ?H t = DeleteResource F H t" if "self (world t) = self (world m)" for t
    using that assms(2) DeleteResource_uncreated [of t F ?H] DeleteResource_uncreated [of t F H]
    by simp
  have steps: "Delete_steps F ?H k = Delete_steps F H k" if k: "self (world k) = self (world m)" for k
    unfolding Delete_steps_def seqM.simps hooks_eq
    by (rule thenM_cong) (drule on_cloud_self, simp add: thenM_def bindM_def same k)
  have "GetResourceMetadata ?H = GetResourceMetadata H"
    by (simp add: GetResourceMetadata_def)
  moreover have "self (world t) = self (world m)"
    if "bindM (GetResourceMetadata H) (\<lambda>_. ret ()) m = Some (Inr x, t)" for x t
    using that on_cloud_self
    by (fastforce simp: GetResourceMetadata_def bindM_def get_self_def getM_def ret_def
        split: option.splits sum.splits)
  ultimately have "thenM (bindM (GetResourceMetadata ?H) (\<lambda>_. ret ())) (Delete_steps F ?H) m
      = thenM (bindM (GetResourceMetadata H) (\<lambda>_. ret ())) (Delete_steps F H) m"
    by (auto intro!: thenM_cong steps)
  then show "Delete F ?H False m = Delete F H False m"
    using assms(1) by (simp add: Delete_def bindM_get_self)
  have "wp (Delete F H False) (\<lambda>_ m'. deleted (self (world m'))) (\<lambda>_ _. True) m"
    using assms(1) unfolding Delete_def Delete_steps_def GetResourceMetadata_def
    by (auto simp: wp_simps Let_def intro!: wp_on_cloud_any wpI [of "DeleteResource F H"])
  then show "\<forall>u m'. Delete F H False m = Some (Inr u, m') \<longrightarrow> deleted (self (world m'))"
    by (auto dest: wp_returnsD)
qed

theorem Delete_skips_uncreated_witness:
  "Delete simple_flags (simple_hooks\<lparr>Delete_hook := not_implemented\<rparr>) False
     (simple_mach (new_resource False False False False) True)
   = Delete simple_flags simple_hooks False
     (simple_mach (new_resource False False False False) True)"
  using Delete_skips_uncreated [of "simple_mach (new_resource False False False False) True"]
  by (simp add: simple_mach_def new_resource_def)

text \<open>A provider whose _Create makes the resource and whose _WaitUntilRunning then fails with
  an error that is not retried leaks it: Create raises that error, the following Delete returns
  and marks the resource deleted, and the resource still exists in the cloud.\<close>

lemma failed_wait_leaks:
  assumes "\<not> isinstance e (Resource RetryableCreationError)" and "0 \<le> default_timeout F"
  shows "\<exists>m1 m2.
     Create F (simple_hooks\<lparr>WaitUntilRunning_hook := raise e\<rparr>) False
       (simple_mach (new_resource False False False False) False) = Some (Inl e, m1) \<and>
     Delete F (simple_hooks\<lparr>WaitUntilRunning_hook := raise e\<rparr>) False m1 = Some (Inr (), m2) \<and>
     deleted (self (world m2)) \<and> cloud (world m2)"
  using assms
  unfolding Delete_def Delete_steps_def DeleteResource_def DeleteResource_once_def
    WaitUntilDeleted_once_def deletion_retry_def wait_deleted_retry_def GetResourceMetadata_def
    Create_def Create_steps_def CreateResource_def CreateResource_once_def creation_retry_def
  by (simp add: eval_resource Retry_def retry_loop.simps retry_handler_def retry_timeout_def
      default_retry_def)

theorem failed_wait_leaks_witness:
  "\<exists>m1 m2.
     Create simple_flags (simple_hooks\<lparr>WaitUntilRunning_hook := raise (exn (Resource CreationError) [])\<rparr>)
       False (simple_mach (new_resource False False False False) False)
         = Some (Inl (exn (Resource CreationError) []), m1) \<and>
     Delete simple_flags (simple_hooks\<lparr>WaitUntilRunning_hook := raise (exn (Resource CreationError) [])\<rparr>)
       False m1 = Some (Inr (), m2) \<and>
     deleted (self (world m2)) \<and> cloud (world m2)"
  by (rule failed_wait_leaks) (simp_all add: issubclass_def simple_flags_def)

text \<open>Freezing a resource whose class freezes but does not implement _UpdateTimeout is not a
  FreezeError: Delete raises NotImplementedError although the resource asks to be deleted when
  freezing fails, and the resource is not marked deleted.\<close>

lemma Freeze_without_UpdateTimeout:
  assumes "\<not> user_managed (self (world m))" and "enable_freeze_restore (self (world m))"
    and "UpdateTimeout_hook H = (\<lambda>_. not_implemented)"
    and "\<And>k. \<exists>k'. Freeze_hook H k = Some (Inr (), k')"
    and "\<And>k. \<exists>md k'. GetResourceMetadata_hook H (self (world m)) k = Some (Inr md, k')"
  shows "\<exists>m'. Delete F H True m = Some (Inl (exn (Builtin NotImplementedError) []), m')
    \<and> deleted (self (world m')) = deleted (self (world m)) \<and> \<not> restored (self (world m'))"
proof -
  obtain md k1 where 1: "GetResourceMetadata_hook H (self (world m)) (cloud_mach m) = Some (Inr md, k1)"
    using assms(5) by blast
  obtain k2 where 2: "Freeze_hook H (cloud_mach (put_cloud m k1)) = Some (Inr (), k2)"
    using assms(4) by blast
  show ?thesis
    unfolding Delete_def Freeze_def UpdateTimeout_def GetResourceMetadata_def
    using assms(1-3) 1 2
    by (simp add: bindM_def thenM_def catchM_def tryElseM_def getM_def modifyM_def ret_def raise_def
        get_self_def set_self_def on_cloud_def not_implemented_def issubclass_def)
qed

theorem Freeze_without_UpdateTimeout_witness:
  "\<exists>m'. Delete simple_flags (simple_hooks\<lparr>Freeze_hook := ret ()\<rparr>) True
       (simple_mach ((new_resource False True False True)\<lparr>created := True\<rparr>) True)
     = Some (Inl (exn (Builtin NotImplementedError) []), m') \<and> \<not> deleted (self (world m'))"
  using Freeze_without_UpdateTimeout
    [of "simple_mach ((new_resource False True False True)\<lparr>created := True\<rparr>) True"
      "simple_hooks\<lparr>Freeze_hook := ret ()\<rparr>" simple_flags]
  by (auto simp: simple_mach_def new_resource_def simple_hooks_def base_hooks_def ret_def)

end
