(* ===== verification/Timing.thy ===== *)
theory Timing
  imports Sample
begin

text \<open>
  \<open>perfkitbenchmarker/timing_util.py\<close>: the interval timer and the flag that selects the timing
  measurements.

  An IntervalTimer lives somewhere in the state of its user; a \<open>lens\<close> says where.  \<open>Measure\<close> is
  the context manager: the body runs between two readings of the clock, and an interval is
  recorded only if the body does not raise.
\<close>

section \<open>A part of a state\<close>

record ('s, 'v) lens =
  view :: "'s \<Rightarrow> 'v"
  over :: "('v \<Rightarrow> 'v) \<Rightarrow> 's \<Rightarrow> 's"

text \<open>The laws of a lens: what was written is read, and time does not touch the part.\<close>

locale part_of =
  fixes L :: "('w mach, 'v) lens"
  assumes view_over: "view L (over L f m) = f (view L m)"
    and now_over: "now (over L f m) = now m" and lags_over: "lags (over L f m) = lags m"
    and draws_over: "draws (over L f m) = draws m"
    and view_passes: "passes m m' \<Longrightarrow> view L m' = view L m"
begin

lemma sane_over: "sane (over L f m) = sane m"
  by (simp add: sane_def lags_over draws_over)

lemma keeps_time_over: "keeps_time (modifyM (over L f))"
  by (rule keeps_timeI) (simp add: modifyM_def sane_over now_over)

lemma view_retick: "view L (retick m t l d) = view L m" if "passes m (retick m t l d)"
  using that by (rule view_passes)

end

text \<open>The whole world of a machine as a part.\<close>

definition world_lens :: "('w mach, 'w) lens" where
  "world_lens = \<lparr>view = world, over = (\<lambda>f m. m\<lparr>world := f (world m)\<rparr>)\<rparr>"

interpretation whole: part_of world_lens
  by unfold_locales (auto simp: world_lens_def)

section \<open>The measurements flag\<close>

definition MEASUREMENTS_ALL :: "string list" where
  "MEASUREMENTS_ALL = [''none'', ''end_to_end_runtime'', ''runtimes'', ''timestamps'']"

definition RuntimeMeasurementsEnabled :: "string list \<Rightarrow> bool" where
  "RuntimeMeasurementsEnabled options = (''runtimes'' \<in> set options)"

definition EndToEndRuntimeMeasurementEnabled :: "string list \<Rightarrow> bool" where
  "EndToEndRuntimeMeasurementEnabled options =
     (''end_to_end_runtime'' \<in> set options \<or> RuntimeMeasurementsEnabled options)"

definition TimestampMeasurementsEnabled :: "string list \<Rightarrow> bool" where
  "TimestampMeasurementsEnabled options = (''timestamps'' \<in> set options)"

datatype flag_error = InvalidValue string | CannotCombine string

fun validate_options :: "nat \<Rightarrow> string list \<Rightarrow> flag_error + bool" where
  "validate_options n [] = Inr True"
| "validate_options n (x # xs) =
     (if x \<notin> set MEASUREMENTS_ALL then Inl (InvalidValue x)
      else if x = ''none'' \<and> n \<noteq> 1 then Inl (CannotCombine x)
      else validate_options n xs)"

definition ValidateMeasurementsFlag :: "string list \<Rightarrow> flag_error + bool" where
  "ValidateMeasurementsFlag options = validate_options (length options) options"

section \<open>The interval timer\<close>

type_synonym interval = "string \<times> rat \<times> rat"

definition Measure ::
  "('w mach, interval list) lens \<Rightarrow> string \<Rightarrow> (exn, 'w mach, 'a) py \<Rightarrow> (exn, 'w mach, 'a) py" where
  "Measure T name body =
     bindM time_time (\<lambda>start_time.
     bindM body (\<lambda>x.
     bindM time_time (\<lambda>stop_time.
     thenM (modifyM (over T (\<lambda>ivs. ivs @ [(name, start_time, stop_time)]))) (ret x))))"

definition GenerateIntervalSamples ::
  "bool \<Rightarrow> interval \<Rightarrow> (exn, 'w mach, sample list) py" where
  "GenerateIntervalSamples include_timestamps interval =
     (case interval of (name, start_time, stop_time) \<Rightarrow>
        bindM (new_sample (name @ '' Runtime'') (Some (stop_time - start_time)) ''seconds'' None None) (\<lambda>a.
        if include_timestamps then
          bindM (new_sample (name @ '' Start Timestamp'') (Some start_time) ''seconds'' None None) (\<lambda>b.
          bindM (new_sample (name @ '' Stop Timestamp'') (Some stop_time) ''seconds'' None None) (\<lambda>c.
            ret [a, b, c]))
        else ret [a]))"

definition GenerateSamples ::
  "('w mach, interval list) lens \<Rightarrow> string list \<Rightarrow> (exn, 'w mach, sample list) py" where
  "GenerateSamples T options =
     bindM (getM (view T)) (\<lambda>ivs.
     bindM (mapPy (GenerateIntervalSamples (TimestampMeasurementsEnabled options)) ivs) (\<lambda>sss.
       ret (concat sss)))"

section \<open>What is recorded\<close>

lemma validate_options_iff:
  "(validate_options n xs = Inr b) =
     (b \<and> set xs \<subseteq> set MEASUREMENTS_ALL \<and> (''none'' \<in> set xs \<longrightarrow> n = 1))"
  by (induction n xs rule: validate_options.induct) auto

lemma keeps_time_Measure:
  assumes "part_of T" and "keeps_time body"
  shows "keeps_time (Measure T name body)"
  unfolding Measure_def
  by (intro keeps_time_intros assms(2) part_of.keeps_time_over [OF assms(1)])

text \<open>The intervals of a timer are in order when none stops before it starts.\<close>

definition forward :: "interval list \<Rightarrow> bool" where
  "forward ivs = (\<forall>(name, a, b) \<in> set ivs. a \<le> b)"

lemma wp_Measure:
  assumes T: "part_of T" and body: "keeps_time body" and m: "sane m"
    and keeps: "\<And>m. wp body (\<lambda>_ m'. view T m' = view T m) (\<lambda>_ m'. view T m' = view T m) m"
  shows "wp (Measure T name body)
     (\<lambda>_ m'. \<exists>a b. now m \<le> a \<and> a \<le> b \<and> view T m' = view T m @ [(name, a, b)])
     (\<lambda>_ m'. view T m' = view T m) m"
proof -
  let ?m1 = "retick m (now m + lags m 0) (\<lambda>i. lags m (Suc i)) (draws m)"
  have p1: "passes m ?m1" by (rule passes_clock)
  have v1: "view T ?m1 = view T m" by (rule part_of.view_passes [OF T p1])
  have m1: "sane ?m1" "now m \<le> now ?m1" using passes_time [OF p1 m] by auto
  obtain r m2 where 2: "body ?m1 = Some (r, m2)" "sane m2" "now ?m1 \<le> now m2"
    using keeps_timeD [OF body m1(1)] by blast
  have v2: "view T m2 = view T m"
    using keeps [of ?m1] 2(1) v1 by (cases r) (simp_all add: wp_def)
  let ?m3 = "retick m2 (now m2 + lags m2 0) (\<lambda>i. lags m2 (Suc i)) (draws m2)"
  have p3: "passes m2 ?m3" by (rule passes_clock)
  have v3: "view T ?m3 = view T m" using part_of.view_passes [OF T p3] v2 by simp
  have "now m2 \<le> now ?m3" using passes_time [OF p3 2(2)] by simp
  then have order: "now m \<le> now ?m1" "now ?m1 \<le> now ?m3" using m1 2(3) by auto
  show ?thesis
    using 2(1) v1 v2 v3 order
    by (cases r) (auto simp: Measure_def wp_def bindM_def thenM_def time_time_eq Let_def modifyM_def
        ret_def part_of.view_over [OF T])
qed

lemma new_sample_returns:
  "\<exists>s m'. new_sample name v u md ts m = Some (Inr s, m') \<and> metric s = name
     \<and> sample_value s = (case v of None \<Rightarrow> 0 | Some x \<Rightarrow> x) \<and> passes m m'"
  using passes_clock(1) [of m] passes_refl [of m]
  by (cases ts) (auto simp: new_sample_def bindM_def ret_def time_time_eq Let_def)

text \<open>The names and values that the samples of an interval have.\<close>

definition interval_entries :: "bool \<Rightarrow> interval \<Rightarrow> (string \<times> rat) list" where
  "interval_entries include_timestamps iv = (case iv of (name, a, b) \<Rightarrow>
     (name @ '' Runtime'', b - a) #
     (if include_timestamps then [(name @ '' Start Timestamp'', a), (name @ '' Stop Timestamp'', b)]
      else []))"

definition sample_entries :: "sample list \<Rightarrow> (string \<times> rat) list" where
  "sample_entries = map (\<lambda>s. (metric s, sample_value s))"

lemma GenerateIntervalSamples_entries:
  "\<exists>ss m'. GenerateIntervalSamples b iv m = Some (Inr ss, m')
     \<and> sample_entries ss = interval_entries b iv \<and> passes m m'"
proof -
  obtain name x y where iv: "iv = (name, x, y)" by (cases iv) auto
  obtain s1 m1 where 1: "new_sample (name @ '' Runtime'') (Some (y - x)) ''seconds'' None None m
      = Some (Inr s1, m1)" "metric s1 = name @ '' Runtime''" "sample_value s1 = y - x" "passes m m1"
    using new_sample_returns [of "name @ '' Runtime''" "Some (y - x)" "''seconds''" None None m] by auto
  obtain s2 m2 where 2: "new_sample (name @ '' Start Timestamp'') (Some x) ''seconds'' None None m1
      = Some (Inr s2, m2)" "metric s2 = name @ '' Start Timestamp''" "sample_value s2 = x" "passes m1 m2"
    using new_sample_returns [of "name @ '' Start Timestamp''" "Some x" "''seconds''" None None m1] by auto
  obtain s3 m3 where 3: "new_sample (name @ '' Stop Timestamp'') (Some y) ''seconds'' None None m2
      = Some (Inr s3, m3)" "metric s3 = name @ '' Stop Timestamp''" "sample_value s3 = y" "passes m2 m3"
    using new_sample_returns [of "name @ '' Stop Timestamp''" "Some y" "''seconds''" None None m2] by auto
  have "passes m m3" using 1(4) 2(4) 3(4) passes_trans by blast
  with 1 2 3 show ?thesis
    by (simp add: iv GenerateIntervalSamples_def interval_entries_def sample_entries_def bindM_def
        ret_def)
qed

lemma mapPy_entries:
  "\<exists>sss m'. mapPy (GenerateIntervalSamples b) ivs m = Some (Inr sss, m')
     \<and> sample_entries (concat sss) = concat (map (interval_entries b) ivs) \<and> passes m m'"
proof (induction ivs arbitrary: m)
  case Nil
  then show ?case by (simp add: ret_def passes_refl sample_entries_def)
next
  case (Cons iv ivs)
  obtain ss m1 where 1: "GenerateIntervalSamples b iv m = Some (Inr ss, m1)"
    "sample_entries ss = interval_entries b iv" "passes m m1"
    using GenerateIntervalSamples_entries by blast
  obtain sss m2 where 2: "mapPy (GenerateIntervalSamples b) ivs m1 = Some (Inr sss, m2)"
    "sample_entries (concat sss) = concat (map (interval_entries b) ivs)" "passes m1 m2"
    using Cons.IH by blast
  from 1 2 passes_trans [OF 1(3) 2(3)] show ?case
    by (simp add: bindM_def ret_def sample_entries_def)
qed

section \<open>Properties\<close>

text \<open>The flag validator accepts exactly the lists of known options in which none stands alone;
  in particular it accepts the empty list, which its description excludes.\<close>

lemma ValidateMeasurementsFlag_accepts:
  "(ValidateMeasurementsFlag options = Inr b) =
     (b \<and> set options \<subseteq> set MEASUREMENTS_ALL \<and> (if ''none'' \<in> set options then options = [''none''] else True))"
  by (cases options) (auto simp: ValidateMeasurementsFlag_def validate_options_iff)

text \<open>A measured body that returns adds one interval, which begins and ends in this order and not
  before the call; a body that raises adds none.\<close>

lemma Measure_records:
  assumes "part_of T" and "keeps_time body" and "sane m"
    and "\<And>m. wp body (\<lambda>_ m'. view T m' = view T m) (\<lambda>_ m'. view T m' = view T m) m"
    and "Measure T name body m = Some (r, m')"
  shows "case r of Inr x \<Rightarrow> (\<exists>a b. now m \<le> a \<and> a \<le> b \<and> view T m' = view T m @ [(name, a, b)])
    | Inl e \<Rightarrow> view T m' = view T m"
  using wp_Measure [OF assms(1-4), of name] assms(5) by (cases r) (simp_all add: wp_def)

theorem Measure_records_witness:
  "\<exists>x m'. Measure world_lens ''Resource Provisioning'' (time_sleep 3)
       \<lparr>now = 10, lags = (\<lambda>_. 1), draws = (\<lambda>_. 0), world = []\<rparr> = Some (Inr x, m')
     \<and> (\<exists>a b. a \<le> b \<and> world m' = [(''Resource Provisioning'', a, b)])"
proof -
  let ?m = "\<lparr>now = 10, lags = (\<lambda>_. 1), draws = (\<lambda>_. 0), world = []\<rparr> :: interval list mach"
  have "\<exists>m'. Measure world_lens ''Resource Provisioning'' (time_sleep 3) ?m = Some (Inr (), m')"
    by (simp add: Measure_def bindM_def thenM_def mach_ops modifyM_def ret_def)
  then obtain m' where m': "Measure world_lens ''Resource Provisioning'' (time_sleep 3) ?m
      = Some (Inr (), m')" by blast
  have "wp (time_sleep 3) (\<lambda>_ m'. view world_lens m' = view world_lens m)
      (\<lambda>_ m'. view world_lens m' = view world_lens m) m" for m :: "interval list mach"
    by (simp add: wp_def time_sleep_def world_lens_def)
  from Measure_records [OF whole.part_of_axioms keeps_time_sleep _ this m'] m' show ?thesis
    by (auto simp: sane_def world_lens_def)
qed

text \<open>The samples of a timer are, for each recorded interval and in their order, the runtime,
  followed by the start and the stop timestamp exactly if timestamps are enabled; generating them
  never fails.\<close>

lemma GenerateSamples_entries:
  "\<exists>ss m'. GenerateSamples T options m = Some (Inr ss, m')
     \<and> sample_entries ss
         = concat (map (interval_entries (TimestampMeasurementsEnabled options)) (view T m))"
  using mapPy_entries [of "TimestampMeasurementsEnabled options" "view T m" m]
  by (auto simp: GenerateSamples_def bindM_def getM_def ret_def)

end
