(* ===== verification/Collector.thy ===== *)
theory Collector
  imports Timing
begin

text \<open>
  \<open>SampleCollector\<close> of \<open>perfkitbenchmarker/publisher.py\<close>: samples are annotated when they are
  added, kept until they are published, and handed to every publisher.

  The metadata providers, the publishers and \<open>uuid.uuid4\<close> are parameters: they act on the state
  of the machine.
\<close>

section \<open>State\<close>

record sample_dict =
  sd_sample :: sample
  test :: string
  product_name :: string
  official :: bool
  owner :: string
  run_uri :: string
  sample_uri :: string

text \<open>The dictionary that a sample dict is in Python.\<close>

definition as_dict :: "sample_dict \<Rightarrow> (string \<times> pyval) list" where
  "as_dict d =
     [(''metric'', VStr (metric (sd_sample d))), (''value'', VNum (sample_value (sd_sample d))),
      (''unit'', VStr (unit (sd_sample d))), (''metadata'', VDict (sample_metadata (sd_sample d))),
      (''timestamp'', VNum (timestamp (sd_sample d))), (''test'', VStr (test d)),
      (''product_name'', VStr (product_name d)), (''official'', VBool (official d)),
      (''owner'', VStr (owner d)), (''run_uri'', VStr (run_uri d)),
      (''sample_uri'', VStr (sample_uri d))]"

record collector =
  samples :: "sample_dict list"
  published_samples :: "sample_dict list"

definition new_collector :: collector where
  "new_collector = \<lparr>samples = [], published_samples = []\<rparr>"

record 's sample_publisher =
  PUBLISH_CONSOLE_LOG_DATA :: bool
  publish :: "sample_dict list \<Rightarrow> (exn, 's, unit) py"

record 's collector_env =
  metadata_providers :: "(metadata_dict \<Rightarrow> (exn, 's, metadata_dict) py) list"
  publishers :: "'s sample_publisher list"
  uuid4 :: "(exn, 's, string) py"
  flag_product_name :: string
  flag_official :: bool
  flag_owner :: string
  spec_uuid :: string

section \<open>Operations\<close>

fun add_metadata ::
  "(metadata_dict \<Rightarrow> (exn, 's, metadata_dict) py) list \<Rightarrow> metadata_dict \<Rightarrow> (exn, 's, metadata_dict) py"
where
  "add_metadata [] md = ret md"
| "add_metadata (p # ps) md = bindM (p md) (add_metadata ps)"

definition annotate ::
  "'w mach collector_env \<Rightarrow> string \<Rightarrow> sample \<Rightarrow> (exn, 'w mach, sample_dict) py" where
  "annotate E benchmark s =
     bindM (add_metadata (metadata_providers E) (sample_metadata s)) (\<lambda>md.
     bindM (uuid4 E) (\<lambda>u.
       ret \<lparr>sd_sample = s\<lparr>sample_metadata := md\<rparr>, test = benchmark,
            product_name = flag_product_name E, official = flag_official E, owner = flag_owner E,
            run_uri = spec_uuid E, sample_uri = u\<rparr>))"

definition AddSamples ::
  "('w mach, collector) lens \<Rightarrow> 'w mach collector_env \<Rightarrow> sample list \<Rightarrow> string
     \<Rightarrow> (exn, 'w mach, unit) py" where
  "AddSamples C E ss benchmark =
     forM ss (\<lambda>s. bindM (annotate E benchmark s) (\<lambda>d.
       modifyM (over C (\<lambda>c. c\<lparr>samples := samples c @ [d]\<rparr>))))"

definition truth :: "pyval \<Rightarrow> bool" where
  "truth v = (case v of VNone \<Rightarrow> False | VBool b \<Rightarrow> b | VInt n \<Rightarrow> n \<noteq> 0 | VNum x \<Rightarrow> x \<noteq> 0
     | VStr s \<Rightarrow> s \<noteq> [] | VList xs \<Rightarrow> xs \<noteq> [] | VDict d \<Rightarrow> d \<noteq> [])"

text \<open>\<open>not s.get(DISABLE_CONSOLE_LOG, False)\<close>\<close>

definition for_console :: "sample_dict \<Rightarrow> bool" where
  "for_console s = (case map_of (as_dict s) ''disable_console_log'' of
     None \<Rightarrow> True | Some v \<Rightarrow> \<not> truth v)"

definition PublishSamples ::
  "('w mach, collector) lens \<Rightarrow> 'w mach collector_env \<Rightarrow> (exn, 'w mach, unit) py" where
  "PublishSamples C E =
     bindM (getM (\<lambda>m. samples (view C m))) (\<lambda>pending.
       if pending = [] then ret ()
       else
         let samples_for_console = filter for_console pending
         in thenM
              (forM (publishers E) (\<lambda>p.
                 bindM (getM (\<lambda>m. samples (view C m))) (\<lambda>ss.
                   publish p (if PUBLISH_CONSOLE_LOG_DATA p then ss else samples_for_console))))
              (modifyM (over C (\<lambda>c. c\<lparr>published_samples := published_samples c @ samples c,
                 samples := []\<rparr>))))"

section \<open>The collector keeps its samples\<close>

text \<open>What the collector relies on: providers, publishers and uuid4 leave it alone.\<close>

definition leaves :: "('s, 'v) lens \<Rightarrow> (exn, 's, 'a) py \<Rightarrow> bool" where
  "leaves L f = (\<forall>m v. view L m = v \<longrightarrow> wp f (\<lambda>_ m'. view L m' = v) (\<lambda>_ m'. view L m' = v) m)"

definition collector_alone :: "('w mach, collector) lens \<Rightarrow> 'w mach collector_env \<Rightarrow> bool" where
  "collector_alone C E =
     ((\<forall>p \<in> set (metadata_providers E). \<forall>md. leaves C (p md)) \<and> leaves C (uuid4 E)
      \<and> (\<forall>p \<in> set (publishers E). \<forall>ss. leaves C (publish p ss)))"

lemma leavesD:
  "leaves L f \<Longrightarrow> wp f (\<lambda>_ m'. view L m' = view L m) (\<lambda>_ m'. view L m' = view L m) m"
  by (simp add: leaves_def)

lemma leavesI:
  "(\<And>m. wp f (\<lambda>_ m'. view L m' = view L m) (\<lambda>_ m'. view L m' = view L m) m) \<Longrightarrow> leaves L f"
  by (simp add: leaves_def)

lemma leaves_ret: "leaves L (ret x)"
  by (simp add: leaves_def wp_ret)

lemma leaves_getM: "leaves L (getM f)"
  by (simp add: leaves_def wp_getM)

lemma leaves_bindM:
  assumes "leaves L f" and "\<And>x. leaves L (g x)"
  shows "leaves L (bindM f g)"
proof (rule leavesI)
  fix m
  show "wp (bindM f g) (\<lambda>_ m'. view L m' = view L m) (\<lambda>_ m'. view L m' = view L m) m"
    unfolding wp_bindM
  proof (rule wp_mono [OF leavesD [OF assms(1)]])
    fix x t
    assume "view L t = view L m"
    with leavesD [OF assms(2), of x t]
    show "wp (g x) (\<lambda>_ m'. view L m' = view L m) (\<lambda>_ m'. view L m' = view L m) t" by simp
  qed
qed

lemma leaves_forM: "(\<And>x. x \<in> set xs \<Longrightarrow> leaves L (f x)) \<Longrightarrow> leaves L (forM xs f)"
  by (induction xs) (auto simp: thenM_def intro: leaves_ret leaves_bindM)

lemma leaves_add_metadata:
  "(\<And>p md. p \<in> set ps \<Longrightarrow> leaves L (p md)) \<Longrightarrow> leaves L (add_metadata ps md)"
  by (induction ps md rule: add_metadata.induct) (auto intro: leaves_ret leaves_bindM)

lemma leaves_annotate: "collector_alone C E \<Longrightarrow> leaves C (annotate E b s)"
  unfolding annotate_def collector_alone_def
  by (intro leaves_bindM leaves_add_metadata leaves_ret) auto

text \<open>What has been published and what is pending.\<close>

definition all_samples :: "collector \<Rightarrow> sample_dict list" where
  "all_samples c = published_samples c @ samples c"

lemma AddSamples_wp:
  assumes C: "part_of C" and E: "collector_alone C E"
  shows "\<lbrakk>published_samples (view C m) = ps; samples (view C m) = ds\<rbrakk> \<Longrightarrow> wp (AddSamples C E ss b)
     (\<lambda>_ m'. published_samples (view C m') = ps \<and> (\<exists>new. samples (view C m') = ds @ new
         \<and> length new = length ss))
     (\<lambda>_ m'. published_samples (view C m') = ps \<and> (\<exists>new. samples (view C m') = ds @ new
         \<and> length new < length ss)) m"
  unfolding AddSamples_def
proof (induction ss arbitrary: m ds)
  case Nil
  then show ?case by (simp add: wp_ret)
next
  case (Cons s ss)
  let ?f = "\<lambda>s. bindM (annotate E b s) (\<lambda>d.
       modifyM (over C (\<lambda>c. c\<lparr>samples := samples c @ [d]\<rparr>)))"
  have step: "wp (?f s) (\<lambda>_ m'. published_samples (view C m') = ps \<and> (\<exists>d. samples (view C m') = ds @ [d]))
      (\<lambda>_ m'. view C m' = view C m) m"
    unfolding wp_bindM wp_modifyM
    by (rule wp_mono [OF leavesD [OF leaves_annotate [OF E]]])
       (simp_all add: part_of.view_over [OF C] Cons.prems)
  have "wp (forM (s # ss) ?f)
     (\<lambda>_ m'. published_samples (view C m') = ps \<and> (\<exists>new. samples (view C m') = ds @ new
         \<and> length new = length (s # ss)))
     (\<lambda>_ m'. published_samples (view C m') = ps \<and> (\<exists>new. samples (view C m') = ds @ new
         \<and> length new < length (s # ss))) m"
    unfolding forM.simps wp_thenM
  proof (rule wp_mono [OF step])
    fix t
    assume "published_samples (view C t) = ps \<and> (\<exists>d. samples (view C t) = ds @ [d])"
    then obtain d where t: "published_samples (view C t) = ps" "samples (view C t) = ds @ [d]" by blast
    have more: "\<exists>new. xs = ds @ new \<and> length new = Suc n" if "\<exists>new. xs = (ds @ [d]) @ new \<and> length new = n"
      for xs n using that by (metis append.assoc append_Cons append_Nil length_Cons)
    have less: "\<exists>new. xs = ds @ new \<and> length new < Suc n" if "\<exists>new. xs = (ds @ [d]) @ new \<and> length new < n"
      for xs n using that by (metis append.assoc append_Cons append_Nil length_Cons Suc_less_eq)
    show "wp (forM ss ?f)
      (\<lambda>_ m'. published_samples (view C m') = ps \<and> (\<exists>new. samples (view C m') = ds @ new
         \<and> length new = length (s # ss)))
      (\<lambda>_ m'. published_samples (view C m') = ps \<and> (\<exists>new. samples (view C m') = ds @ new
         \<and> length new < length (s # ss))) t"
      by (rule wp_mono [OF Cons.IH [OF t]]) (use more less in \<open>auto simp del: append_assoc\<close>)
  qed (simp_all add: Cons.prems)
  then show ?case .
qed

lemma PublishSamples_wp:
  assumes C: "part_of C" and E: "collector_alone C E"
  shows "wp (PublishSamples C E)
     (\<lambda>_ m'. view C m' = \<lparr>samples = [], published_samples = all_samples (view C m)\<rparr>)
     (\<lambda>_ m'. view C m' = view C m) m"
proof (cases "samples (view C m) = []")
  case True
  then show ?thesis
    by (simp add: PublishSamples_def wp_simps all_samples_def)
next
  case False
  have "leaves C (forM (publishers E) (\<lambda>p. bindM (getM (\<lambda>m. samples (view C m))) (\<lambda>ss.
      publish p (if PUBLISH_CONSOLE_LOG_DATA p then ss else filter for_console (samples (view C m))))))"
    using E unfolding collector_alone_def
    by (intro leaves_forM leaves_bindM leaves_getM) auto
  from leavesD [OF this, of m] have "wp (thenM (forM (publishers E) (\<lambda>p.
      bindM (getM (\<lambda>m. samples (view C m))) (\<lambda>ss. publish p
        (if PUBLISH_CONSOLE_LOG_DATA p then ss else filter for_console (samples (view C m))))))
      (modifyM (over C (\<lambda>c. c\<lparr>published_samples := published_samples c @ samples c, samples := []\<rparr>))))
     (\<lambda>_ m'. view C m' = \<lparr>samples = [], published_samples = all_samples (view C m)\<rparr>)
     (\<lambda>_ m'. view C m' = view C m) m"
    unfolding wp_thenM wp_modifyM
    by (rule wp_mono) (simp_all add: part_of.view_over [OF C] all_samples_def)
  with False show ?thesis
    unfolding PublishSamples_def wp_bindM [of "getM (\<lambda>m. samples (view C m))"] wp_getM Let_def
    by simp
qed

section \<open>Properties\<close>

text \<open>C22: Publishing never loses or duplicates a sample: if every publisher returns, the pending
  samples move, in order, behind the published ones; if one raises, nothing moves and all of them
  are still pending.\<close>

theorem PublishSamples_conserves:
  assumes "part_of C" and "collector_alone C E" and "PublishSamples C E m = Some (r, m')"
  shows "all_samples (view C m') = all_samples (view C m)
    \<and> (case r of Inr _ \<Rightarrow> samples (view C m') = [] | Inl _ \<Rightarrow> view C m' = view C m)"
  using PublishSamples_wp [OF assms(1,2), of m] assms(3)
  by (cases r) (auto simp: wp_def all_samples_def)

definition quiet_env :: "'w mach collector_env" where
  "quiet_env = \<lparr>metadata_providers = [\<lambda>md. ret (dict_set md ''cloud'' (VStr ''GCP''))],
     publishers = [\<lparr>PUBLISH_CONSOLE_LOG_DATA = False, publish = (\<lambda>_. ret ())\<rparr>], uuid4 = ret ''u'',
     flag_product_name = [], flag_official = False, flag_owner = ''me'', spec_uuid = ''r''\<rparr>"

lemma quiet_env_alone: "collector_alone C quiet_env"
  by (simp add: collector_alone_def quiet_env_def leaves_ret)

definition some_sample :: "metadata_dict \<Rightarrow> sample" where
  "some_sample md = \<lparr>metric = ''x'', sample_value = 1, unit = ''s'', sample_metadata = md, timestamp = 5\<rparr>"

definition some_mach :: "'w \<Rightarrow> 'w mach" where
  "some_mach w = \<lparr>now = 1, lags = (\<lambda>_. 0), draws = (\<lambda>_. 0), world = w\<rparr>"

theorem PublishSamples_conserves_witness:
  "\<exists>d m'. PublishSamples world_lens quiet_env (some_mach \<lparr>samples = [d], published_samples = []\<rparr>)
       = Some (Inr (), m') \<and> samples (world m') = [] \<and> published_samples (world m') = [d]"
proof -
  let ?d = "\<lparr>sd_sample = some_sample [], test = ''t'', product_name = [], official = False,
     owner = [], run_uri = [], sample_uri = []\<rparr>"
  let ?m = "some_mach \<lparr>samples = [?d], published_samples = []\<rparr>"
  obtain m' where m': "PublishSamples world_lens quiet_env ?m = Some (Inr (), m')"
    by (simp add: PublishSamples_def quiet_env_def world_lens_def py_defs some_mach_def)
  from PublishSamples_conserves [OF whole.part_of_axioms quiet_env_alone this] m'
  show ?thesis by (fastforce simp: world_lens_def all_samples_def some_mach_def)
qed

text \<open>Adding samples appends one dictionary for each, in order, and leaves the earlier ones and
  the published ones alone; if a metadata provider raises, only a proper part of them was added.\<close>

lemma AddSamples_appends:
  assumes "part_of C" and "collector_alone C E" and "AddSamples C E ss b m = Some (r, m')"
  shows "published_samples (view C m') = published_samples (view C m)
    \<and> (\<exists>new. samples (view C m') = samples (view C m) @ new
        \<and> (case r of Inr _ \<Rightarrow> length new = length ss | Inl _ \<Rightarrow> length new < length ss))"
  using AddSamples_wp [OF assms(1,2) refl refl, where m = m and ss = ss and b = b] assms(3)
  by (cases r) (auto simp: wp_def)

theorem AddSamples_appends_witness:
  "\<exists>m'. AddSamples world_lens quiet_env [some_sample [], some_sample []] ''b''
       (some_mach new_collector) = Some (Inr (), m') \<and> length (samples (world m')) = 2"
proof -
  obtain m' where m': "AddSamples world_lens quiet_env [some_sample [], some_sample []] ''b''
       (some_mach new_collector) = Some (Inr (), m')"
    by (simp add: AddSamples_def annotate_def quiet_env_def world_lens_def py_defs)
  from AddSamples_appends [OF whole.part_of_axioms quiet_env_alone this] m'
  show ?thesis by (fastforce simp: world_lens_def new_collector_def some_mach_def)
qed

text \<open>The mark disable_console_log has no effect: a sample dict has its metadata under a key of its
  own, so a mark in the metadata is not found by PublishSamples and every sample is for the
  console.\<close>

lemma console_mark_ignored: "filter for_console (samples c) = samples c"
  by (simp add: for_console_def as_dict_def)

end
