(* ===== verification/Stages.thy ===== *)
theory Stages
  imports Prelude
begin

text \<open>
  \<open>perfkitbenchmarker/stages.py\<close>: the stages of a run and the parser of \<open>--run_stage\<close>.
  Stages are the source's strings.  \<open>super_parse\<close> is \<open>parse\<close> of absl's ListParser, which is not
  part of the repository: it splits the flag's value into a list of strings.  The message of the
  ValueError that the source raises is kept as a constructor with the values it prints.
\<close>

section \<open>Stages\<close>

definition PROVISION :: string where "PROVISION = ''provision''"
definition PREPARE_SYSTEM :: string where "PREPARE_SYSTEM = ''prepare_system''"
definition INSTALL_PACKAGES :: string where "INSTALL_PACKAGES = ''install_packages''"
definition START_SERVICES :: string where "START_SERVICES = ''start_services''"
definition PREPARE :: string where "PREPARE = ''prepare''"
definition RUN :: string where "RUN = ''run''"
definition CLEANUP :: string where "CLEANUP = ''cleanup''"
definition TEARDOWN :: string where "TEARDOWN = ''teardown''"
definition ALL_STAGES :: string where "ALL_STAGES = ''all''"

lemmas stage_names = PROVISION_def PREPARE_SYSTEM_def INSTALL_PACKAGES_def START_SERVICES_def
  PREPARE_def RUN_def CLEANUP_def TEARDOWN_def ALL_STAGES_def

definition STAGES :: "string list" where
  "STAGES = [PROVISION, PREPARE, RUN, CLEANUP, TEARDOWN]"

definition NEXT_STAGE :: "(string \<times> string list) list" where
  "NEXT_STAGE =
     [(PROVISION, [PREPARE, INSTALL_PACKAGES, PREPARE_SYSTEM, START_SERVICES, TEARDOWN]),
      (PREPARE, [RUN, CLEANUP]),
      (INSTALL_PACKAGES, [PREPARE_SYSTEM, START_SERVICES, RUN, CLEANUP]),
      (PREPARE_SYSTEM, [START_SERVICES, RUN, CLEANUP]),
      (START_SERVICES, [RUN, CLEANUP]),
      (RUN, [CLEANUP]),
      (CLEANUP, [TEARDOWN])]"

definition VALID_FLAG_VALUES :: "string list" where
  "VALID_FLAG_VALUES =
     [PROVISION, PREPARE, RUN, CLEANUP, TEARDOWN, PREPARE_SYSTEM, INSTALL_PACKAGES,
      START_SERVICES, ALL_STAGES]"

section \<open>The parser\<close>

datatype stage_error =
    EmptyStageList
  | UnrecognizedStages "string set"
  | AllWithIndividualStages
  | ShouldBeLastStage string
  | UnexpectedStage string "string list" string
  | PrepareWithSubstages

text \<open>The loop over the stages after the first, with the stage before as its state.\<close>

fun check_order :: "string \<Rightarrow> string list \<Rightarrow> stage_error + unit" where
  "check_order previous_stage [] = Inr ()"
| "check_order previous_stage (stage # rest) =
     (case map_of NEXT_STAGE previous_stage of
        None \<Rightarrow> Inl (ShouldBeLastStage previous_stage)
      | Some expected_stages \<Rightarrow>
          if expected_stages = [] then Inl (ShouldBeLastStage previous_stage)
          else if stage \<notin> set expected_stages
            then Inl (UnexpectedStage previous_stage expected_stages stage)
          else check_order stage rest)"

definition parse :: "('arg \<Rightarrow> string list) \<Rightarrow> 'arg \<Rightarrow> stage_error + string list" where
  "parse super_parse argument =
     (let stage_list = super_parse argument;
          invalid_items = set stage_list - set VALID_FLAG_VALUES
      in if stage_list = [] then Inl EmptyStageList
         else if invalid_items \<noteq> {} then Inl (UnrecognizedStages invalid_items)
         else if ALL_STAGES \<in> set stage_list then
           (if length stage_list > 1 then Inl AllWithIndividualStages else Inr STAGES)
         else case check_order (hd stage_list) (tl stage_list) of
           Inl err \<Rightarrow> Inl err
         | Inr _ \<Rightarrow>
             if PREPARE \<in> set stage_list \<and>
                (PREPARE_SYSTEM \<in> set stage_list \<or> INSTALL_PACKAGES \<in> set stage_list
                 \<or> START_SERVICES \<in> set stage_list)
             then Inl PrepareWithSubstages
             else Inr stage_list)"

section \<open>Lemmas\<close>

text \<open>The position of a stage in a run; the three substages share the place of prepare.\<close>

definition PIPELINE :: "string list" where
  "PIPELINE = [PROVISION, PREPARE, INSTALL_PACKAGES, PREPARE_SYSTEM, START_SERVICES, RUN,
     CLEANUP, TEARDOWN]"

fun index_of :: "'a list \<Rightarrow> 'a \<Rightarrow> nat" where
  "index_of [] x = 0"
| "index_of (y # ys) x = (if x = y then 0 else Suc (index_of ys x))"

definition stage_rank :: "string \<Rightarrow> nat" where
  "stage_rank s = index_of PIPELINE s"

lemmas stage_tables = NEXT_STAGE_def VALID_FLAG_VALUES_def STAGES_def PIPELINE_def

definition follows :: "string \<Rightarrow> string \<Rightarrow> bool" where
  "follows a b = (case map_of NEXT_STAGE a of None \<Rightarrow> False | Some bs \<Rightarrow> b \<in> set bs)"

lemma NEXT_STAGE_nonempty: "map_of NEXT_STAGE a = Some bs \<Longrightarrow> bs \<noteq> []"
  by (auto simp: NEXT_STAGE_def split: if_splits)

lemma follows_rank: "follows a b \<Longrightarrow> stage_rank a < stage_rank b"
  by (auto simp: follows_def stage_rank_def stage_tables stage_names split: if_splits)

lemma check_order_ok: "check_order a xs = Inr u \<longleftrightarrow> successively follows (a # xs)"
  by (induction a xs rule: check_order.induct)
     (auto simp: follows_def dest: NEXT_STAGE_nonempty split: option.splits)

text \<open>A chain of allowed successors climbs strictly through the pipeline.\<close>

lemma follows_sorted: "successively follows xs \<Longrightarrow> sorted_wrt (<) (map stage_rank xs)"
proof -
  assume "successively follows xs"
  then have "successively (<) (map stage_rank xs)"
    by (simp add: successively_map) (metis (mono_tags, lifting) follows_rank successively_mono)
  then show ?thesis
    by (simp add: successively_iff_sorted_wrt_strong)
qed

lemma parse_cases:
  "parse sp arg = Inr r \<longleftrightarrow>
     set (sp arg) \<subseteq> set VALID_FLAG_VALUES \<and> sp arg \<noteq> [] \<and>
     (if ALL_STAGES \<in> set (sp arg) then sp arg = [ALL_STAGES] \<and> r = STAGES
      else r = sp arg \<and> successively follows (sp arg) \<and>
        (PREPARE \<in> set (sp arg) \<longrightarrow>
           set (sp arg) \<inter> {PREPARE_SYSTEM, INSTALL_PACKAGES, START_SERVICES} = {}))"
proof (cases "sp arg")
  case Nil
  then show ?thesis by (simp add: parse_def)
next
  case (Cons a xs)
  then show ?thesis
    using check_order_ok [of a xs]
    by (cases "check_order a xs") (auto simp: parse_def Let_def split: if_splits)
qed

section \<open>Properties\<close>

text \<open>The run stages that the parser accepts are exactly: the single value 'all', which
  stands for the five stages, and the non-empty lists of known stages in which each stage is an
  allowed successor of the one before it and prepare does not stand with its three parts.\<close>

lemma parse_accepts_iff:
  "parse super_parse argument = Inr stages \<longleftrightarrow>
     (super_parse argument = [ALL_STAGES] \<and> stages = STAGES) \<or>
     (super_parse argument = stages \<and> stages \<noteq> [] \<and> ALL_STAGES \<notin> set stages
      \<and> set stages \<subseteq> set VALID_FLAG_VALUES \<and> successively follows stages
      \<and> (PREPARE \<notin> set stages
         \<or> set stages \<inter> {PREPARE_SYSTEM, INSTALL_PACKAGES, START_SERVICES} = {}))"
  unfolding parse_cases by (auto simp: VALID_FLAG_VALUES_def)

theorem parse_accepts_iff_witness:
  "parse (\<lambda>x. x) [PROVISION, INSTALL_PACKAGES, RUN] = Inr [PROVISION, INSTALL_PACKAGES, RUN]
   \<and> parse (\<lambda>x. x) [PROVISION, RUN] \<noteq> Inr [PROVISION, RUN]"
  unfolding parse_accepts_iff by (simp add: follows_def stage_tables stage_names)

text \<open>An accepted list of stages runs no stage twice and lists the stages in the order of
  the pipeline.\<close>

lemma parse_in_pipeline_order:
  assumes "parse super_parse argument = Inr stages"
  shows "distinct stages \<and> sorted_wrt (\<lambda>a b. stage_rank a < stage_rank b) stages
    \<and> set stages \<subseteq> set PIPELINE"
proof -
  have "successively follows stages \<and> set stages \<subseteq> set VALID_FLAG_VALUES
      \<and> ALL_STAGES \<notin> set stages"
    using assms unfolding parse_cases
    by (auto simp: follows_def stage_tables stage_names split: if_splits)
  moreover from this have "sorted_wrt (\<lambda>a b. stage_rank a < stage_rank b) stages"
    using follows_sorted [of stages] by (simp add: sorted_wrt_map)
  moreover from this have "distinct stages"
    by (induction stages) auto
  ultimately show ?thesis
    by (auto simp: stage_tables)
qed

theorem parse_in_pipeline_order_witness:
  "parse (\<lambda>x. x) [ALL_STAGES] = Inr STAGES \<and> distinct STAGES"
proof -
  have "parse (\<lambda>x. x) [ALL_STAGES] = Inr STAGES"
    by (simp add: parse_def VALID_FLAG_VALUES_def)
  with parse_in_pipeline_order [OF this] show ?thesis by simp
qed

text \<open>The help text of the flag says that a list of stages must not skip a stage; the
  parser accepts lists that skip prepare, run and cleanup.\<close>

lemma parse_accepts_skipped_stages:
  "parse (\<lambda>x. x) [PROVISION, TEARDOWN] = Inr [PROVISION, TEARDOWN]
   \<and> parse (\<lambda>x. x) [PROVISION, PREPARE, CLEANUP] = Inr [PROVISION, PREPARE, CLEANUP]"
  by (simp add: parse_def stage_tables stage_names)

end
