(* ===== verification/Conditions.thy ===== *)
theory Conditions
  imports Collector Stages
begin

text \<open>
  The decisions of \<open>perfkitbenchmarker/pkb.py\<close> that depend only on flags and samples: the
  validators of the retry flags, the conditions under which teardown is skipped, the run URI, and
  the parser of /proc/meminfo.

  Flag values and file contents are ASCII strings; Python's float is a rational.
\<close>

section \<open>Characters\<close>

definition is_digit :: "char \<Rightarrow> bool" where
  "is_digit c = (48 \<le> (of_char c :: nat) \<and> (of_char c :: nat) \<le> 57)"

definition is_alpha :: "char \<Rightarrow> bool" where
  "is_alpha c = ((65 \<le> (of_char c :: nat) \<and> (of_char c :: nat) \<le> 90)
     \<or> (97 \<le> (of_char c :: nat) \<and> (of_char c :: nat) \<le> 122))"

definition is_space :: "char \<Rightarrow> bool" where
  "is_space c = ((of_char c :: nat) = 32 \<or> (9 \<le> (of_char c :: nat) \<and> (of_char c :: nat) \<le> 13)
     \<or> (28 \<le> (of_char c :: nat) \<and> (of_char c :: nat) \<le> 31))"

definition isalnum :: "string \<Rightarrow> bool" where
  "isalnum s = (s \<noteq> [] \<and> list_all (\<lambda>c. is_alpha c \<or> is_digit c) s)"

definition digit_value :: "char \<Rightarrow> nat" where
  "digit_value c = of_char c - 48"

definition digits_value :: "string \<Rightarrow> nat" where
  "digits_value s = foldl (\<lambda>n c. 10 * n + digit_value c) 0 s"

section \<open>Validators of the retry flags\<close>

definition ValidateSmartZoneRetryFlags ::
  "bool \<Rightarrow> bool \<Rightarrow> int \<Rightarrow> string list \<Rightarrow> string list \<Rightarrow> bool" where
  "ValidateSmartZoneRetryFlags smart_quota_retry smart_capacity_retry retries zones zone =
     (if smart_quota_retry \<or> smart_capacity_retry then
        if retries = 0 then False
        else (length zones = 1 \<and> zone = []) \<or> (length zone = 1 \<and> zones = [])
      else True)"

definition ValidateRetriesAndRunStages :: "int \<Rightarrow> string list \<Rightarrow> bool" where
  "ValidateRetriesAndRunStages retries run_stage = (\<not> (retries > 0 \<and> run_stage \<noteq> STAGES))"

section \<open>Conditions for skipping teardown\<close>

datatype direction = Above | Below

record bounds =
  lower_bound :: "rat option"
  upper_bound :: "rat option"

text \<open>\<open>float(s)\<close> for a string of digits, \<open>+\<close> and \<open>.\<close>\<close>

definition parse_float :: "string \<Rightarrow> rat option" where
  "parse_float s =
     (let t = (case s of [] \<Rightarrow> [] | c # cs \<Rightarrow> if c = CHR ''+'' then cs else s);
          whole = takeWhile is_digit t;
          rest = dropWhile is_digit t
      in case rest of
           [] \<Rightarrow> if whole = [] then None else Some (of_nat (digits_value whole))
         | c # decimals \<Rightarrow>
             if c = CHR ''.'' \<and> list_all is_digit decimals \<and> (whole \<noteq> [] \<or> decimals \<noteq> [])
             then Some (of_nat (digits_value whole) + of_nat (digits_value decimals) / 10 ^ length decimals)
             else None)"

text \<open>\<open>pattern.match(condition)\<close>: the groups of a match at the start of the string.\<close>

definition metric_char :: "char \<Rightarrow> bool" where
  "metric_char c = (is_alpha c \<or> is_digit c \<or> c = CHR ''_'' \<or> c = CHR '' '' \<or> c = CHR ''-'')"

definition threshold_char :: "char \<Rightarrow> bool" where
  "threshold_char c = (is_digit c \<or> c = CHR ''+'' \<or> c = CHR ''.'')"

definition match_condition :: "string \<Rightarrow> (string \<times> direction \<times> string) option" where
  "match_condition s =
     (let name = takeWhile metric_char s in
      case dropWhile metric_char s of
        [] \<Rightarrow> None
      | c # rest \<Rightarrow>
          let threshold = takeWhile threshold_char rest in
          if name = [] \<or> threshold = [] then None
          else if c = CHR ''>'' then Some (name, Above, threshold)
          else if c = CHR ''<'' then Some (name, Below, threshold)
          else None)"

definition parse_condition :: "string \<Rightarrow> (string \<times> direction \<times> rat) option" where
  "parse_condition s = (case match_condition s of None \<Rightarrow> None
     | Some (name, d, threshold) \<Rightarrow>
        (case parse_float threshold of None \<Rightarrow> None | Some t \<Rightarrow> Some (name, d, t)))"

definition merge_condition ::
  "(string \<times> bounds) list \<Rightarrow> string \<times> direction \<times> rat \<Rightarrow> (string \<times> bounds) list" where
  "merge_condition parsed c = (case c of (name, d, t) \<Rightarrow>
     let lower = (if d = Above then Some t else None);
         upper = (if d = Below then Some t else None)
     in case map_of parsed name of
          None \<Rightarrow> dict_set parsed name \<lparr>lower_bound = lower, upper_bound = upper\<rparr>
        | Some b \<Rightarrow>
            let b = (case lower of None \<Rightarrow> b | Some l \<Rightarrow>
                       (case lower_bound b of None \<Rightarrow> b\<lparr>lower_bound := Some l\<rparr>
                        | Some l' \<Rightarrow> if l < l' then b\<lparr>lower_bound := Some l\<rparr> else b));
                b = (case upper of None \<Rightarrow> b | Some u \<Rightarrow>
                       (case upper_bound b of None \<Rightarrow> b\<lparr>upper_bound := Some u\<rparr>
                        | Some u' \<Rightarrow> if u > u' then b\<lparr>upper_bound := Some u\<rparr> else b))
            in dict_set parsed name b)"

fun parse_conditions ::
  "(string \<times> bounds) list \<Rightarrow> string list \<Rightarrow> exn + (string \<times> bounds) list" where
  "parse_conditions parsed [] = Inr parsed"
| "parse_conditions parsed (s # ss) =
     (case parse_condition s of
        None \<Rightarrow> Inl (exn (Builtin ValueError) ''Invalid skip_teardown_conditions flag.'')
      | Some c \<Rightarrow> parse_conditions (merge_condition parsed c) ss)"

definition ParseSkipTeardownConditions :: "string list \<Rightarrow> exn + (string \<times> bounds) list" where
  "ParseSkipTeardownConditions conditions = parse_conditions [] conditions"

definition ValidateSkipTeardownConditions :: "string list option \<Rightarrow> bool" where
  "ValidateSkipTeardownConditions flag =
     (case flag of None \<Rightarrow> True | Some conditions \<Rightarrow>
        (case ParseSkipTeardownConditions conditions of Inl _ \<Rightarrow> False | Inr _ \<Rightarrow> True))"

definition MetricMeetsConditions :: "sample_dict \<Rightarrow> (string \<times> bounds) list \<Rightarrow> bool" where
  "MetricMeetsConditions s conditions =
     (case map_of conditions (metric (sd_sample s)) of
        None \<Rightarrow> False
      | Some target \<Rightarrow>
          let v = sample_value (sd_sample s);
              lower_bound_satisfied = (case lower_bound target of None \<Rightarrow> False | Some l \<Rightarrow> v > l);
              upper_bound_satisfied = (case upper_bound target of None \<Rightarrow> False | Some u \<Rightarrow> v < u)
          in if lower_bound_satisfied \<and> upper_bound_satisfied then True
             else if (case (lower_bound target, upper_bound target) of
                        (Some l, Some u) \<Rightarrow> l < u | _ \<Rightarrow> False) then False
             else if lower_bound_satisfied then True
             else if upper_bound_satisfied then True
             else False)"

text \<open>\<open>status_sample['metadata'].get('failed_substatus') == COMMAND_TIMEOUT\<close>\<close>

definition timed_out :: "sample_dict \<Rightarrow> bool" where
  "timed_out s = (map_of (sample_metadata (sd_sample s)) ''failed_substatus''
     = Some (VStr (substatus_value COMMAND_TIMEOUT)))"

definition exceeds :: "nat \<Rightarrow> int \<Rightarrow> int option \<Rightarrow> bool" where
  "exceeds vm_count limit num_lingering_vms =
     (case num_lingering_vms of None \<Rightarrow> False | Some k \<Rightarrow> k + int vm_count > limit)"

definition too_many_lingering :: "nat \<Rightarrow> int option list \<Rightarrow> int option \<Rightarrow> bool" where
  "too_many_lingering vm_count lingering limit =
     (case limit of None \<Rightarrow> False | Some n \<Rightarrow> n \<noteq> 0 \<and> list_ex (exceeds vm_count n) lingering)"

text \<open>
  \<open>lingering\<close> are the numbers that \<open>GetNumTeardownSkippedVms\<close> gives for the \<open>vm_count\<close> VMs of
  the benchmark, up to the first that exceeds the limit.
\<close>

definition ShouldTeardown ::
  "(string \<times> bounds) list \<Rightarrow> sample_dict list \<Rightarrow> nat \<Rightarrow> int option list \<Rightarrow> int option \<Rightarrow> bool \<Rightarrow> bool"
where
  "ShouldTeardown conditions ss vm_count lingering limit skip_on_command_timeout =
     (if conditions = [] \<and> \<not> skip_on_command_timeout then True
      else if skip_on_command_timeout \<and> list_ex timed_out ss then False
      else if too_many_lingering vm_count lingering limit then True
      else if list_ex (\<lambda>s. MetricMeetsConditions s conditions) ss then False
      else True)"

section \<open>The run URI\<close>

definition MAX_RUN_URI_LENGTH :: nat where
  "MAX_RUN_URI_LENGTH = 12"

definition last_chars :: "nat \<Rightarrow> string \<Rightarrow> string" where
  "last_chars n s = drop (length s - n) s"

text \<open>\<open>uuid\<close> is \<open>str(uuid.uuid4())\<close> and \<open>last_run\<close> what \<open>GetLastRunUri\<close> returns.\<close>

definition InitializeRunUri ::
  "string option \<Rightarrow> string list \<Rightarrow> string \<Rightarrow> string option \<Rightarrow> exn + string" where
  "InitializeRunUri flag run_stage uuid last_run =
     (case flag of
        None \<Rightarrow>
          if ''provision'' \<in> set run_stage then Inr (last_chars 8 uuid)
          else (case last_run of
                  None \<Rightarrow> Inl (exn (Setup NoRunURIError) ''No run_uri specified.'')
                | Some r \<Rightarrow>
                    if r = [] then Inl (exn (Setup NoRunURIError) ''No run_uri specified.'')
                    else Inr r)
      | Some u \<Rightarrow>
          if \<not> isalnum u \<or> length u > MAX_RUN_URI_LENGTH
          then Inl (exn (Setup BadRunURIError) ''run_uri must be alphanumeric'')
          else Inr u)"

section \<open>What the conditions mean\<close>

definition min_of :: "rat list \<Rightarrow> rat option" where
  "min_of ts = (if ts = [] then None else Some (Min (set ts)))"

definition max_of :: "rat list \<Rightarrow> rat option" where
  "max_of ts = (if ts = [] then None else Some (Max (set ts)))"

definition thresholds :: "(string \<times> direction \<times> rat) list \<Rightarrow> string \<Rightarrow> direction \<Rightarrow> rat list" where
  "thresholds cs name d = map (\<lambda>(_, _, t). t) (filter (\<lambda>(n, d', _). n = name \<and> d' = d) cs)"

text \<open>The abstract specification: the weakest of the thresholds in each direction.\<close>

definition weakest :: "(string \<times> direction \<times> rat) list \<Rightarrow> string \<Rightarrow> bounds option" where
  "weakest cs name =
     (if list_ex (\<lambda>(n, _, _). n = name) cs
      then Some \<lparr>lower_bound = min_of (thresholds cs name Above),
                 upper_bound = max_of (thresholds cs name Below)\<rparr>
      else None)"

lemma min_of_snoc: "min_of (ts @ [t]) = (case min_of ts of None \<Rightarrow> Some t | Some l \<Rightarrow>
    Some (if t < l then t else l))"
proof (cases "ts = []")
  case False
  have "min t x = (if t < x then t else x)" for x :: rat by (simp add: min_def)
  moreover have "Min (set (ts @ [t])) = min t (Min (set ts))" using False by simp
  ultimately show ?thesis using False by (simp only: min_of_def append_is_Nil_conv if_False option.case simp_thms)
qed (simp add: min_of_def)

lemma max_of_snoc: "max_of (ts @ [t]) = (case max_of ts of None \<Rightarrow> Some t | Some u \<Rightarrow>
    Some (if t > u then t else u))"
proof (cases "ts = []")
  case False
  have "max t x = (if t > x then t else x)" for x :: rat by (simp add: max_def)
  moreover have "Max (set (ts @ [t])) = max t (Max (set ts))" using False by simp
  ultimately show ?thesis using False by (simp only: max_of_def append_is_Nil_conv if_False option.case simp_thms)
qed (simp add: max_of_def)

lemma thresholds_snoc: "thresholds (cs @ [(n, d, t)]) name d' =
    thresholds cs name d' @ (if n = name \<and> d = d' then [t] else [])"
  by (simp add: thresholds_def)

lemma thresholds_absent:
  "\<not> list_ex (\<lambda>(n, _, _). n = name) cs \<Longrightarrow> thresholds cs name d = []"
  by (auto simp: thresholds_def list_ex_iff filter_empty_conv)

lemma weakest_merge:
  assumes "map_of parsed = weakest cs"
  shows "map_of (merge_condition parsed (n, d, t)) = weakest (cs @ [(n, d, t)])"
proof (rule ext)
  fix name
  show "map_of (merge_condition parsed (n, d, t)) name = weakest (cs @ [(n, d, t)]) name"
  proof (cases "name = n")
    case False
    then show ?thesis
      using assms by (simp add: merge_condition_def weakest_def thresholds_snoc Let_def
          split: option.split)
  next
    case True
    show ?thesis
    proof (cases "list_ex (\<lambda>(m, _, _). m = n) cs")
      case False
      then show ?thesis
        using assms True thresholds_absent [OF False]
        by (cases d) (simp_all add: merge_condition_def weakest_def thresholds_snoc Let_def
            min_of_def max_of_def)
    next
      case old: True
      then show ?thesis
        using assms True
        by (cases d) (auto simp: merge_condition_def weakest_def thresholds_snoc Let_def
            min_of_snoc max_of_snoc split: option.split)
    qed
  qed
qed

lemma parse_conditions_weakest:
  "map_of parsed = weakest cs \<Longrightarrow> parse_conditions parsed ss = Inr r \<Longrightarrow>
   \<exists>ds. map parse_condition ss = map Some ds \<and> map_of r = weakest (cs @ ds)"
proof (induction parsed ss arbitrary: cs rule: parse_conditions.induct)
  case (2 parsed s ss)
  then obtain c where c: "parse_condition s = Some c" by (auto split: option.splits)
  obtain n d t where ndt: "c = (n, d, t)" by (cases c) auto
  have "parse_conditions (merge_condition parsed c) ss = Inr r" using 2(3) c by simp
  from 2(1) [OF c weakest_merge [OF 2(2), of n d t, folded ndt] this] obtain ds where
    "map parse_condition ss = map Some ds" "map_of r = weakest ((cs @ [c]) @ ds)" by blast
  then have "map parse_condition (s # ss) = map Some (c # ds) \<and> map_of r = weakest (cs @ (c # ds))"
    using c by simp
  then show ?case by blast
qed simp

lemma parse_conditions_error:
  "(\<exists>e. parse_conditions parsed ss = Inl e) = (\<exists>s \<in> set ss. parse_condition s = None)"
  by (induction parsed ss rule: parse_conditions.induct) (auto split: option.splits)

text \<open>When a value meets the bounds of a metric.\<close>

definition meets :: "rat \<Rightarrow> bounds \<Rightarrow> bool" where
  "meets v b = (case (lower_bound b, upper_bound b) of
     (None, None) \<Rightarrow> False
   | (Some l, None) \<Rightarrow> l < v
   | (None, Some u) \<Rightarrow> v < u
   | (Some l, Some u) \<Rightarrow> if l < u then l < v \<and> v < u else l < v \<or> v < u)"

lemma MetricMeetsConditions_meets:
  "MetricMeetsConditions s conditions =
     (case map_of conditions (metric (sd_sample s)) of None \<Rightarrow> False
      | Some b \<Rightarrow> meets (sample_value (sd_sample s)) b)"
  by (auto simp: MetricMeetsConditions_def meets_def Let_def split: option.splits)

section \<open>Properties\<close>

text \<open>The conditions for skipping teardown are read as their weakest bounds: the flag is accepted
  exactly if every condition parses, and then a sample meets the conditions exactly if its value
  meets the smallest lower and the largest upper threshold given for its metric, both of them when
  they enclose an interval and either of them when they do not.\<close>

lemma ParseSkipTeardownConditions_weakest:
  "case ParseSkipTeardownConditions conditions of
     Inl e \<Rightarrow> (\<exists>s \<in> set conditions. parse_condition s = None)
   | Inr parsed \<Rightarrow> (\<exists>cs. map parse_condition conditions = map Some cs
       \<and> (\<forall>s. MetricMeetsConditions s parsed = (case weakest cs (metric (sd_sample s)) of
            None \<Rightarrow> False | Some b \<Rightarrow> meets (sample_value (sd_sample s)) b)))"
proof (cases "ParseSkipTeardownConditions conditions")
  case (Inl e)
  then show ?thesis
    using parse_conditions_error [of "[]" conditions]
    by (auto simp: ParseSkipTeardownConditions_def)
next
  case (Inr parsed)
  have "map_of [] = weakest []" by (simp add: weakest_def fun_eq_iff)
  from parse_conditions_weakest [OF this, of conditions parsed] Inr obtain cs where
    "map parse_condition conditions = map Some cs" "map_of parsed = weakest cs"
    by (auto simp: ParseSkipTeardownConditions_def)
  then show ?thesis
    by (simp add: Inr MetricMeetsConditions_meets)
qed

text \<open>Teardown is skipped exactly when a sample reports a command timeout and the flag asks for
  it, or when some sample meets the conditions and the zone has room for the VMs left behind.\<close>

lemma ShouldTeardown_decision:
  "ShouldTeardown conditions ss vm_count lingering limit on_timeout =
     (\<not> (on_timeout \<and> (\<exists>s \<in> set ss. timed_out s))
      \<and> (if \<exists>s \<in> set ss. MetricMeetsConditions s conditions
         then too_many_lingering vm_count lingering limit else True))"
proof -
  have "conditions = [] \<Longrightarrow> \<not> MetricMeetsConditions s conditions" for s
    by (simp add: MetricMeetsConditions_def)
  then show ?thesis by (auto simp: ShouldTeardown_def list_ex_iff)
qed

text \<open>The run URI: one given by the user is used exactly if it is alphanumeric and short enough;
  without one, a run that provisions takes the end of a fresh UUID, and any other run reuses the
  last run or fails.\<close>

lemma InitializeRunUri_result:
  "(InitializeRunUri flag run_stage uuid last_run = Inr u) =
     (case flag of
        Some f \<Rightarrow> u = f \<and> isalnum u \<and> length u \<le> 12
      | None \<Rightarrow> if ''provision'' \<in> set run_stage then u = last_chars 8 uuid
                else u \<noteq> [] \<and> last_run = Some u)"
  by (auto simp: InitializeRunUri_def MAX_RUN_URI_LENGTH_def split: option.split)

end
