(* ===== verification/Phases.thy ===== *)
theory Phases
  imports Conditions
begin

text \<open>
  The phases of a benchmark run in \<open>perfkitbenchmarker/pkb.py\<close>: \<open>DoProvisionPhase\<close> to
  \<open>DoTeardownPhase\<close>, with the loop of the run phase.

  The state of a run is the part of the BenchmarkSpec that pkb.py itself changes, the sample
  collector, the two interval timers, the local variables of \<open>RunBenchmark\<close>, and everything else
  (\<open>ext\<close>).  \<open>interrupt_checker\<close> is None or whether the event that stops the threads of the current
  InterruptChecker is set; \<open>lost_checkers\<close> counts the checkers that were dropped with running
  threads.  The methods of the BenchmarkSpec, the functions of the benchmark module, the event
  handlers and the VMs act on \<open>ext\<close>; they are the record \<open>ops\<close>.  \<open>calls\<close> is a record of the calls
  that were made, in order; the program has no such variable.
\<close>

section \<open>State\<close>

record 'w run_world =
  status :: string
  failed_substatus :: "FailedSubstatus option"
  status_detail :: "string option"
  freeze_path :: "string option"
  restore_spec :: "string option"
  run_collector :: collector
  detailed_timer :: "interval list"
  end_to_end_timer :: "interval list"
  current_run_stage :: string
  should_teardown :: bool
  interrupt_checker :: "bool option"
  lost_checkers :: nat
  calls :: "(string \<times> string) list"
  ext :: 'w

type_synonym ('w, 'a) run = "(exn, 'w run_world mach, 'a) py"
type_synonym ('w, 'a) act = "(exn, 'w mach, 'a) py"

datatype extra_samples = BootTime | GpuSamples | Lscpu | Ulimit | ProcCpu | CpuVuln | Gcc | Glibc

record 'w ops =
  before_phase :: "string \<Rightarrow> ('w, unit) act"
  after_phase :: "string \<Rightarrow> ('w, unit) act"
  trigger_phase :: "('w, unit) act"
  benchmark_start :: "('w, unit) act"
  benchmark_end :: "('w, unit) act"
  register_tracers :: "('w, unit) act"
  samples_created :: "sample list \<Rightarrow> ('w, sample list) act"
  ConstructResources :: "('w, unit) act"
  CheckPrerequisites :: "('w, unit) act"
  Pickle :: "('w, unit) act"
  Provision :: "('w, unit) act"
  SpecPrepare :: "('w, unit) act"
  StartBackgroundWorkload :: "('w, unit) act"
  StopBackgroundWorkload :: "('w, unit) act"
  SpecDelete :: "('w, unit) act"
  SpecGetSamples :: "('w, sample list) act"
  BenchmarkPrepare :: "('w, unit) act option"
  BenchmarkPrepareSystem :: "('w, unit) act option"
  BenchmarkInstallPackages :: "('w, unit) act option"
  BenchmarkStartServices :: "('w, unit) act option"
  BenchmarkRun :: "('w, sample list) act"
  BenchmarkCleanup :: "('w, unit) act"
  bench_name :: string
  always_call_cleanup :: bool
  has_static_vm_or_dpb :: "'w \<Rightarrow> bool"
  extra :: "extra_samples \<Rightarrow> ('w, sample list) act"
  MeasureDelete :: "('w, sample list) act"
  GenerateAndCaptureLogs :: "nat \<Rightarrow> ('w, unit) act"
  vms :: "'w \<Rightarrow> nat list"
  IsInterruptible :: "nat \<Rightarrow> 'w \<Rightarrow> bool"
  WasInterrupted :: "nat \<Rightarrow> 'w \<Rightarrow> bool"
  GetVmStatusCode :: "nat \<Rightarrow> 'w \<Rightarrow> string option"
  create_operation_name :: "nat \<Rightarrow> 'w \<Rightarrow> string"
  UpdateInterruptibleVmStatus :: "('w, unit) act"
  GetNumTeardownSkippedVms :: "nat \<Rightarrow> ('w, int option) act"
  UpdateTimeoutMetadata :: "nat \<Rightarrow> ('w, unit) act"
  join_checks :: "('w, unit) act"
  read_input :: "string \<Rightarrow> ('w, unit) act"
  load_restore_spec :: "string \<Rightarrow> ('w, string) act"
  collector_env_of :: "'w mach collector_env"
  error_classes :: class_tree
  skip_pending_checks :: "('w, bool) act list"

record run_flags =
  run_stage :: "string list"
  run_stage_time :: int
  run_stage_iterations :: int
  run_stage_retries :: int
  before_run_pause :: bool
  before_cleanup_pause :: bool
  after_prepare_sleep_time :: nat
  between_runs_sleep_time :: int
  after_run_sleep_time :: nat
  publish_after_run :: bool
  publish_period :: "int option"
  restore_path :: "string option"
  flag_freeze_path :: "string option"
  enabled_extras :: "extra_samples list"
  measure_delete :: bool
  capture_vm_logs :: bool
  timing_measurements :: "string list"
  create_failed_run_samples :: bool
  failed_run_samples_error_length :: nat
  always_teardown_on_exception :: bool
  skip_teardown_conditions :: "string list"
  skip_teardown_zonal_vm_limit :: "int option"
  skip_teardown_on_command_timeout :: bool
  provided_flags :: string

section \<open>Access to the state\<close>

definition ext_mach :: "'w run_world mach \<Rightarrow> 'w mach" where
  "ext_mach m = \<lparr>now = now m, lags = lags m, draws = draws m, world = ext (world m)\<rparr>"

definition put_ext :: "'w run_world mach \<Rightarrow> 'w mach \<Rightarrow> 'w run_world mach" where
  "put_ext m k = \<lparr>now = now k, lags = lags k, draws = draws k, world = (world m)\<lparr>ext := world k\<rparr>\<rparr>"

definition on_ext :: "('w, 'a) act \<Rightarrow> ('w, 'a) run" where
  "on_ext h = (\<lambda>m. case h (ext_mach m) of None \<Rightarrow> None | Some (r, k) \<Rightarrow> Some (r, put_ext m k))"

definition get_run :: "('w run_world \<Rightarrow> 'a) \<Rightarrow> ('w, 'a) run" where
  "get_run f = getM (\<lambda>m. f (world m))"

definition set_run :: "('w run_world \<Rightarrow> 'w run_world) \<Rightarrow> ('w, unit) run" where
  "set_run f = modifyM (\<lambda>m. m\<lparr>world := f (world m)\<rparr>)"

text \<open>A call that is noted before it is made.\<close>

definition call :: "string \<times> string \<Rightarrow> ('w, 'a) act \<Rightarrow> ('w, 'a) run" where
  "call n h = thenM (set_run (\<lambda>w. w\<lparr>calls := calls w @ [n]\<rparr>)) (on_ext h)"

definition at_collector :: "('w run_world mach, collector) lens" where
  "at_collector = \<lparr>view = (\<lambda>m. run_collector (world m)),
     over = (\<lambda>f m. m\<lparr>world := (world m)\<lparr>run_collector := f (run_collector (world m))\<rparr>\<rparr>)\<rparr>"

definition at_detailed :: "('w run_world mach, interval list) lens" where
  "at_detailed = \<lparr>view = (\<lambda>m. detailed_timer (world m)),
     over = (\<lambda>f m. m\<lparr>world := (world m)\<lparr>detailed_timer := f (detailed_timer (world m))\<rparr>\<rparr>)\<rparr>"

definition at_end_to_end :: "('w run_world mach, interval list) lens" where
  "at_end_to_end = \<lparr>view = (\<lambda>m. end_to_end_timer (world m)),
     over = (\<lambda>f m. m\<lparr>world := (world m)\<lparr>end_to_end_timer := f (end_to_end_timer (world m))\<rparr>\<rparr>)\<rparr>"

interpretation collector_part: part_of at_collector
  by unfold_locales (auto simp: at_collector_def)

interpretation detailed_part: part_of at_detailed
  by unfold_locales (auto simp: at_detailed_def)

interpretation end_to_end_part: part_of at_end_to_end
  by unfold_locales (auto simp: at_end_to_end_def)

text \<open>The collector of a run: its providers and publishers act on \<open>ext\<close>.\<close>

definition run_env :: "'w mach collector_env \<Rightarrow> 'w run_world mach collector_env" where
  "run_env E = \<lparr>metadata_providers = map (\<lambda>p md. on_ext (p md)) (metadata_providers E),
     publishers = map (\<lambda>p. \<lparr>PUBLISH_CONSOLE_LOG_DATA = PUBLISH_CONSOLE_LOG_DATA p,
       publish = (\<lambda>ss. on_ext (publish p ss))\<rparr>) (publishers E),
     uuid4 = on_ext (uuid4 E), flag_product_name = flag_product_name E,
     flag_official = flag_official E, flag_owner = flag_owner E, spec_uuid = spec_uuid E\<rparr>"

definition collect :: "'w ops \<Rightarrow> sample list \<Rightarrow> ('w, unit) run" where
  "collect B ss = AddSamples at_collector (run_env (collector_env_of B)) ss (bench_name B)"

definition publish_all :: "'w ops \<Rightarrow> ('w, unit) run" where
  "publish_all B = PublishSamples at_collector (run_env (collector_env_of B))"

definition before :: "'w ops \<Rightarrow> string \<Rightarrow> ('w, unit) run" where
  "before B stage = call (''before_phase'', stage) (before_phase B stage)"

definition after :: "'w ops \<Rightarrow> string \<Rightarrow> ('w, unit) run" where
  "after B stage = call (''after_phase'', stage) (after_phase B stage)"

section \<open>Provision and prepare\<close>

definition DoProvisionPhase :: "'w ops \<Rightarrow> ('w, unit) run" where
  "DoProvisionPhase B = seqM [
     before B ''provision'',
     call (''ConstructResources'', []) (ConstructResources B),
     call (''CheckPrerequisites'', []) (CheckPrerequisites B),
     call (''Pickle'', []) (Pickle B),
     call (''benchmark_start'', []) (benchmark_start B),
     finallyM
       (Measure at_detailed ''Resource Provisioning'' (call (''Provision'', []) (Provision B)))
       (call (''Pickle'', []) (Pickle B)),
     after B ''provision'']"

definition opt_call :: "string \<Rightarrow> ('w, unit) act option \<Rightarrow> ('w, unit) run" where
  "opt_call n h = (case h of None \<Rightarrow> ret () | Some f \<Rightarrow> call (n, []) f)"

definition no_prepare_function :: exn where
  "no_prepare_function = exn (Benchmarks PrepareException)
     ''Benchmark must define at least one prepare function.''"

definition BenchmarkPrepareAll :: "'w ops \<Rightarrow> ('w, unit) run" where
  "BenchmarkPrepareAll B =
     (if BenchmarkPrepare B = None \<and> BenchmarkPrepareSystem B = None
         \<and> BenchmarkInstallPackages B = None \<and> BenchmarkStartServices B = None
      then raise no_prepare_function
      else case BenchmarkPrepare B of
          Some f \<Rightarrow> call (''BenchmarkPrepare'', []) f
        | None \<Rightarrow> seqM [
            opt_call ''BenchmarkPrepareSystem'' (BenchmarkPrepareSystem B),
            opt_call ''BenchmarkInstallPackages'' (BenchmarkInstallPackages B),
            opt_call ''BenchmarkStartServices'' (BenchmarkStartServices B)])"

definition DoPreparePhase :: "run_flags \<Rightarrow> 'w ops \<Rightarrow> ('w, unit) run" where
  "DoPreparePhase F B = seqM [
     before B ''prepare'',
     Measure at_detailed ''BenchmarkSpec Prepare'' (call (''Prepare'', []) (SpecPrepare B)),
     Measure at_detailed ''Benchmark Prepare'' (BenchmarkPrepareAll B),
     call (''StartBackgroundWorkload'', []) (StartBackgroundWorkload B),
     whenM (after_prepare_sleep_time F \<noteq> 0) (time_sleep (of_nat (after_prepare_sleep_time F))),
     after B ''prepare'']"

text \<open>\<open>DoPrepareSystemPhase\<close>, \<open>DoInstallPackagesPhase\<close> and \<open>DoStartServicesPhase\<close> have one shape.\<close>

definition part_phase ::
  "'w ops \<Rightarrow> string \<Rightarrow> string \<Rightarrow> string \<Rightarrow> string \<Rightarrow> ('w, unit) act option \<Rightarrow> ('w, unit) run" where
  "part_phase B stage timer_name function_name missing f =
     thenM (before B stage)
       (case f of
          None \<Rightarrow> raise (exn (Benchmarks PrepareException) missing)
        | Some g \<Rightarrow> thenM (Measure at_detailed timer_name (call (function_name, []) g))
            (after B stage))"

definition DoPrepareSystemPhase :: "'w ops \<Rightarrow> ('w, unit) run" where
  "DoPrepareSystemPhase B = part_phase B ''prepare_system'' ''Prepare System''
     ''BenchmarkPrepareSystem'' ''Benchmark does not define PrepareSystem.'' (BenchmarkPrepareSystem B)"

definition DoInstallPackagesPhase :: "'w ops \<Rightarrow> ('w, unit) run" where
  "DoInstallPackagesPhase B = part_phase B ''install_packages'' ''Install Packages''
     ''BenchmarkInstallPackages'' ''Benchmark does not define InstallPackages.''
     (BenchmarkInstallPackages B)"

definition DoStartServicesPhase :: "'w ops \<Rightarrow> ('w, unit) run" where
  "DoStartServicesPhase B = part_phase B ''start_services'' ''Start Services''
     ''BenchmarkStartServices'' ''Benchmark does not define StartServices.'' (BenchmarkStartServices B)"

section \<open>Run\<close>

text \<open>One attempt: the samples, and the number of consecutive failures after it.\<close>

definition run_attempt :: "run_flags \<Rightarrow> 'w ops \<Rightarrow> int \<Rightarrow> ('w, sample list \<times> int) run" where
  "run_attempt F B failures =
     finallyM
       (tryElseM (Measure at_detailed ''Benchmark Run'' (call (''BenchmarkRun'', []) (BenchmarkRun B)))
         (\<lambda>e. if is_exception e
              then if failures + 1 > run_stage_retries F then raise e else ret ([], failures + 1)
              else raise e)
         (\<lambda>ss. ret (ss, 0)))
       (after B ''run'')"

definition set_metadata :: "string \<Rightarrow> pyval \<Rightarrow> sample \<Rightarrow> sample" where
  "set_metadata k v s = s\<lparr>sample_metadata := dict_set (sample_metadata s) k v\<rparr>"

text \<open>The optional samples of an iteration, in the order of the code.\<close>

definition extras_of_run :: "run_flags \<Rightarrow> 'w ops \<Rightarrow> int \<Rightarrow> extra_samples list" where
  "extras_of_run F B run_number =
     filter (\<lambda>x. case x of
         BootTime \<Rightarrow> run_number = 0 \<and> (BootTime \<in> set (enabled_extras F)
                       \<or> bench_name B = ''cluster_boot'')
       | CpuVuln \<Rightarrow> CpuVuln \<in> set (enabled_extras F) \<and> run_number = 0
       | _ \<Rightarrow> x \<in> set (enabled_extras F))
       [BootTime, GpuSamples, Lscpu, Ulimit, ProcCpu, CpuVuln, Gcc, Glibc]"

definition run_samples :: "run_flags \<Rightarrow> 'w ops \<Rightarrow> int \<Rightarrow> sample list \<Rightarrow> ('w, sample list) run" where
  "run_samples F B run_number ss =
     (let ss = (if run_stage_time F \<noteq> 0 \<or> run_stage_iterations F \<noteq> 0
                then map (set_metadata ''run_number'' (VInt run_number)) ss else ss)
      in bindM (mapPy (\<lambda>x. on_ext (extra B x)) (extras_of_run F B run_number)) (\<lambda>more.
         let ss = ss @ concat more;
             ss = (case restore_path F of None \<Rightarrow> ss
                   | Some p \<Rightarrow> if p = [] then ss else map (set_metadata ''restore'' (VBool True)) ss)
         in on_ext (samples_created B ss)))"

definition maybe_publish :: "run_flags \<Rightarrow> 'w ops \<Rightarrow> rat \<Rightarrow> ('w, rat) run" where
  "maybe_publish F B last_publish_time =
     (case publish_period F of
        None \<Rightarrow> ret last_publish_time
      | Some p \<Rightarrow>
          if publish_after_run F then
            bindM time_time (\<lambda>t.
              if of_int p < t - last_publish_time
              then thenM (publish_all B) time_time
              else ret last_publish_time)
          else ret last_publish_time)"

definition IsRunStageFinished :: "run_flags \<Rightarrow> rat \<Rightarrow> int \<Rightarrow> ('w, bool) run" where
  "IsRunStageFinished F deadline run_number =
     (if run_stage_time F > 0 then bindM time_time (\<lambda>t. ret (t > deadline))
      else ret (run_number \<ge> run_stage_iterations F))"

text \<open>One pass of the loop: whether it was the last, the failures and the time of publishing.\<close>

definition run_iteration ::
  "run_flags \<Rightarrow> 'w ops \<Rightarrow> rat \<Rightarrow> int \<Rightarrow> int \<Rightarrow> rat \<Rightarrow> ('w, bool \<times> int \<times> rat) run" where
  "run_iteration F B deadline run_number failures last_publish_time =
     thenM (call (''trigger_phase'', []) (trigger_phase B))
     (bindM (run_attempt F B failures) (\<lambda>(ss, failures').
      bindM (run_samples F B run_number ss) (\<lambda>ss'.
      thenM (collect B ss')
      (bindM (maybe_publish F B last_publish_time) (\<lambda>published.
      thenM (whenM (between_runs_sleep_time F > 0)
              (time_sleep (of_int (between_runs_sleep_time F))))
      (bindM (IsRunStageFinished F deadline (run_number + 1)) (\<lambda>finished.
      thenM (whenM (finished \<and> after_run_sleep_time F \<noteq> 0)
              (time_sleep (of_nat (after_run_sleep_time F))))
        (ret (finished, failures', published)))))))))"

definition run_pass ::
  "run_flags \<Rightarrow> 'w ops \<Rightarrow> rat \<Rightarrow> int \<Rightarrow> int \<Rightarrow> rat \<Rightarrow> ('w, bool \<times> int \<times> rat) run" where
  "run_pass F B deadline run_number failures last_publish_time =
     thenM (before B ''run'') (run_iteration F B deadline run_number failures last_publish_time)"

partial_function (option) run_loop ::
  "run_flags \<Rightarrow> 'w ops \<Rightarrow> rat \<Rightarrow> int \<Rightarrow> int \<Rightarrow> rat \<Rightarrow> 'w run_world mach
     \<Rightarrow> ((exn + unit) \<times> 'w run_world mach) option" where
  "run_loop F B deadline run_number failures published m =
     (case run_pass F B deadline run_number failures published m of
        None \<Rightarrow> None
      | Some rm \<Rightarrow>
         (case fst rm of
            Inl e \<Rightarrow> Some (Inl e, snd rm)
          | Inr p \<Rightarrow>
              if fst p then Some (Inr (), snd rm)
              else run_loop F B deadline (run_number + 1) (fst (snd p)) (snd (snd p)) (snd rm)))"

definition DoRunPhase :: "run_flags \<Rightarrow> 'w ops \<Rightarrow> ('w, unit) run" where
  "DoRunPhase F B =
     thenM (whenM (before_run_pause F) (on_ext (read_input B ''Hit enter to begin Run.'')))
     (bindM time_time (\<lambda>t.
      bindM time_time (\<lambda>published.
        run_loop F B (t + of_int (run_stage_time F)) 0 0 published)))"

section \<open>Cleanup and teardown\<close>

definition DoCleanupPhase :: "run_flags \<Rightarrow> 'w ops \<Rightarrow> ('w, unit) run" where
  "DoCleanupPhase F B = seqM [
     whenM (before_cleanup_pause F) (on_ext (read_input B ''Hit enter to begin Cleanup.'')),
     before B ''cleanup'',
     bindM (get_run (\<lambda>w. always_call_cleanup B \<or> has_static_vm_or_dpb B (ext w))) (\<lambda>b.
       whenM b (thenM (call (''StopBackgroundWorkload'', []) (StopBackgroundWorkload B))
         (Measure at_detailed ''Benchmark Cleanup''
            (call (''BenchmarkCleanup'', []) (BenchmarkCleanup B))))),
     after B ''cleanup'']"

definition DoTeardownPhase :: "run_flags \<Rightarrow> 'w ops \<Rightarrow> ('w, unit) run" where
  "DoTeardownPhase F B = seqM [
     before B ''teardown'',
     Measure at_detailed ''Resource Teardown'' (call (''Delete'', []) (SpecDelete B)),
     whenM (measure_delete F) (bindM (on_ext (MeasureDelete B)) (\<lambda>ss. collect B ss)),
     after B ''teardown'']"

section \<open>What the phases leave alone\<close>

text \<open>The loop of the run phase keeps what every pass keeps.\<close>

lemma run_loop_keeps:
  assumes pass: "\<And>d n k p. keeps I (run_pass F B d n k p)"
  shows "keeps I (run_loop F B d n k p)"
proof (rule keepsI, rule wpI)
  have main: "I m \<longrightarrow> I (snd rm)" if "run_loop F B d n k p m = Some rm" for m rm
  proof (rule run_loop.raw_induct [where P = "\<lambda>F' B' d n k p m rm. F' = F \<and> B' = B \<longrightarrow> I m \<longrightarrow> I (snd rm)",
        OF _ that, THEN mp, OF _ conjI [OF refl refl]], intro impI)
    fix loop F' B' d n k p m rm
    assume IH: "\<And>F' B' d n k p m rm. loop F' B' d n k p m = Some rm \<Longrightarrow>
        F' = F \<and> B' = B \<longrightarrow> I m \<longrightarrow> I (snd rm)"
      and eq: "(case run_pass F' B' d n k p m of None \<Rightarrow> None
        | Some rm \<Rightarrow> (case fst rm of Inl e \<Rightarrow> Some (Inl e, snd rm)
          | Inr p \<Rightarrow> if fst p then Some (Inr (), snd rm)
              else loop F' B' d (n + 1) (fst (snd p)) (snd (snd p)) (snd rm))) = Some rm"
      and same: "F' = F \<and> B' = B" and m: "I m"
    obtain r m1 where 1: "run_pass F' B' d n k p m = Some (r, m1)"
      using eq by (auto split: option.splits)
    have m1: "I m1"
      using wp_outcome [OF keepsD [OF pass m]] 1 same by blast
    show "I (snd rm)"
      using eq 1 m1 IH same by (auto split: sum.splits if_splits)
  qed
  fix m
  assume m: "I m"
  show "I m'" if "run_loop F B d n k p m = Some (Inl e, m')" for e m' using main [OF that] m by simp
  show "I m'" if "run_loop F B d n k p m = Some (Inr u, m')" for u m' using main [OF that] m by simp
qed

text \<open>
  A predicate on the state of a run that does not look at the collector, the timers and \<open>ext\<close>,
  and that noting a call does not break, unless it is a call of \<open>Delete\<close> that is not allowed
  (\<open>D\<close>) or the beginning of a stage that is not (\<open>S\<close>).
\<close>

locale run_frame =
  fixes D :: bool and S :: "string \<Rightarrow> bool" and J :: "'w run_world \<Rightarrow> bool"
  assumes J_collector: "J w \<Longrightarrow> J (w\<lparr>run_collector := c\<rparr>)"
    and J_detailed: "J w \<Longrightarrow> J (w\<lparr>detailed_timer := i\<rparr>)"
    and J_end_to_end: "J w \<Longrightarrow> J (w\<lparr>end_to_end_timer := i\<rparr>)"
    and J_ext: "J w \<Longrightarrow> J (w\<lparr>ext := x\<rparr>)"
    and J_call: "J w \<Longrightarrow> (fst n = ''Delete'' \<longrightarrow> D) \<Longrightarrow> (fst n = ''before_phase'' \<longrightarrow> S (snd n)) \<Longrightarrow>
      J (w\<lparr>calls := calls w @ [n]\<rparr>)"
begin

abbreviation holds :: "'w run_world mach \<Rightarrow> bool" where
  "holds m \<equiv> J (world m)"

lemma keeps_on_ext: "keeps holds (on_ext h)"
  by (rule keepsI) (auto simp: wp_def on_ext_def put_ext_def J_ext split: option.split sum.split)

lemma keeps_call:
  "(fst n = ''Delete'' \<longrightarrow> D) \<Longrightarrow> (fst n = ''before_phase'' \<longrightarrow> S (snd n)) \<Longrightarrow> keeps holds (call n h)"
  unfolding call_def set_run_def
  by (intro keeps_thenM keeps_on_ext keeps_modifyM) (simp add: J_call)

lemma keeps_clock: "keeps holds time_time" "keeps holds (time_sleep d)"
  by (rule keepsI, simp add: wp_def mach_ops)+

lemma keeps_get_run: "keeps holds (get_run f)"
  by (simp add: get_run_def keeps_getM)

lemma keeps_new_sample: "keeps holds (new_sample a b c d e)"
  unfolding new_sample_def by (cases e) (auto intro!: keeps_intros keeps_clock)

lemma keeps_over_detailed: "keeps holds (modifyM (over at_detailed f))"
  by (rule keeps_modifyM) (simp add: at_detailed_def J_detailed)

lemma keeps_over_end_to_end: "keeps holds (modifyM (over at_end_to_end f))"
  by (rule keeps_modifyM) (simp add: at_end_to_end_def J_end_to_end)

lemma keeps_over_collector: "keeps holds (modifyM (over at_collector f))"
  by (rule keeps_modifyM) (simp add: at_collector_def J_collector)

lemma keeps_Measure_detailed: "keeps holds f \<Longrightarrow> keeps holds (Measure at_detailed n f)"
  unfolding Measure_def by (intro keeps_intros keeps_clock keeps_over_detailed)

lemma keeps_Measure_end_to_end: "keeps holds f \<Longrightarrow> keeps holds (Measure at_end_to_end n f)"
  unfolding Measure_def by (intro keeps_intros keeps_clock keeps_over_end_to_end)

lemma keeps_add_metadata:
  "(\<And>p md. p \<in> set ps \<Longrightarrow> keeps holds (p md)) \<Longrightarrow> keeps holds (add_metadata ps md)"
  by (induction ps md rule: add_metadata.induct) (auto intro!: keeps_intros)

lemma keeps_collect: "keeps holds (collect B ss)"
  unfolding collect_def AddSamples_def annotate_def run_env_def
  by (auto intro!: keeps_intros keeps_add_metadata keeps_over_collector keeps_on_ext)

lemma keeps_publish_all: "keeps holds (publish_all B)"
  unfolding publish_all_def PublishSamples_def run_env_def Let_def
  by (auto intro!: keeps_intros keeps_over_collector keeps_on_ext)

lemma keeps_before: "S stage \<Longrightarrow> keeps holds (before B stage)"
  unfolding before_def by (rule keeps_call) simp_all

lemma keeps_after: "keeps holds (after B stage)"
  unfolding after_def by (rule keeps_call) simp_all

lemmas frame_intros = keeps_intros keeps_on_ext keeps_call keeps_clock keeps_get_run
  keeps_new_sample keeps_Measure_detailed keeps_collect keeps_publish_all keeps_before keeps_after

lemma keeps_BenchmarkPrepareAll: "keeps holds (BenchmarkPrepareAll B)"
  unfolding BenchmarkPrepareAll_def opt_call_def
  by (auto intro!: frame_intros split: option.split)

lemma keeps_run_iteration: "keeps holds (run_iteration F B d n k p)"
  unfolding run_iteration_def run_attempt_def run_samples_def maybe_publish_def IsRunStageFinished_def
    Let_def
  by (auto intro!: frame_intros split: option.split)

lemma keeps_run_pass: "S ''run'' \<Longrightarrow> keeps holds (run_pass F B d n k p)"
  unfolding run_pass_def by (intro keeps_thenM keeps_before keeps_run_iteration)

lemma keeps_run_loop: "S ''run'' \<Longrightarrow> keeps holds (run_loop F B d n k p)"
  by (intro run_loop_keeps keeps_run_pass)

lemma keeps_DoProvisionPhase: "S ''provision'' \<Longrightarrow> keeps holds (DoProvisionPhase B)"
  unfolding DoProvisionPhase_def by (auto intro!: frame_intros)

lemma keeps_DoPreparePhase: "S ''prepare'' \<Longrightarrow> keeps holds (DoPreparePhase F B)"
  unfolding DoPreparePhase_def by (auto intro!: frame_intros keeps_BenchmarkPrepareAll)

lemma keeps_part_phase:
  "S stage \<Longrightarrow> fn \<noteq> ''Delete'' \<Longrightarrow> fn \<noteq> ''before_phase'' \<Longrightarrow> keeps holds (part_phase B stage n fn msg f)"
  unfolding part_phase_def by (auto intro!: frame_intros)

lemma keeps_DoPrepareSystemPhase: "S ''prepare_system'' \<Longrightarrow> keeps holds (DoPrepareSystemPhase B)"
  unfolding DoPrepareSystemPhase_def by (rule keeps_part_phase) simp_all

lemma keeps_DoInstallPackagesPhase: "S ''install_packages'' \<Longrightarrow> keeps holds (DoInstallPackagesPhase B)"
  unfolding DoInstallPackagesPhase_def by (rule keeps_part_phase) simp_all

lemma keeps_DoStartServicesPhase: "S ''start_services'' \<Longrightarrow> keeps holds (DoStartServicesPhase B)"
  unfolding DoStartServicesPhase_def by (rule keeps_part_phase) simp_all

lemma keeps_DoRunPhase: "S ''run'' \<Longrightarrow> keeps holds (DoRunPhase F B)"
  unfolding DoRunPhase_def by (auto intro!: frame_intros keeps_run_loop)

lemma keeps_DoCleanupPhase: "S ''cleanup'' \<Longrightarrow> keeps holds (DoCleanupPhase F B)"
  unfolding DoCleanupPhase_def by (auto intro!: frame_intros)

lemma keeps_DoTeardownPhase: "S ''teardown'' \<Longrightarrow> D \<Longrightarrow> keeps holds (DoTeardownPhase F B)"
  unfolding DoTeardownPhase_def by (auto intro!: frame_intros)

end

text \<open>The number of calls of a name, and the stages begun, up to repetition.\<close>

definition begun :: "'w run_world \<Rightarrow> string list" where
  "begun w = map snd (filter (\<lambda>n. fst n = ''before_phase'') (calls w))"

interpretation no_delete: run_frame False "\<lambda>_. True" "\<lambda>w. (''Delete'', []) \<notin> set (calls w)"
  by unfold_locales auto

interpretation delete_stays: run_frame True "\<lambda>_. True" "\<lambda>w. (''Delete'', []) \<in> set (calls w)"
  by unfold_locales auto

interpretation locals_kept: run_frame True "\<lambda>_. True"
  "\<lambda>w. status w = st \<and> should_teardown w = t \<and> lost_checkers w = n \<and> interrupt_checker w = c"
  for st t n c
  by unfold_locales auto

text \<open>The stage has been begun, once or several times in a row.\<close>

definition has_begun :: "string list \<Rightarrow> string \<Rightarrow> 'w run_world \<Rightarrow> bool" where
  "has_begun old stage w = (\<exists>k. begun w = old @ replicate (Suc k) stage)"

interpretation begins: run_frame True "\<lambda>s. s = stage" "has_begun old stage" for stage old
proof unfold_locales
  fix w :: "'w run_world" and n
  assume old: "has_begun old stage w"
    and n: "fst n = ''before_phase'' \<longrightarrow> snd n = stage"
  obtain k where k: "begun w = old @ replicate (Suc k) stage" using old has_begun_def by blast
  show "has_begun old stage (w\<lparr>calls := calls w @ [n]\<rparr>)"
  proof (cases "fst n = ''before_phase''")
    case True
    with k n have "begun (w\<lparr>calls := calls w @ [n]\<rparr>) = old @ replicate (Suc (Suc k)) stage"
      by (simp add: begun_def replicate_append_same)
    then show ?thesis unfolding has_begun_def by blast
  qed (use k in \<open>auto simp: begun_def has_begun_def\<close>)
qed (auto simp: begun_def has_begun_def)

end
