(* ===== verification/Runner.thy ===== *)
theory Runner
  imports Phases
begin

text \<open>
  \<open>RunBenchmark\<close> of \<open>perfkitbenchmarker/pkb.py\<close>: one run of one benchmark through the stages
  selected by --run_stage, with its error path and its \<open>finally\<close> block, and
  \<open>PublishFailedRunSample\<close>.
\<close>

section \<open>Interrupt checkers\<close>

text \<open>
  Assigning to the local variable drops the checker it held; a checker whose event is not set
  has threads that go on.
\<close>

definition assign_checker :: "bool option \<Rightarrow> ('w, unit) run" where
  "assign_checker c = set_run (\<lambda>w. w\<lparr>interrupt_checker := c,
     lost_checkers := lost_checkers w + (if interrupt_checker w = Some False then 1 else 0)\<rparr>)"

definition new_InterruptChecker :: "('w, unit) run" where
  "new_InterruptChecker = assign_checker (Some False)"

definition EndCheckInterruptThread :: "'w ops \<Rightarrow> ('w, unit) run" where
  "EndCheckInterruptThread B = thenM (set_run (\<lambda>w. w\<lparr>interrupt_checker := Some True\<rparr>))
     (call (''join'', []) (join_checks B))"

definition interrupted :: "'w ops \<Rightarrow> 'w \<Rightarrow> bool" where
  "interrupted B w = list_ex (\<lambda>v. IsInterruptible B v w \<and> WasInterrupted B v w) (vms B w)"

definition EndCheckInterruptThreadAndRaiseError :: "'w ops \<Rightarrow> ('w, unit) run" where
  "EndCheckInterruptThreadAndRaiseError B = thenM (EndCheckInterruptThread B)
     (bindM (get_run (\<lambda>w. interrupted B (ext w))) (\<lambda>b.
       whenM b (raise (exn (Benchmarks InsufficientCapacityCloudFailure) ''Interrupt''))))"

definition checked :: "'w ops \<Rightarrow> ('w, unit) run \<Rightarrow> ('w, unit) run" where
  "checked B phase = seqM [new_InterruptChecker, phase, EndCheckInterruptThreadAndRaiseError B,
     assign_checker None]"

section \<open>Failed runs\<close>

definition event_sample ::
  "'w ops \<Rightarrow> string \<Rightarrow> metadata_dict \<Rightarrow> ('w, unit) run" where
  "event_sample B event md =
     bindM time_time (\<lambda>t.
     bindM (new_sample event (Some t) ''seconds'' (Some md) None) (\<lambda>s.
     thenM (collect B [s]) (publish_all B)))"

definition vm_status_codes :: "'w ops \<Rightarrow> 'w \<Rightarrow> string list" where
  "vm_status_codes B w = concat (map (\<lambda>v.
     if IsInterruptible B v w \<and> WasInterrupted B v w
     then (case GetVmStatusCode B v w of None \<Rightarrow> [] | Some c \<Rightarrow> if c = [] then [] else [c])
     else []) (vms B w))"

definition interruptible_vm_count :: "'w ops \<Rightarrow> 'w \<Rightarrow> nat" where
  "interruptible_vm_count B w = length (filter (\<lambda>v. IsInterruptible B v w) (vms B w))"

definition interrupted_vm_count :: "'w ops \<Rightarrow> 'w \<Rightarrow> nat" where
  "interrupted_vm_count B w =
     length (filter (\<lambda>v. IsInterruptible B v w \<and> WasInterrupted B v w) (vms B w))"

definition failed_run_metadata ::
  "run_flags \<Rightarrow> 'w ops \<Rightarrow> string \<Rightarrow> string \<Rightarrow> string \<Rightarrow> 'w run_world \<Rightarrow> metadata_dict" where
  "failed_run_metadata F B message stage operation_names w =
     (let md = [(''error_message'', VStr (take (failed_run_samples_error_length F) message)),
                (''run_stage'', VStr stage), (''flags'', VStr (provided_flags F))];
          md = (if operation_names = [] then md
                else dict_set md ''vm_create_operation_names'' (VStr operation_names));
          md = (case failed_substatus w of None \<Rightarrow> md
                | Some s \<Rightarrow> dict_set md ''failed_substatus'' (VStr (substatus_value s)))
      in if interruptible_vm_count B (ext w) = 0 then md
         else dict_update md
           [(''interruptible_vms'', VInt (int (interruptible_vm_count B (ext w)))),
            (''interrupted_vms'', VInt (int (interrupted_vm_count B (ext w)))),
            (''vm_status_codes'', VList (map VStr (vm_status_codes B (ext w))))])"

definition operation_names :: "'w ops \<Rightarrow> 'w \<Rightarrow> string" where
  "operation_names B w = str_join '',''
     (filter (\<lambda>n. n \<noteq> []) (map (\<lambda>v. create_operation_name B v w) (vms B w)))"

definition PublishFailedRunSample ::
  "run_flags \<Rightarrow> 'w ops \<Rightarrow> string \<Rightarrow> string \<Rightarrow> ('w, unit) run" where
  "PublishFailedRunSample F B message stage =
     bindM (get_run (\<lambda>w. operation_names B (ext w))) (\<lambda>names. seqM [
       call (''UpdateInterruptibleVmStatus'', []) (UpdateInterruptibleVmStatus B),
       set_run (\<lambda>w. if interrupted_vm_count B (ext w) = 0 then w
                    else w\<lparr>failed_substatus := Some INTERRUPTED\<rparr>),
       bindM (get_run (failed_run_metadata F B message stage names)) (event_sample B ''Run Failed'')])"

section \<open>Running one benchmark\<close>

definition stage_step ::
  "run_flags \<Rightarrow> string \<Rightarrow> ('w, unit) run \<Rightarrow> ('w, unit) run" where
  "stage_step F stage step =
     whenM (stage \<in> set (run_stage F))
       (thenM (set_run (\<lambda>w. w\<lparr>current_run_stage := stage\<rparr>)) step)"

definition SetRestoreSpec :: "run_flags \<Rightarrow> 'w ops \<Rightarrow> ('w, unit) run" where
  "SetRestoreSpec F B = (case restore_path F of None \<Rightarrow> ret ()
     | Some p \<Rightarrow> whenM (p \<noteq> []) (bindM (on_ext (load_restore_spec B p)) (\<lambda>s.
         set_run (\<lambda>w. w\<lparr>restore_spec := Some s\<rparr>))))"

definition SetFreezePath :: "run_flags \<Rightarrow> ('w, unit) run" where
  "SetFreezePath F = (case flag_freeze_path F of None \<Rightarrow> ret ()
     | Some p \<Rightarrow> whenM (p \<noteq> []) (set_run (\<lambda>w. w\<lparr>freeze_path := Some p\<rparr>)))"

definition CaptureVMLogs :: "run_flags \<Rightarrow> 'w ops \<Rightarrow> ('w, unit) run" where
  "CaptureVMLogs F B = whenM (capture_vm_logs F)
     (bindM (get_run (\<lambda>w. vms B (ext w))) (\<lambda>vs.
       forM vs (\<lambda>v. call (''GenerateAndCaptureLogs'', []) (GenerateAndCaptureLogs B v))))"

text \<open>The calls of \<open>GetNumTeardownSkippedVms\<close>, up to the first VM over the limit.\<close>

fun ask_lingering :: "'w ops \<Rightarrow> nat \<Rightarrow> int \<Rightarrow> nat list \<Rightarrow> ('w, int option list) run" where
  "ask_lingering B n limit [] = ret []"
| "ask_lingering B n limit (v # vs) =
     bindM (on_ext (GetNumTeardownSkippedVms B v)) (\<lambda>x.
       if exceeds n limit x then ret [x]
       else bindM (ask_lingering B n limit vs) (\<lambda>xs. ret (x # xs)))"

definition decide_teardown :: "run_flags \<Rightarrow> 'w ops \<Rightarrow> ('w, bool) run" where
  "decide_teardown F B =
     (case ParseSkipTeardownConditions (skip_teardown_conditions F) of
        Inl e \<Rightarrow> raise e
      | Inr conditions \<Rightarrow>
          bindM (get_run (\<lambda>w. all_samples (run_collector w))) (\<lambda>ss.
          bindM (get_run (\<lambda>w. vms B (ext w))) (\<lambda>vs.
          bindM (case skip_teardown_zonal_vm_limit F of
                   Some limit \<Rightarrow>
                     if limit = 0 \<or> (conditions = [] \<and> \<not> skip_teardown_on_command_timeout F)
                        \<or> (skip_teardown_on_command_timeout F \<and> list_ex timed_out ss)
                     then ret []
                     else ask_lingering B (length vs) limit vs
                 | None \<Rightarrow> ret [])
            (\<lambda>lingering.
          ret (ShouldTeardown conditions ss (length vs) lingering (skip_teardown_zonal_vm_limit F)
            (skip_teardown_on_command_timeout F))))))"

definition teardown_stage :: "run_flags \<Rightarrow> 'w ops \<Rightarrow> ('w, unit) run" where
  "teardown_stage F B =
     whenM (''teardown'' \<in> set (run_stage F))
       (thenM (CaptureVMLogs F B)
       (bindM (decide_teardown F B) (\<lambda>b.
        thenM (set_run (\<lambda>w. w\<lparr>should_teardown := b\<rparr>))
          (if b then thenM (set_run (\<lambda>w. w\<lparr>current_run_stage := ''teardown''\<rparr>)) (DoTeardownPhase F B)
           else bindM (get_run (\<lambda>w. vms B (ext w))) (\<lambda>vs.
             forM vs (\<lambda>v. call (''UpdateTimeoutMetadata'', []) (UpdateTimeoutMetadata B v)))))))"

definition all_stages :: "run_flags \<Rightarrow> 'w ops \<Rightarrow> ('w, unit) run" where
  "all_stages F B = seqM [
     SetRestoreSpec F B,
     SetFreezePath F,
     whenM (''provision'' \<in> set (run_stage F)) (DoProvisionPhase B),
     stage_step F ''prepare'' (checked B (DoPreparePhase F B)),
     stage_step F ''prepare_system'' (DoPrepareSystemPhase B),
     stage_step F ''install_packages'' (DoInstallPackagesPhase B),
     stage_step F ''start_services'' (DoStartServicesPhase B),
     stage_step F ''run'' (checked B (DoRunPhase F B)),
     stage_step F ''cleanup'' (checked B (DoCleanupPhase F B)),
     teardown_stage F B]"

definition final_samples :: "run_flags \<Rightarrow> 'w ops \<Rightarrow> ('w, unit) run" where
  "final_samples F B = seqM [
     whenM (run_stage F = STAGES \<and> EndToEndRuntimeMeasurementEnabled (timing_measurements F))
       (bindM (GenerateSamples at_end_to_end (timing_measurements F)) (collect B)),
     whenM (RuntimeMeasurementsEnabled (timing_measurements F))
       (bindM (GenerateSamples at_detailed (timing_measurements F)) (collect B)),
     bindM (on_ext (SpecGetSamples B)) (collect B)]"

text \<open>\<open>except (Exception, KeyboardInterrupt) as e\<close>\<close>

definition on_failure :: "run_flags \<Rightarrow> 'w ops \<Rightarrow> exn \<Rightarrow> ('w, unit) run" where
  "on_failure F B e =
     (if is_exception e \<or> is_interrupt e then seqM [
        set_run (\<lambda>w. w\<lparr>failed_substatus := Some (GetBenchmarkStatusFromException (error_classes B) e),
                       status_detail := Some (str_of e)\<rparr>),
        whenM (create_failed_run_samples F)
          (bindM (get_run current_run_stage) (PublishFailedRunSample F B (str_of e))),
        whenM (''cleanup'' \<in> set (run_stage F) \<and> always_call_cleanup B) (DoCleanupPhase F B),
        whenM (always_teardown_on_exception F \<and> ''teardown'' \<notin> set (run_stage F))
          (DoTeardownPhase F B),
        CaptureVMLogs F B,
        raise e]
      else raise e)"

definition finish_run :: "run_flags \<Rightarrow> 'w ops \<Rightarrow> ('w, unit) run" where
  "finish_run F B = seqM [
     bindM (get_run interrupt_checker) (\<lambda>c. whenM (c \<noteq> None) (EndCheckInterruptThread B)),
     bindM (get_run should_teardown) (\<lambda>b.
       whenM (''teardown'' \<in> set (run_stage F) \<and> b) (call (''Delete'', []) (SpecDelete B))),
     whenM (publish_after_run F) (publish_all B),
     call (''benchmark_end'', []) (benchmark_end B),
     call (''Pickle'', []) (Pickle B)]"

fun any_check :: "('w, bool) act list \<Rightarrow> ('w, bool) run" where
  "any_check [] = ret False"
| "any_check (f # fs) = bindM (on_ext f) (\<lambda>b. if b then ret True else any_check fs)"

definition run_body :: "run_flags \<Rightarrow> 'w ops \<Rightarrow> ('w, unit) run" where
  "run_body F B = finallyM
     (catchM (thenM (Measure at_end_to_end ''End to End'' (all_stages F B)) (final_samples F B))
       (on_failure F B))
     (finish_run F B)"

definition RunBenchmark :: "run_flags \<Rightarrow> 'w ops \<Rightarrow> ('w, unit) run" where
  "RunBenchmark F B =
     bindM (any_check (skip_pending_checks B)) (\<lambda>skip.
       if skip then ret ()
       else seqM [
         set_run (\<lambda>w. w\<lparr>status := ''FAILED'', current_run_stage := ''provision'',
           should_teardown := True\<rparr>),
         call (''register_tracers'', []) (register_tracers B),
         set_run (\<lambda>w. w\<lparr>end_to_end_timer := [], detailed_timer := [], interrupt_checker := None\<rparr>),
         run_body F B,
         set_run (\<lambda>w. w\<lparr>status := ''SUCCEEDED''\<rparr>)])"

text \<open>The stages before teardown.\<close>

definition early_stages :: "run_flags \<Rightarrow> 'w ops \<Rightarrow> ('w, unit) run list" where
  "early_stages F B = [
     SetRestoreSpec F B,
     SetFreezePath F,
     whenM (''provision'' \<in> set (run_stage F)) (DoProvisionPhase B),
     stage_step F ''prepare'' (checked B (DoPreparePhase F B)),
     stage_step F ''prepare_system'' (DoPrepareSystemPhase B),
     stage_step F ''install_packages'' (DoInstallPackagesPhase B),
     stage_step F ''start_services'' (DoStartServicesPhase B),
     stage_step F ''run'' (checked B (DoRunPhase F B)),
     stage_step F ''cleanup'' (checked B (DoCleanupPhase F B))]"

lemma all_stages_early: "all_stages F B = seqM (early_stages F B @ [teardown_stage F B])"
  by (simp add: all_stages_def early_stages_def)

section \<open>What a run leaves alone\<close>

text \<open>Predicates that do not look at the other attributes of the spec and at the checker.\<close>

locale runner_frame = run_frame +
  assumes J_failed: "J w \<Longrightarrow> J (w\<lparr>failed_substatus := a\<rparr>)" "J w \<Longrightarrow> J (w\<lparr>status_detail := b\<rparr>)"
    and J_paths: "J w \<Longrightarrow> J (w\<lparr>restore_spec := r\<rparr>)" "J w \<Longrightarrow> J (w\<lparr>freeze_path := p\<rparr>)"
    and J_stage: "J w \<Longrightarrow> J (w\<lparr>current_run_stage := s\<rparr>)"
    and J_checker: "J w \<Longrightarrow> J (w\<lparr>interrupt_checker := c, lost_checkers := l\<rparr>)"
begin

lemma keeps_set_run: "(\<And>w. J w \<Longrightarrow> J (f w)) \<Longrightarrow> keeps holds (set_run f)"
  unfolding set_run_def by (rule keeps_modifyM) simp

lemma keeps_assign_checker: "keeps holds (assign_checker c)"
  unfolding assign_checker_def by (rule keeps_set_run) (rule J_checker)

lemma keeps_EndCheckInterruptThread: "keeps holds (EndCheckInterruptThread B)"
proof -
  have "J w \<Longrightarrow> J (w\<lparr>interrupt_checker := Some True\<rparr>)" for w
    using J_checker [where w = w and c = "Some True" and l = "lost_checkers w"] by simp
  then show ?thesis
    unfolding EndCheckInterruptThread_def
    by (auto intro!: frame_intros keeps_set_run)
qed

lemma keeps_checked: "keeps holds f \<Longrightarrow> keeps holds (checked B f)"
  unfolding checked_def EndCheckInterruptThreadAndRaiseError_def new_InterruptChecker_def
  by (auto intro!: frame_intros keeps_assign_checker keeps_EndCheckInterruptThread)

lemma keeps_event_sample: "keeps holds (event_sample B event md)"
  unfolding event_sample_def by (intro frame_intros)

lemma keeps_PublishFailedRunSample: "keeps holds (PublishFailedRunSample F B msg stage)"
  unfolding PublishFailedRunSample_def
  by (auto intro!: frame_intros keeps_set_run keeps_event_sample simp: J_failed)

lemma keeps_SetRestoreSpec: "keeps holds (SetRestoreSpec F B)"
  unfolding SetRestoreSpec_def by (auto intro!: frame_intros keeps_set_run simp: J_paths)

lemma keeps_SetFreezePath: "keeps holds (SetFreezePath F)"
  unfolding SetFreezePath_def by (auto intro!: frame_intros keeps_set_run simp: J_paths)

lemma keeps_CaptureVMLogs: "keeps holds (CaptureVMLogs F B)"
  unfolding CaptureVMLogs_def by (auto intro!: frame_intros)

lemma keeps_ask_lingering: "keeps holds (ask_lingering B n limit vs)"
  by (induction vs) (auto intro!: frame_intros)

lemma keeps_decide_teardown: "keeps holds (decide_teardown F B)"
  unfolding decide_teardown_def
  by (auto intro!: frame_intros keeps_ask_lingering split: sum.split option.split)

lemma keeps_stage_step: "keeps holds f \<Longrightarrow> keeps holds (stage_step F stage f)"
  unfolding stage_step_def by (auto intro!: frame_intros keeps_set_run simp: J_stage)

lemma keeps_GenerateSamples: "keeps holds (GenerateSamples L options)"
  unfolding GenerateSamples_def GenerateIntervalSamples_def by (auto intro!: frame_intros)

lemma keeps_final_samples: "keeps holds (final_samples F B)"
  unfolding final_samples_def by (auto intro!: frame_intros keeps_GenerateSamples)

lemma keeps_early_stages:
  assumes "\<And>s. S s"
  shows "list_all (keeps holds) (early_stages F B)"
  unfolding early_stages_def using assms
  by (simp add: keeps_SetRestoreSpec keeps_SetFreezePath keeps_stage_step keeps_checked keeps_whenM
      keeps_DoProvisionPhase keeps_DoPreparePhase keeps_DoPrepareSystemPhase
      keeps_DoInstallPackagesPhase keeps_DoStartServicesPhase keeps_DoRunPhase keeps_DoCleanupPhase)

lemma keeps_on_failure:
  assumes "\<And>s. S s" and "''teardown'' \<in> set (run_stage F) \<or> D"
  shows "keeps holds (on_failure F B e)"
  unfolding on_failure_def using assms
  by (cases "''teardown'' \<in> set (run_stage F)")
     (auto intro!: frame_intros keeps_set_run keeps_PublishFailedRunSample keeps_CaptureVMLogs
        keeps_DoCleanupPhase keeps_DoTeardownPhase simp: J_failed whenM_def)

end

interpretation status_kept: runner_frame True "\<lambda>_. True" "\<lambda>w. status w = st" for st
  by unfold_locales auto

interpretation teardown_flag_kept: runner_frame True "\<lambda>_. True" "\<lambda>w. should_teardown w"
  by unfold_locales auto

interpretation delete_unless_skipped: runner_frame False "\<lambda>_. True"
  "\<lambda>w. (''Delete'', []) \<in> set (calls w) \<longrightarrow> should_teardown w"
  by unfold_locales auto

interpretation deletes_iff: runner_frame False "\<lambda>_. True"
  "\<lambda>w. ((''Delete'', []) \<in> set (calls w)) = should_teardown w"
  by unfold_locales auto

interpretation undeleted: runner_frame False "\<lambda>_. True"
  "\<lambda>w. (''Delete'', []) \<notin> set (calls w) \<and> should_teardown w"
  by unfold_locales auto

interpretation begun_kept: runner_frame True "\<lambda>_. False" "\<lambda>w. begun w = b" for b
  by unfold_locales (auto simp: begun_def)

section \<open>Status\<close>

lemma status_all_stages: "keeps (\<lambda>m. status (world m) = st) (all_stages F B)"
proof -
  have "keeps (\<lambda>m. status (world m) = st) (teardown_stage F B)"
    unfolding teardown_stage_def
    by (auto intro!: status_kept.frame_intros status_kept.keeps_set_run
        status_kept.keeps_CaptureVMLogs status_kept.keeps_decide_teardown
        status_kept.keeps_DoTeardownPhase)
  with status_kept.keeps_early_stages show ?thesis
    unfolding all_stages_early by (auto intro!: keeps_seqM)
qed

lemma status_run_body: "keeps (\<lambda>m. status (world m) = st) (run_body F B)"
  unfolding run_body_def finish_run_def
  by (auto intro!: status_kept.frame_intros status_kept.keeps_Measure_end_to_end status_all_stages
      status_kept.keeps_final_samples status_kept.keeps_on_failure
      status_kept.keeps_EndCheckInterruptThread)

section \<open>Deletion\<close>

lemma wp_set_run_then: "wp (thenM (set_run f) g) Q E m = wp g Q E (m\<lparr>world := f (world m)\<rparr>)"
  by (simp add: set_run_def wp_thenM wp_modifyM)

lemma wp_seqM_single: "wp (seqM [f]) Q E m = wp f Q E m"
proof -
  have "(\<lambda>x. wp (ret ()) Q E) = Q" by (intro ext) (simp add: wp_ret)
  then show ?thesis by (simp add: wp_thenM)
qed

abbreviation deletes :: "'w run_world mach \<Rightarrow> bool" where
  "deletes m \<equiv> (''Delete'', []) \<in> set (calls (world m))"

abbreviation tears_down :: "'w run_world mach \<Rightarrow> bool" where
  "tears_down m \<equiv> should_teardown (world m)"

lemma teardown_stage_deletes:
  assumes "''teardown'' \<in> set (run_stage F)" and "\<not> deletes m \<and> tears_down m"
  shows "wp (teardown_stage F B) (\<lambda>_ m'. deletes m' \<longrightarrow> tears_down m')
    (\<lambda>_ m'. deletes m' \<longrightarrow> tears_down m') m"
proof -
  let ?J = "\<lambda>m. deletes m \<longrightarrow> tears_down m"
  have logs: "wp (CaptureVMLogs F B) (\<lambda>_ m. \<not> deletes m \<and> tears_down m) (\<lambda>_. ?J) m"
    by (rule wp_mono [OF keepsD [OF undeleted.keeps_CaptureVMLogs, OF assms(2)]]) simp_all
  have decide: "wp (decide_teardown F B) (\<lambda>_ m. \<not> deletes m \<and> tears_down m) (\<lambda>_. ?J) m"
    if "\<not> deletes m \<and> tears_down m" for m
    by (rule wp_mono [OF keepsD [OF undeleted.keeps_decide_teardown, OF that]]) simp_all
  have down: "wp (DoTeardownPhase F B) (\<lambda>_. ?J) (\<lambda>_. ?J) m" if "tears_down m" for m
  proof -
    have "keeps (\<lambda>m. should_teardown (world m)) (DoTeardownPhase F B)"
      by (rule teardown_flag_kept.keeps_DoTeardownPhase) simp_all
    from wp_mono [OF keepsD [OF this]] that show ?thesis by simp
  qed
  have skip: "wp (bindM (get_run (\<lambda>w. vms B (ext w))) (\<lambda>vs.
       forM vs (\<lambda>v. call (''UpdateTimeoutMetadata'', []) (UpdateTimeoutMetadata B v))))
      (\<lambda>_. ?J) (\<lambda>_. ?J) m" if "\<not> deletes m" for m
  proof -
    have "keeps (\<lambda>m. \<not> deletes m) (bindM (get_run (\<lambda>w. vms B (ext w))) (\<lambda>vs.
       forM vs (\<lambda>v. call (''UpdateTimeoutMetadata'', []) (UpdateTimeoutMetadata B v))))"
      by (auto intro!: no_delete.frame_intros)
    from wp_mono [OF keepsD [OF this, OF that]] show ?thesis by simp
  qed
  have "wp (bindM (decide_teardown F B) (\<lambda>b.
        thenM (set_run (\<lambda>w. w\<lparr>should_teardown := b\<rparr>))
          (if b then thenM (set_run (\<lambda>w. w\<lparr>current_run_stage := ''teardown''\<rparr>)) (DoTeardownPhase F B)
           else bindM (get_run (\<lambda>w. vms B (ext w))) (\<lambda>vs.
             forM vs (\<lambda>v. call (''UpdateTimeoutMetadata'', []) (UpdateTimeoutMetadata B v))))))
      (\<lambda>_. ?J) (\<lambda>_. ?J) m" if "\<not> deletes m \<and> tears_down m" for m
    unfolding wp_bindM [of "decide_teardown F B"]
    by (rule wp_mono [OF decide [OF that]])
       (auto simp: wp_set_run_then intro!: down skip)
  then show ?thesis
    unfolding teardown_stage_def using assms(1)
    by (simp add: whenM_def) (rule wp_thenM_step [OF logs], simp)
qed

lemma keeps_all: "list_all (keeps I) fs \<Longrightarrow> I m \<Longrightarrow> wp (seqM fs) (\<lambda>_. I) (\<lambda>_. I) m"
  by (rule keepsD [OF keeps_seqM])

lemma wp_seqM_append: "wp (seqM (fs @ gs)) Q E m = wp (seqM fs) (\<lambda>_. wp (seqM gs) Q E) E m"
proof (induction fs arbitrary: m)
  case (Cons f fs)
  have "wp (seqM (fs @ gs)) Q E = wp (seqM fs) (\<lambda>_. wp (seqM gs) Q E) E"
    using Cons by (intro ext) simp
  then show ?case by (simp add: wp_thenM)
qed (simp add: wp_ret)

lemma all_stages_deletes:
  assumes "''teardown'' \<in> set (run_stage F)" and "\<not> deletes m \<and> tears_down m"
  shows "wp (all_stages F B) (\<lambda>_ m'. deletes m' \<longrightarrow> tears_down m')
    (\<lambda>_ m'. deletes m' \<longrightarrow> tears_down m') m"
  unfolding all_stages_early wp_seqM_append
  by (rule wp_mono [OF keeps_all [OF undeleted.keeps_early_stages, OF TrueI assms(2)]])
     (simp only: wp_seqM_single, rule teardown_stage_deletes [OF assms(1)], simp, simp)

lemma wp_Measure_end_to_end:
  assumes "wp f (\<lambda>_ m. J (world m)) (\<lambda>_ m. J (world m)) m1"
    and "m1 = retick m (now m + lags m 0) (\<lambda>i. lags m (Suc i)) (draws m)"
    and "\<And>w i. J w \<Longrightarrow> J (w\<lparr>end_to_end_timer := i\<rparr>)"
  shows "wp (Measure at_end_to_end n f) (\<lambda>_ m. J (world m)) (\<lambda>_ m. J (world m)) m"
  unfolding Measure_def wp_bindM
  using assms(1,2)
  by (simp add: wp_def [of time_time] time_time_eq Let_def)
     (erule wp_mono, auto simp: wp_def time_time_eq Let_def thenM_def bindM_def modifyM_def ret_def
        at_end_to_end_def intro: assms(3))

lemma run_body_deletes:
  assumes teardown: "''teardown'' \<in> set (run_stage F)" and m: "\<not> deletes m \<and> tears_down m"
    and join: "\<And>k. \<exists>k'. join_checks B k = Some (Inr (), k')"
  shows "wp (run_body F B) (\<lambda>_ m'. deletes m' = tears_down m') (\<lambda>_ m'. deletes m' = tears_down m') m"
proof -
  let ?J = "\<lambda>m. deletes m \<longrightarrow> tears_down m" and ?K = "\<lambda>m. deletes m = tears_down m"
  have "wp (Measure at_end_to_end ''End to End'' (all_stages F B)) (\<lambda>_. ?J) (\<lambda>_. ?J) m"
    by (rule wp_Measure_end_to_end [where J = "\<lambda>w. (''Delete'', []) \<in> set (calls w) \<longrightarrow> should_teardown w",
          OF all_stages_deletes [OF teardown]]) (use m in auto)
  then have body: "wp (catchM (thenM (Measure at_end_to_end ''End to End'' (all_stages F B))
      (final_samples F B)) (on_failure F B)) (\<lambda>_. ?J) (\<lambda>_. ?J) m"
    unfolding wp_catchM wp_thenM
    by (rule wp_mono)
       (auto intro!: wp_mono [OF keepsD [OF delete_unless_skipped.keeps_final_samples]]
          keepsD [OF delete_unless_skipped.keeps_on_failure] simp: teardown)
  have check: "wp (bindM (get_run interrupt_checker) (\<lambda>c. whenM (c \<noteq> None) (EndCheckInterruptThread B)))
      (\<lambda>_. ?J) (\<lambda>_. ?K) m" if "?J m" for m
  proof (cases "interrupt_checker (world m) = None")
    case True
    with that show ?thesis by (simp add: wp_bindM get_run_def wp_getM wp_whenM)
  next
    case False
    have "wp (EndCheckInterruptThread B) (\<lambda>_. ?J) (\<lambda>_ _. False) m"
    proof -
      let ?m = "m\<lparr>world := (world m)\<lparr>interrupt_checker := Some True,
        calls := calls (world m) @ [(''join'', [])]\<rparr>\<rparr>"
      obtain k where "join_checks B (ext_mach ?m) = Some (Inr (), k)" using join by blast
      then show ?thesis
        using that by (auto simp: wp_def EndCheckInterruptThread_def call_def set_run_def on_ext_def
            put_ext_def py_defs)
    qed
    then have "wp (EndCheckInterruptThread B) (\<lambda>_. ?J) (\<lambda>_. ?K) m" by (rule wp_mono) simp_all
    with False show ?thesis by (simp add: wp_bindM get_run_def wp_getM wp_whenM)
  qed
  have delete: "wp (bindM (get_run should_teardown) (\<lambda>b.
       whenM (''teardown'' \<in> set (run_stage F) \<and> b) (call (''Delete'', []) (SpecDelete B))))
      (\<lambda>_. ?K) (\<lambda>_. ?K) m" if "?J m" for m
    using that teardown
    by (auto simp: wp_def get_run_def call_def set_run_def on_ext_def put_ext_def py_defs
        split: option.split sum.split)
  have rest: "keeps ?K (seqM [whenM (publish_after_run F) (publish_all B),
     call (''benchmark_end'', []) (benchmark_end B), call (''Pickle'', []) (Pickle B)])"
    by (auto intro!: deletes_iff.frame_intros)
  have finish: "wp (finish_run F B) (\<lambda>_. ?K) (\<lambda>_. ?K) m" if "?J m" for m
    unfolding finish_run_def
    by (rule wp_seqM_step [OF check [OF that]], rule wp_seqM_step [OF delete], assumption,
        rule keepsD [OF rest], assumption)
  show ?thesis
    unfolding run_body_def wp_finallyM
    by (rule wp_mono [OF body]) (rule wp_mono [OF finish]; simp)+
qed

lemma wp_conj:
  "wp f Q E s \<Longrightarrow> wp f Q' E' s \<Longrightarrow> wp f (\<lambda>x t. Q x t \<and> Q' x t) (\<lambda>e t. E e t \<and> E' e t) s"
  by (auto simp: wp_def split: option.split sum.split)

text \<open>Without conditions teardown is never skipped.\<close>

lemma decide_without_conditions:
  assumes "skip_teardown_conditions F = []" and "\<not> skip_teardown_on_command_timeout F"
    and that: "tears_down m"
  shows "wp (decide_teardown F B) (\<lambda>b m'. b \<and> tears_down m') (\<lambda>_. tears_down) m"
proof -
  have "wp (decide_teardown F B) (\<lambda>b m'. tears_down m') (\<lambda>_. tears_down) m"
    using keepsD [OF teardown_flag_kept.keeps_decide_teardown [of F B]] that by simp
  moreover have "wp (decide_teardown F B) (\<lambda>b m'. b) (\<lambda>_ _. True) m"
    using assms
    by (simp add: decide_teardown_def ParseSkipTeardownConditions_def wp_bindM get_run_def wp_getM
        ShouldTeardown_def wp_ret wpI split: option.split)
  ultimately show ?thesis by (rule wp_mono [OF wp_conj]) simp_all
qed

lemma tears_down_run_body:
  assumes "skip_teardown_conditions F = []" and "\<not> skip_teardown_on_command_timeout F"
  shows "keeps (\<lambda>m. should_teardown (world m)) (run_body F B)"
proof -
  let ?I = "\<lambda>m. should_teardown (world m)"
  note kept = teardown_flag_kept.frame_intros teardown_flag_kept.keeps_set_run
    teardown_flag_kept.keeps_DoTeardownPhase teardown_flag_kept.keeps_CaptureVMLogs
  have "keeps ?I (bindM (decide_teardown F B) (\<lambda>b.
        thenM (set_run (\<lambda>w. w\<lparr>should_teardown := b\<rparr>))
          (if b then thenM (set_run (\<lambda>w. w\<lparr>current_run_stage := ''teardown''\<rparr>)) (DoTeardownPhase F B)
           else bindM (get_run (\<lambda>w. vms B (ext w))) (\<lambda>vs.
             forM vs (\<lambda>v. call (''UpdateTimeoutMetadata'', []) (UpdateTimeoutMetadata B v))))))"
  proof (rule keepsI)
    fix m :: "'a run_world mach"
    assume "should_teardown (world m)"
    then have m: "tears_down m" by simp
    have down: "keeps ?I (DoTeardownPhase F B)"
      by (rule teardown_flag_kept.keeps_DoTeardownPhase) simp_all
    show "wp (bindM (decide_teardown F B) (\<lambda>b.
        thenM (set_run (\<lambda>w. w\<lparr>should_teardown := b\<rparr>))
          (if b then thenM (set_run (\<lambda>w. w\<lparr>current_run_stage := ''teardown''\<rparr>)) (DoTeardownPhase F B)
           else bindM (get_run (\<lambda>w. vms B (ext w))) (\<lambda>vs.
             forM vs (\<lambda>v. call (''UpdateTimeoutMetadata'', []) (UpdateTimeoutMetadata B v))))))
        (\<lambda>_. ?I) (\<lambda>_. ?I) m"
      unfolding wp_bindM [of "decide_teardown F B"]
      by (rule wp_mono [OF decide_without_conditions [OF assms m]])
         (auto simp: wp_set_run_then intro!: keepsD [OF down])
  qed
  then have "keeps ?I (teardown_stage F B)"
    unfolding teardown_stage_def
    by (rule keeps_whenM [OF keeps_thenM [OF teardown_flag_kept.keeps_CaptureVMLogs]])
  then have "keeps ?I (all_stages F B)"
    unfolding all_stages_early using teardown_flag_kept.keeps_early_stages [OF TrueI, of F B]
    by (intro keeps_seqM) simp_all
  then show ?thesis
    unfolding run_body_def finish_run_def
    by (intro kept keeps_finallyM keeps_catchM teardown_flag_kept.keeps_Measure_end_to_end
        teardown_flag_kept.keeps_final_samples teardown_flag_kept.keeps_on_failure)
       (auto intro!: kept teardown_flag_kept.keeps_EndCheckInterruptThread)
qed

section \<open>Interrupt checkers end\<close>

text \<open>No checker was dropped with running threads, and the current one is not running.\<close>

abbreviation no_lost :: "nat \<Rightarrow> 'w run_world mach \<Rightarrow> bool" where
  "no_lost n m \<equiv> lost_checkers (world m) = n"

abbreviation quiet :: "nat \<Rightarrow> 'w run_world mach \<Rightarrow> bool" where
  "quiet n m \<equiv> lost_checkers (world m) = n \<and> interrupt_checker (world m) \<noteq> Some False"

interpretation lost_fixed: run_frame True "\<lambda>_. True" "\<lambda>w. lost_checkers w = n" for n
  by unfold_locales auto

interpretation quiet_fixed: run_frame True "\<lambda>_. True"
  "\<lambda>w. lost_checkers w = n \<and> interrupt_checker w \<noteq> Some False" for n
  by unfold_locales auto

lemma EndCheck_quiet:
  "no_lost n m \<Longrightarrow> wp (EndCheckInterruptThread B) (\<lambda>_. quiet n) (\<lambda>_. quiet n) m"
  unfolding EndCheckInterruptThread_def wp_set_run_then
  by (rule keepsD [OF quiet_fixed.keeps_call]) auto

lemma checked_quiet:
  assumes phase: "keeps (\<lambda>m. no_lost n m) f" and m: "quiet n m"
  shows "wp (checked B f) (\<lambda>_. quiet n) (\<lambda>_. no_lost n) m"
proof -
  have new: "wp new_InterruptChecker (\<lambda>_. no_lost n) (\<lambda>_. no_lost n) m"
    using m by (simp add: new_InterruptChecker_def assign_checker_def set_run_def wp_modifyM)
  have stop: "wp (EndCheckInterruptThreadAndRaiseError B) (\<lambda>_. quiet n) (\<lambda>_. no_lost n) m"
    if "no_lost n m" for m
    unfolding EndCheckInterruptThreadAndRaiseError_def wp_thenM wp_bindM wp_whenM wp_raise get_run_def
      wp_getM
    by (rule wp_mono [OF EndCheck_quiet [OF that]]) auto
  have drop: "wp (assign_checker None) (\<lambda>_. quiet n) (\<lambda>_. no_lost n) m" if "quiet n m" for m
    using that by (simp add: assign_checker_def set_run_def wp_modifyM)
  show ?thesis
    unfolding checked_def
    by (rule wp_seqM_step [OF new], rule wp_seqM_step [OF keepsD [OF phase]], assumption,
        rule wp_seqM_step [OF stop], assumption, unfold wp_seqM_single, rule drop)
qed

text \<open>A step from a quiet state that leaves no lost checker if it raises.\<close>

definition ends_quietly :: "nat \<Rightarrow> ('w, unit) run \<Rightarrow> bool" where
  "ends_quietly n f = (\<forall>m. quiet n m \<longrightarrow> wp f (\<lambda>_. quiet n) (\<lambda>_. no_lost n) m)"

lemma ends_quietlyI: "keeps (\<lambda>m. quiet n m) f \<Longrightarrow> ends_quietly n f"
  unfolding ends_quietly_def keeps_def by (blast intro: wp_mono)

lemma ends_quietly_checked: "keeps (\<lambda>m. no_lost n m) f \<Longrightarrow> ends_quietly n (checked B f)"
  unfolding ends_quietly_def using checked_quiet by blast

lemma ends_quietly_stage_step: "ends_quietly n f \<Longrightarrow> ends_quietly n (stage_step F stage f)"
  by (auto simp: ends_quietly_def stage_step_def wp_whenM wp_set_run_then)

lemma ends_quietly_seqM: "list_all (ends_quietly n) fs \<Longrightarrow> ends_quietly n (seqM fs)"
  by (induction fs) (auto simp: ends_quietly_def wp_ret wp_thenM intro: wp_mono)

lemma quiet_set_run:
  "(\<And>w. lost_checkers (f w) = lost_checkers w \<and> interrupt_checker (f w) = interrupt_checker w) \<Longrightarrow>
   keeps (\<lambda>m. quiet n m) (set_run f)"
  unfolding set_run_def by (rule keeps_modifyM) simp

lemma quiet_logs: "keeps (\<lambda>m. quiet n m) (CaptureVMLogs F B)"
  unfolding CaptureVMLogs_def by (auto intro!: quiet_fixed.frame_intros)

lemma quiet_teardown_stage: "keeps (\<lambda>m. quiet n m) (teardown_stage F B)"
proof -
  have ask: "keeps (\<lambda>m. quiet n m) (ask_lingering B k limit vs)" for k limit vs
    by (induction vs) (auto intro!: quiet_fixed.frame_intros)
  have "keeps (\<lambda>m. quiet n m) (decide_teardown F B)"
    unfolding decide_teardown_def
    by (auto intro!: quiet_fixed.frame_intros ask split: sum.split option.split)
  then show ?thesis
    unfolding teardown_stage_def
    by (intro quiet_fixed.frame_intros quiet_logs quiet_set_run quiet_fixed.keeps_DoTeardownPhase)
       simp_all
qed

lemma ends_quietly_all_stages: "ends_quietly n (all_stages F B)"
proof -
  have "keeps (\<lambda>m. quiet n m) (SetRestoreSpec F B)" "keeps (\<lambda>m. quiet n m) (SetFreezePath F :: ('a, unit) run)"
    unfolding SetRestoreSpec_def SetFreezePath_def
    by (auto intro!: quiet_fixed.frame_intros quiet_set_run)
  moreover note quiet_fixed.keeps_DoProvisionPhase [of n B]
    quiet_fixed.keeps_DoPrepareSystemPhase [of n B] quiet_fixed.keeps_DoInstallPackagesPhase [of n B]
    quiet_fixed.keeps_DoStartServicesPhase [of n B]
  ultimately show ?thesis
    unfolding all_stages_def
    by (intro ends_quietly_seqM)
       (simp add: ends_quietlyI keeps_whenM quiet_teardown_stage ends_quietly_stage_step
          ends_quietly_checked lost_fixed.keeps_DoPreparePhase lost_fixed.keeps_DoRunPhase
          lost_fixed.keeps_DoCleanupPhase)
qed

lemma lost_on_failure: "keeps (\<lambda>m. no_lost n m) (on_failure F B e)"
proof -
  have set: "keeps (\<lambda>m. no_lost n m) (set_run f)" if "\<And>w. lost_checkers (f w) = lost_checkers w"
    for f :: "'w run_world \<Rightarrow> 'w run_world"
    unfolding set_run_def by (rule keeps_modifyM) (simp add: that)
  show ?thesis
    unfolding on_failure_def PublishFailedRunSample_def event_sample_def CaptureVMLogs_def
    by (auto intro!: lost_fixed.frame_intros set lost_fixed.keeps_DoCleanupPhase
        lost_fixed.keeps_DoTeardownPhase)
qed

lemma run_body_quiet:
  assumes "quiet n m"
  shows "wp (run_body F B) (\<lambda>_. quiet n) (\<lambda>_. quiet n) m"
proof -
  have stages: "wp (Measure at_end_to_end ''End to End'' (all_stages F B)) (\<lambda>_. no_lost n) (\<lambda>_. no_lost n) m"
  proof (rule wp_Measure_end_to_end [where J = "\<lambda>w. lost_checkers w = n", OF _ refl])
    let ?m = "retick m (now m + lags m 0) (\<lambda>i. lags m (Suc i)) (draws m)"
    have "wp (all_stages F B) (\<lambda>_. quiet n) (\<lambda>_. no_lost n) ?m"
      using ends_quietly_all_stages [of n F B] assms by (simp add: ends_quietly_def)
    then show "wp (all_stages F B) (\<lambda>_. no_lost n) (\<lambda>_. no_lost n) ?m" by (rule wp_mono) simp_all
  qed simp
  have samples: "keeps (\<lambda>m. no_lost n m) (final_samples F B)"
    unfolding final_samples_def GenerateSamples_def GenerateIntervalSamples_def
    by (auto intro!: lost_fixed.frame_intros)
  have stop: "wp (bindM (get_run interrupt_checker) (\<lambda>c. whenM (c \<noteq> None) (EndCheckInterruptThread B)))
      (\<lambda>_. quiet n) (\<lambda>_. quiet n) m" if "no_lost n m" for m
    using that EndCheck_quiet [OF that] by (auto simp: wp_bindM get_run_def wp_getM wp_whenM)
  have rest: "keeps (\<lambda>m. quiet n m) (seqM [bindM (get_run should_teardown) (\<lambda>b.
       whenM (''teardown'' \<in> set (run_stage F) \<and> b) (call (''Delete'', []) (SpecDelete B))),
     whenM (publish_after_run F) (publish_all B),
     call (''benchmark_end'', []) (benchmark_end B), call (''Pickle'', []) (Pickle B)])"
    by (intro quiet_fixed.frame_intros) (auto intro!: quiet_fixed.frame_intros)
  have finish: "wp (finish_run F B) (\<lambda>_. quiet n) (\<lambda>_. quiet n) m" if "no_lost n m" for m
    unfolding finish_run_def
    by (rule wp_seqM_step [OF stop [OF that]], rule keepsD [OF rest])
  have "wp (catchM (thenM (Measure at_end_to_end ''End to End'' (all_stages F B))
      (final_samples F B)) (on_failure F B)) (\<lambda>_. no_lost n) (\<lambda>_. no_lost n) m"
    unfolding wp_catchM wp_thenM
    by (rule wp_mono [OF stages])
       (auto intro!: wp_mono [OF keepsD [OF samples]] keepsD [OF lost_on_failure])
  then show ?thesis
    unfolding run_body_def wp_finallyM
    by (rule wp_mono) (rule wp_mono [OF finish]; simp)+
qed

end
