(* ===== verification/StageOrder.thy ===== *)
theory StageOrder
  imports Runner
begin

text \<open>
  The order in which a run that succeeds goes through the stages: each phase begins its own
  stage and no other, so the stages begun by \<open>RunBenchmark\<close> are those selected, in the fixed
  order \<open>RUN_ORDER\<close>.
\<close>

section \<open>The order of the stages\<close>

text \<open>A step that, when it returns, has begun this stage, once or several times in a row.\<close>

definition begins_stage :: "string \<Rightarrow> ('w, unit) run \<Rightarrow> bool" where
  "begins_stage stage f =
     (\<forall>m. wp f (\<lambda>_ m'. has_begun (begun (world m)) stage (world m')) (\<lambda>_ _. True) m)"

lemma before_begins:
  "wp (before B stage) (\<lambda>_ m'. has_begun (begun (world m)) stage (world m')) (\<lambda>_ _. True) m"
proof -
  let ?m = "m\<lparr>world := (world m)\<lparr>calls := calls (world m) @ [(''before_phase'', stage)]\<rparr>\<rparr>"
  have 1: "begun (world ?m) = begun (world m) @ replicate (Suc 0) stage"
    by (simp add: begun_def)
  have "has_begun (begun (world m)) stage (world ?m)" using 1 has_begun_def by blast
  then show ?thesis
    unfolding before_def call_def wp_set_run_then
    by (rule wp_mono [OF keepsD [OF begins.keeps_on_ext]]) simp_all
qed

lemma begins_stageI:
  assumes "\<And>old. keeps (\<lambda>m. has_begun old stage (world m)) (seqM fs)"
  shows "begins_stage stage (seqM (before B stage # fs))"
  unfolding begins_stage_def
proof
  fix m :: "'a run_world mach"
  show "wp (seqM (before B stage # fs)) (\<lambda>_ m'. has_begun (begun (world m)) stage (world m')) (\<lambda>_ _. True) m"
    by (rule wp_seqM_step [OF before_begins], rule wp_mono [OF keepsD [OF assms]]) simp_all
qed

lemma Provision_begins: "begins_stage ''provision'' (DoProvisionPhase B)"
  unfolding DoProvisionPhase_def by (rule begins_stageI) (auto intro!: begins.frame_intros)

lemma Prepare_begins: "begins_stage ''prepare'' (DoPreparePhase F B)"
  unfolding DoPreparePhase_def
  by (rule begins_stageI) (auto intro!: begins.frame_intros begins.keeps_BenchmarkPrepareAll)

lemma part_phase_begins:
  assumes "fn \<noteq> ''Delete''" and "fn \<noteq> ''before_phase''"
  shows "begins_stage stage (part_phase B stage n fn msg f)"
  unfolding begins_stage_def part_phase_def wp_thenM
proof
  fix m :: "'a run_world mach"
  show "wp (before B stage)
     (\<lambda>_. wp (case f of None \<Rightarrow> raise (exn (Benchmarks PrepareException) msg)
        | Some g \<Rightarrow> thenM (Measure at_detailed n (call (fn, []) g)) (after B stage))
        (\<lambda>_ m'. has_begun (begun (world m)) stage (world m')) (\<lambda>_ _. True)) (\<lambda>_ _. True) m"
  proof (rule wp_mono [OF before_begins])
    fix t :: "'a run_world mach"
    assume t: "has_begun (begun (world m)) stage (world t)"
    have "keeps (\<lambda>m'. has_begun (begun (world m)) stage (world m'))
      (case f of None \<Rightarrow> raise (exn (Benchmarks PrepareException) msg)
        | Some g \<Rightarrow> thenM (Measure at_detailed n (call (fn, []) g)) (after B stage))"
      using assms by (auto intro!: begins.frame_intros split: option.split)
    from wp_mono [OF keepsD [OF this, OF t]]
    show "wp (case f of None \<Rightarrow> raise (exn (Benchmarks PrepareException) msg)
        | Some g \<Rightarrow> thenM (Measure at_detailed n (call (fn, []) g)) (after B stage))
        (\<lambda>_ m'. has_begun (begun (world m)) stage (world m')) (\<lambda>_ _. True) t" by simp
  qed simp
qed

lemma Teardown_begins: "begins_stage ''teardown'' (DoTeardownPhase F B)"
  unfolding DoTeardownPhase_def by (rule begins_stageI) (auto intro!: begins.frame_intros)

lemma run_pass_begins:
  "wp (run_pass F B d n k p) (\<lambda>_ m'. has_begun (begun (world m)) ''run'' (world m')) (\<lambda>_ _. True) m"
  unfolding run_pass_def wp_thenM
  by (rule wp_mono [OF before_begins], rule wp_mono [OF keepsD [OF begins.keeps_run_iteration]])
     simp_all

lemma run_loop_begins:
  "wp (run_loop F B d n k p) (\<lambda>_ m'. has_begun (begun (world m)) ''run'' (world m')) (\<lambda>_ _. True) m"
proof (rule wpI)
  fix u m'
  assume loop: "run_loop F B d n k p m = Some (Inr u, m')"
  then obtain r m1 where 1: "run_pass F B d n k p m = Some (Inr r, m1)"
    by (subst (asm) run_loop.simps) (auto split: option.splits sum.splits)
  have m1: "has_begun (begun (world m)) ''run'' (world m1)"
    using wp_returnsD [OF run_pass_begins 1] .
  show "has_begun (begun (world m)) ''run'' (world m')"
  proof (cases "fst r")
    case True
    with loop 1 have "m' = m1" by (subst (asm) run_loop.simps) simp
    with m1 show ?thesis by simp
  next
    case False
    with loop 1 have "run_loop F B d (n + 1) (fst (snd r)) (snd (snd r)) m1 = Some (Inr u, m')"
      by (subst (asm) run_loop.simps) simp
    with wp_outcome [OF keepsD [OF begins.keeps_run_loop [OF refl], OF m1]] show ?thesis by blast
  qed
qed simp

lemma Run_begins: "begins_stage ''run'' (DoRunPhase F B)"
  unfolding begins_stage_def DoRunPhase_def wp_thenM
proof
  fix m :: "'a run_world mach"
  let ?I = "\<lambda>m'. begun (world m') = begun (world m)"
  have input: "keeps ?I (whenM (before_run_pause F) (on_ext (read_input B ''Hit enter to begin Run.'')))"
    by (intro begun_kept.frame_intros)
  have clock: "keeps ?I time_time" by (rule begun_kept.keeps_clock)
  have loop: "wp (run_loop F B d 0 0 p) (\<lambda>_ m'. has_begun (begun (world m)) ''run'' (world m'))
      (\<lambda>_ _. True) t" if "?I t" for d p t
    using run_loop_begins [of F B d 0 0 p t] that by simp
  show "wp (whenM (before_run_pause F) (on_ext (read_input B ''Hit enter to begin Run.'')))
     (\<lambda>_. wp (bindM time_time (\<lambda>t. bindM time_time (\<lambda>published.
        run_loop F B (t + of_int (run_stage_time F)) 0 0 published)))
        (\<lambda>_ m'. has_begun (begun (world m)) ''run'' (world m')) (\<lambda>_ _. True)) (\<lambda>_ _. True) m"
    unfolding wp_bindM
    by (rule wp_mono [OF keepsD [OF input]], simp, rule wp_mono [OF keepsD [OF clock]], simp,
        rule wp_mono [OF keepsD [OF clock]], simp, rule loop, simp_all)
qed

lemma Cleanup_begins: "begins_stage ''cleanup'' (DoCleanupPhase F B)"
proof -
  have eq: "wp (DoCleanupPhase F B) = wp (thenM
     (whenM (before_cleanup_pause F) (on_ext (read_input B ''Hit enter to begin Cleanup.'')))
     (seqM (before B ''cleanup'' # [
       bindM (get_run (\<lambda>w. always_call_cleanup B \<or> has_static_vm_or_dpb B (ext w))) (\<lambda>b.
         whenM b (thenM (call (''StopBackgroundWorkload'', []) (StopBackgroundWorkload B))
           (Measure at_detailed ''Benchmark Cleanup''
              (call (''BenchmarkCleanup'', []) (BenchmarkCleanup B))))),
       after B ''cleanup''])))"
    by (simp add: DoCleanupPhase_def)
  show ?thesis
    unfolding begins_stage_def eq wp_thenM
  proof
    fix m :: "'a run_world mach"
    let ?I = "\<lambda>m'. begun (world m') = begun (world m)"
    have input: "keeps ?I (whenM (before_cleanup_pause F)
        (on_ext (read_input B ''Hit enter to begin Cleanup.'')))"
      by (intro begun_kept.frame_intros)
    have "begins_stage ''cleanup'' (seqM (before B ''cleanup'' # [
       bindM (get_run (\<lambda>w. always_call_cleanup B \<or> has_static_vm_or_dpb B (ext w))) (\<lambda>b.
         whenM b (thenM (call (''StopBackgroundWorkload'', []) (StopBackgroundWorkload B))
           (Measure at_detailed ''Benchmark Cleanup''
              (call (''BenchmarkCleanup'', []) (BenchmarkCleanup B))))),
       after B ''cleanup'']))"
      by (rule begins_stageI) (auto intro!: begins.frame_intros)
    then have rest: "wp (seqM (before B ''cleanup'' # [
       bindM (get_run (\<lambda>w. always_call_cleanup B \<or> has_static_vm_or_dpb B (ext w))) (\<lambda>b.
         whenM b (thenM (call (''StopBackgroundWorkload'', []) (StopBackgroundWorkload B))
           (Measure at_detailed ''Benchmark Cleanup''
              (call (''BenchmarkCleanup'', []) (BenchmarkCleanup B))))),
       after B ''cleanup'']))
       (\<lambda>_ m'. has_begun (begun (world m)) ''cleanup'' (world m')) (\<lambda>_ _. True) t" if "?I t" for t
      unfolding begins_stage_def using that by metis
    show "wp (whenM (before_cleanup_pause F) (on_ext (read_input B ''Hit enter to begin Cleanup.'')))
       (\<lambda>_. wp (seqM (before B ''cleanup'' # [
       bindM (get_run (\<lambda>w. always_call_cleanup B \<or> has_static_vm_or_dpb B (ext w))) (\<lambda>b.
         whenM b (thenM (call (''StopBackgroundWorkload'', []) (StopBackgroundWorkload B))
           (Measure at_detailed ''Benchmark Cleanup''
              (call (''BenchmarkCleanup'', []) (BenchmarkCleanup B))))),
       after B ''cleanup'']))
       (\<lambda>_ m'. has_begun (begun (world m)) ''cleanup'' (world m')) (\<lambda>_ _. True)) (\<lambda>_ _. True) m"
      by (rule wp_mono [OF keepsD [OF input]], simp, rule rest, simp_all)
  qed
qed

text \<open>The order in which \<open>RunBenchmark\<close> goes through the stages.\<close>

definition RUN_ORDER :: "string list" where
  "RUN_ORDER = [''provision'', ''prepare'', ''prepare_system'', ''install_packages'',
     ''start_services'', ''run'', ''cleanup'', ''teardown'']"

interpretation no_teardown: run_frame True "\<lambda>_. True" "\<lambda>w. \<not> should_teardown w"
  by unfold_locales auto

interpretation begun_more: runner_frame True "\<lambda>s. s = stage" "has_begun old stage" for stage old
  by unfold_locales (auto simp: has_begun_def begun_def)

lemma begun_update [simp]:
  "begun (w\<lparr>current_run_stage := s\<rparr>) = begun w" "begun (w\<lparr>should_teardown := b\<rparr>) = begun w"
  "begun (w\<lparr>status := st\<rparr>) = begun w"
  by (simp_all add: begun_def)

lemma checked_begins:
  fixes f :: "('w, unit) run"
  assumes "begins_stage stage f"
  shows "begins_stage stage (checked B f)"
  unfolding begins_stage_def checked_def
proof
  fix m :: "'w run_world mach"
  have new: "wp new_InterruptChecker (\<lambda>_ m'. begun (world m') = begun (world m)) (\<lambda>_ _. True) m"
    unfolding new_InterruptChecker_def
    by (rule wp_mono [OF keepsD [OF begun_kept.keeps_assign_checker]]) simp_all
  have phase: "wp f (\<lambda>_ m'. has_begun (begun (world m)) stage (world m')) (\<lambda>_ _. True) t"
    if "begun (world t) = begun (world m)" for t
    using assms that unfolding begins_stage_def by metis
  have rest: "wp (seqM [EndCheckInterruptThreadAndRaiseError B, assign_checker None])
      (\<lambda>_ m'. has_begun (begun (world m)) stage (world m')) (\<lambda>_ _. True) t"
    if "has_begun (begun (world m)) stage (world t)" for t
  proof -
    have "keeps (\<lambda>m'. has_begun (begun (world m)) stage (world m'))
        (seqM [EndCheckInterruptThreadAndRaiseError B, assign_checker None])"
      unfolding EndCheckInterruptThreadAndRaiseError_def
      by (auto intro!: begins.frame_intros begun_more.keeps_assign_checker
          begun_more.keeps_EndCheckInterruptThread)
    from wp_mono [OF keepsD [OF this, OF that]] show ?thesis by simp
  qed
  show "wp (seqM [new_InterruptChecker, f, EndCheckInterruptThreadAndRaiseError B, assign_checker None])
      (\<lambda>_ m'. has_begun (begun (world m)) stage (world m')) (\<lambda>_ _. True) m"
    by (rule wp_seqM_step [OF new], rule wp_seqM_step [OF phase], assumption, rule rest)
qed

abbreviation went_through :: "string list \<Rightarrow> 'w run_world mach \<Rightarrow> bool" where
  "went_through ss m \<equiv> remdups_adj (begun (world m)) = ss"

lemma has_begun_next:
  assumes "has_begun old stage w" and "stage \<notin> set old"
  shows "remdups_adj (begun w) = remdups_adj old @ [stage]"
proof -
  obtain k where k: "begun w = old @ replicate (Suc k) stage" using assms(1) has_begun_def by blast
  show ?thesis
  proof (cases "old = []")
    case True
    with k show ?thesis by (simp add: remdups_adj_replicate del: replicate_Suc)
  next
    case False
    then have "dropWhile (\<lambda>y. y = last old) (replicate (Suc k) stage) = replicate (Suc k) stage"
      using assms(2) last_in_set by fastforce
    with k False show ?thesis
      by (simp add: remdups_adj_append'' remdups_adj_replicate del: replicate_Suc)
  qed
qed

lemma whenM_stage:
  fixes m :: "'w run_world mach" and f :: "('w, unit) run"
  assumes "begins_stage stage f" and "stage \<notin> set ss" and "went_through ss m"
  shows "wp (whenM (stage \<in> set (run_stage F)) f)
     (\<lambda>_. went_through (ss @ filter (\<lambda>s. s \<in> set (run_stage F)) [stage])) (\<lambda>_ _. True) m"
proof -
  have "stage \<notin> set (begun (world m))" using assms(2,3) by (metis remdups_adj_set)
  then have "has_begun (begun (world m)) stage w \<Longrightarrow> remdups_adj (begun w) = ss @ [stage]" for w :: "'w run_world"
    using has_begun_next assms(3) by metis
  moreover have "wp f (\<lambda>_ m'. has_begun (begun (world m)) stage (world m')) (\<lambda>_ _. True) m"
    using assms(1) by (simp add: begins_stage_def)
  ultimately have "wp f (\<lambda>_. went_through (ss @ [stage])) (\<lambda>_ _. True) m"
    by (auto intro: wp_mono)
  with assms(3) show ?thesis by (simp add: wp_whenM)
qed

lemma stage_step_order:
  fixes m :: "'w run_world mach" and f :: "('w, unit) run"
  assumes "begins_stage stage f" and "stage \<notin> set ss" and "went_through ss m"
  shows "wp (stage_step F stage f)
     (\<lambda>_. went_through (ss @ filter (\<lambda>s. s \<in> set (run_stage F)) [stage])) (\<lambda>_ _. True) m"
proof -
  have "begins_stage stage (thenM (set_run (\<lambda>w. w\<lparr>current_run_stage := stage\<rparr>)) f)"
    unfolding begins_stage_def wp_set_run_then
  proof
    fix m :: "'w run_world mach"
    show "wp f (\<lambda>_ m'. has_begun (begun (world m)) stage (world m')) (\<lambda>_ _. True)
        (m\<lparr>world := world m\<lparr>current_run_stage := stage\<rparr>\<rparr>)"
      using assms(1) [unfolded begins_stage_def, rule_format,
          of "m\<lparr>world := world m\<lparr>current_run_stage := stage\<rparr>\<rparr>"] by simp
  qed
  then show ?thesis unfolding stage_step_def by (rule whenM_stage [OF _ assms(2,3)])
qed

lemma keeps_went:
  fixes f :: "('w, 'a) run"
  assumes "\<And>b. keeps (\<lambda>m. begun (world m) = b) f"
  shows "keeps (went_through ss) f"
proof (rule keepsI)
  fix m :: "'w run_world mach"
  assume "went_through ss m"
  with keepsD [OF assms [of "begun (world m)"] refl] show "wp f (\<lambda>_. went_through ss) (\<lambda>_. went_through ss) m"
    by (auto intro: wp_mono)
qed

lemma teardown_stage_order:
  fixes m :: "'w run_world mach"
  assumes m: "went_through ss m" and ss: "''teardown'' \<notin> set ss"
  shows "wp (teardown_stage F B) (\<lambda>_ m'. went_through (ss @ (if ''teardown'' \<in> set (run_stage F)
      \<and> tears_down m' then [''teardown''] else [])) m') (\<lambda>_ _. True) m"
proof -
  let ?Q = "\<lambda>_ m'. went_through (ss @ (if tears_down m' then [''teardown''] else [])) m'"
  have down: "wp (DoTeardownPhase F B) ?Q (\<lambda>_ _. True) t" if "went_through ss t" "tears_down t" for t
  proof -
    have "''teardown'' \<notin> set (begun (world t))" using ss that(1) by (metis remdups_adj_set)
    then have "has_begun (begun (world t)) ''teardown'' w \<Longrightarrow> remdups_adj (begun w) = ss @ [''teardown'']"
      for w :: "'w run_world" using has_begun_next that(1) by metis
    moreover have "wp (DoTeardownPhase F B) (\<lambda>_ m'. has_begun (begun (world t)) ''teardown'' (world m')
        \<and> tears_down m') (\<lambda>_ _. True) t"
    proof -
      have "keeps tears_down (DoTeardownPhase F B)"
        by (rule teardown_flag_kept.keeps_DoTeardownPhase) simp_all
      from keepsD [OF this, OF that(2)] Teardown_begins [of F B]
      have "wp (DoTeardownPhase F B) (\<lambda>_ m'. tears_down m' \<and> has_begun (begun (world t)) ''teardown'' (world m'))
          (\<lambda>_ m'. tears_down m' \<and> True) t"
        unfolding begins_stage_def by (intro wp_conj) blast+
      then show ?thesis by (rule wp_mono) simp_all
    qed
    ultimately show ?thesis by (auto intro: wp_mono)
  qed
  have logs: "wp (CaptureVMLogs F B) (\<lambda>_. went_through ss) (\<lambda>_ _. True) m"
    by (rule wp_mono [OF keepsD [OF keeps_went, OF _ m]]) (rule begun_kept.keeps_CaptureVMLogs, simp_all)
  have decide: "wp (decide_teardown F B) (\<lambda>_. went_through ss) (\<lambda>_ _. True) t" if "went_through ss t" for t
    by (rule wp_mono [OF keepsD [OF keeps_went, OF _ that]]) (rule begun_kept.keeps_decide_teardown, simp_all)
  have skip: "wp (bindM (get_run (\<lambda>w. vms B (ext w))) (\<lambda>vs.
       forM vs (\<lambda>v. call (''UpdateTimeoutMetadata'', []) (UpdateTimeoutMetadata B v)))) ?Q (\<lambda>_ _. True) t"
    if "went_through ss t" "\<not> tears_down t" for t
  proof -
    let ?f = "bindM (get_run (\<lambda>w. vms B (ext w))) (\<lambda>vs.
       forM vs (\<lambda>v. call (''UpdateTimeoutMetadata'', []) (UpdateTimeoutMetadata B v)))"
    have "wp ?f (\<lambda>_. went_through ss) (\<lambda>_. went_through ss) t"
      by (rule keepsD [OF keeps_went, OF _ that(1)]) (auto intro!: begun_kept.frame_intros)
    moreover have "keeps (\<lambda>m. \<not> tears_down m) ?f"
      by (auto intro!: no_teardown.frame_intros)
    from keepsD [OF this, of t] that(2) have "wp ?f (\<lambda>_ m. \<not> tears_down m) (\<lambda>_ m. \<not> tears_down m) t"
      by (auto intro: wp_mono)
    ultimately show ?thesis by (rule wp_mono [OF wp_conj]) simp_all
  qed
  show ?thesis
  proof (cases "''teardown'' \<in> set (run_stage F)")
    case True
    have "wp (bindM (decide_teardown F B) (\<lambda>b.
        thenM (set_run (\<lambda>w. w\<lparr>should_teardown := b\<rparr>))
          (if b then thenM (set_run (\<lambda>w. w\<lparr>current_run_stage := ''teardown''\<rparr>)) (DoTeardownPhase F B)
           else bindM (get_run (\<lambda>w. vms B (ext w))) (\<lambda>vs.
             forM vs (\<lambda>v. call (''UpdateTimeoutMetadata'', []) (UpdateTimeoutMetadata B v))))))
        ?Q (\<lambda>_ _. True) t" if "went_through ss t" for t
      unfolding wp_bindM [of "decide_teardown F B"] wp_set_run_then
    proof (rule wp_mono [OF decide [OF that]])
      fix b and t :: "'w run_world mach"
      assume t: "went_through ss t"
      show "wp (if b then thenM (set_run (\<lambda>w. w\<lparr>current_run_stage := ''teardown''\<rparr>)) (DoTeardownPhase F B)
           else bindM (get_run (\<lambda>w. vms B (ext w))) (\<lambda>vs.
             forM vs (\<lambda>v. call (''UpdateTimeoutMetadata'', []) (UpdateTimeoutMetadata B v))))
         ?Q (\<lambda>_ _. True) (t\<lparr>world := world t\<lparr>should_teardown := b\<rparr>\<rparr>)"
      proof (cases b)
        case True
        then show ?thesis
          unfolding if_P [OF True] wp_set_run_then by (intro down) (use t in simp_all)
      next
        case False
        then show ?thesis
          unfolding if_not_P [OF False] by (intro skip) (use t in simp_all)
      qed
    qed simp
    then have "wp (thenM (CaptureVMLogs F B) (bindM (decide_teardown F B) (\<lambda>b.
        thenM (set_run (\<lambda>w. w\<lparr>should_teardown := b\<rparr>))
          (if b then thenM (set_run (\<lambda>w. w\<lparr>current_run_stage := ''teardown''\<rparr>)) (DoTeardownPhase F B)
           else bindM (get_run (\<lambda>w. vms B (ext w))) (\<lambda>vs.
             forM vs (\<lambda>v. call (''UpdateTimeoutMetadata'', []) (UpdateTimeoutMetadata B v)))))))
        ?Q (\<lambda>_ _. True) m"
      by (rule wp_thenM_step [OF logs])
    with True show ?thesis by (simp add: teardown_stage_def whenM_def)
  qed (use m in \<open>simp add: teardown_stage_def whenM_def wp_ret\<close>)
qed

lemma all_stages_order:
  fixes m :: "'w run_world mach"
  assumes m: "begun (world m) = []"
  shows "wp (all_stages F B) (\<lambda>_ m'. went_through (filter (\<lambda>s. s \<in> set (run_stage F)
      \<and> (s = ''teardown'' \<longrightarrow> tears_down m')) RUN_ORDER) m') (\<lambda>_ _. True) m"
proof -
  let ?f = "\<lambda>ss. filter (\<lambda>s. s \<in> set (run_stage F)) ss"
  have step: "wp (stage_step F stage f) (\<lambda>_. went_through (?f (ss @ [stage]))) (\<lambda>_ _. True) m"
    if "begins_stage stage f" "went_through (?f ss) m" "stage \<notin> set ss"
    for stage ss and f :: "('w, unit) run" and m
    using stage_step_order [OF that(1) _ that(2)] that(3) by simp
  have provision: "wp (whenM (''provision'' \<in> set (run_stage F)) (DoProvisionPhase B))
      (\<lambda>_. went_through (?f [''provision''])) (\<lambda>_ _. True) m" if "went_through (?f []) m" for m
    using whenM_stage [OF Provision_begins, of "[]" m F B] that by simp
  have first: "wp f (\<lambda>_. went_through (?f [])) (\<lambda>_ _. True) m"
    if "\<And>b. keeps (\<lambda>m. begun (world m) = b) f" "went_through (?f []) m" for f :: "('w, unit) run" and m
    by (rule wp_mono [OF keepsD [OF keeps_went, OF that]]) simp_all
  note begins = checked_begins [OF Prepare_begins [of F B], of B]
    part_phase_begins checked_begins [OF Run_begins [of F B], of B]
    checked_begins [OF Cleanup_begins [of F B], of B]
  show ?thesis
    unfolding all_stages_def
    apply (rule wp_seqM_step [OF first [OF begun_kept.keeps_SetRestoreSpec]], simp add: m)
    apply (rule wp_seqM_step [OF first [OF begun_kept.keeps_SetFreezePath]], assumption)
    apply (rule wp_seqM_step [OF provision], assumption)
    apply (rule wp_seqM_step [OF step [OF begins(1)]], assumption, simp)
    apply (rule wp_seqM_step [OF step], unfold DoPrepareSystemPhase_def, rule begins(2), simp, simp, assumption, simp)
    apply (rule wp_seqM_step [OF step], unfold DoInstallPackagesPhase_def, rule begins(2), simp, simp, assumption, simp)
    apply (rule wp_seqM_step [OF step], unfold DoStartServicesPhase_def, rule begins(2), simp, simp, assumption, simp)
    apply (rule wp_seqM_step [OF step [OF begins(3)]], assumption, simp)
    apply (rule wp_seqM_step [OF step [OF begins(4)]], assumption, simp)
    apply (unfold wp_seqM_single)
    apply (rule wp_mono [OF teardown_stage_order], assumption)
    by (auto simp: RUN_ORDER_def)
qed

end
