(* ===== verification/RunProperties.thy ===== *)
theory RunProperties
  imports StageOrder
begin

text \<open>
  What one run of a benchmark guarantees: its status, its teardown, the end of its interrupt
  checkers, the order of its stages and the number of its iterations; and \<open>simple_ops\<close>, a
  benchmark whose methods do nothing, as a witness.
\<close>

section \<open>The iterations of the run stage\<close>

lemma wp_any: "(\<And>x t. Q x t) \<Longrightarrow> (\<And>e t. E e t) \<Longrightarrow> wp f Q E s"
  by (rule wpI)

lemma run_pass_last:
  assumes "run_stage_time F \<le> 0"
  shows "wp (run_pass F B d n k p) (\<lambda>r _. fst r = (n + 1 \<ge> run_stage_iterations F)) (\<lambda>_ _. True) m"
proof -
  have finished: "wp (IsRunStageFinished F d (n + 1)) (\<lambda>b _. b = (n + 1 \<ge> run_stage_iterations F))
      (\<lambda>_ _. True) m" for m :: "'a run_world mach"
    using assms by (simp add: IsRunStageFinished_def wp_ret)
  show ?thesis
    unfolding run_pass_def run_iteration_def wp_thenM wp_bindM case_prod_unfold
    by (rule wp_any, rule wp_any, rule wp_any, rule wp_any, rule wp_any, rule wp_any, rule wp_any,
        rule wp_mono [OF finished], rule wp_any) (simp_all add: wp_ret)
qed

lemma run_pass_begun:
  "wp (run_pass F B d n k p) (\<lambda>_ m'. begun (world m') = begun (world m) @ [''run'']) (\<lambda>_ _. True) m"
proof -
  let ?m = "m\<lparr>world := (world m)\<lparr>calls := calls (world m) @ [(''before_phase'', ''run'')]\<rparr>\<rparr>"
  have "begun (world ?m) = begun (world m) @ [''run'']" by (simp add: begun_def)
  then have before: "wp (before B ''run'') (\<lambda>_ m'. begun (world m') = begun (world m) @ [''run''])
      (\<lambda>_ _. True) m"
    unfolding before_def call_def wp_set_run_then
    by (intro wp_mono [OF keepsD [OF begun_kept.keeps_on_ext]]) simp_all
  show ?thesis
    unfolding run_pass_def wp_thenM
    by (rule wp_mono [OF before], rule wp_mono [OF keepsD [OF begun_kept.keeps_run_iteration]])
       simp_all
qed

lemma run_loop_iterations:
  assumes "run_stage_time F \<le> 0"
  shows "run_loop F B d n k p m = Some (Inr u, m') \<Longrightarrow>
    begun (world m') = begun (world m) @ replicate (nat (max 1 (run_stage_iterations F - n))) ''run''"
proof (induction "nat (run_stage_iterations F - n)" arbitrary: n k p m rule: less_induct)
  case less
  obtain r m1 where 1: "run_pass F B d n k p m = Some (Inr r, m1)"
    using less.prems by (subst (asm) run_loop.simps) (auto split: option.splits sum.splits)
  have last: "fst r = (n + 1 \<ge> run_stage_iterations F)"
    using wp_returnsD [OF run_pass_last [OF assms] 1] .
  have m1: "begun (world m1) = begun (world m) @ [''run'']"
    using wp_returnsD [OF run_pass_begun 1] .
  show ?case
  proof (cases "fst r")
    case True
    with less.prems 1 have "m' = m1" by (subst (asm) run_loop.simps) simp
    moreover have "max 1 (run_stage_iterations F - n) = 1" using True last by simp
    ultimately show ?thesis using m1 by simp
  next
    case False
    with less.prems 1 have "run_loop F B d (n + 1) (fst (snd r)) (snd (snd r)) m1 = Some (Inr u, m')"
      by (subst (asm) run_loop.simps) simp
    from less.hyps [OF _ this] False last have
      "begun (world m') = begun (world m1) @ replicate (nat (max 1 (run_stage_iterations F - (n + 1)))) ''run''"
      by simp
    moreover have "nat (max 1 (run_stage_iterations F - n)) = Suc (nat (max 1 (run_stage_iterations F - (n + 1))))"
      using False last by simp
    ultimately show ?thesis
      using m1 by (simp only: append_assoc replicate_Suc append_Cons append_Nil)
  qed
qed

lemma run_loop_returns:
  assumes time: "run_stage_time F \<le> 0" and pass: "\<And>n k p. returns (run_pass F B d n k p)"
  shows "run_loop F B d n k p m \<noteq> None"
proof (induction "nat (run_stage_iterations F - n)" arbitrary: n k p m rule: less_induct)
  case less
  obtain r m1 where 1: "run_pass F B d n k p m = Some (r, m1)" using returnsD [OF pass] by blast
  show ?case
  proof (cases r)
    case (Inr q)
    have "fst q = (n + 1 \<ge> run_stage_iterations F)"
      using wp_returnsD [OF run_pass_last [OF time] 1 [unfolded Inr]] .
    with 1 Inr less [of "n + 1"] show ?thesis
      by (subst run_loop.simps) (cases "fst q", auto)
  qed (use 1 in \<open>subst run_loop.simps, simp\<close>)
qed

text \<open>Methods that return make a run phase that returns.\<close>

lemma returns_on_ext [intro]: "returns h \<Longrightarrow> returns (on_ext h)"
  by (auto simp: returns_def on_ext_def split: option.split)

lemma returns_set_run [intro]: "returns (set_run f)"
  by (auto simp: set_run_def)

lemma returns_clock [intro]: "returns time_time" "returns (time_sleep d)"
  by (auto simp: returns_def mach_ops)

lemma returns_call [intro]: "returns h \<Longrightarrow> returns (call n h)"
  unfolding call_def by (intro returns_thenM returns_set_run returns_on_ext)

lemma returns_new_sample [intro]: "returns (new_sample a b c d e)"
  unfolding new_sample_def by (cases e) auto

lemma returns_Measure [intro]: "returns f \<Longrightarrow> returns (Measure L n f)"
  unfolding Measure_def
  by (intro returns_bindM returns_thenM returns_clock returns_modifyM returns_ret)

lemma returns_mapPy [intro]: "(\<And>x. x \<in> set xs \<Longrightarrow> returns (f x)) \<Longrightarrow> returns (mapPy f xs)"
  by (induction xs) auto

lemma returns_add_metadata: "(\<And>p md. p \<in> set ps \<Longrightarrow> returns (p md)) \<Longrightarrow> returns (add_metadata ps md)"
  by (induction ps md rule: add_metadata.induct) auto

definition env_returns :: "'w mach collector_env \<Rightarrow> bool" where
  "env_returns E = ((\<forall>p \<in> set (metadata_providers E). \<forall>md. returns (p md)) \<and> returns (uuid4 E)
     \<and> (\<forall>p \<in> set (publishers E). \<forall>ss. returns (publish p ss)))"

lemma returns_collect:
  assumes "env_returns (collector_env_of B)"
  shows "returns (collect B ss)" "returns (publish_all B)"
proof -
  have md: "returns (add_metadata (metadata_providers (run_env (collector_env_of B))) md)" for md
    by (rule returns_add_metadata) (use assms in \<open>auto simp: run_env_def env_returns_def\<close>)
  have uuid: "returns (uuid4 (run_env (collector_env_of B)))"
    using assms by (auto simp: run_env_def env_returns_def)
  have pub: "returns (publish p ss)" if "p \<in> set (publishers (run_env (collector_env_of B)))" for p ss
    using assms that by (auto simp: run_env_def env_returns_def intro!: returns_on_ext)
  show "returns (collect B ss)"
    unfolding collect_def AddSamples_def annotate_def
    by (intro returns_forM returns_bindM md uuid returns_ret returns_modifyM)
  show "returns (publish_all B)"
    unfolding publish_all_def PublishSamples_def Let_def
    by (intro returns_bindM returns_if returns_thenM returns_forM returns_ret returns_modifyM
        returns_getM pub)
qed

definition run_methods_return :: "'w ops \<Rightarrow> bool" where
  "run_methods_return B =
     (env_returns (collector_env_of B) \<and> returns (before_phase B ''run'') \<and> returns (after_phase B ''run'')
      \<and> returns (trigger_phase B) \<and> returns (BenchmarkRun B) \<and> (\<forall>x. returns (extra B x))
      \<and> (\<forall>ss. returns (samples_created B ss)) \<and> (\<forall>s. returns (read_input B s)))"

lemma returns_run_pass:
  assumes "run_methods_return B"
  shows "returns (run_pass F B d n k p)"
proof -
  have parts: "returns (before B ''run'')" "returns (after B ''run'')"
    "returns (call (''trigger_phase'', []) (trigger_phase B))"
    "returns (call (''BenchmarkRun'', []) (BenchmarkRun B))" "\<And>ss. returns (collect B ss)"
    "returns (publish_all B)" "\<And>x. returns (on_ext (extra B x))"
    "\<And>ss. returns (on_ext (samples_created B ss))"
    using assms by (auto simp: run_methods_return_def before_def after_def returns_collect)
  have attempt: "returns (run_attempt F B k)"
    unfolding run_attempt_def using parts by (intro returns_finallyM returns_tryElseM) auto
  have samples: "returns (run_samples F B n ss)" for ss
    unfolding run_samples_def Let_def using parts by (intro returns_bindM returns_mapPy) auto
  have publish: "returns (maybe_publish F B p)"
    unfolding maybe_publish_def using parts by (auto split: option.split)
  have finished: "returns (IsRunStageFinished F d (n + 1))"
    unfolding IsRunStageFinished_def by auto
  show ?thesis
    unfolding run_pass_def run_iteration_def case_prod_unfold
    by (intro returns_thenM returns_bindM returns_whenM returns_ret parts attempt samples publish
        finished returns_clock)
qed

section \<open>A benchmark whose methods do nothing\<close>

definition simple_ops :: "bool ops" where
  "simple_ops = \<lparr>before_phase = (\<lambda>_. ret ()), after_phase = (\<lambda>_. ret ()), trigger_phase = ret (),
     benchmark_start = ret (), benchmark_end = ret (), register_tracers = ret (),
     samples_created = ret, ConstructResources = ret (), CheckPrerequisites = ret (),
     Pickle = ret (), Provision = modifyM (\<lambda>m. m\<lparr>world := True\<rparr>), SpecPrepare = ret (),
     StartBackgroundWorkload = ret (), StopBackgroundWorkload = ret (),
     SpecDelete = modifyM (\<lambda>m. m\<lparr>world := False\<rparr>), SpecGetSamples = ret [],
     BenchmarkPrepare = Some (ret ()), BenchmarkPrepareSystem = Some (ret ()),
     BenchmarkInstallPackages = Some (ret ()), BenchmarkStartServices = Some (ret ()),
     BenchmarkRun = ret [], BenchmarkCleanup = ret (), bench_name = ''simple'',
     always_call_cleanup = False, has_static_vm_or_dpb = (\<lambda>_. False), extra = (\<lambda>_. ret []),
     MeasureDelete = ret [], GenerateAndCaptureLogs = (\<lambda>_. ret ()), vms = (\<lambda>_. []),
     IsInterruptible = (\<lambda>_ _. False), WasInterrupted = (\<lambda>_ _. False),
     GetVmStatusCode = (\<lambda>_ _. None), create_operation_name = (\<lambda>_ _. []),
     UpdateInterruptibleVmStatus = ret (), GetNumTeardownSkippedVms = (\<lambda>_. ret None),
     UpdateTimeoutMetadata = (\<lambda>_. ret ()), join_checks = ret (), read_input = (\<lambda>_. ret ()),
     load_restore_spec = ret, collector_env_of = quiet_env, error_classes = ClassNode Error [],
     skip_pending_checks = []\<rparr>"

definition simple_run_flags :: "string list \<Rightarrow> run_flags" where
  "simple_run_flags ss = \<lparr>run_stage = ss, run_stage_time = 0, run_stage_iterations = 1,
     run_stage_retries = 0, before_run_pause = False, before_cleanup_pause = False,
     after_prepare_sleep_time = 0, between_runs_sleep_time = 0, after_run_sleep_time = 0,
     publish_after_run = False, publish_period = None, restore_path = None,
     flag_freeze_path = None, enabled_extras = [], measure_delete = False,
     capture_vm_logs = False, timing_measurements = [], create_failed_run_samples = False,
     failed_run_samples_error_length = 10240, always_teardown_on_exception = False,
     skip_teardown_conditions = [], skip_teardown_zonal_vm_limit = None,
     skip_teardown_on_command_timeout = False, provided_flags = []\<rparr>"

definition simple_run :: "bool \<Rightarrow> bool run_world mach" where
  "simple_run x = some_mach \<lparr>status = ''SKIPPED'', failed_substatus = None, status_detail = None,
     freeze_path = None, restore_spec = None, run_collector = new_collector, detailed_timer = [],
     end_to_end_timer = [], current_run_stage = [], should_teardown = True,
     interrupt_checker = None, lost_checkers = 0, calls = [], ext = x\<rparr>"

lemmas eval_run = bindM_def thenM_def catchM_def tryElseM_def finallyM_def getM_def modifyM_def
  ret_def raise_def whenM_def on_ext_def put_ext_def ext_mach_def get_run_def set_run_def call_def
  mach_ops Measure_def at_collector_def at_detailed_def at_end_to_end_def

lemmas eval_phases = DoProvisionPhase_def DoPreparePhase_def BenchmarkPrepareAll_def
  part_phase_def DoPrepareSystemPhase_def DoInstallPackagesPhase_def DoStartServicesPhase_def
  DoCleanupPhase_def DoTeardownPhase_def before_def after_def collect_def publish_all_def
  checked_def new_InterruptChecker_def assign_checker_def EndCheckInterruptThread_def
  EndCheckInterruptThreadAndRaiseError_def

lemmas eval_benchmark = RunBenchmark_def run_body_def finish_run_def final_samples_def all_stages_def
  teardown_stage_def stage_step_def SetRestoreSpec_def SetFreezePath_def decide_teardown_def
  CaptureVMLogs_def ParseSkipTeardownConditions_def ShouldTeardown_def

lemmas eval_simple = simple_ops_def simple_run_flags_def simple_run_def some_mach_def
  new_collector_def

lemma simple_run_teardown:
  "\<exists>m'. RunBenchmark (simple_run_flags [''provision'', ''teardown'']) simple_ops (simple_run False)
     = Some (Inr (), m')"
  unfolding eval_benchmark eval_phases
  by (simp add: eval_run eval_simple AddSamples_def PublishSamples_def
      EndToEndRuntimeMeasurementEnabled_def RuntimeMeasurementsEnabled_def interrupted_def)

lemma simple_run_no_stage:
  "\<exists>m'. RunBenchmark (simple_run_flags [''run'']) simple_ops (simple_run False)
     = Some (Inr (), m')"
  unfolding eval_benchmark eval_phases DoRunPhase_def
  by (simp add: eval_run eval_simple AddSamples_def PublishSamples_def run_loop.simps run_pass_def
      run_iteration_def run_attempt_def run_samples_def extras_of_run_def maybe_publish_def
      IsRunStageFinished_def before_def after_def collect_def
      EndToEndRuntimeMeasurementEnabled_def RuntimeMeasurementsEnabled_def interrupted_def)

lemma simple_DoRunPhase:
  "\<exists>m'. DoRunPhase (simple_run_flags [''run'']) simple_ops (simple_run False) = Some (Inr (), m')"
  unfolding DoRunPhase_def
  by (simp add: eval_run eval_simple AddSamples_def run_loop.simps run_pass_def
      run_iteration_def run_attempt_def run_samples_def extras_of_run_def maybe_publish_def
      IsRunStageFinished_def before_def after_def collect_def)

lemma simple_facts:
  "skip_pending_checks simple_ops = []" "\<exists>k'. join_checks simple_ops k = Some (Inr (), k')"
  "\<exists>k'. register_tracers simple_ops k = Some (Inr (), k')"
  "calls (world (simple_run x)) = []" "lost_checkers (world (simple_run x)) = 0"
  "run_stage (simple_run_flags ss) = ss" "skip_teardown_conditions (simple_run_flags ss) = []"
  "\<not> skip_teardown_on_command_timeout (simple_run_flags ss)"
  "run_stage_time (simple_run_flags ss) = 0" "run_stage_iterations (simple_run_flags ss) = 1"
  by (simp_all add: simple_ops_def simple_run_def some_mach_def simple_run_flags_def ret_def)

section \<open>Entering a run\<close>

interpretation at_start: run_frame False "\<lambda>_. False"
  "\<lambda>w. status w = ''FAILED'' \<and> should_teardown w \<and> begun w = b
     \<and> ((''Delete'', []) \<in> set (calls w)) = d \<and> lost_checkers w = l" for b d l
  by unfold_locales (auto simp: begun_def)

text \<open>The state in which the \<open>try\<close> block of \<open>RunBenchmark\<close> is entered.\<close>

definition enters :: "'w ops \<Rightarrow> 'w run_world mach \<Rightarrow> 'w run_world mach \<Rightarrow> bool" where
  "enters B m m1 = (status (world m1) = ''FAILED'' \<and> tears_down m1 \<and> begun (world m1) = begun (world m)
     \<and> deletes m1 = deletes m \<and> lost_checkers (world m1) = lost_checkers (world m)
     \<and> interrupt_checker (world m1) = None)"

lemma RunBenchmark_wp:
  assumes skip: "skip_pending_checks B = []"
    and body: "\<And>m1. enters B m m1 \<Longrightarrow> wp (run_body F B) (\<lambda>_ m'. Q (m'\<lparr>world := (world m')\<lparr>status := ''SUCCEEDED''\<rparr>\<rparr>)) E m1"
    and tracers: "\<And>m1. status (world m1) = ''FAILED'' \<Longrightarrow>
      wp (call (''register_tracers'', []) (register_tracers B)) (\<lambda>_ _. True) E m1"
  shows "wp (RunBenchmark F B) (\<lambda>_. Q) E m"
proof -
  let ?start = "m\<lparr>world := (world m)\<lparr>status := ''FAILED'', current_run_stage := ''provision'',
    should_teardown := True\<rparr>\<rparr>"
  let ?I = "\<lambda>m1. status (world m1) = ''FAILED'' \<and> tears_down m1 \<and> begun (world m1) = begun (world m)
     \<and> deletes m1 = deletes m \<and> lost_checkers (world m1) = lost_checkers (world m)"
  have kept: "keeps ?I (call (''register_tracers'', []) (register_tracers B))"
    by (rule at_start.keeps_call) simp_all
  have I: "?I ?start" by (simp add: begun_def)
  have run: "wp (call (''register_tracers'', []) (register_tracers B)) (\<lambda>_. ?I) E ?start"
    by (rule wp_mono [OF wp_conj [OF keepsD [OF kept, OF I] tracers]]) (use I in simp_all)
  have rest: "wp (seqM [run_body F B, set_run (\<lambda>w. w\<lparr>status := ''SUCCEEDED''\<rparr>)]) (\<lambda>_. Q) E
      (t\<lparr>world := (world t)\<lparr>end_to_end_timer := [], detailed_timer := [], interrupt_checker := None\<rparr>\<rparr>)"
    if "?I t" for t
    unfolding wp_seqM_Cons
    by (rule wp_mono [OF body])
       (use that in \<open>auto simp: enters_def begun_def set_run_def wp_modifyM wp_ret\<close>)
  have "wp (seqM [
         set_run (\<lambda>w. w\<lparr>status := ''FAILED'', current_run_stage := ''provision'',
           should_teardown := True\<rparr>),
         call (''register_tracers'', []) (register_tracers B),
         set_run (\<lambda>w. w\<lparr>end_to_end_timer := [], detailed_timer := [], interrupt_checker := None\<rparr>),
         run_body F B,
         set_run (\<lambda>w. w\<lparr>status := ''SUCCEEDED''\<rparr>)]) (\<lambda>_. Q) E m"
    unfolding seqM.simps(2) [of "set_run _"] wp_set_run_then
    by (rule wp_seqM_step [OF run], unfold seqM.simps(2) [of "set_run _"] wp_set_run_then) (rule rest)
  then show ?thesis
    using skip by (simp add: RunBenchmark_def bindM_def ret_def wp_def)
qed

lemma tracers_fail:
  "status (world m1) = ''FAILED'' \<Longrightarrow> wp (call (''register_tracers'', []) (register_tracers B))
     (\<lambda>_ _. True) (\<lambda>_ m'. status (world m') = ''FAILED'') m1"
  by (rule wp_mono [OF keepsD [OF status_kept.keeps_call]]) simp_all

lemma tracers_return:
  assumes "\<And>k. \<exists>k'. register_tracers B k = Some (Inr (), k')"
  shows "wp (call (''register_tracers'', []) (register_tracers B)) (\<lambda>_ _. True) E m1"
proof -
  obtain k' where "register_tracers B (ext_mach (m1\<lparr>world := (world m1)\<lparr>calls :=
      calls (world m1) @ [(''register_tracers'', [])]\<rparr>\<rparr>)) = Some (Inr (), k')"
    using assms by blast
  then show ?thesis by (simp add: wp_def call_def set_run_def on_ext_def py_defs)
qed

interpretation same_stages: runner_frame True "\<lambda>_. False"
  "\<lambda>w. begun w = b \<and> should_teardown w = t" for b t
  by unfold_locales (auto simp: begun_def)

lemma same_stages_finish:
  "keeps (\<lambda>m. begun (world m) = b \<and> should_teardown (world m) = t) (finish_run F B)"
  unfolding finish_run_def
  by (intro same_stages.frame_intros same_stages.keeps_EndCheckInterruptThread)
     (simp_all add: same_stages.frame_intros same_stages.keeps_EndCheckInterruptThread)

lemma on_failure_raises:
  assumes "\<And>e m. E e m"
  shows "wp (on_failure F B e) Q E m"
proof (cases "is_exception e \<or> is_interrupt e")
  case True
  show ?thesis
    unfolding on_failure_def if_P [OF True] wp_seqM_Cons
    by (rule wp_any, rule wp_any, rule wp_any, rule wp_any, rule wp_any)
       (simp_all add: wp_raise assms)
next
  case False
  then show ?thesis unfolding on_failure_def by (simp add: wp_raise assms)
qed

section \<open>Properties\<close>

text \<open>The status tells how the run ended: when no check asks to skip it, RunBenchmark leaves the
  status SUCCEEDED if it returns and FAILED if it raises, whatever its phases, the error path and
  the finally block do.\<close>

lemma RunBenchmark_status:
  assumes "skip_pending_checks B = []" and "RunBenchmark F B m = Some (r, m')"
  shows "status (world m') = (case r of Inr _ \<Rightarrow> ''SUCCEEDED'' | Inl _ \<Rightarrow> ''FAILED'')"
proof -
  have "wp (RunBenchmark F B) (\<lambda>_ m'. status (world m') = ''SUCCEEDED'')
      (\<lambda>_ m'. status (world m') = ''FAILED'') m"
  proof (rule RunBenchmark_wp [OF assms(1) _ tracers_fail])
    fix m1
    assume "enters B m m1"
    then have "status (world m1) = ''FAILED''" by (simp add: enters_def)
    from keepsD [OF status_run_body, OF this]
    show "wp (run_body F B) (\<lambda>_ m'. status (world (m'\<lparr>world := (world m')\<lparr>status := ''SUCCEEDED''\<rparr>\<rparr>)) = ''SUCCEEDED'')
        (\<lambda>_ m'. status (world m') = ''FAILED'') m1"
      by (rule wp_mono) simp_all
  qed
  with assms(2) show ?thesis by (cases r) (simp_all add: wp_def)
qed

theorem RunBenchmark_status_witness:
  "\<exists>m'. RunBenchmark (simple_run_flags [''run'']) simple_ops (simple_run False) = Some (Inr (), m')
     \<and> status (world m') = ''SUCCEEDED''"
proof -
  obtain m' where m': "RunBenchmark (simple_run_flags [''run'']) simple_ops (simple_run False)
      = Some (Inr (), m')" using simple_run_no_stage by blast
  from RunBenchmark_status [OF simple_facts(1) this] m' show ?thesis by simp
qed

text \<open>C5: Teardown is guaranteed: if the teardown stage is selected, then however the run ends, the
  resources of the benchmark have been told to delete themselves exactly if should_teardown was not
  turned off; and without skip_teardown_conditions and skip_teardown_on_command_timeout they always
  have been.  Joining the threads of an interrupt checker and registering the tracers are assumed
  not to raise.\<close>

theorem RunBenchmark_teardown:
  assumes "skip_pending_checks B = []" and "''teardown'' \<in> set (run_stage F)"
    and "(''Delete'', []) \<notin> set (calls (world m))"
    and "\<And>k. \<exists>k'. join_checks B k = Some (Inr (), k')"
    and "\<And>k. \<exists>k'. register_tracers B k = Some (Inr (), k')"
    and "RunBenchmark F B m = Some (r, m')"
  shows "((''Delete'', []) \<in> set (calls (world m'))) = should_teardown (world m')
    \<and> (skip_teardown_conditions F = [] \<longrightarrow> \<not> skip_teardown_on_command_timeout F \<longrightarrow>
       (''Delete'', []) \<in> set (calls (world m')))"
proof -
  let ?off = "skip_teardown_conditions F = [] \<and> \<not> skip_teardown_on_command_timeout F"
  let ?R = "\<lambda>m'. deletes m' = tears_down m' \<and> (?off \<longrightarrow> tears_down m')"
  have "wp (RunBenchmark F B) (\<lambda>_. ?R) (\<lambda>_. ?R) m"
  proof (rule RunBenchmark_wp [OF assms(1) _ tracers_return [OF assms(5)]])
    fix m1
    assume m1: "enters B m m1"
    have 1: "wp (run_body F B) (\<lambda>_ m'. deletes m' = tears_down m') (\<lambda>_ m'. deletes m' = tears_down m') m1"
      by (rule run_body_deletes [OF assms(2) _ assms(4)]) (use m1 assms(3) in \<open>simp add: enters_def\<close>)
    have 2: "wp (run_body F B) (\<lambda>_ m'. ?off \<longrightarrow> tears_down m') (\<lambda>_ m'. ?off \<longrightarrow> tears_down m') m1"
    proof (cases ?off)
      case True
      have "tears_down m1" using m1 by (simp add: enters_def)
      from wp_mono [OF keepsD [OF tears_down_run_body, OF _ _ this]] True show ?thesis by simp
    qed (auto intro: wp_any)
    show "wp (run_body F B) (\<lambda>_ m'. ?R (m'\<lparr>world := (world m')\<lparr>status := ''SUCCEEDED''\<rparr>\<rparr>)) (\<lambda>_. ?R) m1"
      by (rule wp_mono [OF wp_conj [OF 1 2]]) simp_all
  qed
  with assms(6) have "?R m'" by (cases r) (simp_all add: wp_def)
  then show ?thesis by blast
qed

theorem RunBenchmark_teardown_witness:
  "\<exists>m'. RunBenchmark (simple_run_flags [''provision'', ''teardown'']) simple_ops (simple_run False)
       = Some (Inr (), m') \<and> (''Delete'', []) \<in> set (calls (world m'))"
proof -
  obtain m' where m': "RunBenchmark (simple_run_flags [''provision'', ''teardown'']) simple_ops
      (simple_run False) = Some (Inr (), m')" using simple_run_teardown by blast
  from RunBenchmark_teardown [OF simple_facts(1) _ _ simple_facts(2,3) this] m' show ?thesis
    by (auto simp: simple_facts)
qed

text \<open>C7: No interrupt checker is left running: however the run ends, every InterruptChecker that was
  started has had its event set, so that its threads stop; none is dropped before that.\<close>

theorem RunBenchmark_checkers_end:
  assumes "skip_pending_checks B = []"
    and "\<And>k. \<exists>k'. register_tracers B k = Some (Inr (), k')"
    and "RunBenchmark F B m = Some (r, m')"
  shows "lost_checkers (world m') = lost_checkers (world m)
    \<and> interrupt_checker (world m') \<noteq> Some False"
proof -
  have "wp (RunBenchmark F B) (\<lambda>_. quiet (lost_checkers (world m))) (\<lambda>_. quiet (lost_checkers (world m))) m"
  proof (rule RunBenchmark_wp [OF assms(1) _ tracers_return [OF assms(2)]])
    fix m1
    assume "enters B m m1"
    then have "quiet (lost_checkers (world m)) m1" by (simp add: enters_def)
    from run_body_quiet [OF this, of F B]
    show "wp (run_body F B) (\<lambda>_ m'. quiet (lost_checkers (world m)) (m'\<lparr>world := (world m')\<lparr>status := ''SUCCEEDED''\<rparr>\<rparr>))
        (\<lambda>_. quiet (lost_checkers (world m))) m1"
      by (rule wp_mono) simp_all
  qed
  with assms(3) show ?thesis by (cases r) (simp_all add: wp_def)
qed

theorem RunBenchmark_checkers_end_witness:
  "\<exists>m'. RunBenchmark (simple_run_flags [''run'']) simple_ops (simple_run False) = Some (Inr (), m')
     \<and> lost_checkers (world m') = 0"
proof -
  obtain m' where m': "RunBenchmark (simple_run_flags [''run'']) simple_ops (simple_run False)
      = Some (Inr (), m')" using simple_run_no_stage by blast
  from RunBenchmark_checkers_end [OF simple_facts(1,3) this] m' show ?thesis
    by (simp add: simple_facts)
qed

text \<open>C6: A run that succeeds has gone through every selected stage, in one order: provision, prepare,
  prepare_system, install_packages, start_services, run, cleanup and teardown, the last one unless
  it was skipped; the stages begun during the run, without repetitions of the run stage, are exactly
  these.  In particular packages are installed after the system was prepared.\<close>

theorem RunBenchmark_stage_order:
  fixes m :: "'w run_world mach"
  assumes "skip_pending_checks B = []" and "begun (world m) = []"
    and "RunBenchmark F B m = Some (Inr u, m')"
  shows "remdups_adj (begun (world m')) = filter (\<lambda>s. s \<in> set (run_stage F)
     \<and> (s = ''teardown'' \<longrightarrow> should_teardown (world m'))) RUN_ORDER"
proof -
  let ?went = "\<lambda>w. remdups_adj (begun w) = filter (\<lambda>s. s \<in> set (run_stage F)
     \<and> (s = ''teardown'' \<longrightarrow> should_teardown w)) RUN_ORDER"
  let ?same = "\<lambda>w w'. begun w' = begun w \<and> should_teardown w' = should_teardown w"
  have body: "wp (run_body F B) (\<lambda>_ m'. ?went (world m')) (\<lambda>_ _. True) m1"
    if m1: "begun (world m1) = []" for m1
  proof -
    have stages: "wp (Measure at_end_to_end ''End to End'' (all_stages F B))
        (\<lambda>_ m'. ?went (world m')) (\<lambda>_ _. True) m1"
      unfolding Measure_def wp_bindM
    proof (rule wp_mono [OF keepsD [OF begun_kept.keeps_clock(1), OF m1]])
      fix t and t1 :: "'w run_world mach"
      assume "begun (world t1) = []"
      from all_stages_order [OF this, of F B]
      show "wp (all_stages F B) (\<lambda>x. wp time_time (\<lambda>stop. wp (thenM
          (modifyM (over at_end_to_end (\<lambda>ivs. ivs @ [(''End to End'', t, stop)]))) (ret x))
          (\<lambda>_ m'. ?went (world m')) (\<lambda>_ _. True)) (\<lambda>_ _. True)) (\<lambda>_ _. True) t1"
        by (rule wp_mono)
           (auto simp: wp_def time_time_eq Let_def py_defs at_end_to_end_def begun_def)
    qed simp
    have samples: "wp (final_samples F B) (\<lambda>_ m'. ?went (world m')) (\<lambda>_ _. True) t"
      if "?went (world t)" for t
      by (rule wp_mono [OF keepsD [OF same_stages.keeps_final_samples, OF conjI, OF refl refl]])
         (use that in auto)
    have finish: "wp (finish_run F B) (\<lambda>_ m'. ?went (world m')) (\<lambda>_ _. True) t"
      if "?went (world t)" for t
      by (rule wp_mono [OF keepsD [OF same_stages_finish, OF conjI, OF refl refl]])
         (use that in auto)
    show ?thesis
      unfolding run_body_def wp_finallyM wp_catchM wp_thenM
      by (rule wp_mono [OF stages], rule wp_mono [OF samples], assumption, rule finish, assumption,
          rule on_failure_raises, rule wp_any, simp, simp, rule on_failure_raises, rule wp_any, simp, simp)
  qed
  have "wp (RunBenchmark F B) (\<lambda>_ m'. ?went (world m')) (\<lambda>_ _. True) m"
  proof (rule RunBenchmark_wp [OF assms(1)])
    fix m1
    assume "enters B m m1"
    then have "begun (world m1) = []" using assms(2) by (simp add: enters_def)
    from body [OF this]
    show "wp (run_body F B) (\<lambda>_ m'. ?went (world (m'\<lparr>world := (world m')\<lparr>status := ''SUCCEEDED''\<rparr>\<rparr>)))
       (\<lambda>_ _. True) m1" by simp
  qed (rule wp_any, simp_all)
  from wp_returnsD [OF this assms(3)] show ?thesis .
qed

theorem RunBenchmark_stage_order_witness:
  "\<exists>m'. RunBenchmark (simple_run_flags [''provision'', ''teardown'']) simple_ops (simple_run False)
       = Some (Inr (), m') \<and> remdups_adj (begun (world m')) =
         filter (\<lambda>s. s \<in> {''provision'', ''teardown''}
           \<and> (if s = ''teardown'' then should_teardown (world m') else True)) RUN_ORDER"
proof -
  obtain m' where m': "RunBenchmark (simple_run_flags [''provision'', ''teardown'']) simple_ops
      (simple_run False) = Some (Inr (), m')" using simple_run_teardown by blast
  have "begun (world (simple_run False)) = []" by (simp add: begun_def simple_facts)
  from RunBenchmark_stage_order [OF simple_facts(1) this m'] m' show ?thesis
    by (auto simp: simple_facts RUN_ORDER_def)
qed

text \<open>C8: Without --run_stage_time the run phase ends, and if it does not raise, the run stage has been
  begun run_stage_iterations times, but at least once; the methods it calls are assumed to return.\<close>

theorem DoRunPhase_iterations:
  assumes "run_stage_time F \<le> 0" and "run_methods_return B"
  shows "\<exists>r m'. DoRunPhase F B m = Some (r, m') \<and>
    (r = Inr () \<longrightarrow> begun (world m')
       = begun (world m) @ replicate (nat (max 1 (run_stage_iterations F))) ''run'')"
proof -
  have input: "returns (whenM (before_run_pause F) (on_ext (read_input B ''Hit enter to begin Run.'')))"
    using assms(2) unfolding run_methods_return_def by (intro returns_whenM returns_on_ext) blast
  have loop: "returns (run_loop F B d 0 0 p)" for d p
    by (rule returnsI) (rule run_loop_returns [OF assms(1) returns_run_pass [OF assms(2)]])
  have "returns (DoRunPhase F B)"
    unfolding DoRunPhase_def by (intro returns_thenM returns_bindM input returns_clock loop)
  from returnsD [OF this, of m] obtain r m' where run: "DoRunPhase F B m = Some (r, m')" by auto
  have kept: "keeps (\<lambda>m'. begun (world m') = begun (world m)) (whenM (before_run_pause F)
      (on_ext (read_input B ''Hit enter to begin Run.'')))"
    by (intro begun_kept.frame_intros)
  have each: "wp (run_loop F B d 0 0 p) (\<lambda>_ m'. begun (world m')
       = begun (world m) @ replicate (nat (max 1 (run_stage_iterations F))) ''run'') (\<lambda>_ _. True) t"
    if "begun (world t) = begun (world m)" for d p and t :: "'a run_world mach"
    by (rule wpI) (use run_loop_iterations [OF assms(1), of B d 0 0 p t] that in auto)
  have "wp (DoRunPhase F B) (\<lambda>_ m'. begun (world m')
       = begun (world m) @ replicate (nat (max 1 (run_stage_iterations F))) ''run'') (\<lambda>_ _. True) m"
    unfolding DoRunPhase_def wp_thenM wp_bindM
    by (rule wp_mono [OF keepsD [OF kept, OF refl]],
        rule wp_mono [OF keepsD [OF begun_kept.keeps_clock(1)]], assumption,
        rule wp_mono [OF keepsD [OF begun_kept.keeps_clock(1)]], assumption, rule each) simp_all
  with run show ?thesis by (auto dest: wp_returnsD)
qed

theorem DoRunPhase_iterations_witness:
  "\<exists>m'. DoRunPhase (simple_run_flags [''run'']) simple_ops (simple_run False) = Some (Inr (), m')
     \<and> begun (world m') = [''run'']"
proof -
  have "run_methods_return simple_ops"
    by (auto simp: run_methods_return_def simple_ops_def env_returns_def quiet_env_def)
  from DoRunPhase_iterations [OF _ this, of "simple_run_flags [''run'']" "simple_run False"]
  obtain r m' where "DoRunPhase (simple_run_flags [''run'']) simple_ops (simple_run False) = Some (r, m')"
    "r = Inr () \<longrightarrow> begun (world m') = [''run'']"
    by (auto simp: simple_facts begun_def)
  with simple_DoRunPhase show ?thesis by auto
qed

text \<open>A run stage that fails counts as an iteration: with one iteration and at least one allowed
  failure, a benchmark whose Run raises is not run again, the run ends without an error, its status
  is SUCCEEDED and it has no sample.\<close>

lemma failed_run_counts_as_success:
  assumes "is_exception e" and "1 \<le> retries"
  shows "\<exists>m'. RunBenchmark ((simple_run_flags [''run''])\<lparr>run_stage_retries := retries\<rparr>)
      (simple_ops\<lparr>BenchmarkRun := raise e\<rparr>) (simple_run False) = Some (Inr (), m')
    \<and> status (world m') = ''SUCCEEDED'' \<and> all_samples (run_collector (world m')) = []
    \<and> begun (world m') = [''run'']"
  using assms
  unfolding eval_benchmark eval_phases DoRunPhase_def
  by (simp add: eval_run eval_simple AddSamples_def PublishSamples_def run_loop.simps run_pass_def
      run_iteration_def run_attempt_def run_samples_def extras_of_run_def maybe_publish_def
      IsRunStageFinished_def before_def after_def collect_def begun_def all_samples_def
      EndToEndRuntimeMeasurementEnabled_def RuntimeMeasurementsEnabled_def interrupted_def)

theorem failed_run_counts_as_success_witness:
  "\<exists>m'. RunBenchmark ((simple_run_flags [''run''])\<lparr>run_stage_retries := 3\<rparr>)
      (simple_ops\<lparr>BenchmarkRun := raise (exn (Benchmarks RunError) [])\<rparr>) (simple_run False)
      = Some (Inr (), m') \<and> status (world m') = ''SUCCEEDED''"
  using failed_run_counts_as_success [of "exn (Benchmarks RunError) []" 3]
  by (auto simp: is_exception_def issubclass_def)

end
