(* ===== verification/Zones.thy ===== *)
theory Zones
  imports Conditions "HOL-Library.List_Lexorder" "HOL-Library.Char_ord"
begin

text \<open>
  \<open>ZoneRetryManager\<close> of \<open>perfkitbenchmarker/pkb.py\<close>: which zone a retried benchmark uses.

  The provider's functions on zones and regions are parameters (\<open>zone_utils\<close>), and so is
  \<open>random.choice\<close>: \<open>choice i S\<close> is the element that the \<open>i\<close>-th call takes from a nonempty set.
\<close>

section \<open>State\<close>

record zone_utils =
  GetZonesFromMachineType :: "string \<Rightarrow> string set"
  GetRegionFromZone :: "string \<Rightarrow> string"
  GetZonesInRegion :: "string \<Rightarrow> string set"
  choice :: "nat \<Rightarrow> string set \<Rightarrow> string"

record zone_flags =
  flag_zone :: "string list"
  flag_zones :: "string list"
  smart_capacity_retry :: bool
  smart_quota_retry :: bool
  retries :: int

datatype zone_flag = ZoneFlag | ZonesFlag

record zone_manager =
  flags_now :: zone_flags
  used_flag :: zone_flag
  supported_zones :: "string set"
  zones_tried :: "string set"
  regions_tried :: "string set"
  original_zone :: "string option"
  original_region :: string
  choices :: nat

definition flag_value :: "zone_flag \<Rightarrow> zone_flags \<Rightarrow> string list" where
  "flag_value f F = (case f of ZoneFlag \<Rightarrow> flag_zone F | ZonesFlag \<Rightarrow> flag_zones F)"

definition set_flag_value :: "zone_flag \<Rightarrow> string list \<Rightarrow> zone_flags \<Rightarrow> zone_flags" where
  "set_flag_value f v F = (case f of ZoneFlag \<Rightarrow> F\<lparr>flag_zone := v\<rparr> | ZonesFlag \<Rightarrow> F\<lparr>flag_zones := v\<rparr>)"

definition GetCurrentZoneFlag :: "zone_manager \<Rightarrow> string" where
  "GetCurrentZoneFlag z = hd (flag_value (used_flag z) (flags_now z))"

section \<open>Operations\<close>

definition attribute_error :: exn where
  "attribute_error = exn (Builtin AttributeError) []"

definition missing_machine_type :: exn where
  "missing_machine_type = exn (Config MissingOption) ''machine_type flag must be specified''"

text \<open>\<open>_CheckFlag\<close>: the flag that is used, and the flags afterwards.\<close>

definition check_one ::
  "string list \<Rightarrow> zone_flag \<Rightarrow> zone_flag option \<times> zone_flags \<Rightarrow> exn + zone_flag option \<times> zone_flags"
where
  "check_one machine_types f s = (case s of (used, F) \<Rightarrow>
     if flag_value f F = [] then Inr (used, F)
     else if hd (flag_value f F) = ''any'' then
       if machine_types = [] then Inl missing_machine_type
       else Inr (Some f, F\<lparr>smart_capacity_retry := True, smart_quota_retry := True\<rparr>)
     else Inr (Some f, F))"

definition CheckFlag :: "string list \<Rightarrow> zone_flags \<Rightarrow> exn + zone_flag option \<times> zone_flags" where
  "CheckFlag machine_types F = (case check_one machine_types ZoneFlag (None, F) of
     Inl e \<Rightarrow> Inl e | Inr s \<Rightarrow> check_one machine_types ZonesFlag s)"

definition ChooseAndSetNewZone :: "zone_utils \<Rightarrow> string set \<Rightarrow> zone_manager \<Rightarrow> exn + zone_manager" where
  "ChooseAndSetNewZone U possible_zones z =
     (let current_zone = GetCurrentZoneFlag z;
          tried = (if current_zone = ''any'' then zones_tried z else insert current_zone (zones_tried z));
          zones_to_try = possible_zones - tried;
          set_zone = (\<lambda>z n. z\<lparr>flags_now := set_flag_value (used_flag z) [n] (flags_now z)\<rparr>)
      in if zones_to_try = {}
         then (case original_zone z of
                 None \<Rightarrow> Inl attribute_error
               | Some n \<Rightarrow> Inr (set_zone (z\<lparr>zones_tried := {}\<rparr>) n))
         else Inr (set_zone (z\<lparr>zones_tried := tried, choices := Suc (choices z)\<rparr>)
                (choice U (choices z) zones_to_try)))"

definition AssignZoneToNewRegion :: "zone_utils \<Rightarrow> zone_manager \<Rightarrow> exn + zone_manager" where
  "AssignZoneToNewRegion U z =
     (let region = GetRegionFromZone U (GetCurrentZoneFlag z);
          tried = insert region (regions_tried z);
          regions_to_try = GetRegionFromZone U ` supported_zones z - tried
      in if regions_to_try = {}
         then ChooseAndSetNewZone U (GetZonesInRegion U (original_region z)) (z\<lparr>regions_tried := {}\<rparr>)
         else ChooseAndSetNewZone U
                (GetZonesInRegion U (choice U (choices z) regions_to_try))
                (z\<lparr>regions_tried := tried, choices := Suc (choices z)\<rparr>))"

definition AssignZoneToSameRegion :: "zone_utils \<Rightarrow> zone_manager \<Rightarrow> exn + zone_manager" where
  "AssignZoneToSameRegion U z =
     ChooseAndSetNewZone U (GetZonesInRegion U (original_region z) \<inter> supported_zones z) z"

definition HandleSmartRetries ::
  "zone_utils \<Rightarrow> FailedSubstatus option \<Rightarrow> zone_manager \<Rightarrow> exn + zone_manager" where
  "HandleSmartRetries U substatus z =
     (if smart_quota_retry (flags_now z) \<and> substatus = Some QUOTA then AssignZoneToNewRegion U z
      else if smart_capacity_retry (flags_now z)
              \<and> (substatus = Some UNSUPPORTED \<or> substatus = Some INSUFFICIENT_CAPACITY)
      then AssignZoneToSameRegion U z
      else Inr z)"

definition SetOriginalZoneAndFlag ::
  "zone_utils \<Rightarrow> string list \<Rightarrow> zone_manager \<Rightarrow> exn + zone_manager" where
  "SetOriginalZoneAndFlag U machine_types z =
     (case machine_types of
        [] \<Rightarrow> Inl (exn (Builtin IndexError) [])
      | t # ts \<Rightarrow>
          let supported = foldl (\<lambda>S u. S \<inter> GetZonesFromMachineType U u) (GetZonesFromMachineType U t) ts;
              z = z\<lparr>supported_zones := supported\<rparr>;
              z' = (if GetCurrentZoneFlag z = ''any'' then
                      let F = flags_now z;
                          F = (if retries F < 1 then F\<lparr>retries := int (card supported)\<rparr> else F)
                      in ChooseAndSetNewZone U supported (z\<lparr>flags_now := F\<rparr>)
                    else Inr z)
          in case z' of
               Inl e \<Rightarrow> Inl e
             | Inr z \<Rightarrow> Inr (z\<lparr>original_zone := Some (GetCurrentZoneFlag z),
                 original_region := GetRegionFromZone U (GetCurrentZoneFlag z)\<rparr>))"

text \<open>\<open>__init__\<close>: without smart retries the manager has no state beyond the flags.\<close>

definition new_ZoneRetryManager ::
  "zone_utils \<Rightarrow> string list \<Rightarrow> zone_flags \<Rightarrow> exn + zone_flags + zone_manager" where
  "new_ZoneRetryManager U machine_types F =
     (case CheckFlag machine_types F of
        Inl e \<Rightarrow> Inl e
      | Inr (used, F') \<Rightarrow>
          if \<not> smart_capacity_retry F' \<and> \<not> smart_quota_retry F' then Inr (Inl F')
          else (case used of
              None \<Rightarrow> Inl attribute_error
            | Some f \<Rightarrow>
                (case SetOriginalZoneAndFlag U machine_types
                    \<lparr>flags_now = F', used_flag = f, supported_zones = {}, zones_tried = {},
                     regions_tried = {}, original_zone = None, original_region = [], choices = 0\<rparr> of
                   Inl e \<Rightarrow> Inl e
                 | Inr z \<Rightarrow> Inr (Inr z))))"

section \<open>Zones that are tried\<close>

definition chooses_from :: "zone_utils \<Rightarrow> bool" where
  "chooses_from U = (\<forall>i S. finite S \<longrightarrow> S \<noteq> {} \<longrightarrow> choice U i S \<in> S)"

lemma current_set_flag [simp]:
  "GetCurrentZoneFlag (z\<lparr>flags_now := set_flag_value (used_flag z) [n] F\<rparr>) = n"
  by (simp add: GetCurrentZoneFlag_def set_flag_value_def flag_value_def split: zone_flag.split)

lemma ChooseAndSetNewZone_new:
  assumes "ChooseAndSetNewZone U P z = Inr z'" and "GetCurrentZoneFlag z \<noteq> ''any''"
    and "P - insert (GetCurrentZoneFlag z) (zones_tried z) \<noteq> {}" and "chooses_from U"
    and "finite P"
  shows "GetCurrentZoneFlag z' \<in> P - insert (GetCurrentZoneFlag z) (zones_tried z)"
    and "zones_tried z' = insert (GetCurrentZoneFlag z) (zones_tried z)"
    and "original_zone z' = original_zone z" and "original_region z' = original_region z"
    and "supported_zones z' = supported_zones z" and "used_flag z' = used_flag z"
proof -
  let ?S = "P - insert (GetCurrentZoneFlag z) (zones_tried z)"
  let ?z = "z\<lparr>zones_tried := insert (GetCurrentZoneFlag z) (zones_tried z), choices := Suc (choices z)\<rparr>"
  have z': "z' = ?z\<lparr>flags_now := set_flag_value (used_flag ?z) [choice U (choices z) ?S] (flags_now ?z)\<rparr>"
    using assms(1-3) by (simp add: ChooseAndSetNewZone_def Let_def)
  have "choice U (choices z) ?S \<in> ?S" using assms(4) finite_Diff [OF assms(5)] assms(3)
    by (simp only: chooses_from_def not_False_eq_True)
  then show "GetCurrentZoneFlag z' \<in> ?S" unfolding z' current_set_flag .
  show "zones_tried z' = insert (GetCurrentZoneFlag z) (zones_tried z)"
    "original_zone z' = original_zone z" "original_region z' = original_region z"
    "supported_zones z' = supported_zones z" "used_flag z' = used_flag z"
    unfolding z' by simp_all
qed

text \<open>The zones of successive retries in the same region.\<close>

fun same_region_zones :: "zone_utils \<Rightarrow> nat \<Rightarrow> zone_manager \<Rightarrow> exn + string list" where
  "same_region_zones U 0 z = Inr [GetCurrentZoneFlag z]"
| "same_region_zones U (Suc n) z = (case AssignZoneToSameRegion U z of
     Inl e \<Rightarrow> Inl e
   | Inr z' \<Rightarrow> (case same_region_zones U n z' of
       Inl e \<Rightarrow> Inl e | Inr zs \<Rightarrow> Inr (GetCurrentZoneFlag z # zs)))"

definition region_zones :: "zone_utils \<Rightarrow> zone_manager \<Rightarrow> string set" where
  "region_zones U z = GetZonesInRegion U (original_region z) \<inter> supported_zones z"

lemma same_region_distinct:
  assumes "chooses_from U"
  shows "\<lbrakk>finite (region_zones U z); ''any'' \<notin> region_zones U z; GetCurrentZoneFlag z \<in> region_zones U z;
     zones_tried z \<subseteq> region_zones U z; GetCurrentZoneFlag z \<notin> zones_tried z;
     n + card (zones_tried z) < card (region_zones U z)\<rbrakk>
   \<Longrightarrow> \<exists>zs. same_region_zones U n z = Inr zs \<and> distinct zs \<and> length zs = Suc n
     \<and> set zs \<subseteq> region_zones U z - zones_tried z"
proof (induction n arbitrary: z)
  case 0
  then show ?case by simp
next
  case (Suc n)
  let ?P = "region_zones U z" and ?c = "GetCurrentZoneFlag z"
  have fin: "finite (zones_tried z)" using Suc.prems(1,4) finite_subset by blast
  have c_any: "?c \<noteq> ''any''" using Suc.prems(2,3) by metis
  have card: "card (insert ?c (zones_tried z)) = Suc (card (zones_tried z))"
    using fin Suc.prems(5) by simp
  have ne: "?P - insert ?c (zones_tried z) \<noteq> {}"
  proof
    assume "?P - insert ?c (zones_tried z) = {}"
    then have "?P \<subseteq> insert ?c (zones_tried z)" by blast
    then have "card ?P \<le> Suc (card (zones_tried z))"
      using card_mono [of "insert ?c (zones_tried z)" ?P] fin card by simp
    with Suc.prems(6) show False by simp
  qed
  have "\<exists>z'. ChooseAndSetNewZone U ?P z = Inr z'"
    using ne c_any by (simp add: ChooseAndSetNewZone_def Let_def)
  then obtain z' where z': "ChooseAndSetNewZone U ?P z = Inr z'" by blast
  note new = ChooseAndSetNewZone_new [OF z' c_any ne assms Suc.prems(1)]
  have P: "region_zones U z' = ?P" using new(4,5) by (simp add: region_zones_def)
  have "\<exists>zs. same_region_zones U n z' = Inr zs \<and> distinct zs \<and> length zs = Suc n
      \<and> set zs \<subseteq> region_zones U z' - zones_tried z'"
  proof (rule Suc.IH)
    show "finite (region_zones U z')" "''any'' \<notin> region_zones U z'" using Suc.prems(1,2) P by simp_all
    show "GetCurrentZoneFlag z' \<in> region_zones U z'" "GetCurrentZoneFlag z' \<notin> zones_tried z'"
      using new(1,2) P by simp_all
    show "zones_tried z' \<subseteq> region_zones U z'" using new(2) P Suc.prems(3,4) by simp
    show "n + card (zones_tried z') < card (region_zones U z')"
      using Suc.prems(6) card new(2) P by simp
  qed
  then obtain zs where zs: "same_region_zones U n z' = Inr zs"
    "distinct zs" "length zs = Suc n" "set zs \<subseteq> ?P - insert ?c (zones_tried z)"
    unfolding P new(2) by blast
  have "AssignZoneToSameRegion U z = Inr z'"
    using z' by (simp add: AssignZoneToSameRegion_def region_zones_def)
  with zs Suc.prems(3,5) show ?case by auto
qed

section \<open>Properties\<close>

text \<open>C23: Capacity retries do not repeat a zone: from a manager that has tried no zone yet and whose
  current zone is one of the supported zones of its region, the zones of successive retries in the
  same region are pairwise distinct and supported, until every zone of the region has been used.\<close>

theorem same_region_retries_distinct:
  assumes "chooses_from U" and "finite (region_zones U z)" and "''any'' \<notin> region_zones U z"
    and "GetCurrentZoneFlag z \<in> region_zones U z" and "zones_tried z = {}"
    and "n < card (region_zones U z)"
  shows "\<exists>zs. same_region_zones U n z = Inr zs \<and> distinct zs \<and> length zs = Suc n
     \<and> set zs \<subseteq> region_zones U z"
  using same_region_distinct [OF assms(1-4)] assms(5,6) by auto

definition two_regions :: zone_utils where
  "two_regions = \<lparr>GetZonesFromMachineType = (\<lambda>_. {''a1'', ''a2'', ''b1''}),
     GetRegionFromZone = take 1,
     GetZonesInRegion = (\<lambda>r. if r = ''a'' then {''a1'', ''a2''} else {''b1'', ''b2''}),
     choice = (\<lambda>_. Max)\<rparr>"

definition in_zone :: "string \<Rightarrow> zone_flags" where
  "in_zone z = \<lparr>flag_zone = [z], flag_zones = [], smart_capacity_retry = True,
     smart_quota_retry = True, retries = 3\<rparr>"

definition manager_in :: "string \<Rightarrow> string \<Rightarrow> zone_manager" where
  "manager_in z first = \<lparr>flags_now = in_zone z, used_flag = ZoneFlag,
     supported_zones = {''a1'', ''a2'', ''b1''}, zones_tried = {}, regions_tried = {},
     original_zone = Some first, original_region = take 1 first, choices = 0\<rparr>"

lemma two_regions_chooses: "chooses_from two_regions"
  by (simp add: chooses_from_def two_regions_def)

lemma new_manager: "new_ZoneRetryManager two_regions [''m''] (in_zone ''a1'') = Inr (Inr (manager_in ''a1'' ''a1''))"
  by (simp add: new_ZoneRetryManager_def CheckFlag_def check_one_def flag_value_def in_zone_def
      SetOriginalZoneAndFlag_def GetCurrentZoneFlag_def two_regions_def manager_in_def)

lemma eval_order: "''b1'' < (''b2'' :: string)" "''a1'' < (''a2'' :: string)" "''a2'' < (''b1'' :: string)"
  by (simp_all add: less_char_def)

theorem same_region_retries_distinct_witness:
  "\<exists>zs. same_region_zones two_regions 1 (manager_in ''a1'' ''a1'') = Inr zs \<and> distinct zs
     \<and> length zs = 2"
  using same_region_retries_distinct [OF two_regions_chooses, of "manager_in ''a1'' ''a1''" 1]
  by (auto simp: region_zones_def manager_in_def two_regions_def GetCurrentZoneFlag_def in_zone_def
      flag_value_def Int_insert_left)

text \<open>A quota retry may leave the supported zones: it chooses among all zones of the new region,
  not among those that offer the machine types, although a capacity retry does intersect them; and
  a capacity retry after it goes back to the region of the first run instead of staying in the
  region where the capacity was missing.\<close>

lemma quota_retry_unsupported_zone:
  "\<exists>z1 z2 z3. new_ZoneRetryManager two_regions [''m''] (in_zone ''a1'') = Inr (Inr z1)
     \<and> HandleSmartRetries two_regions (Some QUOTA) z1 = Inr z2
     \<and> GetCurrentZoneFlag z2 \<notin> supported_zones z2
     \<and> HandleSmartRetries two_regions (Some INSUFFICIENT_CAPACITY) z2 = Inr z3
     \<and> GetRegionFromZone two_regions (GetCurrentZoneFlag z3)
         \<noteq> GetRegionFromZone two_regions (GetCurrentZoneFlag z2)"
proof -
  let ?z1 = "manager_in ''a1'' ''a1''"
  let ?z2 = "?z1\<lparr>flags_now := in_zone ''b2'', zones_tried := {''a1''}, regions_tried := {''a''}, choices := 2\<rparr>"
  let ?z3 = "?z2\<lparr>flags_now := in_zone ''a2'', zones_tried := {''a1'', ''b2''}, choices := 3\<rparr>"
  have "HandleSmartRetries two_regions (Some QUOTA) ?z1 = Inr ?z2"
    by (simp add: HandleSmartRetries_def AssignZoneToNewRegion_def ChooseAndSetNewZone_def
        manager_in_def in_zone_def two_regions_def GetCurrentZoneFlag_def flag_value_def
        set_flag_value_def insert_Diff_if Let_def max_def less_char_def)
  moreover have "HandleSmartRetries two_regions (Some INSUFFICIENT_CAPACITY) ?z2 = Inr ?z3"
    by (simp add: HandleSmartRetries_def AssignZoneToSameRegion_def ChooseAndSetNewZone_def
        manager_in_def in_zone_def two_regions_def GetCurrentZoneFlag_def flag_value_def
        set_flag_value_def insert_Diff_if Int_insert_left Let_def insert_commute)
  moreover have "GetCurrentZoneFlag ?z2 = ''b2''" "GetCurrentZoneFlag ?z3 = ''a2''"
    by (simp_all add: GetCurrentZoneFlag_def flag_value_def in_zone_def manager_in_def)
  ultimately show ?thesis
    using new_manager by (intro exI [of _ ?z1] exI [of _ ?z2] exI [of _ ?z3])
      (simp add: two_regions_def manager_in_def)
qed

definition any_zone :: zone_flags where
  "any_zone = \<lparr>flag_zone = [''any''], flag_zones = [], smart_capacity_retry = False,
     smart_quota_retry = False, retries = 0\<rparr>"

text \<open>The zone any is only resolved for the first benchmark: its manager overwrites the global
  zone flag, so the manager of the next benchmark finds a concrete zone there, and it keeps this
  zone even if the machine types of its own benchmark are not offered in it.\<close>

lemma any_zone_resolved_once:
  "\<exists>z1 z2. new_ZoneRetryManager (two_regions\<lparr>GetZonesFromMachineType :=
         (\<lambda>t. if t = ''m1'' then {''a1''} else {''b1''})\<rparr>) [''m1''] any_zone = Inr (Inr z1)
     \<and> GetCurrentZoneFlag z1 \<in> supported_zones z1
     \<and> new_ZoneRetryManager (two_regions\<lparr>GetZonesFromMachineType :=
         (\<lambda>t. if t = ''m1'' then {''a1''} else {''b1''})\<rparr>) [''m2''] (flags_now z1) = Inr (Inr z2)
     \<and> GetCurrentZoneFlag z2 \<notin> supported_zones z2"
  by (simp add: new_ZoneRetryManager_def CheckFlag_def check_one_def flag_value_def any_zone_def
      SetOriginalZoneAndFlag_def ChooseAndSetNewZone_def GetCurrentZoneFlag_def set_flag_value_def
      two_regions_def Let_def)

end
