(* ===== verification/Task.thy ===== *)
theory Task
  imports RunProperties Zones
begin

text \<open>
  \<open>RunBenchmarkTask\<close> and \<open>RunBenchmarks\<close> of \<open>perfkitbenchmarker/pkb.py\<close>: the attempts at one
  benchmark, and the exit status of the whole program.

  Every attempt runs a deep copy of the spec; \<open>deepcopy\<close> resets the part of the outside world that
  belongs to the spec.  The methods of an attempt (\<open>task_ops\<close>) depend on the run URI and on the zone
  flags that are in force.  \<open>_TEARDOWN_EVENT\<close> is shared with other processes, so it is part of the
  outside world as well.
\<close>

section \<open>One benchmark\<close>

record 'w task =
  task_spec :: "'w run_world"
  sequence_number :: nat
  task_ops :: "string \<Rightarrow> zone_flags \<Rightarrow> 'w ops"
  vm_group_machine_types :: "string list"

record 'w task_env =
  run_processes :: "int option"
  flag_run_uri :: string
  flag_machine_type :: string
  retry_substatuses :: "FailedSubstatus list"
  retry_delay_seconds :: int
  stop_after_benchmark_failure :: bool
  provider_utils :: zone_utils
  task_run_flags :: run_flags
  deepcopy :: "'w \<Rightarrow> 'w"
  teardown_is_set :: "'w \<Rightarrow> bool"
  teardown_set :: "'w \<Rightarrow> 'w"
  str_of_nat :: "nat \<Rightarrow> string"

definition ShouldRetry :: "'w task_env \<Rightarrow> 'w run_world \<Rightarrow> bool" where
  "ShouldRetry E w = (status w = ''FAILED'' \<and> failed_substatus w \<in> Some ` set (retry_substatuses E))"

definition GetMachineTypes :: "'w task_env \<Rightarrow> 'w task \<Rightarrow> string list" where
  "GetMachineTypes E T = (if flag_machine_type E \<noteq> [] then [flag_machine_type E]
     else sort (remdups (vm_group_machine_types T)))"

text \<open>A manager of an unused zone feature (\<open>Inl\<close>) has no state but the flags.\<close>

type_synonym smart_zones = "zone_flags + zone_manager"

definition flags_of :: "smart_zones \<Rightarrow> zone_flags" where
  "flags_of z = (case z of Inl F \<Rightarrow> F | Inr m \<Rightarrow> flags_now m)"

definition smart_retry ::
  "zone_utils \<Rightarrow> FailedSubstatus option \<Rightarrow> smart_zones \<Rightarrow> exn + smart_zones" where
  "smart_retry U substatus z = (case z of Inl F \<Rightarrow> Inr (Inl F)
     | Inr m \<Rightarrow> (case HandleSmartRetries U substatus m of Inl e \<Rightarrow> Inl e | Inr m' \<Rightarrow> Inr (Inr m')))"

text \<open>The run URI of a task: parallel tasks have one each.\<close>

definition task_run_uri :: "'w task_env \<Rightarrow> 'w task \<Rightarrow> string" where
  "task_run_uri E T = (case run_processes E of
     Some n \<Rightarrow> if n > 1 then flag_run_uri E @ str_of_nat E (sequence_number T) else flag_run_uri E
   | None \<Rightarrow> flag_run_uri E)"

definition spec_for_run :: "'w task_env \<Rightarrow> 'w task \<Rightarrow> 'w run_world \<Rightarrow> 'w run_world" where
  "spec_for_run E T w = (task_spec T)\<lparr>run_collector := new_collector, ext := deepcopy E (ext w)\<rparr>"

text \<open>One attempt: the exception that was caught, if any.\<close>

definition one_run :: "'w task_env \<Rightarrow> 'w task \<Rightarrow> zone_flags \<Rightarrow> ('w, exn option) run" where
  "one_run E T F =
     thenM (set_run (spec_for_run E T))
       (catchM (thenM (RunBenchmark (task_run_flags E) (task_ops T (task_run_uri E T) F)) (ret None))
         (\<lambda>e. ret (Some e)))"

definition unbound_collector :: exn where
  "unbound_collector = exn (Subclass (Subclass (Builtin Exception) ''NameError'' None) ''UnboundLocalError'' None)
     ''local variable 'collector' referenced before assignment''"

type_synonym 'w task_result = "'w run_world list \<times> sample_dict list"

definition task_results ::
  "smart_zones \<Rightarrow> 'w run_world list \<Rightarrow> ('w, zone_flags \<times> 'w task_result) run" where
  "task_results z specs = (if specs = [] then raise unbound_collector
     else bindM (get_run (\<lambda>w. samples (run_collector w))) (\<lambda>ss. ret (flags_of z, specs, ss)))"

text \<open>
  What follows an attempt that left the spec \<open>w\<close>: leave the loop, or wait and go on with \<open>again\<close>;
  \<open>allowed\<close> says whether the attempt was not the last one that is allowed.
\<close>

definition after_attempt ::
  "'w task_env \<Rightarrow> bool \<Rightarrow> smart_zones \<Rightarrow> 'w run_world list \<Rightarrow> exn option \<Rightarrow> 'w run_world
     \<Rightarrow> (smart_zones \<Rightarrow> ('w, zone_flags \<times> 'w task_result) run)
     \<Rightarrow> ('w, zone_flags \<times> 'w task_result) run" where
  "after_attempt E allowed z specs failure w again =
     (if (case failure of None \<Rightarrow> False
          | Some e \<Rightarrow> is_interrupt e \<or> stop_after_benchmark_failure E)
      then thenM (set_run (\<lambda>w. w\<lparr>ext := teardown_set E (ext w)\<rparr>)) (task_results z specs)
      else if ShouldRetry E w \<and> allowed
      then thenM (time_sleep (of_int (retry_delay_seconds E)))
        (case smart_retry (provider_utils E) (failed_substatus w) z of
           Inl e \<Rightarrow> raise e | Inr z' \<Rightarrow> again z')
      else task_results z specs)"

text \<open>
  The loop of \<open>RunBenchmarkTask\<close>: how many runs are left, and the specs of the runs so far.  The
  zone flags are global and keep what the last retry has set them to; they are returned as well.
\<close>

fun attempts ::
  "'w task_env \<Rightarrow> 'w task \<Rightarrow> nat \<Rightarrow> smart_zones \<Rightarrow> 'w run_world list
     \<Rightarrow> ('w, zone_flags \<times> 'w task_result) run"
where
  "attempts E T 0 z specs = task_results z specs"
| "attempts E T (Suc n) z specs =
     bindM (get_run (\<lambda>w. teardown_is_set E (ext w))) (\<lambda>stop.
       if stop then (if specs \<noteq> [] then task_results z specs else ret (flags_of z, [task_spec T], []))
       else bindM (one_run E T (flags_of z)) (\<lambda>failure.
         bindM (get_run (\<lambda>w. w)) (\<lambda>w.
           after_attempt E (n \<noteq> 0) z (specs @ [w]) failure w
             (\<lambda>z'. attempts E T n z' (specs @ [w])))))"

definition RunBenchmarkTask ::
  "'w task_env \<Rightarrow> 'w task \<Rightarrow> zone_flags \<Rightarrow> ('w, zone_flags \<times> 'w task_result) run" where
  "RunBenchmarkTask E T F =
     (case new_ZoneRetryManager (provider_utils E) (GetMachineTypes E T) F of
        Inl e \<Rightarrow> raise e
      | Inr z \<Rightarrow> attempts E T (nat (1 + retries (flags_of z))) z [])"

section \<open>All benchmarks\<close>

text \<open>
  The local variables of \<open>RunBenchmarks\<close>: its collector, and the specs of all attempts at each
  benchmark once they are known.
\<close>

record 'w main_world =
  main_collector :: collector
  spec_lists :: "'w run_world list list option"
  outside :: 'w

type_synonym ('w, 'a) main = "(exn, 'w main_world mach, 'a) py"

record 'w main_env =
  dry_run :: bool
  main_publisher :: "'w mach collector_env"
  archive_run :: "('w, unit) act"
  write_status_files :: "'w run_world list \<Rightarrow> ('w, unit) act"
  collect_pkb_logs :: "('w, unit) act"

definition at_main_collector :: "('w main_world mach, collector) lens" where
  "at_main_collector = \<lparr>view = (\<lambda>m. main_collector (world m)),
     over = (\<lambda>f m. m\<lparr>world := (world m)\<lparr>main_collector := f (main_collector (world m))\<rparr>\<rparr>)\<rparr>"

interpretation main_collector_part: part_of at_main_collector
  by unfold_locales (auto simp: at_main_collector_def)

definition set_main :: "('w main_world \<Rightarrow> 'w main_world) \<Rightarrow> ('w, unit) main" where
  "set_main f = modifyM (\<lambda>m. m\<lparr>world := f (world m)\<rparr>)"

definition on_outside :: "('w, 'a) act \<Rightarrow> ('w, 'a) main" where
  "on_outside h = (\<lambda>m. case h \<lparr>now = now m, lags = lags m, draws = draws m, world = outside (world m)\<rparr> of
     None \<Rightarrow> None
   | Some (r, k) \<Rightarrow> Some (r, \<lparr>now = now k, lags = lags k, draws = draws k,
       world = (world m)\<lparr>outside := world k\<rparr>\<rparr>))"

definition main_collector_env :: "'w mach collector_env \<Rightarrow> 'w main_world mach collector_env" where
  "main_collector_env E = \<lparr>metadata_providers = map (\<lambda>p md. on_outside (p md)) (metadata_providers E),
     publishers = map (\<lambda>p. \<lparr>PUBLISH_CONSOLE_LOG_DATA = PUBLISH_CONSOLE_LOG_DATA p,
       publish = (\<lambda>ss. on_outside (publish p ss))\<rparr>) (publishers E),
     uuid4 = on_outside (uuid4 E), flag_product_name = flag_product_name E,
     flag_official = flag_official E, flag_owner = flag_owner E, spec_uuid = spec_uuid E\<rparr>"

text \<open>A task acts on the world outside of \<open>RunBenchmarks\<close>.\<close>

definition run_task ::
  "'w task_env \<Rightarrow> 'w task \<Rightarrow> zone_flags \<Rightarrow> ('w, zone_flags \<times> 'w task_result) act" where
  "run_task E T F = (\<lambda>k. case RunBenchmarkTask E T F
       \<lparr>now = now k, lags = lags k, draws = draws k, world = (task_spec T)\<lparr>ext := world k\<rparr>\<rparr> of
     None \<Rightarrow> None | Some (r, m) \<Rightarrow> Some (r, ext_mach m))"

fun RunBenchmarkTasksInSeries ::
  "'w task_env \<Rightarrow> zone_flags \<Rightarrow> 'w task list \<Rightarrow> ('w, 'w task_result list) main" where
  "RunBenchmarkTasksInSeries E F [] = ret []"
| "RunBenchmarkTasksInSeries E F (T # Ts) =
     bindM (on_outside (run_task E T F)) (\<lambda>p.
     bindM (RunBenchmarkTasksInSeries E (fst p) Ts) (\<lambda>rs. ret (snd p # rs)))"

definition nothing_to_unpack :: exn where
  "nothing_to_unpack = exn (Builtin ValueError) ''not enough values to unpack (expected 2, got 0)''"

definition run_tasks :: "'w task_env \<Rightarrow> zone_flags \<Rightarrow> 'w task list \<Rightarrow> ('w, unit) main" where
  "run_tasks E F tasks =
     bindM (RunBenchmarkTasksInSeries E F tasks) (\<lambda>rs.
       if rs = [] then raise nothing_to_unpack
       else thenM (set_main (\<lambda>w. w\<lparr>spec_lists := Some (map fst rs)\<rparr>))
         (set_main (\<lambda>w. w\<lparr>main_collector := (main_collector w)
            \<lparr>samples := samples (main_collector w) @ concat (map snd rs)\<rparr>\<rparr>)))"

definition publish_remaining :: "'w main_env \<Rightarrow> ('w, unit) main" where
  "publish_remaining M =
     bindM (getM (\<lambda>m. samples (main_collector (world m)))) (\<lambda>ss.
       whenM (ss \<noteq> []) (PublishSamples at_main_collector (main_collector_env (main_publisher M))))"

text \<open>The specs that are reported: the last attempt at each benchmark.\<close>

definition reported :: "'w task list \<Rightarrow> 'w main_world \<Rightarrow> 'w run_world list" where
  "reported tasks w = (case spec_lists w of None \<Rightarrow> map task_spec tasks | Some ls \<Rightarrow> map last ls)"

definition RunBenchmarks ::
  "'w task_env \<Rightarrow> 'w main_env \<Rightarrow> zone_flags \<Rightarrow> 'w task list \<Rightarrow> ('w, int) main" where
  "RunBenchmarks E M F tasks =
     (if dry_run M then ret 0
      else thenM (set_main (\<lambda>w. w\<lparr>main_collector := new_collector, spec_lists := None\<rparr>))
        (thenM (finallyM (run_tasks E F tasks) (publish_remaining M))
        (bindM (getM (\<lambda>m. reported tasks (world m))) (\<lambda>specs.
         thenM (on_outside (archive_run M))
        (thenM (on_outside (write_status_files M specs))
        (thenM (on_outside (collect_pkb_logs M))
          (ret (if list_all (\<lambda>w. status w = ''SUCCEEDED'') specs then 0 else 1))))))))"

section \<open>The attempts\<close>

text \<open>What a task returns when it may still make up to \<open>k\<close> attempts in all.\<close>

definition attempted :: "'w task_env \<Rightarrow> nat \<Rightarrow> 'w task_result \<Rightarrow> 'w run_world mach \<Rightarrow> bool" where
  "attempted E k r m = (fst r \<noteq> [] \<and> length (fst r) \<le> k
     \<and> list_all (ShouldRetry E) (butlast (fst r))
     \<and> (length (fst r) < k \<longrightarrow> ShouldRetry E (last (fst r)) \<longrightarrow> teardown_is_set E (ext (world m)))
     \<and> (snd r = [] \<or> snd r = samples (run_collector (last (fst r)))))"

lemma wp_get_run [wp_simps]: "wp (get_run f) Q X m = Q (f (world m)) m"
  by (simp add: get_run_def wp_getM)

lemma wp_set_run [wp_simps]: "wp (set_run f) Q X m = Q () (m\<lparr>world := f (world m)\<rparr>)"
  by (simp add: set_run_def wp_modifyM)

lemma task_results_wp:
  assumes "specs \<noteq> []" "list_all (ShouldRetry E) (butlast specs)" "length specs \<le> k"
    and "samples (run_collector (world m)) = samples (run_collector (last specs))"
    and "length specs < k \<Longrightarrow> ShouldRetry E (last specs) \<Longrightarrow> teardown_is_set E (ext (world m))"
  shows "wp (task_results z specs) (\<lambda>r. attempted E k (snd r)) (\<lambda>_ _. True) m"
  using assms by (simp add: task_results_def wp_simps attempted_def)

lemma attempts_wp:
  assumes "\<And>x. teardown_is_set E (teardown_set E x)"
  shows "\<lbrakk>list_all (ShouldRetry E) specs;
     specs \<noteq> [] \<Longrightarrow> samples (run_collector (world m)) = samples (run_collector (last specs))\<rbrakk>
   \<Longrightarrow> wp (attempts E T n z specs) (\<lambda>r. attempted E (n + length specs) (snd r)) (\<lambda>_ _. True) m"
proof (induction n arbitrary: z specs m)
  case 0
  have "list_all (ShouldRetry E) (butlast specs)"
    using 0(1) by (auto simp: list_all_iff dest: in_set_butlastD)
  with 0 show ?case
    by (cases "specs = []") (auto simp: task_results_def wp_simps attempted_def)
next
  case (Suc n)
  have butlast: "list_all (ShouldRetry E) (butlast specs)"
    using Suc.prems(1) by (auto simp: list_all_iff dest: in_set_butlastD)
  have stop: "wp (if specs \<noteq> [] then task_results z specs else ret (flags_of z, [task_spec T], []))
      (\<lambda>r. attempted E (Suc n + length specs) (snd r)) (\<lambda>_ _. True) m"
    if "teardown_is_set E (ext (world m))"
    using that butlast Suc.prems(2)
    by (auto simp: wp_simps attempted_def intro!: task_results_wp)
  have leave: "wp (task_results z (specs @ [world m1]))
      (\<lambda>r. attempted E (Suc n + length specs) (snd r)) (\<lambda>_ _. True) m2"
    if "run_collector (world m2) = run_collector (world m1)"
      and "n \<noteq> 0 \<Longrightarrow> ShouldRetry E (world m1) \<Longrightarrow> teardown_is_set E (ext (world m2))" for m1 m2
    by (rule task_results_wp) (use that Suc.prems(1) in auto)
  have again: "wp (attempts E T n z' (specs @ [world m1]))
      (\<lambda>r. attempted E (Suc n + length specs) (snd r)) (\<lambda>_ _. True) m2"
    if "world m2 = world m1" and "ShouldRetry E (world m1)" for z' m1 m2
    using Suc.IH [of "specs @ [world m1]" m2 z'] that Suc.prems(1) by simp
  have sleep: "wp (time_sleep d) (\<lambda>_ m2. world m2 = world m1) (\<lambda>_ _. True) m1"
    for d and m1 :: "'a run_world mach"
    by (simp add: wp_def time_sleep_def)
  have each: "wp (after_attempt E (n \<noteq> 0) z (specs @ [world m1]) failure (world m1)
        (\<lambda>z'. attempts E T n z' (specs @ [world m1])))
      (\<lambda>r. attempted E (Suc n + length specs) (snd r)) (\<lambda>_ _. True) m1" for failure m1
  proof -
    have "wp (case smart_retry (provider_utils E) (failed_substatus (world m1)) z of
                Inl e \<Rightarrow> raise e | Inr z' \<Rightarrow> attempts E T n z' (specs @ [world m1]))
      (\<lambda>r. attempted E (Suc n + length specs) (snd r)) (\<lambda>_ _. True) m2"
      if "world m2 = world m1" and "ShouldRetry E (world m1)" for m2
      using again [OF that] by (auto simp: wp_raise split: sum.split)
    then have retry: "wp (thenM (time_sleep (of_int (retry_delay_seconds E)))
        (case smart_retry (provider_utils E) (failed_substatus (world m1)) z of
                Inl e \<Rightarrow> raise e | Inr z' \<Rightarrow> attempts E T n z' (specs @ [world m1])))
      (\<lambda>r. attempted E (Suc n + length specs) (snd r)) (\<lambda>_ _. True) m1"
      if "ShouldRetry E (world m1)"
      unfolding wp_thenM using that by (intro wp_mono [OF sleep]) auto
    have interrupted: "wp (thenM (set_run (\<lambda>w. w\<lparr>ext := teardown_set E (ext w)\<rparr>))
        (task_results z (specs @ [world m1])))
      (\<lambda>r. attempted E (Suc n + length specs) (snd r)) (\<lambda>_ _. True) m1"
      unfolding wp_thenM wp_set_run by (rule leave) (simp_all add: assms)
    have finished: "wp (task_results z (specs @ [world m1]))
        (\<lambda>r. attempted E (Suc n + length specs) (snd r)) (\<lambda>_ _. True) m1"
      if "\<not> (ShouldRetry E (world m1) \<and> n \<noteq> 0)"
      by (rule leave) (use that in auto)
    show ?thesis unfolding after_attempt_def using retry interrupted finished by simp
  qed
  have run: "wp (one_run E T (flags_of z)) (\<lambda>failure. wp (bindM (get_run (\<lambda>w. w)) (\<lambda>w.
        after_attempt E (n \<noteq> 0) z (specs @ [w]) failure w (\<lambda>z'. attempts E T n z' (specs @ [w]))))
      (\<lambda>r. attempted E (Suc n + length specs) (snd r)) (\<lambda>_ _. True)) (\<lambda>_ _. True) m"
    by (rule wp_any) (simp_all only: wp_bindM wp_get_run each)
  show ?case
  proof (cases "teardown_is_set E (ext (world m))")
    case True
    then show ?thesis
      unfolding attempts.simps wp_bindM wp_get_run using stop by (simp only: if_True)
  next
    case False
    then show ?thesis
      unfolding attempts.simps wp_bindM wp_get_run using run by (simp only: if_False wp_bindM)
  qed
qed

section \<open>Properties\<close>

text \<open>C3: The attempts at a benchmark: at least one and at most 1 + retries of them are reported, all
  but the last one failed with a substatus that is to be retried, the last one did not unless the
  attempts are used up or the teardown event is set, and the samples that are returned are those of
  the last attempt only.  Setting the event is assumed to set it.\<close>

theorem RunBenchmarkTask_attempts:
  assumes "\<And>x. teardown_is_set E (teardown_set E x)"
    and "RunBenchmarkTask E T F m = Some (Inr (F', specs, ss), m')"
  shows "\<exists>z. new_ZoneRetryManager (provider_utils E) (GetMachineTypes E T) F = Inr z
    \<and> specs \<noteq> [] \<and> int (length specs) \<le> 1 + retries (flags_of z)
    \<and> list_all (ShouldRetry E) (butlast specs)
    \<and> (int (length specs) < 1 + retries (flags_of z) \<longrightarrow> ShouldRetry E (last specs)
        \<longrightarrow> teardown_is_set E (ext (world m')))
    \<and> (ss = [] \<or> ss = samples (run_collector (last specs)))"
proof -
  obtain z where z: "new_ZoneRetryManager (provider_utils E) (GetMachineTypes E T) F = Inr z"
    and run: "attempts E T (nat (1 + retries (flags_of z))) z [] m = Some (Inr (F', specs, ss), m')"
    using assms(2) by (auto simp: RunBenchmarkTask_def raise_def split: sum.splits)
  have "wp (attempts E T (nat (1 + retries (flags_of z))) z [])
      (\<lambda>r. attempted E (nat (1 + retries (flags_of z)) + length ([] :: 'a run_world list)) (snd r))
      (\<lambda>_ _. True) m"
    by (rule attempts_wp [OF assms(1)]) simp_all
  from wp_returnsD [OF this run]
  have "attempted E (nat (1 + retries (flags_of z))) (specs, ss) m'" by simp
  then have post: "specs \<noteq> []" "length specs \<le> nat (1 + retries (flags_of z))"
    "list_all (ShouldRetry E) (butlast specs)"
    "length specs < nat (1 + retries (flags_of z)) \<longrightarrow> ShouldRetry E (last specs)
       \<longrightarrow> teardown_is_set E (ext (world m'))"
    "ss = [] \<or> ss = samples (run_collector (last specs))"
    by (simp_all add: attempted_def)
  have "0 < length specs" using post(1) by simp
  then have "int (length specs) \<le> 1 + retries (flags_of z)"
    "(int (length specs) < 1 + retries (flags_of z)) = (length specs < nat (1 + retries (flags_of z)))"
    using post(2) by arith+
  with z post show ?thesis by blast
qed

text \<open>One benchmark that always runs out of quota, and may be retried twice.\<close>

definition no_quota :: "bool ops" where
  "no_quota = simple_ops\<lparr>Provision := raise (exn (Benchmarks QuotaFailure) [])\<rparr>"

definition plain_zone :: zone_flags where
  "plain_zone = \<lparr>flag_zone = [''a1''], flag_zones = [], smart_capacity_retry = False,
     smart_quota_retry = False, retries = 2\<rparr>"

definition some_task :: "bool ops \<Rightarrow> bool task" where
  "some_task B = \<lparr>task_spec = world (simple_run False), sequence_number = 1,
     task_ops = (\<lambda>_ _. B), vm_group_machine_types = [''m'']\<rparr>"

definition some_env :: "bool task_env" where
  "some_env = \<lparr>run_processes = None, flag_run_uri = ''uri'', flag_machine_type = [],
     retry_substatuses = RETRYABLE_SUBSTATUSES, retry_delay_seconds = 5,
     stop_after_benchmark_failure = False, provider_utils = two_regions,
     task_run_flags = simple_run_flags [''provision'', ''teardown''],
     deepcopy = (\<lambda>x. x), teardown_is_set = (\<lambda>x. x), teardown_set = (\<lambda>_. True),
     str_of_nat = (\<lambda>_. [])\<rparr>"

lemma no_quota_run:
  "\<exists>m'. RunBenchmark (simple_run_flags [''provision'', ''teardown'']) no_quota m
       = Some (Inl (exn (Benchmarks QuotaFailure) []), m')
     \<and> status (world m') = ''FAILED'' \<and> failed_substatus (world m') = Some QUOTA \<and> \<not> ext (world m')"
  unfolding eval_benchmark eval_phases no_quota_def
  by (simp add: eval_run eval_simple AddSamples_def PublishSamples_def on_failure_def CaptureVMLogs_def
      EndToEndRuntimeMeasurementEnabled_def RuntimeMeasurementsEnabled_def interrupted_def exn_defs
      GetBenchmarkStatusFromException_def STATUS_def str_in_Nil_right)

lemma no_quota_one_run:
  "\<exists>m'. one_run some_env (some_task no_quota) F m = Some (Inr (Some (exn (Benchmarks QuotaFailure) [])), m')
     \<and> ShouldRetry some_env (world m') \<and> \<not> ext (world m')"
proof -
  obtain m' where "RunBenchmark (simple_run_flags [''provision'', ''teardown'']) no_quota
      (m\<lparr>world := spec_for_run some_env (some_task no_quota) (world m)\<rparr>)
       = Some (Inl (exn (Benchmarks QuotaFailure) []), m')"
    "status (world m') = ''FAILED''" "failed_substatus (world m') = Some QUOTA" "\<not> ext (world m')"
    using no_quota_run by blast
  then show ?thesis
    by (simp add: one_run_def set_run_def py_defs some_env_def some_task_def ShouldRetry_def
        RETRYABLE_SUBSTATUSES_def)
qed

lemma plain_manager: "new_ZoneRetryManager U ts plain_zone = Inr (Inl plain_zone)"
  by (simp add: new_ZoneRetryManager_def CheckFlag_def check_one_def flag_value_def plain_zone_def)

lemma plain_flags: "flags_of (Inl plain_zone) = plain_zone" "retries plain_zone = 2"
  by (simp_all add: flags_of_def plain_zone_def)

lemma no_quota_task:
  assumes "\<not> ext (world m)"
  shows "\<exists>ls ss m'. RunBenchmarkTask some_env (some_task no_quota) plain_zone m
       = Some (Inr (plain_zone, ls, ss), m') \<and> length ls = 3 \<and> ShouldRetry some_env (hd ls)
       \<and> ShouldRetry some_env (last ls)"
proof -
  obtain m1 where m1: "one_run some_env (some_task no_quota) plain_zone m
      = Some (Inr (Some (exn (Benchmarks QuotaFailure) [])), m1)" "ShouldRetry some_env (world m1)"
      "\<not> ext (world m1)" using no_quota_one_run by blast
  obtain m2 where m2: "one_run some_env (some_task no_quota) plain_zone (m1\<lparr>now := now m1 + 5\<rparr>)
      = Some (Inr (Some (exn (Benchmarks QuotaFailure) [])), m2)" "ShouldRetry some_env (world m2)"
      "\<not> ext (world m2)" using no_quota_one_run by blast
  obtain m3 where m3: "one_run some_env (some_task no_quota) plain_zone (m2\<lparr>now := now m2 + 5\<rparr>)
      = Some (Inr (Some (exn (Benchmarks QuotaFailure) [])), m3)" "ShouldRetry some_env (world m3)"
      "\<not> ext (world m3)" using no_quota_one_run by blast
  have env: "teardown_is_set some_env = (\<lambda>x. x)" "teardown_set some_env = (\<lambda>_. True)"
    "\<not> stop_after_benchmark_failure some_env" "retry_delay_seconds some_env = 5"
    by (simp_all add: some_env_def)
  have kind: "\<not> is_interrupt (exn (Benchmarks QuotaFailure) [])" by (simp add: exn_defs)
  obtain ss where "RunBenchmarkTask some_env (some_task no_quota) plain_zone m
      = Some (Inr (plain_zone, [world m1, world m2, world m3], ss), m3)"
    using m1 m2 m3 assms kind
    by (simp add: RunBenchmarkTask_def plain_manager plain_flags numeral_3_eq_3 env after_attempt_def
        smart_retry_def task_results_def time_sleep_def bindM_def thenM_def ret_def get_run_def getM_def)
  then show ?thesis using m1(2) m3(2) by simp
qed

theorem RunBenchmarkTask_attempts_witness:
  "\<exists>specs ss m'. RunBenchmarkTask some_env (some_task no_quota) plain_zone (simple_run False)
       = Some (Inr (plain_zone, specs, ss), m') \<and> int (length specs) \<le> 3
     \<and> list_all (ShouldRetry some_env) (butlast specs)"
proof -
  have "\<not> ext (world (simple_run False))" by (simp add: simple_run_def some_mach_def)
  then obtain ls ss m' where run: "RunBenchmarkTask some_env (some_task no_quota) plain_zone
      (simple_run False) = Some (Inr (plain_zone, ls, ss), m')" using no_quota_task by blast
  have "teardown_is_set some_env (teardown_set some_env x)" for x by (simp add: some_env_def)
  from RunBenchmarkTask_attempts [OF this run] run show ?thesis
    by (auto simp: plain_manager plain_flags)
qed

section \<open>The exit status\<close>

definition came_from :: "'w task_env \<Rightarrow> 'w task \<Rightarrow> 'w task_result \<Rightarrow> bool" where
  "came_from E T r = (\<exists>F m F' m'. RunBenchmarkTask E T F m = Some (Inr (F', r), m'))"

lemma leaves_on_outside: "leaves at_main_collector (on_outside h)"
  by (rule leavesI) (auto simp: wp_def on_outside_def at_main_collector_def split: option.split sum.split)

lemma main_collector_alone: "collector_alone at_main_collector (main_collector_env E)"
  by (auto simp: collector_alone_def main_collector_env_def leaves_on_outside)

lemma on_outside_wp:
  "wp (on_outside h) (\<lambda>x m'. main_collector (world m') = main_collector (world m)
       \<and> spec_lists (world m') = spec_lists (world m) \<and> (\<exists>k k'. h k = Some (Inr x, k'))) (\<lambda>_ _. True) m"
  by (rule wpI) (auto simp: on_outside_def split: option.splits)

lemma RunBenchmarkTasksInSeries_wp:
  "wp (RunBenchmarkTasksInSeries E F Ts) (\<lambda>rs m'. list_all2 (came_from E) Ts rs
       \<and> main_collector (world m') = main_collector (world m)
       \<and> spec_lists (world m') = spec_lists (world m)) (\<lambda>_ _. True) m"
proof (induction Ts arbitrary: F m)
  case Nil
  then show ?case by (simp add: wp_ret)
next
  case (Cons T Ts)
  have from_task: "came_from E T (snd p)" if "run_task E T F k = Some (Inr p, k')" for p k k'
    using that by (cases p) (auto simp: run_task_def came_from_def split: option.splits)
  show ?case
    unfolding RunBenchmarkTasksInSeries.simps wp_bindM
    by (rule wp_mono [OF on_outside_wp], rule wp_mono [OF Cons.IH])
       (auto simp: wp_ret dest: from_task)
qed

lemma run_tasks_wp:
  assumes "main_collector (world m) = new_collector"
  shows "wp (run_tasks E F Ts) (\<lambda>_ m'. \<exists>rs. Ts \<noteq> [] \<and> list_all2 (came_from E) Ts rs
       \<and> spec_lists (world m') = Some (map fst rs)
       \<and> main_collector (world m') = \<lparr>samples = concat (map snd rs), published_samples = []\<rparr>)
     (\<lambda>_ _. True) m"
  unfolding run_tasks_def wp_bindM
  by (rule wp_mono [OF RunBenchmarkTasksInSeries_wp])
     (auto simp: wp_simps set_main_def assms new_collector_def)

lemma keeps_spec_lists:
  fixes E :: "'w mach collector_env"
  shows "keeps (\<lambda>m. spec_lists (world m) = l) (PublishSamples at_main_collector (main_collector_env E))"
proof -
  have "keeps (\<lambda>m :: 'w main_world mach. spec_lists (world m) = l) (on_outside h)" for h :: "('w, unit) act"
    by (rule keepsI) (auto simp: wp_def on_outside_def split: option.split sum.split)
  then show ?thesis
    unfolding PublishSamples_def Let_def
    by (auto intro!: keeps_intros keeps_modifyM simp: main_collector_env_def at_main_collector_def)
qed

lemma publish_remaining_wp:
  "wp (publish_remaining M)
     (\<lambda>_ m'. main_collector (world m') = \<lparr>samples = [], published_samples = all_samples (main_collector (world m))\<rparr>
       \<and> spec_lists (world m') = spec_lists (world m)) (\<lambda>_ _. True) m"
proof (cases "samples (main_collector (world m)) = []")
  case True
  then show ?thesis by (simp add: publish_remaining_def wp_simps all_samples_def)
next
  case False
  have "view at_main_collector m = main_collector (world m)" for m :: "'a main_world mach"
    by (simp add: at_main_collector_def)
  with PublishSamples_wp [OF main_collector_part.part_of_axioms main_collector_alone, of "main_publisher M" m]
  have "wp (PublishSamples at_main_collector (main_collector_env (main_publisher M)))
     (\<lambda>_ m'. main_collector (world m') = \<lparr>samples = [], published_samples = all_samples (main_collector (world m))\<rparr>)
     (\<lambda>_ m'. main_collector (world m') = main_collector (world m)) m" by simp
  from wp_conj [OF this keepsD [OF keeps_spec_lists, OF refl, of "main_publisher M" m]] False
  show ?thesis
    unfolding publish_remaining_def wp_bindM wp_getM wp_whenM by simp (erule wp_mono, simp_all)
qed

text \<open>C4: The exit status: if the program ends normally there was at least one benchmark, every one
  of them went through its attempts, the status is 0 exactly if the last attempt at each of them
  SUCCEEDED (and 1 otherwise), and what has been published at the end are the samples that the
  benchmarks returned, in order, each once.\<close>

theorem RunBenchmarks_exit_status:
  fixes m :: "'w main_world mach"
  assumes "\<not> dry_run M" and "RunBenchmarks E M F tasks m = Some (Inr code, m')"
  shows "\<exists>rs. tasks \<noteq> [] \<and> list_all2 (came_from E) tasks rs
    \<and> code = (if list_all (\<lambda>r. status (last (fst r)) = ''SUCCEEDED'') rs then 0 else 1)
    \<and> main_collector (world m') = \<lparr>samples = [], published_samples = concat (map snd rs)\<rparr>"
proof -
  let ?post = "\<lambda>w. \<exists>rs. tasks \<noteq> [] \<and> list_all2 (came_from E) tasks rs
    \<and> spec_lists w = Some (map fst rs)
    \<and> main_collector w = \<lparr>samples = [], published_samples = concat (map snd rs)\<rparr>"
  let ?m = "m\<lparr>world := (world m)\<lparr>main_collector := new_collector, spec_lists := None\<rparr>\<rparr>"
  have runs: "wp (finallyM (run_tasks E F tasks) (publish_remaining M)) (\<lambda>_ m1. ?post (world m1)) (\<lambda>_ _. True) ?m"
    unfolding wp_finallyM
  proof (rule wp_mono [OF run_tasks_wp])
    fix u and m1 :: "'w main_world mach"
    assume "\<exists>rs. tasks \<noteq> [] \<and> list_all2 (came_from E) tasks rs
       \<and> spec_lists (world m1) = Some (map fst rs)
       \<and> main_collector (world m1) = \<lparr>samples = concat (map snd rs), published_samples = []\<rparr>"
    then show "wp (publish_remaining M) (\<lambda>_ m1. ?post (world m1)) (\<lambda>_ _. True) m1"
      by (intro wp_mono [OF publish_remaining_wp]) (auto simp: all_samples_def)
  qed (auto intro: wp_any)
  have outside: "wp (on_outside h) (\<lambda>_ m2. main_collector (world m2) = main_collector (world m1)
      \<and> spec_lists (world m2) = spec_lists (world m1)) (\<lambda>_ _. True) m1" for m1 and h :: "('w, unit) act"
    by (rule wp_mono [OF on_outside_wp]) simp_all
  have "wp (RunBenchmarks E M F tasks) (\<lambda>code m'. \<exists>rs. tasks \<noteq> [] \<and> list_all2 (came_from E) tasks rs
    \<and> code = (if list_all (\<lambda>r. status (last (fst r)) = ''SUCCEEDED'') rs then 0 else 1)
    \<and> main_collector (world m') = \<lparr>samples = [], published_samples = concat (map snd rs)\<rparr>) (\<lambda>_ _. True) m"
    unfolding RunBenchmarks_def if_not_P [OF assms(1)] wp_thenM wp_bindM set_main_def wp_modifyM wp_getM
    by (rule wp_mono [OF runs], rule wp_mono [OF outside], rule wp_mono [OF outside],
        rule wp_mono [OF outside])
       (auto simp: wp_ret reported_def list.pred_map comp_def)
  from wp_returnsD [OF this assms(2)] show ?thesis .
qed

definition some_main :: "bool main_env" where
  "some_main = \<lparr>dry_run = False, main_publisher = quiet_env, archive_run = ret (),
     write_status_files = (\<lambda>_. ret ()), collect_pkb_logs = ret ()\<rparr>"

definition main_start :: "bool main_world mach" where
  "main_start = some_mach \<lparr>main_collector = new_collector, spec_lists = None, outside = False\<rparr>"

lemma quiet_publishing:
  "PublishSamples at_main_collector (main_collector_env quiet_env) m \<noteq> None"
  "PublishSamples at_main_collector (main_collector_env quiet_env) m \<noteq> Some (Inl e, t)"
  by (cases "samples (main_collector (world m)) = []",
      simp_all add: PublishSamples_def quiet_env_def main_collector_env_def at_main_collector_def
      on_outside_def py_defs)+

theorem RunBenchmarks_exit_status_witness:
  "\<exists>code m'. RunBenchmarks some_env some_main plain_zone [some_task no_quota] main_start
       = Some (Inr code, m') \<and> (code = 0 \<or> code = 1) \<and> samples (main_collector (world m')) = []"
proof -
  let ?m = "\<lparr>now = now main_start, lags = lags main_start, draws = draws main_start,
    world = (task_spec (some_task no_quota))\<lparr>ext := outside (world main_start)\<rparr>\<rparr>"
  have "\<not> ext (world ?m)" by (simp add: main_start_def some_mach_def)
  then obtain ls ss m1 where "RunBenchmarkTask some_env (some_task no_quota) plain_zone ?m
      = Some (Inr (plain_zone, ls, ss), m1)" using no_quota_task by blast
  then have "\<exists>code m'. RunBenchmarks some_env some_main plain_zone [some_task no_quota] main_start
      = Some (Inr code, m')"
    by (simp add: quiet_publishing RunBenchmarks_def some_main_def run_tasks_def on_outside_def run_task_def
        publish_remaining_def set_main_def py_defs main_start_def some_mach_def
        split: option.split prod.split sum.split)
  then obtain code m' where run: "RunBenchmarks some_env some_main plain_zone [some_task no_quota] main_start
      = Some (Inr code, m')" by blast
  have "\<not> dry_run some_main" by (simp add: some_main_def)
  from RunBenchmarks_exit_status [OF this run]
  have "(code = 0 \<or> code = 1) \<and> samples (main_collector (world m')) = []"
    by (elim exE conjE) simp
  with run show ?thesis by blast
qed

end
