(* ===== verification/Background.thy ===== *)
theory Background
  imports Retry
begin

text \<open>
  \<open>perfkitbenchmarker/background_tasks.py\<close>: function calls in parallel threads or processes.

  The loop of \<open>_RunParallelTasks\<close> and the children of its task manager run interleaved: a run is a
  sequence of steps, of the loop or of a child.  What the call with number \<open>t\<close> may end with is the
  relation \<open>can t\<close>.  The task manager is an interface (\<open>task_manager\<close>); the threads and the
  processes of the code both provide it.
\<close>

section \<open>Tasks\<close>

text \<open>\<open>_BackgroundTask\<close>, without the call itself; \<open>None\<close> is None.\<close>

record 'r bg_task =
  return_value :: "'r option"
  traceback :: "string option"

definition new_task :: "'r bg_task" where
  "new_task = \<lparr>return_value = None, traceback = None\<rparr>"

text \<open>How a call ends that returns or raises an Exception, which is what the task catches; with another exception
  the thread ends (\<open>thread_dies\<close> in \<open>Parallel\<close>).\<close>

datatype 'r outcome = Returns 'r | Raises exn

text \<open>\<open>traceback.format_exc()\<close>, without the lines of the stack.\<close>

definition format_exc :: "exn \<Rightarrow> string" where
  "format_exc e = ''Traceback (most recent call last):'' @ [CHR 0x0A] @ class_name (type_of e)
     @ '': '' @ str_of e"

text \<open>\<open>_BackgroundTask.Run\<close>\<close>

fun Run_task :: "'r outcome \<Rightarrow> 'r bg_task \<Rightarrow> 'r bg_task" where
  "Run_task (Returns r) k = k\<lparr>return_value := Some r\<rparr>"
| "Run_task (Raises e) k = k\<lparr>traceback := Some (format_exc e)\<rparr>"

definition failed :: "'r bg_task \<Rightarrow> bool" where
  "failed k = (traceback k \<noteq> None \<and> traceback k \<noteq> Some [])"

section \<open>The loop of _RunParallelTasks\<close>

record 's parallel =
  manager :: 's
  started_task_count :: nat
  active_task_count :: nat
  error_strings :: "string list"

definition may_start :: "nat \<Rightarrow> nat \<Rightarrow> 's parallel \<Rightarrow> bool" where
  "may_start n k p = (started_task_count p < n \<and> active_task_count p < k)"

definition looping :: "nat \<Rightarrow> 's parallel \<Rightarrow> bool" where
  "looping n p = (started_task_count p < n \<or> active_task_count p \<noteq> 0)"

definition linesep :: string where
  "linesep = [CHR 0x0A]"

definition error_message :: "string \<Rightarrow> 'r bg_task \<Rightarrow> string" where
  "error_message call_string k = ''Exception occurred while calling '' @ call_string @ '':'' @ linesep
     @ (case traceback k of None \<Rightarrow> [] | Some tb \<Rightarrow> tb)"

text \<open>Starting a task, and handling the task that was awaited.\<close>

definition started :: "'s \<Rightarrow> 's parallel \<Rightarrow> 's parallel" where
  "started s p = p\<lparr>manager := s, started_task_count := Suc (started_task_count p),
     active_task_count := Suc (active_task_count p)\<rparr>"

definition awaited :: "(nat \<Rightarrow> string) \<Rightarrow> nat \<Rightarrow> 'r bg_task \<Rightarrow> 's \<Rightarrow> 's parallel \<Rightarrow> 's parallel" where
  "awaited call_string t k s p = p\<lparr>manager := s, active_task_count := active_task_count p - 1,
     error_strings := error_strings p @ (if failed k then [error_message (call_string t) k] else [])\<rparr>"

text \<open>
  The steps of a run with \<open>n\<close> calls and concurrency \<open>k\<close>.  \<open>tasks_of\<close>, \<open>start\<close> and \<open>await\<close> are the
  task manager's, and \<open>child\<close> are the steps of its threads or processes.
\<close>

inductive parallel_step ::
  "nat \<Rightarrow> nat \<Rightarrow> (nat \<Rightarrow> string) \<Rightarrow> ('s \<Rightarrow> 'r bg_task list) \<Rightarrow> ('s \<Rightarrow> 's option)
     \<Rightarrow> ('s \<Rightarrow> 's \<Rightarrow> bool) \<Rightarrow> ('s \<Rightarrow> nat \<Rightarrow> 's \<Rightarrow> bool) \<Rightarrow> 's parallel \<Rightarrow> 's parallel \<Rightarrow> bool"
  for n k call_string tasks_of start child await
where
  start_step: "may_start n k p \<Longrightarrow> start (manager p) = Some s
    \<Longrightarrow> parallel_step n k call_string tasks_of start child await p (started s p)"
| await_step: "\<not> may_start n k p \<Longrightarrow> looping n p \<Longrightarrow> await (manager p) t s
    \<Longrightarrow> parallel_step n k call_string tasks_of start child await p
          (awaited call_string t (tasks_of s ! t) s p)"
| child_step: "child (manager p) s
    \<Longrightarrow> parallel_step n k call_string tasks_of start child await p (p\<lparr>manager := s\<rparr>)"

definition first_state :: "'s \<Rightarrow> 's parallel" where
  "first_state s = \<lparr>manager = s, started_task_count = 0, active_task_count = 0, error_strings = []\<rparr>"

text \<open>What \<open>_RunParallelTasks\<close> does after the loop.\<close>

definition parallel_result ::
  "exn_class \<Rightarrow> ('s \<Rightarrow> 'r bg_task list) \<Rightarrow> 's parallel \<Rightarrow> exn + 'r option list" where
  "parallel_result parallel_exception_class tasks_of p =
     (if error_strings p \<noteq> []
      then Inl (exn parallel_exception_class
        (''The following exceptions occurred during parallel execution:'' @ linesep
         @ str_join linesep (error_strings p)))
      else Inr (map return_value (tasks_of (manager p))))"

section \<open>The interface of a task manager\<close>

text \<open>What a finished task holds.\<close>

definition finished_as :: "(nat \<Rightarrow> 'r outcome \<Rightarrow> bool) \<Rightarrow> nat \<Rightarrow> 'r bg_task \<Rightarrow> bool" where
  "finished_as can t k = (\<exists>r. can t r \<and> k = Run_task r new_task)"

lemma failed_Run_task: "failed (Run_task r new_task) = (case r of Returns _ \<Rightarrow> False | Raises _ \<Rightarrow> True)"
  by (cases r) (simp_all add: failed_def new_task_def format_exc_def)

text \<open>The finished tasks of a set of task numbers, and the messages of those that failed.\<close>

definition all_finished :: "(nat \<Rightarrow> 'r outcome \<Rightarrow> bool) \<Rightarrow> nat set \<Rightarrow> 'r bg_task list \<Rightarrow> bool" where
  "all_finished can A ks = (\<forall>t \<in> A. finished_as can t (ks ! t))"

definition failures :: "(nat \<Rightarrow> string) \<Rightarrow> nat set \<Rightarrow> 'r bg_task list \<Rightarrow> string set" where
  "failures call_string A ks = (\<lambda>t. error_message (call_string t) (ks ! t)) ` {t \<in> A. failed (ks ! t)}"

lemma all_finished_cong:
  "\<lbrakk>all_finished can A ks; \<And>t. t \<in> A \<Longrightarrow> ks' ! t = ks ! t\<rbrakk> \<Longrightarrow> all_finished can A ks'"
  by (simp add: all_finished_def)

lemma failures_cong:
  "(\<And>t. t \<in> A \<Longrightarrow> ks' ! t = ks ! t) \<Longrightarrow> failures call_string A ks' = failures call_string A ks"
  by (force simp: failures_def)

lemma failures_insert:
  "failures call_string (insert t A) ks = failures call_string A ks
     \<union> (if failed (ks ! t) then {error_message (call_string t) (ks ! t)} else {})"
  by (auto simp: failures_def)

text \<open>
  \<open>pending s\<close> are the tasks that were started and not yet awaited.
\<close>

locale task_manager =
  fixes k :: nat and can :: "nat \<Rightarrow> 'r outcome \<Rightarrow> bool"
    and inv :: "'s \<Rightarrow> bool" and tasks_of :: "'s \<Rightarrow> 'r bg_task list" and pending :: "'s \<Rightarrow> nat set"
    and start :: "'s \<Rightarrow> 's option" and child :: "'s \<Rightarrow> 's \<Rightarrow> bool"
    and await :: "'s \<Rightarrow> nat \<Rightarrow> 's \<Rightarrow> bool"
  assumes pending_tasks: "inv s \<Longrightarrow> pending s \<subseteq> {..<length (tasks_of s)}"
    and starts: "inv s \<Longrightarrow> card (pending s) < k \<Longrightarrow> \<exists>s'. start s = Some s'"
    and start_law: "inv s \<Longrightarrow> card (pending s) < k \<Longrightarrow> start s = Some s' \<Longrightarrow>
      inv s' \<and> tasks_of s' = tasks_of s @ [new_task] \<and> pending s' = insert (length (tasks_of s)) (pending s)"
    and child_law: "inv s \<Longrightarrow> child s s' \<Longrightarrow>
      inv s' \<and> length (tasks_of s') = length (tasks_of s) \<and> pending s' = pending s
      \<and> (\<forall>t. t \<notin> pending s \<longrightarrow> tasks_of s' ! t = tasks_of s ! t)"
    and await_law: "inv s \<Longrightarrow> await s t s' \<Longrightarrow>
      inv s' \<and> length (tasks_of s') = length (tasks_of s) \<and> t \<in> pending s \<and> pending s' = pending s - {t}
      \<and> finished_as can t (tasks_of s' ! t) \<and> (\<forall>u. u \<notin> pending s \<longrightarrow> tasks_of s' ! u = tasks_of s ! u)"
begin

text \<open>The tasks that were awaited, and the invariant of the loop.\<close>

definition awaited_tasks :: "'s \<Rightarrow> nat set" where
  "awaited_tasks s = {..<length (tasks_of s)} - pending s"

definition loop_inv :: "nat \<Rightarrow> (nat \<Rightarrow> string) \<Rightarrow> 's parallel \<Rightarrow> bool" where
  "loop_inv n call_string p = (inv (manager p)
     \<and> started_task_count p = length (tasks_of (manager p)) \<and> length (tasks_of (manager p)) \<le> n
     \<and> active_task_count p = card (pending (manager p)) \<and> active_task_count p \<le> k
     \<and> all_finished can (awaited_tasks (manager p)) (tasks_of (manager p))
     \<and> set (error_strings p) = failures call_string (awaited_tasks (manager p)) (tasks_of (manager p)))"

abbreviation step :: "nat \<Rightarrow> (nat \<Rightarrow> string) \<Rightarrow> 's parallel \<Rightarrow> 's parallel \<Rightarrow> bool" where
  "step n call_string \<equiv> parallel_step n k call_string tasks_of start child await"

lemma pending_finite: "inv s \<Longrightarrow> finite (pending s)"
  using pending_tasks [of s] finite_subset by blast

lemma loop_inv_first: "inv s \<Longrightarrow> tasks_of s = [] \<Longrightarrow> loop_inv n call_string (first_state s)"
  using pending_tasks [of s]
  by (simp add: loop_inv_def first_state_def awaited_tasks_def all_finished_def failures_def)

lemma loop_inv_started:
  assumes "loop_inv n call_string p" and "may_start n k p" and "start (manager p) = Some s"
  shows "loop_inv n call_string (started s p)"
proof -
  let ?s = "manager p"
  have inv: "inv ?s" and card: "card (pending ?s) < k"
    using assms(1,2) by (simp_all add: loop_inv_def may_start_def)
  have new: "inv s" "tasks_of s = tasks_of ?s @ [new_task]"
    "pending s = insert (length (tasks_of ?s)) (pending ?s)"
    using start_law [OF inv card assms(3)] by simp_all
  have old: "awaited_tasks s = awaited_tasks ?s"
    using new pending_tasks [OF inv] by (auto simp: awaited_tasks_def less_Suc_eq)
  have same: "tasks_of s ! t = tasks_of ?s ! t" if "t \<in> awaited_tasks ?s" for t
    using that new(2) by (simp add: nth_append awaited_tasks_def)
  have "length (tasks_of ?s) \<notin> pending ?s" using pending_tasks [OF inv] by auto
  then have "card (pending s) = Suc (card (pending ?s))"
    using new(3) pending_finite [OF inv] by simp
  moreover have "all_finished can (awaited_tasks ?s) (tasks_of s)"
    using assms(1) by (auto simp: loop_inv_def intro: all_finished_cong same)
  ultimately show ?thesis
    using assms(1,2) new(1,2) card failures_cong [OF same]
    by (simp add: loop_inv_def started_def may_start_def old)
qed

lemma loop_inv_child:
  assumes "loop_inv n call_string p" and "child (manager p) s"
  shows "loop_inv n call_string (p\<lparr>manager := s\<rparr>)"
proof -
  let ?s = "manager p"
  have inv: "inv ?s" using assms(1) by (simp add: loop_inv_def)
  note law = child_law [OF inv assms(2)]
  have old: "awaited_tasks s = awaited_tasks ?s" using law by (simp add: awaited_tasks_def)
  have same: "tasks_of s ! t = tasks_of ?s ! t" if "t \<in> awaited_tasks ?s" for t
    using that law by (simp add: awaited_tasks_def)
  have "all_finished can (awaited_tasks ?s) (tasks_of s)"
    using assms(1) by (auto simp: loop_inv_def intro: all_finished_cong same)
  then show ?thesis
    using assms(1) law failures_cong [OF same] by (simp add: loop_inv_def old)
qed

lemma loop_inv_awaited:
  assumes "loop_inv n call_string p" and "await (manager p) t s"
  shows "loop_inv n call_string (awaited call_string t (tasks_of s ! t) s p)"
proof -
  let ?s = "manager p"
  have inv: "inv ?s" using assms(1) by (simp add: loop_inv_def)
  note law = await_law [OF inv assms(2)]
  have t: "t \<in> pending ?s" "t < length (tasks_of ?s)" using law pending_tasks [OF inv] by auto
  have new: "awaited_tasks s = insert t (awaited_tasks ?s)"
    using law t by (auto simp: awaited_tasks_def)
  have same: "tasks_of s ! u = tasks_of ?s ! u" if "u \<in> awaited_tasks ?s" for u
    using that law by (simp add: awaited_tasks_def)
  have "all_finished can (awaited_tasks ?s) (tasks_of s)"
    using assms(1) by (auto simp: loop_inv_def intro: all_finished_cong same)
  then have "all_finished can (awaited_tasks s) (tasks_of s)"
    using law by (simp add: new all_finished_def)
  moreover have "card (pending s) = card (pending ?s) - 1"
    using law t pending_finite [OF inv] by (simp add: card_Diff_singleton)
  moreover have "card (pending ?s) - 1 \<le> k"
    by (rule le_trans [OF diff_le_self]) (use assms(1) in \<open>simp add: loop_inv_def\<close>)
  ultimately show ?thesis
    using assms(1) law failures_cong [OF same]
    by (simp add: loop_inv_def awaited_def new failures_insert)
qed

lemma loop_inv_step: "step n call_string p p' \<Longrightarrow> loop_inv n call_string p \<Longrightarrow> loop_inv n call_string p'"
  by (induction rule: parallel_step.induct)
     (auto intro: loop_inv_started loop_inv_awaited loop_inv_child)

lemma loop_inv_run:
  "(step n call_string)\<^sup>*\<^sup>* p p' \<Longrightarrow> loop_inv n call_string p \<Longrightarrow> loop_inv n call_string p'"
  by (induction rule: rtranclp_induct) (auto intro: loop_inv_step)

text \<open>The result, once the loop has ended.\<close>

lemma result_of_run:
  assumes "loop_inv n call_string p" and "\<not> looping n p"
  shows "(\<exists>os. length os = n \<and> (\<forall>t < n. can t (os ! t)) \<and> parallel_result c tasks_of p =
      (if \<exists>e. Raises e \<in> set os then Inl (exn c
        (''The following exceptions occurred during parallel execution:'' @ linesep
         @ str_join linesep (error_strings p)))
       else Inr (map (\<lambda>r. case r of Returns x \<Rightarrow> Some x | Raises _ \<Rightarrow> None) os)))"
proof -
  let ?ks = "tasks_of (manager p)"
  have n: "length ?ks = n" and inv: "inv (manager p)" and none: "pending (manager p) = {}"
    using assms pending_finite [of "manager p"] by (auto simp: loop_inv_def looping_def)
  have done_tasks: "awaited_tasks (manager p) = {..<n}" using n none by (simp add: awaited_tasks_def)
  have "\<exists>r. can t r \<and> ?ks ! t = Run_task r new_task" if "t < n" for t
    using assms(1) that by (simp add: loop_inv_def done_tasks all_finished_def finished_as_def)
  then obtain f where f: "\<And>t. t < n \<Longrightarrow> can t (f t) \<and> ?ks ! t = Run_task (f t) new_task" by metis
  have ks: "?ks = map (\<lambda>t. Run_task (f t) new_task) [0..<n]"
    using n f by (auto intro!: nth_equalityI)
  have "set (error_strings p) = failures call_string {..<n} ?ks"
    using assms(1) by (simp add: loop_inv_def done_tasks)
  then have "error_strings p \<noteq> [] \<longleftrightarrow> (\<exists>t < n. failed (?ks ! t))"
    by (auto simp: failures_def simp flip: set_empty)
  also have "\<dots> \<longleftrightarrow> (\<exists>t < n. \<exists>e. f t = Raises e)"
  proof -
    have "failed (?ks ! t) \<longleftrightarrow> (\<exists>e. f t = Raises e)" if "t < n" for t
      using that by (simp add: ks failed_Run_task split: outcome.split)
    then show ?thesis by blast
  qed
  also have "\<dots> \<longleftrightarrow> (\<exists>e. Raises e \<in> set (map f [0..<n]))"
  proof -
    have "Raises e \<in> set (map f [0..<n]) \<longleftrightarrow> (\<exists>t < n. f t = Raises e)" for e by force
    then show ?thesis by blast
  qed
  finally have errors: "error_strings p \<noteq> [] \<longleftrightarrow> (\<exists>e. Raises e \<in> set (map f [0..<n]))" .
  have vals: "map return_value ?ks
      = map (\<lambda>r. case r of Returns x \<Rightarrow> Some x | Raises _ \<Rightarrow> None) (map f [0..<n])"
    by (auto simp: ks new_task_def split: outcome.split)
  show ?thesis
    by (rule exI [of _ "map f [0..<n]"])
       (use f errors vals in \<open>simp add: parallel_result_def\<close>)
qed

end

text \<open>A task manager whose children make progress: \<open>weight\<close> is what is left for them to do.\<close>

locale live_task_manager = task_manager k can inv tasks_of pending start child await
  for k :: nat and can :: "nat \<Rightarrow> 'r outcome \<Rightarrow> bool" and inv :: "'s \<Rightarrow> bool"
    and tasks_of :: "'s \<Rightarrow> 'r bg_task list" and pending :: "'s \<Rightarrow> nat set"
    and start :: "'s \<Rightarrow> 's option" and child :: "'s \<Rightarrow> 's \<Rightarrow> bool"
    and await :: "'s \<Rightarrow> nat \<Rightarrow> 's \<Rightarrow> bool" +
  fixes weight :: "'s \<Rightarrow> nat"
  assumes weight_start: "inv s \<Longrightarrow> start s = Some s' \<Longrightarrow> weight s' \<le> weight s + 3"
    and weight_child: "inv s \<Longrightarrow> child s s' \<Longrightarrow> weight s' < weight s"
    and weight_await: "inv s \<Longrightarrow> await s t s' \<Longrightarrow> weight s' < weight s"
    and progress: "inv s \<Longrightarrow> pending s \<noteq> {} \<Longrightarrow> \<forall>t. \<exists>r. can t r \<Longrightarrow>
      (\<exists>s'. child s s') \<or> (\<exists>t s'. await s t s')"
begin

text \<open>Every step uses up some of what is left.\<close>

definition left_over :: "nat \<Rightarrow> 's parallel \<Rightarrow> nat" where
  "left_over n p = 4 * (n - started_task_count p) + weight (manager p)"

lemma step_uses_up: "step n call_string p p' \<Longrightarrow> loop_inv n call_string p \<Longrightarrow> left_over n p' < left_over n p"
proof (induction rule: parallel_step.induct)
  case (start_step p s)
  then have "weight s \<le> weight (manager p) + 3" "started_task_count p < n"
    using weight_start by (auto simp: loop_inv_def may_start_def)
  then show ?case by (simp add: left_over_def started_def)
next
  case (await_step p t s)
  then have "weight s < weight (manager p)" using weight_await by (auto simp: loop_inv_def)
  then show ?case by (simp add: left_over_def awaited_def)
next
  case (child_step p s)
  then have "weight s < weight (manager p)" using weight_child by (auto simp: loop_inv_def)
  then show ?case by (simp add: left_over_def)
qed

lemma run_bound:
  "(step n call_string ^^ i) p p' \<Longrightarrow> loop_inv n call_string p \<Longrightarrow>
     loop_inv n call_string p' \<and> left_over n p' + i \<le> left_over n p"
proof (induction i arbitrary: p')
  case 0
  then show ?case by simp
next
  case (Suc i)
  then obtain q where q: "(step n call_string ^^ i) p q" "step n call_string q p'" by auto
  with Suc have "loop_inv n call_string q" "left_over n q + i \<le> left_over n p" by auto
  with step_uses_up [OF q(2)] loop_inv_step [OF q(2)] show ?case by simp
qed

lemma not_stuck:
  assumes "loop_inv n call_string p" and "looping n p" and "\<forall>t. \<exists>r. can t r" and "0 < k"
  shows "\<exists>p'. step n call_string p p'"
proof (cases "may_start n k p")
  case True
  then have "inv (manager p)" "card (pending (manager p)) < k"
    using assms(1) by (auto simp: loop_inv_def may_start_def)
  then obtain s where "start (manager p) = Some s" using starts by blast
  with True show ?thesis by (blast intro: parallel_step.start_step)
next
  case False
  show ?thesis
  proof (cases "pending (manager p) = {}")
    case True
    then have "active_task_count p = 0" using assms(1) by (simp add: loop_inv_def)
    with False assms(2,4) show ?thesis by (simp add: may_start_def looping_def)
  next
    case pending: False
    have "inv (manager p)" using assms(1) by (simp add: loop_inv_def)
    from progress [OF this pending assms(3)] False assms(2) show ?thesis
      by (blast intro: parallel_step.await_step parallel_step.child_step)
  qed
qed

end

section \<open>Threads\<close>

text \<open>
  \<open>_BackgroundThreadTaskManager\<close> with \<open>k\<close> worker threads, after all of them have reported that they
  run.  \<open>executing w\<close> is the task that the thread \<open>w\<close> has taken from its queue.
\<close>

record 'r thread_manager =
  thread_tasks :: "'r bg_task list"
  available_worker_ids :: "nat list"
  task_queues :: "nat \<Rightarrow> nat list"
  executing :: "nat \<Rightarrow> nat option"
  response_queue :: "(nat \<times> nat) list"

definition new_thread_manager :: "nat \<Rightarrow> 'r thread_manager" where
  "new_thread_manager k = \<lparr>thread_tasks = [], available_worker_ids = [0..<k],
     task_queues = (\<lambda>_. []), executing = (\<lambda>_. None), response_queue = []\<rparr>"

text \<open>\<open>StartTask\<close>; \<open>None\<close> is the failed assertion.\<close>

definition thread_start :: "'r thread_manager \<Rightarrow> 'r thread_manager option" where
  "thread_start s =
     (if available_worker_ids s = [] then None
      else let w = last (available_worker_ids s) in
        Some (s\<lparr>thread_tasks := thread_tasks s @ [new_task],
          available_worker_ids := butlast (available_worker_ids s),
          task_queues := (task_queues s)(w := task_queues s w @ [length (thread_tasks s)])\<rparr>))"

text \<open>\<open>AwaitAnyTask\<close>\<close>

inductive thread_await :: "'r thread_manager \<Rightarrow> nat \<Rightarrow> 'r thread_manager \<Rightarrow> bool" where
  "response_queue s = (w, t) # rs \<Longrightarrow>
     thread_await s t (s\<lparr>response_queue := rs, available_worker_ids := available_worker_ids s @ [w]\<rparr>)"

text \<open>\<open>_ExecuteBackgroundThreadTasks\<close>: a thread takes a task, and executes it.\<close>

inductive thread_step ::
  "(nat \<Rightarrow> 'r outcome \<Rightarrow> bool) \<Rightarrow> 'r thread_manager \<Rightarrow> 'r thread_manager \<Rightarrow> bool" for can
where
  take_task: "task_queues s w = t # ts \<Longrightarrow> executing s w = None \<Longrightarrow>
     thread_step can s (s\<lparr>task_queues := (task_queues s)(w := ts),
       executing := (executing s)(w := Some t)\<rparr>)"
| end_task: "executing s w = Some t \<Longrightarrow> can t r \<Longrightarrow>
     thread_step can s (s\<lparr>executing := (executing s)(w := None),
       thread_tasks := (thread_tasks s)[t := Run_task r (thread_tasks s ! t)],
       response_queue := response_queue s @ [(w, t)]\<rparr>)"

inductive_cases thread_awaitE: "thread_await s t s'"
inductive_cases thread_stepE: "thread_step can s s'"

text \<open>The tasks that the thread \<open>w\<close> holds: queued, executing, or reported.\<close>

definition holds :: "'r thread_manager \<Rightarrow> nat \<Rightarrow> nat list" where
  "holds s w = task_queues s w @ (case executing s w of None \<Rightarrow> [] | Some t \<Rightarrow> [t])
     @ map snd (filter (\<lambda>r. fst r = w) (response_queue s))"

definition thread_pending :: "'r thread_manager \<Rightarrow> nat set" where
  "thread_pending s = (\<Union>w. set (holds s w))"

text \<open>No task is held twice.\<close>

definition parts :: "(nat \<Rightarrow> nat list) \<Rightarrow> bool" where
  "parts h = ((\<forall>w. distinct (h w)) \<and> (\<forall>v w. v \<noteq> w \<longrightarrow> set (h v) \<inter> set (h w) = {}))"

definition thread_inv :: "nat \<Rightarrow> (nat \<Rightarrow> 'r outcome \<Rightarrow> bool) \<Rightarrow> 'r thread_manager \<Rightarrow> bool" where
  "thread_inv k can s = (
     length (available_worker_ids s) + card (thread_pending s) = k
     \<and> set (available_worker_ids s) \<subseteq> {..<k} \<and> (\<forall>w. holds s w \<noteq> [] \<longrightarrow> w < k)
     \<and> parts (holds s) \<and> thread_pending s \<subseteq> {..<length (thread_tasks s)}
     \<and> (\<forall>t \<in> thread_pending s - snd ` set (response_queue s). thread_tasks s ! t = new_task)
     \<and> (\<forall>t \<in> snd ` set (response_queue s). finished_as can t (thread_tasks s ! t)))"

lemma thread_invD:
  assumes "thread_inv k can s"
  shows "length (available_worker_ids s) + card (thread_pending s) = k"
    and "set (available_worker_ids s) \<subseteq> {..<k}" and "holds s w \<noteq> [] \<Longrightarrow> w < k"
    and "parts (holds s)" and "thread_pending s \<subseteq> {..<length (thread_tasks s)}"
    and "t \<in> thread_pending s \<Longrightarrow> t \<notin> snd ` set (response_queue s) \<Longrightarrow> thread_tasks s ! t = new_task"
    and "t \<in> snd ` set (response_queue s) \<Longrightarrow> finished_as can t (thread_tasks s ! t)"
  using assms unfolding thread_inv_def by blast+

lemma thread_invI:
  assumes "length (available_worker_ids s) + card (thread_pending s) = k"
    and "set (available_worker_ids s) \<subseteq> {..<k}" and "\<And>w. holds s w \<noteq> [] \<Longrightarrow> w < k"
    and "parts (holds s)" and "thread_pending s \<subseteq> {..<length (thread_tasks s)}"
    and "\<And>t. t \<in> thread_pending s \<Longrightarrow> t \<notin> snd ` set (response_queue s) \<Longrightarrow> thread_tasks s ! t = new_task"
    and "\<And>t. t \<in> snd ` set (response_queue s) \<Longrightarrow> finished_as can t (thread_tasks s ! t)"
  shows "thread_inv k can s"
  using assms unfolding thread_inv_def by blast

lemma parts_change:
  assumes "parts h" and "\<And>v. v \<noteq> w \<Longrightarrow> h' v = h v" and "distinct (h' w)"
    and "set (h' w) \<subseteq> set (h w) \<union> T" and "T \<inter> (\<Union>v. set (h v)) = {}"
  shows "parts h'"
  unfolding parts_def
proof (intro conjI allI impI)
  show "distinct (h' v)" for v using assms(1-3) by (cases "v = w") (simp_all add: parts_def)
  have own: "set (h' w) \<inter> set (h v) = {}" if "v \<noteq> w" for v
  proof -
    have "set (h w) \<inter> set (h v) = {}" using assms(1) that by (auto simp: parts_def)
    with assms(4,5) show ?thesis by blast
  qed
  show "set (h' u) \<inter> set (h' v) = {}" if "u \<noteq> v" for u v
  proof (cases "u = w")
    case True
    with that own [of v] assms(2) [of v] show ?thesis by simp
  next
    case u: False
    show ?thesis
    proof (cases "v = w")
      case True
      with u own [of u] assms(2) [of u] show ?thesis by (simp add: Int_commute)
    next
      case False
      with u that assms(1,2) show ?thesis by (simp add: parts_def)
    qed
  qed
qed

lemma pending_change:
  assumes "\<And>v. v \<noteq> w \<Longrightarrow> holds s' v = holds s v" and "set (holds s' w) = T \<union> set (holds s w)"
  shows "thread_pending s' = T \<union> thread_pending s"
proof -
  have "x \<in> set (holds s' v) \<longleftrightarrow> v = w \<and> x \<in> T \<or> x \<in> set (holds s v)" for x v
    using assms by (cases "v = w") simp_all
  then show ?thesis unfolding thread_pending_def by blast
qed

lemma responded_pending: "snd ` set (response_queue s) \<subseteq> thread_pending s"
  by (force simp: thread_pending_def holds_def)

lemma thread_inv_first: "thread_inv k can (new_thread_manager k)"
  by (auto simp: thread_inv_def new_thread_manager_def thread_pending_def holds_def parts_def)

lemma thread_pending_finite: "thread_inv k can s \<Longrightarrow> finite (thread_pending s)"
  unfolding thread_inv_def using finite_subset by blast

lemma thread_start_law:
  assumes "thread_inv k can s" and "thread_start s = Some s'"
  shows "thread_inv k can s' \<and> thread_tasks s' = thread_tasks s @ [new_task]
    \<and> thread_pending s' = insert (length (thread_tasks s)) (thread_pending s)"
proof -
  let ?w = "last (available_worker_ids s)" and ?t = "length (thread_tasks s)"
  have ne: "available_worker_ids s \<noteq> []"
    and s': "s' = s\<lparr>thread_tasks := thread_tasks s @ [new_task],
      available_worker_ids := butlast (available_worker_ids s),
      task_queues := (task_queues s)(?w := task_queues s ?w @ [?t])\<rparr>"
    using assms(2) by (auto simp: thread_start_def Let_def split: if_splits)
  have others: "holds s' v = holds s v" if "v \<noteq> ?w" for v using that by (simp add: s' holds_def)
  have own: "set (holds s' ?w) = {?t} \<union> set (holds s ?w)" by (auto simp: s' holds_def)
  have new: "?t \<notin> thread_pending s" using assms(1) by (auto simp: thread_inv_def)
  have pending: "thread_pending s' = insert ?t (thread_pending s)"
    using pending_change [OF others own] by simp
  have "distinct (holds s ?w)" "?t \<notin> set (holds s ?w)"
    using assms(1) new by (auto simp: thread_inv_def parts_def thread_pending_def)
  then have dist: "distinct (holds s' ?w)" by (auto simp: s' holds_def split: option.splits)
  have parts: "parts (holds s')"
  proof (rule parts_change [where h = "holds s" and w = ?w and T = "{?t}"])
    show "parts (holds s)" using assms(1) by (simp add: thread_inv_def)
    show "{?t} \<inter> (\<Union>v. set (holds s v)) = {}" using new by (simp add: thread_pending_def)
    show "set (holds s' ?w) \<subseteq> set (holds s ?w) \<union> {?t}" using own by simp
  qed (use dist others in simp_all)
  have card: "card (thread_pending s') = Suc (card (thread_pending s))"
    using pending new thread_pending_finite [OF assms(1)] by simp
  have "set (available_worker_ids s) \<subseteq> {..<k}" using assms(1) by (simp add: thread_inv_def)
  with last_in_set [OF ne] have k: "?w < k" by blast
  have workers: "holds s' v \<noteq> [] \<Longrightarrow> v < k" for v
    using others [of v] k assms(1) by (cases "v = ?w") (simp_all add: thread_inv_def)
  have same: "thread_tasks s' ! t = thread_tasks s ! t" if "t \<in> thread_pending s" for t
    using that assms(1) by (auto simp: s' thread_inv_def nth_append)
  have responses: "response_queue s' = response_queue s" by (simp add: s')
  have "length (available_worker_ids s) + card (thread_pending s) = k"
    using assms(1) by (simp add: thread_inv_def)
  moreover have "length (available_worker_ids s') = length (available_worker_ids s) - 1" by (simp add: s')
  moreover have "0 < length (available_worker_ids s)" using ne by simp
  ultimately have "length (available_worker_ids s') + card (thread_pending s') = k"
    using card by linarith
  then have "thread_inv k can s'"
  proof (rule thread_invI)
    show "set (available_worker_ids s') \<subseteq> {..<k}"
      using thread_invD(2) [OF assms(1)] by (auto simp: s' dest: in_set_butlastD)
    show "thread_pending s' \<subseteq> {..<length (thread_tasks s')}"
      using thread_invD(5) [OF assms(1)] unfolding pending by (auto simp: s')
    show "thread_tasks s' ! t = new_task" if "t \<in> thread_pending s'" "t \<notin> snd ` set (response_queue s')" for t
    proof (cases "t = ?t")
      case False
      with that(1) have "t \<in> thread_pending s" by (simp add: pending)
      with that(2) show ?thesis using same thread_invD(6) [OF assms(1)] by (simp only: responses)
    qed (simp add: s')
    show "finished_as can t (thread_tasks s' ! t)" if "t \<in> snd ` set (response_queue s')" for t
    proof -
      have "t \<in> thread_pending s" using that responded_pending [of s] unfolding responses by blast
      then show ?thesis using same thread_invD(7) [OF assms(1)] that by (simp only: responses)
    qed
  qed (use parts workers in simp_all)
  then show ?thesis using pending by (simp add: s')
qed

lemma thread_await_law:
  assumes "thread_inv k can s" and "thread_await s t s'"
  shows "thread_inv k can s' \<and> thread_tasks s' = thread_tasks s \<and> t \<in> thread_pending s
    \<and> thread_pending s' = thread_pending s - {t} \<and> finished_as can t (thread_tasks s ! t)"
proof -
  obtain w rs where queue: "response_queue s = (w, t) # rs"
    and s': "s' = s\<lparr>response_queue := rs, available_worker_ids := available_worker_ids s @ [w]\<rparr>"
    using assms(2) by (blast elim: thread_awaitE)
  have others: "holds s v = holds s' v" if "v \<noteq> w" for v using that by (simp add: s' holds_def queue)
  have own: "set (holds s w) = {t} \<union> set (holds s' w)" by (auto simp: s' holds_def queue)
  have pending: "thread_pending s = insert t (thread_pending s')"
    using pending_change [OF others own] by simp
  have dist: "distinct (holds s w)" using assms(1) by (simp add: thread_inv_def parts_def)
  then have own_new: "t \<notin> set (holds s' w)" "distinct (holds s' w)"
    by (auto simp: s' holds_def queue split: option.splits)
  have "t \<notin> set (holds s' v)" for v
  proof (cases "v = w")
    case False
    have "set (holds s v) \<inter> set (holds s w) = {}"
      using assms(1) False by (simp add: thread_inv_def parts_def)
    with own others [OF False] show ?thesis by auto
  qed (use own_new in simp)
  then have new: "t \<notin> thread_pending s'" by (simp add: thread_pending_def)
  have parts: "parts (holds s')"
  proof (rule parts_change [where h = "holds s" and w = w and T = "{}"])
    show "parts (holds s)" using assms(1) by (simp add: thread_inv_def)
    show "set (holds s' w) \<subseteq> set (holds s w) \<union> {}" using own by blast
  qed (use own_new others in simp_all)
  have "holds s w \<noteq> []" using own by auto
  then have k: "w < k" using assms(1) unfolding thread_inv_def by blast
  have workers: "holds s' v \<noteq> [] \<Longrightarrow> v < k" for v
    using others [of v] k assms(1) by (cases "v = w") (simp_all add: thread_inv_def)
  have "finite (thread_pending s')" using thread_pending_finite [OF assms(1)] by (simp add: pending)
  then have "length (available_worker_ids s') + card (thread_pending s') = k"
    using assms(1) new by (simp add: thread_inv_def pending s')
  moreover have "set (available_worker_ids s') \<subseteq> {..<k}" using assms(1) k by (auto simp: thread_inv_def s')
  moreover have "thread_pending s' - snd ` set rs = thread_pending s - snd ` set (response_queue s)"
    using new by (auto simp: pending queue)
  moreover have "thread_pending s' \<subseteq> {..<length (thread_tasks s)}"
    using assms(1) pending by (auto simp: thread_inv_def)
  ultimately have "thread_inv k can s'"
    using assms(1) parts workers by (simp add: thread_inv_def s' queue)
  then show ?thesis
    using pending new assms(1) by (auto simp: thread_inv_def s' queue)
qed

text \<open>A step of a thread: what it holds stays the same but for the order.\<close>

lemma thread_take_law:
  assumes "thread_inv k can s" and "task_queues s w = t # ts" and "executing s w = None"
    and s': "s' = s\<lparr>task_queues := (task_queues s)(w := ts), executing := (executing s)(w := Some t)\<rparr>"
  shows "thread_inv k can s' \<and> thread_pending s' = thread_pending s"
proof -
  have others: "holds s' v = holds s v" if "v \<noteq> w" for v using that by (simp add: s' holds_def)
  have own: "set (holds s' w) = {} \<union> set (holds s w)" using assms(2,3) by (auto simp: s' holds_def)
  have pending: "thread_pending s' = thread_pending s" using pending_change [OF others own] by simp
  have "distinct (holds s w)" using assms(1) by (simp add: thread_inv_def parts_def)
  then have dist: "distinct (holds s' w)" using assms(2,3) by (auto simp: s' holds_def)
  have parts: "parts (holds s')"
  proof (rule parts_change [where h = "holds s" and w = w and T = "{}"])
    show "parts (holds s)" using assms(1) by (simp add: thread_inv_def)
  qed (use dist others own in simp_all)
  have "holds s w \<noteq> []" using assms(2) by (simp add: holds_def)
  then have "w < k" using assms(1) unfolding thread_inv_def by blast
  then have workers: "holds s' v \<noteq> [] \<Longrightarrow> v < k" for v
    using others [of v] assms(1) by (cases "v = w") (simp_all add: thread_inv_def)
  show ?thesis
    using assms(1) parts workers pending by (simp add: thread_inv_def s')
qed

lemma thread_end_law:
  assumes "thread_inv k can s" and "executing s w = Some t" and "can t r"
    and s': "s' = s\<lparr>executing := (executing s)(w := None),
       thread_tasks := (thread_tasks s)[t := Run_task r (thread_tasks s ! t)],
       response_queue := response_queue s @ [(w, t)]\<rparr>"
  shows "thread_inv k can s' \<and> thread_pending s' = thread_pending s
    \<and> (\<forall>u. u \<notin> thread_pending s \<longrightarrow> thread_tasks s' ! u = thread_tasks s ! u)"
proof -
  have others: "holds s' v = holds s v" if "v \<noteq> w" for v using that by (simp add: s' holds_def)
  have own: "set (holds s' w) = {} \<union> set (holds s w)" using assms(2) by (auto simp: s' holds_def)
  have pending: "thread_pending s' = thread_pending s" using pending_change [OF others own] by simp
  have "distinct (holds s w)" using assms(1) by (simp add: thread_inv_def parts_def)
  then have dist: "distinct (holds s' w)" using assms(2) by (auto simp: s' holds_def)
  have parts: "parts (holds s')"
  proof (rule parts_change [where h = "holds s" and w = w and T = "{}"])
    show "parts (holds s)" using assms(1) by (simp add: thread_inv_def)
  qed (use dist others own in simp_all)
  have t_in: "t \<in> set (holds s w)" using assms(2) by (simp add: holds_def)
  then have "holds s w \<noteq> []" by auto
  then have "w < k" using assms(1) unfolding thread_inv_def by blast
  then have workers: "holds s' v \<noteq> [] \<Longrightarrow> v < k" for v
    using others [of v] assms(1) by (cases "v = w") (simp_all add: thread_inv_def)
  have t: "t \<in> thread_pending s" using t_in by (auto simp: thread_pending_def)
  then have length: "t < length (thread_tasks s)" using assms(1) by (auto simp: thread_inv_def)
  have fresh: "t \<notin> snd ` set (response_queue s)"
  proof
    assume "t \<in> snd ` set (response_queue s)"
    then obtain v where v: "(v, t) \<in> set (response_queue s)" by auto
    then have held: "t \<in> set (holds s v)" by (force simp: holds_def)
    show False
    proof (cases "v = w")
      case True
      with v assms(2) \<open>distinct (holds s w)\<close> show False by (force simp: holds_def)
    next
      case False
      then have "set (holds s v) \<inter> set (holds s w) = {}"
        using assms(1) by (simp add: thread_inv_def parts_def)
      with held t_in show False by blast
    qed
  qed
  then have "thread_tasks s ! t = new_task" using assms(1) t by (simp add: thread_inv_def)
  then have "finished_as can t (thread_tasks s' ! t)"
    using assms(3) length by (auto simp: s' finished_as_def)
  moreover have same: "thread_tasks s' ! u = thread_tasks s ! u" if "u \<noteq> t" for u
    using that by (simp add: s')
  ultimately have "finished_as can u (thread_tasks s' ! u)" if "u \<in> snd ` set (response_queue s')" for u
  proof (cases "u = t")
    case False
    with that have "u \<in> snd ` set (response_queue s)" by (auto simp: s')
    then have "finished_as can u (thread_tasks s ! u)" using assms(1) unfolding thread_inv_def by blast
    then show ?thesis by (simp only: same [OF False])
  qed simp
  then have "thread_inv k can s'"
  proof (intro thread_invI)
    show "length (available_worker_ids s') + card (thread_pending s') = k"
      using thread_invD(1) [OF assms(1)] unfolding pending by (simp add: s')
    show "set (available_worker_ids s') \<subseteq> {..<k}"
      using thread_invD(2) [OF assms(1)] by (simp add: s')
    show "thread_pending s' \<subseteq> {..<length (thread_tasks s')}"
      using thread_invD(5) [OF assms(1)] unfolding pending by (simp add: s')
    show "thread_tasks s' ! u = new_task" if "u \<in> thread_pending s'" "u \<notin> snd ` set (response_queue s')" for u
    proof -
      have "u \<noteq> t" "u \<notin> snd ` set (response_queue s)" using that(2) by (auto simp: s')
      then show ?thesis using same thread_invD(6) [OF assms(1)] that(1) unfolding pending by metis
    qed
  qed (use parts workers in simp_all)
  moreover have "thread_tasks s' ! u = thread_tasks s ! u" if "u \<notin> thread_pending s" for u
    by (rule same) (use that t in blast)
  ultimately show ?thesis using pending by blast
qed

text \<open>What is left for the threads and the loop to do.\<close>

definition thread_load :: "'r thread_manager \<Rightarrow> nat \<Rightarrow> nat" where
  "thread_load s w = 3 * length (task_queues s w) + (case executing s w of None \<Rightarrow> 0 | Some _ \<Rightarrow> 2)"

definition thread_weight :: "nat \<Rightarrow> 'r thread_manager \<Rightarrow> nat" where
  "thread_weight k s = (\<Sum>w<k. thread_load s w) + length (response_queue s)"

lemma sum_change:
  fixes f g :: "nat \<Rightarrow> nat"
  assumes "w < k" and "\<And>v. v \<noteq> w \<Longrightarrow> g v = f v"
  shows "(\<Sum>v<k. g v) + f w = (\<Sum>v<k. f v) + g w"
proof -
  have "(\<Sum>v<k. h v) = h w + (\<Sum>v \<in> {..<k} - {w}. h v)" for h :: "nat \<Rightarrow> nat"
    using assms(1) by (intro sum.remove) simp_all
  moreover have "(\<Sum>v \<in> {..<k} - {w}. g v) = (\<Sum>v \<in> {..<k} - {w}. f v)"
    using assms(2) by (intro sum.cong) simp_all
  ultimately show ?thesis by simp
qed

lemma thread_weight_start:
  assumes "thread_inv k can s" and "thread_start s = Some s'"
  shows "thread_weight k s' \<le> thread_weight k s + 3"
proof -
  let ?w = "last (available_worker_ids s)"
  have ne: "available_worker_ids s \<noteq> []"
    and s': "s' = s\<lparr>thread_tasks := thread_tasks s @ [new_task],
      available_worker_ids := butlast (available_worker_ids s),
      task_queues := (task_queues s)(?w := task_queues s ?w @ [length (thread_tasks s)])\<rparr>"
    using assms(2) by (auto simp: thread_start_def Let_def split: if_splits)
  have "?w < k" using thread_invD(2) [OF assms(1)] last_in_set [OF ne] by blast
  moreover have "thread_load s' v = thread_load s v" if "v \<noteq> ?w" for v
    using that by (simp add: s' thread_load_def)
  moreover have "thread_load s' ?w = thread_load s ?w + 3" by (simp add: s' thread_load_def)
  ultimately show ?thesis
    using sum_change [of ?w k "thread_load s'" "thread_load s"] by (simp add: thread_weight_def s')
qed

lemma thread_weight_step:
  assumes "thread_inv k can s" and "thread_step can s s'"
  shows "thread_weight k s' < thread_weight k s"
  using assms(2)
proof (rule thread_stepE)
  fix w t ts
  assume s': "s' = s\<lparr>task_queues := (task_queues s)(w := ts), executing := (executing s)(w := Some t)\<rparr>"
    and w: "task_queues s w = t # ts" "executing s w = None"
  have "holds s w \<noteq> []" using w by (simp add: holds_def)
  then have "w < k" by (rule thread_invD(3) [OF assms(1)])
  moreover have "thread_load s' v = thread_load s v" if "v \<noteq> w" for v
    using that by (simp add: s' thread_load_def)
  moreover have "thread_load s w = thread_load s' w + 1" using w by (simp add: s' thread_load_def)
  ultimately show ?thesis
    using sum_change [of w k "thread_load s'" "thread_load s"] by (simp add: thread_weight_def s')
next
  fix w t r
  assume s': "s' = s\<lparr>executing := (executing s)(w := None),
       thread_tasks := (thread_tasks s)[t := Run_task r (thread_tasks s ! t)],
       response_queue := response_queue s @ [(w, t)]\<rparr>"
    and w: "executing s w = Some t" "can t r"
  have "holds s w \<noteq> []" using w by (simp add: holds_def)
  then have "w < k" by (rule thread_invD(3) [OF assms(1)])
  moreover have "thread_load s' v = thread_load s v" if "v \<noteq> w" for v
    using that by (simp add: s' thread_load_def)
  moreover have "thread_load s w = thread_load s' w + 2" using w by (simp add: s' thread_load_def)
  ultimately show ?thesis
    using sum_change [of w k "thread_load s'" "thread_load s"] by (simp add: thread_weight_def s')
qed

lemma thread_step_law:
  assumes "thread_inv k can s" and "thread_step can s s'"
  shows "thread_inv k can s' \<and> length (thread_tasks s') = length (thread_tasks s)
    \<and> thread_pending s' = thread_pending s
    \<and> (\<forall>t. t \<notin> thread_pending s \<longrightarrow> thread_tasks s' ! t = thread_tasks s ! t)"
  using assms(2)
proof (rule thread_stepE)
  fix w t ts
  assume s': "s' = s\<lparr>task_queues := (task_queues s)(w := ts), executing := (executing s)(w := Some t)\<rparr>"
    and w: "task_queues s w = t # ts" "executing s w = None"
  show ?thesis using thread_take_law [OF assms(1) w s'] by (simp add: s')
next
  fix w t r
  assume s': "s' = s\<lparr>executing := (executing s)(w := None),
       thread_tasks := (thread_tasks s)[t := Run_task r (thread_tasks s ! t)],
       response_queue := response_queue s @ [(w, t)]\<rparr>"
    and w: "executing s w = Some t" "can t r"
  have "length (thread_tasks s') = length (thread_tasks s)" by (simp add: s')
  with thread_end_law [OF assms(1) w s'] show ?thesis by blast
qed

lemma thread_progress:
  assumes "thread_pending s \<noteq> {}" and "\<forall>t. \<exists>r. can t r"
  shows "(\<exists>s'. thread_step can s s') \<or> (\<exists>t s'. thread_await s t s')"
proof -
  obtain w t where t: "t \<in> set (holds s w)" using assms(1) unfolding thread_pending_def by blast
  show ?thesis
  proof (cases "executing s w")
    case (Some u)
    moreover obtain r where "can u r" using assms(2) by blast
    ultimately show ?thesis using thread_step.end_task by blast
  next
    case None
    show ?thesis
    proof (cases "task_queues s w")
      case (Cons u us)
      with None show ?thesis using thread_step.take_task by blast
    next
      case Nil
      with None t have "response_queue s \<noteq> []" by (auto simp: holds_def)
      then obtain v u rs where "response_queue s = (v, u) # rs" by (metis list.exhaust prod.exhaust)
      then show ?thesis using thread_await.intros by blast
    qed
  qed
qed

text \<open>The threads provide the interface.\<close>

interpretation threads: live_task_manager k can "thread_inv k can" thread_tasks thread_pending
  thread_start "thread_step can" thread_await "thread_weight k" for k can
proof unfold_locales
  fix k :: nat and can :: "nat \<Rightarrow> 'r outcome \<Rightarrow> bool" and s s' :: "'r thread_manager" and t
  assume inv: "thread_inv k can s"
  show "thread_pending s \<subseteq> {..<length (thread_tasks s)}" by (rule thread_invD(5) [OF inv])
  show "\<exists>s'. thread_start s = Some s'" if "card (thread_pending s) < k"
    using thread_invD(1) [OF inv] that by (auto simp: thread_start_def Let_def)
  show "thread_inv k can s' \<and> thread_tasks s' = thread_tasks s @ [new_task]
      \<and> thread_pending s' = insert (length (thread_tasks s)) (thread_pending s)"
    if "thread_start s = Some s'" using thread_start_law [OF inv that] .
  show "thread_inv k can s' \<and> length (thread_tasks s') = length (thread_tasks s)
      \<and> thread_pending s' = thread_pending s
      \<and> (\<forall>t. t \<notin> thread_pending s \<longrightarrow> thread_tasks s' ! t = thread_tasks s ! t)"
    if "thread_step can s s'" using thread_step_law [OF inv that] .
  show "thread_inv k can s' \<and> length (thread_tasks s') = length (thread_tasks s)
      \<and> t \<in> thread_pending s \<and> thread_pending s' = thread_pending s - {t}
      \<and> finished_as can t (thread_tasks s' ! t)
      \<and> (\<forall>u. u \<notin> thread_pending s \<longrightarrow> thread_tasks s' ! u = thread_tasks s ! u)"
    if "thread_await s t s'" using thread_await_law [OF inv that] by simp
  show "thread_weight k s' \<le> thread_weight k s + 3" if "thread_start s = Some s'"
    by (rule thread_weight_start [OF inv that])
  show "thread_weight k s' < thread_weight k s" if "thread_step can s s'"
    by (rule thread_weight_step [OF inv that])
  show "thread_weight k s' < thread_weight k s" if "thread_await s t s'"
    using that by (rule thread_awaitE) (simp add: thread_weight_def thread_load_def)
  show "(\<exists>s'. thread_step can s s') \<or> (\<exists>t s'. thread_await s t s')"
    if "thread_pending s \<noteq> {}" "\<forall>t. \<exists>r. can t r" by (rule thread_progress [OF that])
qed

end
