(* ===== verification/Parallel.thy ===== *)
theory Parallel
  imports Background
begin

text \<open>
  What \<open>RunParallelThreads\<close>, \<open>RunParallelProcesses\<close>, \<open>RunThreaded\<close> and \<open>RunOnAllVms\<close> of
  \<open>perfkitbenchmarker/background_tasks.py\<close> guarantee, the manager for child processes, threads that
  die, and the polling wait.
\<close>

section \<open>Processes\<close>

text \<open>
  \<open>_BackgroundProcessTaskManager\<close>: \<open>active_futures\<close> are the numbers of the tasks whose futures are
  active, and \<open>completed t\<close> is what the process of task \<open>t\<close> has sent back.  The executor is a pool
  that runs what it is given in its own time.
\<close>

record 'r process_manager =
  process_tasks :: "'r bg_task list"
  active_futures :: "nat set"
  completed :: "nat \<Rightarrow> 'r bg_task option"

definition new_process_manager :: "'r process_manager" where
  "new_process_manager = \<lparr>process_tasks = [], active_futures = {}, completed = (\<lambda>_. None)\<rparr>"

definition process_start :: "'r process_manager \<Rightarrow> 'r process_manager option" where
  "process_start s = Some (s\<lparr>process_tasks := process_tasks s @ [new_task],
     active_futures := insert (length (process_tasks s)) (active_futures s)\<rparr>)"

text \<open>\<open>_ExecuteProcessTask\<close>: the copy of the task in the other process is executed.\<close>

inductive process_step ::
  "(nat \<Rightarrow> 'r outcome \<Rightarrow> bool) \<Rightarrow> 'r process_manager \<Rightarrow> 'r process_manager \<Rightarrow> bool" for can
where
  "t \<in> active_futures s \<Longrightarrow> completed s t = None \<Longrightarrow> can t r \<Longrightarrow>
     process_step can s (s\<lparr>completed := (completed s)(t := Some (Run_task r new_task))\<rparr>)"

inductive process_await :: "'r process_manager \<Rightarrow> nat \<Rightarrow> 'r process_manager \<Rightarrow> bool" where
  "t \<in> active_futures s \<Longrightarrow> completed s t = Some k \<Longrightarrow>
     process_await s t (s\<lparr>active_futures := active_futures s - {t},
       process_tasks := (process_tasks s)[t := k]\<rparr>)"

inductive_cases process_stepE: "process_step can s s'"
inductive_cases process_awaitE: "process_await s t s'"

definition process_inv :: "(nat \<Rightarrow> 'r outcome \<Rightarrow> bool) \<Rightarrow> 'r process_manager \<Rightarrow> bool" where
  "process_inv can s = (active_futures s \<subseteq> {..<length (process_tasks s)}
     \<and> (\<forall>t. completed s t \<noteq> None \<longrightarrow> t < length (process_tasks s))
     \<and> (\<forall>t k. completed s t = Some k \<longrightarrow> finished_as can t k))"

definition process_weight :: "'r process_manager \<Rightarrow> nat" where
  "process_weight s = card (active_futures s) + card {t \<in> active_futures s. completed s t = None}"

lemma process_inv_first: "process_inv can new_process_manager"
  by (simp add: process_inv_def new_process_manager_def)

lemma process_active_finite: "process_inv can s \<Longrightarrow> finite (active_futures s)"
  unfolding process_inv_def using finite_subset by blast

lemma process_weight_start:
  assumes "process_inv can s" and "process_start s = Some s'"
  shows "process_weight s' \<le> process_weight s + 3"
proof -
  let ?t = "length (process_tasks s)"
  have s': "s' = s\<lparr>process_tasks := process_tasks s @ [new_task],
     active_futures := insert ?t (active_futures s)\<rparr>" using assms(2) by (simp add: process_start_def)
  have fin: "finite (active_futures s)" by (rule process_active_finite [OF assms(1)])
  have "{t \<in> active_futures s'. completed s' t = None} \<subseteq> insert ?t {t \<in> active_futures s. completed s t = None}"
    by (auto simp: s')
  then have "card {t \<in> active_futures s'. completed s' t = None}
      \<le> card (insert ?t {t \<in> active_futures s. completed s t = None})"
    using fin by (intro card_mono) auto
  also have "\<dots> \<le> Suc (card {t \<in> active_futures s. completed s t = None})" by (rule card_insert_le_m1) auto
  finally show ?thesis
    using card_insert_le_m1 [of "Suc (card (active_futures s))" "active_futures s" ?t]
    by (simp add: process_weight_def s')
qed

lemma process_weight_step:
  assumes "process_inv can s" and "process_step can s s'"
  shows "process_weight s' < process_weight s"
  using assms(2)
proof (rule process_stepE)
  fix t r
  assume s': "s' = s\<lparr>completed := (completed s)(t := Some (Run_task r new_task))\<rparr>"
    and t: "t \<in> active_futures s" "completed s t = None"
  have "{u \<in> active_futures s'. completed s' u = None} \<subset> {u \<in> active_futures s. completed s u = None}"
    using t by (auto simp: s')
  then have "card {u \<in> active_futures s'. completed s' u = None} < card {u \<in> active_futures s. completed s u = None}"
    by (rule psubset_card_mono [rotated]) (use process_active_finite [OF assms(1)] in simp)
  then show ?thesis by (simp add: process_weight_def s')
qed

lemma process_weight_await:
  assumes "process_inv can s" and "process_await s t s'"
  shows "process_weight s' < process_weight s"
  using assms(2)
proof (rule process_awaitE)
  fix k
  assume s': "s' = s\<lparr>active_futures := active_futures s - {t}, process_tasks := (process_tasks s)[t := k]\<rparr>"
    and t: "t \<in> active_futures s" "completed s t = Some k"
  have "card (active_futures s - {t}) < card (active_futures s)"
    by (rule card_Diff1_less [OF process_active_finite [OF assms(1)] t(1)])
  moreover have "{u \<in> active_futures s'. completed s' u = None} = {u \<in> active_futures s. completed s u = None}"
    using t by (auto simp: s')
  ultimately show ?thesis by (simp add: process_weight_def s')
qed

text \<open>The processes provide the same interface.\<close>

interpretation processes: live_task_manager k can "process_inv can" process_tasks active_futures
  process_start "process_step can" process_await process_weight for k can
proof unfold_locales
  fix k :: nat and can :: "nat \<Rightarrow> 'r outcome \<Rightarrow> bool" and s s' :: "'r process_manager" and t
  assume inv: "process_inv can s"
  show "active_futures s \<subseteq> {..<length (process_tasks s)}" using inv by (simp add: process_inv_def)
  show "\<exists>s'. process_start s = Some s'" by (simp add: process_start_def)
  show "process_inv can s' \<and> process_tasks s' = process_tasks s @ [new_task]
      \<and> active_futures s' = insert (length (process_tasks s)) (active_futures s)"
    if "process_start s = Some s'"
    using inv that by (auto simp: process_inv_def process_start_def less_Suc_eq)
  show "process_inv can s' \<and> length (process_tasks s') = length (process_tasks s)
      \<and> active_futures s' = active_futures s
      \<and> (\<forall>t. t \<notin> active_futures s \<longrightarrow> process_tasks s' ! t = process_tasks s ! t)"
    if "process_step can s s'"
    using that inv by (elim process_stepE) (auto simp: process_inv_def finished_as_def)
  show "process_inv can s' \<and> length (process_tasks s') = length (process_tasks s)
      \<and> t \<in> active_futures s \<and> active_futures s' = active_futures s - {t}
      \<and> finished_as can t (process_tasks s' ! t)
      \<and> (\<forall>u. u \<notin> active_futures s \<longrightarrow> process_tasks s' ! u = process_tasks s ! u)"
    if "process_await s t s'"
    using that inv by (elim process_awaitE) (auto simp: process_inv_def nth_list_update)
  show "process_weight s' \<le> process_weight s + 3" if "process_start s = Some s'"
    by (rule process_weight_start [OF inv that])
  show "process_weight s' < process_weight s" if "process_step can s s'"
    by (rule process_weight_step [OF inv that])
  show "process_weight s' < process_weight s" if "process_await s t s'"
    by (rule process_weight_await [OF inv that])
  show "(\<exists>s'. process_step can s s') \<or> (\<exists>t s'. process_await s t s')"
    if "active_futures s \<noteq> {}" and "\<forall>t. \<exists>r. can t r"
    using that process_step.intros process_await.intros by (metis all_not_in_conv not_None_eq)
qed

section \<open>Running calls in parallel\<close>

text \<open>The steps of \<open>_RunParallelTasks\<close> with threads and with processes.\<close>

definition thread_run ::
  "nat \<Rightarrow> nat \<Rightarrow> (nat \<Rightarrow> string) \<Rightarrow> (nat \<Rightarrow> 'r outcome \<Rightarrow> bool)
     \<Rightarrow> 'r thread_manager parallel \<Rightarrow> 'r thread_manager parallel \<Rightarrow> bool" where
  "thread_run n k call_string can =
     parallel_step n k call_string thread_tasks thread_start (thread_step can) thread_await"

definition process_run ::
  "nat \<Rightarrow> nat \<Rightarrow> (nat \<Rightarrow> string) \<Rightarrow> (nat \<Rightarrow> 'r outcome \<Rightarrow> bool)
     \<Rightarrow> 'r process_manager parallel \<Rightarrow> 'r process_manager parallel \<Rightarrow> bool" where
  "process_run n k call_string can =
     parallel_step n k call_string process_tasks process_start (process_step can) process_await"

text \<open>\<open>max_concurrency = min(max_concurrency, len(target_arg_tuples))\<close>\<close>

definition concurrency :: "nat \<Rightarrow> nat \<Rightarrow> nat" where
  "concurrency max_concurrency n = min max_concurrency n"

definition RunParallelThreads_start :: "nat \<Rightarrow> nat \<Rightarrow> 'r thread_manager parallel" where
  "RunParallelThreads_start max_concurrency n =
     first_state (new_thread_manager (concurrency max_concurrency n))"

definition RunParallelProcesses_start :: "'r process_manager parallel" where
  "RunParallelProcesses_start = first_state new_process_manager"

text \<open>What a sequence of outcomes means for the caller.\<close>

definition values_of :: "'r outcome list \<Rightarrow> 'r option list" where
  "values_of os = map (\<lambda>r. case r of Returns x \<Rightarrow> Some x | Raises _ \<Rightarrow> None) os"

definition raising :: "'r outcome list \<Rightarrow> bool" where
  "raising os = list_ex (\<lambda>r. case r of Returns _ \<Rightarrow> False | Raises _ \<Rightarrow> True) os"

lemma raising_iff: "raising os \<longleftrightarrow> (\<exists>e. Raises e \<in> set os)"
  by (auto simp: raising_def list_ex_iff split: outcome.splits) (metis outcome.exhaust)

definition parallel_error :: "exn_class \<Rightarrow> string list \<Rightarrow> exn" where
  "parallel_error c errors = exn c (''The following exceptions occurred during parallel execution:''
     @ linesep @ str_join linesep errors)"

lemma thread_run_inv:
  assumes "(thread_run n k call_string can)\<^sup>*\<^sup>* (first_state (new_thread_manager k)) p"
  shows "threads.loop_inv k can n call_string p"
proof -
  have "threads.loop_inv k can n call_string (first_state (new_thread_manager k))"
    by (rule threads.loop_inv_first [OF thread_inv_first]) (simp add: new_thread_manager_def)
  with assms show ?thesis unfolding thread_run_def by (rule threads.loop_inv_run)
qed

text \<open>C9: Threads deliver the results in order: however the calls and the loop of RunParallelThreads
  interleave, when the loop has ended every call has been executed exactly once with some outcome
  that it may have; if one of them raised an exception, a ThreadException is raised, and otherwise
  the result is the list of their values in the order of the calls.\<close>

theorem RunParallelThreads_result:
  assumes "(thread_run n (concurrency k n) call_string can)\<^sup>*\<^sup>* (RunParallelThreads_start k n) p"
    and "\<not> looping n p"
  shows "\<exists>os. length os = n \<and> (\<forall>t < n. can t (os ! t))
    \<and> parallel_result (VmUtil ThreadException) thread_tasks p =
      (if raising os then Inl (parallel_error (VmUtil ThreadException) (error_strings p))
       else Inr (values_of os))"
  using threads.result_of_run [OF thread_run_inv [OF assms(1) [unfolded RunParallelThreads_start_def]] assms(2)]
  unfolding raising_iff values_of_def parallel_error_def .

text \<open>One call, which returns 7.\<close>

definition seven :: "nat \<Rightarrow> nat outcome \<Rightarrow> bool" where
  "seven t r = (r = Returns 7)"

definition no_name :: "nat \<Rightarrow> string" where
  "no_name t = []"

lemma three_steps: "R a b \<Longrightarrow> R b c \<Longrightarrow> R c d \<Longrightarrow> R\<^sup>*\<^sup>* a d"
  by (meson converse_rtranclp_into_rtranclp r_into_rtranclp)

lemma four_steps: "R a b \<Longrightarrow> R b c \<Longrightarrow> R c d \<Longrightarrow> R d e \<Longrightarrow> R\<^sup>*\<^sup>* a e"
  by (rule converse_rtranclp_into_rtranclp [OF _ three_steps])

lemma seven_threads:
  "\<exists>p. (thread_run 1 (concurrency 3 1) no_name seven)\<^sup>*\<^sup>* (RunParallelThreads_start 3 1) p \<and> \<not> looping 1 p"
proof -
  let ?run = "thread_run 1 (concurrency 3 1) no_name seven"
  let ?m0 = "new_thread_manager 1 :: nat thread_manager"
  let ?m1 = "?m0\<lparr>thread_tasks := [new_task], available_worker_ids := [], task_queues := (\<lambda>_. [])(0 := [0])\<rparr>"
  let ?m2 = "?m1\<lparr>task_queues := (task_queues ?m1)(0 := []), executing := (executing ?m1)(0 := Some 0)\<rparr>"
  let ?m3 = "?m2\<lparr>executing := (executing ?m2)(0 := None),
    thread_tasks := (thread_tasks ?m2)[0 := Run_task (Returns 7) (thread_tasks ?m2 ! 0)],
    response_queue := response_queue ?m2 @ [(0, 0)]\<rparr>"
  let ?m4 = "?m3\<lparr>response_queue := [], available_worker_ids := available_worker_ids ?m3 @ [0]\<rparr>"
  let ?p0 = "RunParallelThreads_start 3 1 :: nat thread_manager parallel"
  let ?p1 = "started ?m1 ?p0"
  let ?p2 = "?p1\<lparr>manager := ?m2\<rparr>"
  let ?p3 = "?p2\<lparr>manager := ?m3\<rparr>"
  let ?p4 = "awaited no_name 0 (thread_tasks ?m4 ! 0) ?m4 ?p3"
  note start = RunParallelThreads_start_def first_state_def concurrency_def new_thread_manager_def
  have s1: "?run ?p0 ?p1"
    unfolding thread_run_def
    by (rule parallel_step.start_step)
       (simp_all add: start may_start_def thread_start_def upt_rec fun_upd_def)
  have "thread_step seven ?m1 ?m2" by (rule thread_step.take_task) (simp_all add: start)
  then have s2: "?run ?p1 ?p2"
    unfolding thread_run_def by (intro parallel_step.child_step) (simp add: started_def)
  have "thread_step seven ?m2 ?m3"
    by (rule thread_step.end_task) (simp_all add: seven_def)
  then have s3: "?run ?p2 ?p3"
    unfolding thread_run_def by (intro parallel_step.child_step) simp
  have "thread_await ?m3 0 ?m4" by (rule thread_await.intros) (simp add: start)
  then have s4: "?run ?p3 ?p4"
    unfolding thread_run_def
    by (intro parallel_step.await_step) (simp_all add: may_start_def looping_def started_def start)
  have "?run\<^sup>*\<^sup>* ?p0 ?p4"
    by (rule four_steps [where R = ?run, OF s1 s2 s3 s4])
  moreover have "\<not> looping 1 ?p4" by (simp add: looping_def awaited_def started_def start)
  ultimately show ?thesis by blast
qed

theorem RunParallelThreads_result_witness:
  "\<exists>p. (thread_run 1 (concurrency 3 1) no_name seven)\<^sup>*\<^sup>* (RunParallelThreads_start 3 1) p
     \<and> parallel_result (VmUtil ThreadException) thread_tasks p = Inr [Some 7]"
proof -
  obtain p where p: "(thread_run 1 (concurrency 3 1) no_name seven)\<^sup>*\<^sup>* (RunParallelThreads_start 3 1) p"
    "\<not> looping 1 p" using seven_threads by blast
  from RunParallelThreads_result [OF p] obtain os where os: "length os = 1" "seven 0 (os ! 0)"
    "parallel_result (VmUtil ThreadException) thread_tasks p =
      (if raising os then Inl (parallel_error (VmUtil ThreadException) (error_strings p))
       else Inr (values_of os))" by auto
  from os(1,2) have "os = [Returns 7]" by (cases os) (simp_all add: seven_def)
  with os p show ?thesis by (auto simp: raising_def values_of_def)
qed

text \<open>Processes deliver the results in order as well, and raise a CalledProcessException otherwise.\<close>

lemma RunParallelProcesses_result:
  assumes "(process_run n (concurrency k n) call_string can)\<^sup>*\<^sup>* RunParallelProcesses_start p"
    and "\<not> looping n p"
  shows "\<exists>os. length os = n \<and> (\<forall>t < n. can t (os ! t))
    \<and> parallel_result (VmUtil CalledProcessException) process_tasks p =
      (if raising os then Inl (parallel_error (VmUtil CalledProcessException) (error_strings p))
       else Inr (values_of os))"
proof -
  have "processes.loop_inv (concurrency k n) can n call_string RunParallelProcesses_start"
    unfolding RunParallelProcesses_start_def
    by (rule processes.loop_inv_first [OF process_inv_first]) (simp add: new_process_manager_def)
  with assms(1) have "processes.loop_inv (concurrency k n) can n call_string p"
    unfolding process_run_def by (rule processes.loop_inv_run)
  from processes.result_of_run [OF this assms(2)] show ?thesis
    unfolding raising_iff values_of_def parallel_error_def .
qed

text \<open>C10: RunParallelThreads ends: if every call ends, then under every schedule there are at most four
  steps for each call, never more calls in progress than allowed, and as long as the loop has not
  ended some thread or the loop itself can go on.\<close>

theorem RunParallelThreads_ends:
  fixes p :: "'r thread_manager parallel"
  assumes "0 < k" and "\<forall>t. \<exists>r. can t r"
    and "(thread_run n (concurrency k n) call_string can ^^ i) (RunParallelThreads_start k n) p"
  shows "i \<le> 4 * n \<and> active_task_count p \<le> k
    \<and> (looping n p \<longrightarrow> (\<exists>p'. thread_run n (concurrency k n) call_string can p p'))"
proof -
  let ?k = "concurrency k n"
  have start: "threads.loop_inv ?k can n call_string (RunParallelThreads_start k n)"
    by (rule thread_run_inv) (simp add: RunParallelThreads_start_def)
  have "threads.left_over ?k n (RunParallelThreads_start k n :: 'r thread_manager parallel) = 4 * n"
    by (simp add: threads.left_over_def RunParallelThreads_start_def first_state_def
        thread_weight_def thread_load_def new_thread_manager_def)
  with threads.run_bound [OF assms(3) [unfolded thread_run_def] start]
  have inv: "threads.loop_inv ?k can n call_string p" and left: "threads.left_over ?k n p + i \<le> 4 * n"
    by simp_all
  then have "i \<le> 4 * n" using le_trans [OF le_add2 left] by simp
  moreover have "active_task_count p \<le> k"
    using inv by (simp add: threads.loop_inv_def concurrency_def)
  moreover have "\<exists>p'. thread_run n ?k call_string can p p'" if "looping n p"
  proof (cases n)
    case 0
    have "pending = {}" if "pending \<subseteq> {..<length ks}" "length ks \<le> 0" for pending and ks :: "'r bg_task list"
      using that by auto
    with inv 0 threads.pending_tasks [of ?k can "manager p"] have "active_task_count p = 0"
      by (simp add: threads.loop_inv_def)
    with that 0 show ?thesis by (simp add: looping_def)
  next
    case (Suc m)
    then have "0 < ?k" using assms(1) by (simp add: concurrency_def)
    from threads.not_stuck [OF inv that assms(2) this] show ?thesis unfolding thread_run_def .
  qed
  ultimately show ?thesis by simp
qed

theorem RunParallelThreads_ends_witness:
  "\<exists>p'. thread_run 2 (concurrency 3 2) no_name seven (RunParallelThreads_start 3 2) p'"
proof -
  have all: "\<forall>t. \<exists>r. seven t r" by (simp add: seven_def)
  let ?p = "RunParallelThreads_start 3 2 :: nat thread_manager parallel"
  have start: "(thread_run 2 (concurrency 3 2) no_name seven ^^ 0) ?p ?p" by simp
  have "looping 2 ?p" by (simp add: looping_def RunParallelThreads_start_def first_state_def)
  with RunParallelThreads_ends [OF zero_less_numeral all start] show ?thesis by blast
qed

theorem RunParallelProcesses_result_witness:
  "\<exists>p. (process_run 1 (concurrency 3 1) no_name seven)\<^sup>*\<^sup>* RunParallelProcesses_start p
     \<and> parallel_result (VmUtil CalledProcessException) process_tasks p = Inr [Some 7]"
proof -
  let ?run = "process_run 1 (concurrency 3 1) no_name seven"
  let ?m0 = "new_process_manager :: nat process_manager"
  let ?m1 = "?m0\<lparr>process_tasks := [new_task], active_futures := {0}\<rparr>"
  let ?m2 = "?m1\<lparr>completed := (completed ?m1)(0 := Some (Run_task (Returns 7) new_task))\<rparr>"
  let ?m3 = "?m2\<lparr>active_futures := active_futures ?m2 - {0},
    process_tasks := (process_tasks ?m2)[0 := Run_task (Returns 7) new_task]\<rparr>"
  let ?p0 = "RunParallelProcesses_start :: nat process_manager parallel"
  let ?p1 = "started ?m1 ?p0"
  let ?p2 = "?p1\<lparr>manager := ?m2\<rparr>"
  let ?p3 = "awaited no_name 0 (process_tasks ?m3 ! 0) ?m3 ?p2"
  note start = RunParallelProcesses_start_def first_state_def concurrency_def new_process_manager_def
  have s1: "?run ?p0 ?p1"
    unfolding process_run_def
    by (rule parallel_step.start_step) (simp_all add: start may_start_def process_start_def)
  have "process_step seven ?m1 ?m2"
    by (rule process_step.intros) (simp_all add: start seven_def)
  then have s2: "?run ?p1 ?p2"
    unfolding process_run_def by (intro parallel_step.child_step) (simp add: started_def)
  have "process_await ?m2 0 ?m3" by (rule process_await.intros) (simp_all add: start)
  then have s3: "?run ?p2 ?p3"
    unfolding process_run_def
    by (intro parallel_step.await_step) (simp_all add: may_start_def looping_def started_def start)
  have run: "?run\<^sup>*\<^sup>* ?p0 ?p3"
    by (rule three_steps [where R = ?run, OF s1 s2 s3])
  have ended: "\<not> looping 1 ?p3" by (simp add: looping_def awaited_def started_def start)
  from RunParallelProcesses_result [OF run ended] obtain os where os: "length os = 1" "seven 0 (os ! 0)"
    "parallel_result (VmUtil CalledProcessException) process_tasks ?p3 =
      (if raising os then Inl (parallel_error (VmUtil CalledProcessException) (error_strings ?p3))
       else Inr (values_of os))" by auto
  from os(1,2) have "os = [Returns 7]" by (cases os) (simp_all add: seven_def)
  with os(3) have "parallel_result (VmUtil CalledProcessException) process_tasks ?p3 = Inr [Some 7]"
    by (simp add: raising_def values_of_def)
  with run show ?thesis by blast
qed

section \<open>Threads that die\<close>

text \<open>
  \<open>_BackgroundTask.Run\<close> catches what is derived from Exception.  A call that ends with anything else,
  a SystemExit for example, ends its thread: nothing is put into the response queue.
\<close>

inductive thread_dies :: "'r thread_manager \<Rightarrow> 'r thread_manager \<Rightarrow> bool" where
  "executing s w = Some t \<Longrightarrow> thread_dies s (s\<lparr>executing := (executing s)(w := None)\<rparr>)"

inductive_cases thread_diesE: "thread_dies s s'"

definition mortal_run ::
  "nat \<Rightarrow> nat \<Rightarrow> (nat \<Rightarrow> string) \<Rightarrow> (nat \<Rightarrow> 'r outcome \<Rightarrow> bool)
     \<Rightarrow> 'r thread_manager parallel \<Rightarrow> 'r thread_manager parallel \<Rightarrow> bool" where
  "mortal_run n k call_string can =
     parallel_step n k call_string thread_tasks thread_start
       (\<lambda>s s'. thread_step can s s' \<or> thread_dies s s') thread_await"

text \<open>The tasks that threads hold, and that they have reported.\<close>

definition task_count :: "'r thread_manager \<Rightarrow> nat \<Rightarrow> nat" where
  "task_count s w = length (task_queues s w) + (case executing s w of None \<Rightarrow> 0 | Some _ \<Rightarrow> 1)"

definition held_tasks :: "nat \<Rightarrow> 'r thread_manager \<Rightarrow> nat" where
  "held_tasks k s = (\<Sum>w<k. task_count s w) + length (response_queue s)"

definition only_workers :: "nat \<Rightarrow> 'r thread_manager \<Rightarrow> bool" where
  "only_workers k s = (set (available_worker_ids s) \<subseteq> {..<k} \<and> fst ` set (response_queue s) \<subseteq> {..<k}
     \<and> (\<forall>w. 0 < task_count s w \<longrightarrow> w < k))"

text \<open>At least \<open>d\<close> of the active tasks are held by nobody.\<close>

definition lost_tasks :: "nat \<Rightarrow> nat \<Rightarrow> 'r thread_manager parallel \<Rightarrow> bool" where
  "lost_tasks k d p = (only_workers k (manager p) \<and> held_tasks k (manager p) + d \<le> active_task_count p)"

lemma held_tasks_change:
  assumes "w < k" and "\<And>v. v \<noteq> w \<Longrightarrow> task_count s' v = task_count s v"
  shows "held_tasks k s' + task_count s w + length (response_queue s)
    = held_tasks k s + task_count s' w + length (response_queue s')"
  using sum_change [of w k "task_count s'" "task_count s"] assms by (simp add: held_tasks_def)

lemma only_workers_change:
  assumes "only_workers k s" and "w < k" and "\<And>v. v \<noteq> w \<Longrightarrow> task_count s' v = task_count s v"
    and "set (available_worker_ids s') \<subseteq> {..<k}" and "fst ` set (response_queue s') \<subseteq> {..<k}"
  shows "only_workers k s'"
  using assms unfolding only_workers_def by metis

lemma lost_tasks_start:
  assumes "lost_tasks k d p" and "thread_start (manager p) = Some s"
  shows "lost_tasks k d (started s p)"
proof -
  let ?s = "manager p" and ?w = "last (available_worker_ids (manager p))"
  have ne: "available_worker_ids ?s \<noteq> []"
    and s: "s = ?s\<lparr>thread_tasks := thread_tasks ?s @ [new_task],
      available_worker_ids := butlast (available_worker_ids ?s),
      task_queues := (task_queues ?s)(?w := task_queues ?s ?w @ [length (thread_tasks ?s)])\<rparr>"
    using assms(2) by (auto simp: thread_start_def Let_def split: if_splits)
  have old: "only_workers k ?s" using assms(1) by (simp add: lost_tasks_def)
  then have w: "?w < k" using last_in_set [OF ne] by (auto simp: only_workers_def)
  have others: "task_count s v = task_count ?s v" if "v \<noteq> ?w" for v
    using that by (simp add: s task_count_def)
  have "task_count s ?w = Suc (task_count ?s ?w)" by (simp add: s task_count_def)
  then have "held_tasks k s = Suc (held_tasks k ?s)"
    using held_tasks_change [of ?w k s ?s, OF w others] by (simp add: s)
  moreover have "only_workers k s"
    by (rule only_workers_change [of k ?s ?w, OF old w others])
       (use old in \<open>auto simp: s only_workers_def dest: in_set_butlastD\<close>)
  ultimately show ?thesis using assms(1) by (simp add: lost_tasks_def started_def)
qed

lemma lost_tasks_await:
  assumes "lost_tasks k d p" and "thread_await (manager p) t s"
  shows "lost_tasks k d (awaited call_string t (thread_tasks s ! t) s p)"
proof -
  let ?s = "manager p"
  obtain w rs where rs: "response_queue ?s = (w, t) # rs"
    and s: "s = ?s\<lparr>response_queue := rs, available_worker_ids := available_worker_ids ?s @ [w]\<rparr>"
    using assms(2) by (blast elim: thread_awaitE)
  have count: "task_count s v = task_count ?s v" for v by (simp add: s task_count_def)
  then have "Suc (held_tasks k s) = held_tasks k ?s" by (simp add: held_tasks_def rs s)
  moreover have "only_workers k s"
    using assms(1) rs count by (auto simp: lost_tasks_def only_workers_def s)
  ultimately show ?thesis using assms(1) by (auto simp: lost_tasks_def awaited_def)
qed

lemma lost_tasks_thread:
  assumes "lost_tasks k d p" and "thread_step can (manager p) s"
  shows "lost_tasks k d (p\<lparr>manager := s\<rparr>)"
  using assms(2)
proof (rule thread_stepE)
  let ?s = "manager p"
  fix w t ts
  assume s: "s = ?s\<lparr>task_queues := (task_queues ?s)(w := ts), executing := (executing ?s)(w := Some t)\<rparr>"
    and w: "task_queues ?s w = t # ts" "executing ?s w = None"
  have old: "only_workers k ?s" using assms(1) by (simp add: lost_tasks_def)
  then have k: "w < k" using w by (simp add: only_workers_def task_count_def)
  have others: "task_count s v = task_count ?s v" if "v \<noteq> w" for v
    using that by (simp add: s task_count_def)
  have "task_count s w = task_count ?s w" using w by (simp add: s task_count_def)
  then have "held_tasks k s = held_tasks k ?s"
    using held_tasks_change [of w k s ?s, OF k others] by (simp add: s)
  moreover have "only_workers k s"
    by (rule only_workers_change [of k ?s w, OF old k others])
       (use old in \<open>simp_all add: s only_workers_def\<close>)
  ultimately show ?thesis using assms(1) by (simp add: lost_tasks_def)
next
  let ?s = "manager p"
  fix w t r
  assume s: "s = ?s\<lparr>executing := (executing ?s)(w := None),
       thread_tasks := (thread_tasks ?s)[t := Run_task r (thread_tasks ?s ! t)],
       response_queue := response_queue ?s @ [(w, t)]\<rparr>"
    and w: "executing ?s w = Some t" "can t r"
  have old: "only_workers k ?s" using assms(1) by (simp add: lost_tasks_def)
  then have k: "w < k" using w by (simp add: only_workers_def task_count_def)
  have others: "task_count s v = task_count ?s v" if "v \<noteq> w" for v
    using that by (simp add: s task_count_def)
  have "Suc (task_count s w) = task_count ?s w" using w by (simp add: s task_count_def)
  then have "held_tasks k s = held_tasks k ?s"
    using held_tasks_change [of w k s ?s, OF k others] by (simp add: s)
  moreover have "only_workers k s"
    by (rule only_workers_change [of k ?s w, OF old k others])
       (use old k in \<open>simp_all add: s only_workers_def\<close>)
  ultimately show ?thesis using assms(1) by (simp add: lost_tasks_def)
qed

lemma lost_tasks_death:
  assumes "lost_tasks k d p" and "thread_dies (manager p) s"
  shows "lost_tasks k (Suc d) (p\<lparr>manager := s\<rparr>)"
  using assms(2)
proof (rule thread_diesE)
  let ?s = "manager p"
  fix w t
  assume s: "s = ?s\<lparr>executing := (executing ?s)(w := None)\<rparr>" and w: "executing ?s w = Some t"
  have old: "only_workers k ?s" using assms(1) by (simp add: lost_tasks_def)
  then have k: "w < k" using w by (simp add: only_workers_def task_count_def)
  have others: "task_count s v = task_count ?s v" if "v \<noteq> w" for v
    using that by (simp add: s task_count_def)
  have "Suc (task_count s w) = task_count ?s w" using w by (simp add: s task_count_def)
  then have "Suc (held_tasks k s) = held_tasks k ?s"
    using held_tasks_change [of w k s ?s, OF k others] by (simp add: s)
  moreover have "only_workers k s"
    by (rule only_workers_change [of k ?s w, OF old k others])
       (use old in \<open>simp_all add: s only_workers_def\<close>)
  ultimately show ?thesis using assms(1) by (simp add: lost_tasks_def)
qed

lemma lost_tasks_mono: "lost_tasks k d p \<Longrightarrow> d' \<le> d \<Longrightarrow> lost_tasks k d' p"
  by (simp add: lost_tasks_def)

lemma lost_tasks_step: "mortal_run n k call_string can p p' \<Longrightarrow> lost_tasks k d p \<Longrightarrow> lost_tasks k d p'"
  unfolding mortal_run_def
proof (induction rule: parallel_step.induct)
  case (child_step p s)
  then show ?case
    using lost_tasks_thread [of k d p] lost_tasks_death [of k d p] lost_tasks_mono le_SucI by blast
qed (use lost_tasks_start lost_tasks_await in blast)+

lemma lost_tasks_run:
  "(mortal_run n k call_string can)\<^sup>*\<^sup>* p p' \<Longrightarrow> lost_tasks k d p \<Longrightarrow> lost_tasks k d p'"
  by (induction rule: rtranclp_induct) (auto intro: lost_tasks_step)

text \<open>C27: A call that ends its thread hangs the program: once a thread has died with a task, the loop
  never ends, whatever the other threads do, although the call is over.\<close>

theorem dead_thread_hangs:
  assumes "(mortal_run n (concurrency k n) call_string can)\<^sup>*\<^sup>* (RunParallelThreads_start k n) p"
    and "thread_dies (manager p) s"
    and "(mortal_run n (concurrency k n) call_string can)\<^sup>*\<^sup>* (p\<lparr>manager := s\<rparr>) p'"
  shows "looping n p'"
proof -
  let ?k = "concurrency k n"
  have "lost_tasks ?k 0 (RunParallelThreads_start k n)"
    by (auto simp: lost_tasks_def only_workers_def held_tasks_def task_count_def
        RunParallelThreads_start_def first_state_def new_thread_manager_def)
  then have "lost_tasks ?k 0 p" by (rule lost_tasks_run [OF assms(1)])
  from lost_tasks_run [OF assms(3) lost_tasks_death [OF this assms(2)]]
  show ?thesis by (simp add: lost_tasks_def looping_def)
qed

theorem dead_thread_hangs_witness:
  "\<exists>p s. (mortal_run 1 (concurrency 3 1) no_name seven)\<^sup>*\<^sup>* (RunParallelThreads_start 3 1) p
     \<and> thread_dies (manager p) s \<and> looping 1 (p\<lparr>manager := s\<rparr>)"
proof -
  let ?run = "mortal_run 1 (concurrency 3 1) no_name seven"
  let ?m0 = "new_thread_manager 1 :: nat thread_manager"
  let ?m1 = "?m0\<lparr>thread_tasks := [new_task], available_worker_ids := [], task_queues := (\<lambda>_. [])(0 := [0])\<rparr>"
  let ?m2 = "?m1\<lparr>task_queues := (task_queues ?m1)(0 := []), executing := (executing ?m1)(0 := Some 0)\<rparr>"
  let ?m3 = "?m2\<lparr>executing := (executing ?m2)(0 := None)\<rparr>"
  let ?p0 = "RunParallelThreads_start 3 1 :: nat thread_manager parallel"
  let ?p1 = "started ?m1 ?p0"
  let ?p2 = "?p1\<lparr>manager := ?m2\<rparr>"
  note start = RunParallelThreads_start_def first_state_def concurrency_def new_thread_manager_def
  have "?run ?p0 ?p1"
    unfolding mortal_run_def
    by (rule parallel_step.start_step)
       (simp_all add: start may_start_def thread_start_def upt_rec fun_upd_def)
  moreover have "thread_step seven ?m1 ?m2" by (rule thread_step.take_task) (simp_all add: start)
  then have "?run ?p1 ?p2"
    unfolding mortal_run_def by (intro parallel_step.child_step) (simp add: started_def)
  ultimately have run: "?run\<^sup>*\<^sup>* ?p0 ?p2"
    by (rule converse_rtranclp_into_rtranclp [OF _ r_into_rtranclp])
  have "thread_dies ?m2 ?m3" by (rule thread_dies.intros [where t = 0]) simp
  then have dies: "thread_dies (manager ?p2) ?m3" by simp
  have "looping 1 (?p2\<lparr>manager := ?m3\<rparr>)"
    by (rule dead_thread_hangs [OF run dies rtranclp.rtrancl_refl])
  with run dies show ?thesis by blast
qed

section \<open>Calls of the parallel functions\<close>

text \<open>
  Python values as \<open>RunThreaded\<close> distinguishes them.  Only the first parameter is inspected; the
  unpacking \<open>args, kwargs = param\<close> of the others is done by Python (\<open>unpack\<close>).
\<close>

datatype 'v pyarg = Obj 'v | Tuple "'v pyarg list" | Dict "(string \<times> 'v pyarg) list"

definition value_error :: "string \<Rightarrow> exn" where
  "value_error msg = exn (Builtin ValueError) msg"

fun unpack :: "'v pyarg \<Rightarrow> exn + 'v pyarg \<times> 'v pyarg" where
  "unpack (Tuple [a, b]) = Inr (a, b)"
| "unpack (Tuple vs) = Inl (value_error (if length vs < 2 then ''not enough values to unpack''
     else ''too many values to unpack''))"
| "unpack _ = Inl (exn (Builtin TypeError) ''cannot unpack'')"

fun unpack_all :: "'v pyarg list \<Rightarrow> exn + ('v pyarg \<times> 'v pyarg) list" where
  "unpack_all [] = Inr []"
| "unpack_all (p # ps) = (case unpack p of Inl e \<Rightarrow> Inl e
     | Inr a \<Rightarrow> (case unpack_all ps of Inl e \<Rightarrow> Inl e | Inr as \<Rightarrow> Inr (a # as)))"

text \<open>The calls that \<open>RunThreaded\<close> makes: their arguments and keyword arguments.\<close>

definition thread_calls :: "'v pyarg list \<Rightarrow> exn + ('v pyarg \<times> 'v pyarg) list" where
  "thread_calls thread_params = (case thread_params of
     [] \<Rightarrow> Inr []
   | p # ps \<Rightarrow> (case p of
       Tuple vs \<Rightarrow> (case vs of
           [] \<Rightarrow> Inl (exn (Builtin IndexError) ''tuple index out of range'')
         | Tuple as # rest \<Rightarrow> (case rest of
               [] \<Rightarrow> Inl (exn (Builtin IndexError) ''tuple index out of range'')
             | Dict kws # _ \<Rightarrow> unpack_all thread_params
             | _ # _ \<Rightarrow> Inl (value_error ''If Param is a tuple, the tuple must be (tuple, dict)''))
         | _ # _ \<Rightarrow> Inl (value_error ''If Param is a tuple, the tuple must be (tuple, dict)''))
     | _ \<Rightarrow> Inr (map (\<lambda>a. (Tuple [a], Dict [])) thread_params)))"

definition MAX_CONCURRENT_THREADS :: int where
  "MAX_CONCURRENT_THREADS = 200"

text \<open>\<open>FLAGS.max_concurrent_threads or MAX_CONCURRENT_THREADS\<close>\<close>

definition max_threads :: "int option \<Rightarrow> int option \<Rightarrow> int" where
  "max_threads argument flag = (case argument of Some n \<Rightarrow> n
     | None \<Rightarrow> (case flag of None \<Rightarrow> MAX_CONCURRENT_THREADS
         | Some n \<Rightarrow> if n = 0 then MAX_CONCURRENT_THREADS else n))"

text \<open>
  \<open>RunThreaded\<close> up to the call of \<open>RunParallelThreads\<close>: \<open>None\<close> returns [] without a call, otherwise
  the calls and the maximal concurrency.  \<open>None\<close> for the parameters is a value that is no list.
\<close>

definition RunThreaded ::
  "'v pyarg list option \<Rightarrow> int option \<Rightarrow> int option
     \<Rightarrow> exn + (('v pyarg \<times> 'v pyarg) list \<times> int) option" where
  "RunThreaded thread_params argument flag = (case thread_params of
     None \<Rightarrow> Inl (value_error ''Param \"thread_params\" must be a list'')
   | Some ps \<Rightarrow> if ps = [] then Inr None
       else (case thread_calls ps of Inl e \<Rightarrow> Inl e
         | Inr calls \<Rightarrow> Inr (Some (calls, max_threads argument flag))))"

text \<open>\<open>RunOnAllVms\<close>: every VM once.\<close>

fun unique_vms :: "'v list \<Rightarrow> 'v list \<Rightarrow> 'v list" where
  "unique_vms seen [] = seen"
| "unique_vms seen (vm # vms) = unique_vms (if vm \<in> set seen then seen else seen @ [vm]) vms"

definition RunOnAllVms ::
  "'v list \<Rightarrow> int option \<Rightarrow> exn + (('v pyarg \<times> 'v pyarg) list \<times> int) option" where
  "RunOnAllVms vms flag = RunThreaded (Some (map Obj (unique_vms [] vms))) None flag"

lemma unique_vms_props: "distinct seen \<Longrightarrow> distinct (unique_vms seen vms)
    \<and> set (unique_vms seen vms) = set seen \<union> set vms"
  by (induction seen vms rule: unique_vms.induct) auto

text \<open>RunOnAllVms calls the target exactly once on every VM of the list, with the VM as its only
  argument, however often the VM is in the list; without VMs it makes no call.\<close>

lemma RunOnAllVms_once:
  "RunOnAllVms vms flag = (if vms = [] then Inr None
     else Inr (Some (map (\<lambda>v. (Tuple [Obj v], Dict [])) (unique_vms [] vms), max_threads None flag)))
   \<and> distinct (unique_vms [] vms) \<and> set (unique_vms [] vms) = set vms"
proof -
  have props: "distinct (unique_vms [] vms)" "set (unique_vms [] vms) = set vms"
    using unique_vms_props [of "[]" vms] by simp_all
  have "RunOnAllVms vms flag = (if vms = [] then Inr None
     else Inr (Some (map (\<lambda>v. (Tuple [Obj v], Dict [])) (unique_vms [] vms), max_threads None flag)))"
  proof (cases "unique_vms [] vms")
    case Nil
    with props(2) have "vms = []" by simp
    then show ?thesis by (simp add: RunOnAllVms_def RunThreaded_def)
  next
    case (Cons v vs)
    with props(2) have "vms \<noteq> []" by auto
    with Cons show ?thesis
      by (simp add: RunOnAllVms_def RunThreaded_def thread_calls_def comp_def)
  qed
  with props show ?thesis by simp
qed

end
