(* ===== verification/Waiting.thy ===== *)
theory Waiting
  imports Retry
begin

text \<open>
  The waiting primitives of \<open>perfkitbenchmarker/background_tasks.py\<close>: the polling
  \<open>_WaitForCondition\<close>, and the queue whose reader waits for a lock,
  \<open>_NonPollingSingleReaderQueue\<close>.
\<close>

section \<open>Polling\<close>

definition WAIT_MIN_RECHECK_DELAY :: rat where
  "WAIT_MIN_RECHECK_DELAY = 1 / 1000"

definition WAIT_MAX_RECHECK_DELAY :: rat where
  "WAIT_MAX_RECHECK_DELAY = 1 / 20"

text \<open>One pass of the loop: the result (\<open>Inl\<close>), or the next delay.\<close>

definition wait_pass ::
  "(exn, 'w mach, bool) py \<Rightarrow> rat option \<Rightarrow> rat \<Rightarrow> (exn, 'w mach, bool + rat) py" where
  "wait_pass condition deadline delay =
     bindM condition (\<lambda>b.
       if b then ret (Inl True)
       else bindM (case deadline of None \<Rightarrow> ret WAIT_MAX_RECHECK_DELAY
                   | Some d \<Rightarrow> bindM time_time (\<lambda>t. ret (d - t))) (\<lambda>remaining_time.
         if remaining_time \<le> 0 then ret (Inl False)
         else thenM (time_sleep delay)
           (ret (Inr (min (delay * 2) (min remaining_time WAIT_MAX_RECHECK_DELAY))))))"

partial_function (option) wait_loop ::
  "(exn, 'w mach, bool) py \<Rightarrow> rat option \<Rightarrow> rat \<Rightarrow> 'w mach \<Rightarrow> ((exn + bool) \<times> 'w mach) option" where
  "wait_loop condition deadline delay m =
     (case wait_pass condition deadline delay m of
        None \<Rightarrow> None
      | Some rm \<Rightarrow> (case fst rm of
          Inl e \<Rightarrow> Some (Inl e, snd rm)
        | Inr r \<Rightarrow> (case r of
            Inl b \<Rightarrow> Some (Inr b, snd rm)
          | Inr d \<Rightarrow> wait_loop condition deadline d (snd rm))))"

definition WaitForCondition ::
  "(exn, 'w mach, bool) py \<Rightarrow> rat option \<Rightarrow> (exn, 'w mach, bool) py" where
  "WaitForCondition condition limit =
     bindM (case limit of None \<Rightarrow> ret None | Some d \<Rightarrow> bindM time_time (\<lambda>t. ret (Some (t + d))))
       (\<lambda>deadline. wait_loop condition deadline WAIT_MIN_RECHECK_DELAY)"

text \<open>A condition that can be asked at any time.\<close>

definition answers :: "(exn, 'w mach, bool) py \<Rightarrow> bool" where
  "answers condition = (\<forall>m. sane m \<longrightarrow>
     (\<exists>b m'. condition m = Some (Inr b, m') \<and> sane m' \<and> now m \<le> now m'))"

lemma answersD:
  assumes "answers condition" and "sane m"
  obtains b m' where "condition m = Some (Inr b, m')" "sane m'" "now m \<le> now m'"
  using assms unfolding answers_def by blast

text \<open>A pass that does not end the loop takes at least the delay, and the next delay is no shorter
  unless the deadline has passed.\<close>

lemma wait_pass_cases:
  assumes "answers condition" and "sane m" and "0 < delay"
  obtains (true) m' where "wait_pass condition (Some deadline) delay m = Some (Inr (Inl True), m')"
    | (late) m' where "wait_pass condition (Some deadline) delay m = Some (Inr (Inl False), m')"
        "deadline \<le> now m'"
    | (again) d m' where "wait_pass condition (Some deadline) delay m = Some (Inr (Inr d), m')"
        "sane m'" "now m < deadline" "now m + delay \<le> now m'" "0 < d"
        "deadline \<le> now m' \<or> min delay WAIT_MAX_RECHECK_DELAY \<le> d"
proof -
  obtain b m1 where m1: "condition m = Some (Inr b, m1)" "sane m1" "now m \<le> now m1"
    using answersD [OF assms(1,2)] .
  show thesis
  proof (cases b)
    case True
    with m1 show thesis by (intro true) (simp add: wait_pass_def py_defs)
  next
    case False
    let ?t = "now m1 + lags m1 0"
    let ?m2 = "m1\<lparr>now := ?t, lags := (\<lambda>i. lags m1 (Suc i))\<rparr>"
    have t: "now m1 \<le> ?t" and sane: "sane ?m2" using m1(2) by (simp_all add: sane_def)
    show thesis
    proof (cases "deadline \<le> ?t")
      case True
      with m1 False show thesis
        by (intro late [where m' = ?m2]) (simp_all add: wait_pass_def py_defs time_time_def Let_def)
    next
      case early: False
      let ?d = "min (delay * 2) (min (deadline - ?t) WAIT_MAX_RECHECK_DELAY)"
      have pass: "wait_pass condition (Some deadline) delay m
          = Some (Inr (Inr ?d), ?m2\<lparr>now := ?t + delay\<rparr>)"
        using m1 False early assms(3) by (simp add: wait_pass_def py_defs mach_ops)
      show thesis
      proof (rule again [OF pass])
        show "sane (?m2\<lparr>now := ?t + delay\<rparr>)" using sane by (simp add: sane_def)
        show "deadline \<le> now (?m2\<lparr>now := ?t + delay\<rparr>) \<or> min delay WAIT_MAX_RECHECK_DELAY \<le> ?d"
          using assms(3) by (simp add: min_def) linarith
      qed (use early t m1(3) assms(3) in \<open>simp_all add: WAIT_MAX_RECHECK_DELAY_def\<close>)
    qed
  qed
qed

lemma wait_loop_ends:
  assumes "answers condition"
  shows "\<lbrakk>sane m; 0 < delay; deadline \<le> now m \<or> WAIT_MIN_RECHECK_DELAY \<le> delay\<rbrakk> \<Longrightarrow>
    \<exists>b m'. wait_loop condition (Some deadline) delay m = Some (Inr b, m') \<and> (b \<or> deadline \<le> now m')"
proof (induction "nat \<lceil>1000 * (deadline - now m)\<rceil>" arbitrary: m delay rule: less_induct)
  case less
  from assms less.prems(1,2) show ?case
  proof (cases rule: wait_pass_cases [where deadline = deadline])
    case (again d m')
    have "WAIT_MIN_RECHECK_DELAY \<le> delay" using less.prems(3) again(3) by simp
    then have "1 / 1000 \<le> delay" by (simp add: WAIT_MIN_RECHECK_DELAY_def)
    then have "1000 * (deadline - now m') \<le> 1000 * (deadline - now m) - 1" using again(4) by simp
    then have "\<lceil>1000 * (deadline - now m')\<rceil> \<le> \<lceil>1000 * (deadline - now m) - 1\<rceil>" by (rule ceiling_mono)
    moreover have "0 < \<lceil>1000 * (deadline - now m)\<rceil>" using again(3) by simp
    ultimately have "nat \<lceil>1000 * (deadline - now m')\<rceil> < nat \<lceil>1000 * (deadline - now m)\<rceil>" by simp
    moreover have "deadline \<le> now m' \<or> WAIT_MIN_RECHECK_DELAY \<le> d"
      using again(6) \<open>WAIT_MIN_RECHECK_DELAY \<le> delay\<close>
      by (auto simp: min_def WAIT_MAX_RECHECK_DELAY_def WAIT_MIN_RECHECK_DELAY_def split: if_splits)
    ultimately show ?thesis
      using less.hyps [of m' d] again(1,2,5) by (subst wait_loop.simps) simp
  qed (fastforce simp: wait_loop.simps)+
qed

text \<open>Polling ends: with a timeout, _WaitForCondition returns even if the condition never becomes
  true, although the delays are cut to the remaining time; and it returns False only after the
  deadline.  Asking the condition is assumed to return.\<close>

lemma WaitForCondition_ends:
  assumes "answers condition" and "sane m"
  shows "\<exists>b m'. WaitForCondition condition (Some limit) m = Some (Inr b, m')
    \<and> (b \<or> now m + limit \<le> now m')"
proof -
  let ?t = "now m + lags m 0"
  let ?m = "m\<lparr>now := ?t, lags := (\<lambda>i. lags m (Suc i))\<rparr>"
  have sane: "sane ?m" "0 \<le> lags m 0" using assms(2) by (simp_all add: sane_def)
  have "\<exists>b m'. wait_loop condition (Some (?t + limit)) WAIT_MIN_RECHECK_DELAY ?m = Some (Inr b, m')
      \<and> (b \<or> ?t + limit \<le> now m')"
    by (rule wait_loop_ends [OF assms(1) sane(1)]) (simp_all add: WAIT_MIN_RECHECK_DELAY_def)
  with sane(2) show ?thesis
    by (force simp: WaitForCondition_def py_defs time_time_def Let_def)
qed

theorem WaitForCondition_ends_witness:
  "\<exists>b m'. WaitForCondition (ret False) (Some 1) \<lparr>now = 0, lags = (\<lambda>_. 0), draws = (\<lambda>_. 0), world = ()\<rparr>
     = Some (Inr b, m') \<and> (b = True \<or> 1 \<le> now m')"
proof -
  let ?m = "\<lparr>now = 0, lags = (\<lambda>_. 0), draws = (\<lambda>_. 0), world = ()\<rparr> :: unit mach"
  have "answers (ret False :: (exn, unit mach, bool) py)" by (auto simp: answers_def ret_def)
  moreover have "sane ?m" by (simp add: sane_def)
  ultimately show ?thesis using WaitForCondition_ends [of "ret False" ?m 1] by simp
qed

section \<open>A queue that does not poll\<close>

text \<open>
  \<open>_NonPollingSingleReaderQueue\<close>: any number of writers and one reader.  The steps are the atomic
  ones of Python: \<open>append\<close>, \<open>popleft\<close>, \<open>acquire\<close> and \<open>release\<close>.  \<open>signals\<close> are the writers between
  \<open>append\<close> and \<open>release\<close>; a release of a free lock raises a ThreadError, which is caught.  \<open>written\<close>
  and \<open>got\<close> record the items that were put and returned; the program has no such variables.
\<close>

datatype 'a reader = Waits | Looks | Has 'a

record 'a locked_queue =
  deque :: "'a list"
  lock_free :: bool
  signals :: nat
  reader :: "'a reader"
  written :: "'a list"
  got :: "'a list"

definition empty_queue :: "'a locked_queue" where
  "empty_queue = \<lparr>deque = [], lock_free = False, signals = 0, reader = Waits, written = [], got = []\<rparr>"

inductive queue_step :: "'a locked_queue \<Rightarrow> 'a locked_queue \<Rightarrow> bool" where
  put_append: "queue_step q (q\<lparr>deque := deque q @ [x], signals := Suc (signals q), written := written q @ [x]\<rparr>)"
| put_release: "signals q = Suc n \<Longrightarrow> queue_step q (q\<lparr>lock_free := True, signals := n\<rparr>)"
| get_acquire: "reader q = Waits \<Longrightarrow> lock_free q \<Longrightarrow> queue_step q (q\<lparr>lock_free := False, reader := Looks\<rparr>)"
| get_nothing: "reader q = Looks \<Longrightarrow> deque q = [] \<Longrightarrow> queue_step q (q\<lparr>reader := Waits\<rparr>)"
| get_popleft: "reader q = Looks \<Longrightarrow> deque q = x # xs \<Longrightarrow> queue_step q (q\<lparr>deque := xs, reader := Has x\<rparr>)"
| get_return: "reader q = Has x \<Longrightarrow>
    queue_step q (q\<lparr>lock_free := (deque q \<noteq> [] \<or> lock_free q), reader := Waits, got := got q @ [x]\<rparr>)"

text \<open>What the reader has in its hands.\<close>

definition in_hand :: "'a locked_queue \<Rightarrow> 'a list" where
  "in_hand q = (case reader q of Has x \<Rightarrow> [x] | _ \<Rightarrow> [])"

definition queue_inv :: "'a locked_queue \<Rightarrow> bool" where
  "queue_inv q = (written q = got q @ in_hand q @ deque q
     \<and> (deque q \<noteq> [] \<longrightarrow> reader q = Waits \<longrightarrow> lock_free q \<or> 0 < signals q))"

lemma queue_inv_step: "queue_step q q' \<Longrightarrow> queue_inv q \<Longrightarrow> queue_inv q'"
  by (induction rule: queue_step.induct) (auto simp: queue_inv_def in_hand_def)

lemma queue_inv_run: "queue_step\<^sup>*\<^sup>* q q' \<Longrightarrow> queue_inv q \<Longrightarrow> queue_inv q'"
  by (induction rule: rtranclp_induct) (auto intro: queue_inv_step)

text \<open>The queue of the worker threads keeps the order and loses no item and no wake-up: what the
  reader got, has in its hands and finds in the queue is what was put, in this order; and a reader
  that waits although there is an item will be woken: the lock is free, or a writer is about to
  release it.\<close>

lemma locked_queue_fifo:
  assumes "queue_step\<^sup>*\<^sup>* empty_queue q"
  shows "written q = got q @ in_hand q @ deque q
    \<and> (deque q = [] \<or> reader q \<noteq> Waits \<or> lock_free q \<or> 0 < signals q)"
proof -
  have "queue_inv (empty_queue :: 'a locked_queue)"
    by (simp add: queue_inv_def empty_queue_def in_hand_def)
  from queue_inv_run [OF assms this] show ?thesis by (auto simp: queue_inv_def)
qed

theorem locked_queue_fifo_witness:
  "\<exists>q. queue_step\<^sup>*\<^sup>* (empty_queue :: nat locked_queue) q \<and> written q = [4] \<and> in_hand q @ deque q = [4]"
proof -
  let ?q = "(empty_queue :: nat locked_queue)\<lparr>deque := [4], signals := 1, written := [4]\<rparr>"
  have "queue_step empty_queue ?q"
    using queue_step.put_append [of empty_queue 4] by (simp add: empty_queue_def)
  then have run: "queue_step\<^sup>*\<^sup>* empty_queue ?q" by (rule r_into_rtranclp)
  from locked_queue_fifo [OF run] have "in_hand ?q @ deque ?q = [4]" by (simp add: empty_queue_def)
  with run show ?thesis by (intro exI [of _ ?q]) simp
qed

end
