(* ===== verification/FlagUtil.thy ===== *)
theory FlagUtil
  imports Conditions
begin

text \<open>
  \<open>perfkitbenchmarker/flag_util.py\<close>: integer lists as flag values, percentages and key-value
  pairs.

  The digits of a regular expression are the ASCII digits.  A warning about a list that does not
  increase is only logged and has no counterpart here.
\<close>

section \<open>Numbers as text\<close>

text \<open>\<open>str(n)\<close>\<close>

fun str_of_nat :: "nat \<Rightarrow> string" where
  "str_of_nat n = (if n < 10 then [char_of (48 + n)]
     else str_of_nat (n div 10) @ [char_of (48 + n mod 10)])"

declare str_of_nat.simps [simp del]

definition str_of_int :: "int \<Rightarrow> string" where
  "str_of_int i = (if i < 0 then CHR ''-'' # str_of_nat (nat (- i)) else str_of_nat (nat i))"

text \<open>\<open>int(s)\<close> for a sign and digits.\<close>

definition int_of :: "string \<Rightarrow> int" where
  "int_of s = (case s of [] \<Rightarrow> 0 | c # cs \<Rightarrow>
     if c = CHR ''-'' then - int (digits_value cs) else int (digits_value s))"

text \<open>\<open>s.split(c)\<close>\<close>

fun split_on :: "char \<Rightarrow> string \<Rightarrow> string list" where
  "split_on c [] = [[]]"
| "split_on c (x # xs) = (if x = c then [] # split_on c xs
     else (case split_on c xs of [] \<Rightarrow> [[x]] | y # ys \<Rightarrow> (x # y) # ys))"

section \<open>Integer lists\<close>

text \<open>A group is a number or a tuple of two or three numbers.\<close>

datatype int_group = Single int | Pair int int | Triple int int int

text \<open>\<open>len(range(a, b, s))\<close> and \<open>list(range(a, b, s))\<close> for a step that is not zero.\<close>

definition range_len :: "int \<Rightarrow> int \<Rightarrow> int \<Rightarrow> nat" where
  "range_len a b s = (if s > 0 then (if a < b then nat ((b - a - 1) div s + 1) else 0)
     else (if b < a then nat ((a - b - 1) div (- s) + 1) else 0))"

definition py_range :: "int \<Rightarrow> int \<Rightarrow> int \<Rightarrow> int list" where
  "py_range a b s = map (\<lambda>i. a + int i * s) [0..<range_len a b s]"

fun step_of :: "int_group \<Rightarrow> int" where
  "step_of (Triple a b s) = s"
| "step_of _ = 1"

fun start_of :: "int_group \<Rightarrow> int" where
  "start_of (Single a) = a"
| "start_of (Pair a b) = a"
| "start_of (Triple a b s) = a"

fun last_of :: "int_group \<Rightarrow> int" where
  "last_of (Single a) = a"
| "last_of (Pair a b) = b"
| "last_of (Triple a b s) = b"

definition zero_step :: exn where
  "zero_step = exn (Builtin ValueError) ''range() arg 3 must not be zero''"

text \<open>\<open>_CreateXrangeFromTuple\<close>, as the list of its elements\<close>

definition CreateXrangeFromTuple :: "int_group \<Rightarrow> exn + int list" where
  "CreateXrangeFromTuple g = (if step_of g = 0 then Inl zero_step
     else Inr (py_range (start_of g) (last_of g + (if step_of g > 0 then 1 else -1)) (step_of g)))"

definition group_items :: "int_group \<Rightarrow> int list" where
  "group_items g = (case g of Single a \<Rightarrow> [a]
     | _ \<Rightarrow> (case CreateXrangeFromTuple g of Inl e \<Rightarrow> [] | Inr xs \<Rightarrow> xs))"

record integer_list =
  groups :: "int_group list"
  list_length :: nat

text \<open>\<open>IntegerList.__init__\<close>\<close>

definition new_IntegerList :: "int_group list \<Rightarrow> exn + integer_list" where
  "new_IntegerList gs = (if list_ex (\<lambda>g. step_of g = 0) gs then Inl zero_step
     else Inr \<lparr>groups = gs, list_length = sum_list (map (length \<circ> group_items) gs)\<rparr>)"

text \<open>\<open>__iter__\<close>\<close>

definition items :: "integer_list \<Rightarrow> int list" where
  "items il = concat (map group_items (groups il))"

text \<open>The loop of \<open>__getitem__\<close>: the groups from \<open>group_idx\<close> on.\<close>

fun getitem_loop :: "int_group list \<Rightarrow> nat \<Rightarrow> exn + int" where
  "getitem_loop [] i = Inl (exn (Builtin IndexError) ''list index out of range'')"
| "getitem_loop (g # gs) i =
     (if i = 0 then Inr (start_of g)
      else (case g of
          Single a \<Rightarrow> getitem_loop gs (i - 1)
        | _ \<Rightarrow> if length (group_items g) \<le> i then getitem_loop gs (i - length (group_items g))
               else Inr (start_of g + int i * step_of g)))"

definition getitem :: "integer_list \<Rightarrow> int \<Rightarrow> exn + int" where
  "getitem il i = (if i < 0 \<or> int (list_length il) \<le> i then Inl (exn (Builtin IndexError) [])
     else getitem_loop (groups il) (nat i))"

text \<open>\<open>__eq__\<close>\<close>

definition IntegerList_eq :: "integer_list \<Rightarrow> integer_list option \<Rightarrow> bool" where
  "IntegerList_eq il other = (case other of None \<Rightarrow> False | Some il' \<Rightarrow> items il = items il')"

section \<open>Parsing and printing integer lists\<close>

text \<open>A number at the start of a text: its text, and the rest.\<close>

definition take_int :: "bool \<Rightarrow> string \<Rightarrow> (string \<times> string) option" where
  "take_int signed s =
     (let sign = (if signed \<and> s \<noteq> [] \<and> hd s = CHR ''-'' then [CHR ''-''] else []);
          t = drop (length sign) s
      in if takeWhile is_digit t = [] then None
         else Some (sign @ takeWhile is_digit t, dropWhile is_digit t))"

text \<open>An optional group of the expression: a separator and a number.\<close>

definition take_part :: "char \<Rightarrow> bool \<Rightarrow> string \<Rightarrow> string option \<times> string" where
  "take_part sep signed s = (case s of
     [] \<Rightarrow> (None, s)
   | c # cs \<Rightarrow> if c = sep then
        (case take_int signed cs of None \<Rightarrow> (None, s) | Some (t, r) \<Rightarrow> (Some t, r))
      else (None, s))"

text \<open>\<open>INTEGER_GROUP_REGEXP\<close> and \<open>INTEGER_GROUP_REGEXP_COLONS\<close>: the numbers that match.\<close>

definition match_group :: "char \<Rightarrow> bool \<Rightarrow> string \<Rightarrow> (string \<times> string option \<times> string option) option" where
  "match_group sep signed s = (case take_int signed s of
     None \<Rightarrow> None
   | Some (a, r) \<Rightarrow> (case take_part sep signed r of (b, r1) \<Rightarrow>
       (case take_part sep signed r1 of (c, r2) \<Rightarrow>
         if r2 = [] \<or> r2 = [CHR 0x0A] then Some (a, b, c) else None)))"

definition match_either :: "string \<Rightarrow> (string \<times> string option \<times> string option) option" where
  "match_either s = (case match_group CHR ''-'' False s of
     Some m \<Rightarrow> Some m | None \<Rightarrow> match_group CHR '':'' True s)"

datatype on_nonincreasing = Ignore | Warn | Fail

definition IsNonIncreasing :: "int_group list \<Rightarrow> int \<Rightarrow> bool" where
  "IsNonIncreasing gs v = (gs \<noteq> [] \<and> v \<le> last_of (last gs))"

text \<open>The group that a match stands for, and whether it is not increasing by itself.\<close>

definition group_of :: "string \<times> string option \<times> string option \<Rightarrow> int_group \<times> bool" where
  "group_of m = (case m of (a, b, c) \<Rightarrow> (case b of
     None \<Rightarrow> (Single (int_of a), False)
   | Some h \<Rightarrow>
       (let low = int_of a; high = int_of h; s = (case c of None \<Rightarrow> 1 | Some t \<Rightarrow> int_of t);
            s = (if s > 0 \<and> low > high then - s else s)
        in (Triple low high s, high \<le> low))))"

fun parse_groups ::
  "on_nonincreasing \<Rightarrow> string \<Rightarrow> int_group list \<Rightarrow> string list \<Rightarrow> exn + int_group list" where
  "parse_groups mode inp result [] = Inr result"
| "parse_groups mode inp result (s # ss) = (case match_either s of
     None \<Rightarrow> Inl (exn (Builtin ValueError) (''Invalid integer list '' @ inp))
   | Some m \<Rightarrow> (case group_of m of (g, b) \<Rightarrow>
       if mode = Fail \<and> (b \<or> IsNonIncreasing result (start_of g))
       then Inl (exn (Builtin ValueError) (''Integer list '' @ inp @ '' is not increasing''))
       else parse_groups mode inp (result @ [g]) ss))"

text \<open>\<open>IntegerListParser.parse\<close>: of a string, of a list, of an IntegerList and of an int\<close>

datatype list_input = Text string | Groups "int_group list" | Ready integer_list | Number int

definition parse_integer_list :: "on_nonincreasing \<Rightarrow> list_input \<Rightarrow> exn + integer_list" where
  "parse_integer_list mode inp = (case inp of
     Ready il \<Rightarrow> Inr il
   | Groups gs \<Rightarrow> new_IntegerList gs
   | Number n \<Rightarrow> new_IntegerList [Single n]
   | Text s \<Rightarrow> (case parse_groups mode s [] (split_on CHR '','' s) of
       Inl e \<Rightarrow> Inl e | Inr gs \<Rightarrow> new_IntegerList gs))"

text \<open>\<open>_SerializeRange\<close> and \<open>serialize\<close>\<close>

definition SerializeRange :: "int list \<Rightarrow> string" where
  "SerializeRange vs = str_join (if list_ex (\<lambda>v. v < 0) vs then '':'' else ''-'') (map str_of_int vs)"

fun serialize_group :: "int_group \<Rightarrow> string" where
  "serialize_group (Single a) = str_of_int a"
| "serialize_group (Pair a b) = SerializeRange [a, b]"
| "serialize_group (Triple a b s) = SerializeRange [a, b, s]"

definition serialize :: "integer_list \<Rightarrow> string" where
  "serialize il = str_join '','' (map serialize_group (groups il))"

section \<open>Indexing\<close>

lemma group_items_Single [simp]: "group_items (Single a) = [a]"
  by (simp add: group_items_def)

lemma group_items_nth:
  assumes "step_of g \<noteq> 0" and "i < length (group_items g)"
  shows "group_items g ! i = start_of g + int i * step_of g"
proof (cases g)
  case (Single a)
  then show ?thesis using assms by (simp add: group_items_def)
qed (use assms in \<open>simp_all add: group_items_def CreateXrangeFromTuple_def py_range_def\<close>)

lemma getitem_loop_nth:
  assumes "list_all (\<lambda>g. step_of g \<noteq> 0 \<and> group_items g \<noteq> []) gs" and "i < length (concat (map group_items gs))"
  shows "getitem_loop gs i = Inr (concat (map group_items gs) ! i)"
  using assms
proof (induction gs arbitrary: i)
  case Nil
  then show ?case by simp
next
  case (Cons g gs)
  have g: "step_of g \<noteq> 0" "group_items g \<noteq> []"
    and gs: "list_all (\<lambda>g. step_of g \<noteq> 0 \<and> group_items g \<noteq> []) gs"
    using Cons.prems(1) by simp_all
  show ?case
  proof (cases "i < length (group_items g)")
    case True
    then have "concat (map group_items (g # gs)) ! i = start_of g + int i * step_of g"
      using group_items_nth [OF g(1) True] by (simp add: nth_append)
    moreover have "getitem_loop (g # gs) i = Inr (start_of g + int i * step_of g)"
      using True by (cases g) (simp_all add: group_items_def)
    ultimately show ?thesis by simp
  next
    case False
    have "i \<noteq> 0" using False g(2) by (cases i) simp_all
    moreover have "getitem_loop gs (i - length (group_items g))
        = Inr (concat (map group_items gs) ! (i - length (group_items g)))"
      by (rule Cons.IH [OF gs]) (use False Cons.prems(2) in simp)
    ultimately show ?thesis
      using False by (cases g) (simp_all add: nth_append)
  qed
qed

text \<open>Indexing an integer list agrees with iterating over it: if no group of the list is empty, the
  i-th element is the i-th that the iteration yields, the length is the number of elements, and any
  other index raises an IndexError.\<close>

lemma getitem_is_nth:
  assumes "new_IntegerList gs = Inr il" and "list_all (\<lambda>g. group_items g \<noteq> []) gs"
  shows "list_length il = length (items il) \<and> getitem il i =
    (if 0 \<le> i \<and> nat i < length (items il) then Inr (items il ! nat i) else Inl (exn (Builtin IndexError) []))"
proof -
  have il: "groups il = gs" "list_length il = length (items il)"
    and steps: "list_all (\<lambda>g. step_of g \<noteq> 0) gs"
    using assms(1) by (auto simp: new_IntegerList_def items_def length_concat comp_def list_all_iff
        list_ex_iff split: if_splits)
  have "list_all (\<lambda>g. step_of g \<noteq> 0 \<and> group_items g \<noteq> []) gs"
    using steps assms(2) by (simp add: list_all_iff)
  from getitem_loop_nth [OF this, of "nat i"] il show ?thesis
    by (auto simp: getitem_def items_def nat_less_iff)
qed

theorem getitem_is_nth_witness:
  "\<exists>il. new_IntegerList [Single 5, Triple 8 12 2] = Inr il \<and> getitem il 2 = Inr (items il ! 2)
     \<and> items il = [5, 8, 10, 12]"
proof -
  let ?gs = "[Single 5, Triple 8 12 2]"
  obtain il where il: "new_IntegerList ?gs = Inr il" by (simp add: new_IntegerList_def)
  have ne: "list_all (\<lambda>g. group_items g \<noteq> []) ?gs"
    by (simp add: group_items_def CreateXrangeFromTuple_def py_range_def range_len_def)
  have "items il = [5, 8, 10, 12]"
    using il by (auto simp: new_IntegerList_def items_def group_items_def CreateXrangeFromTuple_def
        py_range_def range_len_def upt_rec)
  with getitem_is_nth [OF il ne, of 2] il show ?thesis by auto
qed

text \<open>With an empty group, indexing and iterating disagree: the list 1:5:-1,7 has one element, which
  is 7 for the iteration and 1 for the index 0.\<close>

lemma getitem_empty_group:
  "\<exists>il. parse_integer_list Ignore (Text ''1:5:-1,7'') = Inr il \<and> items il = [7]
     \<and> getitem il 0 = Inr 1"
  by (simp add: parse_integer_list_def match_either_def match_group_def take_int_def take_part_def
      is_digit_def group_of_def int_of_def digits_value_def digit_value_def new_IntegerList_def
      items_def group_items_def CreateXrangeFromTuple_def py_range_def range_len_def getitem_def)

section \<open>Printing and parsing\<close>

lemma digits_value_snoc: "digits_value (s @ [c]) = 10 * digits_value s + digit_value c"
  by (simp add: digits_value_def)

lemma digit_char: "n < 10 \<Longrightarrow> is_digit (char_of (48 + n)) \<and> digit_value (char_of (48 + n)) = n"
  by (simp add: is_digit_def digit_value_def of_char_of take_bit_eq_mod)

lemma str_of_nat_digits: "str_of_nat n \<noteq> [] \<and> list_all is_digit (str_of_nat n)"
proof (induction n rule: str_of_nat.induct)
  case (1 n)
  show ?case
    using 1 digit_char [of n] digit_char [of "n mod 10"]
    by (subst str_of_nat.simps, subst (2) str_of_nat.simps) simp
qed

lemma str_of_nat_value: "digits_value (str_of_nat n) = n"
proof (induction n rule: str_of_nat.induct)
  case (1 n)
  show ?case
  proof (cases "n < 10")
    case True
    then show ?thesis
      using digit_char [of n] by (subst str_of_nat.simps) (simp add: digits_value_def)
  next
    case False
    then show ?thesis
      using 1 digit_char [of "n mod 10"] by (subst str_of_nat.simps) (simp add: digits_value_snoc)
  qed
qed

lemma str_of_int_value [simp]: "int_of (str_of_int i) = i"
proof (cases "i < 0")
  case True
  then show ?thesis by (simp add: str_of_int_def int_of_def str_of_nat_value)
next
  case False
  obtain c cs where s: "str_of_nat (nat i) = c # cs" using str_of_nat_digits by (cases "str_of_nat (nat i)") auto
  then have "is_digit c" using str_of_nat_digits [of "nat i"] by simp
  then have "c \<noteq> CHR ''-''" by (auto simp: is_digit_def)
  with False s show ?thesis using str_of_nat_value [of "nat i"] by (simp add: str_of_int_def int_of_def)
qed

text \<open>A number is read back if no digit follows it.\<close>

definition no_digit :: "string \<Rightarrow> bool" where
  "no_digit r = (r = [] \<or> \<not> is_digit (hd r))"

lemma span_digits:
  assumes "list_all is_digit t" and "no_digit r"
  shows "takeWhile is_digit (t @ r) = t" and "dropWhile is_digit (t @ r) = r"
proof -
  have "takeWhile is_digit r = []" "dropWhile is_digit r = r"
    using assms(2) by (cases r, simp_all add: no_digit_def)+
  then show "takeWhile is_digit (t @ r) = t" and "dropWhile is_digit (t @ r) = r"
    using assms(1) by (induction t) auto
qed

lemma take_int_str_of_int:
  assumes "no_digit r" and "signed \<or> 0 \<le> i"
  shows "take_int signed (str_of_int i @ r) = Some (str_of_int i, r)"
proof (cases "i < 0")
  case True
  with assms show ?thesis
    using str_of_nat_digits [of "nat (- i)"]
    by (simp add: take_int_def str_of_int_def span_digits)
next
  case False
  obtain c cs where s: "str_of_nat (nat i) = c # cs" using str_of_nat_digits by (cases "str_of_nat (nat i)") auto
  then have "c \<noteq> CHR ''-''" using str_of_nat_digits [of "nat i"] by (auto simp: is_digit_def)
  with False s assms(1) show ?thesis
    using str_of_nat_digits [of "nat i"] span_digits [of "c # cs" r]
    by (simp add: take_int_def str_of_int_def)
qed

lemma take_int_negative:
  assumes "i < 0"
  shows "take_int False (str_of_int i @ r) = None"
  using assms by (simp add: take_int_def str_of_int_def is_digit_def)

lemma take_part_int:
  assumes "no_digit r" and "signed \<or> 0 \<le> i"
  shows "take_part sep signed (sep # str_of_int i @ r) = (Some (str_of_int i), r)"
  using take_int_str_of_int [OF assms] by (simp add: take_part_def)

lemma take_part_other: "c \<noteq> sep \<Longrightarrow> take_part sep signed (c # r) = (None, c # r)"
  by (simp add: take_part_def)

lemma take_part_Nil: "take_part sep signed [] = (None, [])"
  by (simp add: take_part_def)

lemma no_digit_sep: "no_digit []" "no_digit (CHR ''-'' # r)" "no_digit (CHR '':'' # r)"
  by (simp_all add: no_digit_def is_digit_def)

text \<open>The groups that parsing yields, and whether one of them is not increasing by itself.\<close>

fun printable :: "int_group \<Rightarrow> bool" where
  "printable (Single a) = True"
| "printable (Pair a b) = False"
| "printable (Triple a b s) = (\<not> (s > 0 \<and> a > b))"

fun falls :: "int_group \<Rightarrow> bool" where
  "falls (Triple a b s) = (b \<le> a)"
| "falls _ = False"

lemma group_of_parsed: "printable (fst (group_of m)) \<and> snd (group_of m) = falls (fst (group_of m))"
  by (auto simp: group_of_def Let_def split: prod.split option.split)

lemma match_single:
  assumes "signed \<or> 0 \<le> a"
  shows "match_group sep signed (str_of_int a) = Some (str_of_int a, None, None)"
  using take_int_str_of_int [OF no_digit_sep(1) assms]
  by (simp add: match_group_def take_part_Nil)

lemma match_triple:
  assumes "\<And>r. no_digit (sep # r)" and "signed \<or> 0 \<le> a \<and> 0 \<le> b \<and> 0 \<le> s"
  shows "match_group sep signed (str_of_int a @ sep # str_of_int b @ sep # str_of_int s)
    = Some (str_of_int a, Some (str_of_int b), Some (str_of_int s))"
proof -
  have 1: "take_int signed (str_of_int a @ sep # str_of_int b @ sep # str_of_int s)
      = Some (str_of_int a, sep # str_of_int b @ sep # str_of_int s)"
    by (rule take_int_str_of_int [OF assms(1)]) (use assms(2) in auto)
  have 2: "take_part sep signed (sep # str_of_int b @ sep # str_of_int s)
      = (Some (str_of_int b), sep # str_of_int s)"
    by (rule take_part_int [OF assms(1)]) (use assms(2) in auto)
  have 3: "take_part sep signed (sep # str_of_int s) = (Some (str_of_int s), [])"
    using take_part_int [OF no_digit_sep(1), of signed s sep] assms(2) by auto
  show ?thesis by (simp add: match_group_def 1 2 3)
qed

lemma no_dash_match:
  assumes "\<exists>c r. t = c # r \<and> c \<noteq> CHR ''-'' \<and> c \<noteq> CHR 0x0A" and "no_digit t"
  shows "match_group CHR ''-'' False (str_of_int a @ t) = None"
proof (cases "a < 0")
  case True
  then show ?thesis by (simp add: match_group_def take_int_negative)
next
  case False
  obtain c r where t: "t = c # r" "c \<noteq> CHR ''-''" "c \<noteq> CHR 0x0A" using assms(1) by blast
  have "take_int False (str_of_int a @ t) = Some (str_of_int a, t)"
    using take_int_str_of_int [OF assms(2)] False by simp
  with t show ?thesis by (simp add: match_group_def take_part_other)
qed

lemma match_serialized:
  assumes "printable g"
  shows "\<exists>m. match_either (serialize_group g) = Some m \<and> group_of m = (g, falls g)"
proof (cases g)
  case (Single a)
  have "match_either (str_of_int a) = Some (str_of_int a, None, None)"
  proof (cases "a < 0")
    case True
    then have "match_group CHR ''-'' False (str_of_int a) = None"
      using take_int_negative [OF True, of "[]"] by (simp add: match_group_def)
    then show ?thesis by (simp add: match_either_def match_single)
  qed (simp add: match_either_def match_single)
  then show ?thesis by (simp add: Single group_of_def)
next
  case (Pair a b)
  with assms show ?thesis by simp
next
  case (Triple a b s)
  let ?m = "(str_of_int a, Some (str_of_int b), Some (str_of_int s))"
  have "match_either (serialize_group g) = Some ?m"
  proof (cases "a < 0 \<or> b < 0 \<or> s < 0")
    case True
    then have shown: "serialize_group g = str_of_int a @ CHR '':'' # str_of_int b @ CHR '':'' # str_of_int s"
      by (auto simp: Triple SerializeRange_def)
    have "match_group CHR ''-'' False (serialize_group g) = None"
      unfolding shown by (rule no_dash_match) (simp_all add: no_digit_sep)
    moreover have "match_group CHR '':'' True (serialize_group g) = Some ?m"
      unfolding shown by (rule match_triple) (simp_all add: no_digit_sep)
    ultimately show ?thesis by (simp add: match_either_def)
  next
    case False
    then have shown: "serialize_group g = str_of_int a @ CHR ''-'' # str_of_int b @ CHR ''-'' # str_of_int s"
      by (auto simp: Triple SerializeRange_def)
    have "match_group CHR ''-'' False (serialize_group g) = Some ?m"
      unfolding shown by (rule match_triple) (use False in \<open>simp_all add: no_digit_sep\<close>)
    then show ?thesis by (simp add: match_either_def)
  qed
  moreover have "group_of ?m = (g, falls g)" using assms by (auto simp: Triple group_of_def Let_def)
  ultimately show ?thesis by blast
qed

text \<open>Splitting a text at its separators.\<close>

lemma split_on_no_sep: "c \<notin> set x \<Longrightarrow> split_on c x = [x]"
  by (induction x) auto

lemma split_on_append: "c \<notin> set x \<Longrightarrow> split_on c (x @ c # y) = x # split_on c y"
  by (induction x) auto

lemma split_on_join: "xs \<noteq> [] \<Longrightarrow> \<forall>x \<in> set xs. c \<notin> set x \<Longrightarrow> split_on c (str_join [c] xs) = xs"
proof (induction xs rule: induct_list012)
  case (3 x y zs)
  then show ?case by (simp add: split_on_append)
qed (simp_all add: split_on_no_sep)

lemma str_of_int_chars: "set (str_of_int i) \<subseteq> insert CHR ''-'' {c. is_digit c}"
  using str_of_nat_digits by (auto simp: str_of_int_def list_all_iff)

lemma serialize_group_no_comma: "CHR '','' \<notin> set (serialize_group g)"
proof -
  have "CHR '','' \<notin> set (str_of_int i)" for i
    using str_of_int_chars [of i] by (auto simp: is_digit_def)
  then show ?thesis by (cases g) (auto simp: SerializeRange_def)
qed

lemma split_on_nonempty: "split_on c x \<noteq> []"
  by (induction c x rule: split_on.induct) (auto split: list.split)

lemma parse_groups_again:
  "parse_groups mode inp result ss = Inr out \<Longrightarrow> \<exists>gs. out = result @ gs \<and> length gs = length ss
     \<and> (\<forall>inp'. parse_groups mode inp' result (map serialize_group gs) = Inr out)"
proof (induction mode inp result ss rule: parse_groups.induct)
  case (1 mode inp result)
  then show ?case by simp
next
  case (2 mode inp result s ss)
  obtain m where m: "match_either s = Some m" using 2(2) by (auto split: option.splits)
  let ?g = "fst (group_of m)"
  have g: "group_of m = (?g, falls ?g)" "printable ?g"
    using group_of_parsed [of m] by (simp_all add: prod_eq_iff)
  have ok: "\<not> (mode = Fail \<and> (falls ?g \<or> IsNonIncreasing result (start_of ?g)))"
    and rest: "parse_groups mode inp (result @ [?g]) ss = Inr out"
    using 2(2) m g(1) by (auto split: prod.splits if_splits)
  from 2(1) [OF m, of ?g "falls ?g"] g(1) ok rest obtain gs where
    gs: "out = (result @ [?g]) @ gs" "length gs = length ss"
    "\<forall>inp'. parse_groups mode inp' (result @ [?g]) (map serialize_group gs) = Inr out" by auto
  obtain m' where "match_either (serialize_group ?g) = Some m'" "group_of m' = (?g, falls ?g)"
    using match_serialized [OF g(2)] by blast
  with ok gs show ?case by (intro exI [of _ "?g # gs"]) auto
qed

text \<open>C28: Printing an integer list is the inverse of parsing it: what the parser made of a text is
  printed as a text of which the parser makes the same list, whether it checks that the list
  increases or not.\<close>

theorem parse_serialize:
  assumes "parse_integer_list mode (Text s) = Inr il"
  shows "parse_integer_list mode (Text (serialize il)) = Inr il"
proof -
  obtain gs where parsed: "parse_groups mode s [] (split_on CHR '','' s) = Inr gs"
    and il: "new_IntegerList gs = Inr il"
    using assms by (auto simp: parse_integer_list_def split: sum.splits)
  from parse_groups_again [OF parsed] split_on_nonempty [of "CHR '',''" s]
  have again: "parse_groups mode inp [] (map serialize_group gs) = Inr gs" and "gs \<noteq> []" for inp by auto
  then have "split_on CHR '','' (str_join [CHR '',''] (map serialize_group gs)) = map serialize_group gs"
    by (intro split_on_join) (auto simp: serialize_group_no_comma)
  moreover have "groups il = gs" using il by (auto simp: new_IntegerList_def split: if_splits)
  ultimately show ?thesis
    using again il by (simp add: parse_integer_list_def serialize_def)
qed

theorem parse_serialize_witness:
  "\<exists>il. parse_integer_list Ignore (Text ''5,8:-2'') = Inr il
     \<and> parse_integer_list Ignore (Text (serialize il)) = Inr il \<and> groups il = [Single 5, Triple 8 (-2) (-1)]"
proof -
  obtain il where il: "parse_integer_list Ignore (Text ''5,8:-2'') = Inr il" "groups il = [Single 5, Triple 8 (-2) (-1)]"
    by (simp add: parse_integer_list_def match_either_def match_group_def take_int_def take_part_def
        is_digit_def group_of_def int_of_def digits_value_def digit_value_def new_IntegerList_def)
  from parse_serialize [OF il(1)] il show ?thesis by blast
qed

end
