(* ===== verification/FlagValues.thy ===== *)
theory FlagValues
  imports FlagUtil Sample
begin

text \<open>
  The other flag values of \<open>perfkitbenchmarker/flag_util.py\<close> (percentages, key-value pairs,
  temporary overrides) and the deprecated flag names of \<open>perfkitbenchmarker/flag_alias.py\<close>.

  Numbers are exact where Python rounds to a float.  The flags of absl are a map from names to
  values with the mark that they were given; how a flag parses a value is a parameter.
\<close>

section \<open>Percentages\<close>

datatype py_float = NaN | Infinite bool | Finite rat

text \<open>Digits, with single underscores between them.\<close>

fun digits_tail :: "string \<Rightarrow> string \<times> string" where
  "digits_tail [] = ([], [])"
| "digits_tail (c # cs) =
     (if is_digit c then (case digits_tail cs of (d, r) \<Rightarrow> (c # d, r))
      else if c = CHR ''_'' \<and> cs \<noteq> [] \<and> is_digit (hd cs) then digits_tail cs
      else ([], c # cs))"

definition digit_part :: "string \<Rightarrow> (string \<times> string) option" where
  "digit_part s = (if s \<noteq> [] \<and> is_digit (hd s) then Some (digits_tail s) else None)"

definition mantissa :: "string \<Rightarrow> (string \<times> string \<times> string) option" where
  "mantissa s = (case digit_part s of
     Some (w, r) \<Rightarrow> (case r of
         [] \<Rightarrow> Some (w, [], [])
       | c # r' \<Rightarrow> if c = CHR ''.'' then
            (case digit_part r' of Some (f, r'') \<Rightarrow> Some (w, f, r'') | None \<Rightarrow> Some (w, [], r'))
          else Some (w, [], r))
   | None \<Rightarrow> (case s of
         [] \<Rightarrow> None
       | c # r' \<Rightarrow> if c = CHR ''.'' then
            (case digit_part r' of Some (f, r'') \<Rightarrow> Some ([], f, r'') | None \<Rightarrow> None)
          else None))"

text \<open>An optional sign, and the rest.\<close>

definition sign_of :: "string \<Rightarrow> bool \<times> string" where
  "sign_of s = (case s of [] \<Rightarrow> (False, s) | c # cs \<Rightarrow>
     if c = CHR ''-'' then (True, cs) else if c = CHR ''+'' then (False, cs) else (False, s))"

definition exponent :: "string \<Rightarrow> int option" where
  "exponent s = (case s of
     [] \<Rightarrow> Some 0
   | c # cs \<Rightarrow> if c = CHR ''e'' \<or> c = CHR ''E'' then
        (case sign_of cs of (neg, t) \<Rightarrow> (case digit_part t of
           Some (d, r) \<Rightarrow> if r = [] then Some (if neg then - int (digits_value d) else int (digits_value d))
             else None
         | None \<Rightarrow> None))
      else None)"

definition lower :: "char \<Rightarrow> char" where
  "lower c = (if 65 \<le> (of_char c :: nat) \<and> (of_char c :: nat) \<le> 90
     then char_of (of_char c + 32 :: nat) else c)"

definition is_space :: "char \<Rightarrow> bool" where
  "is_space c = (c = CHR '' '' \<or> 9 \<le> (of_char c :: nat) \<and> (of_char c :: nat) \<le> 13)"

definition strip :: "(char \<Rightarrow> bool) \<Rightarrow> string \<Rightarrow> string" where
  "strip p s = rev (dropWhile p (rev (dropWhile p s)))"

text \<open>\<open>float(s)\<close>\<close>

definition py_float_of :: "string \<Rightarrow> py_float option" where
  "py_float_of s = (case sign_of (strip is_space s) of (neg, t) \<Rightarrow>
     if map lower t = ''nan'' then Some NaN
     else if map lower t = ''inf'' \<or> map lower t = ''infinity'' then Some (Infinite neg)
     else (case mantissa t of
         None \<Rightarrow> None
       | Some (w, f, r) \<Rightarrow> (case exponent r of
           None \<Rightarrow> None
         | Some x \<Rightarrow> Some (Finite ((if neg then -1 else 1) * of_nat (digits_value (w @ f))
             * 10 powi (x - int (length f)))))))"

text \<open>\<open>v < x\<close> and \<open>v > x\<close>: comparisons with NaN are false.\<close>

definition float_less :: "py_float \<Rightarrow> rat \<Rightarrow> bool" where
  "float_less v x = (case v of NaN \<Rightarrow> False | Infinite neg \<Rightarrow> neg | Finite y \<Rightarrow> y < x)"

definition float_greater :: "py_float \<Rightarrow> rat \<Rightarrow> bool" where
  "float_greater v x = (case v of NaN \<Rightarrow> False | Infinite neg \<Rightarrow> \<not> neg | Finite y \<Rightarrow> x < y)"

definition StringToRawPercent :: "string \<Rightarrow> exn + py_float" where
  "StringToRawPercent s =
     (if length s \<le> 1 then Inl (exn (Builtin ValueError) (''String '' @ s @ '' too short to be percentage.''))
      else if last s \<noteq> CHR ''%'' then Inl (exn (Builtin ValueError) (''Percentage '' @ s @ '' must end with %''))
      else (case py_float_of (butlast s) of
          None \<Rightarrow> Inl (exn (Builtin ValueError) ''could not convert string to float'')
        | Some v \<Rightarrow> if float_less v 0 \<or> float_greater v 100
            then Inl (exn (Builtin ValueError) ''not a valid percentage'') else Inr v))"

text \<open>A percentage is read as a number from 0 to 100 or rejected with a ValueError, but for one
  text: nan% is accepted, because NaN is neither less than 0 nor greater than 100.\<close>

lemma StringToRawPercent_range:
  "(case StringToRawPercent s of
      Inl e \<Rightarrow> type_of e = Builtin ValueError
    | Inr NaN \<Rightarrow> True | Inr (Infinite _) \<Rightarrow> False | Inr (Finite x) \<Rightarrow> 0 \<le> x \<and> x \<le> 100)
   \<and> StringToRawPercent ''nan%'' = Inr NaN \<and> StringToRawPercent ''12.5%'' = Inr (Finite (25 / 2))"
proof -
  have "StringToRawPercent ''nan%'' = Inr NaN"
    by (simp add: StringToRawPercent_def py_float_of_def sign_of_def strip_def is_space_def lower_def
        float_less_def float_greater_def)
  moreover have "StringToRawPercent ''12.5%'' = Inr (Finite (25 / 2))"
    by (simp add: StringToRawPercent_def py_float_of_def sign_of_def strip_def is_space_def lower_def
        float_less_def float_greater_def mantissa_def digit_part_def is_digit_def exponent_def
        digits_value_def digit_value_def power_int_minus)
  ultimately show ?thesis
    by (auto simp: StringToRawPercent_def float_less_def float_greater_def exn_def
        split: option.split py_float.split if_splits)
qed

section \<open>Key-value pairs\<close>

text \<open>The pairs of the comma-separated texts: a text without a colon is skipped.\<close>

definition split_pair :: "string \<Rightarrow> (string \<times> string) option" where
  "split_pair s = (if CHR '':'' \<in> set s
     then Some (takeWhile (\<lambda>c. c \<noteq> CHR '':'') s, tl (dropWhile (\<lambda>c. c \<noteq> CHR '':'') s)) else None)"

fun add_pairs :: "(string \<times> string) list \<Rightarrow> string list \<Rightarrow> (string \<times> string) list" where
  "add_pairs pairs [] = pairs"
| "add_pairs pairs (s # ss) = add_pairs
     (case split_pair s of None \<Rightarrow> pairs | Some (k, v) \<Rightarrow> dict_set pairs k v) ss"

definition ParseKeyValuePairs :: "string list \<Rightarrow> (string \<times> string) list" where
  "ParseKeyValuePairs strings = add_pairs [] (concat (map (split_on CHR '','') strings))"

lemma add_pairs_map_of:
  "map_of (add_pairs pairs ss) = map_of pairs ++ map_of (rev (List.map_filter split_pair ss))"
  by (induction pairs ss rule: add_pairs.induct)
     (auto simp: map_filter_simps map_add_def fun_eq_iff split: option.splits)

section \<open>Deprecated names\<close>

definition DISK_FLAGS_TO_TRANSLATE :: "(string \<times> string) list" where
  "DISK_FLAGS_TO_TRANSLATE = [
      (''scratch_disk_type'', ''data_disk_type''),
      (''scratch_disk_size'', ''data_disk_size''),
      (''gce_boot_disk_size'', ''boot_disk_size''),
      (''aws_boot_disk_size'', ''boot_disk_size'')]"

definition RELATIONAL_DB_FLAGS_TO_TRANSLATE :: "(string \<times> string) list" where
  "RELATIONAL_DB_FLAGS_TO_TRANSLATE = [
      (''managed_db_engine'', ''db_engine''),
      (''managed_db_engine_version'', ''db_engine_version''),
      (''managed_db_database_name'', ''database_name''),
      (''managed_db_database_username'', ''database_username''),
      (''managed_db_database_password'', ''database_password''),
      (''managed_db_high_availability'', ''db_high_availability''),
      (''managed_db_high_availability_type'', ''db_high_availability_type''),
      (''managed_db_backup_enabled'', ''db_backup_enabled''),
      (''managed_db_zone'', ''db_zone''),
      (''managed_db_machine_type'', ''db_machine_type''),
      (''managed_db_cpus'', ''db_cpus''),
      (''managed_db_memory'', ''db_memory''),
      (''managed_db_disk_size'', ''db_disk_size''),
      (''managed_db_disk_type'', ''db_disk_type''),
      (''managed_db_disk_iops'', ''db_disk_iops'')]"

definition LIST_TO_MULTISTRING_TRANSLATIONS :: "(string \<times> string) list" where
  "LIST_TO_MULTISTRING_TRANSLATIONS = [
      (''zones'', ''zone''),
      (''extra_zones'', ''zone'')]"

definition MISC_TRANSLATIONS :: "(string \<times> string) list" where
  "MISC_TRANSLATIONS = [
      (''sysbench_thread_counts'', ''sysbench_run_threads''),
      (''runspec_build_tool_version'', ''gcc_version'')]"

definition ALL_TRANSLATIONS :: "(string \<times> string) list list" where
  "ALL_TRANSLATIONS = [DISK_FLAGS_TO_TRANSLATE, RELATIONAL_DB_FLAGS_TO_TRANSLATE,
     LIST_TO_MULTISTRING_TRANSLATIONS, MISC_TRANSLATIONS]"

definition FlattenTranslationsDicts :: "(string \<times> string) list list \<Rightarrow> (string \<times> string) list" where
  "FlattenTranslationsDicts dicts = foldl dict_update [] dicts"

definition is_list_flag :: "string \<Rightarrow> bool" where
  "is_list_flag original = (map_of LIST_TO_MULTISTRING_TRANSLATIONS original \<noteq> None)"

definition GetMultiStringFromList :: "string \<Rightarrow> string \<Rightarrow> string list" where
  "GetMultiStringFromList flag args =
     map (\<lambda>i. ''--'' @ flag @ ''='' @ i) (split_on CHR '','' (strip (\<lambda>c. c = CHR ''='') args))"

text \<open>A match of \<open>PRIOR_ALIAS_REGEX\<close>: the dashes with an optional no, and what follows the name.\<close>

definition alias_match :: "string \<Rightarrow> string \<Rightarrow> (string \<times> string) option" where
  "alias_match original arg =
     find (\<lambda>(pre, r). arg = pre @ original @ r \<and> (r = [] \<or> r = [CHR 0x0A] \<or> hd r = CHR ''=''))
       (map (\<lambda>pre. (pre, drop (length pre + length original) arg)) [''--no'', ''--'', ''-no'', ''-''])"

definition alias_arg :: "(string \<times> string) list \<Rightarrow> string \<Rightarrow> string list" where
  "alias_arg renames arg =
     foldl (\<lambda>result (original, translation).
       case alias_match original arg of
         None \<Rightarrow> result
       | Some (pre, r) \<Rightarrow>
           if is_list_flag original
           then GetMultiStringFromList translation (takeWhile (\<lambda>c. c \<noteq> CHR 0x0A) r)
           else (pre @ translation @ r) # tl result) [arg] renames"

definition AliasFlagsFromArgs :: "(string \<times> string) list list \<Rightarrow> string list \<Rightarrow> string list" where
  "AliasFlagsFromArgs alias_dict argv =
     concat (map (alias_arg (FlattenTranslationsDicts alias_dict)) argv)"

text \<open>\<open>a + b\<close> for two values\<close>

definition int_value :: "pyval \<Rightarrow> int option" where
  "int_value v = (case v of VInt n \<Rightarrow> Some n | VBool b \<Rightarrow> Some (of_bool b) | _ \<Rightarrow> None)"

definition num_value :: "pyval \<Rightarrow> rat option" where
  "num_value v = (case v of VNum x \<Rightarrow> Some x | _ \<Rightarrow> map_option of_int (int_value v))"

definition unsupported_operand :: exn where
  "unsupported_operand = exn (Builtin TypeError) ''unsupported operand type(s) for +''"

definition py_add :: "pyval \<Rightarrow> pyval \<Rightarrow> exn + pyval" where
  "py_add a b = (case (a, b) of
     (VList x, VList y) \<Rightarrow> Inr (VList (x @ y))
   | (VStr x, VStr y) \<Rightarrow> Inr (VStr (x @ y))
   | _ \<Rightarrow> (case (int_value a, int_value b) of
       (Some m, Some n) \<Rightarrow> Inr (VInt (m + n))
     | _ \<Rightarrow> (case (num_value a, num_value b) of
         (Some x, Some y) \<Rightarrow> Inr (VNum (x + y))
       | _ \<Rightarrow> Inl unsupported_operand)))"

fun alias_items ::
  "(string \<times> string) list \<Rightarrow> metadata_dict \<Rightarrow> metadata_dict \<Rightarrow> exn + metadata_dict" where
  "alias_items renames new_dict [] = Inr new_dict"
| "alias_items renames new_dict ((original, v) # kvs) =
     (case map_of renames original of
        None \<Rightarrow> alias_items renames (dict_set new_dict original v) kvs
      | Some translation \<Rightarrow>
          if is_list_flag original then
            (case py_add (case map_of new_dict translation of None \<Rightarrow> VList [] | Some l \<Rightarrow> l)
                (case v of VStr s \<Rightarrow> VList [VStr s] | _ \<Rightarrow> v) of
               Inl e \<Rightarrow> Inl e
             | Inr l \<Rightarrow> alias_items renames (dict_set new_dict translation l) kvs)
          else alias_items renames (dict_set new_dict translation v) kvs)"

text \<open>\<open>AliasFlagsFromYaml\<close>; an empty dictionary stands for None as well.\<close>

definition AliasFlagsFromYaml ::
  "(string \<times> string) list list \<Rightarrow> metadata_dict \<Rightarrow> exn + metadata_dict" where
  "AliasFlagsFromYaml alias_dict config =
     (if config = [] then Inr config else alias_items (FlattenTranslationsDicts alias_dict) [] config)"

lemmas table_defs = DISK_FLAGS_TO_TRANSLATE_def RELATIONAL_DB_FLAGS_TO_TRANSLATE_def
  LIST_TO_MULTISTRING_TRANSLATIONS_def MISC_TRANSLATIONS_def

lemma all_translations:
  "FlattenTranslationsDicts ALL_TRANSLATIONS = DISK_FLAGS_TO_TRANSLATE @ RELATIONAL_DB_FLAGS_TO_TRANSLATE
     @ LIST_TO_MULTISTRING_TRANSLATIONS @ MISC_TRANSLATIONS"
  by (simp add: FlattenTranslationsDicts_def ALL_TRANSLATIONS_def table_defs dict_update_def)

lemmas translation_defs = all_translations table_defs

text \<open>No name that is translated to is itself deprecated.\<close>

definition current_names :: "(string \<times> string) list \<Rightarrow> bool" where
  "current_names renames = list_all (\<lambda>(k, n). map_of renames n = None) renames"

lemma all_translations_current: "current_names (FlattenTranslationsDicts ALL_TRANSLATIONS)"
  by (simp add: current_names_def translation_defs)

lemma alias_items_current:
  assumes "alias_items renames d kvs = Inr d'" "\<forall>k \<in> set (map fst d). map_of renames k = None"
    and "current_names renames"
  shows "\<forall>k \<in> set (map fst d'). map_of renames k = None"
  using assms
proof (induction renames d kvs rule: alias_items.induct)
  case (1 renames d)
  then show ?case by simp
next
  case (2 renames d original v kvs)
  have keys: "\<forall>k \<in> set (map fst (dict_set d k' x)). map_of renames k = None"
    if "map_of renames k' = None" for k' and x :: pyval
    using 2(5) that unfolding dict_set_keys by blast
  show ?case
  proof (cases "map_of renames original")
    case None
    with 2(1) [OF None] 2(4,6) keys [OF None] show ?thesis by simp
  next
    case (Some t)
    have "\<forall>p \<in> set renames. map_of renames (snd p) = None"
      using 2(6) unfolding current_names_def list_all_iff case_prod_beta .
    from bspec [OF this map_of_SomeD [OF Some]] have t: "map_of renames t = None"
      unfolding snd_conv .
    show ?thesis
      using 2(2,3) [OF Some] 2(4,6) keys [OF t] Some by (auto split: if_splits sum.splits)
  qed
qed

text \<open>A deprecated name in the flags of a configuration is always replaced: when AliasFlagsFromYaml
  returns, no key of the result is a deprecated name.\<close>

lemma AliasFlagsFromYaml_current:
  assumes "AliasFlagsFromYaml ALL_TRANSLATIONS config = Inr d"
  shows "list_all (\<lambda>k. map_of (FlattenTranslationsDicts ALL_TRANSLATIONS) k = None) (map fst d)"
  using alias_items_current [OF _ _ all_translations_current] assms
  by (auto simp: AliasFlagsFromYaml_def list_all_iff split: if_splits)

text \<open>On the command line a deprecated list flag only keeps its value if it is given with an equals
  sign: --zones=a,b becomes --zone=a --zone=b, but --zones a,b becomes --zone= followed by a,b, an
  empty zone and a stray argument.\<close>

lemma AliasFlagsFromArgs_separate_value:
  "AliasFlagsFromArgs ALL_TRANSLATIONS [''--zones=a,b''] = [''--zone=a'', ''--zone=b'']
   \<and> AliasFlagsFromArgs ALL_TRANSLATIONS [''--zones'', ''a,b''] = [''--zone='', ''a,b'']"
  by (simp add: AliasFlagsFromArgs_def alias_arg_def alias_match_def is_list_flag_def
      GetMultiStringFromList_def strip_def translation_defs)

theorem AliasFlagsFromYaml_current_witness:
  "\<exists>d. AliasFlagsFromYaml ALL_TRANSLATIONS [(''zones'', VStr ''a''), (''x'', VInt 1)] = Inr d
     \<and> map fst d = [''zone'', ''x'']
     \<and> list_all (\<lambda>k. map_of (FlattenTranslationsDicts ALL_TRANSLATIONS) k = None) (map fst d)"
proof -
  have d: "AliasFlagsFromYaml ALL_TRANSLATIONS [(''zones'', VStr ''a''), (''x'', VInt 1)]
      = Inr [(''zone'', VList [VStr ''a'']), (''x'', VInt 1)]"
    by (simp add: AliasFlagsFromYaml_def is_list_flag_def py_add_def translation_defs)
  from AliasFlagsFromYaml_current [OF d] d show ?thesis by simp
qed

section \<open>Temporary overrides\<close>

record flag =
  flag_contents :: pyval
  present :: bool

type_synonym flag_values = "string \<rightharpoonup> flag"

text \<open>How a flag parses a value (\<open>Inl\<close> is the text of the IllegalFlagValueError), and how a value is
  described in a message.\<close>

record flag_library =
  parse_flag :: "string \<Rightarrow> pyval \<Rightarrow> string + pyval"
  describe :: "pyval \<Rightarrow> string"

definition unrecognized_option :: "string \<Rightarrow> exn" where
  "unrecognized_option key = exn (Config UnrecognizedOption) (''Unrecognized option flags.'' @ key
     @ ''. Each option within flags must correspond to a valid command-line flag.'')"

definition invalid_value :: "flag_library \<Rightarrow> string \<Rightarrow> pyval \<Rightarrow> string \<Rightarrow> exn" where
  "invalid_value L key v msg = exn (Config config_error.InvalidValue)
     (''Invalid flags.'' @ key @ '' value: '' @ describe L v @ ''.'' @ [CHR 0x0A] @ msg)"

text \<open>
  \<open>OverrideFlags.__enter__\<close>: the exception, if any, the flags afterwards, and what is to be restored
  (\<open>_flags_to_reapply\<close>).
\<close>

fun enter_overrides ::
  "flag_library \<Rightarrow> metadata_dict \<Rightarrow> flag_values \<Rightarrow> (string \<times> pyval) list
     \<Rightarrow> exn option \<times> flag_values \<times> (string \<times> pyval) list" where
  "enter_overrides L [] fs reapply = (None, fs, reapply)"
| "enter_overrides L ((key, v) # kvs) fs reapply = (case fs key of
     None \<Rightarrow> (Some (unrecognized_option key), fs, reapply)
   | Some f \<Rightarrow>
       if present f then enter_overrides L kvs fs reapply
       else (case parse_flag L key v of
           Inl msg \<Rightarrow> (Some (invalid_value L key v msg), fs, dict_set reapply key (flag_contents f))
         | Inr v' \<Rightarrow> enter_overrides L kvs (fs(key \<mapsto> \<lparr>flag_contents = v', present = True\<rparr>))
             (dict_set reapply key (flag_contents f))))"

text \<open>\<open>OverrideFlags.__exit__\<close>\<close>

fun exit_overrides :: "(string \<times> pyval) list \<Rightarrow> flag_values \<Rightarrow> flag_values" where
  "exit_overrides [] fs = fs"
| "exit_overrides ((key, v) # kvs) fs =
     exit_overrides kvs (fs(key \<mapsto> \<lparr>flag_contents = v, present = False\<rparr>))"

text \<open>\<open>with OverrideFlags(fs, config): body\<close>; Python does not call \<open>__exit__\<close> if \<open>__enter__\<close> raises.\<close>

definition with_OverrideFlags ::
  "flag_library \<Rightarrow> metadata_dict \<Rightarrow> (flag_values \<Rightarrow> (exn + 'a) \<times> flag_values)
     \<Rightarrow> flag_values \<Rightarrow> (exn + 'a) \<times> flag_values" where
  "with_OverrideFlags L config body fs = (case AliasFlagsFromYaml ALL_TRANSLATIONS config of
     Inl e \<Rightarrow> (Inl e, fs)
   | Inr overrides \<Rightarrow> (case enter_overrides L overrides fs [] of
       (Some e, fs', _) \<Rightarrow> (Inl e, fs')
     | (None, fs', reapply) \<Rightarrow> (case body fs' of (r, fs'') \<Rightarrow> (r, exit_overrides reapply fs''))))"

text \<open>\<open>GetProvidedCommandLineFlags\<close>, with the names in the order of the flag registry\<close>

definition GetProvidedCommandLineFlags :: "string list \<Rightarrow> flag_values \<Rightarrow> (string \<times> pyval) list" where
  "GetProvidedCommandLineFlags names fs =
     concat (map (\<lambda>k. case fs k of None \<Rightarrow> []
       | Some f \<Rightarrow> if present f then [(k, flag_contents f)] else []) names)"

text \<open>What is to be restored are contents of flags that were not given.\<close>

definition restorable :: "flag_values \<Rightarrow> (string \<times> pyval) list \<Rightarrow> bool" where
  "restorable fs0 reapply = (distinct (map fst reapply)
     \<and> (\<forall>(k, v) \<in> set reapply. fs0 k = Some \<lparr>flag_contents = v, present = False\<rparr>))"

lemma dict_set_new: "k \<notin> set (map fst d) \<Longrightarrow> dict_set d k v = d @ [(k, v)]"
  by (induction d k v rule: dict_set.induct) auto

lemma enter_overrides_restorable:
  assumes "restorable fs0 reapply" and "\<And>k. k \<notin> set (map fst reapply) \<Longrightarrow> fs k = fs0 k"
    and "\<And>k. k \<in> set (map fst reapply) \<Longrightarrow> \<exists>f. fs k = Some f \<and> present f"
    and "enter_overrides L kvs fs reapply = (None, fs', reapply')"
  shows "restorable fs0 reapply' \<and> (\<forall>k. k \<notin> set (map fst reapply') \<longrightarrow> fs' k = fs0 k)"
  using assms
proof (induction L kvs fs reapply rule: enter_overrides.induct)
  case (1 L fs reapply)
  then show ?case by simp
next
  case (2 L key v kvs fs reapply)
  obtain f where f: "fs key = Some f" using 2(6) by (auto split: option.splits)
  show ?case
  proof (cases "present f")
    case True
    from 2(1) [OF f True 2(3,4,5)] 2(6) f True show ?thesis by simp
  next
    case False
    obtain v' where v': "parse_flag L key v = Inr v'" using 2(6) f False by (auto split: sum.splits)
    have new: "key \<notin> set (map fst reapply)" using 2(5) [of key] f False by auto
    then have key: "fs0 key = Some \<lparr>flag_contents = flag_contents f, present = False\<rparr>"
      using 2(4) f False by (metis (full_types) flag.surjective old.unit.exhaust)
    let ?re = "dict_set reapply key (flag_contents f)"
    let ?fs = "fs(key \<mapsto> \<lparr>flag_contents = v', present = True\<rparr>)"
    have re: "?re = reapply @ [(key, flag_contents f)]" by (rule dict_set_new [OF new])
    have "restorable fs0 ?re" using 2(3) new key unfolding re by (auto simp: restorable_def)
    moreover have "k \<notin> set (map fst ?re) \<Longrightarrow> ?fs k = fs0 k" for k using 2(4) unfolding re by auto
    moreover have "k \<in> set (map fst ?re) \<Longrightarrow> \<exists>f. ?fs k = Some f \<and> present f" for k
      using 2(5) unfolding re by auto
    moreover have "enter_overrides L kvs ?fs ?re = (None, fs', reapply')" using 2(6) f False v' by simp
    ultimately show ?thesis by (rule 2(2) [OF f False v'])
  qed
qed

lemma exit_overrides_at:
  "distinct (map fst reapply) \<Longrightarrow> exit_overrides reapply fs k = (case map_of reapply k of
     None \<Rightarrow> fs k | Some v \<Rightarrow> Some \<lparr>flag_contents = v, present = False\<rparr>)"
  by (induction reapply fs rule: exit_overrides.induct)
     (auto split: option.split dest: map_of_SomeD simp: rev_image_eqI)

text \<open>Overrides of flags are undone: when the overrides could be applied, the flags after the with
  statement are those that its body left, but for the overridden ones, which have their old value
  and do not count as given; flags that were given on the command line are never overridden.\<close>

lemma with_OverrideFlags_restores:
  assumes "AliasFlagsFromYaml ALL_TRANSLATIONS config = Inr overrides"
    and "enter_overrides L overrides fs [] = (None, fs1, reapply)"
    and "with_OverrideFlags L config body fs = (r, fs')"
  shows "r = fst (body fs1)
    \<and> fs' k = (if k \<in> set (map fst reapply) then fs k else snd (body fs1) k)
    \<and> (k \<in> set (map fst reapply) \<longrightarrow> (\<exists>f. fs k = Some f \<and> \<not> present f))
    \<and> (k \<notin> set (map fst reapply) \<longrightarrow> fs1 k = fs k)"
proof -
  have "restorable fs []" by (simp add: restorable_def)
  from enter_overrides_restorable [OF this _ _ assms(2)]
  have restorable: "restorable fs reapply" and others: "k \<notin> set (map fst reapply) \<Longrightarrow> fs1 k = fs k" by auto
  have result: "r = fst (body fs1)" "fs' = exit_overrides reapply (snd (body fs1))"
    using assms by (auto simp: with_OverrideFlags_def split: prod.splits)
  have dist: "distinct (map fst reapply)" using restorable by (simp add: restorable_def)
  have old: "fs k = Some \<lparr>flag_contents = v, present = False\<rparr>" if "map_of reapply k = Some v" for v
    using restorable map_of_SomeD [OF that] by (auto simp: restorable_def)
  show ?thesis
  proof (cases "map_of reapply k")
    case None
    then have "k \<notin> set (map fst reapply)" by (simp add: map_of_eq_None_iff)
    with None result others show ?thesis by (simp add: exit_overrides_at [OF dist])
  next
    case (Some v)
    then have "k \<in> set (map fst reapply)" by (metis domI dom_map_of_conv_image_fst image_set)
    with Some result old [OF Some] show ?thesis by (simp add: exit_overrides_at [OF dist])
  qed
qed

definition plain_library :: flag_library where
  "plain_library = \<lparr>parse_flag = (\<lambda>_ v. Inr v), describe = (\<lambda>_. [])\<rparr>"

definition two_flags :: flag_values where
  "two_flags = [''x'' \<mapsto> \<lparr>flag_contents = VInt 1, present = False\<rparr>,
     ''y'' \<mapsto> \<lparr>flag_contents = VInt 2, present = True\<rparr>]"

theorem with_OverrideFlags_restores_witness:
  "\<exists>fs'. with_OverrideFlags plain_library [(''x'', VInt 5), (''y'', VInt 6)]
       (\<lambda>fs. (Inr (map_option flag_contents (fs ''x'')), fs)) two_flags = (Inr (Some (VInt 5)), fs')
     \<and> fs' ''x'' = two_flags ''x''"
proof -
  let ?cfg = "[(''x'', VInt 5), (''y'', VInt 6)]"
  let ?body = "\<lambda>fs. (Inr (map_option flag_contents (fs ''x'')), fs) :: (exn + pyval option) \<times> flag_values"
  have a: "AliasFlagsFromYaml ALL_TRANSLATIONS ?cfg = Inr ?cfg"
    by (simp add: AliasFlagsFromYaml_def is_list_flag_def translation_defs)
  have e: "enter_overrides plain_library ?cfg two_flags [] =
      (None, two_flags(''x'' \<mapsto> \<lparr>flag_contents = VInt 5, present = True\<rparr>), [(''x'', VInt 1)])"
    by (simp add: two_flags_def plain_library_def)
  obtain r fs' where w: "with_OverrideFlags plain_library ?cfg ?body two_flags = (r, fs')"
    by (cases "with_OverrideFlags plain_library ?cfg ?body two_flags") simp
  from with_OverrideFlags_restores [OF a e w, of "''x''"] w show ?thesis by auto
qed

text \<open>Overrides that cannot be applied are not undone: if a later option of the configuration is not
  a flag, the options before it stay in force, marked as given, although the with statement has
  raised an exception.\<close>

lemma failed_override_leaks:
  "\<exists>e fs'. with_OverrideFlags plain_library [(''x'', VInt 5), (''z'', VInt 6)] body two_flags = (Inl e, fs')
     \<and> fs' ''x'' = Some \<lparr>flag_contents = VInt 5, present = True\<rparr> \<and> two_flags ''x'' \<noteq> fs' ''x''"
  by (simp add: with_OverrideFlags_def AliasFlagsFromYaml_def is_list_flag_def translation_defs
      two_flags_def plain_library_def)

end
