(* ===== verification/Configs.thy ===== *)
theory Configs
  imports FlagUtil
begin

text \<open>
  \<open>perfkitbenchmarker/configs/__init__.py\<close>: the files that a configuration imports, the merging of
  configurations, and the configuration that a run starts from.

  YAML and the files are parameters.  A dictionary has strings as keys and is kept in insertion
  order; its keys are distinct (\<open>wf_value\<close>).  Copies and the values they are copies of are the same
  value here: nothing in this file changes a configuration that it has built.
\<close>

section \<open>Values\<close>

text \<open>\<open>bool(v)\<close>\<close>

fun py_true :: "pyval \<Rightarrow> bool" where
  "py_true VNone = False"
| "py_true (VBool b) = b"
| "py_true (VInt n) = (n \<noteq> 0)"
| "py_true (VNum x) = (x \<noteq> 0)"
| "py_true (VStr s) = (s \<noteq> [])"
| "py_true (VList xs) = (xs \<noteq> [])"
| "py_true (VDict d) = (d \<noteq> [])"

text \<open>The keys of every dictionary in a value are distinct.\<close>

fun wf_value :: "pyval \<Rightarrow> bool" where
  "wf_value (VDict d) = (distinct (map fst d) \<and> list_all (\<lambda>kv. wf_value (snd kv)) d)"
| "wf_value (VList xs) = list_all wf_value xs"
| "wf_value _ = True"

definition no_attribute :: "string \<Rightarrow> exn" where
  "no_attribute name = exn (Builtin AttributeError) (''object has no attribute '' @ name)"

text \<open>\<open>v.get(k, v0)\<close>\<close>

definition py_get :: "pyval \<Rightarrow> string \<Rightarrow> pyval \<Rightarrow> exn + pyval" where
  "py_get v k v0 = (case v of
     VDict d \<Rightarrow> Inr (case map_of d k of None \<Rightarrow> v0 | Some x \<Rightarrow> x)
   | _ \<Rightarrow> Inl (no_attribute ''get''))"

section \<open>Merging\<close>

text \<open>
  The loop of \<open>_Merge(d1, d2)\<close> over \<open>d2\<close>, with \<open>merged_dict\<close> as the accumulator, and the value it
  stores for a key of both dictionaries.
\<close>

fun Merge_loop :: "metadata_dict \<Rightarrow> metadata_dict \<Rightarrow> metadata_dict \<Rightarrow> metadata_dict"
and merge_value :: "pyval \<Rightarrow> pyval \<Rightarrow> pyval" where
  "Merge_loop d1 merged [] = merged"
| "Merge_loop d1 merged ((k, v) # d2) =
     Merge_loop d1 (dict_set merged k (case map_of d1 k of None \<Rightarrow> v | Some w \<Rightarrow> merge_value w v)) d2"
| "merge_value w v = (case (w, v) of
     (VDict a, VDict b) \<Rightarrow> VDict (Merge_loop a a b) | _ \<Rightarrow> v)"

definition Merge :: "metadata_dict \<Rightarrow> metadata_dict \<Rightarrow> metadata_dict" where
  "Merge d1 d2 = Merge_loop d1 d1 d2"

definition MergeConfigs :: "metadata_dict \<Rightarrow> pyval \<Rightarrow> exn + metadata_dict" where
  "MergeConfigs default_config override_config =
     (if \<not> py_true override_config then Inr default_config
      else (case override_config of
          VDict d2 \<Rightarrow> Inr (Merge default_config d2)
        | _ \<Rightarrow> Inl (no_attribute ''items'')))"

section \<open>Overrides\<close>

definition bad_override :: exn where
  "bad_override = exn (Builtin ValueError)
     (''--config_override flag value has incorrect number of \"=\" characters. The value must take ''
      @ ''the form fully.qualified.key=value.'')"

text \<open>\<open>{k1: {k2: ... value}}\<close>, built from the last key on\<close>

definition nest :: "string list \<Rightarrow> pyval \<Rightarrow> pyval" where
  "nest keys v = foldr (\<lambda>k c. VDict [(k, c)]) keys v"

definition override_config :: "(string \<Rightarrow> exn + pyval) \<Rightarrow> string \<Rightarrow> exn + pyval" where
  "override_config yaml override =
     (if count_list override CHR ''='' \<noteq> 1 then Inl bad_override
      else (case split_on CHR ''='' override of
          [full_key, v] \<Rightarrow> (case yaml v of
              Inl e \<Rightarrow> Inl e | Inr x \<Rightarrow> Inr (nest (split_on CHR ''.'' full_key) x))
        | _ \<Rightarrow> Inl bad_override))"

fun overrides_loop ::
  "(string \<Rightarrow> exn + pyval) \<Rightarrow> metadata_dict \<Rightarrow> string list \<Rightarrow> exn + metadata_dict" where
  "overrides_loop yaml config [] = Inr config"
| "overrides_loop yaml config (s # ss) = (case override_config yaml s of
     Inl e \<Rightarrow> Inl e
   | Inr new_config \<Rightarrow> (case MergeConfigs config new_config of
       Inl e \<Rightarrow> Inl e | Inr config \<Rightarrow> overrides_loop yaml config ss))"

definition GetConfigFromOverrides ::
  "(string \<Rightarrow> exn + pyval) \<Rightarrow> string list \<Rightarrow> exn + metadata_dict" where
  "GetConfigFromOverrides yaml overrides = overrides_loop yaml [] overrides"

section \<open>Imported files\<close>

text \<open>\<open>data.ResourcePath\<close>, and the lines of a file without the ends of the lines\<close>

record config_files =
  ResourcePath :: "string \<Rightarrow> exn + string"
  file_lines :: "string \<Rightarrow> exn + string list"

text \<open>A match of \<open>IMPORT_REGEX\<close>, and the imports of a file: its first lines, as far as they match.\<close>

definition import_name :: "string \<Rightarrow> string option" where
  "import_name line = (if prefix ''#import '' line then Some (drop 8 line) else None)"

fun imports_of :: "string list \<Rightarrow> string list" where
  "imports_of [] = []"
| "imports_of (l # ls) = (case import_name l of None \<Rightarrow> [] | Some f \<Rightarrow> f # imports_of ls)"

definition add_new :: "string list \<Rightarrow> string list \<Rightarrow> string list" where
  "add_new import_files names = foldl (\<lambda>fs n. if n \<in> set fs then fs else fs @ [n]) import_files names"

fun import_loop ::
  "(string \<Rightarrow> (exn, string list, string list) py) \<Rightarrow> string list \<Rightarrow> string list
     \<Rightarrow> (exn, string list, string list) py" where
  "import_loop get import_files [] = ret import_files"
| "import_loop get import_files (f # fs) =
     bindM (get f) (\<lambda>names. import_loop get (add_new import_files names) fs)"

text \<open>
  \<open>_GetImportFiles\<close>; the state is \<open>imported_set\<close>.  The number bounds the depth of the recursion, and
  \<open>None\<close> means that it was too small.
\<close>

fun GetImportFiles :: "config_files \<Rightarrow> nat \<Rightarrow> string \<Rightarrow> (exn, string list, string list) py" where
  "GetImportFiles W 0 config_file = (\<lambda>_. None)"
| "GetImportFiles W (Suc n) config_file =
     bindM (lift (ResourcePath W config_file)) (\<lambda>config_path.
     bindM (getM (\<lambda>imported_set. config_path \<in> set imported_set)) (\<lambda>seen.
       if seen then ret []
       else thenM (modifyM (\<lambda>imported_set. config_path # imported_set))
         (bindM (lift (file_lines W config_path)) (\<lambda>ls.
          bindM (import_loop (GetImportFiles W n) [] (imports_of ls)) (\<lambda>import_files.
            ret (import_files @ [config_path]))))))"

text \<open>
  \<open>_ConcatenatedFiles.read\<close>: the state holds what is left of the current file and of those after it.
\<close>

fun read_files :: "nat \<Rightarrow> string list \<Rightarrow> string \<times> string list" where
  "read_files n [] = ([], [])"
| "read_files n (f # fs) =
     (if take n f = [] \<and> fs \<noteq> [] then read_files n fs else (take n f, drop n f # fs))"

section \<open>Loading configurations\<close>

text \<open>
  Flags, files and YAML: \<open>yaml_load\<close> is \<open>yaml.safe_load\<close>, \<open>file_contents\<close> the text of an existing
  file, \<open>default_config\<close> the loaded default configuration and \<open>constants\<close> the text of the file of
  constants.  \<open>depth\<close> bounds the depth of imports.
\<close>

record config_env =
  config_files :: config_files
  depth :: nat
  file_contents :: "string \<Rightarrow> string"
  yaml_load :: "string \<Rightarrow> exn + pyval"
  default_config :: "exn + metadata_dict"
  constants :: string
  benchmark_config_file :: "string option"
  config_overrides :: "string list"

definition yaml_error :: "string \<Rightarrow> exn_class" where
  "yaml_error name = Subclass (Builtin Exception) name None"

text \<open>\<open>except yaml.parser.ParserError\<close> and \<open>except yaml.composer.ComposerError\<close>\<close>

definition parse_errors :: "string \<Rightarrow> exn + 'a \<Rightarrow> exn + 'a" where
  "parse_errors what r = (case r of
     Inl e \<Rightarrow> if isinstance e (yaml_error ''ParserError'')
         then Inl (exn (Config ParseError) (''Encountered a problem loading '' @ what @ ''. Please ''
           @ ''ensure that the config is valid YAML. Error received:'' @ [CHR 0x0A] @ str_of e))
       else if isinstance e (yaml_error ''ComposerError'')
         then Inl (exn (Config ParseError) (''Encountered a problem loading '' @ what @ ''. Please ''
           @ ''ensure that all references are defined. Error received:'' @ [CHR 0x0A] @ str_of e))
       else Inl e
   | Inr x \<Rightarrow> Inr x)"

definition LoadUserConfig :: "config_env \<Rightarrow> string \<Rightarrow> (exn + pyval) option" where
  "LoadUserConfig E path = (case GetImportFiles (config_files E) (depth E) path [] of
     None \<Rightarrow> None
   | Some r \<Rightarrow> Some (case fst r of Inl e \<Rightarrow> Inl e
       | Inr paths \<Rightarrow> yaml_load E (concat (map (file_contents E) paths))))"

definition user_config :: "config_env \<Rightarrow> metadata_dict \<Rightarrow> (exn + metadata_dict) option" where
  "user_config E config = (case benchmark_config_file E of
     None \<Rightarrow> Some (Inr config)
   | Some path \<Rightarrow> if path = [] then Some (Inr config)
       else (case LoadUserConfig E path of
           None \<Rightarrow> None
         | Some r \<Rightarrow> Some (case r of Inl e \<Rightarrow> Inl e | Inr c \<Rightarrow> MergeConfigs config c)))"

definition with_overrides :: "config_env \<Rightarrow> metadata_dict \<Rightarrow> exn + metadata_dict" where
  "with_overrides E config = (if config_overrides E = [] then Inr config
     else (case GetConfigFromOverrides (yaml_load E) (config_overrides E) of
         Inl e \<Rightarrow> Inl e | Inr c \<Rightarrow> MergeConfigs config (VDict c)))"

definition GetDefaultAndUserConfig :: "config_env \<Rightarrow> (exn + metadata_dict) option" where
  "GetDefaultAndUserConfig E = (case default_config E of
     Inl e \<Rightarrow> Some (Inl e)
   | Inr d \<Rightarrow> (case user_config E d of
       None \<Rightarrow> None
     | Some r \<Rightarrow> Some (parse_errors ''config'' (case r of Inl e \<Rightarrow> Inl e | Inr c \<Rightarrow> with_overrides E c))))"

definition GetConfigFlags :: "config_env \<Rightarrow> (exn + pyval) option" where
  "GetConfigFlags E = (case GetDefaultAndUserConfig E of
     None \<Rightarrow> None
   | Some r \<Rightarrow> Some (case r of Inl e \<Rightarrow> Inl e | Inr c \<Rightarrow> py_get (VDict c) ''flags'' (VDict [])))"

text \<open>\<open>LoadMinimalConfig\<close>; writing JSON and reading it again makes a copy.\<close>

definition LoadMinimalConfig :: "config_env \<Rightarrow> string \<Rightarrow> string \<Rightarrow> exn + pyval" where
  "LoadMinimalConfig E benchmark_config benchmark_name =
     (case parse_errors ''the default benchmark config''
         (yaml_load E (constants E @ [CHR 0x0A] @ benchmark_config)) of
        Inl e \<Rightarrow> Inl e
      | Inr (VDict c) \<Rightarrow> (case map_of c benchmark_name of
            None \<Rightarrow> Inl (exn (Builtin KeyError) benchmark_name)
          | Some v \<Rightarrow> Inr v)
      | Inr _ \<Rightarrow> Inl (exn (Builtin TypeError) ''not subscriptable''))"

definition LoadConfig :: "config_env \<Rightarrow> string \<Rightarrow> pyval \<Rightarrow> string \<Rightarrow> exn + pyval" where
  "LoadConfig E benchmark_config user benchmark_name =
     (case LoadMinimalConfig E benchmark_config benchmark_name of
        Inl e \<Rightarrow> Inl e
      | Inr v \<Rightarrow> if \<not> py_true user then Inr v
          else (case (v, user) of
              (VDict c, _) \<Rightarrow> (case MergeConfigs c user of Inl e \<Rightarrow> Inl e | Inr c \<Rightarrow> Inr (VDict c))
            | (_, VDict _) \<Rightarrow> Inl (exn (Builtin TypeError) ''not a dictionary'')
            | _ \<Rightarrow> Inl (no_attribute ''items'')))"

section \<open>What a merged configuration holds\<close>

text \<open>The value at a path of keys, and whether a configuration has nothing to say about a path: it
  has a dictionary without the next key.\<close>

fun entry :: "pyval \<Rightarrow> string list \<Rightarrow> pyval option" where
  "entry v [] = Some v"
| "entry (VDict d) (k # ks) = (case map_of d k of None \<Rightarrow> None | Some v \<Rightarrow> entry v ks)"
| "entry _ (k # ks) = None"

fun silent :: "pyval \<Rightarrow> string list \<Rightarrow> bool" where
  "silent (VDict d) (k # ks) = (case map_of d k of None \<Rightarrow> True | Some v \<Rightarrow> silent v ks)"
| "silent _ _ = False"

fun is_dict :: "pyval \<Rightarrow> bool" where
  "is_dict (VDict d) = True"
| "is_dict _ = False"

lemma is_dictE: "is_dict v \<Longrightarrow> (\<And>d. v = VDict d \<Longrightarrow> P) \<Longrightarrow> P"
  by (cases v) simp_all

declare merge_value.simps [simp del]

lemma merge_value_dicts [simp]: "merge_value (VDict a) (VDict b) = VDict (Merge a b)"
  by (simp add: merge_value.simps Merge_def)

lemma merge_value_other: "\<not> (is_dict w \<and> is_dict v) \<Longrightarrow> merge_value w v = v"
  by (cases w; cases v) (simp_all add: merge_value.simps)

lemma entry_other [simp]: "\<not> is_dict v \<Longrightarrow> entry v (k # ks) = None"
  by (cases v) simp_all

lemma silent_other [simp]: "\<not> is_dict v \<Longrightarrow> \<not> silent v ks"
  by (cases v) simp_all

lemma silent_Nil [simp]: "\<not> silent v []"
  by (cases v) simp_all

lemma silent_no_entry: "silent v ks \<Longrightarrow> entry v ks = None"
  by (induction v ks rule: silent.induct) (auto split: option.splits)

text \<open>One level of a merge.\<close>

lemma Merge_loop_at:
  "distinct (map fst d2) \<Longrightarrow> map_of (Merge_loop d1 m d2) k = (case map_of d2 k of
     None \<Rightarrow> map_of m k
   | Some v \<Rightarrow> Some (case map_of d1 k of None \<Rightarrow> v | Some w \<Rightarrow> merge_value w v))"
proof (induction d2 arbitrary: m)
  case (Cons kv d2)
  obtain k' v where kv: "kv = (k', v)" by (cases kv)
  have "map_of d2 k' = None" using Cons.prems kv by (simp add: map_of_eq_None_iff)
  with Cons show ?case by (auto simp: kv split: option.split)
qed simp

lemma Merge_at:
  "distinct (map fst d2) \<Longrightarrow> map_of (Merge d1 d2) k = (case map_of d2 k of
     None \<Rightarrow> map_of d1 k
   | Some v \<Rightarrow> Some (case map_of d1 k of None \<Rightarrow> v | Some w \<Rightarrow> merge_value w v))"
  unfolding Merge_def by (rule Merge_loop_at)

lemma wf_entry: "wf_value (VDict d) \<Longrightarrow> map_of d k = Some v \<Longrightarrow> wf_value v"
  by (auto simp: list_all_iff dest: map_of_SomeD)

text \<open>What two layers say about a path.\<close>

definition layered :: "pyval \<Rightarrow> pyval \<Rightarrow> string list \<Rightarrow> pyval option" where
  "layered w v p =
     (if silent v p then entry w p
      else (case (entry w p, entry v p) of
          (Some (VDict a), Some (VDict b)) \<Rightarrow> Some (VDict (Merge a b)) | (_, r) \<Rightarrow> r))"

lemma layered_other: "\<not> (is_dict w \<and> is_dict v) \<Longrightarrow> entry v ks = layered w v ks"
proof -
  assume other: "\<not> (is_dict w \<and> is_dict v)"
  show ?thesis
  proof (cases "silent v ks")
    case True
    then obtain k ks' where "ks = k # ks'" "is_dict v" using silent_other silent_Nil by (cases ks) blast+
    with other True silent_no_entry [OF True] show ?thesis by (simp add: layered_def)
  next
    case False
    have "\<not> (\<exists>a b. entry w ks = Some (VDict a) \<and> entry v ks = Some (VDict b))"
      using other by (cases ks; cases "is_dict w"; cases "is_dict v") (auto intro: ccontr)
    then show ?thesis using False by (auto simp: layered_def split: option.split pyval.split)
  qed
qed

lemma Merge_entry:
  "wf_value (VDict b) \<Longrightarrow> entry (VDict (Merge a b)) p = layered (VDict a) (VDict b) p"
proof (induction p arbitrary: a b)
  case Nil
  then show ?case by (simp add: layered_def)
next
  case (Cons k ks)
  have dist: "distinct (map fst b)" using Cons.prems by simp
  show ?case
  proof (cases "map_of b k")
    case None
    then show ?thesis by (simp add: layered_def Merge_at [OF dist])
  next
    case b: (Some v)
    show ?thesis
    proof (cases "map_of a k")
      case None
      have "entry v ks = layered (VDict a) (VDict b) (k # ks)"
        using None b silent_no_entry [of v ks]
        by (auto simp: layered_def split: option.split)
      with None b show ?thesis by (simp add: Merge_at [OF dist])
    next
      case (Some w)
      have lay: "layered (VDict a) (VDict b) (k # ks) = layered w v ks"
        using Some b by (simp add: layered_def)
      show ?thesis
      proof (cases "is_dict w \<and> is_dict v")
        case True
        then obtain a' b' where "w = VDict a'" "v = VDict b'" by (auto elim!: is_dictE)
        with Some b lay Cons.IH [of b' a'] wf_entry [OF Cons.prems b] show ?thesis
          by (simp add: Merge_at [OF dist])
      next
        case False
        with Some b lay layered_other [OF False] show ?thesis
          by (simp add: Merge_at [OF dist] merge_value_other)
      qed
    qed
  qed
qed


lemma Merge_loop_wf:
  "wf_value (VDict merged) \<Longrightarrow> wf_value (VDict d1) \<Longrightarrow> wf_value (VDict d2)
     \<Longrightarrow> wf_value (VDict (Merge_loop d1 merged d2))"
  "wf_value w \<Longrightarrow> wf_value v \<Longrightarrow> wf_value (merge_value w v)"
proof (induction d1 merged d2 and w v rule: Merge_loop_merge_value.induct)
  case (2 d1 merged k v d2)
  let ?x = "case map_of d1 k of None \<Rightarrow> v | Some w \<Rightarrow> merge_value w v"
  have "wf_value ?x"
    using 2(1) wf_entry [OF 2(4)] 2(5) by (auto split: option.split)
  moreover have "(k', y) \<in> set (dict_set merged k ?x) \<Longrightarrow> y = ?x \<or> (k', y) \<in> set merged" for k' y
    by (induction merged k ?x rule: dict_set.induct) (auto split: if_splits)
  ultimately have "wf_value (VDict (dict_set merged k ?x))"
    using 2(3) dict_set_distinct [of merged k ?x] by (force simp: list_all_iff)
  with 2(2) 2(4,5) show ?case by simp
next
  case (3 w v)
  then show ?case by (auto simp: merge_value.simps split: pyval.split)
qed simp_all

lemma Merge_wf: "wf_value (VDict a) \<Longrightarrow> wf_value (VDict b) \<Longrightarrow> wf_value (VDict (Merge a b))"
  unfolding Merge_def by (rule Merge_loop_wf)

text \<open>Something that is given and not a dictionary has no entries.\<close>

definition as_dict_value :: "pyval \<Rightarrow> pyval" where
  "as_dict_value v = (if py_true v then v else VDict [])"

lemma MergeConfigs_result:
  assumes "MergeConfigs d v = Inr c"
  obtains b where "as_dict_value v = VDict b" "c = Merge d b"
proof (cases "py_true v")
  case True
  with assms obtain b where "v = VDict b" "c = Merge d b"
    by (auto simp: MergeConfigs_def split: pyval.splits)
  with True that show ?thesis by (simp add: as_dict_value_def)
next
  case False
  with assms have "c = Merge d []" by (simp add: MergeConfigs_def Merge_def)
  with False that show ?thesis by (simp add: as_dict_value_def)
qed

lemma MergeConfigs_layered:
  assumes "MergeConfigs d v = Inr c" and "wf_value v"
  shows "entry (VDict c) p = layered (VDict d) (as_dict_value v) p"
    and "wf_value (VDict d) \<Longrightarrow> wf_value (VDict c)"
proof -
  obtain b where b: "as_dict_value v = VDict b" "c = Merge d b" by (rule MergeConfigs_result [OF assms(1)])
  have "wf_value (VDict b)" using assms(2) b(1) by (auto simp: as_dict_value_def split: if_splits)
  with b show "entry (VDict c) p = layered (VDict d) (as_dict_value v) p"
    and "wf_value (VDict d) \<Longrightarrow> wf_value (VDict c)"
    by (simp_all add: Merge_entry Merge_wf del: wf_value.simps)
qed

text \<open>Merging overrides: at every path of keys, the merged configuration has the value of the
  default configuration where the override says nothing, the merged dictionary where both have a
  dictionary, and the override's value (or none, if it has a value in place of a dictionary)
  everywhere else; and it is a proper dictionary again.  Only a value that is neither a dictionary
  nor empty is rejected as an override.\<close>

lemma MergeConfigs_entries:
  assumes "wf_value v"
  shows "case MergeConfigs d v of
      Inl e \<Rightarrow> py_true v \<and> \<not> is_dict v
    | Inr c \<Rightarrow> entry (VDict c) p = layered (VDict d) (as_dict_value v) p
        \<and> (wf_value (VDict d) \<longrightarrow> wf_value (VDict c))"
proof (cases "MergeConfigs d v")
  case (Inl e)
  then show ?thesis by (auto simp: MergeConfigs_def split: if_splits pyval.splits)
next
  case (Inr c)
  with MergeConfigs_layered [OF Inr assms] show ?thesis by simp
qed

theorem MergeConfigs_entries_witness:
  "MergeConfigs [(''a'', VDict [(''x'', VInt 1), (''y'', VInt 2)])] (VDict [(''a'', VDict [(''y'', VInt 3)])])
     = Inr [(''a'', VDict [(''x'', VInt 1), (''y'', VInt 3)])]
   \<and> entry (VDict [(''a'', VDict [(''x'', VInt 1), (''y'', VInt 3)])]) [''a'', ''x''] = Some (VInt 1)"
proof -
  let ?d = "[(''a'', VDict [(''x'', VInt 1), (''y'', VInt 2)])]"
  let ?v = "VDict [(''a'', VDict [(''y'', VInt 3)])]"
  have m: "MergeConfigs ?d ?v = Inr [(''a'', VDict [(''x'', VInt 1), (''y'', VInt 3)])]"
    by (simp add: MergeConfigs_def Merge_def merge_value_other)
  have "wf_value ?v" by simp
  from MergeConfigs_entries [OF this, where d = ?d and p = "[''a'', ''x'']"] m show ?thesis
    by (simp add: layered_def as_dict_value_def)
qed


section \<open>Priorities\<close>

lemma nest_Cons [simp]: "nest (k # ks) v = VDict [(k, nest ks v)]" and nest_Nil [simp]: "nest [] v = v"
  by (simp_all add: nest_def)

lemma entry_nest: "entry (nest ks v) ks = Some v"
  by (induction ks) simp_all

lemma nest_wf: "wf_value v \<Longrightarrow> wf_value (nest ks v)"
  by (induction ks) simp_all

lemma layered_leaf: "entry v p = Some x \<Longrightarrow> \<not> is_dict x \<Longrightarrow> layered w v p = Some x"
  using silent_no_entry [of v p] by (auto simp: layered_def split: option.split pyval.split)

lemma layered_silent: "silent v p \<Longrightarrow> layered w v p = entry w p"
  by (simp add: layered_def)

text \<open>What YAML loads has dictionaries with distinct keys.\<close>

definition yaml_wf :: "(string \<Rightarrow> exn + pyval) \<Rightarrow> bool" where
  "yaml_wf yaml = (\<forall>s v. yaml s = Inr v \<longrightarrow> wf_value v)"

lemma override_config_wf: "yaml_wf yaml \<Longrightarrow> override_config yaml s = Inr v \<Longrightarrow> wf_value v"
  by (auto simp: override_config_def yaml_wf_def nest_wf split: if_splits list.splits sum.splits)

lemma overrides_loop_wf:
  "yaml_wf yaml \<Longrightarrow> wf_value (VDict c) \<Longrightarrow> overrides_loop yaml c ss = Inr c' \<Longrightarrow> wf_value (VDict c')"
proof (induction yaml c ss rule: overrides_loop.induct)
  case (2 yaml c s ss)
  from 2(4) obtain n c1 where n: "override_config yaml s = Inr n" "MergeConfigs c n = Inr c1"
    "overrides_loop yaml c1 ss = Inr c'" by (auto split: sum.splits)
  from override_config_wf [OF 2(2) n(1)] have "wf_value n" .
  from 2(1) [OF n(1,2) 2(2) MergeConfigs_layered(2) [OF n(2) this 2(3)] n(3)] show ?case .
qed simp

lemma overrides_loop_snoc:
  "overrides_loop yaml c (ss @ [s]) = (case overrides_loop yaml c ss of
     Inl e \<Rightarrow> Inl e | Inr c' \<Rightarrow> overrides_loop yaml c' [s])"
  by (induction yaml c ss rule: overrides_loop.induct) (simp_all split: sum.split)

text \<open>The last override of a path decides.\<close>

lemma last_override_wins:
  assumes "yaml_wf yaml" and "GetConfigFromOverrides yaml (ss @ [s]) = Inr c"
    and "split_on CHR ''='' s = [full_key, t]" and "yaml t = Inr v" and "\<not> is_dict v"
  shows "entry (VDict c) (split_on CHR ''.'' full_key) = Some v"
proof -
  let ?ks = "split_on CHR ''.'' full_key"
  obtain c1 n where n: "override_config yaml s = Inr n" "MergeConfigs c1 n = Inr c"
    using assms(2) by (auto simp: GetConfigFromOverrides_def overrides_loop_snoc split: sum.splits)
  have nest: "n = nest ?ks v"
    using n(1) assms(3,4) by (auto simp: override_config_def split: if_splits)
  have "py_true n" using nest split_on_nonempty [of "CHR ''.''" full_key]
    by (cases ?ks) simp_all
  then have "as_dict_value n = nest ?ks v" by (simp add: as_dict_value_def nest)
  with MergeConfigs_layered(1) [OF n(2) override_config_wf [OF assms(1) n(1)], of ?ks]
  show ?thesis using layered_leaf [OF entry_nest assms(5)] by simp
qed

lemma parse_errors_Inr: "parse_errors what r = Inr x \<longleftrightarrow> r = Inr x"
  by (auto simp: parse_errors_def split: sum.split if_splits)

text \<open>The user's configuration, nothing if there is none.\<close>

definition user_value :: "config_env \<Rightarrow> pyval \<Rightarrow> bool" where
  "user_value E u = (case benchmark_config_file E of
     None \<Rightarrow> u = VDict []
   | Some path \<Rightarrow> if path = [] then u = VDict [] else LoadUserConfig E path = Some (Inr u))"

lemma user_config_merges:
  assumes "yaml_wf (yaml_load E)" and "user_config E d = Some (Inr m)"
  obtains u where "user_value E u" "wf_value u" "MergeConfigs d u = Inr m"
proof -
  have none: "MergeConfigs d (VDict []) = Inr d" by (simp add: MergeConfigs_def)
  show thesis
  proof (cases "benchmark_config_file E = None \<or> benchmark_config_file E = Some []")
    case True
    with assms(2) have "m = d" by (auto simp: user_config_def)
    with True none show thesis by (intro that [of "VDict []"]) (auto simp: user_value_def)
  next
    case False
    then obtain path where path: "benchmark_config_file E = Some path" "path \<noteq> []" by auto
    with assms(2) obtain u where u: "LoadUserConfig E path = Some (Inr u)" "MergeConfigs d u = Inr m"
      by (auto simp: user_config_def split: option.splits sum.splits)
    have "wf_value u" using u(1) assms(1)
      by (auto simp: LoadUserConfig_def yaml_wf_def split: option.splits sum.splits)
    with path u show thesis by (intro that [of u]) (simp_all add: user_value_def)
  qed
qed

text \<open>C11: The configuration of a run: a value that the command line overrides is taken from there,
  otherwise one that the user's file sets is taken from the file, and what neither of them mentions
  is as in the default configuration.\<close>

theorem GetDefaultAndUserConfig_priority:
  assumes "yaml_wf (yaml_load E)" and "default_config E = Inr d"
    and "GetDefaultAndUserConfig E = Some (Inr c)"
  shows "\<exists>u v. user_value E u \<and> GetConfigFromOverrides (yaml_load E) (config_overrides E) = Inr v
    \<and> (\<forall>p x. entry (VDict v) p = Some x \<and> \<not> is_dict x \<longrightarrow> entry (VDict c) p = Some x)
    \<and> (\<forall>p x. silent (VDict v) p \<and> entry (as_dict_value u) p = Some x \<and> \<not> is_dict x
         \<longrightarrow> entry (VDict c) p = Some x)
    \<and> (\<forall>p. silent (VDict v) p \<and> silent (as_dict_value u) p \<longrightarrow> entry (VDict c) p = entry (VDict d) p)"
proof -
  obtain m where m: "user_config E d = Some (Inr m)" "with_overrides E m = Inr c"
    using assms(2,3) by (auto simp: GetDefaultAndUserConfig_def parse_errors_Inr split: option.splits sum.splits)
  obtain u where u: "user_value E u" "wf_value u" "MergeConfigs d u = Inr m"
    by (rule user_config_merges [OF assms(1) m(1)])
  obtain v where v: "GetConfigFromOverrides (yaml_load E) (config_overrides E) = Inr v"
    "MergeConfigs m (VDict v) = Inr c"
    using m(2) by (auto simp: with_overrides_def MergeConfigs_def GetConfigFromOverrides_def
        split: if_splits sum.splits)
  have "wf_value (VDict v)"
    using overrides_loop_wf [OF assms(1) _ v(1) [unfolded GetConfigFromOverrides_def]] by simp
  from MergeConfigs_layered(1) [OF v(2) this]
  have c: "entry (VDict c) p = layered (VDict m) (VDict v) p" for p by (simp add: as_dict_value_def)
  have m: "entry (VDict m) p = layered (VDict d) (as_dict_value u) p" for p
    by (rule MergeConfigs_layered(1) [OF u(3,2)])
  show ?thesis
    by (rule exI [of _ u], rule exI [of _ v])
       (use u(1) v(1) in \<open>simp add: c m layered_leaf layered_silent\<close>)
qed


definition four :: "string \<Rightarrow> exn + pyval" where
  "four s = Inr (if s = ''4'' then VInt 4 else VNone)"

definition one_override :: config_env where
  "one_override = \<lparr>config_files = \<lparr>ResourcePath = Inr, file_lines = (\<lambda>_. Inr [])\<rparr>, depth = 0,
     file_contents = (\<lambda>_. []), yaml_load = four,
     default_config = Inr [(''a'', VDict [(''n'', VInt 1), (''m'', VInt 2)])], constants = [],
     benchmark_config_file = None, config_overrides = [''a.n=4'']\<rparr>"

lemma one_override_result:
  "GetDefaultAndUserConfig one_override = Some (Inr [(''a'', VDict [(''n'', VInt 4), (''m'', VInt 2)])])"
  by (simp add: GetDefaultAndUserConfig_def one_override_def user_config_def with_overrides_def four_def
      GetConfigFromOverrides_def override_config_def MergeConfigs_def Merge_def merge_value_other
      parse_errors_def)

theorem GetDefaultAndUserConfig_priority_witness:
  "\<exists>c. GetDefaultAndUserConfig one_override = Some (Inr c)
     \<and> entry (VDict c) [''a'', ''m''] = Some (VInt 2) \<and> entry (VDict c) [''a'', ''n''] = Some (VInt 4)"
proof -
  let ?d = "[(''a'', VDict [(''n'', VInt 1), (''m'', VInt 2)])]"
  have yaml: "yaml_wf (yaml_load one_override)" by (simp add: yaml_wf_def one_override_def four_def)
  have d: "default_config one_override = Inr ?d" by (simp add: one_override_def)
  have v: "GetConfigFromOverrides (yaml_load one_override) (config_overrides one_override)
      = Inr [(''a'', VDict [(''n'', VInt 4)])]"
    by (simp add: one_override_def four_def GetConfigFromOverrides_def override_config_def
        MergeConfigs_def Merge_def)
  have u: "user_value one_override w \<longleftrightarrow> w = VDict []" for w
    by (simp add: user_value_def one_override_def)
  from GetDefaultAndUserConfig_priority [OF yaml d one_override_result] show ?thesis
    unfolding one_override_result v u by (auto simp: as_dict_value_def)
qed

section \<open>Imports\<close>

text \<open>The paths that a file imports directly.\<close>

definition imports_file :: "config_files \<Rightarrow> string \<Rightarrow> string \<Rightarrow> bool" where
  "imports_file W p q = (\<exists>ls f. file_lines W p = Inr ls \<and> f \<in> set (imports_of ls) \<and> ResourcePath W f = Inr q)"

text \<open>Paths whose files can be opened and only import files that are found.\<close>

definition readable :: "config_files \<Rightarrow> string set \<Rightarrow> bool" where
  "readable W R = (\<forall>p \<in> R. \<exists>ls. file_lines W p = Inr ls
     \<and> (\<forall>f \<in> set (imports_of ls). \<exists>q \<in> R. ResourcePath W f = Inr q))"

text \<open>What a call of \<open>_GetImportFiles\<close> for files of \<open>R\<close> has done: from the imported set \<open>i\<close> to \<open>i'\<close>
  it returned the files \<open>fs\<close>, which are those it has added, and no import of them is missing.\<close>

definition collected ::
  "config_files \<Rightarrow> string set \<Rightarrow> string list \<Rightarrow> string list \<Rightarrow> string list \<Rightarrow> bool" where
  "collected W R i fs i' = (distinct fs \<and> set i' = set i \<union> set fs \<and> set i \<inter> set fs = {} \<and> set fs \<subseteq> R
     \<and> (\<forall>p \<in> set fs. \<forall>q. imports_file W p q \<longrightarrow> q \<in> set i'))"

lemma add_new_disjoint: "distinct ns \<Longrightarrow> set fs \<inter> set ns = {} \<Longrightarrow> add_new fs ns = fs @ ns"
  unfolding add_new_def by (induction ns arbitrary: fs) auto

lemma collected_Nil: "collected W R i [] i"
  by (simp add: collected_def)

lemma collected_append:
  "collected W R i fs i1 \<Longrightarrow> collected W R i1 gs i2
     \<Longrightarrow> collected W R i (fs @ gs) i2 \<and> add_new fs gs = fs @ gs"
  by (auto simp: collected_def add_new_disjoint Int_Un_distrib2)

lemma import_loop_collects:
  assumes get: "\<And>f i. f \<in> set names \<Longrightarrow> P i \<Longrightarrow>
      \<exists>fs i' q. get f i = Some (Inr fs, i') \<and> collected W R i fs i' \<and> ResourcePath W f = Inr q \<and> q \<in> set i'"
    and P: "\<And>i i'. P i \<Longrightarrow> set i \<subseteq> set i' \<Longrightarrow> set i' \<subseteq> set i \<union> R \<Longrightarrow> P i'"
  shows "P i1 \<Longrightarrow> collected W R i acc i1 \<Longrightarrow>
    \<exists>fs i'. import_loop get acc names i1 = Some (Inr fs, i') \<and> collected W R i fs i'
      \<and> set i1 \<subseteq> set i' \<and> (\<forall>f \<in> set names. \<exists>q. ResourcePath W f = Inr q \<and> q \<in> set i')"
  using get
proof (induction names arbitrary: i1 acc)
  case Nil
  then show ?case by (auto simp: ret_def)
next
  case (Cons f names)
  obtain gs i2 q where g: "get f i1 = Some (Inr gs, i2)" "collected W R i1 gs i2"
    "ResourcePath W f = Inr q" "q \<in> set i2"
    using Cons.prems(3) [OF _ Cons.prems(1), of f] by auto
  have sub: "set i1 \<subseteq> set i2" "set i2 \<subseteq> set i1 \<union> R" using g(2) by (auto simp: collected_def)
  have acc: "collected W R i (acc @ gs) i2" "add_new acc gs = acc @ gs"
    using collected_append [OF Cons.prems(2) g(2)] by simp_all
  obtain fs i' where "import_loop get (acc @ gs) names i2 = Some (Inr fs, i')" "collected W R i fs i'"
    "set i2 \<subseteq> set i'" "\<forall>f \<in> set names. \<exists>q. ResourcePath W f = Inr q \<and> q \<in> set i'"
    using Cons.IH [OF P [OF Cons.prems(1) sub] acc(1)] Cons.prems(3) by auto
  with g acc(2) sub(1) show ?case by (auto simp: bindM_def)
qed

lemma GetImportFiles_collects:
  assumes R: "finite R" "readable W R"
  shows "ResourcePath W f = Inr p \<Longrightarrow> p \<in> R \<Longrightarrow> card (R - set i) < n \<Longrightarrow>
    \<exists>fs i'. GetImportFiles W n f i = Some (Inr fs, i') \<and> collected W R i fs i' \<and> p \<in> set i'
      \<and> (p \<notin> set i \<longrightarrow> fs \<noteq> [] \<and> last fs = p)"
proof (induction n arbitrary: f p i)
  case 0
  then show ?case by simp
next
  case (Suc n)
  show ?case
  proof (cases "p \<in> set i")
    case True
    with Suc.prems collected_Nil show ?thesis by (auto simp: lift_def py_defs)
  next
    case False
    let ?i = "p # i"
    obtain ls where ls: "file_lines W p = Inr ls"
      and found: "\<forall>f \<in> set (imports_of ls). \<exists>q \<in> R. ResourcePath W f = Inr q"
      using R(2) Suc.prems(2) by (auto simp: readable_def)
    have "card (R - set ?i) < card (R - set i)"
      by (rule psubset_card_mono) (use R(1) Suc.prems(2) False in auto)
    then have start: "card (R - set ?i) < n" using Suc.prems(3) by linarith
    let ?P = "\<lambda>i. card (R - set i) < n"
    have get: "\<exists>fs i' q. GetImportFiles W n f i = Some (Inr fs, i') \<and> collected W R i fs i'
        \<and> ResourcePath W f = Inr q \<and> q \<in> set i'" if "f \<in> set (imports_of ls)" "?P i" for f i
      using found that(1) Suc.IH [OF _ _ that(2), of f] by blast
    have mono: "?P i'" if "?P i" "set i \<subseteq> set i'" "set i' \<subseteq> set i \<union> R" for i i'
    proof -
      have "card (R - set i') \<le> card (R - set i)" by (rule card_mono) (use R(1) that(2) in auto)
      with that(1) show ?thesis by simp
    qed
    have "\<exists>fs i'. import_loop (GetImportFiles W n) [] (imports_of ls) ?i = Some (Inr fs, i')
      \<and> collected W R ?i fs i' \<and> set ?i \<subseteq> set i'
      \<and> (\<forall>f \<in> set (imports_of ls). \<exists>q. ResourcePath W f = Inr q \<and> q \<in> set i')"
      by (rule import_loop_collects [where P = ?P], rule get, assumption+, rule mono, assumption+,
          rule start, rule collected_Nil)
    then obtain fs i' where loop: "import_loop (GetImportFiles W n) [] (imports_of ls) ?i = Some (Inr fs, i')"
      "collected W R ?i fs i'" "set ?i \<subseteq> set i'"
      "\<forall>f \<in> set (imports_of ls). \<exists>q. ResourcePath W f = Inr q \<and> q \<in> set i'" by blast
    have succ: "imports_file W p q \<Longrightarrow> q \<in> set i'" for q
      using loop(4) ls by (auto simp: imports_file_def)
    have "collected W R i (fs @ [p]) i'"
      using loop(2,3) succ False Suc.prems(2) by (auto simp: collected_def)
    moreover have "GetImportFiles W (Suc n) f i = Some (Inr (fs @ [p]), i')"
      using Suc.prems(1) False ls loop(1) by (simp add: lift_def py_defs)
    ultimately show ?thesis using loop(3) by auto
  qed
qed


lemma collected_reachable:
  assumes "collected W R [] fs i'" and "p \<in> set i'" and "R = {q. (imports_file W)\<^sup>*\<^sup>* p q}"
  shows "set fs = R"
proof
  show "set fs \<subseteq> R" using assms(1) by (simp add: collected_def)
  have "q \<in> set fs" if "(imports_file W)\<^sup>*\<^sup>* p q" for q
    using that
  proof (induction rule: rtranclp_induct)
    case base
    then show ?case using assms(1,2) by (simp add: collected_def)
  next
    case (step q r)
    then show ?case using assms(1) by (auto simp: collected_def)
  qed
  with assms(3) show "R \<subseteq> set fs" by auto
qed

text \<open>Circular imports end: if the file and everything that it imports, directly or not, can be
  read, _GetImportFiles returns, the recursion is no deeper than there are files, every file is in
  the result exactly once, nothing else is, and the importing file comes last.\<close>

lemma GetImportFiles_reachable:
  assumes "ResourcePath W f = Inr p" and "R = {q. (imports_file W)\<^sup>*\<^sup>* p q}" and "finite R"
    and "readable W R" and "card R < n"
  shows "\<exists>fs i. GetImportFiles W n f [] = Some (Inr (fs @ [p]), i) \<and> distinct (fs @ [p])
    \<and> set (fs @ [p]) = R"
proof -
  have "p \<in> R" using assms(2) by simp
  with GetImportFiles_collects [OF assms(3,4,1), of "[]" n] assms(5)
  obtain fs i where fs: "GetImportFiles W n f [] = Some (Inr fs, i)" "collected W R [] fs i" "p \<in> set i"
    "fs \<noteq> []" "last fs = p" by auto
  have "fs = butlast fs @ [p]" using fs(4,5) by (metis append_butlast_last_id)
  moreover have "distinct fs" using fs(2) by (simp add: collected_def)
  moreover have "set fs = R" by (rule collected_reachable [OF fs(2,3) assms(2)])
  ultimately show ?thesis using fs(1) by metis
qed

text \<open>Two files that import each other.\<close>

definition circular :: config_files where
  "circular = \<lparr>ResourcePath = Inr,
     file_lines = (\<lambda>p. Inr [if p = ''a'' then ''#import b'' else ''#import a'', ''x: 1''])\<rparr>"

lemma circular_imports: "imports_file circular p q \<longleftrightarrow> q = (if p = ''a'' then ''b'' else ''a'')"
  by (auto simp: imports_file_def circular_def import_name_def)

lemma circular_reachable: "{q. (imports_file circular)\<^sup>*\<^sup>* ''a'' q} = {''a'', ''b''}"
proof -
  have "q = ''a'' \<or> q = ''b''" if "(imports_file circular)\<^sup>*\<^sup>* ''a'' q" for q
    using that by (induction rule: rtranclp_induct) (auto simp: circular_imports split: if_splits)
  moreover have "(imports_file circular)\<^sup>*\<^sup>* ''a'' ''b''" by (simp add: circular_imports r_into_rtranclp)
  ultimately show ?thesis by auto
qed

theorem GetImportFiles_reachable_witness:
  "\<exists>fs i. GetImportFiles circular 3 ''a'' [] = Some (Inr (fs @ [''a'']), i) \<and> set (fs @ [''a'']) = {''a'', ''b''}"
proof -
  have path: "ResourcePath circular ''a'' = Inr ''a''" by (simp add: circular_def)
  have read: "readable circular {''a'', ''b''}"
    by (auto simp: readable_def circular_def import_name_def)
  have "\<exists>fs i. GetImportFiles circular 3 ''a'' [] = Some (Inr (fs @ [''a'']), i) \<and> distinct (fs @ [''a''])
      \<and> set (fs @ [''a'']) = {''a'', ''b''}"
    by (rule GetImportFiles_reachable [OF path circular_reachable [symmetric] _ read]) simp_all
  then show ?thesis by blast
qed

text \<open>Reading the concatenated files gives the concatenation of their texts: what is read and what is
  left make up the text, and nothing is read only at the end.\<close>

lemma read_files_text:
  "0 < n \<Longrightarrow> read_files n fs = (data, rest) \<Longrightarrow> data @ concat rest = concat fs
     \<and> (data = [] \<longrightarrow> concat fs = []) \<and> length data \<le> n"
  by (induction n fs arbitrary: data rest rule: read_files.induct) (auto split: if_splits)

end
