(* ===== verification/BenchmarkSets.thy ===== *)
theory BenchmarkSets
  imports Configs "HOL-Library.List_Lexorder" "HOL-Library.Char_ord"
begin

text \<open>
  \<open>perfkitbenchmarker/benchmark_sets.py\<close> and \<open>perfkitbenchmarker/os_types.py\<close>: the benchmarks to
  run, from the flags and the configuration.

  The modules of the benchmarks and packages are parameters, and so is the evaluation of the
  expression of a flag matrix filter.  The configuration is loaded afresh for every call and what is
  removed from it is not seen again.  A list of pairs in place of a dictionary of flags, which
  Python's \<open>update\<close> would accept, counts as an error here.
\<close>

section \<open>Operating systems\<close>

definition CONTAINER_OS_TYPES :: "string list" where
  "CONTAINER_OS_TYPES = [
     ''core_os'', ''cos'', ''cos129'', ''cos125'', ''cos121'', ''cos117'', ''cos_dev'']"

definition DEBIAN_OS_TYPES :: "string list" where
  "DEBIAN_OS_TYPES = [
     ''debian11'', ''debian11_backports'', ''debian12'', ''debian13'', ''ubuntu2004'',
     ''ubuntu2004_efa'', ''ubuntu2004_dl'', ''ubuntu2204'', ''ubuntu2404'', ''ubuntu2604'']"

definition RED_HAT_OS_TYPES :: "string list" where
  "RED_HAT_OS_TYPES = [
     ''alma_linux8'', ''alma_linux9'', ''alma_linux10'', ''amazonlinux2'', ''amazonlinux2_dl'',
     ''amazonlinux2023'', ''amazon_neuron'', ''centos_stream9'', ''fedora36'', ''fedora37'',
     ''ol8'', ''ol9'', ''rhel8'', ''rhel9'', ''rhel10'', ''rocky_linux8'',
     ''rocky_linux8_optimized'', ''rocky_linux9'', ''rocky_linux9_optimized'', ''rocky_linux10'',
     ''rocky_linux10_optimized'']"

definition WINDOWS_CORE_OS_TYPES :: "string list" where
  "WINDOWS_CORE_OS_TYPES = [
     ''windows2016_core'', ''windows2019_core'', ''windows2022_core'', ''windows2025_core'']"

definition WINDOWS_DESKOP_OS_TYPES :: "string list" where
  "WINDOWS_DESKOP_OS_TYPES = [
     ''windows2016_desktop'', ''windows2019_desktop'', ''windows2022_desktop'',
     ''windows2025_desktop'']"

definition WINDOWS_SQLSERVER_OS_TYPES :: "string list" where
  "WINDOWS_SQLSERVER_OS_TYPES = [
     ''windows2019_desktop_sqlserver_2017_standard'',
     ''windows2019_desktop_sqlserver_2017_enterprise'',
     ''windows2019_desktop_sqlserver_2019_standard'',
     ''windows2019_desktop_sqlserver_2019_enterprise'',
     ''windows2019_desktop_sqlserver_2025_standard'',
     ''windows2019_desktop_sqlserver_2025_enterprise'',
     ''windows2022_desktop_sqlserver_2019_standard'',
     ''windows2022_desktop_sqlserver_2019_enterprise'',
     ''windows2022_desktop_sqlserver_2022_standard'',
     ''windows2022_desktop_sqlserver_2022_enterprise'',
     ''windows2022_desktop_sqlserver_2025_standard'',
     ''windows2022_desktop_sqlserver_2025_enterprise'',
     ''windows2025_desktop_sqlserver_2019_standard'',
     ''windows2025_desktop_sqlserver_2019_enterprise'',
     ''windows2025_desktop_sqlserver_2022_standard'',
     ''windows2025_desktop_sqlserver_2022_enterprise'',
     ''windows2025_desktop_sqlserver_2025_standard'',
     ''windows2025_desktop_sqlserver_2025_enterprise'']"

definition LINUX_OS_TYPES :: "string list" where
  "LINUX_OS_TYPES = [''clear''] @ CONTAINER_OS_TYPES @ DEBIAN_OS_TYPES @ RED_HAT_OS_TYPES"

definition WINDOWS_OS_TYPES :: "string list" where
  "WINDOWS_OS_TYPES = WINDOWS_CORE_OS_TYPES @ WINDOWS_DESKOP_OS_TYPES @ WINDOWS_SQLSERVER_OS_TYPES"

text \<open>\<open>os_types.ALL\<close>, the values of \<open>--os_type\<close>\<close>

definition ALL_OS_TYPES :: "string list" where
  "ALL_OS_TYPES = LINUX_OS_TYPES @ WINDOWS_OS_TYPES"

lemmas os_types_defs = CONTAINER_OS_TYPES_def DEBIAN_OS_TYPES_def RED_HAT_OS_TYPES_def
  WINDOWS_CORE_OS_TYPES_def WINDOWS_DESKOP_OS_TYPES_def WINDOWS_SQLSERVER_OS_TYPES_def
  LINUX_OS_TYPES_def WINDOWS_OS_TYPES_def ALL_OS_TYPES_def

datatype os_type = Linux | Windows | Container

definition GetBenchmarkOsType :: "os_type option \<Rightarrow> string \<Rightarrow> os_type" where
  "GetBenchmarkOsType benchmark_os_type os_type = (case benchmark_os_type of
     Some t \<Rightarrow> t
   | None \<Rightarrow> if os_type \<in> set CONTAINER_OS_TYPES then Container
       else if os_type \<in> set WINDOWS_OS_TYPES then Windows else Linux)"

section \<open>Sets of benchmarks\<close>

definition BENCHMARK_SETS :: "(string \<times> string list) list" where
  "BENCHMARK_SETS = [
     (''standard_set'', [''aerospike'', ''block_storage_workload'', ''cassandra_stress'',
       ''cluster_boot'', ''copy_throughput'', ''coremark'', ''fio'', ''hpcc'', ''iperf'',
       ''mesh_network'', ''mongodb_ycsb'', ''netperf'', ''object_storage_service'', ''ping'',
       ''redis_memtier'', ''speccpu2006'', ''sysbench'', ''unixbench'']),
     (''combo_set'', [''netperf_hammerdbcli'']),
     (''arm_set'', [''standard_set'']),
     (''alicloud_set'', [''standard_set'']),
     (''broadcom_set'', [''standard_set'']),
     (''canonical_set'', [''standard_set'']),
     (''centurylinkcloud_set'', [''cassandra_stress'', ''copy_throughput'', ''hpcc'', ''iperf'',
       ''mesh_network'', ''mongodb_ycsb'', ''ping'', ''redis_memtier'', ''sysbench'',
       ''unixbench'']),
     (''cisco_set'', [''standard_set'']),
     (''cloudharmony_set'', [''speccpu2006'', ''unixbench'']),
     (''cloudspectator_set'', [''standard_set'']),
     (''google_set'', [''bidirectional_network'', ''block_storage_workload'', ''cassandra_stress'',
       ''cassandra_ycsb'', ''cluster_boot'', ''copy_throughput'', ''fio'', ''gpu_pcie_bandwidth'',
       ''horovod'', ''hpcc'', ''hpcg'', ''inception3'', ''iperf'', ''mesh_network'', ''mlperf'',
       ''mlperf_multiworkers'', ''mnist'', ''mongodb_ycsb'', ''multichase'', ''mxnet'', ''netperf'',
       ''netperf_hammerdbcli'', ''object_storage_service'', ''oldisim'', ''pgbench'', ''ping'',
       ''redis_ycsb'', ''resnet'', ''stencil2d'', ''speccpu2006'', ''sysbench'', ''tensorflow'',
       ''tensorflow_serving'', ''tomcat_wrk'', ''unixbench'']),
     (''intel_set'', [''fio'', ''iperf'', ''unixbench'', ''hpcc'', ''cluster_boot'',
       ''redis_memtier'', ''cassandra_stress'', ''object_storage_service'', ''sysbench'']),
     (''kubernetes_set'', [''block_storage_workload'', ''cassandra_ycsb'', ''cassandra_stress'',
       ''cluster_boot'', ''fio'', ''iperf'', ''mesh_network'', ''mongodb_ycsb'', ''netperf'',
       ''redis_memtier'', ''sysbench'']),
     (''mellanox_set'', [''standard_set'']),
     (''microsoft_set'', [''standard_set'']),
     (''qualcomm_technologies_set'', [''standard_set'']),
     (''rackspace_set'', [''aerospike'', ''block_storage_workload'', ''cassandra_stress'',
       ''cluster_boot'', ''copy_throughput'', ''fio'', ''hpcc'', ''iperf'', ''mesh_network'',
       ''mongodb_ycsb'', ''netperf'', ''oldisim'', ''ping'', ''redis_memtier'', ''silo'',
       ''sysbench'', ''unixbench'']),
     (''red_hat_set'', [''standard_set'']),
     (''tradeworx_set'', [''standard_set'']),
     (''thesys_technologies_set'', [''standard_set'']),
     (''stanford_set'', [''standard_set'', ''oldisim'']),
     (''mit_set'', [''standard_set'', ''silo'']),
     (''cloudsuite_set'', [''cloudsuite_data_analytics'', ''cloudsuite_data_caching'',
       ''cloudsuite_graph_analytics'', ''cloudsuite_in_memory_analytics'',
       ''cloudsuite_media_streaming'', ''cloudsuite_web_search'', ''cloudsuite_web_serving''])]"

text \<open>
  The loop over the queue of \<open>GetBenchmarksFromFlags\<close>: the queue, \<open>benchmark_set\<close> and
  \<open>benchmark_names\<close>.  \<open>extendleft\<close> puts the benchmarks of a set in front, the last one first.
\<close>

function expand_queue ::
  "(string \<times> string list) list \<Rightarrow> string list \<Rightarrow> string set \<Rightarrow> string list \<Rightarrow> string list" where
  "expand_queue sets [] seen names = names"
| "expand_queue sets (b # queue) seen names =
     (if b \<in> seen then expand_queue sets queue seen names
      else (case map_of sets b of
          Some bs \<Rightarrow> expand_queue sets (rev bs @ queue) (insert b seen) names
        | None \<Rightarrow> expand_queue sets queue (insert b seen) (names @ [b])))"
  by pat_completeness auto

lemma unseen_sets:
  assumes "map_of sets b = Some bs" and "b \<notin> seen"
  shows "card (fst ` set sets - insert b seen) < card (fst ` set sets - seen)"
proof (rule psubset_card_mono)
  have "b \<in> fst ` set sets" using map_of_SomeD [OF assms(1)] by (auto intro: rev_image_eqI)
  with assms(2) show "fst ` set sets - insert b seen \<subset> fst ` set sets - seen" by auto
qed simp

lemma fewer_unseen: "card (fst ` set sets - insert b seen) \<le> card (fst ` set sets - seen)"
  by (rule card_mono) auto

termination expand_queue
proof (relation "measures [\<lambda>(sets, q, seen, names). card (fst ` set sets - seen),
    \<lambda>(sets, q, seen, names). length q]", goal_cases)
  case (3 sets b queue seen names)
  then show ?case using fewer_unseen [of sets b seen] by (auto simp: le_less)
next
  case (4 sets b queue seen names bs)
  from unseen_sets [OF 4(2,1)] show ?case by simp
qed simp_all

definition benchmark_names :: "(string \<times> string list) list \<Rightarrow> string list \<Rightarrow> string list" where
  "benchmark_names sets benchmarks = expand_queue sets benchmarks {} []"


section \<open>Modules\<close>

text \<open>
  The flags that matter here, the tables of modules by name, and the evaluation of a filter with the
  flags of a configuration as its variables.
\<close>

record 'm benchmark_env =
  benchmarks_flag :: "string list"
  benchmarks_given :: bool
  benchmark_os_type_flag :: "os_type option"
  os_type_flag :: string
  flag_matrix :: "string option"
  flag_zip :: "string option"
  num_benchmark_copies :: int
  linux_benchmarks :: "(string \<times> 'm) list"
  windows_benchmarks :: "(string \<times> 'm) list"
  linux_packages :: "(string \<times> 'm) list"
  windows_packages :: "(string \<times> 'm) list"
  eval_filter :: "pyval \<Rightarrow> metadata_dict \<Rightarrow> exn + bool"

definition BenchmarkOsType :: "'m benchmark_env \<Rightarrow> os_type" where
  "BenchmarkOsType E = GetBenchmarkOsType (benchmark_os_type_flag E) (os_type_flag E)"

text \<open>\<open>d[k]\<close>\<close>

definition index_dict :: "(string \<times> 'v) list \<Rightarrow> string \<Rightarrow> exn + 'v" where
  "index_dict d k = (case map_of d k of None \<Rightarrow> Inl (exn (Builtin KeyError) k) | Some v \<Rightarrow> Inr v)"

definition GetValidBenchmarks :: "'m benchmark_env \<Rightarrow> exn + (string \<times> 'm) list" where
  "GetValidBenchmarks E = (case BenchmarkOsType E of
     Container \<Rightarrow> mapE (\<lambda>k. bindE (index_dict (linux_benchmarks E) k) (\<lambda>v. Inr (k, v)))
       [''cluster_boot'', ''provision_and_scale_managed_vm_group'']
   | Windows \<Rightarrow> Inr (windows_benchmarks E)
   | Linux \<Rightarrow> Inr (linux_benchmarks E))"

definition GetValidPackages :: "'m benchmark_env \<Rightarrow> (string \<times> 'm) list" where
  "GetValidPackages E = (case BenchmarkOsType E of
     Container \<Rightarrow> [] | Windows \<Rightarrow> windows_packages E | Linux \<Rightarrow> linux_packages E)"

definition BenchmarkModule :: "'m benchmark_env \<Rightarrow> string \<Rightarrow> exn + 'm option" where
  "BenchmarkModule E benchmark_name = bindE (GetValidBenchmarks E) (\<lambda>d. Inr (map_of d benchmark_name))"

definition PackageModule :: "'m benchmark_env \<Rightarrow> string \<Rightarrow> 'm option" where
  "PackageModule E package_name = map_of (GetValidPackages E) package_name"

definition invalid_benchmark :: "string \<Rightarrow> exn" where
  "invalid_benchmark name = exn (Builtin ValueError) (''However, benchmark of name '' @ name
     @ '' is not found within the list of benchmarks. '')"

section \<open>Dictionaries of a configuration\<close>

definition get_or :: "metadata_dict \<Rightarrow> string \<Rightarrow> pyval \<Rightarrow> pyval" where
  "get_or d k v0 = (case map_of d k of None \<Rightarrow> v0 | Some v \<Rightarrow> v)"

text \<open>A value used as a dictionary: \<open>e\<close> is raised if it is none.\<close>

definition dict_of :: "exn \<Rightarrow> pyval \<Rightarrow> exn + metadata_dict" where
  "dict_of e v = (case v of VDict d \<Rightarrow> Inr d | _ \<Rightarrow> Inl e)"

definition type_error :: "string \<Rightarrow> exn" where
  "type_error msg = exn (Builtin TypeError) msg"

text \<open>\<open>v in d\<close> for a dictionary\<close>

definition has_key :: "pyval \<Rightarrow> metadata_dict \<Rightarrow> exn + bool" where
  "has_key v d = (case v of
     VStr s \<Rightarrow> Inr (map_of d s \<noteq> None)
   | VList _ \<Rightarrow> Inl (type_error ''unhashable type'')
   | VDict _ \<Rightarrow> Inl (type_error ''unhashable type'')
   | _ \<Rightarrow> Inr False)"

definition dict_get :: "metadata_dict \<Rightarrow> pyval \<Rightarrow> pyval \<Rightarrow> exn + pyval" where
  "dict_get d v v0 = bindE (has_key v d) (\<lambda>_. Inr (case v of VStr s \<Rightarrow> get_or d s v0 | _ \<Rightarrow> v0))"

text \<open>\<open>for x in v\<close>\<close>

definition py_iter :: "pyval \<Rightarrow> exn + pyval list" where
  "py_iter v = (case v of
     VList xs \<Rightarrow> Inr xs
   | VStr s \<Rightarrow> Inr (map (\<lambda>c. VStr [c]) s)
   | VDict d \<Rightarrow> Inr (map (VStr \<circ> fst) d)
   | _ \<Rightarrow> Inl (type_error ''not iterable''))"

text \<open>\<open>_GetBenchmarksFromUserConfig\<close>; \<open>popitem\<close> takes the last item.\<close>

definition user_entry :: "(string \<times> 'm) list \<Rightarrow> pyval \<Rightarrow> exn + 'm \<times> pyval" where
  "user_entry valid item = bindE (dict_of (no_attribute ''popitem'') item) (\<lambda>d.
     if d = [] then Inl (exn (Builtin KeyError) ''popitem(): dictionary is empty'')
     else (case last d of (name, config) \<Rightarrow> (case map_of valid name of
         None \<Rightarrow> Inl (invalid_benchmark name) | Some m \<Rightarrow> Inr (m, config))))"

definition GetBenchmarksFromUserConfig ::
  "'m benchmark_env \<Rightarrow> metadata_dict \<Rightarrow> exn + ('m \<times> pyval) list" where
  "GetBenchmarksFromUserConfig E config =
     bindE (GetValidBenchmarks E) (\<lambda>valid.
     bindE (py_iter (get_or config ''benchmarks'' (VList []))) (\<lambda>es. mapE (user_entry valid) es))"

section \<open>Flag matrices\<close>

definition FlagMatrixNotFound :: "string \<Rightarrow> exn" where
  "FlagMatrixNotFound what = exn (Subclass (Builtin Exception) what None) ''not found''"

definition check_def :: "metadata_dict \<Rightarrow> pyval \<Rightarrow> string \<Rightarrow> string \<Rightarrow> exn + unit" where
  "check_def benchmark_config name defs what = (if \<not> py_true name then Inr ()
     else bindE (dict_of (type_error ''not iterable'') (get_or benchmark_config defs (VDict []))) (\<lambda>d.
          bindE (has_key name d) (\<lambda>b. if b then Inr () else Inl (FlagMatrixNotFound what))))"

definition AssertFlagMatrixAndZipDefsExist :: "metadata_dict \<Rightarrow> pyval \<Rightarrow> pyval \<Rightarrow> exn + unit" where
  "AssertFlagMatrixAndZipDefsExist benchmark_config flag_matrix_name flag_zip_name =
     bindE (check_def benchmark_config flag_matrix_name ''flag_matrix_defs'' ''FlagMatrixNotFoundException'')
       (\<lambda>_. check_def benchmark_config flag_zip_name ''flag_zip_defs'' ''FlagZipNotFoundException'')"

definition AssertZipAxesHaveSameLength :: "'a list list \<Rightarrow> exn + unit" where
  "AssertZipAxesHaveSameLength axes =
     (if list_all (\<lambda>a. length a = length (hd axes)) (tl axes) then Inr ()
      else Inl (exn (Builtin ValueError) ''flag_zip axes must all be the same length''))"

text \<open>\<open>_GetConfigForAxis\<close>; \<open>global_flags\<close> is \<open>configs.GetConfigFlags()\<close>.\<close>

definition GetConfigForAxis ::
  "pyval \<Rightarrow> metadata_dict \<Rightarrow> metadata_dict list \<Rightarrow> exn + metadata_dict" where
  "GetConfigForAxis global_flags benchmark_config flag_config =
     bindE (dict_of (no_attribute ''update'') global_flags) (\<lambda>g.
     bindE (dict_of (type_error ''not iterable'') (get_or benchmark_config ''flags'' (VDict []))) (\<lambda>l.
       Inr (dict_set benchmark_config ''flags''
         (VDict (foldl dict_update (dict_update g l) flag_config)))))"

definition flags_of :: "metadata_dict \<Rightarrow> metadata_dict" where
  "flags_of config = (case map_of config ''flags'' of Some (VDict d) \<Rightarrow> d | _ \<Rightarrow> [])"

text \<open>\<open>[{flag: v} for v in values]\<close>\<close>

definition axis :: "string \<times> pyval \<Rightarrow> exn + metadata_dict list" where
  "axis fv = bindE (py_iter (snd fv)) (\<lambda>vs. Inr (map (\<lambda>v. [(fst fv, v)]) vs))"

text \<open>\<open>zip(*axes)\<close> for axes of one length\<close>

definition zip_all :: "'a list list \<Rightarrow> 'a list list" where
  "zip_all axes = map (\<lambda>i. map (\<lambda>a. a ! i) axes) [0..<length (hd axes)]"

definition zipped_axis :: "pyval \<Rightarrow> metadata_dict \<Rightarrow> pyval \<Rightarrow> exn + metadata_dict list list" where
  "zipped_axis global_flags benchmark_config zip_def =
     (if \<not> py_true zip_def then Inr []
      else bindE (dict_of (no_attribute ''items'') zip_def) (\<lambda>d.
           bindE (mapE axis d) (\<lambda>axes.
           bindE (AssertZipAxesHaveSameLength axes) (\<lambda>_.
           bindE (mapE (GetConfigForAxis global_flags benchmark_config) (zip_all axes)) (\<lambda>configs.
             Inr [map flags_of configs])))))"

definition crossed_axes ::
  "pyval \<Rightarrow> metadata_dict \<Rightarrow> pyval \<Rightarrow> pyval \<Rightarrow> exn + metadata_dict list list" where
  "crossed_axes global_flags benchmark_config zip_def matrix_def =
     bindE (zipped_axis global_flags benchmark_config zip_def) (\<lambda>zipped.
     bindE (dict_of (no_attribute ''items'') matrix_def) (\<lambda>d.
     bindE (mapE axis (sort_key fst d)) (\<lambda>axes. Inr (zipped @ axes))))"

text \<open>The loop over the product of the axes, with the copies of each configuration.\<close>

definition axis_config ::
  "'m benchmark_env \<Rightarrow> pyval \<Rightarrow> metadata_dict \<Rightarrow> 'm \<Rightarrow> pyval \<Rightarrow> metadata_dict list
     \<Rightarrow> exn + ('m \<times> metadata_dict) list" where
  "axis_config E global_flags benchmark_config m matrix_filter flag_config =
     bindE (GetConfigForAxis global_flags benchmark_config flag_config) (\<lambda>config.
     bindE (if py_true matrix_filter then eval_filter E matrix_filter (flags_of config) else Inr True)
       (\<lambda>b. Inr (if b then replicate (nat (num_benchmark_copies E)) (m, config) else [])))"

definition axis_configs ::
  "'m benchmark_env \<Rightarrow> pyval \<Rightarrow> metadata_dict \<Rightarrow> 'm \<Rightarrow> pyval \<Rightarrow> metadata_dict list list
     \<Rightarrow> exn + ('m \<times> metadata_dict) list" where
  "axis_configs E global_flags benchmark_config m matrix_filter axes =
     bindE (mapE (axis_config E global_flags benchmark_config m matrix_filter) (product_lists axes))
       (\<lambda>cs. Inr (concat cs))"


section \<open>The benchmarks to run\<close>

definition dict_pop :: "metadata_dict \<Rightarrow> string \<Rightarrow> metadata_dict" where
  "dict_pop d k = filter (\<lambda>(k', _). k' \<noteq> k) d"

text \<open>\<open>FLAGS.flag_matrix or benchmark_config.get('flag_matrix', None)\<close>\<close>

definition def_name :: "string option \<Rightarrow> metadata_dict \<Rightarrow> string \<Rightarrow> pyval" where
  "def_name flag benchmark_config k = (case flag of
     Some s \<Rightarrow> if s \<noteq> [] then VStr s else get_or benchmark_config k VNone
   | None \<Rightarrow> get_or benchmark_config k VNone)"

text \<open>\<open>benchmark_config.pop(k, {}).get(name, {})\<close>; the keys are removed together, below.\<close>

definition pop_def :: "metadata_dict \<Rightarrow> string \<Rightarrow> pyval \<Rightarrow> exn + pyval" where
  "pop_def benchmark_config k name =
     bindE (dict_of (no_attribute ''get'') (get_or benchmark_config k (VDict []))) (\<lambda>d. dict_get d name (VDict []))"

definition module_of :: "(string \<times> 'm) list \<Rightarrow> pyval \<Rightarrow> exn + 'm option" where
  "module_of valid name = bindE (has_key name []) (\<lambda>_.
     Inr (case name of VStr s \<Rightarrow> map_of valid s | _ \<Rightarrow> None))"

text \<open>\<open>'%s' % name\<close>, for names that are no floats or collections\<close>

definition name_text :: "pyval \<Rightarrow> string" where
  "name_text name = (case name of VStr s \<Rightarrow> s | VBool b \<Rightarrow> if b then ''True'' else ''False''
     | VInt n \<Rightarrow> str_of_int n | _ \<Rightarrow> ''None'')"

definition one_benchmark ::
  "'m benchmark_env \<Rightarrow> pyval \<Rightarrow> metadata_dict \<Rightarrow> (string \<times> 'm) list \<Rightarrow> string
     \<Rightarrow> exn + ('m \<times> metadata_dict) list" where
  "one_benchmark E global_flags user valid benchmark_name =
     bindE (dict_of (no_attribute ''get'') (get_or user benchmark_name (VDict []))) (\<lambda>benchmark_config.
     bindE (module_of valid (get_or benchmark_config ''name'' (VStr benchmark_name))) (\<lambda>found.
       case found of None \<Rightarrow> Inl (invalid_benchmark (name_text (get_or benchmark_config ''name'' (VStr benchmark_name))))
       | Some m \<Rightarrow>
         let matrix_name = def_name (flag_matrix E) benchmark_config ''flag_matrix'';
             zip_name = def_name (flag_zip E) benchmark_config ''flag_zip'';
             config = foldl dict_pop benchmark_config
               [''flag_matrix'', ''flag_zip'', ''flag_matrix_defs'', ''flag_matrix_filters'', ''flag_zip_defs'']
         in bindE (AssertFlagMatrixAndZipDefsExist benchmark_config matrix_name zip_name) (\<lambda>_.
            bindE (pop_def benchmark_config ''flag_matrix_defs'' matrix_name) (\<lambda>matrix_def.
            bindE (pop_def benchmark_config ''flag_matrix_filters'' matrix_name) (\<lambda>matrix_filter.
            bindE (pop_def benchmark_config ''flag_zip_defs'' zip_name) (\<lambda>zip_def.
            bindE (crossed_axes global_flags config zip_def matrix_def) (\<lambda>axes.
              axis_configs E global_flags config m matrix_filter axes)))))))"

text \<open>\<open>GetBenchmarksFromFlags\<close> for a loaded configuration\<close>

definition benchmarks_from_flags ::
  "'m benchmark_env \<Rightarrow> metadata_dict \<Rightarrow> exn + ('m \<times> pyval) list" where
  "benchmarks_from_flags E user =
     bindE (GetBenchmarksFromUserConfig E user) (\<lambda>from_user.
       if from_user \<noteq> [] \<and> \<not> benchmarks_given E then Inr from_user
       else bindE (GetValidBenchmarks E) (\<lambda>valid.
            bindE (mapE (one_benchmark E (get_or user ''flags'' (VDict [])) user valid)
                (benchmark_names BENCHMARK_SETS (benchmarks_flag E)))
              (\<lambda>cs. Inr (map (\<lambda>(m, c). (m, VDict c)) (concat cs)))))"

definition GetBenchmarksFromFlags ::
  "'m benchmark_env \<Rightarrow> config_env \<Rightarrow> (exn + ('m \<times> pyval) list) option" where
  "GetBenchmarksFromFlags E C = (case GetDefaultAndUserConfig C of
     None \<Rightarrow> None | Some r \<Rightarrow> Some (bindE r (benchmarks_from_flags E)))"

section \<open>Which benchmarks are run\<close>

definition member_of :: "(string \<times> string list) list \<Rightarrow> string \<Rightarrow> string \<Rightarrow> bool" where
  "member_of sets a b = (\<exists>bs. map_of sets a = Some bs \<and> b \<in> set bs)"

text \<open>The benchmarks that are reached from some names, through sets of sets.\<close>

definition reached :: "(string \<times> string list) list \<Rightarrow> string set \<Rightarrow> string set" where
  "reached sets A = {b. \<exists>a \<in> A. (member_of sets)\<^sup>*\<^sup>* a b}"

lemma reached_closed:
  assumes "\<And>a b. a \<in> A \<Longrightarrow> member_of sets a b \<Longrightarrow> b \<in> A"
  shows "reached sets A = A"
proof -
  have "b \<in> A" if "(member_of sets)\<^sup>*\<^sup>* a b" "a \<in> A" for a b
    using that by (induction rule: rtranclp_induct) (auto intro: assms)
  then show ?thesis by (auto simp: reached_def)
qed

lemma reached_member:
  assumes "map_of sets a = Some bs"
  shows "reached sets (insert a (set bs \<union> A)) = reached sets (insert a A)"
proof -
  have "(member_of sets)\<^sup>*\<^sup>* a b" if "b \<in> set bs" for b
    using assms that by (auto simp: member_of_def)
  then show ?thesis by (auto simp: reached_def intro: rtranclp_trans)
qed

lemma expand_queue_reached:
  "distinct names \<Longrightarrow> set names = {b \<in> seen. map_of sets b = None}
   \<Longrightarrow> (\<And>a b. a \<in> seen \<Longrightarrow> member_of sets a b \<Longrightarrow> b \<in> seen \<union> set q)
   \<Longrightarrow> distinct (expand_queue sets q seen names)
     \<and> set (expand_queue sets q seen names) = {b \<in> reached sets (seen \<union> set q). map_of sets b = None}"
proof (induction sets q seen names rule: expand_queue.induct)
  case (1 sets seen names)
  then show ?case using reached_closed [of seen sets] by auto
next
  case (2 sets b q seen names)
  show ?case
  proof (cases "b \<in> seen")
    case True
    then have same: "seen \<union> set (b # q) = seen \<union> set q" by auto
    have "\<And>a c. a \<in> seen \<Longrightarrow> member_of sets a c \<Longrightarrow> c \<in> seen \<union> set q"
      using 2(6) unfolding same .
    from 2(1) [OF True 2(4,5) this] True show ?thesis unfolding same by simp
  next
    case unseen: False
    show ?thesis
    proof (cases "map_of sets b")
      case None
      have "set (names @ [b]) = {b' \<in> insert b seen. map_of sets b' = None}"
        using 2(5) None by auto
      moreover have "\<And>a c. a \<in> insert b seen \<Longrightarrow> member_of sets a c \<Longrightarrow> c \<in> insert b seen \<union> set q"
        using 2(6) None by (auto simp: member_of_def)
      moreover have "distinct (names @ [b])" using 2(4,5) unseen by auto
      ultimately show ?thesis using 2(2) [OF unseen None] unseen None by simp
    next
      case (Some bs)
      have "set names = {b' \<in> insert b seen. map_of sets b' = None}"
        using 2(5) Some by auto
      moreover have "\<And>a c. a \<in> insert b seen \<Longrightarrow> member_of sets a c
          \<Longrightarrow> c \<in> insert b seen \<union> set (rev bs @ q)"
        using 2(6) Some by (auto simp: member_of_def)
      ultimately have "distinct (expand_queue sets (rev bs @ q) (insert b seen) names)"
        and "set (expand_queue sets (rev bs @ q) (insert b seen) names)
          = {b' \<in> reached sets (insert b seen \<union> set (rev bs @ q)). map_of sets b' = None}"
        using 2(3) [OF unseen Some 2(4)] by blast+
      moreover have "insert b seen \<union> set (rev bs @ q) = insert b (set bs \<union> (seen \<union> set q))" by auto
      ultimately show ?thesis using unseen Some reached_member [OF Some, of "seen \<union> set q"] by simp
    qed
  qed
qed

text \<open>C13: The benchmarks of a run: from any sets and benchmarks on the command line, and any table of
  sets, even one in which sets contain each other, exactly the benchmarks that these stand for are
  run, through sets of sets, and each of them once.\<close>

theorem benchmark_names_reached:
  "distinct (benchmark_names sets benchmarks)
   \<and> set (benchmark_names sets benchmarks) = {b \<in> reached sets (set benchmarks). map_of sets b = None}"
  unfolding benchmark_names_def using expand_queue_reached [of "[]" "{}" sets benchmarks] by simp

section \<open>The configurations of a flag matrix\<close>

text \<open>The last setting of a flag in a choice from the axes.\<close>

definition last_setting :: "metadata_dict list \<Rightarrow> string \<Rightarrow> pyval option" where
  "last_setting choice f =
     foldl (\<lambda>r s. case map_of (rev s) f of None \<Rightarrow> r | Some v \<Rightarrow> Some v) None choice"

lemma last_setting_simps [simp]:
  "last_setting [] f = None"
  "last_setting (choice @ [s]) f = (case map_of (rev s) f of None \<Rightarrow> last_setting choice f | Some v \<Rightarrow> Some v)"
  by (simp_all add: last_setting_def split: option.split)

lemma updates_at:
  "map_of (foldl dict_update d choice) f = (case last_setting choice f of
     Some v \<Rightarrow> Some v | None \<Rightarrow> map_of d f)"
  by (induction choice rule: rev_induct) (auto simp: map_add_def split: option.split)

lemma length_product_lists: "length (product_lists xss) = prod_list (map length xss)"
  by (induction xss) (simp_all add: length_concat comp_def sum_list_triv)

text \<open>C14: A flag matrix: without a filter, every choice of one value per axis gives the configured
  number of copies of one configuration, in the order of the product of the axes; a flag has the
  value of the choice (of the last axis that sets it), otherwise the benchmark's own, otherwise the
  global one, and the rest of the benchmark's configuration is unchanged.\<close>

theorem flag_matrix_configs:
  assumes "\<not> py_true matrix_filter" and "get_or config ''flags'' (VDict []) = VDict own"
  shows "\<exists>configure. axis_configs E (VDict global) config m matrix_filter axes = Inr (concat (map
      (\<lambda>choice. replicate (nat (num_benchmark_copies E)) (m, configure choice)) (product_lists axes)))
    \<and> length (product_lists axes) = prod_list (map length axes)
    \<and> (\<forall>choice f. map_of (flags_of (configure choice)) f = (case last_setting choice f of
          Some v \<Rightarrow> Some v
        | None \<Rightarrow> (case map_of (rev own) f of Some v \<Rightarrow> Some v | None \<Rightarrow> map_of global f)))
    \<and> (\<forall>choice. map_of (configure choice) =
          (map_of config)(''flags'' \<mapsto> VDict (flags_of (configure choice))))"
proof -
  define configure where "configure = (\<lambda>choice. dict_set config ''flags''
    (VDict (foldl dict_update (dict_update global own) choice)))"
  have flags: "flags_of (configure choice) = foldl dict_update (dict_update global own) choice" for choice
    by (simp add: flags_of_def configure_def)
  have "axis_config E (VDict global) config m matrix_filter choice
      = Inr (replicate (nat (num_benchmark_copies E)) (m, configure choice))" for choice
    using assms by (simp add: axis_config_def GetConfigForAxis_def dict_of_def configure_def)
  then have "axis_configs E (VDict global) config m matrix_filter axes = Inr (concat (map
      (\<lambda>choice. replicate (nat (num_benchmark_copies E)) (m, configure choice)) (product_lists axes)))"
    by (simp add: axis_configs_def mapE_total)
  moreover have "map_of (flags_of (configure choice)) f = (case last_setting choice f of
      Some v \<Rightarrow> Some v
    | None \<Rightarrow> (case map_of (rev own) f of Some v \<Rightarrow> Some v | None \<Rightarrow> map_of global f))" for choice f
    unfolding flags updates_at by (auto simp: map_add_def split: option.split)
  moreover have "map_of (configure choice) = (map_of config)(''flags'' \<mapsto> VDict (flags_of (configure choice)))"
    for choice unfolding flags by (simp add: configure_def)
  ultimately show ?thesis using length_product_lists by blast
qed

definition two_copies :: "nat benchmark_env" where
  "two_copies = \<lparr>benchmarks_flag = [], benchmarks_given = True, benchmark_os_type_flag = None,
     os_type_flag = ''debian12'', flag_matrix = None, flag_zip = None, num_benchmark_copies = 2,
     linux_benchmarks = [(''iperf'', 0)], windows_benchmarks = [], linux_packages = [],
     windows_packages = [], eval_filter = (\<lambda>_ _. Inr True)\<rparr>"

theorem flag_matrix_configs_witness:
  "\<exists>cs. axis_configs two_copies (VDict [(''x'', VInt 0)]) [] 0 (VDict [])
      [[[(''x'', VInt 1)], [(''x'', VInt 2)]], [[(''y'', VInt 3)]]] = Inr cs
    \<and> length cs = 4 \<and> map_of (flags_of (snd (hd cs))) ''x'' = Some (VInt 1)"
proof -
  let ?axes = "[[[(''x'', VInt 1)], [(''x'', VInt 2)]], [[(''y'', VInt 3)]]]"
  have p: "\<not> py_true (VDict [])" and own: "get_or [] ''flags'' (VDict []) = VDict []"
    by (simp_all add: get_or_def)
  obtain configure where c: "axis_configs two_copies (VDict [(''x'', VInt 0)]) [] 0 (VDict []) ?axes
      = Inr (concat (map (\<lambda>choice. replicate (nat (num_benchmark_copies two_copies)) (0, configure choice))
          (product_lists ?axes)))"
    "\<forall>choice f. map_of (flags_of (configure choice)) f = (case last_setting choice f of
          Some v \<Rightarrow> Some v
        | None \<Rightarrow> (case map_of (rev []) f of Some v \<Rightarrow> Some v | None \<Rightarrow> map_of [(''x'', VInt 0)] f))"
    using flag_matrix_configs [OF p own, of two_copies "[(''x'', VInt 0)]" 0 ?axes] by blast
  have "nat (num_benchmark_copies two_copies) = Suc (Suc 0)" by (simp add: two_copies_def)
  then show ?thesis unfolding c(1) using c(2) by (simp add: last_setting_def)
qed

text \<open>\<open>--os_type\<close> does not offer the Debian 12 deep learning images that a class of virtual machines
  is there for.\<close>

lemma debian12_dl_not_offered: "''ubuntu2004_dl'' \<in> set ALL_OS_TYPES \<and> ''debian12_dl'' \<notin> set ALL_OS_TYPES"
  by (simp add: os_types_defs)

end
