(* ===== verification/Registry.thy ===== *)
theory Registry
  imports Configs "HOL-Library.List_Lexorder" "HOL-Library.Char_ord"
begin

text \<open>
  \<open>perfkitbenchmarker/configs/auto_registry.py\<close>: the registry of the subclasses of resources and
  specs, by the attributes that they are for.

  A class is a number; its name, its method resolution order and what its \<open>GetAttributes\<close> returns
  are fixed, its attributes are mutable state.  The registry is a dictionary from keys (the name of
  the type and the attributes in the order of their names) to classes.
\<close>

section \<open>Classes and their attributes\<close>

type_synonym cls = nat
type_synonym attrs = "(string \<times> pyval) list"
type_synonym registry_key = "string \<times> attrs"

record class_table =
  cls_name :: "cls \<Rightarrow> string"
  cls_mro :: "cls \<Rightarrow> cls list"
  GetAttributes :: "cls \<Rightarrow> registry_key list"

record class_state =
  own_attrs :: "cls \<Rightarrow> attrs"
  registry :: "(registry_key \<times> cls) list"

text \<open>\<open>getattr(cls, a)\<close> looks at the class and then at its base classes; \<open>None\<close> is AttributeError.\<close>

fun lookup_attr :: "(cls \<Rightarrow> attrs) \<Rightarrow> cls list \<Rightarrow> string \<Rightarrow> pyval option" where
  "lookup_attr own [] a = None"
| "lookup_attr own (c # cs) a = (case map_of (own c) a of None \<Rightarrow> lookup_attr own cs a | Some v \<Rightarrow> Some v)"

definition py_getattr :: "class_table \<Rightarrow> class_state \<Rightarrow> cls \<Rightarrow> string \<Rightarrow> pyval option" where
  "py_getattr T s c a = lookup_attr (own_attrs s) (cls_mro T c) a"

definition set_attrs :: "cls \<Rightarrow> attrs \<Rightarrow> class_state \<Rightarrow> class_state" where
  "set_attrs c kvs s = s\<lparr>own_attrs := (own_attrs s)(c := dict_update (own_attrs s c) kvs)\<rparr>"

section \<open>Registering\<close>

text \<open>The choices for an attribute: a list stands for its elements.\<close>

definition attr_choices :: "string \<times> pyval \<Rightarrow> attrs" where
  "attr_choices av = (case snd av of VList vs \<Rightarrow> map (\<lambda>v. (fst av, v)) vs | v \<Rightarrow> [(fst av, v)])"

text \<open>The values of the required attributes, unless one of them is missing.\<close>

fun required_values :: "class_table \<Rightarrow> class_state \<Rightarrow> cls \<Rightarrow> string list \<Rightarrow> attrs option" where
  "required_values T s c [] = Some []"
| "required_values T s c (a # as) = (case (py_getattr T s c a, required_values T s c as) of
     (Some v, Some vs) \<Rightarrow> Some ((a, v) # vs) | _ \<Rightarrow> None)"

definition registry_keys ::
  "class_table \<Rightarrow> class_state \<Rightarrow> cls \<Rightarrow> string list \<Rightarrow> string \<Rightarrow> registry_key list option" where
  "registry_keys T s c required_attrs cls_type =
     (case required_values T s c (sort required_attrs) of
        None \<Rightarrow> None
      | Some vs \<Rightarrow> Some (if GetAttributes T c \<noteq> [] then GetAttributes T c
          else map (\<lambda>key. (cls_type, key)) (product_lists (map attr_choices vs))))"

definition RegisterClass ::
  "class_table \<Rightarrow> cls \<Rightarrow> string list \<Rightarrow> string option \<Rightarrow> class_state \<Rightarrow> class_state" where
  "RegisterClass T c required_attrs cls_type s = (case cls_type of
     None \<Rightarrow> s
   | Some t \<Rightarrow> if t = [] then s
       else (case registry_keys T s c required_attrs t of
           None \<Rightarrow> s
         | Some keys \<Rightarrow> s\<lparr>registry := foldl (\<lambda>d key. dict_set d key c) (registry s) keys\<rparr>))"

section \<open>Looking up\<close>

definition SubclassNotFound :: "string \<Rightarrow> exn" where
  "SubclassNotFound msg = exn (Resource SubclassNotFoundError) msg"

definition GetRegisteredClass ::
  "class_table \<Rightarrow> cls \<Rightarrow> cls option \<Rightarrow> attrs \<Rightarrow> class_state \<Rightarrow> (exn + cls) \<times> class_state" where
  "GetRegisteredClass T base_class fallback kwargs s =
     (case (case map_of (registry s) (cls_name T base_class, sort_key fst kwargs) of
          None \<Rightarrow> fallback | Some c \<Rightarrow> Some c) of
        None \<Rightarrow> (Inl (SubclassNotFound (''No '' @ cls_name T base_class @ '' subclass defined'')), s)
      | Some c \<Rightarrow>
          if base_class \<notin> set (cls_mro T c)
          then (Inl (SubclassNotFound (''Class '' @ cls_name T c @ '' was registered for type ''
            @ cls_name T base_class @ '' but they did not match each other.'')), s)
          else (Inr c, set_attrs c kwargs s))"

section \<open>What is registered is found\<close>

lemma required_values_eq:
  "required_values T s c as = (if list_all (\<lambda>a. py_getattr T s c a \<noteq> None) as
     then Some (map (\<lambda>a. (a, the (py_getattr T s c a))) as) else None)"
  by (induction as) (auto split: option.split)

lemma registers_all: "map_of (foldl (\<lambda>d key. dict_set d key c) d keys) key
    = (if key \<in> set keys then Some c else map_of d key)"
  by (induction keys arbitrary: d) auto

text \<open>A combination of the values that a class is for.\<close>

definition covers :: "class_table \<Rightarrow> class_state \<Rightarrow> cls \<Rightarrow> string list \<Rightarrow> attrs \<Rightarrow> bool" where
  "covers T s c required_attrs kwargs = (distinct (map fst kwargs) \<and> set (map fst kwargs) = set required_attrs
     \<and> list_all (\<lambda>(a, v). case py_getattr T s c a of
         None \<Rightarrow> False | Some (VList vs) \<Rightarrow> v \<in> set vs | Some w \<Rightarrow> v = w) kwargs)"


lemma covers_required:
  assumes "covers T s c required_attrs kwargs"
  obtains vs where "required_values T s c (sort required_attrs) = Some vs"
proof -
  have "py_getattr T s c a \<noteq> None" if "a \<in> set required_attrs" for a
    using assms that by (force simp: covers_def list_all_iff split: option.splits)
  then have "list_all (\<lambda>a. py_getattr T s c a \<noteq> None) (sort required_attrs)" by (simp add: list_all_iff)
  with that show thesis by (simp add: required_values_eq)
qed

lemma covered_key:
  assumes "covers T s c required_attrs kwargs" and "distinct required_attrs"
    and vs: "required_values T s c (sort required_attrs) = Some vs"
  shows "sort_key fst kwargs \<in> set (product_lists (map attr_choices vs))"
proof -
  let ?ks = "sort_key fst kwargs"
  have "map fst ?ks = sort required_attrs"
  proof (rule sorted_distinct_set_unique)
    show "distinct (map fst ?ks)" using assms(1) by (simp add: covers_def distinct_map)
    show "set (map fst ?ks) = set (sort required_attrs)" using assms(1) by (simp add: covers_def)
  qed (use assms(2) in simp_all)
  moreover have vs': "vs = map (\<lambda>a. (a, the (py_getattr T s c a))) (sort required_attrs)"
    and there: "list_all (\<lambda>a. py_getattr T s c a \<noteq> None) (sort required_attrs)"
    using vs by (auto simp: required_values_eq split: if_splits)
  then have "map fst vs = sort required_attrs" by (simp add: comp_def)
  ultimately have names: "map fst ?ks = map fst vs" by simp
  have "list_all2 (\<lambda>x ys. x \<in> set ys) ?ks (map attr_choices vs)"
  proof (rule list_all2_all_nthI)
    show "length ?ks = length (map attr_choices vs)" using arg_cong [OF names, of length] by simp
    fix i
    assume i: "i < length ?ks"
    then have i': "i < length vs" using arg_cong [OF names, of length] by simp
    obtain a v where av: "?ks ! i = (a, v)" by (cases "?ks ! i")
    obtain a' w where w: "vs ! i = (a', w)" by (cases "vs ! i")
    have "a' = a" using arg_cong [OF names, of "\<lambda>l. l ! i"] i i' av w by simp
    have "py_getattr T s c a = Some w"
      using nth_mem [OF i'] w \<open>a' = a\<close> there by (auto simp: vs' list_all_iff)
    moreover have "(a, v) \<in> set kwargs" using nth_mem [OF i] av by simp
    ultimately have "(a, v) \<in> set (attr_choices (a, w))"
      using assms(1) by (auto simp: covers_def list_all_iff attr_choices_def split: pyval.splits)
    then show "?ks ! i \<in> set (map attr_choices vs ! i)" using i' av w \<open>a' = a\<close> by simp
  qed
  then show ?thesis by (simp add: product_lists_set)
qed

lemma set_attrs_get:
  assumes "cls_mro T c = c # bases" and "distinct (map fst kvs)" and "(a, v) \<in> set kvs"
  shows "py_getattr T (set_attrs c kvs s) c a = Some v"
proof -
  have "map_of (rev kvs) a = Some v" using assms(2,3) by (simp add: map_of_eq_Some_iff rev_map [symmetric])
  then show ?thesis using assms(1) by (simp add: py_getattr_def set_attrs_def map_add_def)
qed

text \<open>Registration and lookup: a class that has been registered for a type is found for every
  combination of the values that its attributes stand for, in whatever order they are given, and
  the class that is returned then has these values as its attributes.\<close>

lemma RegisterClass_lookup:
  assumes "covers T s c required_attrs kwargs" and "distinct required_attrs"
    and "cls_name T base_class \<noteq> []" and "base_class \<in> set (cls_mro T c)"
    and "cls_mro T c = c # bases" and "GetAttributes T c = []"
  shows "\<exists>s'. GetRegisteredClass T base_class fallback kwargs
        (RegisterClass T c required_attrs (Some (cls_name T base_class)) s) = (Inr c, s')
    \<and> list_all (\<lambda>(a, v). py_getattr T s' c a = Some v) kwargs"
proof -
  let ?s = "RegisterClass T c required_attrs (Some (cls_name T base_class)) s"
  obtain vs where vs: "required_values T s c (sort required_attrs) = Some vs"
    by (rule covers_required [OF assms(1)])
  have "map_of (registry ?s) (cls_name T base_class, sort_key fst kwargs) = Some c"
    using covered_key [OF assms(1,2) vs] assms(3,6)
    by (simp add: RegisterClass_def registry_keys_def vs registers_all image_iff)
  then have "GetRegisteredClass T base_class fallback kwargs ?s = (Inr c, set_attrs c kwargs ?s)"
    using assms(4) by (simp add: GetRegisteredClass_def)
  moreover have "list_all (\<lambda>(a, v). py_getattr T (set_attrs c kwargs ?s) c a = Some v) kwargs"
    using assms(1) set_attrs_get [OF assms(5)] by (auto simp: covers_def list_all_iff)
  ultimately show ?thesis by blast
qed

text \<open>A base class 0 and a class 1 for two engines of one cloud.\<close>

definition two_engines :: class_table where
  "two_engines = \<lparr>cls_name = (\<lambda>c. if c = 0 then ''Base'' else ''Sub''),
     cls_mro = (\<lambda>c. if c = 0 then [0] else [c, 0]), GetAttributes = (\<lambda>_. [])\<rparr>"

definition engine_state :: class_state where
  "engine_state = \<lparr>own_attrs = (\<lambda>c. if c = 1
       then [(''CLOUD'', VStr ''GCP''), (''ENGINE'', VList [VStr ''mysql'', VStr ''postgres''])] else []),
     registry = []\<rparr>"

abbreviation engine :: "string \<Rightarrow> attrs" where
  "engine e \<equiv> [(''ENGINE'', VStr e), (''CLOUD'', VStr ''GCP'')]"

lemma engine_covers:
  "e = ''mysql'' \<or> e = ''postgres'' \<Longrightarrow> covers two_engines engine_state 1 [''CLOUD'', ''ENGINE''] (engine e)"
  by (auto simp: covers_def py_getattr_def two_engines_def engine_state_def)

theorem RegisterClass_lookup_witness:
  "fst (GetRegisteredClass two_engines 0 None (engine ''postgres'')
     (RegisterClass two_engines 1 [''CLOUD'', ''ENGINE''] (Some ''Base'') engine_state)) = Inr 1"
proof -
  have cov: "covers two_engines engine_state 1 [''CLOUD'', ''ENGINE''] (engine ''postgres'')"
    by (rule engine_covers) simp
  have "\<exists>s'. GetRegisteredClass two_engines 0 None (engine ''postgres'')
        (RegisterClass two_engines 1 [''CLOUD'', ''ENGINE''] (Some (cls_name two_engines 0)) engine_state)
        = (Inr 1, s') \<and> list_all (\<lambda>(a, v). py_getattr two_engines s' 1 a = Some v) (engine ''postgres'')"
    by (rule RegisterClass_lookup [OF cov, where bases = "[0]"]) (simp_all add: two_engines_def)
  then show ?thesis by (auto simp: two_engines_def)
qed

text \<open>A lookup changes the class that it returns, and so what has been looked up before: after a class
  has been looked up for one engine, looking it up for another engine gives the same class, which is
  for the second engine from then on.\<close>

lemma second_lookup_changes_first:
  "\<exists>s1 s2. GetRegisteredClass two_engines 0 None (engine ''mysql'')
        (RegisterClass two_engines 1 [''CLOUD'', ''ENGINE''] (Some ''Base'') engine_state) = (Inr 1, s1)
    \<and> GetRegisteredClass two_engines 0 None (engine ''postgres'') s1 = (Inr 1, s2)
    \<and> py_getattr two_engines s1 1 ''ENGINE'' = Some (VStr ''mysql'')
    \<and> py_getattr two_engines s2 1 ''ENGINE'' = Some (VStr ''postgres'')"
  by (simp add: GetRegisteredClass_def RegisterClass_def registry_keys_def two_engines_def engine_state_def
      py_getattr_def attr_choices_def set_attrs_def dict_update_def)

end
