(* ===== verification/Decoders.thy ===== *)
theory Decoders
  imports FlagValues Configs "HOL-Library.List_Lexorder" "HOL-Library.Char_ord"
begin

text \<open>
  \<open>perfkitbenchmarker/configs/option_decoders.py\<close> and \<open>perfkitbenchmarker/configs/spec.py\<close>: how the
  options of a configuration are checked and decoded.

  A decoder is its option, its default and its \<open>Decode\<close> for a component and a value.  The flag values
  that a decoder passes on to deeper specs are fixed.  A spec is the dictionary of its attributes.
  The values of an enumeration are None, strings, numbers or truth values.
\<close>

section \<open>Decoders\<close>

record option_decoder =
  option :: "string option"
  default_value :: "pyval option"
  Decode :: "string \<Rightarrow> pyval \<Rightarrow> exn + pyval"

definition required :: "option_decoder \<Rightarrow> bool" where
  "required D = (default_value D = None)"

definition GetOptionFullName :: "string option \<Rightarrow> string \<Rightarrow> string" where
  "GetOptionFullName opt component_full_name =
     (case opt of None \<Rightarrow> component_full_name | Some s \<Rightarrow> component_full_name @ ''.'' @ s)"

definition invalid_option :: "string option \<Rightarrow> string \<Rightarrow> string \<Rightarrow> exn" where
  "invalid_option opt component_full_name what = exn (Config config_error.InvalidValue)
     (''Invalid '' @ GetOptionFullName opt component_full_name @ '' value. '' @ what)"

text \<open>\<open>a == b\<close> for values of enumerations: True is 1 and False is 0.\<close>

definition py_eq :: "pyval \<Rightarrow> pyval \<Rightarrow> bool" where
  "py_eq a b = (case (num_value a, num_value b) of
     (Some x, Some y) \<Rightarrow> x = y | (None, None) \<Rightarrow> a = b | _ \<Rightarrow> False)"

definition EnumDecoder :: "pyval list \<Rightarrow> string option \<Rightarrow> pyval option \<Rightarrow> option_decoder" where
  "EnumDecoder valid_values opt dflt = \<lparr>option = opt, default_value = dflt,
     Decode = (\<lambda>component v. if list_ex (py_eq v) valid_values then Inr v
       else Inl (invalid_option opt component ''Value must be one of the valid values.''))\<rparr>"

text \<open>Types, and \<open>isinstance\<close>: a bool is an int.\<close>

datatype py_type = TNone | TBool | TInt | TFloat | TStr | TList | TDict

fun has_type :: "pyval \<Rightarrow> py_type \<Rightarrow> bool" where
  "has_type VNone t = (t = TNone)"
| "has_type (VBool b) t = (t = TBool \<or> t = TInt)"
| "has_type (VInt n) t = (t = TInt)"
| "has_type (VNum x) t = (t = TFloat)"
| "has_type (VStr s) t = (t = TStr)"
| "has_type (VList xs) t = (t = TList)"
| "has_type (VDict d) t = (t = TDict)"

text \<open>\<open>TypeVerifier.Decode\<close>\<close>

definition verify_type :: "py_type list \<Rightarrow> bool \<Rightarrow> string option \<Rightarrow> string \<Rightarrow> pyval \<Rightarrow> exn + pyval" where
  "verify_type valid_types none_ok opt component v =
     (if list_ex (has_type v) ((if none_ok then [TNone] else []) @ valid_types) then Inr v
      else Inl (invalid_option opt component ''Value must be one of the valid types.''))"

definition TypeVerifier ::
  "py_type list \<Rightarrow> bool \<Rightarrow> string option \<Rightarrow> pyval option \<Rightarrow> option_decoder" where
  "TypeVerifier valid_types none_ok opt dflt = \<lparr>option = opt, default_value = dflt,
     Decode = verify_type valid_types none_ok opt\<rparr>"

definition BooleanDecoder :: "bool \<Rightarrow> string option \<Rightarrow> pyval option \<Rightarrow> option_decoder" where
  "BooleanDecoder = TypeVerifier [TBool]"

definition StringDecoder :: "bool \<Rightarrow> string option \<Rightarrow> pyval option \<Rightarrow> option_decoder" where
  "StringDecoder = TypeVerifier [TStr]"

text \<open>The checks of \<open>max\<close> and \<open>min\<close>\<close>

definition check_bounds ::
  "rat option \<Rightarrow> rat option \<Rightarrow> string option \<Rightarrow> string \<Rightarrow> pyval \<Rightarrow> exn + pyval" where
  "check_bounds mx mn opt component v = (case num_value v of
     None \<Rightarrow> Inr v
   | Some x \<Rightarrow>
       if (case mx of None \<Rightarrow> False | Some m \<Rightarrow> x > m)
       then Inl (invalid_option opt component ''Value must be at most the maximum.'')
       else if (case mn of None \<Rightarrow> False | Some m \<Rightarrow> x < m)
       then Inl (invalid_option opt component ''Value must be at least the minimum.'')
       else Inr v)"

definition number_decoder ::
  "py_type list \<Rightarrow> rat option \<Rightarrow> rat option \<Rightarrow> bool \<Rightarrow> string option \<Rightarrow> pyval option \<Rightarrow> option_decoder"
where
  "number_decoder types mx mn none_ok opt dflt = \<lparr>option = opt, default_value = dflt,
     Decode = (\<lambda>component v. bindE (verify_type types none_ok opt component v)
       (check_bounds mx mn opt component))\<rparr>"

definition IntDecoder ::
  "int option \<Rightarrow> int option \<Rightarrow> bool \<Rightarrow> string option \<Rightarrow> pyval option \<Rightarrow> option_decoder" where
  "IntDecoder mx mn = number_decoder [TInt] (map_option of_int mx) (map_option of_int mn)"

definition FloatDecoder ::
  "rat option \<Rightarrow> rat option \<Rightarrow> bool \<Rightarrow> string option \<Rightarrow> pyval option \<Rightarrow> option_decoder" where
  "FloatDecoder = number_decoder [TFloat, TInt]"

text \<open>\<open>ListDecoder\<close>: the items are decoded one after the other, under the name of the list and their
  index.\<close>

fun decode_items :: "option_decoder \<Rightarrow> string \<Rightarrow> nat \<Rightarrow> pyval list \<Rightarrow> exn + pyval list" where
  "decode_items D list_name i [] = Inr []"
| "decode_items D list_name i (v # vs) =
     bindE (Decode D (list_name @ ''['' @ str_of_nat i @ '']'') v) (\<lambda>w.
     bindE (decode_items D list_name (Suc i) vs) (\<lambda>ws. Inr (w # ws)))"

definition ListDecoder :: "option_decoder \<Rightarrow> bool \<Rightarrow> string option \<Rightarrow> pyval option \<Rightarrow> option_decoder" where
  "ListDecoder D none_ok opt dflt = \<lparr>option = opt, default_value = dflt,
     Decode = (\<lambda>component v. bindE (verify_type [TList] none_ok opt component v) (\<lambda>v. case v of
         VList vs \<Rightarrow> bindE (decode_items D (GetOptionFullName opt component) 0 vs) (\<lambda>ws. Inr (VList ws))
       | _ \<Rightarrow> Inr v))\<rparr>"

section \<open>Specs\<close>

text \<open>
  A class of specs: what \<open>_GetOptionDecoderConstructions\<close> returns, and \<open>_ApplyFlags\<close> for the flags of
  the run, if there are any.
\<close>

record spec_class =
  constructions :: "(string \<times> (string option \<Rightarrow> option_decoder)) list"
  ApplyFlags :: "(metadata_dict \<Rightarrow> exn + metadata_dict) option"

text \<open>\<open>_InitDecoders\<close>: the decoders in the order of their options\<close>

definition InitDecoders :: "spec_class \<Rightarrow> (string \<times> option_decoder) list" where
  "InitDecoders S = map (\<lambda>(k, construct). (k, construct (Some k))) (sort_key fst (constructions S))"

definition required_options :: "(string \<times> option_decoder) list \<Rightarrow> string list" where
  "required_options ds = map fst (filter (\<lambda>(k, D). required D) ds)"

text \<open>\<open>_DecodeAndInit\<close>\<close>

fun DecodeAndInit ::
  "string \<Rightarrow> metadata_dict \<Rightarrow> (string \<times> option_decoder) list \<Rightarrow> exn + metadata_dict" where
  "DecodeAndInit component config [] = Inr []"
| "DecodeAndInit component config ((k, D) # ds) =
     bindE (case map_of config k of
         Some v \<Rightarrow> Decode D component v
       | None \<Rightarrow> (case default_value D of Some v \<Rightarrow> Inr v
           | None \<Rightarrow> Inl (exn (Builtin AssertionError) ''default value of required config option'')))
       (\<lambda>w. bindE (DecodeAndInit component config ds) (\<lambda>attrs. Inr ((k, w) # attrs)))"

text \<open>\<open>BaseSpec.__init__\<close>\<close>

definition new_spec :: "spec_class \<Rightarrow> string \<Rightarrow> metadata_dict \<Rightarrow> exn + metadata_dict" where
  "new_spec S component_full_name kwargs =
     (let decoders = InitDecoders S in
      bindE (case ApplyFlags S of None \<Rightarrow> Inr kwargs | Some f \<Rightarrow> f kwargs) (\<lambda>kwargs.
        let missing_options = filter (\<lambda>k. map_of kwargs k = None) (required_options decoders);
            unrecognized_options = filter (\<lambda>k. map_of decoders k = None) (map fst kwargs)
        in if missing_options \<noteq> [] then Inl (exn (Config MissingOption)
             (''Required options were missing from '' @ component_full_name @ '': ''
              @ str_join '', '' (sort missing_options) @ ''.''))
           else if unrecognized_options \<noteq> [] then Inl (exn (Config UnrecognizedOption)
             (''Unrecognized options were found in '' @ component_full_name @ '': ''
              @ str_join '', '' (sort unrecognized_options) @ ''.''))
           else DecodeAndInit component_full_name kwargs decoders))"

section \<open>Options per cloud\<close>

definition VALID_CLOUDS :: "string list" where
  "VALID_CLOUDS = [''GCP'', ''Azure'', ''AWS'', ''IBMCloud'', ''DigitalOcean'', ''OpenStack'', ''Rackspace'',
     ''CloudStack'', ''AliCloud'', ''Mesos'', ''ProfitBricks'', ''Docker'', ''Kubernetes'', ''UnitTest'']"

definition PerCloudConfigSpec :: spec_class where
  "PerCloudConfigSpec = \<lparr>constructions =
     map (\<lambda>cloud. (cloud, \<lambda>opt. TypeVerifier [TDict] False opt (Some VNone))) VALID_CLOUDS,
     ApplyFlags = Some Inr\<rparr>"

definition PerCloudConfigDecoder :: "bool \<Rightarrow> string option \<Rightarrow> pyval option \<Rightarrow> option_decoder" where
  "PerCloudConfigDecoder none_ok opt dflt = \<lparr>option = opt, default_value = dflt,
     Decode = (\<lambda>component v. bindE (verify_type [TDict] none_ok opt component v) (\<lambda>v. case v of
         VDict d \<Rightarrow> bindE (new_spec PerCloudConfigSpec (GetOptionFullName opt component) d) (\<lambda>s. Inr (VDict s))
       | _ \<Rightarrow> Inr v))\<rparr>"


section \<open>What decoders promise\<close>

text \<open>
  A decoder returns only values with some property, and raises only InvalidValue, the errors of
  missing and of unrecognized options.
\<close>

definition config_failure :: "exn \<Rightarrow> bool" where
  "config_failure e = (type_of e \<in> {Config config_error.InvalidValue, Config MissingOption,
     Config UnrecognizedOption})"

locale sound_decoder =
  fixes D :: option_decoder and P :: "pyval \<Rightarrow> bool"
  assumes decodes: "Decode D component v = Inr w \<Longrightarrow> P w"
    and fails: "Decode D component v = Inl e \<Longrightarrow> config_failure e"
begin

lemma items_decoded: "decode_items D list_name i vs = Inr ws \<Longrightarrow> list_all P ws \<and> length ws = length vs"
  by (induction vs arbitrary: i ws) (auto simp: bindE_Inr dest: decodes)

lemma items_fail: "decode_items D list_name i vs = Inl e \<Longrightarrow> config_failure e"
proof (induction vs arbitrary: i)
  case (Cons v vs)
  then show ?case by (auto simp: bindE_def split: sum.splits dest: fails)
qed simp

end

lemma invalid_option_failure [simp]: "config_failure (invalid_option opt component what)"
  by (simp add: config_failure_def invalid_option_def)

lemma verify_type_Inr: "verify_type types none_ok opt component v = Inr w \<longleftrightarrow>
    w = v \<and> (none_ok \<and> v = VNone \<or> list_ex (has_type v) types)"
  by (cases v) (auto simp: verify_type_def)

lemma verify_type_Inl: "verify_type types none_ok opt component v = Inl e \<Longrightarrow> config_failure e"
  by (auto simp: verify_type_def split: if_splits)

text \<open>The integers between the bounds, where there are any.\<close>

definition int_within :: "int option \<Rightarrow> int option \<Rightarrow> bool \<Rightarrow> pyval \<Rightarrow> bool" where
  "int_within mx mn none_ok v = (case int_value v of
     None \<Rightarrow> none_ok \<and> v = VNone
   | Some n \<Rightarrow> (case mx of None \<Rightarrow> True | Some m \<Rightarrow> n \<le> m) \<and> (case mn of None \<Rightarrow> True | Some m \<Rightarrow> m \<le> n))"

lemma IntDecoder_Inr:
  "Decode (IntDecoder mx mn none_ok opt dflt) component v = Inr w \<longleftrightarrow> w = v \<and> int_within mx mn none_ok v"
  by (cases v; auto simp: IntDecoder_def number_decoder_def verify_type_def check_bounds_def int_within_def
      int_value_def num_value_def split: option.splits if_splits)

lemma IntDecoder_fails:
  "Decode (IntDecoder mx mn none_ok opt dflt) component v = Inl e \<Longrightarrow> config_failure e"
  by (cases v; auto simp: IntDecoder_def number_decoder_def verify_type_def check_bounds_def int_within_def
      int_value_def num_value_def split: option.splits if_splits)

interpretation ints: sound_decoder "IntDecoder mx mn none_ok opt dflt" "int_within mx mn none_ok"
  for mx mn none_ok opt dflt
  by unfold_locales (auto simp: IntDecoder_Inr dest: IntDecoder_fails)

text \<open>A list of decoded items.\<close>

definition list_within :: "(pyval \<Rightarrow> bool) \<Rightarrow> bool \<Rightarrow> pyval \<Rightarrow> bool" where
  "list_within P none_ok v = (case v of VList vs \<Rightarrow> list_all P vs | VNone \<Rightarrow> none_ok | _ \<Rightarrow> False)"

lemma ListDecoder_Inr:
  assumes "sound_decoder D P" and "Decode (ListDecoder D none_ok opt dflt) component v = Inr w"
  shows "list_within P none_ok w
    \<and> (case (v, w) of (VList vs, VList ws) \<Rightarrow> length ws = length vs | _ \<Rightarrow> w = v)"
  using assms(2) sound_decoder.items_decoded [OF assms(1)]
  by (cases v) (auto simp: ListDecoder_def bindE_Inr verify_type_Inr list_within_def)

lemma ListDecoder_Inl:
  assumes "sound_decoder D P" and "Decode (ListDecoder D none_ok opt dflt) component v = Inl e"
  shows "config_failure e"
  using assms(2) sound_decoder.items_fail [OF assms(1)]
  by (auto simp: ListDecoder_def bindE_def split: sum.splits pyval.splits dest: verify_type_Inl)

interpretation int_lists: sound_decoder "ListDecoder (IntDecoder mx mn b opt dflt) none_ok opt' dflt'"
    "list_within (int_within mx mn b) none_ok"
  for mx mn b opt dflt none_ok opt' dflt'
  by unfold_locales
    (blast dest: ListDecoder_Inr [OF ints.sound_decoder_axioms] ListDecoder_Inl [OF ints.sound_decoder_axioms])+

text \<open>Decoded lists of integers: what the decoder of a list of integers with bounds returns is a
  list, as long as the given one, of integers (or truth values, which are integers) within the
  bounds, or None where that is allowed; everything else is an InvalidValue, MissingOption or
  UnrecognizedOption error.\<close>

lemma ListDecoder_of_ints:
  "case Decode (ListDecoder (IntDecoder mx mn b opt dflt) none_ok opt' dflt') component v of
     Inl e \<Rightarrow> config_failure e
   | Inr w \<Rightarrow> list_within (int_within mx mn b) none_ok w
       \<and> (case (v, w) of (VList vs, VList ws) \<Rightarrow> length ws = length vs | _ \<Rightarrow> w = v)"
  using ListDecoder_Inr [OF ints.sound_decoder_axioms] int_lists.fails by (simp split: sum.split)

section \<open>What a spec holds\<close>

definition decoder_of :: "spec_class \<Rightarrow> string \<Rightarrow> option_decoder option" where
  "decoder_of S k = map_of (InitDecoders S) k"

text \<open>The value of an attribute: the decoded option, or the default if the option is not given.\<close>

definition attribute_of :: "string \<Rightarrow> metadata_dict \<Rightarrow> string \<times> option_decoder \<Rightarrow> string \<times> pyval \<Rightarrow> bool" where
  "attribute_of component config kD kw = (fst kw = fst kD \<and> (case map_of config (fst kD) of
     None \<Rightarrow> default_value (snd kD) = Some (snd kw)
   | Some v \<Rightarrow> Decode (snd kD) component v = Inr (snd kw)))"

lemma DecodeAndInit_Inr:
  "DecodeAndInit component config ds = Inr attrs \<Longrightarrow> list_all2 (attribute_of component config) ds attrs"
  by (induction ds arbitrary: attrs rule: DecodeAndInit.induct)
     (auto simp: bindE_Inr attribute_of_def split: option.splits)

lemma DecodeAndInit_first:
  "DecodeAndInit component config ds = Inl e \<Longrightarrow> (\<And>k D. (k, D) \<in> set ds \<Longrightarrow> required D \<Longrightarrow> map_of config k \<noteq> None)
     \<Longrightarrow> \<exists>ds1 k D v ds2. ds = ds1 @ (k, D) # ds2 \<and> map_of config k = Some v \<and> Decode D component v = Inl e
       \<and> (\<forall>(k', D') \<in> set ds1. \<forall>v'. map_of config k' = Some v' \<longrightarrow> (\<exists>w. Decode D' component v' = Inr w))"
proof (induction component config ds rule: DecodeAndInit.induct)
  case (2 component config k D ds)
  let ?r = "case map_of config k of Some v \<Rightarrow> Decode D component v
       | None \<Rightarrow> (case default_value D of Some v \<Rightarrow> Inr v
           | None \<Rightarrow> Inl (exn (Builtin AssertionError) ''default value of required config option''))"
  show ?case
  proof (cases ?r)
    case (Inl e')
    with 2(2) have "e' = e" by simp
    moreover have "map_of config k \<noteq> None \<or> default_value D \<noteq> None"
      using 2(3) [of k D] by (auto simp: required_def)
    ultimately obtain v where "map_of config k = Some v" "Decode D component v = Inl e"
      using Inl by (auto split: option.splits)
    then show ?thesis by (intro exI [of _ "[]"] exI [of _ k] exI [of _ D] exI [of _ v] exI [of _ ds]) simp
  next
    case (Inr w)
    with 2(2) have "DecodeAndInit component config ds = Inl e"
      by (auto simp: bindE_def split: sum.splits)
    moreover have "map_of config k' \<noteq> None" if "(k', D') \<in> set ds" "required D'" for k' D'
      by (rule 2(3)) (use that in auto)
    ultimately obtain ds1 k' D' v ds2 where "ds = ds1 @ (k', D') # ds2" "map_of config k' = Some v"
      "Decode D' component v = Inl e"
      "\<forall>(k', D') \<in> set ds1. \<forall>v'. map_of config k' = Some v' \<longrightarrow> (\<exists>w. Decode D' component v' = Inr w)"
      using 2(1) by blast
    with Inr show ?thesis
      by (intro exI [of _ "(k, D) # ds1"] exI [of _ k'] exI [of _ D'] exI [of _ v] exI [of _ ds2]) auto
  qed
qed simp

lemma DecodeAndInit_Inl:
  assumes "DecodeAndInit component config ds = Inl e"
    and "\<And>k D. (k, D) \<in> set ds \<Longrightarrow> required D \<Longrightarrow> map_of config k \<noteq> None"
  shows "\<exists>k D v. (k, D) \<in> set ds \<and> map_of config k = Some v \<and> Decode D component v = Inl e"
proof -
  obtain ds1 k D v ds2 where "ds = ds1 @ (k, D) # ds2" "map_of config k = Some v" "Decode D component v = Inl e"
    using DecodeAndInit_first [OF assms(1)] assms(2) by fast
  then show ?thesis by (intro exI [of _ k] exI [of _ D] exI [of _ v]) simp
qed

text \<open>In a dictionary in the order of its keys, a smaller key is in the part before.\<close>

lemma before_in_order:
  assumes "sorted (map fst (ds1 @ (k, D) # ds2))" and "(k', D') \<in> set (ds1 @ (k, D) # ds2)" and "k' < k"
  shows "(k', D') \<in> set ds1"
proof -
  have "\<not> k' < k" if "(k', D') \<in> set ((k, D) # ds2)"
    using assms(1) that by (auto simp: sorted_append)
  with assms(2,3) show ?thesis by auto
qed

text \<open>The options that are missing, and those that are not recognized\<close>

definition missing_from :: "spec_class \<Rightarrow> metadata_dict \<Rightarrow> string set" where
  "missing_from S kw = {k. \<exists>D. decoder_of S k = Some D \<and> required D \<and> map_of kw k = None}"

definition unknown_in :: "spec_class \<Rightarrow> metadata_dict \<Rightarrow> string set" where
  "unknown_in S kw = {k. map_of kw k \<noteq> None \<and> decoder_of S k = None}"

text \<open>C15: Construction of a spec, from the options after the flags have been applied.  If required options
  are missing, the message of the exception lists exactly these, in order; otherwise, if options are not
  recognized, exactly these; otherwise an exception is that of the first decoder, in the order of the
  names, that rejects the value of its option.  If none of this happens, the spec has exactly one
  attribute for every option, in the order of their names, with the decoded value of the option or its
  default, and the default of a required option is never asked for.\<close>

theorem new_spec_result:
  assumes "(case ApplyFlags S of None \<Rightarrow> Inr kwargs | Some f \<Rightarrow> f kwargs) = Inr kw"
    and "distinct (map fst (constructions S))" and "distinct (map fst kw)"
  shows "case new_spec S component kwargs of
      Inr attrs \<Rightarrow> list_all2 (attribute_of component kw) (InitDecoders S) attrs
        \<and> sorted (map fst attrs) \<and> set (map fst attrs) = set (map fst (constructions S))
        \<and> set (map fst kw) \<subseteq> set (map fst attrs)
    | Inl e \<Rightarrow>
        if missing_from S kw \<noteq> {} then \<exists>ks. sorted ks \<and> distinct ks \<and> set ks = missing_from S kw
          \<and> e = exn (Config MissingOption) (''Required options were missing from '' @ component @ '': '' @ str_join '', '' ks @ ''.'')
        else if unknown_in S kw \<noteq> {} then \<exists>ks. sorted ks \<and> distinct ks \<and> set ks = unknown_in S kw
          \<and> e = exn (Config UnrecognizedOption) (''Unrecognized options were found in '' @ component @ '': '' @ str_join '', '' ks @ ''.'')
        else \<exists>k D v. decoder_of S k = Some D \<and> map_of kw k = Some v \<and> Decode D component v = Inl e
          \<and> (\<forall>k' D' v'. k' < k \<and> decoder_of S k' = Some D' \<and> map_of kw k' = Some v' \<longrightarrow> (\<exists>w. Decode D' component v' = Inr w))"
proof -
  let ?ds = "InitDecoders S"
  have names: "map fst ?ds = map fst (sort_key fst (constructions S))"
    by (simp add: InitDecoders_def comp_def case_prod_beta)
  have dist: "distinct (map fst ?ds)" using assms(2) unfolding names by (simp add: distinct_map)
  have order: "sorted (map fst ?ds)" unfolding names by simp
  have dec: "decoder_of S k = Some D \<longleftrightarrow> (k, D) \<in> set ?ds" for k D
    unfolding decoder_of_def by (rule map_of_eq_Some_iff [OF dist])
  let ?missing = "filter (\<lambda>k. map_of kw k = None) (required_options ?ds)"
  let ?unrecognized = "filter (\<lambda>k. map_of ?ds k = None) (map fst kw)"
  have missing: "set ?missing = missing_from S kw" "distinct ?missing"
    using dist unfolding missing_from_def dec
    by (force simp: required_options_def, simp add: required_options_def distinct_map_filter)
  have unknown: "set ?unrecognized = unknown_in S kw" "distinct ?unrecognized"
    using assms(3) by (auto simp: unknown_in_def decoder_of_def map_of_eq_None_iff distinct_filter)
  have new: "new_spec S component kwargs = (if ?missing \<noteq> [] then Inl (exn (Config MissingOption)
             (''Required options were missing from '' @ component @ '': ''
              @ str_join '', '' (sort ?missing) @ ''.''))
           else if ?unrecognized \<noteq> [] then Inl (exn (Config UnrecognizedOption)
             (''Unrecognized options were found in '' @ component @ '': ''
              @ str_join '', '' (sort ?unrecognized) @ ''.''))
           else DecodeAndInit component kw ?ds)"
    unfolding new_spec_def assms(1) Let_def bindE_simps ..
  consider "missing_from S kw \<noteq> {}" | "missing_from S kw = {}" "unknown_in S kw \<noteq> {}"
    | "missing_from S kw = {}" "unknown_in S kw = {}" by blast
  then show ?thesis
  proof cases
    case 1
    with missing have "?missing \<noteq> []" by (metis set_empty)
    from if_P [OF this] have e: "new_spec S component kwargs = Inl (exn (Config MissingOption)
      (''Required options were missing from '' @ component @ '': '' @ str_join '', '' (sort ?missing) @ ''.''))"
      unfolding new .
    show ?thesis unfolding e sum.case if_P [OF 1]
      by (intro exI [of _ "sort ?missing"]) (simp only: missing sorted_sort set_sort distinct_sort simp_thms)
  next
    case 2
    with missing unknown have "?missing = []" "?unrecognized \<noteq> []" by (metis set_empty)+
    then have "\<not> ?missing \<noteq> []" "?unrecognized \<noteq> []" by simp_all
    from if_not_P [OF this(1)] if_P [OF this(2)] have e: "new_spec S component kwargs = Inl (exn (Config UnrecognizedOption)
      (''Unrecognized options were found in '' @ component @ '': '' @ str_join '', '' (sort ?unrecognized) @ ''.''))"
      unfolding new by (rule trans)
    have "\<not> missing_from S kw \<noteq> {}" using 2 by simp
    show ?thesis unfolding e sum.case if_not_P [OF \<open>\<not> missing_from S kw \<noteq> {}\<close>] if_P [OF 2(2)]
      by (intro exI [of _ "sort ?unrecognized"], simp only: unknown sorted_sort set_sort distinct_sort simp_thms)
  next
    case 3
    with missing unknown have none: "?missing = []" "?unrecognized = []" by (metis set_empty)+
    have given: "map_of kw k \<noteq> None" if "(k, D) \<in> set ?ds" "required D" for k D
      using 3(1) that by (auto simp: missing_from_def dec)
    have known: "set (map fst kw) \<subseteq> set (map fst ?ds)"
      using none(2) by (auto simp: filter_empty_conv map_of_eq_None_iff)
    show ?thesis
    proof (cases "DecodeAndInit component kw ?ds")
      case (Inl e)
      obtain ds1 k D v ds2 where f: "?ds = ds1 @ (k, D) # ds2"
        "map_of kw k = Some v" "Decode D component v = Inl e"
        "\<forall>(k', D') \<in> set ds1. \<forall>v'. map_of kw k' = Some v' \<longrightarrow> (\<exists>w. Decode D' component v' = Inr w)"
        using DecodeAndInit_first [OF Inl] given by fast
      have "\<exists>w. Decode D' component v' = Inr w" if "k' < k" "decoder_of S k' = Some D'" "map_of kw k' = Some v'" for k' D' v'
        using before_in_order [of ds1 k D ds2 k' D'] order that f(4) unfolding dec f(1) by blast
      moreover have "decoder_of S k = Some D" unfolding dec f(1) by simp
      ultimately show ?thesis using f(2,3) 3 none Inl unfolding new by (simp del: filter_empty_conv) blast
    next
      case (Inr attrs)
      from DecodeAndInit_Inr [OF Inr]
      have all: "list_all2 (attribute_of component kw) ?ds attrs" .
      then have "map fst attrs = map fst ?ds"
        by (induction rule: list_all2_induct) (simp_all add: attribute_of_def)
      with all names known none Inr show ?thesis unfolding new by (simp del: filter_empty_conv)
    qed
  qed
qed

text \<open>A count from 1 to 8, which is required, and a name with a default.\<close>

definition count_and_name :: spec_class where
  "count_and_name = \<lparr>constructions =
     [(''name'', \<lambda>opt. StringDecoder True opt (Some VNone)), (''count'', \<lambda>opt. IntDecoder (Some 8) (Some 1) False opt None)],
     ApplyFlags = None\<rparr>"

theorem new_spec_result_witness:
  "new_spec count_and_name ''vm'' [(''count'', VInt 3)] = Inr [(''count'', VInt 3), (''name'', VNone)]
   \<and> sorted (map fst [(''count'', VInt 3), (''name'', VNone)])"
proof -
  have none: "(case ApplyFlags count_and_name of None \<Rightarrow> Inr [(''count'', VInt 3)]
      | Some f \<Rightarrow> f [(''count'', VInt 3)]) = Inr [(''count'', VInt 3)]"
    and dist: "distinct (map fst (constructions count_and_name))"
    by (simp_all add: count_and_name_def)
  have new: "new_spec count_and_name ''vm'' [(''count'', VInt 3)]
      = Inr [(''count'', VInt 3), (''name'', VNone)]"
    by (simp add: new_spec_def count_and_name_def InitDecoders_def required_options_def required_def
        StringDecoder_def TypeVerifier_def IntDecoder_def number_decoder_def verify_type_def
        check_bounds_def num_value_def int_value_def)
  have "distinct (map fst [(''count'', VInt 3)])" by simp
  from new_spec_result [OF none dist this, of "''vm''"] show ?thesis unfolding new by simp
qed

end
