(* ===== verification/Status.thy ===== *)
theory Status
  imports FlagUtil Background
begin

text \<open>
  \<open>perfkitbenchmarker/benchmark_status.py\<close>: the summary of the statuses of a run.

  The success rate is computed with exact numbers, where Python has floats, and printed with two
  digits, rounding a half to the even digit.
\<close>

record spec_status =
  spec_name :: string
  spec_uid :: string
  spec_result :: string
  spec_substatus :: "string option"

definition COL_SEPARATOR :: string where
  "COL_SEPARATOR = ''  ''"

definition row_entries :: "spec_status \<Rightarrow> string list" where
  "row_entries s = [spec_name s, spec_uid s, spec_result s,
     (case spec_substatus s of None \<Rightarrow> [] | Some t \<Rightarrow> t)]"

definition col_headers :: "string list" where
  "col_headers = [''Name'', ''UID'', ''Status'', ''Failed Substatus'']"

text \<open>\<open>'{:<ns}'.format(s)\<close>\<close>

definition ljust :: "nat \<Rightarrow> string \<Rightarrow> string" where
  "ljust n s = s @ replicate (n - length s) CHR '' ''"

definition col_lengths :: "string list list \<Rightarrow> nat list" where
  "col_lengths rows = map (\<lambda>j. max (length (col_headers ! j)) (Max (set (map (\<lambda>r. length (r ! j)) rows))))
     [0..<length col_headers]"

definition line_length :: "nat list \<Rightarrow> nat" where
  "line_length widths = (length col_headers - 1) * length COL_SEPARATOR + sum_list widths"

definition format_row :: "nat list \<Rightarrow> string list \<Rightarrow> string" where
  "format_row widths row = str_join COL_SEPARATOR (map2 ljust widths row)"

definition table_lines :: "string list list \<Rightarrow> string list" where
  "table_lines rows =
     (let widths = col_lengths rows; dash_line = replicate (line_length widths) CHR ''-''
      in [dash_line, format_row widths col_headers, dash_line] @ map (format_row widths) rows @ [dash_line])"

definition no_statuses :: exn where
  "no_statuses = exn (Builtin AssertionError) ''run_status_tuples must contain at least one element.''"

definition CreateSummaryTable :: "spec_status list \<Rightarrow> exn + string" where
  "CreateSummaryTable specs = (if specs = [] then Inl no_statuses
     else Inr (str_join linesep (table_lines (map row_entries specs))))"

text \<open>\<open>'{:.2f}'.format(x)\<close> for a number that is not negative\<close>

definition two_digits :: "rat \<Rightarrow> string" where
  "two_digits x = (let n = nat (round_half_even (100 * x))
     in str_of_nat (n div 100) @ ''.'' @ str_of_nat (n mod 100 div 10) @ str_of_nat (n mod 10))"

definition CreateSummary :: "spec_status list \<Rightarrow> exn + string" where
  "CreateSummary specs = (if specs = [] then Inl no_statuses
     else (let total = length specs;
               ok = length (filter (\<lambda>s. spec_result s = ''SUCCEEDED'') specs)
       in case CreateSummaryTable specs of
            Inl e \<Rightarrow> Inl e
          | Inr table \<Rightarrow> Inr (str_join linesep [''Benchmark run statuses:'', table,
              ''Success rate: '' @ two_digits (100 * of_nat ok / of_nat total) @ ''% (''
              @ str_of_nat ok @ ''/'' @ str_of_nat total @ '')''])))"

section \<open>The table is rectangular\<close>

lemma length_ljust: "length s \<le> n \<Longrightarrow> length (ljust n s) = n"
  by (simp add: ljust_def)

lemma length_format_row:
  assumes "list_all2 (\<lambda>n s. length s \<le> n) widths row" and "length row = length col_headers"
  shows "length (format_row widths row) = line_length widths"
proof -
  have len: "length widths = length row" using assms(1) by (rule list_all2_lengthD)
  have lens: "map length (map2 ljust widths row) = widths"
    using assms(1) by (induction rule: list_all2_induct) (simp_all add: length_ljust)
  have "map2 ljust widths row \<noteq> []"
    using assms(2) len by (cases widths; cases row) (simp_all add: col_headers_def)
  from length_str_join [OF this, of COL_SEPARATOR]
  have "length (format_row widths row)
      = sum_list widths + (length (map2 ljust widths row) - 1) * length COL_SEPARATOR"
    unfolding lens format_row_def .
  then show ?thesis using assms(2) len by (simp add: line_length_def)
qed

lemma row_fits:
  assumes "row = col_headers \<or> row \<in> set rows" and "length row = length col_headers"
  shows "list_all2 (\<lambda>n s. length s \<le> n) (col_lengths rows) row"
proof (rule list_all2_all_nthI)
  show "length (col_lengths rows) = length row" using assms(2) by (simp add: col_lengths_def)
  fix j
  assume "j < length (col_lengths rows)"
  then have j: "j < length col_headers" by (simp add: col_lengths_def)
  have "length (row ! j) \<le> Max (set (map (\<lambda>r. length (r ! j)) rows))" if "row \<in> set rows"
    by (rule Max_ge) (use that in auto)
  with assms(1) j show "length (row ! j) \<le> col_lengths rows ! j"
    by (auto simp: col_lengths_def intro: max.coboundedI2)
qed

text \<open>The summary of a run is a table: a line per benchmark between the headers and the last line of
  dashes, all lines of the same length, and every cell fits into its column.\<close>

lemma CreateSummaryTable_rectangular:
  assumes "specs \<noteq> []"
  obtains lines width where "CreateSummaryTable specs = Inr (str_join linesep lines)"
    "length lines = length specs + 4" "list_all (\<lambda>l. length l = width) lines"
proof (rule that)
  let ?rows = "map row_entries specs"
  show "CreateSummaryTable specs = Inr (str_join linesep (table_lines ?rows))"
    using assms by (simp add: CreateSummaryTable_def)
  show "length (table_lines ?rows) = length specs + 4" by (simp add: table_lines_def Let_def)
  have rows: "length (row_entries s) = length col_headers" for s
    by (simp add: row_entries_def col_headers_def)
  show "list_all (\<lambda>l. length l = line_length (col_lengths ?rows)) (table_lines ?rows)"
    by (auto simp: table_lines_def Let_def list_all_iff rows intro!: length_format_row row_fits)
qed

end
