(* ===== verification/SpecLifecycle.thy ===== *)
theory SpecLifecycle
  imports Collector "HOL-Library.List_Lexorder" "HOL-Library.Char_ord"
begin

text \<open>
  \<open>perfkitbenchmarker/benchmark_spec.py\<close>: how a BenchmarkSpec provisions and deletes the resources
  that have been constructed for it.

  The resources are named by the attribute of the BenchmarkSpec that holds them.  What a call of a
  resource does is a parameter (\<open>perform\<close>) that acts on the rest of the world; the calls are noted
  in \<open>spec_calls\<close>, of which the program has no counterpart.  Calls that the code makes in parallel are
  made here one after the other, and as in \<open>RunThreaded\<close> all of them are made, also if some of them
  raise an exception.  Attributes that the code looks for with \<open>hasattr\<close> are there.
\<close>

section \<open>Resources and calls\<close>

datatype slot =
    Reservation nat | Network string | Registry | ContainerCluster | Nfs | Lustre | Smb
  | MultiAttachDisk | PlacementGroup string | Vm nat | ManagedGroup string | Cluster | Dpb
  | RelationalDb | NonRelationalDb | Key | Tpu nat | AiModel | Pinecone | VectorSearch
  | EdwService | EdwCompute | MemoryStore | ExampleResource | BaseJob | VpnService | Messaging
  | DataDiscovery

text \<open>The truth value of a creation or deletion is its argument \<open>restore\<close> or \<open>freeze\<close>, if it has one.\<close>

datatype spec_call =
    CreateOf slot bool | DeleteOf slot bool
  | PeerNetworks string string | GetOrBuild string | SetVms slot | PrepareAfterBoot nat
  | GenerateSSHConfig "nat list" | ImportVmGroups | SetSubnet string
  | PackageCleanup nat | DeleteScratchDisks nat | DisallowAllPorts string
  | DeleteServices | DeleteContainers | PickleTo string
  | PrepareBackgroundWorkload nat | StartWorkload nat | StopWorkload nat

record 'w spec_world =
  spec_calls :: "spec_call list"
  spec_deleted :: bool
  spec_rest :: 'w

text \<open>
  A constructed BenchmarkSpec: the resources that are held in one attribute each (\<open>holds\<close>), the keys
  of the dictionaries, and what else the two methods look at.  The VMs of a managed group are known
  only once the group exists.  A group that is not in \<open>vms_to_boot\<close> has no \<open>provision_order\<close>.  A container
  spec is its key, whether it has a static image, and its image; the image that \<open>GetOrBuild\<close> returns is
  not noted in it.  \<open>redshift\<close> says that the data warehouse is a Redshift that PKB manages.
\<close>

record 'w built_spec =
  perform :: "spec_call \<Rightarrow> (exn, 'w mach, unit) py"
  holds :: "slot set"
  reservation_count :: nat
  network_keys :: "string list"
  vpc_peering :: bool
  container_specs :: "(string \<times> bool \<times> string) list"
  nfs_unmanaged :: bool
  placement_keys :: "string list"
  unmanaged_vm_groups :: "(string \<times> nat list) list"
  managed_vm_groups :: "string list"
  managed_vms :: "string \<Rightarrow> 'w \<Rightarrow> nat list"
  provision_order :: "string \<Rightarrow> int option"
  provision_delay_seconds :: "string \<Rightarrow> rat"
  post_task_delay :: rat
  skip_vm_preparation :: bool
  runs_windows :: "nat \<Rightarrow> bool"
  cleans_packages :: "nat \<Rightarrow> bool"
  cluster_unmanaged :: bool
  redshift :: bool
  aws_network :: "string \<Rightarrow> bool"
  tpu_count :: nat
  firewall_keys :: "string list"
  restores :: bool
  freeze_to :: "string option"
  default_freeze_path :: string

type_synonym 'w spec_act = "(exn, 'w spec_world mach, unit) py"

definition make_call :: "'w built_spec \<Rightarrow> spec_call \<Rightarrow> 'w spec_act" where
  "make_call S c = (\<lambda>m.
     let m1 = m\<lparr>world := (world m)\<lparr>spec_calls := spec_calls (world m) @ [c]\<rparr>\<rparr>
     in case perform S c \<lparr>now = now m1, lags = lags m1, draws = draws m1, world = spec_rest (world m1)\<rparr> of
          None \<Rightarrow> None
        | Some (r, k) \<Rightarrow> Some (r, \<lparr>now = now k, lags = lags k, draws = draws k,
            world = (world m1)\<lparr>spec_rest := world k\<rparr>\<rparr>))"

text \<open>\<open>if self.x: self.x.Create()\<close> and \<open>if self.x: self.x.Delete()\<close>\<close>

definition create_held :: "'w built_spec \<Rightarrow> slot \<Rightarrow> 'w spec_act" where
  "create_held S s = whenM (s \<in> holds S) (make_call S (CreateOf s False))"

definition delete_held :: "'w built_spec \<Rightarrow> slot \<Rightarrow> 'w spec_act" where
  "delete_held S s = whenM (s \<in> holds S) (make_call S (DeleteOf s False))"

text \<open>
  \<open>background_tasks.RunThreaded\<close>: the exceptions of all the calls, and ThreadException if any.  A thread
  that ends with an exception of another kind is waited for for ever.
\<close>

fun each :: "('a \<Rightarrow> (exn, 's, unit) py) \<Rightarrow> 'a list \<Rightarrow> (exn, 's, exn list) py" where
  "each f [] = ret []"
| "each f (x # xs) = bindM
     (catchM (thenM (f x) (ret [])) (\<lambda>e. if is_exception e then ret [e] else (\<lambda>_. None)))
     (\<lambda>es. bindM (each f xs) (\<lambda>es'. ret (es @ es')))"

definition threaded :: "('a \<Rightarrow> (exn, 's, unit) py) \<Rightarrow> 'a list \<Rightarrow> (exn, 's, unit) py" where
  "threaded f xs = bindM (each f xs) (\<lambda>es. if es = [] then ret ()
     else raise (exn (VmUtil ThreadException) (str_join [CHR 0x0A] (map str_of es))))"

text \<open>\<open>try: m except Exception: log\<close>\<close>

definition swallow :: "(exn, 's, unit) py \<Rightarrow> (exn, 's, unit) py" where
  "swallow m = catchM m (\<lambda>e. if is_exception e then ret () else raise e)"

text \<open>\<open>BenchmarkSpec.vm_groups\<close> and \<open>BenchmarkSpec.vms\<close>\<close>

definition vm_groups_of :: "'w built_spec \<Rightarrow> 'w \<Rightarrow> (string \<times> nat list) list" where
  "vm_groups_of S w = dict_update (unmanaged_vm_groups S) (map (\<lambda>g. (g, managed_vms S g w)) (managed_vm_groups S))"

definition vms_of :: "'w built_spec \<Rightarrow> 'w \<Rightarrow> nat list" where
  "vms_of S w = concat (map snd (vm_groups_of S w))"

definition with_rest :: "('w \<Rightarrow> 'b) \<Rightarrow> ('b \<Rightarrow> 'w spec_act) \<Rightarrow> 'w spec_act" where
  "with_rest f g = bindM (getM (\<lambda>m. f (spec_rest (world m)))) g"


section \<open>Provision\<close>

definition provision_networks :: "'w built_spec \<Rightarrow> 'w spec_act" where
  "provision_networks S =
     (let networks = sort (network_keys S) in seqM [
        whenM (reservation_count S \<noteq> 0)
          (threaded (\<lambda>i. make_call S (CreateOf (Reservation i) False)) [0..<reservation_count S]),
        threaded (\<lambda>k. make_call S (CreateOf (Network k) False)) networks,
        whenM (vpc_peering S)
          (if length networks > 2
           then raise (exn Error ''Networks of that size are not currently supported.'')
           else whenM (length networks = 2) (make_call S (PeerNetworks (networks ! 0) (networks ! 1))))])"

definition provision_containers :: "'w built_spec \<Rightarrow> 'w spec_act" where
  "provision_containers S = seqM [
     whenM (Registry \<in> holds S) (thenM (make_call S (CreateOf Registry False))
       (forM (container_specs S) (\<lambda>(_, static_image, image).
         whenM (\<not> static_image) (make_call S (GetOrBuild image))))),
     create_held S ContainerCluster]"

definition provision_storage :: "'w built_spec \<Rightarrow> 'w spec_act" where
  "provision_storage S = seqM [
     whenM (\<not> nfs_unmanaged S) (create_held S Nfs),
     create_held S Lustre, create_held S Smb, create_held S MultiAttachDisk,
     forM (placement_keys S) (\<lambda>k. make_call S (CreateOf (PlacementGroup k) False))]"

definition key_error :: "string \<Rightarrow> exn" where
  "key_error k = exn (Builtin KeyError) k"

text \<open>The names of the groups, sorted by their \<open>provision_order\<close>\<close>

definition ordered_groups :: "'w built_spec \<Rightarrow> string list \<Rightarrow> exn + string list" where
  "ordered_groups S names = (case find (\<lambda>g. provision_order S g = None) names of
     Some g \<Rightarrow> Inl (key_error g)
   | None \<Rightarrow> Inr (sort_key (\<lambda>g. the (provision_order S g)) names))"

definition boot_group :: "'w built_spec \<Rightarrow> string \<Rightarrow> 'w spec_act" where
  "boot_group S g = with_rest (\<lambda>w. map_of (vm_groups_of S w) g) (\<lambda>found. case found of
     None \<Rightarrow> raise (key_error g)
   | Some vs \<Rightarrow> whenM (vs \<noteq> []) (thenM
       (whenM (provision_delay_seconds S g \<noteq> 0) (time_sleep (provision_delay_seconds S g)))
       (threaded (\<lambda>v. thenM (whenM (post_task_delay S \<noteq> 0) (time_sleep (post_task_delay S)))
          (make_call S (CreateOf (Vm v) False))) vs)))"

definition boot_groups :: "'w built_spec \<Rightarrow> 'w spec_act" where
  "boot_groups S = with_rest (\<lambda>w. map fst (vm_groups_of S w)) (\<lambda>names.
     case ordered_groups S names of
       Inl e \<Rightarrow> raise e | Inr gs \<Rightarrow> forM gs (boot_group S))"

definition provision_vms :: "'w built_spec \<Rightarrow> 'w spec_act" where
  "provision_vms S = with_rest (vms_of S) (\<lambda>vs.
     whenM (vs \<noteq> [] \<or> managed_vm_groups S \<noteq> []) (seqM [
       boot_groups S,
       forM (managed_vm_groups S) (\<lambda>g. make_call S (CreateOf (ManagedGroup g) False)),
       whenM (nfs_unmanaged S) (create_held S Nfs),
       whenM (\<not> skip_vm_preparation S)
         (with_rest (vms_of S) (\<lambda>vs. threaded (\<lambda>v. make_call S (PrepareAfterBoot v)) vs)),
       with_rest (vms_of S) (\<lambda>vs.
         make_call S (GenerateSSHConfig (filter (\<lambda>v. \<not> runs_windows S v) vs)))]))"

definition import_vm_groups :: "'w built_spec \<Rightarrow> 'w spec_act" where
  "import_vm_groups S = with_rest (vm_groups_of S) (\<lambda>groups.
     case map_of groups ''headnode'' of
       None \<Rightarrow> raise (key_error ''headnode'')
     | Some [] \<Rightarrow> raise (exn (Builtin IndexError) ''list index out of range'')
     | Some (v # vs) \<Rightarrow> (case map_of groups ''workers'' of
         None \<Rightarrow> raise (key_error ''workers'') | Some _ \<Rightarrow> make_call S ImportVmGroups))"

definition provision_database :: "'w built_spec \<Rightarrow> slot \<Rightarrow> 'w spec_act" where
  "provision_database S db = whenM (db \<in> holds S)
     (thenM (make_call S (SetVms db)) (make_call S (CreateOf db (restores S))))"

definition provision_warehouse :: "'w built_spec \<Rightarrow> 'w spec_act" where
  "provision_warehouse S = whenM (EdwService \<in> holds S) (thenM
     (whenM (redshift S) (forM (sort (network_keys S)) (\<lambda>k.
        whenM (aws_network S k) (make_call S (SetSubnet k)))))
     (make_call S (CreateOf EdwService False)))"

definition provision_services :: "'w built_spec \<Rightarrow> 'w spec_act" where
  "provision_services S = seqM [
     whenM (Cluster \<in> holds S)
       (thenM (whenM (cluster_unmanaged S) (import_vm_groups S)) (make_call S (CreateOf Cluster False))),
     create_held S Dpb,
     provision_database S RelationalDb, provision_database S NonRelationalDb,
     create_held S Key,
     whenM (tpu_count S \<noteq> 0) (threaded (\<lambda>i. make_call S (CreateOf (Tpu i) False)) [0..<tpu_count S]),
     create_held S AiModel, create_held S Pinecone, create_held S VectorSearch,
     provision_warehouse S,
     create_held S EdwCompute, create_held S MemoryStore, create_held S ExampleResource,
     create_held S BaseJob, create_held S VpnService, create_held S Messaging,
     create_held S DataDiscovery]"

definition Provision_spec :: "'w built_spec \<Rightarrow> 'w spec_act" where
  "Provision_spec S = seqM [provision_networks S, provision_containers S, provision_storage S,
     provision_vms S, provision_services S]"

section \<open>Delete\<close>

definition file_not_found :: exn_class where
  "file_not_found = Subclass (Builtin Exception) ''FileNotFoundError'' None"

text \<open>\<open>Freeze\<close>\<close>

definition FreezeSpec :: "'w built_spec \<Rightarrow> 'w spec_act" where
  "FreezeSpec S = (case freeze_to S of
     None \<Rightarrow> ret ()
   | Some path \<Rightarrow> if path = [] then ret ()
       else catchM (make_call S (PickleTo path)) (\<lambda>e. if isinstance e file_not_found
         then make_call S (PickleTo (default_freeze_path S)) else raise e))"

definition delete_services :: "'w built_spec \<Rightarrow> 'w spec_act" where
  "delete_services S = (let should_freeze = (freeze_to S \<noteq> None) in seqM [
     delete_held S Registry, delete_held S Dpb,
     whenM (RelationalDb \<in> holds S) (make_call S (DeleteOf RelationalDb should_freeze)),
     whenM (NonRelationalDb \<in> holds S) (make_call S (DeleteOf NonRelationalDb should_freeze)),
     delete_held S Key,
     whenM (tpu_count S \<noteq> 0) (threaded (\<lambda>i. make_call S (DeleteOf (Tpu i) False)) [0..<tpu_count S]),
     delete_held S EdwService, delete_held S EdwCompute, delete_held S ExampleResource,
     delete_held S BaseJob, delete_held S Nfs, delete_held S Lustre, delete_held S Smb,
     delete_held S MultiAttachDisk, delete_held S Messaging, delete_held S MemoryStore,
     delete_held S AiModel, delete_held S DataDiscovery, delete_held S Pinecone,
     delete_held S VectorSearch])"

text \<open>\<open>DeleteVm\<close>\<close>

definition DeleteVm :: "'w built_spec \<Rightarrow> nat \<Rightarrow> 'w spec_act" where
  "DeleteVm S v = thenM (whenM (cleans_packages S v) (make_call S (PackageCleanup v)))
     (make_call S (DeleteOf (Vm v) False))"

definition delete_vms :: "'w built_spec \<Rightarrow> 'w spec_act" where
  "delete_vms S = seqM [
     whenM (reservation_count S \<noteq> 0)
       (swallow (threaded (\<lambda>i. make_call S (DeleteOf (Reservation i) False)) [0..<reservation_count S])),
     whenM (managed_vm_groups S \<noteq> [])
       (threaded (\<lambda>g. make_call S (DeleteOf (ManagedGroup g) False)) (managed_vm_groups S)),
     with_rest (vms_of S) (\<lambda>vs. whenM (vs \<noteq> []) (swallow (thenM
       (with_rest (vms_of S) (threaded (DeleteVm S)))
       (with_rest (vms_of S) (threaded (\<lambda>v. make_call S (DeleteScratchDisks v)))))))]"

definition delete_infrastructure :: "'w built_spec \<Rightarrow> 'w spec_act" where
  "delete_infrastructure S = seqM [
     forM (placement_keys S) (\<lambda>k. make_call S (DeleteOf (PlacementGroup k) False)),
     forM (firewall_keys S) (\<lambda>k. swallow (make_call S (DisallowAllPorts k))),
     whenM (ContainerCluster \<in> holds S) (seqM [make_call S DeleteServices, make_call S DeleteContainers,
       make_call S (DeleteOf ContainerCluster False)]),
     delete_held S Cluster,
     forM (network_keys S) (\<lambda>k. swallow (make_call S (DeleteOf (Network k) False))),
     delete_held S VpnService]"

definition Delete_spec :: "'w built_spec \<Rightarrow> 'w spec_act" where
  "Delete_spec S = bindM (getM (\<lambda>m. spec_deleted (world m))) (\<lambda>done. if done then ret () else seqM [
     whenM (freeze_to S \<noteq> None) (FreezeSpec S),
     delete_services S, delete_vms S, delete_infrastructure S,
     modifyM (\<lambda>m. m\<lparr>world := (world m)\<lparr>spec_deleted := True\<rparr>\<rparr>)])"

section \<open>Other calls of the resources\<close>

text \<open>\<open>Prepare\<close>, \<open>StartBackgroundWorkload\<close>, \<open>StopBackgroundWorkload\<close>\<close>

definition Prepare_spec :: "'w built_spec \<Rightarrow> 'w spec_act" where
  "Prepare_spec S = with_rest (vms_of S) (threaded (\<lambda>v. make_call S (PrepareBackgroundWorkload v)))"

definition StartBackgroundWorkload_spec :: "'w built_spec \<Rightarrow> 'w spec_act" where
  "StartBackgroundWorkload_spec S = with_rest (vms_of S) (threaded (\<lambda>v. make_call S (StartWorkload v)))"

definition StopBackgroundWorkload_spec :: "'w built_spec \<Rightarrow> 'w spec_act" where
  "StopBackgroundWorkload_spec S = with_rest (vms_of S) (threaded (\<lambda>v. make_call S (StopWorkload v)))"


section \<open>Which calls are made\<close>

definition logged :: "spec_call \<Rightarrow> 'w spec_world mach \<Rightarrow> bool" where
  "logged c m = (c \<in> set (spec_calls (world m)))"

text \<open>A statement makes a call if it has been made when the statement returns, and tries it if it has
  been made also when the statement raises an exception.\<close>

definition makes :: "spec_call \<Rightarrow> (exn, 'w spec_world mach, 'a) py \<Rightarrow> bool" where
  "makes c f = (\<forall>m. wp f (\<lambda>_. logged c) (\<lambda>_ _. True) m)"

definition tries :: "spec_call \<Rightarrow> (exn, 'w spec_world mach, 'a) py \<Rightarrow> bool" where
  "tries c f = (\<forall>m. wp f (\<lambda>_. logged c) (\<lambda>_. logged c) m)"

named_theorems makes_intros \<open>statements that make a call\<close>

lemma tries_makes: "tries c f \<Longrightarrow> makes c f"
  unfolding tries_def makes_def by (blast intro: wp_mono)

lemma make_call_logs:
  "make_call S c m = Some (r, m') \<Longrightarrow> spec_calls (world m') = spec_calls (world m) @ [c]
     \<and> spec_deleted (world m') = spec_deleted (world m)"
  by (auto simp: make_call_def Let_def split: option.splits)

lemma wp_make_call:
  assumes "\<And>m'. spec_calls (world m') = spec_calls (world m) @ [c] \<Longrightarrow> spec_deleted (world m') = spec_deleted (world m)
    \<Longrightarrow> Q () m' \<and> (\<forall>e. E e m')"
  shows "wp (make_call S c) Q E m"
  by (rule wpI) (use make_call_logs assms in fastforce)+

lemma tries_make_call: "tries c (make_call S c)"
  unfolding tries_def by (auto intro!: wp_make_call simp: logged_def)

lemmas makes_make_call [makes_intros] = tries_makes [OF tries_make_call]

lemma keeps_make_call [keeps_intros]: "keeps (logged c) (make_call S d)"
  by (rule keepsI) (auto intro!: wp_make_call simp: logged_def)

lemma logged_time_sleep [keeps_intros]: "keeps (logged c) (time_sleep d)"
  by (simp add: keeps_def wp_def time_sleep_def logged_def)

text \<open>Loops and threads\<close>

lemma keeps_hang [keeps_intros]: "keeps I (\<lambda>_. None)"
  by (simp add: keeps_def wp_def)

lemma keeps_each [keeps_intros]: "(\<And>x. x \<in> set xs \<Longrightarrow> keeps I (f x)) \<Longrightarrow> keeps I (each f xs)"
  by (induction xs) (auto intro!: keeps_intros)

lemma keeps_threaded [keeps_intros]: "(\<And>x. x \<in> set xs \<Longrightarrow> keeps I (f x)) \<Longrightarrow> keeps I (threaded f xs)"
  unfolding threaded_def by (intro keeps_intros)

lemma keeps_swallow [keeps_intros]: "keeps I f \<Longrightarrow> keeps I (swallow f)"
  unfolding swallow_def by (intro keeps_intros)

lemma keeps_with_rest [keeps_intros]: "(\<And>x. keeps I (g x)) \<Longrightarrow> keeps I (with_rest f g)"
  unfolding with_rest_def by (intro keeps_intros)

lemma keeps_held [keeps_intros]: "keeps (logged c) (create_held S s)" "keeps (logged c) (delete_held S s)"
  unfolding create_held_def delete_held_def by (intro keeps_intros)+

lemma wp_hang: "wp (\<lambda>_. None) Q E m"
  by (simp add: wp_def)

lemma tries_each:
  fixes f :: "'a \<Rightarrow> 'w spec_act"
  shows "\<lbrakk>x \<in> set xs; tries c (f x); \<And>y. y \<in> set xs \<Longrightarrow> keeps (logged c) (f y)\<rbrakk> \<Longrightarrow> tries c (each f xs)"
proof (induction xs)
  case (Cons y ys)
  have step: "wp (catchM (thenM (f y) (ret [])) (\<lambda>e. if is_exception e then ret [e] else (\<lambda>_. None))) Q E m" if "wp (f y) (\<lambda>_. P) (\<lambda>_. P) m"
    "\<And>es t. P t \<Longrightarrow> Q es t" for Q E P and m :: "'w spec_world mach"
    unfolding wp_catchM wp_thenM wp_ret
    by (rule wp_mono [OF that(1)]) (simp_all add: wp_ret that(2) wp_hang)
  have rest: "keeps (logged c) (each f ys)"
    by (rule keeps_each) (use Cons.prems(3) in simp)
  show ?case
  proof (cases "x = y")
    case True
    show ?thesis unfolding tries_def each.simps wp_bindM
    proof (intro allI, rule step [where P = "logged c"])
      fix m show "wp (f y) (\<lambda>_. logged c) (\<lambda>_. logged c) m"
        using Cons.prems(2) True by (simp add: tries_def)
      fix es and t :: "'w spec_world mach"
      assume "logged c t"
      from keepsD [OF rest this] show "wp (each f ys) (\<lambda>es'. wp (ret (es @ es')) (\<lambda>_. logged c) (\<lambda>_. logged c)) (\<lambda>_. logged c) t"
        unfolding wp_ret by (rule wp_mono) simp_all
    qed
  next
    case False
    with Cons have "tries c (each f ys)" by simp
    then have tried: "wp (each f ys) (\<lambda>_. logged c) (\<lambda>_. logged c) t" for t by (simp add: tries_def)
    show ?thesis unfolding tries_def each.simps wp_bindM wp_ret
    proof (intro allI, rule step [where P = "\<lambda>_. True"])
      fix m show "wp (f y) (\<lambda>_ _. True) (\<lambda>_ _. True) m"
        by (rule wpI) simp_all
    qed (rule tried)
  qed
qed simp

lemma tries_threaded:
  fixes f :: "'a \<Rightarrow> 'w spec_act"
  assumes "x \<in> set xs" and "tries c (f x)" and "\<And>y. y \<in> set xs \<Longrightarrow> keeps (logged c) (f y)"
  shows "tries c (threaded f xs)"
proof -
  have "tries c (each f xs)" using assms by (rule tries_each)
  then show ?thesis unfolding threaded_def tries_def wp_bindM
    by (intro allI) (rule wp_mono, blast, auto simp: wp_simps)
qed

lemma makes_swallow: "tries c f \<Longrightarrow> makes c (swallow f)"
  unfolding tries_def makes_def swallow_def wp_catchM
  by (intro allI) (rule wp_mono, blast, auto simp: wp_simps)

lemma makes_thenM1: "makes c f \<Longrightarrow> keeps (logged c) g \<Longrightarrow> makes c (thenM f g)"
  unfolding makes_def wp_thenM
  by (intro allI) (rule wp_mono, blast, auto dest: keepsD intro: wp_mono)

lemma makes_thenM2: "makes c g \<Longrightarrow> makes c (thenM f g)"
  unfolding makes_def wp_thenM by (intro allI, rule wpI) simp_all

lemma tries_thenM1: "tries c f \<Longrightarrow> keeps (logged c) g \<Longrightarrow> tries c (thenM f g)"
  unfolding tries_def wp_thenM
  by (intro allI) (rule wp_mono, blast, auto dest: keepsD)

lemma makes_whenM: "b \<Longrightarrow> makes c f \<Longrightarrow> makes c (whenM b f)"
  by (simp add: whenM_def)

lemma makes_with_rest: "(\<And>w. makes c (g (f w))) \<Longrightarrow> makes c (with_rest f g)"
  unfolding makes_def with_rest_def wp_bindM wp_getM by blast

lemma makes_seqM:
  "\<lbrakk>f \<in> set fs; makes c f; list_all (keeps (logged c)) fs\<rbrakk> \<Longrightarrow> makes c (seqM fs)"
proof (induction fs)
  case (Cons g gs)
  then show ?case by (cases "f = g") (auto intro: makes_thenM1 makes_thenM2 keeps_seqM)
qed simp

lemma makes_forM:
  "\<lbrakk>x \<in> set xs; makes c (f x); \<And>y. y \<in> set xs \<Longrightarrow> keeps (logged c) (f y)\<rbrakk> \<Longrightarrow> makes c (forM xs f)"
proof (induction xs)
  case (Cons y ys)
  then show ?case by (cases "x = y") (auto intro: makes_thenM1 makes_thenM2 keeps_forM)
qed simp


section \<open>Deletion\<close>

lemma keeps_DeleteVm [keeps_intros]: "keeps (logged c) (DeleteVm S v)"
  unfolding DeleteVm_def by (intro keeps_intros)

lemma keeps_FreezeSpec: "keeps (logged c) (FreezeSpec S)"
  unfolding FreezeSpec_def by (intro keeps_intros)

lemma keeps_delete_services: "list_all (keeps (logged c))
    [delete_held S Registry, delete_held S Dpb,
     whenM (RelationalDb \<in> holds S) (make_call S (DeleteOf RelationalDb fz)),
     whenM (NonRelationalDb \<in> holds S) (make_call S (DeleteOf NonRelationalDb fz)),
     delete_held S Key,
     whenM (tpu_count S \<noteq> 0) (threaded (\<lambda>i. make_call S (DeleteOf (Tpu i) False)) [0..<tpu_count S]),
     delete_held S EdwService, delete_held S EdwCompute, delete_held S ExampleResource,
     delete_held S BaseJob, delete_held S Nfs, delete_held S Lustre, delete_held S Smb,
     delete_held S MultiAttachDisk, delete_held S Messaging, delete_held S MemoryStore,
     delete_held S AiModel, delete_held S DataDiscovery, delete_held S Pinecone,
     delete_held S VectorSearch]"
  unfolding list.pred_inject by (intro conjI list.pred_inject(1) keeps_intros)

lemma makes_delete_held: "s \<in> holds S \<Longrightarrow> makes (DeleteOf s False) (delete_held S s)"
  unfolding delete_held_def by (intro makes_whenM makes_make_call)

text \<open>The resources that are held in one attribute, by the part of Delete that is responsible.\<close>

definition service_slots :: "slot set" where
  "service_slots = {Registry, Dpb, RelationalDb, NonRelationalDb, Key, EdwService, EdwCompute, ExampleResource,
     BaseJob, Nfs, Lustre, Smb, MultiAttachDisk, Messaging, MemoryStore, AiModel, DataDiscovery, Pinecone,
     VectorSearch}"

definition infrastructure_slots :: "slot set" where
  "infrastructure_slots = {ContainerCluster, Cluster, VpnService}"

lemma delete_services_makes:
  assumes "s \<in> holds S" and "s \<in> service_slots"
  shows "\<exists>f. makes (DeleteOf s f) (delete_services S)"
proof (cases "s = RelationalDb \<or> s = NonRelationalDb")
  case True
  have "makes (DeleteOf s (freeze_to S \<noteq> None))
      (whenM (s \<in> holds S) (make_call S (DeleteOf s (freeze_to S \<noteq> None))))"
    using assms(1) by (intro makes_whenM makes_make_call)
  with True show ?thesis unfolding delete_services_def Let_def
    by (intro exI) (rule makes_seqM [OF _ _ keeps_delete_services], auto)
next
  case False
  with assms(2) show ?thesis unfolding delete_services_def Let_def
    by (intro exI [of _ False] makes_seqM [OF _ makes_delete_held [OF assms(1)] keeps_delete_services])
       (auto simp: service_slots_def)
qed

lemma delete_services_tpus:
  assumes "i < tpu_count S"
  shows "makes (DeleteOf (Tpu i) False) (delete_services S)"
proof -
  have "makes (DeleteOf (Tpu i) False)
      (whenM (tpu_count S \<noteq> 0) (threaded (\<lambda>i. make_call S (DeleteOf (Tpu i) False)) [0..<tpu_count S]))"
    by (rule makes_whenM, use assms in simp, rule tries_makes, rule tries_threaded [of i])
       (use assms in \<open>simp_all add: tries_make_call keeps_make_call\<close>)
  then show ?thesis unfolding delete_services_def Let_def
    by (rule makes_seqM [rotated, OF _ keeps_delete_services]) simp
qed

lemma keeps_delete_vms: "keeps (logged c) (delete_vms S)"
  unfolding delete_vms_def by (rule keeps_seqM, unfold list.pred_inject, intro conjI list.pred_inject(1) keeps_intros)

lemma keeps_delete_infrastructure: "keeps (logged c) (delete_infrastructure S)"
  unfolding delete_infrastructure_def
  by (rule keeps_seqM, unfold list.pred_inject, intro conjI list.pred_inject(1) keeps_intros)
     (simp_all add: keeps_make_call)


lemma tries_with_rest: "(\<And>w. tries c (g (f w))) \<Longrightarrow> tries c (with_rest f g)"
  unfolding tries_def with_rest_def wp_bindM wp_getM by blast

text \<open>\<open>succeeds f\<close>: \<open>f\<close> returns from every state; \<open>ends f\<close>: it returns or raises an Exception.\<close>

definition succeeds :: "(exn, 's, unit) py \<Rightarrow> bool" where
  "succeeds f = (\<forall>m. \<exists>m'. f m = Some (Inr (), m'))"

definition ends :: "(exn, 's, 'a) py \<Rightarrow> bool" where
  "ends f = (\<forall>m. \<exists>r m'. f m = Some (r, m') \<and> (\<forall>e. r = Inl e \<longrightarrow> is_exception e))"

lemma tries_DeleteVm:
  assumes "cleans_packages S v \<Longrightarrow> succeeds (perform S (PackageCleanup v))"
  shows "tries (DeleteOf (Vm v) False) (DeleteVm S v)"
proof (cases "cleans_packages S v")
  case False
  with tries_make_call [of "DeleteOf (Vm v) False" S] show ?thesis
    unfolding DeleteVm_def tries_def by (intro allI) (simp add: wp_simps)
next
  case True
  have "wp (make_call S (PackageCleanup v)) (\<lambda>_ _. True) (\<lambda>_ _. False) m" for m :: "'a spec_world mach"
  proof (rule wpI)
    fix e m'
    assume "make_call S (PackageCleanup v) m = Some (Inl e, m')"
    moreover obtain k' where "perform S (PackageCleanup v)
        \<lparr>now = now m, lags = lags m, draws = draws m, world = spec_rest (world m)\<rparr> = Some (Inr (), k')"
      using assms [OF True] unfolding succeeds_def by blast
    ultimately show False by (simp add: make_call_def Let_def)
  qed simp
  with tries_make_call [of "DeleteOf (Vm v) False" S] True show ?thesis
    unfolding DeleteVm_def tries_def wp_thenM
    by (intro allI) (auto simp: whenM_def intro: wp_mono)
qed

text \<open>If cleaning up the packages of a static VM raises, the VM is not told to delete itself.\<close>

lemma cleanup_failure_keeps_vm:
  assumes "cleans_packages S v" and "\<And>k. \<exists>k'. perform S (PackageCleanup v) k = Some (Inl e, k')"
  shows "\<exists>m'. DeleteVm S v m = Some (Inl e, m') \<and> spec_calls (world m') = spec_calls (world m) @ [PackageCleanup v]"
proof -
  obtain m' where m': "make_call S (PackageCleanup v) m = Some (Inl e, m')"
    using assms(2) [of "\<lparr>now = now m, lags = lags m, draws = draws m, world = spec_rest (world m)\<rparr>"]
    by (auto simp: make_call_def Let_def)
  from make_call_logs [OF this] m' assms(1) show ?thesis
    by (simp add: DeleteVm_def whenM_def thenM_def bindM_def)
qed

text \<open>The VMs of the groups that are not managed, whatever the managed groups are.\<close>

definition unmanaged_vms :: "'w built_spec \<Rightarrow> nat set" where
  "unmanaged_vms S = (\<Union>(g, vs) \<in> set (unmanaged_vm_groups S).
     if g \<in> set (managed_vm_groups S) then {} else set vs)"

text \<open>Those of them that a deletion reaches: the packages of a static VM have to be cleaned up without an exception.\<close>

definition reached_vms :: "'w built_spec \<Rightarrow> nat set" where
  "reached_vms S = {v \<in> unmanaged_vms S. cleans_packages S v \<longrightarrow> succeeds (perform S (PackageCleanup v))}"

lemma dict_update_keeps: "(g, vs) \<in> set d \<Longrightarrow> g \<notin> set (map fst e) \<Longrightarrow> (g, vs) \<in> set (dict_update d e)"
  unfolding dict_update_def
proof (induction e arbitrary: d)
  case (Cons kv e)
  obtain k v where kv: "kv = (k, v)" by (cases kv)
  have "(g, vs) \<in> set (dict_set d k v)" if "k \<noteq> g"
    using Cons.prems(1) that by (induction d k v rule: dict_set.induct) (auto split: if_splits)
  with Cons kv show ?case by auto
qed simp

lemma unmanaged_vms_in:
  assumes "v \<in> unmanaged_vms S"
  shows "v \<in> set (vms_of S w)"
proof -
  obtain g vs where g: "(g, vs) \<in> set (unmanaged_vm_groups S)" "g \<notin> set (managed_vm_groups S)" "v \<in> set vs"
    using assms by (auto simp: unmanaged_vms_def split: if_splits)
  have "(g, vs) \<in> set (vm_groups_of S w)"
    unfolding vm_groups_of_def using g by (intro dict_update_keeps) auto
  with g(3) show ?thesis by (force simp: vms_of_def)
qed

lemma keeps_delete_vm_parts: "list_all (keeps (logged c))
    [whenM (reservation_count S \<noteq> 0)
       (swallow (threaded (\<lambda>i. make_call S (DeleteOf (Reservation i) False)) [0..<reservation_count S])),
     whenM (managed_vm_groups S \<noteq> [])
       (threaded (\<lambda>g. make_call S (DeleteOf (ManagedGroup g) False)) (managed_vm_groups S)),
     with_rest (vms_of S) (\<lambda>vs. whenM (vs \<noteq> []) (swallow (thenM
       (with_rest (vms_of S) (threaded (DeleteVm S)))
       (with_rest (vms_of S) (threaded (\<lambda>v. make_call S (DeleteScratchDisks v)))))))]"
  by (simp only: list.pred_inject, intro conjI TrueI keeps_intros)

lemma delete_vms_reservations:
  assumes "i < reservation_count S"
  shows "makes (DeleteOf (Reservation i) False) (delete_vms S)"
proof -
  have "makes (DeleteOf (Reservation i) False) (whenM (reservation_count S \<noteq> 0)
       (swallow (threaded (\<lambda>i. make_call S (DeleteOf (Reservation i) False)) [0..<reservation_count S])))"
    by (rule makes_whenM, use assms in simp, rule makes_swallow, rule tries_threaded [of i])
       (use assms in \<open>simp_all add: tries_make_call keeps_make_call\<close>)
  then show ?thesis unfolding delete_vms_def
    by (rule makes_seqM [rotated, OF _ keeps_delete_vm_parts]) simp
qed

lemma delete_vms_managed:
  assumes "g \<in> set (managed_vm_groups S)"
  shows "makes (DeleteOf (ManagedGroup g) False) (delete_vms S)"
proof -
  have "makes (DeleteOf (ManagedGroup g) False) (whenM (managed_vm_groups S \<noteq> [])
       (threaded (\<lambda>g. make_call S (DeleteOf (ManagedGroup g) False)) (managed_vm_groups S)))"
    by (rule makes_whenM, use assms in auto, rule tries_makes, rule tries_threaded [of g])
       (use assms in \<open>simp_all add: tries_make_call keeps_make_call\<close>)
  then show ?thesis unfolding delete_vms_def
    by (rule makes_seqM [rotated, OF _ keeps_delete_vm_parts]) simp
qed

lemma delete_vms_vm:
  assumes "v \<in> reached_vms S"
  shows "makes (DeleteOf (Vm v) False) (delete_vms S)"
proof -
  let ?c = "DeleteOf (Vm v) False"
  have v: "v \<in> unmanaged_vms S" "cleans_packages S v \<Longrightarrow> succeeds (perform S (PackageCleanup v))"
    using assms by (simp_all add: reached_vms_def)
  have first: "tries ?c (with_rest (vms_of S) (threaded (DeleteVm S)))"
    by (intro tries_with_rest tries_threaded [of v] unmanaged_vms_in v tries_DeleteVm keeps_DeleteVm)
  have "makes ?c (with_rest (vms_of S) (\<lambda>vs. whenM (vs \<noteq> []) (swallow (thenM
       (with_rest (vms_of S) (threaded (DeleteVm S)))
       (with_rest (vms_of S) (threaded (\<lambda>v. make_call S (DeleteScratchDisks v))))))))"
  proof (rule makes_with_rest, rule makes_whenM)
    show "vms_of S w \<noteq> []" for w using unmanaged_vms_in [OF v(1), of w] by auto
  qed (intro makes_swallow tries_thenM1 first keeps_intros)
  then show ?thesis unfolding delete_vms_def
    by (rule makes_seqM [rotated, OF _ keeps_delete_vm_parts]) simp
qed

lemma keeps_infrastructure_parts: "list_all (keeps (logged c))
    [forM (placement_keys S) (\<lambda>k. make_call S (DeleteOf (PlacementGroup k) False)),
     forM (firewall_keys S) (\<lambda>k. swallow (make_call S (DisallowAllPorts k))),
     whenM (ContainerCluster \<in> holds S) (seqM [make_call S DeleteServices, make_call S DeleteContainers,
       make_call S (DeleteOf ContainerCluster False)]),
     delete_held S Cluster,
     forM (network_keys S) (\<lambda>k. swallow (make_call S (DeleteOf (Network k) False))),
     delete_held S VpnService]"
  by (simp only: list.pred_inject, intro conjI TrueI keeps_intros) (simp_all add: keeps_make_call)

lemma delete_infrastructure_makes:
  "k \<in> set (placement_keys S) \<Longrightarrow> makes (DeleteOf (PlacementGroup k) False) (delete_infrastructure S)"
  "k \<in> set (network_keys S) \<Longrightarrow> makes (DeleteOf (Network k) False) (delete_infrastructure S)"
  "s \<in> holds S \<Longrightarrow> s \<in> infrastructure_slots \<Longrightarrow> makes (DeleteOf s False) (delete_infrastructure S)"
proof -
  assume k: "k \<in> set (placement_keys S)"
  have "makes (DeleteOf (PlacementGroup k) False)
      (forM (placement_keys S) (\<lambda>k. make_call S (DeleteOf (PlacementGroup k) False)))"
    by (rule makes_forM [OF k makes_make_call keeps_make_call])
  then show "makes (DeleteOf (PlacementGroup k) False) (delete_infrastructure S)"
    unfolding delete_infrastructure_def
    by (rule makes_seqM [rotated, OF _ keeps_infrastructure_parts]) simp
next
  assume k: "k \<in> set (network_keys S)"
  have "makes (DeleteOf (Network k) False)
      (forM (network_keys S) (\<lambda>k. swallow (make_call S (DeleteOf (Network k) False))))"
    by (rule makes_forM [OF k makes_swallow [OF tries_make_call]]) (intro keeps_intros)
  then show "makes (DeleteOf (Network k) False) (delete_infrastructure S)"
    unfolding delete_infrastructure_def
    by (rule makes_seqM [rotated, OF _ keeps_infrastructure_parts]) simp
next
  assume s: "s \<in> holds S" "s \<in> infrastructure_slots"
  show "makes (DeleteOf s False) (delete_infrastructure S)"
  proof (cases "s = ContainerCluster")
    case True
    have "makes (DeleteOf s False) (whenM (ContainerCluster \<in> holds S) (seqM [make_call S DeleteServices,
        make_call S DeleteContainers, make_call S (DeleteOf ContainerCluster False)]))"
      using s(1) unfolding True
      by (intro makes_whenM makes_seqM [where f = "make_call S (DeleteOf ContainerCluster False)"] makes_make_call)
         (simp_all add: keeps_make_call)
    then show ?thesis unfolding delete_infrastructure_def
      by (rule makes_seqM [rotated, OF _ keeps_infrastructure_parts]) simp
  next
    case False
    with s(2) show ?thesis unfolding delete_infrastructure_def
      by (intro makes_seqM [OF _ makes_delete_held [OF s(1)] keeps_infrastructure_parts])
         (auto simp: infrastructure_slots_def)
  qed
qed


section \<open>What is created is deleted\<close>

text \<open>\<open>creates_only A\<close>: only resources of \<open>A\<close> have been told to create themselves.\<close>

definition creates_only :: "slot set \<Rightarrow> 'w spec_world mach \<Rightarrow> bool" where
  "creates_only A m = (\<forall>s b. CreateOf s b \<in> set (spec_calls (world m)) \<longrightarrow> s \<in> A)"

definition provisioned :: "'w built_spec \<Rightarrow> slot set" where
  "provisioned S = holds S \<union> Reservation ` {..<reservation_count S} \<union> Network ` set (network_keys S)
     \<union> PlacementGroup ` set (placement_keys S) \<union> ManagedGroup ` set (managed_vm_groups S)
     \<union> Tpu ` {..<tpu_count S} \<union> range Vm"

definition deletable :: "'w built_spec \<Rightarrow> slot set" where
  "deletable S = holds S \<inter> (service_slots \<union> infrastructure_slots) \<union> Reservation ` {..<reservation_count S}
     \<union> Network ` set (network_keys S) \<union> PlacementGroup ` set (placement_keys S)
     \<union> ManagedGroup ` set (managed_vm_groups S) \<union> Tpu ` {..<tpu_count S}
     \<union> Vm ` reached_vms S"

named_theorems only_intros \<open>statements of Provision that create only what the spec holds\<close>

lemma only_create [only_intros]: "s \<in> A \<Longrightarrow> keeps (creates_only A) (make_call S (CreateOf s b))"
  by (rule keepsI) (auto intro!: wp_make_call simp: creates_only_def)

lemma only_call [only_intros]:
  "\<forall>s b. c \<noteq> CreateOf s b \<Longrightarrow> keeps (creates_only A) (make_call S c)"
  by (intro keepsI wp_make_call) (simp add: creates_only_def, metis)

lemma only_sleep [only_intros]: "keeps (creates_only A) (time_sleep d)"
  by (simp add: keeps_def wp_def time_sleep_def creates_only_def)

lemma only_whenM [only_intros]: "(b \<Longrightarrow> keeps I f) \<Longrightarrow> keeps I (whenM b f)"
  by (simp add: whenM_def keeps_ret)

lemma only_held [only_intros]: "holds S \<subseteq> A \<Longrightarrow> keeps (creates_only A) (create_held S s)"
  unfolding create_held_def by (intro only_intros) auto

lemmas only_control [only_intros] = keeps_seqM keeps_threaded keeps_forM keeps_with_rest keeps_raise keeps_if
  keeps_thenM keeps_option keeps_ret keeps_prod

lemma only_networks [only_intros]: "keeps (creates_only (provisioned S)) (provision_networks S)"
  unfolding provision_networks_def Let_def
  by (rule keeps_seqM, unfold list.pred_inject, intro conjI TrueI only_intros)
     (auto simp: provisioned_def)

lemma only_containers [only_intros]: "keeps (creates_only (provisioned S)) (provision_containers S)"
  unfolding provision_containers_def
  by (rule keeps_seqM, unfold list.pred_inject, intro conjI TrueI only_intros)
     (auto simp: provisioned_def)

lemma only_storage [only_intros]: "keeps (creates_only (provisioned S)) (provision_storage S)"
  unfolding provision_storage_def
  by (rule keeps_seqM, unfold list.pred_inject, intro conjI TrueI only_intros)
     (auto simp: provisioned_def)

lemma only_boot_group [only_intros]: "keeps (creates_only (provisioned S)) (boot_group S g)"
  unfolding boot_group_def
  by (intro only_intros) (auto simp: provisioned_def)

lemma only_boot_groups [only_intros]: "keeps (creates_only (provisioned S)) (boot_groups S)"
  unfolding boot_groups_def
  by (intro keeps_with_rest) (auto split: sum.split intro: only_intros)

lemma only_vms [only_intros]: "keeps (creates_only (provisioned S)) (provision_vms S)"
  unfolding provision_vms_def
  by (intro keeps_with_rest only_whenM keeps_seqM, unfold list.pred_inject, intro conjI TrueI only_intros)
     (auto simp: provisioned_def)

lemma only_import [only_intros]: "keeps (creates_only A) (import_vm_groups S)"
  unfolding import_vm_groups_def
  by (intro keeps_with_rest) (auto split: option.split list.split intro: only_intros)

lemma only_services [only_intros]: "keeps (creates_only (provisioned S)) (provision_services S)"
  unfolding provision_services_def provision_database_def provision_warehouse_def
  by (rule keeps_seqM, unfold list.pred_inject, intro conjI TrueI only_intros)
     (auto simp: provisioned_def)

lemma Provision_creates_only: "keeps (creates_only (provisioned S)) (Provision_spec S)"
  unfolding Provision_spec_def
  by (rule keeps_seqM, unfold list.pred_inject, intro conjI list.pred_inject(1) only_intros)

lemma keeps_delete_services_all: "keeps (logged c) (delete_services S)"
  unfolding delete_services_def Let_def by (rule keeps_seqM [OF keeps_delete_services])

lemma Delete_spec_makes:
  assumes "makes c f" and "f \<in> {delete_services S, delete_vms S, delete_infrastructure S}"
    and "\<not> spec_deleted (world m)" and "Delete_spec S m = Some (Inr (), m')"
  shows "logged c m'"
proof -
  let ?last = "modifyM (\<lambda>m. m\<lparr>world := (world m)\<lparr>spec_deleted := True\<rparr>\<rparr>) :: 'a spec_act"
  let ?parts = "[whenM (freeze_to S \<noteq> None) (FreezeSpec S), delete_services S, delete_vms S, delete_infrastructure S, ?last]"
  have "keeps (logged c) ?last" by (rule keeps_modifyM) (simp add: logged_def)
  then have "list_all (keeps (logged c)) ?parts"
    by (simp add: keeps_whenM keeps_FreezeSpec keeps_delete_services_all keeps_delete_vms keeps_delete_infrastructure)
  with assms(1,2) have "makes c (seqM ?parts)"
    by (intro makes_seqM [where f = f]) auto
  moreover have "seqM ?parts m = Some (Inr (), m')"
    using assms(3,4) by (simp add: Delete_spec_def bindM_def getM_def)
  ultimately show ?thesis unfolding makes_def by (blast dest: wp_returnsD)
qed

lemma deletable_is_deleted:
  assumes "s \<in> deletable S"
  shows "\<exists>f part. makes (DeleteOf s f) part \<and> part \<in> {delete_services S, delete_vms S, delete_infrastructure S}"
proof -
  from assms consider
      "s \<in> holds S" "s \<in> service_slots" | "s \<in> holds S" "s \<in> infrastructure_slots"
    | i where "s = Reservation i" "i < reservation_count S" | k where "s = Network k" "k \<in> set (network_keys S)"
    | k where "s = PlacementGroup k" "k \<in> set (placement_keys S)"
    | g where "s = ManagedGroup g" "g \<in> set (managed_vm_groups S)" | i where "s = Tpu i" "i < tpu_count S"
    | v where "s = Vm v" "v \<in> reached_vms S"
    unfolding deletable_def by blast
  then show ?thesis
  proof cases
    case 1 then show ?thesis using delete_services_makes by blast
  next
    case 8 then show ?thesis using delete_vms_vm by blast
  qed (use delete_infrastructure_makes delete_vms_reservations delete_vms_managed delete_services_tpus in blast)+
qed

text \<open>C18: Delete of a BenchmarkSpec misses nothing that Provision has created.  Whether Provision returned
  or raised an exception, and whatever happens in between: for every resource that was told to create
  itself - the services, capacity reservations, networks, placement groups, managed groups, TPUs and the
  VMs of the groups that are not managed - a Delete that returns has told it to delete itself.  Of a static VM
  whose packages are cleaned up first, the cleaning must return; VMs of managed groups are left to the deletion
  of their group.
\<close>

theorem provisioned_is_deleted:
  assumes "spec_calls (world m) = []" and "Provision_spec S m = Some (r, m1)"
    and "CreateOf s b \<in> set (spec_calls (world m1))"
    and "s \<in> range Vm \<Longrightarrow> s \<in> Vm ` reached_vms S"
    and "holds S \<subseteq> service_slots \<union> infrastructure_slots"
    and "\<not> spec_deleted (world m2)" and "Delete_spec S m2 = Some (Inr (), m3)"
  shows "\<exists>f. DeleteOf s f \<in> set (spec_calls (world m3))"
proof -
  have "creates_only (provisioned S) m" using assms(1) by (simp add: creates_only_def)
  then have "creates_only (provisioned S) m1"
    using keepsD [OF Provision_creates_only] assms(2) by (blast intro: wp_outcome)
  with assms(3) have "s \<in> provisioned S" by (auto simp: creates_only_def)
  with assms(4,5) have "s \<in> deletable S" by (auto simp: provisioned_def deletable_def)
  then show ?thesis using deletable_is_deleted Delete_spec_makes [OF _ _ assms(6,7)]
    unfolding logged_def by blast
qed


text \<open>A BenchmarkSpec with a VM in a network, a key and a TPU\<close>

definition small_spec :: "unit built_spec" where
  "small_spec = \<lparr>perform = (\<lambda>_. ret ()), holds = {Key, VpnService}, reservation_count = 0,
     network_keys = [''net''], vpc_peering = True, container_specs = [], nfs_unmanaged = False,
     placement_keys = [''group''], unmanaged_vm_groups = [(''default'', [0])], managed_vm_groups = [],
     managed_vms = (\<lambda>_ _. []), provision_order = (\<lambda>_. Some 0), provision_delay_seconds = (\<lambda>_. 0),
     post_task_delay = 0,
     skip_vm_preparation = False, runs_windows = (\<lambda>_. False), cleans_packages = (\<lambda>_. False),
     cluster_unmanaged = False, redshift = False, aws_network = (\<lambda>_. False), tpu_count = 1,
     firewall_keys = [], restores = False, freeze_to = None, default_freeze_path = ''restore_spec.pickle''\<rparr>"

definition new_world :: "unit spec_world mach" where
  "new_world = some_mach \<lparr>spec_calls = [], spec_deleted = False, spec_rest = ()\<rparr>"

lemmas provision_defs = Provision_spec_def provision_networks_def provision_containers_def provision_storage_def
  provision_vms_def provision_services_def provision_database_def provision_warehouse_def boot_groups_def
  boot_group_def ordered_groups_def

lemmas delete_defs = Delete_spec_def delete_services_def delete_vms_def delete_infrastructure_def DeleteVm_def

lemmas call_defs = make_call_def create_held_def delete_held_def threaded_def swallow_def with_rest_def
  vms_of_def vm_groups_of_def dict_update_def time_sleep_def

lemma small_spec_provision:
  "Provision_spec small_spec new_world = Some (Inr (), new_world\<lparr>world := (world new_world)\<lparr>spec_calls :=
     [CreateOf (Network ''net'') False, CreateOf (PlacementGroup ''group'') False, CreateOf (Vm 0) False,
      PrepareAfterBoot 0, GenerateSSHConfig [0], CreateOf Key False, CreateOf (Tpu 0) False,
      CreateOf VpnService False]\<rparr>\<rparr>)"
  by (simp add: provision_defs call_defs py_defs small_spec_def new_world_def some_mach_def Let_def)

lemma small_spec_delete: "\<exists>m'. Delete_spec small_spec
     (new_world\<lparr>world := \<lparr>spec_calls = cs, spec_deleted = False, spec_rest = ()\<rparr>\<rparr>) = Some (Inr (), m')"
  by (simp add: delete_defs call_defs py_defs small_spec_def new_world_def some_mach_def Let_def)

theorem provisioned_is_deleted_witness:
  "\<exists>m1 m3. Provision_spec small_spec new_world = Some (Inr (), m1)
     \<and> CreateOf (Vm 0) False \<in> set (spec_calls (world m1)) \<and> Delete_spec small_spec m1 = Some (Inr (), m3)
     \<and> (\<exists>f. DeleteOf (Vm 0) f \<in> set (spec_calls (world m3)))"
proof -
  let ?m1 = "new_world\<lparr>world := (world new_world)\<lparr>spec_calls :=
     [CreateOf (Network ''net'') False, CreateOf (PlacementGroup ''group'') False, CreateOf (Vm 0) False,
      PrepareAfterBoot 0, GenerateSSHConfig [0], CreateOf Key False, CreateOf (Tpu 0) False,
      CreateOf VpnService False]\<rparr>\<rparr>"
  have "?m1 = new_world\<lparr>world := \<lparr>spec_calls = spec_calls (world ?m1), spec_deleted = False, spec_rest = ()\<rparr>\<rparr>"
    by (simp add: new_world_def some_mach_def)
  then obtain m3 where m3: "Delete_spec small_spec ?m1 = Some (Inr (), m3)" using small_spec_delete by metis
  have "\<exists>f. DeleteOf (Vm 0) f \<in> set (spec_calls (world m3))"
    by (rule provisioned_is_deleted [OF _ small_spec_provision _ _ _ _ m3])
       (auto simp: new_world_def some_mach_def small_spec_def reached_vms_def unmanaged_vms_def service_slots_def
          infrastructure_slots_def)
  with small_spec_provision m3 show ?thesis by (intro exI [of _ ?m1] exI [of _ m3] conjI) simp_all
qed


section \<open>Failures that Delete survives\<close>

text \<open>Calls of Delete whose exceptions are logged\<close>

fun tolerated :: "spec_call \<Rightarrow> bool" where
  "tolerated (DeleteOf (Reservation i) b) = True"
| "tolerated (DeleteOf (Vm v) b) = True"
| "tolerated (DeleteOf (Network k) b) = True"
| "tolerated (PackageCleanup v) = True"
| "tolerated (DeleteScratchDisks v) = True"
| "tolerated (DisallowAllPorts k) = True"
| "tolerated c = False"

text \<open>The other calls of Delete\<close>

fun essential :: "spec_call \<Rightarrow> bool" where
  "essential (DeleteOf s b) = (\<not> tolerated (DeleteOf s b))"
| "essential DeleteServices = True"
| "essential DeleteContainers = True"
| "essential (PickleTo p) = True"
| "essential c = False"

named_theorems ends_intros \<open>statements that succeed or end\<close>

lemma succeeds_ends: "succeeds f \<Longrightarrow> ends f"
  unfolding succeeds_def ends_def by (metis Inl_Inr_False)

lemma succeedsE: "succeeds f \<Longrightarrow> (\<And>m'. f m = Some (Inr (), m') \<Longrightarrow> P) \<Longrightarrow> P"
  unfolding succeeds_def by blast

lemma endsE: "ends f \<Longrightarrow> (\<And>r m'. f m = Some (r, m') \<Longrightarrow> (\<And>e. r = Inl e \<Longrightarrow> is_exception e) \<Longrightarrow> P) \<Longrightarrow> P"
  unfolding ends_def by blast

lemma succeeds_ret [ends_intros]: "succeeds (ret ())"
  by (simp add: succeeds_def ret_def)

lemma succeeds_thenM [ends_intros]: "succeeds f \<Longrightarrow> succeeds g \<Longrightarrow> succeeds (thenM f g)"
  unfolding succeeds_def thenM_def bindM_def by (metis (mono_tags, lifting) old.sum.simps(6) option.simps(5) prod.simps(2))

lemma succeeds_whenM [ends_intros]: "(b \<Longrightarrow> succeeds f) \<Longrightarrow> succeeds (whenM b f)"
  by (simp add: whenM_def succeeds_ret)

lemma succeeds_seqM [ends_intros]: "list_all succeeds fs \<Longrightarrow> succeeds (seqM fs)"
  by (induction fs) (auto intro: ends_intros)

lemma succeeds_forM [ends_intros]: "(\<And>x. x \<in> set xs \<Longrightarrow> succeeds (f x)) \<Longrightarrow> succeeds (forM xs f)"
  by (induction xs) (auto intro: ends_intros)

lemma succeeds_with_rest [ends_intros]: "(\<And>x. succeeds (g x)) \<Longrightarrow> succeeds (with_rest f g)"
  by (simp add: succeeds_def with_rest_def bindM_def getM_def)

lemma succeeds_swallow [ends_intros]: "ends f \<Longrightarrow> succeeds (swallow f)"
  unfolding succeeds_def
proof
  fix m assume "ends f"
  then show "\<exists>m'. swallow f m = Some (Inr (), m')"
    by (rule endsE [where m = m]) (auto simp: swallow_def catchM_def ret_def split: sum.split)
qed

lemma succeeds_make_call [ends_intros]:
  assumes "succeeds (perform S c)"
  shows "succeeds (make_call S c)"
  unfolding succeeds_def
proof
  fix m :: "'a spec_world mach"
  obtain k where "perform S c \<lparr>now = now m, lags = lags m, draws = draws m, world = spec_rest (world m)\<rparr> = Some (Inr (), k)"
    using assms unfolding succeeds_def by blast
  then show "\<exists>m'. make_call S c m = Some (Inr (), m')"
    by (simp add: make_call_def)
qed

lemma succeeds_threaded [ends_intros]:
  fixes f :: "'a \<Rightarrow> (exn, 's, unit) py"
  assumes "\<And>x. x \<in> set xs \<Longrightarrow> succeeds (f x)"
  shows "succeeds (threaded f xs)"
proof -
  have "\<exists>m'. each f xs m = Some (Inr [], m')" for m using assms
  proof (induction xs arbitrary: m)
    case (Cons x xs)
    obtain m1 where "f x m = Some (Inr (), m1)" using Cons.prems by (auto elim: succeedsE)
    moreover obtain m2 where "each f xs m1 = Some (Inr [], m2)" using Cons by auto
    ultimately show ?case by (simp add: py_defs)
  qed (simp add: ret_def)
  then have each: "\<And>m. \<exists>m'. each f xs m = Some (Inr [], m')" .
  show ?thesis unfolding succeeds_def
  proof
    fix m
    obtain m' where "each f xs m = Some (Inr [], m')" using each by blast
    then show "\<exists>m'. threaded f xs m = Some (Inr (), m')"
      by (simp add: threaded_def bindM_def ret_def)
  qed
qed

lemma ends_make_call [ends_intros]:
  assumes "ends (perform S c)"
  shows "ends (make_call S c)"
  unfolding ends_def
proof
  fix m :: "'a spec_world mach"
  obtain r k where "perform S c \<lparr>now = now m, lags = lags m, draws = draws m, world = spec_rest (world m)\<rparr> = Some (r, k)"
    "\<And>e. r = Inl e \<Longrightarrow> is_exception e" using assms unfolding ends_def by blast
  then show "\<exists>r m'. make_call S c m = Some (r, m') \<and> (\<forall>e. r = Inl e \<longrightarrow> is_exception e)"
    by (simp add: make_call_def)
qed

lemma ends_thenM [ends_intros]: "ends f \<Longrightarrow> ends g \<Longrightarrow> ends (thenM f g)"
  unfolding ends_def
proof
  fix m assume f: "\<forall>m. \<exists>r m'. f m = Some (r, m') \<and> (\<forall>e. r = Inl e \<longrightarrow> is_exception e)"
    and g: "\<forall>m. \<exists>r m'. g m = Some (r, m') \<and> (\<forall>e. r = Inl e \<longrightarrow> is_exception e)"
  obtain r m1 where 1: "f m = Some (r, m1)" "\<And>e. r = Inl e \<Longrightarrow> is_exception e" using f by blast
  obtain q m2 where "g m1 = Some (q, m2)" "\<And>e. q = Inl e \<Longrightarrow> is_exception e" using g by blast
  with 1 show "\<exists>r m'. thenM f g m = Some (r, m') \<and> (\<forall>e. r = Inl e \<longrightarrow> is_exception e)"
    by (cases r) (auto simp: thenM_def bindM_def)
qed

lemma ends_whenM [ends_intros]: "(b \<Longrightarrow> ends f) \<Longrightarrow> ends (whenM b f)"
  by (simp add: whenM_def succeeds_ends succeeds_ret)

lemma ends_with_rest [ends_intros]: "(\<And>x. ends (g x)) \<Longrightarrow> ends (with_rest f g)"
  by (simp add: ends_def with_rest_def bindM_def getM_def)

lemma ends_threaded [ends_intros]:
  fixes f :: "'a \<Rightarrow> (exn, 's, unit) py"
  assumes "\<And>x. x \<in> set xs \<Longrightarrow> ends (f x)"
  shows "ends (threaded f xs)"
proof -
  have "\<exists>es m'. each f xs m = Some (Inr es, m')" for m using assms
  proof (induction xs arbitrary: m)
    case (Cons x xs)
    have "ends (f x)" using Cons.prems by simp
    then obtain r m1 where f: "f x m = Some (r, m1)" "\<And>e. r = Inl e \<Longrightarrow> is_exception e"
      unfolding ends_def by blast
    moreover obtain es m2 where "each f xs m1 = Some (Inr es, m2)" using Cons by fastforce
    ultimately show ?case by (cases r) (simp_all add: py_defs)
  qed (simp add: ret_def)
  then have each: "\<And>m. \<exists>es m'. each f xs m = Some (Inr es, m')" .
  show ?thesis unfolding ends_def
  proof
    fix m
    obtain es m' where "each f xs m = Some (Inr es, m')" using each by blast
    then show "\<exists>r m'. threaded f xs m = Some (r, m') \<and> (\<forall>e. r = Inl e \<longrightarrow> is_exception e)"
      by (simp add: threaded_def bindM_def ret_def raise_def exn_defs)
  qed
qed


lemma wp_seqM_last:
  "(\<And>t. P (g t)) \<Longrightarrow> wp (seqM (fs @ [modifyM g])) (\<lambda>_. P) (\<lambda>_ _. True) m"
proof (induction fs arbitrary: m)
  case (Cons f fs)
  show ?case unfolding append_Cons wp_seqM_Cons
    by (rule wpI) (simp_all add: Cons)
qed (simp add: wp_simps)

text \<open>C19: Delete of a BenchmarkSpec survives the failures it is written to survive.  If every call that
  it makes, other than those on capacity reservations, VMs, scratch disks, firewalls and networks, returns, Delete
  returns from every state with the spec marked as deleted, whatever exceptions (of class Exception)
  those calls raise.  A second Delete does nothing.
\<close>

theorem Delete_spec_completes:
  assumes "\<And>c. tolerated c \<Longrightarrow> ends (perform S c)" and "\<And>c. essential c \<Longrightarrow> succeeds (perform S c)"
  shows "\<exists>m'. Delete_spec S m = Some (Inr (), m') \<and> spec_deleted (world m')
    \<and> Delete_spec S m' = Some (Inr (), m')"
proof -
  let ?last = "modifyM (\<lambda>m. m\<lparr>world := (world m)\<lparr>spec_deleted := True\<rparr>\<rparr>) :: 'a spec_act"
  let ?parts = "[whenM (freeze_to S \<noteq> None) (FreezeSpec S), delete_services S, delete_vms S, delete_infrastructure S]"
  note call = assms(2) ends_intros
  have freeze: "succeeds (FreezeSpec S)"
  proof -
    have "catchM (make_call S c) h = make_call S c" if "essential c" for c and h :: "exn \<Rightarrow> 'a spec_act"
    proof
      fix m
      have "succeeds (make_call S c)" by (intro call that)
      then obtain m' where "make_call S c m = Some (Inr (), m')" unfolding succeeds_def by blast
      then show "catchM (make_call S c) h m = make_call S c m" by (simp add: catchM_def)
    qed
    then show ?thesis unfolding FreezeSpec_def
      by (auto split: option.split intro!: call)
  qed
  have services: "succeeds (delete_services S)"
    unfolding delete_services_def Let_def delete_held_def
    by (rule succeeds_seqM, unfold list.pred_inject, intro conjI list.pred_inject(1) call) simp_all
  have vms: "succeeds (delete_vms S)"
    unfolding delete_vms_def DeleteVm_def
    by (rule succeeds_seqM, unfold list.pred_inject, intro conjI list.pred_inject(1) call assms(1)) simp_all
  have infrastructure: "succeeds (delete_infrastructure S)"
    unfolding delete_infrastructure_def delete_held_def
    by (rule succeeds_seqM, unfold list.pred_inject,
        intro conjI list.pred_inject(1) call succeeds_seqM assms(1)) (simp_all add: call)
  have "list_all succeeds (?parts @ [?last])"
    using freeze services vms infrastructure
    by (simp add: succeeds_whenM) (simp add: succeeds_def modifyM_def)
  then have "succeeds (seqM (?parts @ [?last]))" by (rule succeeds_seqM)
  moreover have "wp (seqM (?parts @ [?last])) (\<lambda>_ t. spec_deleted (world t)) (\<lambda>_ _. True) m"
    by (rule wp_seqM_last) simp
  ultimately show ?thesis
    by (cases "spec_deleted (world m)")
       (auto simp: Delete_spec_def bindM_def getM_def ret_def dest: wp_returnsD elim!: succeedsE [of _ m])
qed


definition failing_spec :: "unit built_spec" where
  "failing_spec = small_spec\<lparr>perform := (\<lambda>c. if tolerated c then raise (exn Error ''in use'') else ret ())\<rparr>"

theorem Delete_spec_completes_witness:
  "\<exists>m'. Delete_spec failing_spec new_world = Some (Inr (), m') \<and> spec_deleted (world m')"
proof -
  have "\<exists>m'. Delete_spec failing_spec new_world = Some (Inr (), m') \<and> spec_deleted (world m')
      \<and> Delete_spec failing_spec m' = Some (Inr (), m')"
    by (rule Delete_spec_completes)
       (auto simp: failing_spec_def ends_def succeeds_def raise_def ret_def exn_defs elim!: essential.elims)
  then show ?thesis by blast
qed

section \<open>Groups that are not to be booted\<close>

text \<open>
  A group that has VMs but is not in \<open>vms_to_boot\<close> stops Provision with a KeyError before any VM is
  created.  \<open>ConstructVirtualMachines\<close> makes such a group: the controller of a Juju cluster.
\<close>

lemma dict_update_keys: "set (map fst (dict_update d e)) = set (map fst d) \<union> fst ` set e"
  unfolding dict_update_def
proof (induction e arbitrary: d)
  case (Cons kv e)
  then show ?case by (cases kv) (auto simp: dict_set_keys simp del: set_map)
qed simp

lemma boot_groups_key_error:
  assumes "g \<in> set (map fst (unmanaged_vm_groups S))" and "provision_order S g = None"
  shows "\<exists>k. boot_groups S m = Some (Inl (key_error k), m) \<and> provision_order S k = None"
proof -
  let ?names = "map fst (vm_groups_of S (spec_rest (world m)))"
  have "g \<in> set ?names"
    unfolding vm_groups_of_def dict_update_keys using assms(1) by blast
  then obtain k where "find (\<lambda>g. provision_order S g = None) ?names = Some k" "provision_order S k = None"
    using assms(2) by (cases "find (\<lambda>g. provision_order S g = None) ?names") (auto simp: find_None_iff find_Some_iff)
  then show ?thesis
    by (intro exI [of _ k]) (simp add: boot_groups_def with_rest_def bindM_def getM_def ordered_groups_def raise_def)
qed

end
