(* ===== verification/SpecRun.thy ===== *)
theory SpecRun
  imports RunProperties SpecLifecycle
begin

text \<open>
  \<open>RunBenchmark\<close> with the resources of a BenchmarkSpec: \<open>Provision\<close>, \<open>Delete\<close> and the methods for
  background workloads of the run are those of \<open>SpecLifecycle\<close>.  Whatever fails in a run, the resources
  it has created are told to delete themselves.
\<close>

section \<open>Invariants of the outside of a run\<close>

text \<open>
  A predicate on the calls of a run and on its outside.  \<open>sustains K h\<close>: the method \<open>h\<close> keeps it.
\<close>

definition sustains :: "((string \<times> string) list \<Rightarrow> 'w \<Rightarrow> bool) \<Rightarrow> ('w, 'a) act \<Rightarrow> bool" where
  "sustains K h = (\<forall>cs. keeps (\<lambda>k. K cs (world k)) h)"

definition leaves_option :: "((string \<times> string) list \<Rightarrow> 'w \<Rightarrow> bool) \<Rightarrow> ('w, unit) act option \<Rightarrow> bool" where
  "leaves_option K h = (\<forall>f. h = Some f \<longrightarrow> sustains K f)"

definition env_leaves :: "((string \<times> string) list \<Rightarrow> 'w \<Rightarrow> bool) \<Rightarrow> 'w mach collector_env \<Rightarrow> bool" where
  "env_leaves K E = ((\<forall>p \<in> set (metadata_providers E). \<forall>md. sustains K (p md)) \<and> sustains K (uuid4 E)
     \<and> (\<forall>p \<in> set (publishers E). \<forall>ss. sustains K (publish p ss)))"

text \<open>The methods that are not methods of the BenchmarkSpec for its resources\<close>

definition others_leave :: "((string \<times> string) list \<Rightarrow> 'w \<Rightarrow> bool) \<Rightarrow> 'w ops \<Rightarrow> bool" where
  "others_leave K B = (
     (\<forall>s. sustains K (before_phase B s)) \<and> (\<forall>s. sustains K (after_phase B s)) \<and> sustains K (trigger_phase B)
   \<and> sustains K (benchmark_start B) \<and> sustains K (benchmark_end B) \<and> sustains K (register_tracers B)
   \<and> (\<forall>ss. sustains K (samples_created B ss)) \<and> sustains K (ConstructResources B)
   \<and> sustains K (CheckPrerequisites B) \<and> sustains K (Pickle B) \<and> sustains K (SpecGetSamples B)
   \<and> leaves_option K (BenchmarkPrepare B) \<and> leaves_option K (BenchmarkPrepareSystem B)
   \<and> leaves_option K (BenchmarkInstallPackages B) \<and> leaves_option K (BenchmarkStartServices B)
   \<and> sustains K (BenchmarkRun B) \<and> sustains K (BenchmarkCleanup B) \<and> (\<forall>x. sustains K (extra B x))
   \<and> sustains K (MeasureDelete B) \<and> (\<forall>v. sustains K (GenerateAndCaptureLogs B v))
   \<and> sustains K (UpdateInterruptibleVmStatus B) \<and> (\<forall>v. sustains K (GetNumTeardownSkippedVms B v))
   \<and> (\<forall>v. sustains K (UpdateTimeoutMetadata B v)) \<and> sustains K (join_checks B)
   \<and> (\<forall>s. sustains K (read_input B s)) \<and> (\<forall>s. sustains K (load_restore_spec B s))
   \<and> env_leaves K (collector_env_of B) \<and> (\<forall>f \<in> set (skip_pending_checks B). sustains K f))"

text \<open>The interface: what the methods keep, a whole run keeps.\<close>

locale outside_frame =
  fixes K :: "(string \<times> string) list \<Rightarrow> 'w \<Rightarrow> bool" and B :: "'w ops"
  assumes K_call: "K cs x \<Longrightarrow> fst n \<noteq> ''Delete'' \<Longrightarrow> K (cs @ [n]) x"
    and K_others: "others_leave K B"
    and K_spec: "sustains K (Provision B)" "sustains K (SpecPrepare B)"
      "sustains K (StartBackgroundWorkload B)" "sustains K (StopBackgroundWorkload B)"
    and K_delete: "keeps (\<lambda>m. K (calls (world m)) (ext (world m))) (call (''Delete'', []) (SpecDelete B))"
begin

abbreviation inv :: "'w run_world mach \<Rightarrow> bool" where
  "inv m \<equiv> K (calls (world m)) (ext (world m))"

lemma others:
  "sustains K (before_phase B s)" "sustains K (after_phase B s)" "sustains K (trigger_phase B)"
  "sustains K (benchmark_start B)" "sustains K (benchmark_end B)" "sustains K (register_tracers B)"
  "sustains K (samples_created B ss)" "sustains K (ConstructResources B)"
  "sustains K (CheckPrerequisites B)" "sustains K (Pickle B)" "sustains K (SpecGetSamples B)"
  "sustains K (BenchmarkRun B)" "sustains K (BenchmarkCleanup B)" "sustains K (extra B x)"
  "sustains K (MeasureDelete B)" "sustains K (GenerateAndCaptureLogs B v)"
  "sustains K (UpdateInterruptibleVmStatus B)" "sustains K (GetNumTeardownSkippedVms B v)"
  "sustains K (UpdateTimeoutMetadata B v)" "sustains K (join_checks B)"
  "sustains K (read_input B s)" "sustains K (load_restore_spec B s)"
  using K_others unfolding others_leave_def by blast+

lemma options:
  "BenchmarkPrepare B = Some f \<Longrightarrow> sustains K f" "BenchmarkPrepareSystem B = Some f \<Longrightarrow> sustains K f"
  "BenchmarkInstallPackages B = Some f \<Longrightarrow> sustains K f" "BenchmarkStartServices B = Some f \<Longrightarrow> sustains K f"
  "g \<in> set (skip_pending_checks B) \<Longrightarrow> sustains K g" "env_leaves K (collector_env_of B)"
  using K_others unfolding others_leave_def leaves_option_def by blast+

lemma keeps_on_ext: "sustains K h \<Longrightarrow> keeps inv (on_ext h)"
  unfolding sustains_def keeps_def
  by (auto simp: wp_def on_ext_def put_ext_def ext_mach_def split: option.splits sum.splits)
     (metis mach.select_convs(4))+

lemma keeps_set_run:
  "(\<And>w. calls (f w) = calls w \<and> ext (f w) = ext w) \<Longrightarrow> keeps inv (set_run f)"
  unfolding set_run_def by (rule keeps_modifyM) simp

lemma keeps_call: "sustains K h \<Longrightarrow> fst n \<noteq> ''Delete'' \<Longrightarrow> keeps inv (call n h)"
  unfolding call_def set_run_def
  by (intro keeps_thenM keeps_on_ext keeps_modifyM) (simp_all add: K_call)

lemma keeps_clock: "keeps inv time_time" "keeps inv (time_sleep d)"
  by (rule keepsI, simp add: wp_def mach_ops)+

lemma keeps_get_run: "keeps inv (get_run f)"
  by (simp add: get_run_def keeps_getM)

lemma keeps_new_sample: "keeps inv (new_sample a b c d e)"
  unfolding new_sample_def by (cases e) (auto intro!: keeps_intros keeps_clock)

lemma keeps_over: "keeps inv (modifyM (over at_detailed f))" "keeps inv (modifyM (over at_end_to_end f))"
  "keeps inv (modifyM (over at_collector g))"
  by (rule keeps_modifyM, simp add: at_detailed_def at_end_to_end_def at_collector_def)+

lemma keeps_Measure: "keeps inv f \<Longrightarrow> keeps inv (Measure at_detailed n f)"
  "keeps inv f \<Longrightarrow> keeps inv (Measure at_end_to_end n f)"
  unfolding Measure_def by (intro keeps_intros keeps_clock keeps_over; assumption)+

lemma keeps_add_metadata:
  "(\<And>p md. p \<in> set ps \<Longrightarrow> keeps inv (p md)) \<Longrightarrow> keeps inv (add_metadata ps md)"
  by (induction ps md rule: add_metadata.induct) (auto intro!: keeps_intros)

lemma keeps_collect: "keeps inv (collect B ss)"
  using options(6)
  unfolding collect_def AddSamples_def annotate_def run_env_def env_leaves_def
  by (auto intro!: keeps_intros keeps_add_metadata keeps_over keeps_on_ext)

lemma keeps_publish_all: "keeps inv (publish_all B)"
  using options(6)
  unfolding publish_all_def PublishSamples_def run_env_def env_leaves_def Let_def
  by (auto intro!: keeps_intros keeps_over keeps_on_ext)

lemma keeps_before_after: "keeps inv (before B stage)" "keeps inv (after B stage)"
  unfolding before_def after_def by (rule keeps_call, simp_all add: others)+

lemmas outside_intros = keeps_intros keeps_on_ext keeps_call keeps_clock keeps_get_run keeps_set_run
  keeps_new_sample keeps_Measure keeps_collect keeps_publish_all keeps_before_after K_spec others K_delete

lemma keeps_BenchmarkPrepareAll: "keeps inv (BenchmarkPrepareAll B)"
  unfolding BenchmarkPrepareAll_def opt_call_def
  by (auto intro!: outside_intros simp: options split: option.split)

lemma keeps_run_pass: "keeps inv (run_pass F B d n k p)"
  unfolding run_pass_def run_iteration_def run_attempt_def run_samples_def maybe_publish_def IsRunStageFinished_def
    Let_def
  by (auto intro!: outside_intros split: option.split)

lemma keeps_DoProvisionPhase: "keeps inv (DoProvisionPhase B)"
  unfolding DoProvisionPhase_def by (auto intro!: outside_intros)

lemma keeps_DoPreparePhase: "keeps inv (DoPreparePhase F B)"
  unfolding DoPreparePhase_def by (auto intro!: outside_intros keeps_BenchmarkPrepareAll)

lemma keeps_part_phases: "keeps inv (DoPrepareSystemPhase B)" "keeps inv (DoInstallPackagesPhase B)"
  "keeps inv (DoStartServicesPhase B)"
  unfolding DoPrepareSystemPhase_def DoInstallPackagesPhase_def DoStartServicesPhase_def part_phase_def
  by (auto intro!: outside_intros simp: options split: option.split)

lemma keeps_DoCleanupPhase: "keeps inv (DoCleanupPhase F B)"
  unfolding DoCleanupPhase_def by (auto intro!: outside_intros)

lemma keeps_DoTeardownPhase: "keeps inv (DoTeardownPhase F B)"
  unfolding DoTeardownPhase_def by (auto intro!: outside_intros)

lemma keeps_DoRunPhase: "keeps inv (DoRunPhase F B)"
  unfolding DoRunPhase_def by (auto intro!: outside_intros run_loop_keeps keeps_run_pass)

lemma keeps_EndCheckInterruptThread: "keeps inv (EndCheckInterruptThread B)"
  unfolding EndCheckInterruptThread_def by (auto intro!: outside_intros)

lemma keeps_checked: "keeps inv f \<Longrightarrow> keeps inv (checked B f)"
  unfolding checked_def EndCheckInterruptThreadAndRaiseError_def new_InterruptChecker_def assign_checker_def
  by (auto intro!: outside_intros keeps_EndCheckInterruptThread)

lemma keeps_stage_step: "keeps inv f \<Longrightarrow> keeps inv (stage_step F stage f)"
  unfolding stage_step_def by (auto intro!: outside_intros)

lemma keeps_CaptureVMLogs: "keeps inv (CaptureVMLogs F B)"
  unfolding CaptureVMLogs_def by (auto intro!: outside_intros)

lemma keeps_PublishFailedRunSample: "keeps inv (PublishFailedRunSample F B msg stage)"
  unfolding PublishFailedRunSample_def event_sample_def by (auto intro!: outside_intros)

lemma keeps_ask_lingering: "keeps inv (ask_lingering B n limit vs)"
  by (induction vs) (auto intro!: outside_intros)

lemma keeps_teardown_stage: "keeps inv (teardown_stage F B)"
  unfolding teardown_stage_def decide_teardown_def
  by (auto intro!: outside_intros keeps_ask_lingering keeps_CaptureVMLogs keeps_DoTeardownPhase
      split: sum.split option.split)

lemma keeps_all_stages: "keeps inv (all_stages F B)"
  unfolding all_stages_def SetRestoreSpec_def SetFreezePath_def
  by (auto intro!: outside_intros keeps_stage_step keeps_checked keeps_DoProvisionPhase
      keeps_DoPreparePhase keeps_part_phases keeps_DoRunPhase keeps_DoCleanupPhase keeps_teardown_stage)

lemma keeps_final_samples: "keeps inv (final_samples F B)"
  unfolding final_samples_def GenerateSamples_def GenerateIntervalSamples_def
  by (auto intro!: outside_intros)

lemma keeps_on_failure: "keeps inv (on_failure F B e)"
  unfolding on_failure_def
  by (auto intro!: outside_intros keeps_PublishFailedRunSample keeps_CaptureVMLogs
      keeps_DoCleanupPhase keeps_DoTeardownPhase)

lemma keeps_finish_run: "keeps inv (finish_run F B)"
  unfolding finish_run_def by (auto intro!: outside_intros keeps_EndCheckInterruptThread)

lemma keeps_any_check: "(\<And>f. f \<in> set fs \<Longrightarrow> sustains K f) \<Longrightarrow> keeps inv (any_check fs)"
  by (induction fs) (auto intro!: outside_intros)

theorem RunBenchmark_keeps: "keeps inv (RunBenchmark F B)"
  unfolding RunBenchmark_def run_body_def
  by (auto intro!: outside_intros keeps_any_check keeps_all_stages keeps_final_samples keeps_on_failure
      keeps_finish_run simp: options)

end

section \<open>Resources\<close>

text \<open>The methods of the run that act on the resources of \<open>S\<close>\<close>

definition runs_spec :: "'w built_spec \<Rightarrow> 'w spec_world ops \<Rightarrow> bool" where
  "runs_spec S B = (Provision B = Provision_spec S \<and> SpecPrepare B = Prepare_spec S
     \<and> StartBackgroundWorkload B = StartBackgroundWorkload_spec S
     \<and> StopBackgroundWorkload B = StopBackgroundWorkload_spec S \<and> SpecDelete B = Delete_spec S)"

text \<open>
  What holds throughout a run: only resources of the spec have been created; once the spec is marked as
  deleted, all of them have been told to delete themselves; and it is marked when Delete has been called.
\<close>

definition accounted :: "'w built_spec \<Rightarrow> (string \<times> string) list \<Rightarrow> 'w spec_world \<Rightarrow> bool" where
  "accounted S cs w = ((\<forall>s b. CreateOf s b \<in> set (spec_calls w) \<longrightarrow> s \<in> provisioned S)
     \<and> (spec_deleted w \<longrightarrow> (\<forall>s \<in> deletable S. \<exists>f. DeleteOf s f \<in> set (spec_calls w)))
     \<and> ((''Delete'', []) \<in> set cs \<longrightarrow> spec_deleted w))"

section \<open>What the methods of the spec keep\<close>

lemma Provision_keeps:
  assumes "\<And>c. keeps I (make_call S c)" and "\<And>d. keeps I (time_sleep d)"
  shows "keeps I (Provision_spec S)"
proof -
  note step = only_whenM only_control assms
  have group: "keeps I (boot_group S g)" for g
    unfolding boot_group_def by (intro step)
  have groups: "keeps I (boot_groups S)"
    unfolding boot_groups_def by (intro keeps_with_rest) (auto split: sum.split intro: step group)
  have "keeps I (provision_networks S)"
    unfolding provision_networks_def Let_def
    by (rule keeps_seqM, unfold list.pred_inject, intro conjI list.pred_inject(1) step)
  moreover have "keeps I (provision_containers S)" "keeps I (provision_storage S)"
    unfolding provision_containers_def provision_storage_def create_held_def
    by (rule keeps_seqM, unfold list.pred_inject, intro conjI list.pred_inject(1) step)+
  moreover have "keeps I (provision_vms S)"
    unfolding provision_vms_def create_held_def
    by (intro keeps_with_rest only_whenM keeps_seqM, unfold list.pred_inject, intro conjI list.pred_inject(1) step groups)
  moreover have "keeps I (import_vm_groups S)"
    unfolding import_vm_groups_def
    by (intro keeps_with_rest) (auto split: option.split list.split intro: step)
  then have "keeps I (provision_services S)"
    unfolding provision_services_def provision_database_def provision_warehouse_def create_held_def
    by (intro keeps_seqM, unfold list.pred_inject, intro conjI list.pred_inject(1) step)
  ultimately show ?thesis
    unfolding Provision_spec_def by (intro keeps_seqM) simp
qed

lemma Delete_keeps:
  assumes "\<And>c. (\<forall>s b. c \<noteq> CreateOf s b) \<Longrightarrow> keeps I (make_call S c)"
    and "\<And>m. I m \<Longrightarrow> I (m\<lparr>world := (world m)\<lparr>spec_deleted := True\<rparr>\<rparr>)"
  shows "keeps I (Delete_spec S)"
proof -
  have calls: "keeps I (make_call S (DeleteOf s b))" "keeps I (make_call S (PackageCleanup v))"
    "keeps I (make_call S (DeleteScratchDisks v))" "keeps I (make_call S (DisallowAllPorts k))"
    "keeps I (make_call S DeleteServices)" "keeps I (make_call S DeleteContainers)"
    "keeps I (make_call S (PickleTo q))" for s b v k q
    by (rule assms(1), simp)+
  note step = keeps_intros calls keeps_swallow
  have "keeps I (FreezeSpec S)" unfolding FreezeSpec_def by (intro step)
  moreover have "keeps I (delete_services S)"
    unfolding delete_services_def Let_def delete_held_def
    by (rule keeps_seqM, unfold list.pred_inject, intro conjI list.pred_inject(1) step)
  moreover have "keeps I (delete_vms S)"
    unfolding delete_vms_def DeleteVm_def
    by (rule keeps_seqM, unfold list.pred_inject, intro conjI list.pred_inject(1) step)
  moreover have "keeps I (delete_infrastructure S)"
    unfolding delete_infrastructure_def delete_held_def
    by (rule keeps_seqM, unfold list.pred_inject, intro conjI list.pred_inject(1) step) (simp add: calls)
  moreover have "keeps I (modifyM (\<lambda>m. m\<lparr>world := (world m)\<lparr>spec_deleted := True\<rparr>\<rparr>) :: 'a spec_act)"
    by (rule keeps_modifyM) (rule assms(2))
  ultimately show ?thesis
    unfolding Delete_spec_def
    by (intro keeps_bindM keeps_getM keeps_if keeps_ret keeps_seqM) (simp add: keeps_whenM)
qed

lemma workload_keeps:
  assumes "\<And>c. (\<forall>s b. c \<noteq> CreateOf s b) \<Longrightarrow> keeps I (make_call S c)"
  shows "keeps I (Prepare_spec S)" "keeps I (StartBackgroundWorkload_spec S)" "keeps I (StopBackgroundWorkload_spec S)"
  unfolding Prepare_spec_def StartBackgroundWorkload_spec_def StopBackgroundWorkload_spec_def
  by (intro keeps_with_rest keeps_threaded assms; simp)+

lemma keeps_deleted_flag:
  "keeps (\<lambda>m. spec_deleted (world m) = d) (make_call S c)" "keeps (\<lambda>m. spec_deleted (world m) = d) (time_sleep t)"
  by (rule keepsI, rule wp_make_call, simp) (simp add: keeps_def wp_def time_sleep_def)

lemma wp_outcomeI: "(\<And>r m'. f m = Some (r, m') \<Longrightarrow> I m') \<Longrightarrow> wp f (\<lambda>_. I) (\<lambda>_. I) m"
  by (rule wpI)

lemma keeps_outcome: "keeps I f \<Longrightarrow> I m \<Longrightarrow> f m = Some (r, m') \<Longrightarrow> I m'"
  by (blast dest: keepsD wp_outcome)

lemma sustains_accounted:
  assumes "keeps (creates_only (provisioned S)) f" and "\<And>c. keeps (logged c) f"
    and "\<And>d. keeps (\<lambda>m. spec_deleted (world m) = d) f"
  shows "sustains (accounted S) f"
  unfolding sustains_def
proof (intro allI keepsI wp_outcomeI)
  fix cs m r m'
  assume I: "accounted S cs (world m)" and run: "f m = Some (r, m')"
  have "creates_only (provisioned S) m'"
    by (rule keeps_outcome [OF assms(1) _ run]) (use I in \<open>simp add: accounted_def creates_only_def\<close>)
  moreover have "logged c m \<Longrightarrow> logged c m'" for c by (rule keeps_outcome [OF assms(2) _ run])
  moreover have "spec_deleted (world m') = spec_deleted (world m)"
    by (rule keeps_outcome [OF assms(3) refl run])
  ultimately show "accounted S cs (world m')"
    using I unfolding accounted_def creates_only_def logged_def by blast
qed

lemma sustains_spec_methods: "sustains (accounted S) (Provision_spec S)" "sustains (accounted S) (Prepare_spec S)"
  "sustains (accounted S) (StartBackgroundWorkload_spec S)" "sustains (accounted S) (StopBackgroundWorkload_spec S)"
  by (rule sustains_accounted, (intro Provision_creates_only Provision_keeps workload_keeps keeps_make_call
        logged_time_sleep keeps_deleted_flag only_call; assumption?)+)+

lemma Delete_accounts:
  assumes "\<And>c. tolerated c \<Longrightarrow> ends (perform S c)" and "\<And>c. essential c \<Longrightarrow> succeeds (perform S c)"
  shows "keeps (\<lambda>m. accounted S (calls (world m)) (ext (world m))) (call (''Delete'', []) (Delete_spec S))"
proof (intro keepsI wp_outcomeI)
  fix m r m'
  assume I: "accounted S (calls (world m)) (ext (world m))"
    and run: "call (''Delete'', []) (Delete_spec S) m = Some (r, m')"
  let ?k = "\<lparr>now = now m, lags = lags m, draws = draws m, world = ext (world m)\<rparr>"
  obtain k where k: "Delete_spec S ?k = Some (Inr (), k)" "spec_deleted (world k)"
    using Delete_spec_completes [OF assms] by blast
  have m': "ext (world m') = world k" "calls (world m') = calls (world m) @ [(''Delete'', [])]"
    using run k(1) by (auto simp: call_def set_run_def on_ext_def put_ext_def ext_mach_def py_defs)
  have "creates_only (provisioned S) k"
  proof (rule keeps_outcome [OF Delete_keeps _ k(1)])
    show "creates_only (provisioned S) ?k" using I by (simp add: accounted_def creates_only_def)
  qed (simp_all add: only_call, simp add: creates_only_def)
  moreover have "\<exists>f. DeleteOf s f \<in> set (spec_calls (world k))" if s: "s \<in> deletable S" for s
  proof (cases "spec_deleted (ext (world m))")
    case True
    then have "k = ?k" using k(1) by (simp add: Delete_spec_def bindM_def getM_def ret_def)
    with True I s show ?thesis by (simp add: accounted_def)
  next
    case False
    obtain f part where "makes (DeleteOf s f) part" "part \<in> {delete_services S, delete_vms S, delete_infrastructure S}"
      using deletable_is_deleted [OF s] by blast
    with False k(1) have "logged (DeleteOf s f) k" by (intro Delete_spec_makes) simp_all
    then show ?thesis unfolding logged_def by blast
  qed
  ultimately show "accounted S (calls (world m')) (ext (world m'))"
    unfolding m' using k(2) by (simp add: accounted_def creates_only_def)
qed

section \<open>A run deletes what it creates\<close>

lemma sustains_accountedI:
  assumes "\<And>cs d. keeps (\<lambda>k. spec_calls (world k) = cs \<and> spec_deleted (world k) = d) h"
  shows "sustains (accounted S) h"
  unfolding sustains_def
proof (intro allI keepsI wp_outcomeI)
  fix cs m r m'
  assume I: "accounted S cs (world m)" and run: "h m = Some (r, m')"
  have "spec_calls (world m') = spec_calls (world m) \<and> spec_deleted (world m') = spec_deleted (world m)"
    by (rule keeps_outcome [OF assms _ run]) simp
  with I show "accounted S cs (world m')" unfolding accounted_def by simp
qed

text \<open>C2: What a run creates it deletes, in these circumstances.  RunBenchmark provisions and deletes the
  resources of a BenchmarkSpec; the teardown stage is selected and neither skipped by a condition nor on a
  timeout; the other methods neither create resources of the spec nor mark it as deleted; joining the
  interrupt checkers and registering the tracers return; and those calls of Delete whose exceptions it does not
  catch return, the others ending with an Exception at worst.  Then however the run ends - by an exception of
  any stage, also half way through Provision - a resource that was told to create itself has been told to
  delete itself: every service, capacity reservation, network, placement group, managed group and TPU, and every
  VM of a group that is not managed, where for a static VM with packages to be cleaned up the cleaning must
  return.  VMs of managed groups are left to the deletion of their group.
\<close>

theorem run_deletes_what_it_creates:
  assumes spec: "runs_spec S B" and others: "others_leave (accounted S) B"
    and calls: "\<And>c. tolerated c \<Longrightarrow> ends (perform S c)" "\<And>c. essential c \<Longrightarrow> succeeds (perform S c)"
    and held: "holds S \<subseteq> service_slots \<union> infrastructure_slots"
    and flags: "''teardown'' \<in> set (run_stage F)" "skip_teardown_conditions F = []" "\<not> skip_teardown_on_command_timeout F"
    and hooks: "skip_pending_checks B = []" "\<And>k. \<exists>k'. join_checks B k = Some (Inr (), k')"
      "\<And>k. \<exists>k'. register_tracers B k = Some (Inr (), k')"
    and start: "spec_calls (ext (world m)) = []" "\<not> spec_deleted (ext (world m))" "(''Delete'', []) \<notin> set (calls (world m))"
    and run: "RunBenchmark F B m = Some (r, m')"
    and created: "CreateOf s b \<in> set (spec_calls (ext (world m')))"
      "s \<in> range Vm \<Longrightarrow> s \<in> Vm ` reached_vms S"
  shows "\<exists>f. DeleteOf s f \<in> set (spec_calls (ext (world m')))"
proof -
  have frame: "outside_frame (accounted S) B"
  proof
    show "accounted S (cs @ [n]) x" if "accounted S cs x" "fst n \<noteq> ''Delete''" for cs x n
      using that by (auto simp: accounted_def)
    show "keeps (\<lambda>m. accounted S (calls (world m)) (ext (world m))) (call (''Delete'', []) (SpecDelete B))"
      using Delete_accounts [OF calls] spec by (simp add: runs_spec_def)
  qed (use others spec sustains_spec_methods in \<open>simp_all add: runs_spec_def\<close>)
  have "accounted S (calls (world m)) (ext (world m))" using start by (simp add: accounted_def)
  then have acc: "accounted S (calls (world m')) (ext (world m'))"
    using keeps_outcome [OF outside_frame.RunBenchmark_keeps [OF frame] _ run] by simp
  have "(''Delete'', []) \<in> set (calls (world m'))"
    using RunBenchmark_teardown [OF hooks(1) flags(1) start(3) hooks(2,3) run] flags(2,3) by blast
  with acc have "\<forall>s \<in> deletable S. \<exists>f. DeleteOf s f \<in> set (spec_calls (ext (world m')))"
    by (simp add: accounted_def)
  moreover have "s \<in> provisioned S" using acc created(1) by (auto simp: accounted_def)
  then have "s \<in> deletable S" using created(2) held by (auto simp: provisioned_def deletable_def)
  ultimately show ?thesis by blast
qed

text \<open>A run in which the creation of the key fails, after the VM has been created\<close>

definition keyless_spec :: "unit built_spec" where
  "keyless_spec = small_spec\<lparr>perform := (\<lambda>c. if c = CreateOf Key False then raise (exn Error ''no key'') else ret ())\<rparr>"

definition spec_ops :: "unit built_spec \<Rightarrow> unit spec_world ops" where
  "spec_ops S = \<lparr>before_phase = (\<lambda>_. ret ()), after_phase = (\<lambda>_. ret ()), trigger_phase = ret (),
     benchmark_start = ret (), benchmark_end = ret (), register_tracers = ret (),
     samples_created = ret, ConstructResources = ret (), CheckPrerequisites = ret (),
     Pickle = ret (), Provision = Provision_spec S, SpecPrepare = Prepare_spec S,
     StartBackgroundWorkload = StartBackgroundWorkload_spec S,
     StopBackgroundWorkload = StopBackgroundWorkload_spec S,
     SpecDelete = Delete_spec S, SpecGetSamples = ret [],
     BenchmarkPrepare = Some (ret ()), BenchmarkPrepareSystem = None,
     BenchmarkInstallPackages = None, BenchmarkStartServices = None,
     BenchmarkRun = ret [], BenchmarkCleanup = ret (), bench_name = ''simple'',
     always_call_cleanup = False, has_static_vm_or_dpb = (\<lambda>_. False), extra = (\<lambda>_. ret []),
     MeasureDelete = ret [], GenerateAndCaptureLogs = (\<lambda>_. ret ()), vms = (\<lambda>_. []),
     IsInterruptible = (\<lambda>_ _. False), WasInterrupted = (\<lambda>_ _. False),
     GetVmStatusCode = (\<lambda>_ _. None), create_operation_name = (\<lambda>_ _. []),
     UpdateInterruptibleVmStatus = ret (), GetNumTeardownSkippedVms = (\<lambda>_. ret None),
     UpdateTimeoutMetadata = (\<lambda>_. ret ()), join_checks = ret (), read_input = (\<lambda>_. ret ()),
     load_restore_spec = ret, collector_env_of = quiet_env, error_classes = ClassNode Error [],
     skip_pending_checks = []\<rparr>"

definition spec_run :: "unit spec_world run_world mach" where
  "spec_run = some_mach \<lparr>status = ''SKIPPED'', failed_substatus = None, status_detail = None,
     freeze_path = None, restore_spec = None, run_collector = new_collector, detailed_timer = [],
     end_to_end_timer = [], current_run_stage = [], should_teardown = True,
     interrupt_checker = None, lost_checkers = 0, calls = [],
     ext = \<lparr>spec_calls = [], spec_deleted = False, spec_rest = ()\<rparr>\<rparr>"

lemma spec_ops_fields:
  "Provision (spec_ops S) = Provision_spec S" "SpecDelete (spec_ops S) = Delete_spec S" "runs_spec S (spec_ops S)"
  by (simp_all add: spec_ops_def runs_spec_def)

lemma sustains_ret: "sustains K (ret x)"
  unfolding sustains_def by (intro allI keeps_ret)

lemma others_leave_spec_ops: "others_leave K (spec_ops S)"
  by (simp add: others_leave_def spec_ops_def leaves_option_def sustains_ret env_leaves_def quiet_env_def)

lemma keyless_provision:
  "Provision_spec keyless_spec \<lparr>now = t, lags = l, draws = d, world = \<lparr>spec_calls = cs, spec_deleted = b, spec_rest = ()\<rparr>\<rparr>
   = Some (Inl (exn Error ''no key''), \<lparr>now = t, lags = l, draws = d, world = \<lparr>spec_calls = cs @
       [CreateOf (Network ''net'') False, CreateOf (PlacementGroup ''group'') False, CreateOf (Vm 0) False,
        PrepareAfterBoot 0, GenerateSSHConfig [0], CreateOf Key False], spec_deleted = b, spec_rest = ()\<rparr>\<rparr>)"
  by (simp add: provision_defs call_defs py_defs keyless_spec_def small_spec_def Let_def)

lemma keyless_calls: "tolerated c \<Longrightarrow> ends (perform keyless_spec c)" "essential c \<Longrightarrow> succeeds (perform keyless_spec c)"
  by (auto simp: keyless_spec_def small_spec_def ends_def succeeds_def raise_def ret_def exn_defs elim!: essential.elims)

lemma spec_ops_simps:
  "before_phase (spec_ops S) = (\<lambda>_. ret ())"
  "after_phase (spec_ops S) = (\<lambda>_. ret ())"
  "benchmark_start (spec_ops S) = ret ()"
  "benchmark_end (spec_ops S) = ret ()"
  "register_tracers (spec_ops S) = ret ()"
  "ConstructResources (spec_ops S) = ret ()"
  "CheckPrerequisites (spec_ops S) = ret ()"
  "Pickle (spec_ops S) = ret ()"
  "Provision (spec_ops S) = Provision_spec S"
  "SpecDelete (spec_ops S) = Delete_spec S"
  "SpecGetSamples (spec_ops S) = ret []"
  "vms (spec_ops S) = (\<lambda>_. [])"
  "join_checks (spec_ops S) = ret ()"
  "skip_pending_checks (spec_ops S) = []"
  "bench_name (spec_ops S) = ''simple''"
  "always_call_cleanup (spec_ops S) = False"
  "collector_env_of (spec_ops S) = quiet_env"
  by (simp_all add: spec_ops_def)

lemma run_at_ext:
  "on_ext h m = (case h (ext_mach m) of None \<Rightarrow> None | Some (r, k) \<Rightarrow> Some (r, put_ext m k))"
  "call n h m = on_ext h (m\<lparr>world := (world m)\<lparr>calls := calls (world m) @ [n]\<rparr>\<rparr>)"
  "get_run f m = Some (Inr (f (world m)), m)"
  "set_run g m = Some (Inr (), m\<lparr>world := g (world m)\<rparr>)"
  by (simp_all add: on_ext_def call_def set_run_def get_run_def run_at)

lemmas run_ats = run_at run_at_ext ext_mach_def put_ext_def mach_ops at_collector_def at_detailed_def at_end_to_end_def

lemma keyless_delete:
  "Delete_spec keyless_spec \<lparr>now = t, lags = l, draws = d, world = \<lparr>spec_calls = cs, spec_deleted = False, spec_rest = ()\<rparr>\<rparr>
   = Some (Inr (), \<lparr>now = t, lags = l, draws = d, world = \<lparr>spec_calls = cs @
       [DeleteOf Key False, DeleteOf (Tpu 0) False, DeleteOf (Vm 0) False, DeleteScratchDisks 0,
        DeleteOf (PlacementGroup ''group'') False, DeleteOf (Network ''net'') False, DeleteOf VpnService False], spec_deleted = True, spec_rest = ()\<rparr>\<rparr>)"
  by (simp add: delete_defs call_defs py_defs keyless_spec_def small_spec_def Let_def)

definition created_until :: "spec_call list" where
  "created_until = [CreateOf (Network ''net'') False, CreateOf (PlacementGroup ''group'') False, CreateOf (Vm 0) False,
        PrepareAfterBoot 0, GenerateSSHConfig [0], CreateOf Key False]"

lemma keyless_provision_phase:
  assumes "ext (world m) = \<lparr>spec_calls = [], spec_deleted = False, spec_rest = ()\<rparr>"
  shows "\<exists>m'. DoProvisionPhase (spec_ops keyless_spec) m = Some (Inl (exn Error ''no key''), m')
    \<and> ext (world m') = \<lparr>spec_calls = created_until, spec_deleted = False, spec_rest = ()\<rparr>
    \<and> interrupt_checker (world m') = interrupt_checker (world m) \<and> should_teardown (world m') = should_teardown (world m)"
    unfolding DoProvisionPhase_def before_def
    by (simp add: run_ats Measure_def spec_ops_simps keyless_provision assms created_until_def)

lemma keyless_stages:
  assumes "ext (world m) = \<lparr>spec_calls = [], spec_deleted = False, spec_rest = ()\<rparr>"
  shows "\<exists>m'. all_stages (simple_run_flags [''provision'', ''teardown'']) (spec_ops keyless_spec) m = Some (Inl (exn Error ''no key''), m')
    \<and> ext (world m') = \<lparr>spec_calls = created_until, spec_deleted = False, spec_rest = ()\<rparr>
    \<and> interrupt_checker (world m') = interrupt_checker (world m) \<and> should_teardown (world m') = should_teardown (world m)"
  using keyless_provision_phase [OF assms]
    unfolding all_stages_def SetRestoreSpec_def SetFreezePath_def 
    by (elim exE) (simp add: run_ats simple_run_flags_def)

lemma keyless_finish:
  assumes "ext (world m) = \<lparr>spec_calls = created_until, spec_deleted = False, spec_rest = ()\<rparr>" "should_teardown (world m)" "interrupt_checker (world m) = None"
  shows "\<exists>m'. finish_run (simple_run_flags [''provision'', ''teardown'']) (spec_ops keyless_spec) m = Some (Inr (), m')
    \<and> CreateOf (Vm 0) False \<in> set (spec_calls (ext (world m')))"
    unfolding finish_run_def 
    by (simp add: run_ats simple_run_flags_def spec_ops_simps assms keyless_delete) (simp add: created_until_def)

lemma keyless_failure:
  assumes "ext (world m) = \<lparr>spec_calls = created_until, spec_deleted = False, spec_rest = ()\<rparr>"
  shows "\<exists>m'. on_failure (simple_run_flags [''provision'', ''teardown'']) (spec_ops keyless_spec) (exn Error ''no key'') m
    = Some (Inl (exn Error ''no key''), m')
    \<and> ext (world m') = \<lparr>spec_calls = created_until, spec_deleted = False, spec_rest = ()\<rparr>
    \<and> interrupt_checker (world m') = interrupt_checker (world m) \<and> should_teardown (world m') = should_teardown (world m)"
    unfolding on_failure_def CaptureVMLogs_def
    by (simp add: run_ats simple_run_flags_def spec_ops_simps assms exn_defs)

lemma keyless_body:
  assumes "ext (world m) = \<lparr>spec_calls = [], spec_deleted = False, spec_rest = ()\<rparr>" "should_teardown (world m)" "interrupt_checker (world m) = None"
  shows "\<exists>m'. run_body (simple_run_flags [''provision'', ''teardown'']) (spec_ops keyless_spec) m = Some (Inl (exn Error ''no key''), m')
    \<and> CreateOf (Vm 0) False \<in> set (spec_calls (ext (world m')))"
proof -
  let ?F = "simple_run_flags [''provision'', ''teardown'']" and ?B = "spec_ops keyless_spec"
  let ?m = "m\<lparr>now := now m + lags m 0, lags := \<lambda>i. lags m (Suc i)\<rparr>"
  obtain m1 where m1: "all_stages ?F ?B ?m = Some (Inl (exn Error ''no key''), m1)"
     "ext (world m1) = \<lparr>spec_calls = created_until, spec_deleted = False, spec_rest = ()\<rparr>"
     "interrupt_checker (world m1) = None" "should_teardown (world m1)"
    using keyless_stages [of ?m] assms by auto
  obtain m2 where m2: "on_failure ?F ?B (exn Error ''no key'') m1 = Some (Inl (exn Error ''no key''), m2)"
     "ext (world m2) = \<lparr>spec_calls = created_until, spec_deleted = False, spec_rest = ()\<rparr>"
     "interrupt_checker (world m2) = None" "should_teardown (world m2)"
    using keyless_failure [of m1] m1 by auto
  obtain m3 where m3: "finish_run ?F ?B m2 = Some (Inr (), m3)" "CreateOf (Vm 0) False \<in> set (spec_calls (ext (world m3)))"
    using keyless_finish [of m2] m2 by auto
  have "Measure at_end_to_end ''End to End'' (all_stages ?F ?B) m = Some (Inl (exn Error ''no key''), m1)"
    using m1(1) by (simp add: Measure_def bindM_def time_time_def Let_def)
  with m2 m3 show ?thesis
    by (simp add: run_body_def run_at)
qed

lemma keyless_run:
  "\<exists>m'. RunBenchmark (simple_run_flags [''provision'', ''teardown'']) (spec_ops keyless_spec) spec_run
       = Some (Inl (exn Error ''no key''), m') \<and> CreateOf (Vm 0) False \<in> set (spec_calls (ext (world m')))"
proof -
  let ?m = "spec_run\<lparr>world := (world spec_run)\<lparr>status := ''FAILED'', current_run_stage := ''provision'',
     should_teardown := True, calls := [(''register_tracers'', [])], end_to_end_timer := [], detailed_timer := [], interrupt_checker := None\<rparr>\<rparr>"
  obtain m' where "run_body (simple_run_flags [''provision'', ''teardown'']) (spec_ops keyless_spec) ?m = Some (Inl (exn Error ''no key''), m')"
    "CreateOf (Vm 0) False \<in> set (spec_calls (ext (world m')))"
    using keyless_body [of ?m] by (auto simp: spec_run_def some_mach_def)
  then show ?thesis
    by (simp add: RunBenchmark_def run_ats spec_ops_simps spec_run_def some_mach_def)
qed

theorem run_deletes_what_it_creates_witness:
  "\<exists>m' f. RunBenchmark (simple_run_flags [''provision'', ''teardown'']) (spec_ops keyless_spec) spec_run
       = Some (Inl (exn Error ''no key''), m') \<and> DeleteOf (Vm 0) f \<in> set (spec_calls (ext (world m')))"
proof -
  obtain m' where m': "RunBenchmark (simple_run_flags [''provision'', ''teardown'']) (spec_ops keyless_spec) spec_run
      = Some (Inl (exn Error ''no key''), m')" "CreateOf (Vm 0) False \<in> set (spec_calls (ext (world m')))"
    using keyless_run by blast
  have "\<exists>f. DeleteOf (Vm 0) f \<in> set (spec_calls (ext (world m')))"
    by (rule run_deletes_what_it_creates [OF spec_ops_fields(3) others_leave_spec_ops keyless_calls
          _ _ _ _ _ _ _ _ _ _ m'])
       (auto simp: spec_ops_def simple_run_flags_def spec_run_def some_mach_def ret_def keyless_spec_def
          small_spec_def service_slots_def infrastructure_slots_def reached_vms_def unmanaged_vms_def)
  with m'(1) show ?thesis by blast
qed

end
