(* ===== verification/Ycsb.thy ===== *)
theory Ycsb
  imports FlagUtil "HOL-Library.Product_Lexorder"
begin

text \<open>
  \<open>perfkitbenchmarker/linux_packages/ycsb_stats.py\<close>: what is computed from the output of the YCSB
  benchmark.  The histograms of a client are turned into percentiles, the results of several clients
  are combined into one, error rates are checked, and the samples are made.  Floats are rationals; NaN
  has no counterpart.  The two formats of the data of an operation (pairs of a time and a number, triples
  of a percentile, a latency and a count) are the constructors of a datatype.
\<close>

section \<open>Results\<close>

datatype series = Pairs "(rat \<times> rat) list" | Triples "(rat \<times> rat \<times> rat) list"

record op_result =
  op_group :: string
  data_type :: string
  op_data :: series
  statistics :: "(string \<times> rat) list"

record status_result =
  overall_throughput :: rat
  op_results :: "op_result list"

record ycsb_result =
  client :: string
  command_line :: string
  status_time_series :: "(int \<times> status_result) list"
  groups :: "(string \<times> op_result) list"

definition HISTOGRAM :: string where "HISTOGRAM = ''histogram''"
definition HDRHISTOGRAM :: string where "HDRHISTOGRAM = ''hdrhistogram''"
definition TIMESERIES :: string where "TIMESERIES = ''timeseries''"

datatype operator = OpAdd | OpMax | OpMin

text \<open>\<open>AGGREGATE_OPERATORS\<close>: statistics with the operator \<open>None\<close> are dropped.\<close>

definition AGGREGATE_OPERATORS :: "(string \<times> operator option) list" where
  "AGGREGATE_OPERATORS = [
    (''Operations'', Some OpAdd), (''Count'', Some OpAdd), (''RunTime(ms)'', Some OpMax),
    (''Return=0'', Some OpAdd), (''Return=-1'', Some OpAdd), (''Return=-2'', Some OpAdd),
    (''Return=-3'', Some OpAdd), (''Return=OK'', Some OpAdd), (''Return=ERROR'', Some OpAdd),
    (''Return=NOT_FOUND'', Some OpAdd), (''LatencyVariance(ms)'', None), (''AverageLatency(ms)'', None),
    (''Throughput(ops/sec)'', Some OpAdd), (''95thPercentileLatency(ms)'', None),
    (''99thPercentileLatency(ms)'', None), (''MinLatency(ms)'', Some OpMin), (''MaxLatency(ms)'', Some OpMax),
    (''Max'', Some OpMax), (''Min'', Some OpMin)]"

fun apply_operator :: "operator \<Rightarrow> rat \<Rightarrow> rat \<Rightarrow> rat" where
  "apply_operator OpAdd x y = x + y"
| "apply_operator OpMax x y = (if y > x then y else x)"
| "apply_operator OpMin x y = (if y < x then y else x)"

text \<open>\<open>s.isdigit()\<close>, and \<open>s.replace('.', '', 1).isdigit()\<close>\<close>

definition isdigit :: "string \<Rightarrow> bool" where
  "isdigit s = (s \<noteq> [] \<and> list_all is_digit s)"

definition is_numeric :: "string \<Rightarrow> bool" where
  "is_numeric s = isdigit (remove1 (CHR ''.'') s)"

definition IsStatusLatencyStatistic :: "string \<Rightarrow> bool" where
  "IsStatusLatencyStatistic name = (is_numeric name \<or> name \<in> set [''Avg'', ''Max'', ''Min''])"

definition dict_pop :: "('k \<times> 'v) list \<Rightarrow> 'k \<Rightarrow> ('k \<times> 'v) list" where
  "dict_pop d k = filter (\<lambda>e. fst e \<noteq> k) d"

definition dict_of :: "('k \<times> 'v) list \<Rightarrow> ('k \<times> 'v) list" where
  "dict_of = dict_update []"

definition get_or :: "'v \<Rightarrow> ('k \<times> 'v) list \<Rightarrow> 'k \<Rightarrow> 'v" where
  "get_or x d k = (case map_of d k of None \<Rightarrow> x | Some v \<Rightarrow> v)"

section \<open>Error rates\<close>

text \<open>\<open>_ValidateErrorRate\<close>; the numbers in the text of the exception are left out.\<close>

definition OK_STATUSES :: "string list" where
  "OK_STATUSES = [''OK'', ''BATCHED_OK'']"

definition FAILED_STATUSES :: "string list" where
  "FAILED_STATUSES = [''ERROR'', ''NOT_FOUND'', ''NOT_IMPLEMENTED'', ''UNEXPECTED_STATE'', ''BAD_REQUEST'',
     ''FORBIDDEN'', ''SERVICE_UNAVAILABLE'']"

definition returned :: "string list \<Rightarrow> (string \<times> rat) list \<Rightarrow> rat" where
  "returned names stats = sum_list (map (\<lambda>s. get_or 0 stats (''Return='' @ s)) names)"

definition error_rate :: "op_result \<Rightarrow> rat option" where
  "error_rate p =
     (let ok = returned OK_STATUSES (statistics p); failed = returned FAILED_STATUSES (statistics p)
      in if ok + failed = 0 then None else Some (failed / (ok + failed)))"

fun validate_groups :: "rat \<Rightarrow> (string \<times> rat) list \<Rightarrow> op_result list \<Rightarrow> exn + unit" where
  "validate_groups default_threshold per_op [] = Inr ()"
| "validate_groups default_threshold per_op (p # ps) =
     (case error_rate p of
        None \<Rightarrow> validate_groups default_threshold per_op ps
      | Some rate \<Rightarrow> if rate > get_or default_threshold per_op (op_group p)
          then Inl (exn (Benchmarks RunError) (''YCSB had a too high error rate for '' @ op_group p))
          else validate_groups default_threshold per_op ps)"

definition ValidateErrorRate :: "ycsb_result \<Rightarrow> rat \<Rightarrow> (string \<times> rat) list option \<Rightarrow> exn + unit" where
  "ValidateErrorRate result default_threshold per_op =
     validate_groups default_threshold (case per_op of None \<Rightarrow> [] | Some d \<Rightarrow> d) (map snd (groups result))"

section \<open>Percentiles\<close>

text \<open>One line of a log of HdrHistogram: the percentile, the latency and the total count in it, if it is a row.\<close>

fun words_loop :: "string \<Rightarrow> string \<Rightarrow> string list" where
  "words_loop w [] = (if w = [] then [] else [w])"
| "words_loop w (c # cs) = (if is_space c then (if w = [] then words_loop [] cs else w # words_loop [] cs)
     else words_loop (w @ [c]) cs)"

definition words :: "string \<Rightarrow> string list" where
  "words = words_loop []"

definition is_row :: "string \<Rightarrow> bool" where
  "is_row line = (case dropWhile (\<lambda>c. c = CHR '' '') line of [] \<Rightarrow> False | c # _ \<Rightarrow> is_digit c \<or> c = CHR ''.'')"

definition read_row :: "string \<Rightarrow> exn + rat \<times> nat \<times> string" where
  "read_row line = (let ws = words line in
     if length ws < 2 then Inl index_error
     else case parse_float (ws ! 1) of None \<Rightarrow> Inl no_number
     | Some percentile \<Rightarrow> if length ws < 3 then Inl index_error
         else if \<not> isdigit (ws ! 2) then Inl no_number
         else Inr (of_int \<lfloor>percentile * 100000\<rfloor> / 1000, digits_value (ws ! 2), ws ! 0))"

text \<open>\<open>ParseHdrLogFile\<close>: the loop with the last percentile and the last total count.\<close>

fun hdr_rows :: "rat \<Rightarrow> nat \<Rightarrow> string list \<Rightarrow> exn + (rat \<times> rat \<times> rat) list" where
  "hdr_rows last_percent prev_total [] = Inr []"
| "hdr_rows last_percent prev_total (line # lines) =
     (if \<not> is_row line then hdr_rows last_percent prev_total lines
      else case read_row line of Inl e \<Rightarrow> Inl e
      | Inr (percentile, current_total, latency) \<Rightarrow>
          if percentile > last_percent \<and> current_total > prev_total
          then case parse_float latency of None \<Rightarrow> Inl no_number
            | Some l \<Rightarrow> (case hdr_rows percentile current_total lines of Inl e \<Rightarrow> Inl e
                | Inr rest \<Rightarrow> Inr ((percentile, l / 1000, of_nat (current_total - prev_total)) # rest))
          else hdr_rows last_percent prev_total lines)"

definition ParseHdrLogFile :: "string \<Rightarrow> exn + (rat \<times> rat \<times> rat) list" where
  "ParseHdrLogFile logfile = hdr_rows (-1) 0 (split_on (CHR 0x0A) logfile)"

fun ParseHdrLogs :: "(string \<times> string) list \<Rightarrow> exn + (string \<times> (rat \<times> rat \<times> rat) list) list" where
  "ParseHdrLogs [] = Inr []"
| "ParseHdrLogs ((name, logfile) # logs) = (case ParseHdrLogFile logfile of Inl e \<Rightarrow> Inl e
     | Inr h \<Rightarrow> (case ParseHdrLogs logs of Inl e \<Rightarrow> Inl e | Inr hs \<Rightarrow> Inr ((name, h) # hs)))"

fun CumulativeSum :: "rat \<Rightarrow> rat list \<Rightarrow> rat list" where
  "CumulativeSum t [] = []"
| "CumulativeSum t (x # xs) = (t + x) # CumulativeSum (t + x) xs"

text \<open>\<open>bisect.bisect_left\<close>\<close>

function bisect_loop :: "rat list \<Rightarrow> rat \<Rightarrow> nat \<Rightarrow> nat \<Rightarrow> nat" where
  "bisect_loop a x lo hi = (if lo < hi then
     let mid = (lo + hi) div 2 in
     if a ! mid < x then bisect_loop a x (mid + 1) hi else bisect_loop a x lo mid
   else lo)"
  by auto
termination by (relation "measure (\<lambda>(a, x, lo, hi). hi - lo)") auto

declare bisect_loop.simps [simp del]

definition bisect_left :: "rat list \<Rightarrow> rat \<Rightarrow> nat" where
  "bisect_left a x = bisect_loop a x 0 (length a)"

definition value_error :: "string \<Rightarrow> exn" where
  "value_error msg = exn (Builtin ValueError) msg"

definition WeightedQuantile :: "rat list \<Rightarrow> rat list \<Rightarrow> rat \<Rightarrow> exn + rat" where
  "WeightedQuantile x weights p =
     (if length x \<noteq> length weights then Inl (value_error ''Lengths do not match'')
      else if p < 0 \<or> p > 1 then Inl (value_error ''Invalid quantile'')
      else
        let target = sum_list weights * p;
            cumulative = CumulativeSum 0 weights;
            i = bisect_left cumulative target
        in if i = length x then (if x = [] then Inl index_error else Inr (last x)) else Inr (x ! i))"

definition DEFAULT_PERCENTILES :: "rat list" where
  "DEFAULT_PERCENTILES = [50, 75, 90, 95, 99, 999 / 10]"

text \<open>\<open>_PercentilesFromHistogram\<close>; how Python prints a float is a parameter.\<close>

definition percentile_label :: "(rat \<Rightarrow> string) \<Rightarrow> rat \<Rightarrow> string" where
  "percentile_label repr_float p =
     ''p'' @ (if frac p < 1 / 10 ^ 7 then str_of_int \<lfloor>p\<rfloor> else repr_float p)"

definition label_value :: "rat \<Rightarrow> rat" where
  "label_value p = (if frac p < 1 / 10 ^ 7 then of_int \<lfloor>p\<rfloor> else p)"

fun percentiles_loop ::
  "(rat \<Rightarrow> string) \<Rightarrow> (rat \<times> rat) list \<Rightarrow> (string \<times> rat) list \<Rightarrow> rat list \<Rightarrow> exn + (string \<times> rat) list" where
  "percentiles_loop repr_float histogram result [] = Inr result"
| "percentiles_loop repr_float histogram result (p # ps) =
     (if p < 0 \<or> p > 100 then Inl (value_error ''Invalid percentile'')
      else if histogram = [] then Inl (value_error ''not enough values to unpack (expected 2, got 0)'')
      else case WeightedQuantile (map fst histogram) (map snd histogram) (label_value p / 100) of
          Inl e \<Rightarrow> Inl e
        | Inr t \<Rightarrow> percentiles_loop repr_float histogram (dict_set result (percentile_label repr_float p) t) ps)"

definition PercentilesFromHistogram ::
  "(rat \<Rightarrow> string) \<Rightarrow> (rat \<times> rat) list \<Rightarrow> rat list \<Rightarrow> exn + (string \<times> rat) list" where
  "PercentilesFromHistogram repr_float h ps = percentiles_loop repr_float (sort h) [] ps"

section \<open>Combining the results of several clients\<close>

text \<open>\<open>CombineHistograms\<close>\<close>

definition CombineHistograms :: "(rat \<times> rat) list \<Rightarrow> (rat \<times> rat) list \<Rightarrow> (rat \<times> rat) list" where
  "CombineHistograms hist1 hist2 =
     (let h1 = dict_of hist1; h2 = dict_of hist2;
          ks = sort (remdups (map fst h1 @ map fst h2))
      in map (\<lambda>k. (k, get_or 0 h1 k + get_or 0 h2 k)) ks)"

text \<open>\<open>_CombineLatencyTimeSeries\<close>: the weights are shared by all calls.\<close>

fun latency_loop ::
  "(rat \<times> rat) list \<Rightarrow> (rat \<times> rat) list \<Rightarrow> (rat \<times> rat) list \<Rightarrow> rat list
     \<Rightarrow> exn + (rat \<times> rat) list \<times> (rat \<times> rat) list" where
  "latency_loop combined individual weights [] = Inr ([], weights)"
| "latency_loop combined individual weights (t # ts) =
     (case map_of individual t of
        None \<Rightarrow> latency_loop combined individual weights ts
      | Some i \<Rightarrow>
          let weights = (if t \<in> set (map fst weights) then weights else dict_set weights t 1) in
          (case map_of combined t of
             None \<Rightarrow> (case latency_loop combined individual weights ts of Inl e \<Rightarrow> Inl e
               | Inr (rest, ws) \<Rightarrow> Inr ((t, i) # rest, ws))
           | Some c \<Rightarrow>
               let w = get_or 1 weights t in
               if c = 0 \<or> i = 0 \<or> w / c + 1 / i = 0 then Inl zero_division
               else (case latency_loop combined individual (dict_set weights t (w + 1)) ts of Inl e \<Rightarrow> Inl e
                 | Inr (rest, ws) \<Rightarrow> Inr ((t, (w + 1) / (w / c + 1 / i)) # rest, ws))))"

definition CombineLatencyTimeSeries ::
  "(rat \<times> rat) list \<Rightarrow> (rat \<times> rat) list \<Rightarrow> (rat \<times> rat) list \<Rightarrow> exn + (rat \<times> rat) list \<times> (rat \<times> rat) list" where
  "CombineLatencyTimeSeries weights combined_series individual_series =
     (let combined = dict_of combined_series; individual = dict_of individual_series
      in latency_loop combined individual weights (sort (remdups (map fst combined @ map fst individual))))"

text \<open>\<open>_CombineStatistics\<close>, for the statistics of a status line\<close>

fun status_statistics ::
  "(string \<times> rat) list \<Rightarrow> (string \<times> rat) list \<Rightarrow> (string \<times> rat) list \<Rightarrow> (string \<times> rat) list
     \<Rightarrow> exn + (string \<times> rat) list" where
  "status_statistics s1 s2 combined [] = Inr combined"
| "status_statistics s1 s2 combined ((k, v) # rest) =
     (if map_of AGGREGATE_OPERATORS k = None \<and> \<not> IsStatusLatencyStatistic k
      then status_statistics s1 s2 combined rest
      else if \<not> IsStatusLatencyStatistic k \<and> map_of AGGREGATE_OPERATORS k = Some None
      then status_statistics s1 s2 (dict_pop combined k) rest
      else case map_of combined k of
        None \<Rightarrow> status_statistics s1 s2 (dict_set combined k v) rest
      | Some u \<Rightarrow>
          if k = ''Avg'' then
            (case (map_of s1 ''Count'', map_of s2 ''Count'') of
               (Some n1, Some n2) \<Rightarrow> status_statistics s1 s2
                 (dict_set combined k (if n1 + n2 = 0 then 0
                    else (n2 * get_or 0 s2 ''Avg'' + n1 * get_or 0 s1 ''Avg'') / (n1 + n2))) rest
             | _ \<Rightarrow> Inl (missing_key ''Count''))
          else if is_numeric k
          then status_statistics s1 s2 (dict_set combined k ((get_or 0 s1 k + get_or 0 s2 k) / 2)) rest
          else (case map_of AGGREGATE_OPERATORS k of
                  Some (Some op) \<Rightarrow> status_statistics s1 s2 (dict_set combined k (apply_operator op u v)) rest
                | _ \<Rightarrow> Inl (missing_key k)))"

definition CombineStatistics :: "op_result \<Rightarrow> op_result \<Rightarrow> exn + op_result" where
  "CombineStatistics result1 result2 =
     (case status_statistics (statistics result1) (statistics result2) (statistics result1) (statistics result2) of
        Inl e \<Rightarrow> Inl e | Inr d \<Rightarrow> Inr (result1\<lparr>statistics := d\<rparr>))"

definition by_operation :: "op_result list \<Rightarrow> (string \<times> op_result) list" where
  "by_operation ps = dict_of (map (\<lambda>p. (op_group p, p)) ps)"

fun op_lists_loop :: "(string \<times> op_result) list \<Rightarrow> (string \<times> op_result) list \<Rightarrow> exn + (string \<times> op_result) list" where
  "op_lists_loop result [] = Inr result"
| "op_lists_loop result ((name, p) # rest) =
     (case map_of result name of
        None \<Rightarrow> op_lists_loop (dict_set result name p) rest
      | Some q \<Rightarrow> (case CombineStatistics q p of Inl e \<Rightarrow> Inl e
          | Inr c \<Rightarrow> op_lists_loop (dict_set result name c) rest))"

definition CombineOpResultLists :: "op_result list \<Rightarrow> op_result list \<Rightarrow> exn + op_result list" where
  "CombineOpResultLists list1 list2 =
     (case op_lists_loop (by_operation list1) (by_operation list2) of Inl e \<Rightarrow> Inl e | Inr d \<Rightarrow> Inr (map snd d))"

text \<open>\<open>_CombineStatusTimeSeries\<close>; the timestamps of a set are taken in their order.\<close>

definition no_status :: status_result where
  "no_status = \<lparr>overall_throughput = 0, op_results = []\<rparr>"

fun status_loop ::
  "(int \<times> status_result) list \<Rightarrow> (int \<times> status_result) list \<Rightarrow> int list \<Rightarrow> exn + (int \<times> status_result) list" where
  "status_loop series1 series2 [] = Inr []"
| "status_loop series1 series2 (t # ts) =
     (let status1 = get_or no_status series1 t; status2 = get_or no_status series2 t in
      case CombineOpResultLists (op_results status1) (op_results status2) of Inl e \<Rightarrow> Inl e
      | Inr ops \<Rightarrow> (case status_loop series1 series2 ts of Inl e \<Rightarrow> Inl e
          | Inr rest \<Rightarrow> Inr ((t, \<lparr>overall_throughput = overall_throughput status1 + overall_throughput status2,
              op_results = ops\<rparr>) # rest)))"

definition CombineStatusTimeSeries ::
  "(int \<times> status_result) list \<Rightarrow> (int \<times> status_result) list \<Rightarrow> exn + (int \<times> status_result) list" where
  "CombineStatusTimeSeries series1 series2 =
     status_loop series1 series2 (sort (remdups (map fst series1 @ map fst series2)))"

text \<open>\<open>CombineResults\<close>\<close>

definition DropUnaggregated :: "ycsb_result \<Rightarrow> ycsb_result" where
  "DropUnaggregated r =
     (let drop_keys = map fst (filter (\<lambda>e. snd e = None) AGGREGATE_OPERATORS)
      in r\<lparr>groups := map (\<lambda>(n, g). (n, g\<lparr>statistics := fold (\<lambda>k d. dict_pop d k) drop_keys (statistics g)\<rparr>)) (groups r)\<rparr>)"

definition combine_statistic :: "(string \<times> rat) \<Rightarrow> (string \<times> rat) list \<Rightarrow> (string \<times> rat) list" where
  "combine_statistic kv stats = (case kv of (k, v) \<Rightarrow>
     (case map_of AGGREGATE_OPERATORS k of
        None \<Rightarrow> stats
      | Some None \<Rightarrow> dict_pop stats k
      | Some (Some op) \<Rightarrow> (case map_of stats k of
            None \<Rightarrow> dict_set stats k v
          | Some u \<Rightarrow> dict_set stats k (apply_operator op u v))))"

definition as_pairs :: "series \<Rightarrow> exn + (rat \<times> rat) list" where
  "as_pairs d = (case d of Pairs h \<Rightarrow> Inr h | Triples h \<Rightarrow> if h = [] then Inr []
     else Inl (value_error ''dictionary update sequence element #0 has length 3; 2 is required''))"

definition combine_data ::
  "string \<Rightarrow> (rat \<times> rat) list \<Rightarrow> series \<Rightarrow> series \<Rightarrow> exn + series \<times> (rat \<times> rat) list" where
  "combine_data measurement_type weights d1 d2 =
     (if measurement_type = HISTOGRAM \<or> measurement_type = TIMESERIES then
        case as_pairs d1 of Inl e \<Rightarrow> Inl e
        | Inr h1 \<Rightarrow> (case as_pairs d2 of Inl e \<Rightarrow> Inl e
          | Inr h2 \<Rightarrow>
              if measurement_type = HISTOGRAM then Inr (Pairs (CombineHistograms h1 h2), weights)
              else (case CombineLatencyTimeSeries weights h1 h2 of Inl e \<Rightarrow> Inl e
                | Inr (h, ws) \<Rightarrow> Inr (Pairs h, ws)))
      else Inr (d1, weights))"

fun combine_groups ::
  "string \<Rightarrow> (rat \<times> rat) list \<Rightarrow> (string \<times> op_result) list \<Rightarrow> (string \<times> op_result) list
     \<Rightarrow> exn + (string \<times> op_result) list \<times> (rat \<times> rat) list" where
  "combine_groups measurement_type weights gs [] = Inr (gs, weights)"
| "combine_groups measurement_type weights gs ((name, g) # rest) =
     (case map_of gs name of
        None \<Rightarrow> combine_groups measurement_type weights (dict_set gs name g) rest
      | Some g1 \<Rightarrow> (case combine_data measurement_type weights (op_data g1) (op_data g) of Inl e \<Rightarrow> Inl e
          | Inr (d, ws) \<Rightarrow> combine_groups measurement_type ws
              (dict_set gs name (g1\<lparr>statistics := fold combine_statistic (statistics g) (statistics g1), op_data := d\<rparr>))
              rest))"

fun combine_clients ::
  "string \<Rightarrow> (rat \<times> rat) list \<Rightarrow> ycsb_result \<Rightarrow> ycsb_result list \<Rightarrow> exn + ycsb_result" where
  "combine_clients measurement_type weights result [] = Inr result"
| "combine_clients measurement_type weights result (indiv # rest) =
     (case combine_groups measurement_type weights (groups result) (groups indiv) of Inl e \<Rightarrow> Inl e
      | Inr (gs, ws) \<Rightarrow>
          (case CombineStatusTimeSeries (status_time_series result) (status_time_series indiv) of Inl e \<Rightarrow> Inl e
           | Inr ts \<Rightarrow> combine_clients measurement_type ws
               \<lparr>client = client result @ '' '' @ client indiv,
                command_line = command_line result @ '';'' @ command_line indiv,
                status_time_series = ts, groups = gs\<rparr> rest))"

definition insert_hdr :: "(string \<times> (rat \<times> rat \<times> rat) list) list \<Rightarrow> ycsb_result \<Rightarrow> ycsb_result" where
  "insert_hdr combined_hdr r = r\<lparr>groups := map (\<lambda>(n, g). (n, case map_of combined_hdr n of
     None \<Rightarrow> g | Some h \<Rightarrow> g\<lparr>op_data := Triples h\<rparr>)) (groups r)\<rparr>"

definition CombineResults ::
  "ycsb_result list \<Rightarrow> string \<Rightarrow> (string \<times> (rat \<times> rat \<times> rat) list) list \<Rightarrow> exn + ycsb_result" where
  "CombineResults result_list measurement_type combined_hdr =
     (case result_list of
        [] \<Rightarrow> Inl index_error
      | r # rs \<Rightarrow>
          (case combine_clients measurement_type [] (if rs = [] then r else DropUnaggregated r) rs of
             Inl e \<Rightarrow> Inl e
           | Inr result \<Rightarrow> Inr (if measurement_type = HDRHISTOGRAM then insert_hdr combined_hdr result else result)))"

section \<open>Quantiles are order statistics\<close>

lemma length_CumulativeSum [simp]: "length (CumulativeSum t ws) = length ws"
  by (induction ws arbitrary: t) auto

lemma CumulativeSum_nth: "i < length ws \<Longrightarrow> CumulativeSum t ws ! i = t + sum_list (take (Suc i) ws)"
proof (induction ws arbitrary: t i)
  case (Cons w ws)
  then show ?case by (cases i) auto
qed simp

text \<open>The index of the first element that is not less than \<open>x\<close>\<close>

lemma bisect_loop_first:
  assumes "\<And>j k. j \<le> k \<Longrightarrow> k < length a \<Longrightarrow> a ! j \<le> a ! k"
  shows "\<lbrakk>lo \<le> hi; hi \<le> length a; \<And>j. j < lo \<Longrightarrow> a ! j < x; \<And>j. hi \<le> j \<Longrightarrow> j < length a \<Longrightarrow> x \<le> a ! j\<rbrakk>
   \<Longrightarrow> bisect_loop a x lo hi \<le> length a \<and> (\<forall>j < bisect_loop a x lo hi. a ! j < x)
     \<and> (\<forall>j. bisect_loop a x lo hi \<le> j \<longrightarrow> j < length a \<longrightarrow> x \<le> a ! j)"
proof (induction "hi - lo" arbitrary: lo hi rule: less_induct)
  case less
  show ?case
  proof (cases "lo < hi")
    case False
    with less.prems show ?thesis by (subst (1 2 3) bisect_loop.simps) auto
  next
    case True
    define mid where "mid = (lo + hi) div 2"
    have mid: "lo \<le> mid" "mid < hi" using True by (auto simp: mid_def)
    have step: "bisect_loop a x lo hi = (if a ! mid < x then bisect_loop a x (mid + 1) hi else bisect_loop a x lo mid)"
      using True by (subst bisect_loop.simps) (simp add: mid_def Let_def)
    show ?thesis
    proof (cases "a ! mid < x")
      case below: True
      have "\<And>j. j < mid + 1 \<Longrightarrow> a ! j < x"
        using assms [of _ mid] below mid less.prems(2) by (metis less_Suc_eq_le Suc_eq_plus1 le_less_trans less_le_trans)
      with less.hyps [of hi "mid + 1"] less.prems mid show ?thesis unfolding step using below by simp
    next
      case above: False
      have "\<And>j. mid \<le> j \<Longrightarrow> j < length a \<Longrightarrow> x \<le> a ! j"
        using assms [of mid] above by (meson not_less order_trans)
      with less.hyps [of mid lo] less.prems mid show ?thesis unfolding step using above by simp
    qed
  qed
qed

lemma bisect_left_first:
  assumes "\<And>j k. j \<le> k \<Longrightarrow> k < length a \<Longrightarrow> a ! j \<le> a ! k"
  shows "bisect_left a x \<le> length a" "\<And>j. j < bisect_left a x \<Longrightarrow> a ! j < x"
    "\<And>j. bisect_left a x \<le> j \<Longrightarrow> j < length a \<Longrightarrow> x \<le> a ! j"
  using bisect_loop_first [OF assms, of 0 "length a" x] unfolding bisect_left_def by auto

lemma sum_of_nat: "sum_list (map of_nat ws) = (of_nat (sum_list ws) :: rat)"
  by (induction ws) simp_all

text \<open>The list in which every value is repeated as often as its weight says\<close>

definition expanded :: "rat list \<Rightarrow> nat list \<Rightarrow> rat list" where
  "expanded x ws = concat (map (\<lambda>(v, w). replicate w v) (zip x ws))"

lemma length_expanded: "length x = length ws \<Longrightarrow> length (expanded x ws) = sum_list ws"
  unfolding expanded_def by (induction x ws rule: list_induct2) auto

lemma expanded_nth:
  "\<lbrakk>length x = length ws; i < length ws; sum_list (take i ws) \<le> j; j < sum_list (take (Suc i) ws)\<rbrakk>
   \<Longrightarrow> expanded x ws ! j = x ! i"
proof (induction x ws arbitrary: i j rule: list_induct2)
  case (Cons v vs w ws)
  show ?case
  proof (cases i)
    case 0
    with Cons.prems show ?thesis by (simp add: expanded_def nth_append)
  next
    case (Suc k)
    with Cons.prems Cons.IH [of k "j - w"] show ?thesis by (simp add: expanded_def nth_append)
  qed
qed simp

text \<open>C29: A quantile of a histogram is an order statistic.  For whole weights, not all of them zero, and
  0 < p <= 1, the weighted quantile is found and is the element with the rank p n, rounded up, of the
  n values in which every value of the list is repeated as often as its weight says.
\<close>

theorem WeightedQuantile_rank:
  assumes "length x = length ws" and "0 < p" and "p \<le> 1" and "sum_list ws \<noteq> 0"
  shows "WeightedQuantile x (map of_nat ws) p
    = Inr (expanded x ws ! (nat \<lceil>p * of_nat (sum_list ws)\<rceil> - 1))"
proof -
  let ?n = "sum_list ws" and ?c = "CumulativeSum 0 (map of_nat ws :: rat list)"
  define m where "m = nat \<lceil>p * of_nat ?n\<rceil>"
  define i where "i = bisect_left ?c (of_nat ?n * p)"
  have take: "?c ! j = of_nat (sum_list (take (Suc j) ws))" if "j < length ws" for j
    using that by (simp add: CumulativeSum_nth take_map sum_of_nat)
  have grows: "sum_list (take j ws) \<le> sum_list (take k ws)" if "j \<le> k" for j k
    using that by (metis le_add1 le_Suc_ex sum_list_append take_add)
  have sorted: "?c ! j \<le> ?c ! k" if "j \<le> k" "k < length ?c" for j k
    using that grows [of "Suc j" "Suc k"] by (simp add: take)
  have first: "\<And>j. j < i \<Longrightarrow> ?c ! j < of_nat ?n * p" "\<And>j. i \<le> j \<Longrightarrow> j < length ?c \<Longrightarrow> of_nat ?n * p \<le> ?c ! j"
    unfolding i_def using bisect_left_first [of ?c, OF sorted] by blast+
  have target: "of_nat ?n * p \<le> of_nat ?n" "0 < p * of_nat ?n"
    using assms by (simp_all add: mult_left_le zero_less_mult_iff del: sum_list_eq_0_iff)
  have m: "of_nat k \<ge> of_nat ?n * p \<longleftrightarrow> m \<le> k" for k
    using target(2) unfolding m_def by (simp add: mult.commute nat_le_iff ceiling_le_iff)
  have "ws \<noteq> []" using assms(4) by auto
  then have "?c ! (length ws - 1) = of_nat ?n" by (simp add: take)
  then have "\<not> length ws - 1 < i"
    using first(1) [of "length ws - 1"] target(1) by auto
  then have i: "i < length ws" using \<open>ws \<noteq> []\<close> by (cases ws) auto
  have upper: "m \<le> sum_list (take (Suc i) ws)"
    using first(2) [of i] i by (simp add: take m)
  have lower: "sum_list (take i ws) < m"
  proof (cases i)
    case 0
    then show ?thesis using target(2) by (simp add: m_def)
  next
    case (Suc k)
    then have "?c ! k < of_nat ?n * p" using first(1) [of k] by simp
    then show ?thesis using Suc i m [of "sum_list (take i ws)"] by (simp add: take) 
  qed
  have "expanded x ws ! (m - 1) = x ! i"
    by (rule expanded_nth) (use assms(1) i lower upper in auto)
  with assms i show ?thesis
    by (simp add: WeightedQuantile_def Let_def m_def i_def sum_of_nat)
qed

theorem WeightedQuantile_rank_witness:
  "WeightedQuantile [1, 5, 7] (map of_nat [2, 1, 1]) (3 / 4) = Inr 5"
proof -
  have "WeightedQuantile [1, 5, 7] (map of_nat [2, 1, 1]) (3 / 4)
      = Inr (expanded [1, 5, 7] [2, 1, 1] ! (nat \<lceil>3 / 4 * of_nat (sum_list [2, 1, 1]) :: rat\<rceil> - 1))"
    by (rule WeightedQuantile_rank) simp_all
  then show ?thesis by (simp add: expanded_def numeral_2_eq_2)
qed

section \<open>Combined statistics\<close>

lemma map_of_dict_pop: "map_of (dict_pop d k) = (map_of d)(k := None)"
  unfolding dict_pop_def by (induction d) (auto simp: fun_eq_iff)

lemma map_of_map_groups: "map_of (map (\<lambda>(n, g). (n, f n g)) gs) n = map_option (f n) (map_of gs n)"
  by (induction gs) auto

text \<open>A statistic of a group, if the result has it\<close>

definition statistic_of :: "(string \<times> op_result) list \<Rightarrow> string \<Rightarrow> string \<Rightarrow> rat option" where
  "statistic_of gs name k = (case map_of gs name of None \<Rightarrow> None | Some g \<Rightarrow> map_of (statistics g) k)"

fun join :: "operator \<Rightarrow> rat option \<Rightarrow> rat option \<Rightarrow> rat option" where
  "join op None y = y"
| "join op x None = x"
| "join op (Some x) (Some y) = Some (apply_operator op x y)"

lemma join_None [simp]: "join op y None = y"
  by (cases y) auto

definition present :: "'a option list \<Rightarrow> 'a list" where
  "present xs = map the (filter (\<lambda>x. x \<noteq> None) xs)"

definition combine_all :: "operator \<Rightarrow> rat list \<Rightarrow> rat" where
  "combine_all op vs = (case op of OpAdd \<Rightarrow> sum_list vs | OpMax \<Rightarrow> Max (set vs) | OpMin \<Rightarrow> Min (set vs))"

lemma combine_all_snoc:
  assumes "vs \<noteq> []"
  shows "combine_all op (vs @ [v]) = apply_operator op (combine_all op vs) v"
proof -
  have "Max (set (vs @ [v])) = max v (Max (set vs))" "Min (set (vs @ [v])) = min v (Min (set vs))"
    using assms by simp_all
  then show ?thesis by (cases op) (simp_all only: combine_all_def operator.case apply_operator.simps max_def min_def, auto)
qed

lemma foldl_join:
  "foldl (join op) None xs = (if present xs = [] then None else Some (combine_all op (present xs)))"
proof (induction xs rule: rev_induct)
  case (snoc x xs)
  show ?case
  proof (cases x)
    case None
    with snoc show ?thesis by (simp add: present_def)
  next
    case (Some v)
    with snoc show ?thesis
      by (auto simp: present_def combine_all_snoc) (simp add: combine_all_def split: operator.split)
  qed
qed (simp add: present_def)

lemma map_of_combine_statistic:
  "map_of (combine_statistic (k', v) stats) k = (if k \<noteq> k' then map_of stats k else
     case map_of AGGREGATE_OPERATORS k of None \<Rightarrow> map_of stats k | Some None \<Rightarrow> None
     | Some (Some op) \<Rightarrow> join op (map_of stats k) (Some v))"
  by (auto simp: combine_statistic_def map_of_dict_pop split: option.split)

lemma map_of_combine_statistics:
  assumes "map_of AGGREGATE_OPERATORS k = Some (Some op)"
  shows "distinct (map fst kvs) \<Longrightarrow>
    map_of (fold combine_statistic kvs stats) k = join op (map_of stats k) (map_of kvs k)"
proof (induction kvs arbitrary: stats)
  case Nil
  show ?case by simp
next
  case (Cons kv kvs)
  obtain k' v where kv: "kv = (k', v)" by (cases kv)
  have rest: "map_of kvs k = None" if "k = k'" using Cons.prems kv that by (simp add: map_of_eq_None_iff)
  show ?case
  proof (cases "k = k'")
    case True
    with assms Cons kv rest [OF True] show ?thesis by (simp add: map_of_combine_statistic)
  next
    case False
    with Cons kv show ?thesis by (simp add: map_of_combine_statistic)
  qed
qed

definition tidy :: "(string \<times> op_result) list \<Rightarrow> bool" where
  "tidy gs = (distinct (map fst gs) \<and> (\<forall>(n, g) \<in> set gs. distinct (map fst (statistics g))))"

lemma combine_groups_statistic:
  assumes op: "map_of AGGREGATE_OPERATORS k = Some (Some op)"
  shows "tidy gs2 \<Longrightarrow> combine_groups mt ws gs gs2 = Inr (gs', ws') \<Longrightarrow>
    statistic_of gs' n k = join op (statistic_of gs n k) (statistic_of gs2 n k)"
proof (induction mt ws gs gs2 arbitrary: gs' ws' rule: combine_groups.induct)
  case (1 mt ws gs)
  then show ?case by (auto simp: statistic_of_def)
next
  case (2 mt ws gs name g rest)
  have tidy: "tidy rest" "distinct (map fst (statistics g))" "map_of rest name = None"
    using "2.prems"(1) by (auto simp: tidy_def map_of_eq_None_iff)
  show ?case
  proof (cases "map_of gs name")
    case None
    with "2.prems"(2) have "combine_groups mt ws (dict_set gs name g) rest = Inr (gs', ws')" by simp
    from "2.IH"(1) [OF None tidy(1) this] None tidy(3) show ?thesis
      by (cases "n = name") (auto simp: statistic_of_def split: option.split)
  next
    case (Some g1)
    obtain d ws1 where d: "combine_data mt ws (op_data g1) (op_data g) = Inr (d, ws1)"
      using "2.prems"(2) Some by (auto split: sum.splits)
    let ?g = "g1\<lparr>statistics := fold combine_statistic (statistics g) (statistics g1), op_data := d\<rparr>"
    have "combine_groups mt ws1 (dict_set gs name ?g) rest = Inr (gs', ws')"
      using "2.prems"(2) Some d by simp
    from "2.IH"(2) [OF Some d refl tidy(1) this]
    have "statistic_of gs' n k = join op (statistic_of (dict_set gs name ?g) n k) (statistic_of rest n k)" .
    then show ?thesis using Some tidy(3) map_of_combine_statistics [OF op tidy(2)]
      by (cases "n = name") (auto simp: statistic_of_def)
  qed
qed

lemma combine_clients_statistic:
  assumes op: "map_of AGGREGATE_OPERATORS k = Some (Some op)"
  shows "\<lbrakk>\<forall>r \<in> set rs. tidy (groups r); combine_clients mt ws r0 rs = Inr r\<rbrakk> \<Longrightarrow>
    statistic_of (groups r) n k = foldl (join op) (statistic_of (groups r0) n k) (map (\<lambda>r. statistic_of (groups r) n k) rs)"
proof (induction mt ws r0 rs arbitrary: r rule: combine_clients.induct)
  case (2 mt ws r0 indiv rest)
  obtain gs ws1 where gs: "combine_groups mt ws (groups r0) (groups indiv) = Inr (gs, ws1)"
    using "2.prems"(2) by (auto split: sum.splits)
  obtain ts where ts: "CombineStatusTimeSeries (status_time_series r0) (status_time_series indiv) = Inr ts"
    using "2.prems"(2) gs by (auto split: sum.splits)
  have "tidy (groups indiv)" using "2.prems"(1) by simp
  from combine_groups_statistic [OF op this gs] "2.IH" [OF gs refl ts] "2.prems" gs ts
  show ?case by simp
qed simp

lemma DropUnaggregated_statistic:
  assumes "map_of AGGREGATE_OPERATORS k = Some (Some op)"
  shows "statistic_of (groups (DropUnaggregated r)) n k = statistic_of (groups r) n k"
proof -
  have pops: "map_of (fold (\<lambda>k d. dict_pop d k) ks d) k = map_of d k" if "k \<notin> set ks" for ks d
    using that by (induction ks arbitrary: d) (auto simp: map_of_dict_pop)
  have "k \<notin> set (map fst (filter (\<lambda>e. snd e = None) AGGREGATE_OPERATORS))"
    using assms by (auto simp: AGGREGATE_OPERATORS_def)
  then show ?thesis
    unfolding statistic_of_def DropUnaggregated_def Let_def
    by (simp add: map_of_map_groups [where f = "\<lambda>_ g. g\<lparr>statistics := h g\<rparr>" for h] pops split: option.split)
qed

text \<open>C30: What the statistics of a combined result are.  For a statistic with an operator, the combined
  result has the sum, the maximum or the minimum of the values of the clients that report it for the
  group, and does not have it if no client does.
\<close>

theorem CombineResults_statistics:
  assumes "CombineResults rs mt hdr = Inr r" and "\<forall>c \<in> set rs. tidy (groups c)"
    and op: "map_of AGGREGATE_OPERATORS k = Some (Some op)"
  shows "statistic_of (groups r) n k
    = (let vs = present (map (\<lambda>c. statistic_of (groups c) n k) rs) in
       if vs = [] then None
       else Some (case op of OpAdd \<Rightarrow> sum_list vs | OpMax \<Rightarrow> Max (set vs) | OpMin \<Rightarrow> Min (set vs)))"
proof -
  obtain r0 rest where rs: "rs = r0 # rest" using assms(1) by (cases rs) (auto simp: CombineResults_def)
  obtain r1 where r1: "combine_clients mt [] (if rest = [] then r0 else DropUnaggregated r0) rest = Inr r1"
    and r: "r = (if mt = HDRHISTOGRAM then insert_hdr hdr r1 else r1)"
    using assms(1) rs by (auto simp: CombineResults_def split: sum.splits)
  have "statistic_of (groups (insert_hdr hdr r1)) n k = statistic_of (groups r1) n k"
    unfolding statistic_of_def insert_hdr_def
    by (auto simp: map_of_map_groups [where f = "\<lambda>n g. case map_of hdr n of None \<Rightarrow> g | Some h \<Rightarrow> g\<lparr>op_data := Triples h\<rparr>"]
        split: option.split)
  with r have "statistic_of (groups r) n k = statistic_of (groups r1) n k" by simp
  also have "\<dots> = foldl (join op) (statistic_of (groups r0) n k) (map (\<lambda>c. statistic_of (groups c) n k) rest)"
    using combine_clients_statistic [OF op _ r1] assms(2) rs DropUnaggregated_statistic [OF op] by simp
  also have "\<dots> = foldl (join op) None (map (\<lambda>c. statistic_of (groups c) n k) rs)"
    by (simp add: rs)
  finally show ?thesis by (simp add: foldl_join combine_all_def Let_def)
qed

definition two_clients :: "ycsb_result list" where
  "two_clients = map (\<lambda>(n, t, w). \<lparr>client = ''YCSB'', command_line = ''x'', status_time_series = [],
     groups = [(''overall'', \<lparr>op_group = ''overall'', data_type = HISTOGRAM, op_data = Pairs [(0, n), (w, 1)],
       statistics = [(''RunTime(ms)'', t), (''Operations'', n + 1)]\<rparr>)]\<rparr>) [(3, 10, 19), (5, 8, 20)]"

lemma two_clients_combine:
  "CombineResults two_clients HISTOGRAM [] = Inr \<lparr>client = ''YCSB YCSB'', command_line = ''x;x'', status_time_series = [],
     groups = [(''overall'', \<lparr>op_group = ''overall'', data_type = HISTOGRAM, op_data = Pairs [(0, 8), (19, 1), (20, 1)],
       statistics = [(''RunTime(ms)'', 10), (''Operations'', 10)]\<rparr>)]\<rparr>"
  by (simp add: CombineResults_def two_clients_def DropUnaggregated_def AGGREGATE_OPERATORS_def dict_pop_def
      combine_data_def HISTOGRAM_def HDRHISTOGRAM_def as_pairs_def CombineHistograms_def dict_of_def dict_update_def get_or_def
      combine_statistic_def CombineStatusTimeSeries_def Let_def)

theorem CombineResults_statistics_witness:
  "statistic_of (groups (projr (CombineResults two_clients HISTOGRAM []))) ''overall'' ''Operations'' = Some 10
   \<and> statistic_of (groups (projr (CombineResults two_clients HISTOGRAM []))) ''overall'' ''RunTime(ms)'' = Some 10"
proof -
  have tidy: "\<forall>c \<in> set two_clients. tidy (groups c)" by (simp add: two_clients_def tidy_def)
  note facts = CombineResults_statistics [OF two_clients_combine tidy]
  show ?thesis unfolding two_clients_combine sum.sel
    using facts [of "''Operations''" OpAdd "''overall''"] facts [of "''RunTime(ms)''" OpMax "''overall''"]
    by (simp add: AGGREGATE_OPERATORS_def two_clients_def statistic_of_def present_def)
qed

section \<open>Combined histograms\<close>

definition bin_count :: "(string \<times> op_result) list \<Rightarrow> string \<Rightarrow> rat \<Rightarrow> rat" where
  "bin_count gs name b = (case map_of gs name of None \<Rightarrow> 0
     | Some g \<Rightarrow> (case op_data g of Pairs h \<Rightarrow> get_or 0 (dict_of h) b | Triples _ \<Rightarrow> 0))"

lemma map_of_dict_of: "map_of (dict_of h) = map_of (rev h)"
proof -
  have "map_of (fold (\<lambda>(k, v) d. dict_set d k v) h d) = map_of d ++ map_of (rev h)" for d
    by (induction h arbitrary: d) (auto simp: fun_eq_iff map_add_def split: option.split)
  then show ?thesis by (simp add: dict_of_def dict_update_def)
qed

lemma CombineHistograms_bin:
  "get_or 0 (dict_of (CombineHistograms h1 h2)) b = get_or 0 (dict_of h1) b + get_or 0 (dict_of h2) b"
proof -
  have "map_of d b = None" if "b \<notin> fst ` set d" for d :: "(rat \<times> rat) list"
    using that by (simp add: map_of_eq_None_iff)
  then show ?thesis
    unfolding CombineHistograms_def Let_def get_or_def map_of_dict_of [of "map _ _"]
    by (auto simp: rev_map map_of_map_restrict restrict_map_def dest: map_of_SomeD split: option.split)
qed

lemma dict_of_Nil: "dict_of [] = []"
  by (simp add: dict_of_def dict_update_def)

lemma get_or_Nil: "get_or x [] k = x"
  by (simp add: get_or_def)

lemma combine_data_bin:
  assumes "combine_data HISTOGRAM ws (op_data g1) (op_data g) = Inr (d, ws1)"
  shows "\<exists>h. d = Pairs h \<and> get_or 0 (dict_of h) b
    = bin_count [(n, g1)] n b + bin_count [(n, g)] n b"
  using assms
  by (auto simp: combine_data_def as_pairs_def bin_count_def CombineHistograms_bin dict_of_Nil get_or_Nil
      split: series.splits sum.splits if_splits)

lemma combine_groups_bin:
  "distinct (map fst gs2) \<Longrightarrow> combine_groups mt ws gs gs2 = Inr (gs', ws') \<Longrightarrow> mt = HISTOGRAM \<Longrightarrow>
    bin_count gs' n b = bin_count gs n b + bin_count gs2 n b"
proof (induction mt ws gs gs2 arbitrary: gs' ws' rule: combine_groups.induct)
  case (2 mt ws gs name g rest)
  have rest: "map_of rest name = None" "distinct (map fst rest)"
    using "2.prems"(1) by (auto simp: map_of_eq_None_iff)
  show ?case
  proof (cases "map_of gs name")
    case None
    with "2.prems"(2) have "combine_groups mt ws (dict_set gs name g) rest = Inr (gs', ws')" by simp
    from "2.IH"(1) [OF None rest(2) this "2.prems"(3)] None rest(1) show ?thesis
      by (cases "n = name") (auto simp: bin_count_def split: option.split)
  next
    case (Some g1)
    obtain d ws1 where d: "combine_data mt ws (op_data g1) (op_data g) = Inr (d, ws1)"
      using "2.prems"(2) Some by (auto split: sum.splits)
    let ?g = "g1\<lparr>statistics := fold combine_statistic (statistics g) (statistics g1), op_data := d\<rparr>"
    obtain h where h: "d = Pairs h" "get_or 0 (dict_of h) b = bin_count [(n, g1)] n b + bin_count [(n, g)] n b"
      using combine_data_bin [of ws g1 g d ws1 b n] d "2.prems"(3) by blast
    have "combine_groups mt ws1 (dict_set gs name ?g) rest = Inr (gs', ws')"
      using "2.prems"(2) Some d by simp
    from "2.IH"(2) [OF Some d refl rest(2) this "2.prems"(3)]
    have "bin_count gs' n b = bin_count (dict_set gs name ?g) n b + bin_count rest n b" .
    with Some rest(1) h show ?thesis
      by (cases "n = name") (auto simp: bin_count_def)
  qed
qed (simp add: bin_count_def)

lemma combine_clients_bin:
  "\<lbrakk>\<forall>r \<in> set rs. distinct (map fst (groups r)); combine_clients mt ws r0 rs = Inr r; mt = HISTOGRAM\<rbrakk> \<Longrightarrow>
    bin_count (groups r) n b = bin_count (groups r0) n b + sum_list (map (\<lambda>r. bin_count (groups r) n b) rs)"
proof (induction mt ws r0 rs arbitrary: r rule: combine_clients.induct)
  case (2 mt ws r0 indiv rest)
  obtain gs ws1 where gs: "combine_groups mt ws (groups r0) (groups indiv) = Inr (gs, ws1)"
    using "2.prems"(2) by (auto split: sum.splits)
  obtain ts where ts: "CombineStatusTimeSeries (status_time_series r0) (status_time_series indiv) = Inr ts"
    using "2.prems"(2) gs by (auto split: sum.splits)
  have "distinct (map fst (groups indiv))" using "2.prems"(1) by simp
  from combine_groups_bin [OF this gs "2.prems"(3)] "2.IH" [OF gs refl ts] "2.prems" gs ts
  show ?case by simp
qed simp

lemma DropUnaggregated_bin: "bin_count (groups (DropUnaggregated r)) n b = bin_count (groups r) n b"
  unfolding bin_count_def DropUnaggregated_def Let_def
  by (simp add: map_of_map_groups [where f = "\<lambda>_ g. g\<lparr>statistics := h g\<rparr>" for h] split: option.split)

text \<open>No measurement is lost when histograms are combined.  For results of type histogram, every bin of
  every group of the combined result holds the sum of what the clients have in that bin.
\<close>

lemma CombineResults_histogram:
  assumes "CombineResults rs HISTOGRAM hdr = Inr r" and "\<forall>c \<in> set rs. distinct (map fst (groups c))"
  shows "bin_count (groups r) n b = sum_list (map (\<lambda>c. bin_count (groups c) n b) rs)"
proof -
  obtain r0 rest where rs: "rs = r0 # rest" using assms(1) by (cases rs) (auto simp: CombineResults_def)
  have "combine_clients HISTOGRAM [] (if rest = [] then r0 else DropUnaggregated r0) rest = Inr r"
    using assms(1) rs by (auto simp: CombineResults_def HISTOGRAM_def HDRHISTOGRAM_def split: sum.splits)
  from combine_clients_bin [OF _ this refl] assms(2) rs show ?thesis
    by (simp add: DropUnaggregated_bin)
qed

theorem CombineResults_histogram_witness:
  "bin_count (groups (projr (CombineResults two_clients HISTOGRAM []))) ''overall'' 0 = 3 + 5"
proof -
  have "\<forall>c \<in> set two_clients. distinct (map fst (groups c))" by (simp add: two_clients_def)
  from CombineResults_histogram [OF two_clients_combine this, of "''overall''" 0] show ?thesis
    unfolding two_clients_combine sum.sel
    by (simp add: two_clients_def bin_count_def get_or_def map_of_dict_of)
qed

section \<open>Two defects of the combination\<close>

text \<open>
  The weights of the average latencies are kept per time, but are shared by the groups: for two
  clients with the latencies 1 and 3 of updates the average is 3 / 2, but it is computed as 9 / 7
  if the clients have reads at that time as well.
\<close>

definition latencies :: "(string \<times> rat) list \<Rightarrow> ycsb_result" where
  "latencies ls = \<lparr>client = ''YCSB'', command_line = ''x'', status_time_series = [],
     groups = map (\<lambda>(n, l). (n, \<lparr>op_group = n, data_type = TIMESERIES, op_data = Pairs [(0, l)], statistics = []\<rparr>)) ls\<rparr>"

lemmas combine_defs = CombineResults_def DropUnaggregated_def dict_pop_def combine_data_def TIMESERIES_def
  HISTOGRAM_def HDRHISTOGRAM_def as_pairs_def CombineLatencyTimeSeries_def dict_of_def dict_update_def get_or_def
  combine_statistic_def CombineStatusTimeSeries_def Let_def

lemma shared_weights:
  "map_option op_data (map_of (groups (projr (CombineResults
     [latencies [(''update'', 1)], latencies [(''update'', 3)]] TIMESERIES []))) ''update'') = Some (Pairs [(0, 3 / 2)])"
  "map_option op_data (map_of (groups (projr (CombineResults
     [latencies [(''read'', 1), (''update'', 1)], latencies [(''read'', 1), (''update'', 3)]] TIMESERIES []))) ''update'')
   = Some (Pairs [(0, 9 / 7)])"
  by (simp_all add: combine_defs latencies_def)

text \<open>
  The average latency of a group that only the last client has is kept, although statistics without an
  operator are dropped.
\<close>

lemma unaggregated_kept:
  "map_option statistics (map_of (groups (projr (CombineResults [latencies [], (latencies [])\<lparr>groups :=
     [(''scan'', \<lparr>op_group = ''scan'', data_type = HISTOGRAM, op_data = Pairs [], statistics = [(''AverageLatency(ms)'', 7)]\<rparr>)]\<rparr>]
     HISTOGRAM []))) ''scan'') = Some [(''AverageLatency(ms)'', 7)]"
  by (simp add: combine_defs latencies_def)

section \<open>Samples\<close>

text \<open>What \<open>CreateSamples\<close> reads besides its arguments: how numbers and lists are printed, the module's
  variable \<open>_ycsb_tar_url\<close>, the flag, and the writing of the time series to files.\<close>

record 'w ycsb_env =
  repr_float :: "rat \<Rightarrow> string"
  show_number :: "rat \<Rightarrow> string"
  dumps :: "(int \<times> rat) list \<Rightarrow> string"
  ycsb_tar_url :: "string option"
  hdrhistogram_start_time :: "int option"
  WriteStatusTimeSeriesToFile :: "(exn, 'w mach, unit) py"

text \<open>\<open>SplitStatusTimeSeriesForSamples\<close>: per operation and statistic the list of times and values\<close>

type_synonym split_series = "(string \<times> (string \<times> (int \<times> rat) list) list) list"

definition add_point :: "string \<Rightarrow> string \<Rightarrow> int \<times> rat \<Rightarrow> split_series \<Rightarrow> split_series" where
  "add_point op stat x d =
     (let by_stat = get_or [] d op in dict_set d op (dict_set by_stat stat (get_or [] by_stat stat @ [x])))"

definition SplitStatusTimeSeriesForSamples :: "(int \<times> status_result) list \<Rightarrow> split_series" where
  "SplitStatusTimeSeriesForSamples series =
     fold (\<lambda>(t, status). fold (\<lambda>p. fold (\<lambda>(stat, v). add_point (op_group p) stat (t, v)) (statistics p)) (op_results status))
       (sort_key fst series) []"

definition series_sample :: "string \<Rightarrow> string \<times> (int \<times> rat) list \<Rightarrow> (exn, 'w mach, sample) py" where
  "series_sample op = (\<lambda>(stat, points). CreateTimeSeriesSample (map (VNum \<circ> snd) points) (map (of_int \<circ> fst) points)
     (op @ '' '' @ stat @ '' time series'') (if IsStatusLatencyStatistic stat then ''ms'' else ''ops/sec'') 1 None None None)"

text \<open>The groups of a match of \<open>^(.*) *\((us|ms|ops/sec)\)$\<close>\<close>

definition strip_unit :: "string \<Rightarrow> string \<times> string" where
  "strip_unit name = (case filter (\<lambda>u. suffix (''('' @ u @ '')'') name) [''us'', ''ms'', ''ops/sec''] of
     [] \<Rightarrow> (name, []) | u # _ \<Rightarrow> (take (length name - length u - 2) name, u))"

definition statistic_sample :: "metadata_dict \<Rightarrow> string \<Rightarrow> string \<times> rat \<Rightarrow> (exn, 'w mach, sample) py" where
  "statistic_sample meta name = (\<lambda>(stat, v). case strip_unit stat of (stat, u) \<Rightarrow>
     new_sample (name @ '' '' @ stat) (Some v) u (Some meta) None)"

definition percentile_samples ::
  "'w ycsb_env \<Rightarrow> metadata_dict \<Rightarrow> string \<Rightarrow> (rat \<times> rat) list \<Rightarrow> (exn, 'w mach, sample list) py" where
  "percentile_samples Y meta name h =
     (case PercentilesFromHistogram (repr_float Y) h DEFAULT_PERCENTILES of Inl e \<Rightarrow> raise e
      | Inr ps \<Rightarrow> mapPy (\<lambda>(label, v). new_sample (name @ '' '' @ label @ '' latency'') (Some v) ''ms'' (Some meta) None) ps)"

definition too_many :: exn where
  "too_many = value_error ''too many values to unpack (expected 2)''"

definition hdr_samples ::
  "'w ycsb_env \<Rightarrow> bool \<Rightarrow> metadata_dict \<Rightarrow> string \<Rightarrow> series \<Rightarrow> (exn, 'w mach, sample list) py" where
  "hdr_samples Y include_histogram meta name d =
     (let meta = (case hdrhistogram_start_time Y of None \<Rightarrow> meta
            | Some t \<Rightarrow> if t = 0 then meta else dict_set meta ''ycsb_hdrhistogram_start_time'' (VInt t))
      in bindM (percentile_samples Y meta name (case d of Pairs h \<Rightarrow> h | Triples h \<Rightarrow> map snd h)) (\<lambda>ss.
        if \<not> include_histogram then ret ss
        else case d of Pairs h \<Rightarrow> raise (value_error ''not enough values to unpack (expected 3, got 2)'')
          | Triples h \<Rightarrow> bindM (new_sample (name @ '' latency histogram'') (Some 0) []
              (Some (dict_set meta ''histogram'' (VStr (dumps Y (map (\<lambda>(_, v, n). (py_int (v * 1000), n)) h))))) None)
            (\<lambda>s. ret (ss @ [s]))))"

definition data_samples ::
  "'w ycsb_env \<Rightarrow> bool \<Rightarrow> metadata_dict \<Rightarrow> string \<Rightarrow> op_result \<Rightarrow> (exn, 'w mach, sample list) py" where
  "data_samples Y include_histogram meta name g =
     (if op_data g = Pairs [] \<or> op_data g = Triples [] then ret []
      else if data_type g = HDRHISTOGRAM then hdr_samples Y include_histogram meta name (op_data g)
      else if data_type g = HISTOGRAM then
        (case op_data g of Triples _ \<Rightarrow> raise too_many
         | Pairs h \<Rightarrow> bindM (percentile_samples Y meta name h) (\<lambda>ss.
             if \<not> include_histogram then ret ss
             else bindM (mapPy (\<lambda>(t, n). new_sample (name @ ''_latency_histogram_'' @ show_number Y t @ ''_ms'')
                    (Some n) ''count'' (Some meta) None) h) (\<lambda>bins. ret (ss @ bins))))
      else if data_type g = TIMESERIES then
        (case op_data g of Triples _ \<Rightarrow> raise too_many
         | Pairs h \<Rightarrow> bindM (mapPy (\<lambda>(t, l). new_sample (name @ '' AverageLatency (timeseries)'') (Some l) ''ms''
               (Some (dict_set meta ''sample_time'' (VNum t))) None) h) (\<lambda>ss.
             bindM (new_sample ''Average Latency Time Series'' (Some 0) []
               (Some [(''latency_time_series'', VList (map (\<lambda>(t, l). VList [VNum t, VNum l]) h))]) None) (\<lambda>s.
             ret (ss @ [s]))))
      else ret [])"

definition group_samples ::
  "'w ycsb_env \<Rightarrow> bool \<Rightarrow> metadata_dict \<Rightarrow> string \<times> op_result \<Rightarrow> (exn, 'w mach, sample list) py" where
  "group_samples Y include_histogram base_metadata = (\<lambda>(name, g).
     let meta = dict_set base_metadata ''operation'' (VStr name) in
     bindM (mapPy (statistic_sample meta name) (statistics g)) (\<lambda>ss.
     bindM (data_samples Y include_histogram meta name g) (\<lambda>ds. ret (ss @ ds))))"

definition base_metadata_of ::
  "'w ycsb_env \<Rightarrow> ycsb_result \<Rightarrow> string \<Rightarrow> string \<Rightarrow> bool \<Rightarrow> metadata_dict \<Rightarrow> metadata_dict" where
  "base_metadata_of Y r version commit include_command_line kwargs =
     (let md = [(''stage'', VStr (if suffix ''-load'' (command_line r) then ''load'' else ''run'')),
                (''ycsb_tar_url'', case ycsb_tar_url Y of None \<Rightarrow> VNone | Some u \<Rightarrow> VStr u),
                (''ycsb_version'', VStr version)];
          md = (if include_command_line then dict_set md ''command_line'' (VStr (command_line r)) else md);
          md = (if commit = [] then md else dict_set md ''ycsb_commit'' (VStr commit))
      in dict_update md kwargs)"

definition CreateSamples ::
  "'w ycsb_env \<Rightarrow> ycsb_result \<Rightarrow> string \<Rightarrow> string \<Rightarrow> bool \<Rightarrow> bool \<Rightarrow> metadata_dict \<Rightarrow> (exn, 'w mach, sample list) py" where
  "CreateSamples Y r version commit include_histogram include_command_line kwargs =
     (let md = base_metadata_of Y r version commit include_command_line kwargs in
      bindM (if status_time_series r = [] then ret []
        else bindM (mapPy (\<lambda>(op, by_stat). mapPy (series_sample op) by_stat)
               (SplitStatusTimeSeriesForSamples (status_time_series r))) (\<lambda>sss.
             thenM (WriteStatusTimeSeriesToFile Y) (ret (concat sss)))) (\<lambda>series.
      bindM (mapPy (group_samples Y include_histogram md) (groups r)) (\<lambda>sss. ret (series @ concat sss))))"

text \<open>\<open>ExtractStats\<close>: throughput, read latency and update latency\<close>

definition last_value :: "string \<Rightarrow> sample list \<Rightarrow> rat" where
  "last_value name ss = (case filter (\<lambda>s. metric s = name) (rev ss) of [] \<Rightarrow> 0 | s # _ \<Rightarrow> sample_value s)"

definition ExtractStats :: "sample list \<Rightarrow> string \<Rightarrow> int \<times> rat \<times> rat" where
  "ExtractStats ss percentile = (py_int (last_value ''overall Throughput'' ss),
     last_value (''read '' @ percentile @ '' latency'') ss, last_value (''update '' @ percentile @ '' latency'') ss)"

section \<open>Logs of HdrHistogram\<close>

lemma hdr_rows_increase:
  "hdr_rows last_percent prev_total lines = Inr h \<Longrightarrow>
    sorted_wrt (<) (last_percent # map fst h) \<and> (\<forall>(p, l, n) \<in> set h. 1 \<le> n)"
proof (induction last_percent prev_total lines arbitrary: h rule: hdr_rows.induct)
  case (2 last_percent prev_total line lines)
  show ?case
  proof (cases "is_row line")
    case False
    with 2 show ?thesis by simp
  next
    case row: True
    obtain p t l where r: "read_row line = Inr (p, t, l)"
      using "2.prems" row by (auto split: sum.splits)
    show ?thesis
    proof (cases "last_percent < p \<and> prev_total < t")
      case False
      with "2.prems" row r have "hdr_rows last_percent prev_total lines = Inr h" by simp
      with "2.IH"(3) [OF _ r refl refl False] row show ?thesis by simp
    next
      case True
      obtain x rest where x: "parse_float l = Some x" "hdr_rows p t lines = Inr rest"
        "h = (p, x / 1000, of_nat (t - prev_total)) # rest"
        using "2.prems" row r True by (auto split: option.splits sum.splits)
      have "sorted_wrt (<) (p # map fst rest) \<and> (\<forall>(p, l, n) \<in> set rest. 1 \<le> n)"
        using "2.IH"(2) [OF _ r refl refl True x(1,2)] row by simp
      moreover have "(1 :: rat) \<le> of_nat (t - prev_total)" using True by simp
      ultimately show ?thesis using True by (auto simp: x(3))
    qed
  qed
qed simp

text \<open>The percentiles of a log increase strictly and every one of them has a count.\<close>

lemma ParseHdrLogFile_increases:
  assumes "ParseHdrLogFile logfile = Inr h"
  shows "sorted_wrt (<) (map fst h) \<and> (\<forall>(p, l, n) \<in> set h. 1 \<le> n)"
  using hdr_rows_increase [OF assms [unfolded ParseHdrLogFile_def]] by simp

end
