(* ===== verification/Edw.thy ===== *)
theory Edw
  imports FlagUtil Sample
begin

text \<open>
  \<open>perfkitbenchmarker/edw_benchmark_results_aggregator.py\<close>: what is computed from the times of the
  queries of a data warehouse.  A benchmark is a number of iterations; an iteration runs every query
  once, one after the other (power) or all at once (simultaneous), or several streams of them
  (throughput).  A time of -1 stands for a query that failed.  Floats are real numbers.  The classes of
  iterations are records, the constructors of a datatype make them one type, and the methods of the
  abstract base class dispatch on it.  The objects that \<open>json.loads\<close> gives are records whose fields
  are \<open>None\<close> where the object has no such key.  A sample is what is passed to its constructor.
\<close>

section \<open>Queries\<close>

datatype query_status = FAILED | SUCCESSFUL

text \<open>What the metadata hold: values of the configuration and of JSON, times, and statuses.\<close>

datatype detail = Plain pyval | Seconds real | Execution query_status

type_synonym details = "(string \<times> detail) list"

record edw_sample =
  edw_metric :: string
  edw_value :: real
  edw_unit :: string
  edw_metadata :: details

definition edw_sample :: "string \<Rightarrow> real \<Rightarrow> details \<Rightarrow> edw_sample" where
  "edw_sample m v md = \<lparr>edw_metric = m, edw_value = v, edw_unit = ''seconds'', edw_metadata = md\<rparr>"

definition aggregation_error :: "string \<Rightarrow> exn" where
  "aggregation_error m = exn (Subclass (Builtin Exception) ''EdwPerformanceAggregationError'' None) m"

definition geometric_mean :: "real list \<Rightarrow> exn + real" where
  "geometric_mean xs =
     (if xs = [] \<or> list_ex (\<lambda>perf. perf \<le> 0) xs
      then Inl (aggregation_error ''Invalid values cannot be aggregated.'')
      else Inr (exp (sum_list (map ln xs) / real (length xs))))"

record query_performance =
  query_name :: string
  query_start :: pyval
  query_end :: pyval
  performance :: real
  execution_status :: query_status
  query_metadata :: details

definition new_query_performance ::
  "string \<Rightarrow> real \<Rightarrow> details \<Rightarrow> pyval \<Rightarrow> pyval \<Rightarrow> query_performance" where
  "new_query_performance name perf md start stop =
     \<lparr>query_name = name, query_start = start, query_end = stop, performance = perf,
      execution_status = (if perf = -1 then FAILED else SUCCESSFUL), query_metadata = md\<rparr>"

text \<open>\<open>d[k]\<close>, for a key that may be missing\<close>

definition item :: "string \<Rightarrow> 'a option \<Rightarrow> exn + 'a" where
  "item k x = (case x of None \<Rightarrow> Inl (missing_key k) | Some v \<Rightarrow> Inr v)"

record query_json =
  json_query :: "string option"
  json_query_time :: "real option"
  json_query_start :: "pyval option"
  json_query_end :: "pyval option"
  json_details :: "(string \<times> pyval) list option"

definition or_none :: "pyval option \<Rightarrow> pyval" where
  "or_none x = (case x of None \<Rightarrow> VNone | Some v \<Rightarrow> v)"

definition query_from_json :: "query_json \<Rightarrow> exn + query_performance" where
  "query_from_json j =
     (let details = (case json_details j of None \<Rightarrow> [] | Some d \<Rightarrow> map (map_prod id Plain) d);
          metadata = dict_set (dict_set details ''query_start'' (Plain (or_none (json_query_start j))))
            ''query_end'' (Plain (or_none (json_query_end j)))
      in bindE (item ''query_wall_time_in_secs'' (json_query_time j)) (\<lambda>time.
         bindE (item ''query'' (json_query j)) (\<lambda>name.
           Inr (new_query_performance name time metadata
             (or_none (json_query_start j)) (or_none (json_query_end j))))))"

definition get_performance_sample :: "details \<Rightarrow> query_performance \<Rightarrow> edw_sample" where
  "get_performance_sample metadata p =
     edw_sample ''edw_raw_query_time'' (performance p)
       (dict_update (dict_set (dict_set metadata ''query'' (Plain (VStr (query_name p))))
          ''execution_status'' (Execution (execution_status p))) (query_metadata p))"

definition query_is_successful :: "query_performance \<Rightarrow> bool" where
  "query_is_successful p = (execution_status p = SUCCESSFUL)"

type_synonym performance_map = "(string \<times> query_performance) list"

text \<open>\<open>d[k]\<close> on a dictionary\<close>

definition index :: "(string \<times> 'v) list \<Rightarrow> string \<Rightarrow> exn + 'v" where
  "index d k = item k (map_of d k)"

definition has_key :: "(string \<times> 'v) list \<Rightarrow> string \<Rightarrow> bool" where
  "has_key d k = (k \<in> set (map fst d))"

section \<open>Iterations\<close>

record iteration_times =
  iteration_id :: string
  start_time :: pyval
  end_time :: pyval
  wall_time :: real

text \<open>The metadata of a sample of the wall time, as each class of iterations makes them\<close>

definition timed :: "'a iteration_times_scheme \<Rightarrow> details \<Rightarrow> details" where
  "timed it metadata =
     dict_set (dict_set metadata ''iteration_start_time'' (Plain (start_time it)))
       ''iteration_end_time'' (Plain (end_time it))"

definition cannot_aggregate :: "string \<Rightarrow> exn" where
  "cannot_aggregate q = aggregation_error (''Cannot aggregate invalid / failed query'' @ q)"

subsection \<open>Power\<close>

record power_iteration = iteration_times +
  power_performance :: performance_map
  total_count :: int
  successful_count :: int

definition new_power_iteration :: "string \<Rightarrow> int \<Rightarrow> power_iteration" where
  "new_power_iteration i total_queries =
     \<lparr>iteration_id = i, start_time = VInt 0, end_time = VInt (-1), wall_time = 0,
      power_performance = [], total_count = total_queries, successful_count = 0\<rparr>"

text \<open>\<open>_log_and_strip_query_results\<close>, without the log.\<close>

definition strip_query_results :: "details \<Rightarrow> details" where
  "strip_query_results metadata =
     filter (\<lambda>e. fst e \<noteq> ''query_results'') (filter (\<lambda>e. fst e \<noteq> ''output'') metadata)"

definition add_query_performance ::
  "power_iteration \<Rightarrow> string \<Rightarrow> real \<Rightarrow> details \<Rightarrow> exn + power_iteration" where
  "add_query_performance it name perf metadata =
     (let p = new_query_performance name perf (strip_query_results metadata) VNone VNone
      in if has_key (power_performance it) (query_name p)
         then Inl (aggregation_error (''Attempting to aggregate a duplicate query: '' @ query_name p @ ''.''))
         else Inr (it\<lparr>
           power_performance := dict_set (power_performance it) (query_name p) p,
           successful_count := (if query_is_successful p then successful_count it + 1 else successful_count it),
           wall_time := wall_time it + perf\<rparr>))"

definition add_start_time :: "power_iteration \<Rightarrow> int \<Rightarrow> power_iteration" where
  "add_start_time it t = it\<lparr>start_time := VInt t\<rparr>"

definition add_end_time :: "power_iteration \<Rightarrow> int \<Rightarrow> power_iteration" where
  "add_end_time it t = it\<lparr>end_time := VInt t\<rparr>"

definition power_has_query :: "power_iteration \<Rightarrow> string \<Rightarrow> bool" where
  "power_has_query it q = has_key (power_performance it) q"

definition power_query_successful :: "power_iteration \<Rightarrow> string \<Rightarrow> exn + bool" where
  "power_query_successful it q = bindE (index (power_performance it) q) (\<lambda>p. Inr (query_is_successful p))"

definition power_query_time :: "power_iteration \<Rightarrow> string \<Rightarrow> exn + real" where
  "power_query_time it q = bindE (index (power_performance it) q) (\<lambda>p. Inr (performance p))"

definition power_query_metadata :: "power_iteration \<Rightarrow> string \<Rightarrow> exn + details" where
  "power_query_metadata it q = bindE (power_query_successful it q) (\<lambda>good.
     if \<not> good then Inl (cannot_aggregate q)
     else bindE (index (power_performance it) q) (\<lambda>p. Inr (query_metadata p)))"

definition power_query_samples :: "power_iteration \<Rightarrow> details \<Rightarrow> edw_sample list" where
  "power_query_samples it metadata = map (get_performance_sample metadata) (map snd (power_performance it))"

definition power_wall_time_sample :: "power_iteration \<Rightarrow> details \<Rightarrow> edw_sample" where
  "power_wall_time_sample it metadata = edw_sample ''edw_iteration_wall_time'' (wall_time it) (timed it metadata)"

definition power_is_successful :: "power_iteration \<Rightarrow> string list \<Rightarrow> bool" where
  "power_is_successful it expected =
     (set (map fst (power_performance it)) = set expected \<and> total_count it = successful_count it)"

definition power_geomean :: "power_iteration \<Rightarrow> exn + real" where
  "power_geomean it = geometric_mean (map performance (map snd (power_performance it)))"

definition failed_executions :: exn where
  "failed_executions = aggregation_error ''Failed executions in iteration.''"

definition power_geomean_sample :: "power_iteration \<Rightarrow> string list \<Rightarrow> details \<Rightarrow> exn + edw_sample" where
  "power_geomean_sample it expected metadata =
     (if \<not> power_is_successful it expected then Inl failed_executions
      else bindE (power_geomean it) (\<lambda>g. Inr (edw_sample ''edw_iteration_geomean_time'' g metadata)))"

subsection \<open>Simultaneous\<close>

record simultaneous_iteration = iteration_times +
  simultaneous_performance :: performance_map
  queries_succeeded :: bool

record iteration_json =
  json_failure :: "string option"
  json_start :: "pyval option"
  json_end :: "pyval option"
  json_wall_time :: "real option"

record simultaneous_json = iteration_json +
  json_queries :: "query_json list option"

text \<open>The loops that read queries into a dictionary\<close>

fun read_queries :: "performance_map \<Rightarrow> query_json list \<Rightarrow> exn + performance_map" where
  "read_queries m [] = Inr m"
| "read_queries m (j # js) = bindE (query_from_json j) (\<lambda>p. read_queries (dict_set m (query_name p) p) js)"

definition simultaneous_from_json :: "string \<Rightarrow> simultaneous_json \<Rightarrow> exn + simultaneous_iteration" where
  "simultaneous_from_json i j =
     (let succeeded = (json_failure j = None)
      in bindE (if succeeded
           then bindE (item ''all_queries_performance_array'' (json_queries j)) (read_queries [])
           else Inr []) (\<lambda>m.
         bindE (if succeeded then item ''simultaneous_start'' (json_start j) else Inr (VInt (-1))) (\<lambda>start.
         bindE (if succeeded then item ''simultaneous_end'' (json_end j) else Inr (VInt (-1))) (\<lambda>stop.
         bindE (item ''simultaneous_wall_time_in_secs'' (json_wall_time j)) (\<lambda>wall.
           Inr \<lparr>iteration_id = i, start_time = start, end_time = stop, wall_time = wall,
             simultaneous_performance = m, queries_succeeded = succeeded\<rparr>)))))"

definition simultaneous_wall_time_sample :: "simultaneous_iteration \<Rightarrow> details \<Rightarrow> edw_sample" where
  "simultaneous_wall_time_sample it metadata =
     edw_sample ''edw_iteration_wall_time'' (wall_time it) (timed it metadata)"

definition simultaneous_query_samples :: "simultaneous_iteration \<Rightarrow> details \<Rightarrow> edw_sample list" where
  "simultaneous_query_samples it metadata =
     map (get_performance_sample metadata) (map snd (simultaneous_performance it))"

definition simultaneous_is_successful :: "simultaneous_iteration \<Rightarrow> string list \<Rightarrow> bool" where
  "simultaneous_is_successful it expected =
     (set (map fst (simultaneous_performance it)) = set expected \<and> queries_succeeded it)"

definition simultaneous_has_query :: "simultaneous_iteration \<Rightarrow> string \<Rightarrow> bool" where
  "simultaneous_has_query it q = has_key (simultaneous_performance it) q"

definition simultaneous_query_successful :: "simultaneous_iteration \<Rightarrow> string \<Rightarrow> exn + bool" where
  "simultaneous_query_successful it q =
     (if simultaneous_has_query it q
      then bindE (index (simultaneous_performance it) q) (\<lambda>p. Inr (query_is_successful p))
      else Inr False)"

definition simultaneous_query_time :: "simultaneous_iteration \<Rightarrow> string \<Rightarrow> exn + real" where
  "simultaneous_query_time it q =
     bindE (index (simultaneous_performance it) q) (\<lambda>p. Inr (performance p))"

definition simultaneous_query_metadata :: "simultaneous_iteration \<Rightarrow> string \<Rightarrow> exn + details" where
  "simultaneous_query_metadata it q = bindE (simultaneous_query_successful it q) (\<lambda>good.
     if \<not> good then Inl (cannot_aggregate q)
     else bindE (index (simultaneous_performance it) q) (\<lambda>p. Inr (query_metadata p)))"

definition simultaneous_geomean :: "simultaneous_iteration \<Rightarrow> exn + real" where
  "simultaneous_geomean it = geometric_mean (map performance (map snd (simultaneous_performance it)))"

definition simultaneous_geomean_sample ::
  "simultaneous_iteration \<Rightarrow> string list \<Rightarrow> details \<Rightarrow> exn + edw_sample" where
  "simultaneous_geomean_sample it expected metadata =
     (if \<not> simultaneous_is_successful it expected then Inl failed_executions
      else bindE (simultaneous_geomean it) (\<lambda>g. Inr (edw_sample ''edw_iteration_geomean_time'' g metadata)))"

subsection \<open>Throughput\<close>

record throughput_iteration = iteration_times +
  streams :: "(string \<times> performance_map) list"

record throughput_json = iteration_json +
  json_streams :: "query_json list option list option"

text \<open>The streams get the numbers from 0 on as their names.\<close>

fun read_streams ::
  "nat \<Rightarrow> (string \<times> performance_map) list \<Rightarrow> query_json list option list
    \<Rightarrow> exn + (string \<times> performance_map) list" where
  "read_streams n m [] = Inr m"
| "read_streams n m (js # jss) =
     bindE (item ''stream_performance_array'' js) (\<lambda>queries.
     bindE (read_queries [] queries) (\<lambda>stream.
       read_streams (n + 1) (dict_set m (str_of_nat n) stream) jss))"

definition throughput_from_json :: "string \<Rightarrow> throughput_json \<Rightarrow> exn + throughput_iteration" where
  "throughput_from_json i j =
     (let succeeded = (json_failure j = None)
      in bindE (if succeeded
           then bindE (item ''all_streams_performance_array'' (json_streams j)) (read_streams 0 [])
           else Inr []) (\<lambda>m.
         bindE (if succeeded then item ''throughput_start'' (json_start j) else Inr (VInt (-1))) (\<lambda>start.
         bindE (if succeeded then item ''throughput_end'' (json_end j) else Inr (VInt (-1))) (\<lambda>stop.
         bindE (item ''throughput_wall_time_in_secs'' (json_wall_time j)) (\<lambda>wall.
           Inr \<lparr>iteration_id = i, start_time = start, end_time = stop, wall_time = wall, streams = m\<rparr>)))))"

definition throughput_has_query :: "throughput_iteration \<Rightarrow> string \<Rightarrow> bool" where
  "throughput_has_query it q = list_ex (\<lambda>stream. has_key stream q) (map snd (streams it))"

text \<open>The runs of a query, in the order of the streams.\<close>

definition runs_of :: "string \<Rightarrow> performance_map list \<Rightarrow> query_performance list" where
  "runs_of q ms = List.map_filter (\<lambda>stream. map_of stream q) ms"

definition throughput_query_successful :: "throughput_iteration \<Rightarrow> string \<Rightarrow> exn + bool" where
  "throughput_query_successful it q = Inr (list_all query_is_successful (runs_of q (map snd (streams it))))"

definition throughput_query_time :: "throughput_iteration \<Rightarrow> string \<Rightarrow> exn + real" where
  "throughput_query_time it q =
     (let all_performances = map performance (runs_of q (map snd (streams it)))
      in Inr (if all_performances = [] then -1
              else sum_list all_performances / real (length all_performances)))"

definition stream_details :: "string \<Rightarrow> query_performance \<Rightarrow> details \<Rightarrow> details" where
  "stream_details stream_id p result =
     dict_update (dict_set result (stream_id @ ''_runtime'') (Seconds (performance p)))
       (map (\<lambda>(k, v). (stream_id @ ''_'' @ k, v)) (query_metadata p))"

definition throughput_query_metadata :: "throughput_iteration \<Rightarrow> string \<Rightarrow> exn + details" where
  "throughput_query_metadata it q =
     Inr (fold (\<lambda>(stream_id, stream) result. case map_of stream q of
         None \<Rightarrow> result
       | Some p \<Rightarrow> stream_details stream_id p result) (streams it) [])"

definition throughput_query_samples :: "throughput_iteration \<Rightarrow> details \<Rightarrow> edw_sample list" where
  "throughput_query_samples it metadata =
     concat (map (\<lambda>(stream_id, stream).
         map (get_performance_sample (dict_set metadata ''stream'' (Plain (VStr stream_id))))
           (map snd stream))
       (streams it))"

definition all_streams_ran_all_expected_queries :: "throughput_iteration \<Rightarrow> string list \<Rightarrow> bool" where
  "all_streams_ran_all_expected_queries it expected =
     list_all (\<lambda>stream. set (map fst stream) = set expected) (map snd (streams it))"

definition no_duplicate_queries :: "throughput_iteration \<Rightarrow> bool" where
  "no_duplicate_queries it =
     list_all (\<lambda>stream. length (map fst stream) = length (remdups (map fst stream))) (map snd (streams it))"

definition all_queries_succeeded :: "throughput_iteration \<Rightarrow> bool" where
  "all_queries_succeeded it =
     list_all (\<lambda>stream. list_all (\<lambda>p. performance p \<noteq> -1) (map snd stream)) (map snd (streams it))"

definition throughput_is_successful :: "throughput_iteration \<Rightarrow> string list \<Rightarrow> bool" where
  "throughput_is_successful it expected =
     (length (streams it) \<ge> 1 \<and> no_duplicate_queries it \<and> all_queries_succeeded it)"

definition throughput_geomean :: "throughput_iteration \<Rightarrow> exn + real" where
  "throughput_geomean it =
     geometric_mean (concat (map (\<lambda>stream. map performance (map snd stream)) (map snd (streams it))))"

definition throughput_geomean_sample ::
  "throughput_iteration \<Rightarrow> string list \<Rightarrow> details \<Rightarrow> exn + edw_sample" where
  "throughput_geomean_sample it expected metadata =
     (if \<not> throughput_is_successful it expected then Inl failed_executions
      else bindE (throughput_geomean it) (\<lambda>g. Inr (edw_sample ''edw_iteration_geomean_time'' g metadata)))"

definition throughput_wall_time_sample :: "throughput_iteration \<Rightarrow> details \<Rightarrow> edw_sample" where
  "throughput_wall_time_sample it metadata =
     edw_sample ''edw_iteration_wall_time'' (wall_time it) (timed it metadata)"

subsection \<open>The abstract base class\<close>

datatype iteration = Power power_iteration | Simultaneous simultaneous_iteration
  | Throughput throughput_iteration

primrec id_of :: "iteration \<Rightarrow> string" where
  "id_of (Power it) = iteration_id it"
| "id_of (Simultaneous it) = iteration_id it"
| "id_of (Throughput it) = iteration_id it"

primrec has_query_performance :: "iteration \<Rightarrow> string \<Rightarrow> bool" where
  "has_query_performance (Power it) = power_has_query it"
| "has_query_performance (Simultaneous it) = simultaneous_has_query it"
| "has_query_performance (Throughput it) = throughput_has_query it"

primrec is_successful :: "iteration \<Rightarrow> string list \<Rightarrow> bool" where
  "is_successful (Power it) = power_is_successful it"
| "is_successful (Simultaneous it) = simultaneous_is_successful it"
| "is_successful (Throughput it) = throughput_is_successful it"

primrec is_query_successful :: "iteration \<Rightarrow> string \<Rightarrow> exn + bool" where
  "is_query_successful (Power it) = power_query_successful it"
| "is_query_successful (Simultaneous it) = simultaneous_query_successful it"
| "is_query_successful (Throughput it) = throughput_query_successful it"

primrec get_query_performance :: "iteration \<Rightarrow> string \<Rightarrow> exn + real" where
  "get_query_performance (Power it) = power_query_time it"
| "get_query_performance (Simultaneous it) = simultaneous_query_time it"
| "get_query_performance (Throughput it) = throughput_query_time it"

primrec get_query_metadata :: "iteration \<Rightarrow> string \<Rightarrow> exn + details" where
  "get_query_metadata (Power it) = power_query_metadata it"
| "get_query_metadata (Simultaneous it) = simultaneous_query_metadata it"
| "get_query_metadata (Throughput it) = throughput_query_metadata it"

primrec get_all_query_performance_samples :: "iteration \<Rightarrow> details \<Rightarrow> edw_sample list" where
  "get_all_query_performance_samples (Power it) = power_query_samples it"
| "get_all_query_performance_samples (Simultaneous it) = simultaneous_query_samples it"
| "get_all_query_performance_samples (Throughput it) = throughput_query_samples it"

primrec get_queries_geomean_performance_sample ::
  "iteration \<Rightarrow> string list \<Rightarrow> details \<Rightarrow> exn + edw_sample" where
  "get_queries_geomean_performance_sample (Power it) = power_geomean_sample it"
| "get_queries_geomean_performance_sample (Simultaneous it) = simultaneous_geomean_sample it"
| "get_queries_geomean_performance_sample (Throughput it) = throughput_geomean_sample it"

primrec get_wall_time :: "iteration \<Rightarrow> real" where
  "get_wall_time (Power it) = wall_time it"
| "get_wall_time (Simultaneous it) = wall_time it"
| "get_wall_time (Throughput it) = wall_time it"

primrec get_wall_time_performance_sample :: "iteration \<Rightarrow> details \<Rightarrow> edw_sample" where
  "get_wall_time_performance_sample (Power it) = power_wall_time_sample it"
| "get_wall_time_performance_sample (Simultaneous it) = simultaneous_wall_time_sample it"
| "get_wall_time_performance_sample (Throughput it) = throughput_wall_time_sample it"

section \<open>Benchmarks\<close>

record edw_benchmark =
  total_iterations :: int
  expected_queries :: "string list"
  iteration_performances :: "(string \<times> iteration) list"

definition new_edw_benchmark :: "int \<Rightarrow> string list \<Rightarrow> edw_benchmark" where
  "new_edw_benchmark n queries =
     \<lparr>total_iterations = n, expected_queries = queries, iteration_performances = []\<rparr>"

definition add_iteration_performance :: "edw_benchmark \<Rightarrow> iteration \<Rightarrow> exn + edw_benchmark" where
  "add_iteration_performance b it =
     (if has_key (iteration_performances b) (id_of it)
      then Inl (aggregation_error (''Attempting to aggregate a duplicate iteration: '' @ id_of it @ ''.''))
      else Inr (b\<lparr>iteration_performances := dict_set (iteration_performances b) (id_of it) it\<rparr>))"

text \<open>\<open>functools.reduce\<close> has no value for an empty list.\<close>

definition benchmark_is_successful :: "edw_benchmark \<Rightarrow> exn + bool" where
  "benchmark_is_successful b =
     (case map (\<lambda>it. is_successful it (expected_queries b)) (map snd (iteration_performances b)) of
        [] \<Rightarrow> Inl (exn (Builtin TypeError) ''reduce() of empty iterable with no initial value'')
      | x # xs \<Rightarrow> Inr (foldl (\<and>) x xs))"

fun query_status_loop :: "string \<Rightarrow> iteration list \<Rightarrow> exn + bool" where
  "query_status_loop q [] = Inr True"
| "query_status_loop q (it # its) =
     (if \<not> has_query_performance it q then Inr False
      else bindE (is_query_successful it q) (\<lambda>good.
        if \<not> good then Inr False else query_status_loop q its))"

definition aggregated_query_status :: "edw_benchmark \<Rightarrow> string \<Rightarrow> exn + bool" where
  "aggregated_query_status b q = query_status_loop q (map snd (iteration_performances b))"

definition over_iterations :: "edw_benchmark \<Rightarrow> real list \<Rightarrow> exn + real" where
  "over_iterations b xs =
     (if total_iterations b = 0 then Inl zero_division
      else Inr (sum_list xs / real_of_int (total_iterations b)))"

definition cannot_aggregate_over :: "string \<Rightarrow> exn" where
  "cannot_aggregate_over q = aggregation_error (''Cannot aggregate invalid / failed query '' @ q)"

definition aggregated_query_execution_time :: "edw_benchmark \<Rightarrow> string \<Rightarrow> exn + real" where
  "aggregated_query_execution_time b q =
     bindE (aggregated_query_status b q) (\<lambda>good.
       if \<not> good then Inl (cannot_aggregate_over q)
       else bindE (mapE (\<lambda>it. get_query_performance it q) (map snd (iteration_performances b)))
         (over_iterations b))"

fun query_metadata_loop :: "string \<Rightarrow> details \<Rightarrow> (string \<times> iteration) list \<Rightarrow> exn + details" where
  "query_metadata_loop q result [] = Inr result"
| "query_metadata_loop q result ((i, it) # its) =
     bindE (get_query_metadata it q) (\<lambda>md.
       query_metadata_loop q (dict_update result (map (\<lambda>(k, v). (i @ ''_'' @ k, v)) md)) its)"

definition aggregated_query_metadata :: "edw_benchmark \<Rightarrow> string \<Rightarrow> exn + details" where
  "aggregated_query_metadata b q =
     bindE (aggregated_query_status b q) (\<lambda>good.
       if \<not> good then Inl (cannot_aggregate_over q)
       else query_metadata_loop q [] (iteration_performances b))"

definition get_aggregated_query_performance_sample ::
  "edw_benchmark \<Rightarrow> string \<Rightarrow> details \<Rightarrow> exn + edw_sample" where
  "get_aggregated_query_performance_sample b q metadata =
     (let md = dict_set (dict_set metadata ''query'' (Plain (VStr q))) ''aggregation_method'' (Plain (VStr ''mean''))
      in bindE (aggregated_query_status b q) (\<lambda>good.
         if good
         then bindE (aggregated_query_execution_time b q) (\<lambda>perf.
              bindE (aggregated_query_metadata b q) (\<lambda>agg_md.
                Inr (edw_sample ''edw_aggregated_query_time'' perf
                  (dict_update (dict_set md ''execution_status'' (Execution SUCCESSFUL)) agg_md))))
         else Inr (edw_sample ''edw_aggregated_query_time'' (-1)
                (dict_set md ''execution_status'' (Execution FAILED)))))"

text \<open>The metadata of the samples of an iteration\<close>

definition of_iteration :: "string \<Rightarrow> details \<Rightarrow> details" where
  "of_iteration i metadata = dict_set metadata ''iteration'' (Plain (VStr i))"

definition benchmark_query_samples :: "edw_benchmark \<Rightarrow> details \<Rightarrow> exn + edw_sample list" where
  "benchmark_query_samples b metadata =
     bindE (mapE (\<lambda>q. get_aggregated_query_performance_sample b q metadata) (expected_queries b)) (\<lambda>agg.
       Inr (concat (map (\<lambda>(i, it). get_all_query_performance_samples it (of_iteration i metadata))
              (iteration_performances b)) @ agg))"

definition get_aggregated_wall_time_performance_sample :: "edw_benchmark \<Rightarrow> details \<Rightarrow> exn + edw_sample" where
  "get_aggregated_wall_time_performance_sample b metadata =
     bindE (over_iterations b (map get_wall_time (map snd (iteration_performances b)))) (\<lambda>t.
       Inr (edw_sample ''edw_aggregated_wall_time'' t
         (dict_set metadata ''aggregation_method'' (Plain (VStr ''mean'')))))"

definition get_wall_time_performance_samples :: "edw_benchmark \<Rightarrow> details \<Rightarrow> exn + edw_sample list" where
  "get_wall_time_performance_samples b metadata =
     bindE (get_aggregated_wall_time_performance_sample b metadata) (\<lambda>agg.
       Inr (map (\<lambda>(i, it). get_wall_time_performance_sample it (of_iteration i metadata))
              (iteration_performances b) @ [agg]))"

definition failed_benchmark :: exn where
  "failed_benchmark = aggregation_error ''Benchmark contains a failed query.''"

definition get_aggregated_geomean_performance_sample :: "edw_benchmark \<Rightarrow> details \<Rightarrow> exn + edw_sample" where
  "get_aggregated_geomean_performance_sample b metadata =
     bindE (benchmark_is_successful b) (\<lambda>good.
       if \<not> good then Inl failed_benchmark
       else bindE (mapE (aggregated_query_execution_time b) (expected_queries b)) (\<lambda>times.
            bindE (geometric_mean times) (\<lambda>g.
              Inr (edw_sample ''edw_aggregated_geomean'' g
                (dict_set (dict_set metadata ''intra_query_aggregation_method'' (Plain (VStr ''mean'')))
                   ''inter_query_aggregation_method'' (Plain (VStr ''geomean'')))))))"

definition get_queries_geomean_performance_samples :: "edw_benchmark \<Rightarrow> details \<Rightarrow> exn + edw_sample list" where
  "get_queries_geomean_performance_samples b metadata =
     bindE (benchmark_is_successful b) (\<lambda>good.
       if \<not> good then Inl failed_benchmark
       else bindE (mapE (\<lambda>(i, it). get_queries_geomean_performance_sample it (expected_queries b)
                    (of_iteration i metadata)) (iteration_performances b)) (\<lambda>results.
            bindE (get_aggregated_geomean_performance_sample b metadata) (\<lambda>agg. Inr (results @ [agg]))))"

section \<open>The geometric mean\<close>

lemma exp_mean_ln:
  assumes "xs \<noteq> []" and "list_all (\<lambda>x. 0 < x) xs"
  shows "exp (sum_list (map ln xs) / real (length xs)) = prod_list xs powr (1 / real (length xs))"
    and "exp (sum_list (map ln xs) / real (length xs)) ^ length xs = prod_list xs"
proof -
  have pos: "0 < prod_list xs" and logs: "sum_list (map ln xs) = ln (prod_list xs)"
    using assms(2) by (induction xs) (simp_all add: ln_mult)
  show "exp (sum_list (map ln xs) / real (length xs)) = prod_list xs powr (1 / real (length xs))"
    using pos by (simp add: logs powr_def)
  have "exp (ln (prod_list xs) / real (length xs)) ^ length xs = exp (ln (prod_list xs))"
    using assms(1) by (simp add: exp_of_nat_mult [symmetric])
  then show "exp (sum_list (map ln xs) / real (length xs)) ^ length xs = prod_list xs"
    using pos by (simp add: logs)
qed

lemma geometric_mean_defined:
  "list_all (\<lambda>x. 0 < x) xs \<Longrightarrow> xs \<noteq> [] \<Longrightarrow>
     geometric_mean xs = Inr (exp (sum_list (map ln xs) / real (length xs)))"
  by (auto simp: geometric_mean_def list_ex_iff list_all_iff)

lemma geometric_mean_GeoMean:
  "list_all (\<lambda>x. 0 < x) xs \<Longrightarrow> xs \<noteq> [] \<Longrightarrow> geometric_mean xs = GeoMean xs"
  by (simp add: geometric_mean_defined GeoMean_def exp_mean_ln(1))

lemma geometric_mean_value:
  assumes "list_all (\<lambda>x. 0 < x) xs" and "xs \<noteq> []"
  obtains g where "geometric_mean xs = Inr g" and "0 < g" and "g ^ length xs = prod_list xs"
  using geometric_mean_defined [OF assms] exp_mean_ln(2) [OF assms(2,1)] by simp

text \<open>The geometric mean of a list is defined exactly for non-empty lists of positive numbers; it is
  the positive number whose power is the product of the list, and so the same as \<open>GeoMean\<close> of
  \<open>sample.py\<close>.\<close>

lemma geometric_mean_root:
  "geometric_mean xs = Inr g \<longleftrightarrow>
     xs \<noteq> [] \<and> list_all (\<lambda>x. 0 < x) xs \<and> 0 < g \<and> g ^ length xs = prod_list xs"
  (is "?l \<longleftrightarrow> ?r")
proof
  assume ?l
  then have "xs \<noteq> []" "list_all (\<lambda>x. 0 < x) xs" "g = exp (sum_list (map ln xs) / real (length xs))"
    by (auto simp: geometric_mean_def list_ex_iff list_all_iff not_le split: if_splits)
  then show ?r by (simp add: exp_mean_ln(2))
next
  assume ?r
  then have "g ^ length xs = exp (sum_list (map ln xs) / real (length xs)) ^ length xs" "xs \<noteq> []" "0 < g"
    by (simp_all add: exp_mean_ln(2))
  then have "g = exp (sum_list (map ln xs) / real (length xs))"
    by (simp add: power_eq_iff_eq_base)
  with \<open>?r\<close> show ?l by (simp add: geometric_mean_defined)
qed

section \<open>Power iterations\<close>

text \<open>The queries of an iteration, added in order.\<close>

fun add_queries :: "power_iteration \<Rightarrow> (string \<times> real \<times> details) list \<Rightarrow> exn + power_iteration" where
  "add_queries it [] = Inr it"
| "add_queries it ((name, perf, md) # qs) =
     bindE (add_query_performance it name perf md) (\<lambda>it. add_queries it qs)"

definition failures :: "real list \<Rightarrow> nat" where
  "failures ts = length (filter (\<lambda>t. t = -1) ts)"

lemma dict_set_fresh: "k \<notin> set (map fst d) \<Longrightarrow> dict_set d k v = d @ [(k, v)]"
  by (induction d k v rule: dict_set.induct) auto

definition recorded :: "string \<times> real \<times> details \<Rightarrow> string \<times> query_performance" where
  "recorded = (\<lambda>(name, perf, md).
     (name, new_query_performance name perf (strip_query_results md) VNone VNone))"

lemma fst_recorded [simp]: "fst (recorded x) = fst x"
  by (simp add: recorded_def split: prod.split)

definition add_all :: "power_iteration \<Rightarrow> (string \<times> real \<times> details) list \<Rightarrow> power_iteration" where
  "add_all it qs = (let ts = map (fst o snd) qs in it\<lparr>
     power_performance := power_performance it @ map recorded qs,
     successful_count := successful_count it + int (length ts) - int (failures ts),
     wall_time := wall_time it + sum_list ts\<rparr>)"

lemma add_all_Nil [simp]: "add_all it [] = it"
  by (simp add: add_all_def failures_def)

lemma add_queries_Inr:
  "add_queries it qs = Inr it' \<longleftrightarrow>
     distinct (map fst qs) \<and> set (map fst qs) \<inter> set (map fst (power_performance it)) = {}
     \<and> it' = add_all it qs"
proof (induction it qs rule: add_queries.induct)
  case (2 it name perf md qs)
  show ?case
  proof (cases "name \<in> set (map fst (power_performance it))")
    case True
    then show ?thesis by (simp add: add_query_performance_def has_key_def new_query_performance_def)
  next
    case False
    let ?it = "add_all it [(name, perf, md)]"
    have one: "add_query_performance it name perf md = Inr ?it"
      using False by (simp add: add_query_performance_def has_key_def new_query_performance_def
          add_all_def recorded_def dict_set_fresh query_is_successful_def failures_def Let_def)
    have "add_all ?it qs = add_all it ((name, perf, md) # qs)"
      by (simp add: add_all_def failures_def Let_def)
    then show ?thesis
      using 2 [of ?it] False unfolding add_queries.simps one
      by (auto simp: add_all_def [of it "[(name, perf, md)]"])
  qed
qed auto

lemma sum_list_failures: "sum_list ts = sum_list (filter (\<lambda>t. t \<noteq> -1) ts) - real (failures ts)"
  by (induction ts) (simp_all add: failures_def)

text \<open>A power iteration accepts queries as long as no name comes twice; it then holds them in order,
  counts those that did not fail, is successful exactly if every expected query ran, as many as
  announced, and none failed; its wall time is the sum of the times of the queries that succeeded, less
  one second for each that failed.\<close>

lemma power_iteration_totals:
  "add_queries (new_power_iteration i n) qs = Inr it \<longleftrightarrow>
     distinct (map fst qs) \<and>
     it = \<lparr>iteration_id = i, start_time = VInt 0, end_time = VInt (-1),
       wall_time = sum_list (filter (\<lambda>t. t \<noteq> -1) (map (fst o snd) qs)) - real (failures (map (fst o snd) qs)),
       power_performance = map recorded qs, total_count = n,
       successful_count = int (length qs) - int (failures (map (fst o snd) qs))\<rparr> \<and>
     (power_is_successful it expected \<longleftrightarrow>
        set (map fst qs) = set expected \<and> n + int (failures (map (fst o snd) qs)) = int (length qs))"
  (is "?added \<longleftrightarrow> _ \<and> it = ?it \<and> (_ \<longleftrightarrow> ?good)")
proof -
  have whole: "add_all (new_power_iteration i n) qs = ?it"
    by (simp add: new_power_iteration_def add_all_def Let_def sum_list_failures [symmetric])
  have "map fst (map recorded qs) = map fst qs"
    by simp
  then have "power_is_successful ?it expected \<longleftrightarrow> ?good"
    by (simp add: power_is_successful_def) arith
  moreover have "?added \<longleftrightarrow> distinct (map fst qs) \<and> it = ?it"
    unfolding add_queries_Inr whole by (simp add: new_power_iteration_def)
  ultimately show ?thesis by metis
qed

section \<open>Query results of an iteration\<close>

text \<open>The times of the runs of a query in an iteration; the status of a query agrees with its time.\<close>

primrec maps_of :: "iteration \<Rightarrow> performance_map list" where
  "maps_of (Power it) = [power_performance it]"
| "maps_of (Simultaneous it) = [simultaneous_performance it]"
| "maps_of (Throughput it) = map snd (streams it)"

definition runs :: "iteration \<Rightarrow> string \<Rightarrow> real list" where
  "runs it q = map performance (runs_of q (maps_of it))"

definition consistent :: "performance_map \<Rightarrow> bool" where
  "consistent m = list_all (\<lambda>(k, p). execution_status p = (if performance p = -1 then FAILED else SUCCESSFUL)) m"

definition wf_iteration :: "iteration \<Rightarrow> bool" where
  "wf_iteration it = list_all consistent (maps_of it)"

lemma sum_list_positive:
  fixes xs :: "real list"
  shows "xs \<noteq> [] \<Longrightarrow> list_all (\<lambda>x. 0 < x) xs \<Longrightarrow> 0 < sum_list xs"
  by (induction xs rule: list_nonempty_induct) auto

text \<open>What a benchmark relies on when it asks an iteration for a query.\<close>

locale query_results =
  fixes invar :: "'i \<Rightarrow> bool"
    and times :: "'i \<Rightarrow> string \<Rightarrow> real list"
    and has :: "'i \<Rightarrow> string \<Rightarrow> bool"
    and good :: "'i \<Rightarrow> string \<Rightarrow> exn + bool"
    and time :: "'i \<Rightarrow> string \<Rightarrow> exn + real"
    and metadata :: "'i \<Rightarrow> string \<Rightarrow> exn + details"
  assumes has: "has it q \<longleftrightarrow> times it q \<noteq> []"
    and good: "invar it \<Longrightarrow> has it q \<Longrightarrow> good it q = Inr (-1 \<notin> set (times it q))"
    and time: "has it q \<Longrightarrow> time it q = Inr (average_of (times it q))"
    and metadata: "has it q \<Longrightarrow> good it q = Inr True \<Longrightarrow> \<exists>md. metadata it q = Inr md"
begin

lemma times_of_all:
  "list_all (\<lambda>it. has it q) its \<Longrightarrow>
     mapE (\<lambda>it. time it q) its = Inr (map (\<lambda>it. average_of (times it q)) its)"
  by (rule mapE_total) (simp add: time list_all_iff)

lemma metadata_of_good:
  "invar it \<Longrightarrow> has it q \<Longrightarrow> -1 \<notin> set (times it q) \<Longrightarrow> \<exists>md. metadata it q = Inr md"
  by (simp add: good metadata)

lemma positive_average:
  assumes "has it q" and "list_all (\<lambda>t. 0 < t) (times it q)"
  shows "0 < average_of (times it q)"
  using assms has by (simp add: average_of_def sum_list_positive)

end

lemma runs_of_simps [simp]:
  "runs_of q [] = []"
  "runs_of q (m # ms) = (case map_of m q of None \<Rightarrow> runs_of q ms | Some p \<Rightarrow> p # runs_of q ms)"
  by (simp_all add: runs_of_def split: option.split)

lemma has_key_map_of: "has_key m q \<longleftrightarrow> map_of m q \<noteq> None"
  by (simp add: has_key_def map_of_eq_None_iff)

lemma consistent_successful:
  "consistent m \<Longrightarrow> map_of m q = Some p \<Longrightarrow> query_is_successful p \<longleftrightarrow> performance p \<noteq> -1"
  by (drule map_of_SomeD) (auto simp: consistent_def query_is_successful_def list_all_iff)

lemma runs_of_successful:
  "list_all consistent ms \<Longrightarrow> list_all query_is_successful (runs_of q ms) \<longleftrightarrow> -1 \<notin> performance ` set (runs_of q ms)"
  by (induction ms) (auto simp: consistent_successful split: option.split)

lemma runs_of_Nil: "runs_of q ms = [] \<longleftrightarrow> \<not> list_ex (\<lambda>m. has_key m q) ms"
  by (induction ms) (auto simp: has_key_map_of split: option.split)

interpretation power: query_results "\<lambda>it. wf_iteration (Power it)" "\<lambda>it. runs (Power it)"
  power_has_query power_query_successful power_query_time power_query_metadata
  by unfold_locales
    (auto simp: runs_def power_has_query_def has_key_map_of power_query_successful_def power_query_time_def
      power_query_metadata_def index_def item_def wf_iteration_def consistent_successful average_of_def
      split: option.splits)

interpretation simultaneous: query_results "\<lambda>it. wf_iteration (Simultaneous it)" "\<lambda>it. runs (Simultaneous it)"
  simultaneous_has_query simultaneous_query_successful simultaneous_query_time simultaneous_query_metadata
  by unfold_locales
    (auto simp: runs_def simultaneous_has_query_def has_key_map_of simultaneous_query_successful_def
      simultaneous_query_time_def simultaneous_query_metadata_def index_def item_def wf_iteration_def
      consistent_successful average_of_def
      split: option.splits)

interpretation throughput: query_results "\<lambda>it. wf_iteration (Throughput it)" "\<lambda>it. runs (Throughput it)"
  throughput_has_query throughput_query_successful throughput_query_time throughput_query_metadata
  by unfold_locales
    (auto simp: runs_def throughput_has_query_def runs_of_Nil throughput_query_successful_def
      throughput_query_time_def throughput_query_metadata_def wf_iteration_def runs_of_successful average_of_def
      Let_def)

interpretation iteration: query_results wf_iteration runs
  has_query_performance is_query_successful get_query_performance get_query_metadata
proof
  fix it q
  show "has_query_performance it q \<longleftrightarrow> runs it q \<noteq> []"
    by (cases it) (simp_all add: power.has simultaneous.has throughput.has)
  show "wf_iteration it \<Longrightarrow> has_query_performance it q \<Longrightarrow>
      is_query_successful it q = Inr (-1 \<notin> set (runs it q))"
    by (cases it) (simp_all add: power.good simultaneous.good throughput.good)
  show "has_query_performance it q \<Longrightarrow> get_query_performance it q = Inr (average_of (runs it q))"
    by (cases it) (simp_all add: power.time simultaneous.time throughput.time)
  show "has_query_performance it q \<Longrightarrow> is_query_successful it q = Inr True \<Longrightarrow>
      \<exists>md. get_query_metadata it q = Inr md"
    by (cases it) (simp_all add: power.metadata simultaneous.metadata throughput.metadata)
qed

text \<open>The operations that make iterations keep the status of every query in agreement with its time.\<close>

lemma consistent_set:
  "consistent m \<Longrightarrow> execution_status p = (if performance p = -1 then FAILED else SUCCESSFUL) \<Longrightarrow>
     consistent (dict_set m k p)"
  by (induction m k p rule: dict_set.induct) (auto simp: consistent_def)

lemma new_query_status:
  "execution_status (new_query_performance n t md a b) =
     (if performance (new_query_performance n t md a b) = -1 then FAILED else SUCCESSFUL)"
  by (simp add: new_query_performance_def)

lemma consistent_Nil [simp]: "consistent []"
  by (simp add: consistent_def)

lemma add_query_wf:
  "wf_iteration (Power it) \<Longrightarrow> add_query_performance it n t md = Inr it' \<Longrightarrow> wf_iteration (Power it')"
  by (auto simp: add_query_performance_def wf_iteration_def Let_def new_query_status
      intro!: consistent_set split: if_splits)

lemma read_queries_consistent: "read_queries m js = Inr m' \<Longrightarrow> consistent m \<Longrightarrow> consistent m'"
proof (induction m js rule: read_queries.induct)
  case (2 m j js)
  then obtain p where p: "query_from_json j = Inr p" "read_queries (dict_set m (query_name p) p) js = Inr m'"
    by (auto simp: bindE_Inr)
  then have "execution_status p = (if performance p = -1 then FAILED else SUCCESSFUL)"
    by (auto simp: query_from_json_def Let_def bindE_Inr new_query_status)
  with 2 p show ?case by (blast intro: consistent_set)
qed simp

lemma from_json_wf:
  "simultaneous_from_json i j = Inr s \<Longrightarrow> wf_iteration (Simultaneous s)"
  by (auto simp: simultaneous_from_json_def Let_def bindE_Inr wf_iteration_def
      dest!: read_queries_consistent split: if_splits)

lemma set_dict_set: "x \<in> set (dict_set d k v) \<Longrightarrow> x = (k, v) \<or> x \<in> set d"
  by (induction d k v rule: dict_set.induct) (auto split: if_splits)

lemma read_streams_consistent:
  "read_streams n m jss = Inr m' \<Longrightarrow> list_all consistent (map snd m) \<Longrightarrow> list_all consistent (map snd m')"
proof (induction n m jss rule: read_streams.induct)
  case (2 n m js jss)
  from 2(2) obtain qs s where s: "read_queries [] qs = Inr s" "read_streams (n + 1) (dict_set m (str_of_nat n) s) jss = Inr m'"
    "item ''stream_performance_array'' js = Inr qs"
    by (auto simp: bindE_Inr)
  then have "consistent s" using read_queries_consistent by fastforce
  then have "list_all consistent (map snd (dict_set m (str_of_nat n) s))"
    using 2(3) by (fastforce simp: list_all_iff dest: set_dict_set)
  with 2(1) s show ?case by blast
qed simp

lemma throughput_from_json_wf:
  "throughput_from_json i j = Inr s \<Longrightarrow> wf_iteration (Throughput s)"
  by (auto simp: throughput_from_json_def Let_def bindE_Inr wf_iteration_def
      dest!: read_streams_consistent split: if_splits)

section \<open>Aggregated queries\<close>

text \<open>A query ran in an iteration, and no run of it failed.\<close>

definition complete :: "string \<Rightarrow> iteration \<Rightarrow> bool" where
  "complete q it = (runs it q \<noteq> [] \<and> -1 \<notin> set (runs it q))"

text \<open>The mean over the iterations of the mean time of a query in an iteration\<close>

definition mean_time :: "edw_benchmark \<Rightarrow> string \<Rightarrow> real" where
  "mean_time b q =
     sum_list (map (\<lambda>it. average_of (runs it q)) (map snd (iteration_performances b)))
       / real_of_int (total_iterations b)"

lemma query_status_loop_complete:
  "list_all wf_iteration its \<Longrightarrow> query_status_loop q its = Inr (list_all (complete q) its)"
  by (induction its) (auto simp: iteration.good iteration.has complete_def)

lemma aggregated_query_status_complete:
  "list_all wf_iteration (map snd (iteration_performances b)) \<Longrightarrow>
     aggregated_query_status b q = Inr (list_all (complete q) (map snd (iteration_performances b)))"
  by (simp add: aggregated_query_status_def query_status_loop_complete)

lemma aggregated_time_complete:
  assumes "list_all wf_iteration (map snd (iteration_performances b))" and "total_iterations b \<noteq> 0"
    and "list_all (complete q) (map snd (iteration_performances b))"
  shows "aggregated_query_execution_time b q = Inr (mean_time b q)"
proof -
  have "list_all (\<lambda>it. has_query_performance it q) (map snd (iteration_performances b))"
    using assms(3) by (simp add: iteration.has complete_def list_all_iff)
  from iteration.times_of_all [OF this] show ?thesis
    using assms by (simp add: aggregated_query_execution_time_def aggregated_query_status_complete
        over_iterations_def mean_time_def)
qed

lemma query_metadata_loop_returns:
  "list_all wf_iteration (map snd its) \<Longrightarrow> list_all (complete q) (map snd its) \<Longrightarrow>
     \<exists>md. query_metadata_loop q result its = Inr md"
proof (induction its arbitrary: result)
  case (Cons i its)
  obtain k it where i: "i = (k, it)" by (cases i)
  with Cons.prems have "has_query_performance it q" "-1 \<notin> set (runs it q)" "wf_iteration it"
    by (simp_all add: complete_def iteration.has)
  then obtain md where "get_query_metadata it q = Inr md"
    using iteration.metadata_of_good by blast
  with Cons i show ?case by simp
qed simp

text \<open>C31: The aggregated sample of a query always exists: its value is the mean over the iterations of the
  query's mean time in each, if the query ran in every iteration and never failed, and otherwise -1.
  This holds of every kind of iteration.\<close>

theorem aggregated_query_sample:
  assumes "list_all wf_iteration (map snd (iteration_performances b))" and "total_iterations b \<noteq> 0"
  shows "\<exists>s. get_aggregated_query_performance_sample b q metadata = Inr s
    \<and> edw_metric s = ''edw_aggregated_query_time''
    \<and> edw_value s = (if list_all (complete q) (map snd (iteration_performances b)) then mean_time b q else -1)"
proof (cases "list_all (complete q) (map snd (iteration_performances b))")
  case True
  obtain md where "query_metadata_loop q [] (iteration_performances b) = Inr md"
    using query_metadata_loop_returns [OF assms(1) True] by blast
  then show ?thesis
    using assms True by (simp add: get_aggregated_query_performance_sample_def aggregated_query_status_complete
        aggregated_time_complete aggregated_query_metadata_def edw_sample_def Let_def)
next
  case False
  then show ?thesis
    using assms by (simp add: get_aggregated_query_performance_sample_def aggregated_query_status_complete
        edw_sample_def Let_def)
qed

section \<open>Geometric means of a benchmark\<close>

definition all_positive :: "iteration \<Rightarrow> bool" where
  "all_positive it = list_all (\<lambda>m. list_all (\<lambda>p. 0 < performance p) (map snd m)) (maps_of it)"

primrec streams_complete :: "string list \<Rightarrow> iteration \<Rightarrow> bool" where
  "streams_complete expected (Power it) = True"
| "streams_complete expected (Simultaneous it) = True"
| "streams_complete expected (Throughput it) = all_streams_ran_all_expected_queries it expected"

text \<open>An iteration that counts as successful has run the expected queries, if its streams are complete.\<close>

definition covers :: "string list \<Rightarrow> iteration \<Rightarrow> bool" where
  "covers expected it = (maps_of it \<noteq> [] \<and> list_all (\<lambda>m. set (map fst m) = set expected) (maps_of it))"

lemma successful_covers:
  "is_successful it expected \<Longrightarrow> streams_complete expected it \<Longrightarrow> covers expected it"
  by (cases it)
    (auto simp: covers_def power_is_successful_def simultaneous_is_successful_def throughput_is_successful_def
      all_streams_ran_all_expected_queries_def)

lemma runs_positive: "all_positive it \<Longrightarrow> list_all (\<lambda>t. 0 < t) (runs it q)"
proof -
  have "list_all (\<lambda>m. list_all (\<lambda>p. 0 < performance p) (map snd m)) ms \<Longrightarrow>
      list_all (\<lambda>t. 0 < t) (map performance (runs_of q ms))" for ms :: "performance_map list"
    by (induction ms) (auto simp: list_all_iff split: option.split dest!: map_of_SomeD)
  then show "all_positive it \<Longrightarrow> ?thesis" by (simp add: all_positive_def runs_def)
qed

lemma covers_complete:
  assumes "covers expected it" and "all_positive it" and "q \<in> set expected"
  shows "complete q it"
proof -
  have "list_ex (\<lambda>m. has_key m q) (maps_of it)"
    using assms(1,3) by (cases "maps_of it") (auto simp: covers_def has_key_def)
  moreover have "-1 \<notin> set (runs it q)"
    using runs_positive [OF assms(2), of q] by (force simp: list_all_iff)
  ultimately show ?thesis by (simp add: complete_def runs_def runs_of_Nil)
qed

lemma iteration_geomean:
  "get_queries_geomean_performance_sample it expected metadata =
     (if \<not> is_successful it expected then Inl failed_executions
      else bindE (geometric_mean (map performance (concat (map (map snd) (maps_of it)))))
        (\<lambda>g. Inr (edw_sample ''edw_iteration_geomean_time'' g metadata)))"
  by (cases it)
    (simp_all add: power_geomean_sample_def power_geomean_def simultaneous_geomean_sample_def
      simultaneous_geomean_def throughput_geomean_sample_def throughput_geomean_def map_concat comp_def)

lemma iteration_geomean_returns:
  assumes "is_successful it expected" and "covers expected it" and "all_positive it" and "expected \<noteq> []"
  shows "\<exists>s. get_queries_geomean_performance_sample it expected metadata = Inr s"
proof -
  let ?ps = "map performance (concat (map (map snd) (maps_of it)))"
  have "?ps \<noteq> []"
    using assms(2,4) by (cases "maps_of it") (auto simp: covers_def)
  moreover have "list_all (\<lambda>t. 0 < t) ?ps"
    using assms(3) by (auto simp: all_positive_def list_all_iff)
  ultimately show ?thesis using assms(1) by (simp add: iteration_geomean geometric_mean_defined)
qed

lemma foldl_conj: "foldl (\<and>) x xs \<longleftrightarrow> x \<and> list_all id xs"
  by (induction xs arbitrary: x) auto

lemma benchmark_is_successful_all:
  "iteration_performances b \<noteq> [] \<Longrightarrow> benchmark_is_successful b =
     Inr (list_all (\<lambda>it. is_successful it (expected_queries b)) (map snd (iteration_performances b)))"
  by (cases "iteration_performances b")
    (simp_all add: benchmark_is_successful_def foldl_conj list_all_iff)

lemma mapE_returns: "(\<And>x. x \<in> set xs \<Longrightarrow> \<exists>y. f x = Inr y) \<Longrightarrow> \<exists>ys. mapE f xs = Inr ys \<and> length ys = length xs"
  by (induction xs) fastforce+

text \<open>Everything that a benchmark needs for its geometric means.\<close>

definition aggregable :: "edw_benchmark \<Rightarrow> bool" where
  "aggregable b =
     (iteration_performances b \<noteq> [] \<and> expected_queries b \<noteq> [] \<and> 0 < total_iterations b
      \<and> list_all (\<lambda>it. wf_iteration it \<and> is_successful it (expected_queries b)
          \<and> streams_complete (expected_queries b) it \<and> all_positive it) (map snd (iteration_performances b)))"

lemma aggregable_complete:
  assumes "aggregable b" and "q \<in> set (expected_queries b)"
  shows "list_all (complete q) (map snd (iteration_performances b))"
  using assms by (auto simp: aggregable_def list_all_iff intro: covers_complete successful_covers)

lemma mean_time_positive:
  assumes "aggregable b" and "q \<in> set (expected_queries b)"
  shows "0 < mean_time b q"
proof -
  have "0 < average_of (runs it q)" if "it \<in> set (map snd (iteration_performances b))" for it
  proof (rule iteration.positive_average)
    show "has_query_performance it q"
      using that aggregable_complete [OF assms] by (auto simp: list_all_iff complete_def iteration.has)
    show "list_all (\<lambda>t. 0 < t) (runs it q)"
      using that assms(1) by (intro runs_positive) (auto simp: aggregable_def list_all_iff)
  qed
  then have "0 < sum_list (map (\<lambda>it. average_of (runs it q)) (map snd (iteration_performances b)))"
    using assms(1) by (intro sum_list_positive) (auto simp: aggregable_def list_all_iff)
  then show ?thesis
    using assms(1) by (simp add: mean_time_def aggregable_def)
qed

text \<open>If every iteration is successful, all times are positive and, which the check of success does not
  look at for throughput iterations, every stream ran the expected queries, then there is a geometric
  mean for every iteration and one for the benchmark, whose power is the product over the queries of
  the means over the iterations.\<close>

lemma geomean_samples_returned:
  assumes "aggregable b"
  shows "\<exists>ss g. get_queries_geomean_performance_samples b metadata = Inr (ss @ [g])
    \<and> length ss = length (iteration_performances b)
    \<and> edw_metric g = ''edw_aggregated_geomean'' \<and> 0 < edw_value g
    \<and> edw_value g ^ length (expected_queries b) = prod_list (map (mean_time b) (expected_queries b))"
proof -
  let ?times = "map (mean_time b) (expected_queries b)"
  have its: "iteration_performances b \<noteq> []" "expected_queries b \<noteq> []" "total_iterations b \<noteq> 0"
    "list_all wf_iteration (map snd (iteration_performances b))"
    "list_all (\<lambda>it. is_successful it (expected_queries b)) (map snd (iteration_performances b))"
    using assms by (auto simp: aggregable_def list_all_iff)
  have "\<exists>s. (case i of (i, it) \<Rightarrow> get_queries_geomean_performance_sample it (expected_queries b)
      (of_iteration i metadata)) = Inr s" if i: "i \<in> set (iteration_performances b)" for i
  proof -
    obtain k it where "i = (k, it)" by (cases i)
    moreover have "is_successful it (expected_queries b)" "covers (expected_queries b) it" "all_positive it"
      using i assms calculation by (auto simp: aggregable_def list_all_iff intro!: successful_covers)
    ultimately show ?thesis using its(2) by (simp add: iteration_geomean_returns)
  qed
  then obtain ss where ss: "mapE (\<lambda>(i, it). get_queries_geomean_performance_sample it (expected_queries b)
      (of_iteration i metadata)) (iteration_performances b) = Inr ss" "length ss = length (iteration_performances b)"
    using mapE_returns [of "iteration_performances b"] by blast
  have "mapE (aggregated_query_execution_time b) (expected_queries b) = Inr ?times"
    by (rule mapE_total) (simp add: aggregated_time_complete its aggregable_complete [OF assms])
  moreover obtain g where "geometric_mean ?times = Inr g"
    and "0 < g" and "g ^ length (expected_queries b) = prod_list ?times"
    using geometric_mean_value [of ?times] mean_time_positive [OF assms] its(2) by (auto simp: list_all_iff)
  ultimately show ?thesis
    using its ss by (auto simp: get_queries_geomean_performance_samples_def benchmark_is_successful_all
        get_aggregated_geomean_performance_sample_def edw_sample_def)
qed

section \<open>Examples\<close>

definition ran :: "string \<Rightarrow> real \<Rightarrow> string \<times> query_performance" where
  "ran q t = (q, new_query_performance q t [] VNone VNone)"

definition two_streams :: throughput_iteration where
  "two_streams = \<lparr>iteration_id = ''0'', start_time = VInt 0, end_time = VInt 5000, wall_time = 5,
     streams = [(''0'', [ran ''1'' 2]), (''1'', [ran ''1'' 4])]\<rparr>"

definition one_run :: power_iteration where
  "one_run = \<lparr>iteration_id = ''1'', start_time = VInt 0, end_time = VInt 6000, wall_time = 6,
     power_performance = [ran ''1'' 6], total_count = 1, successful_count = 1\<rparr>"

definition two_iterations :: edw_benchmark where
  "two_iterations = \<lparr>total_iterations = 2, expected_queries = [''1''],
     iteration_performances = [(''0'', Throughput two_streams), (''1'', Power one_run)]\<rparr>"

lemmas example_defs = two_iterations_def two_streams_def one_run_def ran_def new_query_performance_def

lemma two_iterations_wf: "list_all wf_iteration (map snd (iteration_performances two_iterations))"
  by (simp add: example_defs wf_iteration_def consistent_def)

lemma two_iterations_mean: "mean_time two_iterations ''1'' = 9 / 2"
  by (simp add: example_defs mean_time_def runs_def average_of_def)

lemma two_iterations_complete: "list_all (complete ''1'') (map snd (iteration_performances two_iterations))"
  by (simp add: example_defs complete_def runs_def)

lemma aggregated_query_sample_witness:
  "\<exists>s. get_aggregated_query_performance_sample two_iterations ''1'' [] = Inr s \<and> edw_value s = 9 / 2"
  using aggregated_query_sample [OF two_iterations_wf, of "''1''" "[]"] two_iterations_complete
    two_iterations_mean
  by (auto simp: two_iterations_def)

lemma two_iterations_aggregable: "aggregable two_iterations"
  by (simp add: example_defs aggregable_def wf_iteration_def consistent_def throughput_is_successful_def
      no_duplicate_queries_def all_queries_succeeded_def power_is_successful_def
      all_streams_ran_all_expected_queries_def all_positive_def)

lemma geomean_samples_returned_witness:
  "\<exists>s s' g. get_queries_geomean_performance_samples two_iterations [] = Inr [s, s', g] \<and> edw_value g = 9 / 2"
  using geomean_samples_returned [OF two_iterations_aggregable, of "[]"] two_iterations_mean
  by (auto simp: two_iterations_def length_Suc_conv)

text \<open>A throughput iteration counts as successful although a stream did not run an expected query; the
  geometric means of the benchmark cannot be made then.\<close>

definition incomplete :: edw_benchmark where
  "incomplete = \<lparr>total_iterations = 1, expected_queries = [''1'', ''2''],
     iteration_performances = [(''0'', Throughput two_streams)]\<rparr>"

lemma throughput_successful_without_query:
  "\<not> all_streams_ran_all_expected_queries two_streams [''1'', ''2'']
   \<and> throughput_is_successful two_streams [''1'', ''2'']
   \<and> benchmark_is_successful incomplete = Inr True
   \<and> get_queries_geomean_performance_samples incomplete [] = Inl (cannot_aggregate_over ''2'')"
proof -
  have s: "throughput_is_successful two_streams [''1'', ''2'']"
    by (simp add: example_defs throughput_is_successful_def no_duplicate_queries_def all_queries_succeeded_def)
  have b: "benchmark_is_successful incomplete = Inr True"
    using s by (simp add: incomplete_def benchmark_is_successful_def)
  have w: "list_all wf_iteration (map snd (iteration_performances incomplete))"
    by (simp add: incomplete_def example_defs wf_iteration_def consistent_def)
  have "aggregated_query_status incomplete ''2'' = Inr False"
    unfolding aggregated_query_status_complete [OF w]
    by (simp add: incomplete_def example_defs complete_def runs_def)
  then have e: "aggregated_query_execution_time incomplete ''2'' = Inl (cannot_aggregate_over ''2'')"
    by (simp add: aggregated_query_execution_time_def)
  have "aggregated_query_execution_time incomplete ''1'' = Inr (mean_time incomplete ''1'')"
    by (rule aggregated_time_complete [OF w]) (simp_all add: incomplete_def example_defs complete_def runs_def)
  with e have "mapE (aggregated_query_execution_time incomplete) (expected_queries incomplete)
      = Inl (cannot_aggregate_over ''2'')"
    by (simp add: incomplete_def)
  moreover have "throughput_geomean two_streams = Inr (exp ((ln 2 + ln 4) / 2))"
    by (simp add: throughput_geomean_def example_defs geometric_mean_def)
  ultimately have "get_queries_geomean_performance_samples incomplete [] = Inl (cannot_aggregate_over ''2'')"
    using b s unfolding get_queries_geomean_performance_samples_def get_aggregated_geomean_performance_sample_def
    by (simp add: incomplete_def throughput_geomean_sample_def)
  then show ?thesis
    using s b by (simp add: all_streams_ran_all_expected_queries_def two_streams_def ran_def)
qed

text \<open>A simultaneous iteration counts as successful although a query failed.\<close>

lemma simultaneous_successful_with_failure:
  "\<exists>it. simultaneous_from_json ''0'' \<lparr>json_failure = None, json_start = Some (VInt 0), json_end = Some (VInt 1000),
       json_wall_time = Some 1, json_queries = Some [\<lparr>json_query = Some ''1'', json_query_time = Some (-1),
         json_query_start = None, json_query_end = None, json_details = None\<rparr>]\<rparr> = Inr it
     \<and> simultaneous_query_successful it ''1'' = Inr False
     \<and> simultaneous_is_successful it [''1'']"
  by (simp add: simultaneous_from_json_def query_from_json_def item_def new_query_performance_def
      simultaneous_query_successful_def simultaneous_has_query_def has_key_def index_def
      query_is_successful_def simultaneous_is_successful_def)

end
