(* ===== verification/StaticVms.thy ===== *)
theory StaticVms
  imports ResourceModel BenchmarkSets
begin

text \<open>
  \<open>perfkitbenchmarker/static_virtual_machine.py\<close>: machines that PKB does not create, the file that
  describes them, and the pool that lends them to benchmarks; and \<open>DeleteVm\<close> of \<open>benchmark_spec.py\<close>,
  which gives them back.  A virtual machine is an object: a number, whose attributes are in the store
  \<open>objects\<close>; the pool holds such numbers.  Its life cycle is that of \<open>ResourceModel\<close>, with the hooks
  of a static machine.  Commands on the machines, the remote side of metadata and debug logs, and the
  constructors of the specs are parameters.
\<close>

section \<open>Objects and the pool\<close>

record vm =
  life :: resource
  instance_number :: int
  is_static :: bool
  from_pool :: bool
  install_packages :: bool
  ip_address :: pyval
  internal_ip :: pyval
  ssh_port :: pyval
  user_name :: pyval
  zone :: pyval
  vm_group :: "string option"
  disk_kwargs :: "metadata_dict list"
  max_local_disks :: int
  os_type :: pyval

record 'r vm_world =
  vm_pool :: "nat list"
  objects :: "nat \<Rightarrow> vm"
  object_count :: nat
  instance_counter :: int
  outside :: 'r

type_synonym ('r, 'a) vm_act = "(exn, 'r vm_world mach, 'a) py"

text \<open>Code that neither sees nor changes the pool and the objects.\<close>

definition on_outside :: "(exn, 'r mach, 'a) py \<Rightarrow> ('r, 'a) vm_act" where
  "on_outside f = (\<lambda>m. case f \<lparr>now = now m, lags = lags m, draws = draws m, world = outside (world m)\<rparr> of
       None \<Rightarrow> None
     | Some (r, k) \<Rightarrow> Some (r, \<lparr>now = now k, lags = lags k, draws = draws k,
         world = (world m)\<lparr>outside := world k\<rparr>\<rparr>))"

text \<open>What a virtual machine does outside, by its number.\<close>

record 'r vm_env =
  LogVmDebugInfo :: "nat \<Rightarrow> (exn, 'r mach, unit) py"
  remote_metadata :: "nat \<Rightarrow> resource \<Rightarrow> (exn, 'r mach, metadata_dict) py"
  PackageCleanup :: "nat \<Rightarrow> (exn, 'r mach, unit) py"

definition in_world :: "('r vm_world \<Rightarrow> 'r vm_world) \<Rightarrow> ('r, unit) vm_act" where
  "in_world f = modifyM (\<lambda>m. m\<lparr>world := f (world m)\<rparr>)"

definition from_world :: "('r vm_world \<Rightarrow> 'a) \<Rightarrow> ('r, 'a) vm_act" where
  "from_world f = getM (\<lambda>m. f (world m))"

definition set_object :: "nat \<Rightarrow> (vm \<Rightarrow> vm) \<Rightarrow> 'r vm_world \<Rightarrow> 'r vm_world" where
  "set_object i f w = w\<lparr>objects := (objects w)(i := f (objects w i))\<rparr>"

section \<open>The hooks of a static machine\<close>

text \<open>\<open>StaticVirtualMachine._Delete\<close>\<close>

definition return_to_pool :: "nat \<Rightarrow> ('r, unit) vm_act" where
  "return_to_pool i = bindM (from_world (\<lambda>w. from_pool (objects w i))) (\<lambda>pooled.
     whenM pooled (in_world (\<lambda>w. w\<lparr>vm_pool := i # vm_pool w\<rparr>)))"

definition static_hooks :: "'r vm_env \<Rightarrow> nat \<Rightarrow> 'r vm_world hooks" where
  "static_hooks E i = base_hooks\<lparr>
     Create_hook := ret (),
     Delete_hook := return_to_pool i,
     PreDelete_hook := on_outside (LogVmDebugInfo E i),
     GetResourceMetadata_hook := (\<lambda>r. on_outside (remote_metadata E i r)),
     RESOURCE_TYPE := ''BaseVirtualMachine'', class_name_of := ''StaticVirtualMachine''\<rparr>"

text \<open>A method of the base class, on the object \<open>i\<close>.\<close>

definition on_vm :: "nat \<Rightarrow> ('r vm_world, 'a) meth \<Rightarrow> ('r, 'a) vm_act" where
  "on_vm i f = (\<lambda>m. case f \<lparr>now = now m, lags = lags m, draws = draws m,
         world = \<lparr>self = life (objects (world m) i), ready_checks_performed = 0, cloud = world m\<rparr>\<rparr> of
       None \<Rightarrow> None
     | Some (r, k) \<Rightarrow> Some (r, (cloud_mach k)\<lparr>world :=
         set_object i (\<lambda>v. v\<lparr>life := self (world k)\<rparr>) (cloud (world k))\<rparr>))"

definition GetStaticVirtualMachine :: "resource_flags \<Rightarrow> 'r vm_env \<Rightarrow> ('r, nat option) vm_act" where
  "GetStaticVirtualMachine F E = bindM (from_world vm_pool) (\<lambda>pool. case pool of
       [] \<Rightarrow> ret None
     | i # rest \<Rightarrow> thenM (seqM [
         in_world (\<lambda>w. w\<lparr>vm_pool := rest\<rparr>),
         on_vm i (Create F (static_hooks E i) False),
         in_world (set_object i (\<lambda>v. v\<lparr>from_pool := True\<rparr>))]) (ret (Some i)))"

text \<open>\<open>BenchmarkSpec.DeleteVm\<close>, for a static machine\<close>

definition DeleteStaticVm :: "resource_flags \<Rightarrow> 'r vm_env \<Rightarrow> nat \<Rightarrow> ('r, unit) vm_act" where
  "DeleteStaticVm F E i = thenM
     (bindM (from_world (\<lambda>w. objects w i)) (\<lambda>v.
       whenM (is_static v \<and> install_packages v) (on_outside (PackageCleanup E i))))
     (on_vm i (Delete F (static_hooks E i) False))"

section \<open>The file of static machines\<close>

text \<open>
  What \<open>json.load\<close> gives: an array of objects, or something else, with the text of its type.  What may
  refuse an item later is a parameter: the checks of \<open>StaticVmSpec\<close> on its arguments, and the lookup of
  the class for an operating system (none stands for the default).  Names of missing keys are in the order of
  \<open>required_keys\<close>, which is a set in the code.
\<close>

datatype vm_file = JsonArray "metadata_dict list" | NotArray string

record spec_env =
  check_spec :: "metadata_dict \<Rightarrow> exn + unit"
  find_vm_class :: "pyval \<Rightarrow> exn + unit"
  str_of_value :: "pyval \<Rightarrow> string"

definition required_keys :: "string \<Rightarrow> string list" where
  "required_keys flag_os_type = [''ip_address'', ''user_name'',
     if flag_os_type \<in> set WINDOWS_OS_TYPES then ''password'' else ''keyfile_path'']"

definition optional_keys :: "string list" where
  "optional_keys = [''internal_ip'', ''internal_ips'', ''zone'', ''local_disks'', ''scratch_disk_mountpoints'',
     ''os_type'', ''ssh_port'', ''install_packages'']"

definition value_error :: "string \<Rightarrow> exn" where
  "value_error t = exn (Builtin ValueError) t"

definition VerifyItemFormat :: "string \<Rightarrow> metadata_dict \<Rightarrow> exn + unit" where
  "VerifyItemFormat flag_os_type entries =
     (let required = required_keys flag_os_type; allowed = required @ optional_keys;
          extra_keys = sort (remdups (filter (\<lambda>k. k \<notin> set allowed) (map fst entries)));
          missing_keys = filter (\<lambda>k. k \<notin> fst ` set entries) required
      in if extra_keys \<noteq> [] then Inl (value_error (''Unexpected keys: '' @ str_join '', '' extra_keys))
         else if missing_keys \<noteq> [] then Inl (value_error (''Missing required keys: '' @ str_join '', '' missing_keys))
         else Inr ())"

definition list_of :: "spec_env \<Rightarrow> string \<Rightarrow> pyval \<Rightarrow> exn + pyval list" where
  "list_of E what v = (case v of VList vs \<Rightarrow> Inr vs
     | _ \<Rightarrow> Inl (value_error (''Expected a list of '' @ what @ '', got: '' @ str_of_value E v)))"

definition disks_of :: "pyval list \<Rightarrow> pyval list \<Rightarrow> metadata_dict list" where
  "disks_of mountpoints local_disks =
     map (\<lambda>path. [(''mount_point'', path)]) mountpoints @ map (\<lambda>d. [(''device_path'', d)]) local_disks"

definition WINDOWS :: pyval where "WINDOWS = VStr ''windows''"

text \<open>The arguments of \<open>StaticVmSpec\<close> and the operating system, for an item that has the right keys\<close>

definition spec_of_item :: "spec_env \<Rightarrow> string \<Rightarrow> metadata_dict \<Rightarrow> exn + metadata_dict \<times> metadata_dict list \<times> pyval" where
  "spec_of_item E flag_os_type entries =
     bindE (VerifyItemFormat flag_os_type entries) (\<lambda>_.
     bindE (list_of E ''local disks'' (get_or entries ''local_disks'' (VList []))) (\<lambda>local_disks.
     bindE (list_of E ''disk mount points'' (get_or entries ''scratch_disk_mountpoints'' (VList []))) (\<lambda>mountpoints.
       let os = get_or entries ''os_type'' VNone
       in if (os = WINDOWS \<and> VStr flag_os_type \<noteq> WINDOWS) \<or> (os \<noteq> WINDOWS \<and> VStr flag_os_type = WINDOWS)
          then Inl (value_error ''Please only use Windows VMs when using --os_type=windows and vice versa.'')
          else Inr ([(''ip_address'', get_or entries ''ip_address'' VNone),
               (''user_name'', get_or entries ''user_name'' VNone),
               (''ssh_port'', get_or entries ''ssh_port'' (VInt 22)),
               (''install_packages'', get_or entries ''install_packages'' (VBool True)),
               (''ssh_private_key'', get_or entries ''keyfile_path'' VNone),
               (''internal_ip'', get_or entries ''internal_ip'' VNone),
               (''internal_ips'', get_or entries ''internal_ips'' VNone),
               (''zone'', get_or entries ''zone'' VNone),
               (''password'', get_or entries ''password'' VNone)],
             disks_of mountpoints local_disks, os))))"

text \<open>
  \<open>StaticVirtualMachine.__init__\<close>: a new object, which the caller may keep.  A zone that is not given is made
  of the user and the address.
\<close>

definition new_static_vm :: "spec_env \<Rightarrow> metadata_dict \<Rightarrow> metadata_dict list \<Rightarrow> pyval \<Rightarrow> int \<Rightarrow> vm" where
  "new_static_vm E spec disks os n =
     \<lparr>life = new_resource False False False False, instance_number = n, is_static = True, from_pool = False,
      install_packages = py_true (get_or spec ''install_packages'' VNone),
      ip_address = get_or spec ''ip_address'' VNone, internal_ip = get_or spec ''internal_ip'' VNone,
      ssh_port = get_or spec ''ssh_port'' VNone, user_name = get_or spec ''user_name'' VNone,
      zone = (if py_true (get_or spec ''zone'' VNone) then get_or spec ''zone'' VNone
        else VStr (''Static - '' @ str_of_value E (get_or spec ''user_name'' VNone) @ ''@''
          @ str_of_value E (get_or spec ''ip_address'' VNone))),
      vm_group = None, disk_kwargs = disks, max_local_disks = 0, os_type = os\<rparr>"

definition new_object :: "(int \<Rightarrow> vm) \<Rightarrow> 'r vm_world \<Rightarrow> 'r vm_world" where
  "new_object v w = w\<lparr>objects := (objects w)(object_count w := v (instance_counter w)),
     object_count := object_count w + 1, instance_counter := instance_counter w + 1\<rparr>"

definition DEFAULT_OS_TYPE :: pyval where "DEFAULT_OS_TYPE = VStr ''ubuntu2404''"

definition GetStaticVmClass :: "spec_env \<Rightarrow> pyval \<Rightarrow> exn + pyval" where
  "GetStaticVmClass E os =
     (let os = (if py_true os then os else DEFAULT_OS_TYPE) in bindE (find_vm_class E os) (\<lambda>_. Inr os))"

fun read_items :: "spec_env \<Rightarrow> string \<Rightarrow> metadata_dict list \<Rightarrow> 'r vm_world \<Rightarrow> (exn + unit) \<times> 'r vm_world" where
  "read_items E flag_os_type [] w = (Inr (), w)"
| "read_items E flag_os_type (entries # rest) w =
     (case bindE (spec_of_item E flag_os_type entries) (\<lambda>(spec, disks, os).
           bindE (check_spec E spec) (\<lambda>_. bindE (GetStaticVmClass E os) (\<lambda>os. Inr (spec, disks, os)))) of
        Inl e \<Rightarrow> (Inl e, w)
      | Inr (spec, disks, os) \<Rightarrow>
          let w' = new_object (new_static_vm E spec disks os) w
          in read_items E flag_os_type rest (w'\<lparr>vm_pool := vm_pool w' @ [object_count w]\<rparr>))"

definition ReadStaticVirtualMachineFile ::
  "spec_env \<Rightarrow> string \<Rightarrow> vm_file \<Rightarrow> 'r vm_world \<Rightarrow> (exn + unit) \<times> 'r vm_world" where
  "ReadStaticVirtualMachineFile E flag_os_type file w = (case file of
     NotArray t \<Rightarrow> (Inl (value_error (''Invalid static VM file. Expected array, got: '' @ t @ ''.'')), w)
   | JsonArray xs \<Rightarrow> read_items E flag_os_type xs w)"

section \<open>What the life cycle does to a static machine\<close>

lemma wp_retried_success:
  assumes "\<And>k. passes m k \<Longrightarrow> wp f Q (\<lambda>_ _. False) k"
  shows "wp (Retry dflt c f) Q E m"
proof -
  have loop: "wp (retry_loop c d f n) Q E k" if "passes m k" for d n k
  proof (cases "f k")
    case None
    then show ?thesis by (simp add: wp_def retry_loop.simps)
  next
    case (Some p)
    moreover obtain r k' where "p = (r, k')" by (cases p)
    ultimately show ?thesis
      using assms [OF that] by (cases r) (simp_all add: wp_def retry_loop_success)
  qed
  show ?thesis
    unfolding Retry_def Let_def
    by (auto simp: wp_simps Let_def intro!: loop passes_clock passes_refl)
qed

lemma wp_on_outside:
  assumes "\<And>x k. vm_pool (world k) = vm_pool (world m) \<Longrightarrow> objects (world k) = objects (world m) \<Longrightarrow>
      object_count (world k) = object_count (world m) \<Longrightarrow> Q x k"
    and "\<And>e k. vm_pool (world k) = vm_pool (world m) \<Longrightarrow> objects (world k) = objects (world m) \<Longrightarrow>
      object_count (world k) = object_count (world m) \<Longrightarrow> E e k"
  shows "wp (on_outside f) Q E m"
  by (rule wpI) (use assms in \<open>auto simp: on_outside_def split: option.splits\<close>)

text \<open>The pool after a machine has been deleted\<close>

definition given_back :: "nat \<Rightarrow> resource \<Rightarrow> bool \<Rightarrow> nat list \<Rightarrow> nat list" where
  "given_back i l pooled pool = (if created l \<and> \<not> deleted l \<and> pooled then i # pool else pool)"

text \<open>The machine and everything but the outside are as before.\<close>

definition same_vms :: "'r vm_world rworld mach \<Rightarrow> 'r vm_world rworld mach \<Rightarrow> bool" where
  "same_vms m k = (vm_pool (cloud (world k)) = vm_pool (cloud (world m))
     \<and> objects (cloud (world k)) = objects (cloud (world m))
     \<and> object_count (cloud (world k)) = object_count (cloud (world m)))"

lemma same_vms_refl [simp]: "same_vms m m"
  by (simp add: same_vms_def)

lemma same_vms_passes [simp]: "passes m k \<Longrightarrow> same_vms l k = same_vms l m"
  by (simp add: same_vms_def)

lemma put_cloud_mach [simp]: "put_cloud m (cloud_mach m) = m"
  by (simp add: put_cloud_def cloud_mach_def)

lemma static_hooks_simps [simp]:
  "Create_hook (static_hooks E i) = ret ()" "Delete_hook (static_hooks E i) = return_to_pool i"
  "Exists_hook (static_hooks E i) = not_implemented" "WaitUntilRunning_hook (static_hooks E i) = ret ()"
  "IsReady_hook (static_hooks E i) = ret True" "IsDeleting_hook (static_hooks E i) = ret False"
  "PreDelete_hook (static_hooks E i) = on_outside (LogVmDebugInfo E i)"
  "PostCreate_hook (static_hooks E i) = ret ()" "CreateDependencies_hook (static_hooks E i) = ret ()"
  "DeleteDependencies_hook (static_hooks E i) = ret ()"
  "GetResourceMetadata_hook (static_hooks E i) = (\<lambda>r. on_outside (remote_metadata E i r))"
  by (simp_all add: static_hooks_def base_hooks_def)

lemma static_CreateResource:
  "wp (CreateResource F (static_hooks E i))
     (\<lambda>_ k. same_vms m k \<and> created (self (world k)) \<and> deleted (self (world k)) = deleted (self (world m))
        \<and> user_managed (self (world k)) = user_managed (self (world m))) (\<lambda>_ _. False) m"
  unfolding CreateResource_def
  by (rule wp_retried_success)
    (simp add: CreateResource_once_def wp_simps wp_on_cloud not_implemented_def
      Let_def same_vms_def issubclass_def)

lemma static_WaitUntilReady:
  "wp (WaitUntilReady F (static_hooks E i))
     (\<lambda>_ k. same_vms m k \<and> self (world k) = self (world m)) (\<lambda>_ _. False) m"
  unfolding WaitUntilReady_def
  by (simp add: wp_simps, rule wp_retried_success)
    (simp add: InnerWaitUntilReady_def wp_simps wp_on_cloud same_vms_def)

lemma static_Create:
  assumes "\<not> user_managed (self (world m))"
  shows "wp (Create F (static_hooks E i) False)
     (\<lambda>_ k. same_vms m k \<and> created (self (world k)) \<and> deleted (self (world k)) = deleted (self (world m))
        \<and> \<not> user_managed (self (world k))) (\<lambda>_ _. False) m"
proof -
  note create = wp_mono [OF static_CreateResource] and ready = wp_mono [OF static_WaitUntilReady]
  show ?thesis
    using assms unfolding Create_def Create_steps_def
    by (simp add: wp_simps wp_on_cloud del: seqM.simps, unfold wp_seqM_Cons wp_on_cloud static_hooks_simps)
      (rule create, rule ready, auto simp: wp_simps wp_on_cloud Let_def same_vms_def)
qed

lemma static_DeleteResource:
  "wp (DeleteResource F (static_hooks E i))
     (\<lambda>_ k. self (world k) = (self (world m))\<lparr>delete_start_time := delete_start_time (self (world k))\<rparr>
        \<and> objects (cloud (world k)) = objects (cloud (world m))
        \<and> vm_pool (cloud (world k)) =
            given_back i (self (world m)) (from_pool (objects (cloud (world m)) i)) (vm_pool (cloud (world m)))) (\<lambda>_ _. False) m"
proof -
  have wait: "wp (Retry d c (WaitUntilDeleted_once (static_hooks E i))) Q Z k"
    if "\<And>k'. world k' = world k \<Longrightarrow> Q () k'" for d c Q Z and k :: "'a vm_world rworld mach"
    by (rule wp_retried_success)
      (use that in \<open>auto simp: WaitUntilDeleted_once_def wp_simps wp_on_cloud put_cloud_def cloud_mach_def\<close>)
  show ?thesis
    unfolding DeleteResource_def
    by (rule wp_retried_success)
      (auto simp: DeleteResource_once_def wp_simps wp_on_cloud not_implemented_def
        return_to_pool_def given_back_def from_world_def in_world_def Let_def issubclass_def intro!: wait)
qed

lemma static_Delete:
  assumes "\<not> user_managed (self (world m))"
  shows "wp (Delete F (static_hooks E i) False)
     (\<lambda>_ k. created (self (world k)) = created (self (world m)) \<and> deleted (self (world k))
        \<and> \<not> user_managed (self (world k)) \<and> objects (cloud (world k)) = objects (cloud (world m))
        \<and> vm_pool (cloud (world k)) =
            given_back i (self (world m)) (from_pool (objects (cloud (world m)) i)) (vm_pool (cloud (world m))))
     (\<lambda>_ k. self (world k) = self (world m) \<and> same_vms m k) m"
proof -
  note delete = wp_mono [OF static_DeleteResource]
  have steps: "wp (Delete_steps F (static_hooks E i))
     (\<lambda>_ k. created (self (world k)) = created (self (world l)) \<and> deleted (self (world k))
        \<and> user_managed (self (world k)) = user_managed (self (world l)) \<and> objects (cloud (world k)) = objects (cloud (world l))
        \<and> vm_pool (cloud (world k)) =
            given_back i (self (world l)) (from_pool (objects (cloud (world l)) i)) (vm_pool (cloud (world l))))
     (\<lambda>_ k. self (world k) = self (world l) \<and> same_vms l k) l" for l
    unfolding Delete_steps_def wp_seqM_Cons wp_on_cloud static_hooks_simps
    by (rule wp_on_outside, rule delete)
      (auto simp: wp_simps wp_on_cloud Let_def same_vms_def dest: arg_cong [of _ _ created] arg_cong [of _ _ user_managed])
  show ?thesis
    using assms unfolding Delete_def GetResourceMetadata_def
    by (simp add: wp_simps wp_on_cloud)
      (rule wp_on_outside, rule wp_mono [OF steps], auto simp: same_vms_def)
qed

section \<open>Taking and giving back\<close>

definition before_vm :: "nat \<Rightarrow> 'r vm_world mach \<Rightarrow> 'r vm_world rworld mach" where
  "before_vm i m = \<lparr>now = now m, lags = lags m, draws = draws m,
     world = \<lparr>self = life (objects (world m) i), ready_checks_performed = 0, cloud = world m\<rparr>\<rparr>"

definition after_vm :: "nat \<Rightarrow> 'r vm_world rworld mach \<Rightarrow> 'r vm_world mach" where
  "after_vm i k = (cloud_mach k)\<lparr>world := set_object i (\<lambda>v. v\<lparr>life := self (world k)\<rparr>) (cloud (world k))\<rparr>"

lemma before_vm_simps [simp]:
  "self (world (before_vm i m)) = life (objects (world m) i)" "cloud (world (before_vm i m)) = world m"
  by (simp_all add: before_vm_def)

lemma after_vm_simps [simp]:
  "vm_pool (world (after_vm i k)) = vm_pool (cloud (world k))"
  "object_count (world (after_vm i k)) = object_count (cloud (world k))"
  "objects (world (after_vm i k)) = (objects (cloud (world k)))(i := (objects (cloud (world k)) i)\<lparr>life := self (world k)\<rparr>)"
  by (simp_all add: after_vm_def set_object_def)

lemma wp_on_vm:
  "wp (on_vm i f) Q E m = wp f (\<lambda>x k. Q x (after_vm i k)) (\<lambda>e k. E e (after_vm i k)) (before_vm i m)"
  by (simp add: wp_def on_vm_def before_vm_def after_vm_def split: option.splits prod.splits sum.splits)

lemma take_spec:
  assumes "vm_pool (world m) = i # rest" and "\<not> user_managed (life (objects (world m) i))"
  shows "wp (GetStaticVirtualMachine F E)
     (\<lambda>r k. r = Some i \<and> vm_pool (world k) = rest \<and> object_count (world k) = object_count (world m)
        \<and> (\<exists>l. objects (world k) = (objects (world m))(i := (objects (world m) i)\<lparr>life := l, from_pool := True\<rparr>)
            \<and> created l \<and> deleted l = deleted (life (objects (world m) i)) \<and> \<not> user_managed l)) (\<lambda>_ _. False) m"
proof -
  note create = wp_mono [OF static_Create]
  show ?thesis
    using assms unfolding GetStaticVirtualMachine_def from_world_def in_world_def
    by (simp add: wp_simps del: seqM.simps, unfold wp_seqM_Cons wp_on_vm wp_modifyM)
      (rule create, auto simp: wp_simps set_object_def same_vms_def)
qed

lemma take_empty:
  "vm_pool (world m) = [] \<Longrightarrow> GetStaticVirtualMachine F E m = Some (Inr None, m)"
  by (simp add: GetStaticVirtualMachine_def from_world_def run_at)

lemma give_spec:
  assumes "\<not> user_managed (life (objects (world m) i))"
  shows "wp (DeleteStaticVm F E i)
     (\<lambda>_ k. vm_pool (world k) = given_back i (life (objects (world m) i)) (from_pool (objects (world m) i)) (vm_pool (world m))
        \<and> (\<exists>l. objects (world k) = (objects (world m))(i := (objects (world m) i)\<lparr>life := l\<rparr>)
            \<and> created l = created (life (objects (world m) i)) \<and> deleted l \<and> \<not> user_managed l))
     (\<lambda>_ k. vm_pool (world k) = vm_pool (world m) \<and> objects (world k) = objects (world m)) m"
proof -
  have delete: "wp (on_vm i (Delete F (static_hooks E i) False))
     (\<lambda>_ k. vm_pool (world k) = given_back i (life (objects (world m) i)) (from_pool (objects (world m) i)) (vm_pool (world m))
        \<and> (\<exists>l. objects (world k) = (objects (world m))(i := (objects (world m) i)\<lparr>life := l\<rparr>)
            \<and> created l = created (life (objects (world m) i)) \<and> deleted l \<and> \<not> user_managed l))
     (\<lambda>_ k. vm_pool (world k) = vm_pool (world m) \<and> objects (world k) = objects (world m)) k"
    if "vm_pool (world k) = vm_pool (world m)" "objects (world k) = objects (world m)" for k
    unfolding wp_on_vm by (rule wp_mono [OF static_Delete]) (use assms that in \<open>auto simp: Let_def same_vms_def\<close>)
  show ?thesis
    unfolding DeleteStaticVm_def from_world_def
    by (simp add: wp_simps delete) (intro impI wp_on_outside delete; simp)
qed

section \<open>Benchmarks that use the pool\<close>

text \<open>
  The pool is an attribute of a class, and so of a process.  Steps in one process, with the machines that are lent in it: a machine is taken, or the pool is found empty; a lent
  machine is deleted by the benchmark that has it, or deleting it fails; or something happens elsewhere.
\<close>

datatype pool_event = Took nat | FoundEmpty | Gave nat | Failed nat | Elsewhere

inductive pool_step ::
  "resource_flags \<Rightarrow> 'r vm_env \<Rightarrow> 'r vm_world mach \<times> nat list \<Rightarrow> pool_event \<Rightarrow> 'r vm_world mach \<times> nat list \<Rightarrow> bool"
  for F E where
  took: "GetStaticVirtualMachine F E m = Some (Inr (Some i), m') \<Longrightarrow>
    pool_step F E (m, lent) (Took i) (m', i # lent)"
| found_empty: "GetStaticVirtualMachine F E m = Some (Inr None, m') \<Longrightarrow>
    pool_step F E (m, lent) FoundEmpty (m', lent)"
| gave: "i \<in> set lent \<Longrightarrow> DeleteStaticVm F E i m = Some (Inr u, m') \<Longrightarrow>
    pool_step F E (m, lent) (Gave i) (m', remove1 i lent)"
| failed: "i \<in> set lent \<Longrightarrow> DeleteStaticVm F E i m = Some (Inl e, m') \<Longrightarrow>
    pool_step F E (m, lent) (Failed i) (m', lent)"
| elsewhere: "vm_pool (world m') = vm_pool (world m) \<Longrightarrow>
    (\<And>i. life (objects (world m') i) = life (objects (world m) i)
      \<and> from_pool (objects (world m') i) = from_pool (objects (world m) i)) \<Longrightarrow>
    pool_step F E (m, lent) Elsewhere (m', lent)"

inductive_cases took_cases: "pool_step F E s (Took i) s'"
inductive_cases gave_cases: "pool_step F E s (Gave i) s'"

inductive pool_run ::
  "resource_flags \<Rightarrow> 'r vm_env \<Rightarrow> 'r vm_world mach \<times> nat list \<Rightarrow> pool_event list \<Rightarrow> 'r vm_world mach \<times> nat list \<Rightarrow> bool"
  for F E s where
  start: "pool_run F E s [] s"
| more: "pool_run F E s es s1 \<Longrightarrow> pool_step F E s1 e s2 \<Longrightarrow> pool_run F E s (es @ [e]) s2"

text \<open>
  The invariant: the pool and the lent machines are all different.  A machine in the pool has never been
  taken and is new, or has been taken once and is marked as deleted; a lent machine is marked as created, and
  has been taken once, or twice if it is marked as deleted.
\<close>

definition waiting :: "nat \<Rightarrow> vm \<Rightarrow> bool" where
  "waiting n v = (\<not> user_managed (life v) \<and>
     (n = 0 \<and> \<not> created (life v) \<and> \<not> deleted (life v) \<or> n = 1 \<and> created (life v) \<and> deleted (life v) \<and> from_pool v))"

definition in_use :: "nat \<Rightarrow> vm \<Rightarrow> bool" where
  "in_use n v = (\<not> user_managed (life v) \<and> created (life v) \<and> from_pool v \<and>
     (n = 1 \<and> \<not> deleted (life v) \<or> n = 2 \<and> deleted (life v)))"

fun pool_inv :: "pool_event list \<Rightarrow> 'r vm_world mach \<times> nat list \<Rightarrow> bool" where
  "pool_inv es (m, lent) =
     (distinct (vm_pool (world m) @ lent) \<and>
      (\<forall>i \<in> set (vm_pool (world m)). waiting (count_list es (Took i)) (objects (world m) i)) \<and>
      (\<forall>i \<in> set lent. in_use (count_list es (Took i)) (objects (world m) i)) \<and>
      (\<forall>i. count_list es (Took i) \<le> 2))"

lemma GetStaticVirtualMachine_took:
  assumes "GetStaticVirtualMachine F E m = Some (Inr (Some i), m')"
  obtains rest where "vm_pool (world m) = i # rest"
proof (cases "vm_pool (world m)")
  case Nil
  with assms show ?thesis by (simp add: take_empty)
next
  case (Cons j rest)
  with assms have "i = j"
    by (auto simp: GetStaticVirtualMachine_def from_world_def bindM_def getM_def thenM_def ret_def
        split: option.splits sum.splits prod.splits)
  with Cons that show ?thesis by blast
qed

lemma pool_step_inv:
  assumes "pool_step F E s e s'" and "pool_inv es s"
  shows "pool_inv (es @ [e]) s'"
  using assms
proof (cases rule: pool_step.cases)
  case (took m i m' lent)
  then obtain rest where rest: "vm_pool (world m) = i # rest"
    using GetStaticVirtualMachine_took by blast
  with took(1) assms(2) have i: "waiting (count_list es (Took i)) (objects (world m) i)"
    and distinct: "distinct (i # rest @ lent)"
    and other: "\<forall>j \<in> set rest. waiting (count_list es (Took j)) (objects (world m) j)"
      "\<forall>j \<in> set lent. in_use (count_list es (Took j)) (objects (world m) j)"
      "\<forall>j. count_list es (Took j) \<le> 2"
    by auto
  have "\<not> user_managed (life (objects (world m) i))" using i by (simp add: waiting_def)
  from wp_returnsD [OF take_spec [OF rest this] took(4)] obtain l where
    pool: "vm_pool (world m') = rest" and l: "created l" "deleted l = deleted (life (objects (world m) i))"
      "\<not> user_managed l"
    and store: "objects (world m') = (objects (world m))(i := (objects (world m) i)\<lparr>life := l, from_pool := True\<rparr>)"
    by blast
  have "in_use (count_list es (Took i) + 1) (objects (world m') i)"
    using i l by (auto simp: store waiting_def in_use_def)
  moreover have "count_list es (Took i) \<le> 1" using i by (auto simp: waiting_def)
  ultimately show ?thesis
    unfolding took(2,3) pool_inv.simps pool using distinct other
    by (intro conjI ballI allI) (auto simp: store)
next
  case (found_empty m m' lent)
  have "vm_pool (world m) = []"
  proof (cases "vm_pool (world m)")
    case (Cons i rest)
    then have "\<not> user_managed (life (objects (world m) i))"
      using assms(2) found_empty(1) by (auto simp: waiting_def)
    from wp_returnsD [OF take_spec [OF Cons this] found_empty(4)] show ?thesis by simp
  qed
  then show ?thesis using found_empty assms(2) by (simp add: take_empty)
next
  case (gave i lent m u m')
  with assms(2) have i: "in_use (count_list es (Took i)) (objects (world m) i)"
    and distinct: "distinct (vm_pool (world m) @ lent)"
    and other: "\<forall>j \<in> set (vm_pool (world m)). waiting (count_list es (Took j)) (objects (world m) j)"
      "\<forall>j \<in> set lent. in_use (count_list es (Took j)) (objects (world m) j)"
      "\<forall>j. count_list es (Took j) \<le> 2"
    by auto
  have "\<not> user_managed (life (objects (world m) i))" using i by (simp add: in_use_def)
  from wp_returnsD [OF give_spec [OF this] gave(5)] obtain l where
    pool: "vm_pool (world m') = given_back i (life (objects (world m) i)) (from_pool (objects (world m) i)) (vm_pool (world m))"
    and l: "created l = created (life (objects (world m) i))" "deleted l" "\<not> user_managed l"
    and store: "objects (world m') = (objects (world m))(i := (objects (world m) i)\<lparr>life := l\<rparr>)"
    by blast
  have "i \<notin> set (vm_pool (world m))" using distinct gave(4) by auto
  moreover have "waiting (count_list es (Took i)) (objects (world m') i)" if "i \<in> set (vm_pool (world m'))"
    using that i l calculation by (auto simp: pool store waiting_def in_use_def given_back_def split: if_splits)
  ultimately show ?thesis
    unfolding gave(2,3) pool_inv.simps using distinct other gave(4)
    by (intro conjI ballI allI)
      (auto simp: store pool given_back_def split: if_splits dest: in_set_remove1 [THEN iffD1, rotated])
next
  case (failed i lent m e m')
  then have "\<not> user_managed (life (objects (world m) i))"
    using assms(2) by (auto simp: in_use_def)
  from wp_raisesD [OF give_spec [OF this] failed(5)] assms(2) failed(1,2,3)
  show ?thesis by simp
next
  case (elsewhere m' m lent)
  then show ?thesis using assms(2) by (simp add: waiting_def in_use_def)
qed

text \<open>A pool of new machines\<close>

definition fresh_pool :: "'r vm_world \<Rightarrow> bool" where
  "fresh_pool w = (distinct (vm_pool w) \<and> list_all (\<lambda>i. waiting 0 (objects w i)) (vm_pool w))"

lemma pool_run_inv:
  assumes "pool_run F E s es s'" and "s = (m, [])" and "fresh_pool (world m)"
  shows "pool_inv es s'"
  using assms
proof (induction rule: pool_run.induct)
  case start
  then show ?case by (simp add: fresh_pool_def list_all_iff)
next
  case (more es s1 e s2)
  then show ?case using pool_step_inv by blast
qed

section \<open>Taking and giving back come to an end\<close>

definition env_keeps_time :: "'r vm_env \<Rightarrow> bool" where
  "env_keeps_time E = (\<forall>i. keeps_time (LogVmDebugInfo E i) \<and> (\<forall>r. keeps_time (remote_metadata E i r))
     \<and> keeps_time (PackageCleanup E i))"

lemma keeps_time_on_outside [keeps_time_intros]:
  assumes "keeps_time f"
  shows "keeps_time (on_outside f)"
proof (rule keeps_timeI)
  fix m :: "'a vm_world mach"
  assume "sane m"
  then have "sane \<lparr>now = now m, lags = lags m, draws = draws m, world = outside (world m)\<rparr>"
    by (simp add: sane_def)
  from keeps_timeD [OF assms this] show "\<exists>r m'. on_outside f m = Some (r, m') \<and> sane m' \<and> now m \<le> now m'"
    by (auto simp: on_outside_def sane_def)
qed

lemma keeps_time_in_world [keeps_time_intros]: "keeps_time (in_world f)"
  unfolding in_world_def by (rule keeps_time_world)

lemma keeps_time_from_world [keeps_time_intros]: "keeps_time (from_world f)"
  unfolding from_world_def by (rule keeps_time_getM)

lemma keeps_time_on_vm [keeps_time_intros]:
  assumes "keeps_time f"
  shows "keeps_time (on_vm i f)"
proof (rule keeps_timeI)
  fix m :: "'a vm_world mach"
  assume "sane m"
  then have "sane (before_vm i m)" by (simp add: sane_def before_vm_def)
  from keeps_timeD [OF assms this] show "\<exists>r m'. on_vm i f m = Some (r, m') \<and> sane m' \<and> now m \<le> now m'"
    by (auto simp: on_vm_def before_vm_def sane_def cloud_mach_def)
qed

lemma keeps_time_list [keeps_time_intros]:
  "keeps_time f \<Longrightarrow> (\<And>x xs. keeps_time (g x xs)) \<Longrightarrow> keeps_time (case ys of [] \<Rightarrow> f | x # xs \<Rightarrow> g x xs)"
  by (cases ys) simp_all

lemma static_hooks_keep_time: "env_keeps_time E \<Longrightarrow> hooks_keep_time (static_hooks E i)"
  by (auto simp: hooks_keep_time_def env_keeps_time_def static_hooks_def base_hooks_def not_implemented_def
      return_to_pool_def intro!: keeps_time_intros)

lemma static_hooks_bounded: "0 \<le> default_timeout F \<Longrightarrow> bounded_waits F (static_hooks E i)"
  by (simp add: bounded_waits_def static_hooks_def base_hooks_def)

lemma take_returns:
  assumes "env_keeps_time E" and "0 \<le> default_timeout F" and "sane m"
    and "vm_pool (world m) = i # rest" and "\<not> user_managed (life (objects (world m) i))"
  obtains m' where "GetStaticVirtualMachine F E m = Some (Inr (Some i), m')" and "sane m'"
proof -
  note create = keeps_time_Create [OF static_hooks_keep_time [OF assms(1)] static_hooks_bounded [OF assms(2)]]
  have "keeps_time (GetStaticVirtualMachine F E)"
    unfolding GetStaticVirtualMachine_def
    by (auto intro!: keeps_time_intros create)
  from keeps_timeD [OF this assms(3)] wp_outcome [of _ "\<lambda>_. True"] take_spec [OF assms(4,5), of F E] that
  show ?thesis by (force simp: wp_def split: sum.splits)
qed

lemma give_returns:
  assumes "env_keeps_time E" and "0 \<le> default_timeout F" and "sane m"
  obtains r m' where "DeleteStaticVm F E i m = Some (r, m')" and "sane m'"
proof -
  note delete = keeps_time_Delete [OF static_hooks_keep_time [OF assms(1)] static_hooks_bounded [OF assms(2)]]
  have "keeps_time (DeleteStaticVm F E i)"
    unfolding DeleteStaticVm_def using assms(1)
    by (auto simp: env_keeps_time_def intro!: keeps_time_intros delete)
  from keeps_timeD [OF this assms(3)] that show ?thesis by blast
qed

text \<open>The file fills the pool with new machines, one for each item, in the order of the file; those before
  an item that is refused stay there.\<close>

definition allocated :: "'r vm_world \<Rightarrow> bool" where
  "allocated w = list_all (\<lambda>i. i < object_count w) (vm_pool w)"

lemma new_static_vm_waits: "waiting 0 (new_static_vm E spec disks os n)"
  by (simp add: waiting_def new_static_vm_def new_resource_def)

lemma read_items_fresh:
  assumes "read_items E flag_os_type xs w = (r, w')" and "fresh_pool w" and "allocated w"
  shows "fresh_pool w' \<and> allocated w'
    \<and> (\<exists>n \<le> length xs. vm_pool w' = vm_pool w @ [object_count w ..< object_count w + n] \<and> (r = Inr () \<longrightarrow> n = length xs))"
  using assms
proof (induction E flag_os_type xs w arbitrary: r w' rule: read_items.induct)
  case (2 E flag_os_type entries rest w)
  show ?case
  proof (cases "bindE (spec_of_item E flag_os_type entries) (\<lambda>(spec, disks, os).
           bindE (check_spec E spec) (\<lambda>_. bindE (GetStaticVmClass E os) (\<lambda>os. Inr (spec, disks, os))))")
    case (Inl e)
    with 2(2-4) show ?thesis by auto
  next
    case (Inr p)
    obtain spec disks os where p: "p = (spec, disks, os)" by (cases p)
    let ?w = "new_object (new_static_vm E spec disks os) w\<lparr>vm_pool := vm_pool w @ [object_count w]\<rparr>"
    have w: "vm_pool ?w = vm_pool w @ [object_count w]" "object_count ?w = object_count w + 1"
      "objects ?w = (objects w)(object_count w := new_static_vm E spec disks os (instance_counter w))"
      by (simp_all add: new_object_def)
    have "fresh_pool ?w" "allocated ?w"
      using 2(3,4) unfolding fresh_pool_def allocated_def w
      by (auto simp: list_all_iff new_static_vm_waits)
    moreover have "read_items E flag_os_type rest ?w = (r, w')"
      using 2(2) Inr p by (simp add: Let_def new_object_def)
    ultimately obtain n where n: "fresh_pool w'" "allocated w'" "n \<le> length rest"
      "vm_pool w' = vm_pool ?w @ [object_count ?w ..< object_count ?w + n]" "r = Inr () \<longrightarrow> n = length rest"
      using 2(1) [OF Inr [unfolded p] refl refl refl] by (auto simp: new_object_def)
    then show ?thesis
      by (intro conjI exI [of _ "n + 1"]) (auto simp: w upt_rec)
  qed
qed auto

section \<open>Properties\<close>

text \<open>
  With \<open>--run_processes\<close> the benchmarks run in processes of their own, which are forked after the pool has been
  filled and have a copy of it each.  A step of one process leaves the others as they are.
\<close>

inductive processes_run ::
  "resource_flags \<Rightarrow> 'r vm_env \<Rightarrow> (nat \<Rightarrow> 'r vm_world mach \<times> nat list) \<Rightarrow> (nat \<times> pool_event) list
     \<Rightarrow> (nat \<Rightarrow> 'r vm_world mach \<times> nat list) \<Rightarrow> bool" for F E s where
  forked: "processes_run F E s [] s"
| step: "processes_run F E s es s1 \<Longrightarrow> pool_step F E (s1 p) e t \<Longrightarrow> processes_run F E s (es @ [(p, e)]) (s1(p := t))"

definition events_of :: "nat \<Rightarrow> (nat \<times> pool_event) list \<Rightarrow> pool_event list" where
  "events_of p es = map snd (filter (\<lambda>(q, _). q = p) es)"

lemma processes_run_one: "processes_run F E s es s' \<Longrightarrow> pool_run F E (s p) (events_of p es) (s' p)"
  by (induction rule: processes_run.induct) (auto simp: events_of_def intro: pool_run.intros)

lemma count_events_of: "count_list (events_of p es) e = count_list es (p, e)"
  by (induction es) (auto simp: events_of_def)

text \<open>C32: In every process, a static machine of the pool is never held twice at once - by two machine groups or
  two benchmarks of the process - nor in the pool twice or while it is held, whatever fails in between; and a
  process takes it at most twice: after the second time it does not come back to the pool of the process.  This
  is for each process by itself: processes that run benchmarks at once have each a copy of the pool, so that one
  machine may be held in several of them.\<close>

theorem pool_exclusive:
  assumes "processes_run F E (\<lambda>_. (m, [])) es s" and "fresh_pool (world m)" and "s p = (m', lent)"
  shows "distinct (vm_pool (world m') @ lent)
    \<and> (\<forall>i. count_list es (p, Took i) \<le> 2 \<and> (count_list es (p, Took i) = 2 \<longrightarrow> i \<notin> set (vm_pool (world m'))))"
proof -
  have "pool_run F E (m, []) (events_of p es) (m', lent)"
    using processes_run_one [OF assms(1), of p] assms(3) by simp
  then have inv: "pool_inv (events_of p es) (m', lent)"
    using pool_run_inv [OF _ refl assms(2)] by blast
  moreover have "i \<notin> set (vm_pool (world m'))" if "count_list (events_of p es) (Took i) = 2" for i
    using inv that by (auto simp: waiting_def)
  ultimately show ?thesis by (simp flip: count_events_of)
qed

text \<open>Two processes hold the first machine of the pool at once.\<close>

lemma lent_in_two_processes:
  assumes "env_keeps_time E" and "0 \<le> default_timeout F" and "sane m"
    and "vm_pool (world m) = i # rest" and "\<not> user_managed (life (objects (world m) i))"
  shows "\<exists>s. processes_run F E (\<lambda>_. (m, [])) [(0, Took i), (1, Took i)] s \<and> i \<in> set (snd (s 0)) \<and> i \<in> set (snd (s 1))"
proof -
  obtain m' where "GetStaticVirtualMachine F E m = Some (Inr (Some i), m')" using take_returns [OF assms] by blast
  then have took: "pool_step F E (m, []) (Took i) (m', [i])" by (rule pool_step.took)
  have "processes_run F E (\<lambda>_. (m, [])) ([] @ [(0, Took i)]) ((\<lambda>_. (m, []))(0 := (m', [i])))"
    by (intro processes_run.intros took)
  then have "processes_run F E (\<lambda>_. (m, [])) (([] @ [(0, Took i)]) @ [(1, Took i)]) ((\<lambda>_. (m, []))(0 := (m', [i]), 1 := (m', [i])))"
    by (rule processes_run.step) (simp add: took)
  then show ?thesis by (intro exI [of _ "(\<lambda>_. (m, []))(0 := (m', [i]), 1 := (m', [i]))"]) simp
qed

text \<open>One machine, and three benchmarks that want it one after the other: the third finds the pool empty,
  although the first two have given the machine back.\<close>

definition calm_env :: "unit vm_env" where
  "calm_env = \<lparr>LogVmDebugInfo = (\<lambda>_. ret ()), remote_metadata = (\<lambda>_ _. ret []), PackageCleanup = (\<lambda>_. ret ())\<rparr>"

definition lax_specs :: spec_env where
  "lax_specs = \<lparr>check_spec = (\<lambda>_. Inr ()), find_vm_class = (\<lambda>_. Inr ()), str_of_value = (\<lambda>_. '''')\<rparr>"

definition empty_world :: "unit vm_world" where
  "empty_world = \<lparr>vm_pool = [], objects = (\<lambda>_. new_static_vm lax_specs [] [] VNone 0), object_count = 0,
     instance_counter = 0, outside = ()\<rparr>"

definition one_machine :: "unit vm_world" where
  "one_machine = snd (ReadStaticVirtualMachineFile lax_specs ''ubuntu2404'' (JsonArray
     [[(''ip_address'', VStr ''10.10.10.2''), (''user_name'', VStr ''ubuntu''), (''keyfile_path'', VStr ''key'')]])
     empty_world)"

definition one_machine_mach :: "unit vm_world mach" where
  "one_machine_mach = \<lparr>now = 1, lags = (\<lambda>_. 0), draws = (\<lambda>_. 0), world = one_machine\<rparr>"

lemma required_linux: "required_keys ''ubuntu2404'' = [''ip_address'', ''user_name'', ''keyfile_path'']"
  by (simp add: required_keys_def os_types_defs)

lemma one_machine_state:
  "vm_pool one_machine = [0]" "waiting 0 (objects one_machine 0)" "fresh_pool one_machine"
  by (simp_all add: one_machine_def empty_world_def ReadStaticVirtualMachineFile_def spec_of_item_def
      VerifyItemFormat_def required_linux optional_keys_def list_of_def lax_specs_def get_or_def WINDOWS_def
      GetStaticVmClass_def DEFAULT_OS_TYPE_def new_object_def new_static_vm_def new_resource_def waiting_def
      fresh_pool_def Let_def)

lemma on_outside_ret [simp]: "on_outside (ret x) = ret x"
  by (simp add: on_outside_def ret_def fun_eq_iff)

lemma quiet_give:
  assumes "\<not> user_managed (life (objects (world m) i))"
  shows "wp (DeleteStaticVm F calm_env i) (\<lambda>_ _. True) (\<lambda>_ _. False) m"
proof -
  note delete = wp_mono [OF static_DeleteResource]
  show ?thesis
    using assms unfolding DeleteStaticVm_def from_world_def Delete_def Delete_steps_def GetResourceMetadata_def
    by (simp add: wp_simps wp_on_cloud wp_on_vm calm_env_def del: seqM.simps)
      (auto simp: wp_simps wp_on_cloud Let_def intro!: delete)
qed

lemma calm_env_time: "env_keeps_time calm_env" "0 \<le> default_timeout simple_flags"
  by (simp_all add: env_keeps_time_def calm_env_def simple_flags_def keeps_time_intros)

text \<open>A machine that waits is taken and given back in the quiet world.\<close>

lemma quiet_loan:
  assumes "sane m" and "vm_pool (world m) = [i]" and "waiting n (objects (world m) i)"
  obtains m' where "pool_run simple_flags calm_env (m, []) [Took i, Gave i] (m', [])" and "sane m'"
    and "vm_pool (world m') = (if n = 0 then [i] else [])" and "n = 0 \<Longrightarrow> waiting 1 (objects (world m') i)"
proof -
  have nu: "\<not> user_managed (life (objects (world m) i))" using assms(3) by (simp add: waiting_def)
  obtain m1 where m1: "GetStaticVirtualMachine simple_flags calm_env m = Some (Inr (Some i), m1)" "sane m1"
    using take_returns [OF calm_env_time assms(1,2) nu] by blast
  from wp_returnsD [OF take_spec [OF assms(2) nu] m1(1)]
  have 1: "vm_pool (world m1) = []" "from_pool (objects (world m1) i)" "created (life (objects (world m1) i))"
    "deleted (life (objects (world m1) i)) = deleted (life (objects (world m) i))"
    "\<not> user_managed (life (objects (world m1) i))"
    by auto
  obtain r m2 where m2: "DeleteStaticVm simple_flags calm_env i m1 = Some (r, m2)" "sane m2"
    using give_returns [OF calm_env_time m1(2)] by blast
  with quiet_give [OF 1(5), of simple_flags] have "DeleteStaticVm simple_flags calm_env i m1 = Some (Inr (), m2)"
    by (cases r) (auto simp: wp_def)
  note m2 = this m2(2)
  have "pool_run simple_flags calm_env (m, []) ([] @ [Took i] @ [Gave i]) (m2, [])"
    using pool_run.more [OF pool_run.more [OF pool_run.start pool_step.took [OF m1(1)]] pool_step.gave [of i "[i]", OF _ m2(1)]]
    by simp
  with wp_returnsD [OF give_spec [OF 1(5)] m2(1)] 1 assms(3) m2(2) show ?thesis
    by (intro that [of m2]) (auto simp: given_back_def waiting_def split: if_splits)
qed

lemma pool_run_append: "pool_run F E s1 es' s2 \<Longrightarrow> pool_run F E s es s1 \<Longrightarrow> pool_run F E s (es @ es') s2"
  by (induction rule: pool_run.induct) (auto intro: pool_run.intros simp flip: append_assoc)

lemma one_process: "pool_run F E (s p) es t \<Longrightarrow> processes_run F E s (map (\<lambda>e. (p, e)) es) (s(p := t))"
proof (induction rule: pool_run.induct)
  case (more es s1 e s2)
  have "(s(p := s1))(p := s2) = s(p := s2)" by simp
  with processes_run.step [OF more.IH, of p e s2] more.hyps(2) show ?case
    by (simp only: fun_upd_same list.map map_append)
qed (simp add: processes_run.forked)

theorem pool_exclusive_witness:
  "\<exists>s m'. processes_run simple_flags calm_env (\<lambda>_. (one_machine_mach, []))
       [(1, Took 0), (1, Gave 0), (1, Took 0), (1, Gave 0)] s \<and> s 1 = (m', [])
     \<and> vm_pool one_machine = [0] \<and> 0 \<notin> set (vm_pool (world m'))"
proof -
  have "sane one_machine_mach" "world one_machine_mach = one_machine"
    by (simp_all add: one_machine_mach_def sane_def)
  then obtain m1 where m1: "pool_run simple_flags calm_env (one_machine_mach, []) [Took 0, Gave 0] (m1, [])"
    "sane m1" "vm_pool (world m1) = [0]" "waiting 1 (objects (world m1) 0)"
    using quiet_loan [of one_machine_mach 0 0] one_machine_state by (metis (mono_tags))
  then obtain m2 where "pool_run simple_flags calm_env (m1, []) [Took 0, Gave 0] (m2, [])"
    using quiet_loan [of m1 0 1] by blast
  from pool_run_append [OF this m1(1)]
  have "pool_run simple_flags calm_env (one_machine_mach, []) [Took 0, Gave 0, Took 0, Gave 0] (m2, [])"
    by simp
  from one_process [of simple_flags calm_env "\<lambda>_. (one_machine_mach, [])" 1, OF this]
  have run: "processes_run simple_flags calm_env (\<lambda>_. (one_machine_mach, []))
      [(1, Took 0), (1, Gave 0), (1, Took 0), (1, Gave 0)] ((\<lambda>_. (one_machine_mach, []))(1 := (m2, [])))" by simp
  have fresh: "fresh_pool (world one_machine_mach)" using one_machine_state by (simp add: one_machine_mach_def)
  have "((\<lambda>_. (one_machine_mach, []))(1 := (m2, []))) 1 = (m2, [])" by simp
  from pool_exclusive [OF run fresh this] have "0 \<notin> set (vm_pool (world m2))" by simp
  with run one_machine_state(1) show ?thesis
    by (intro exI [of _ "(\<lambda>_. (one_machine_mach, []))(1 := (m2, []))"] exI [of _ m2]) simp
qed

text \<open>Every operating system that \<open>--os_type\<close> can name passes the check that is to keep Windows machines and
  Linux machines apart, unless the item says \<open>windows\<close>, which is refused always.\<close>

lemma windows_check_ineffective:
  assumes "flag_os_type \<in> set ALL_OS_TYPES"
  shows "(os = WINDOWS \<and> VStr flag_os_type \<noteq> WINDOWS) \<or> (os \<noteq> WINDOWS \<and> VStr flag_os_type = WINDOWS) \<longleftrightarrow> os = WINDOWS"
  using assms by (auto simp: WINDOWS_def os_types_defs)

end
