(* ===== verification/VmGroups.thy ===== *)
theory VmGroups
  imports StaticVms
begin

text \<open>
  \<open>perfkitbenchmarker/benchmark_spec.py\<close> again: how the virtual machines of a benchmark are constructed,
  from the static machines of its configuration, from the pool of \<open>StaticVms\<close>, and from classes of
  the cloud.  A managed group is made of one machine for each zone.  What a class of a provider does beyond
  the constructor of the base class, the support of a benchmark by a provider and the constructor of a
  managed group are parameters.  Operating systems that start with \<open>juju\<close> have their own branch in
  \<open>ConstructVirtualMachines\<close>, but no value of the option does; the branch is not modelled, nor is that for
  unmanaged data processing clusters.
\<close>

section \<open>Groups\<close>

record vm_spec =
  spec_zone :: "string option"
  spec_cidr :: "string option"
  spec_placement_group :: "string option"

text \<open>A static machine of the configuration: its tag, and the arguments of its constructor.\<close>

record static_vm_spec =
  vm_tag :: "string option"
  static_args :: metadata_dict
  static_disks :: "metadata_dict list"
  static_os_type :: pyval

record group_spec =
  vm_count :: nat
  static_vms :: "static_vm_spec list"
  managed :: bool
  group_os_type :: string
  group_cloud :: string
  group_vm_spec :: vm_spec
  disk_spec :: "metadata_dict option"
  disk_count :: "int option"
  placement_group_name :: "string option"
  group_cidr :: "string option"

datatype compatibility = Supported | NotExcluded | SkipCheck

text \<open>
  The flags and the parameters.  A class is looked up by cloud and operating system; \<open>construct\<close> makes a
  machine of it with its number, and may refuse.  \<open>build_managed\<close> is the constructor of a managed group.
\<close>

record 'c build_env =
  statics :: spec_env
  static_vm_tags :: "string list option"
  zone_flag :: "string list"
  compatibility_checking :: compatibility
  IsBenchmarkSupported :: "string \<Rightarrow> bool option"
  GetVmClass :: "string \<Rightarrow> string \<Rightarrow> exn + 'c option"
  construct :: "'c \<Rightarrow> vm_spec \<Rightarrow> int \<Rightarrow> exn + vm"
  placement_groups :: "string list"
  enforce_mount_point :: bool
  scratch_dir :: pyval
  build_managed :: "string \<Rightarrow> nat list \<Rightarrow> exn + unit"

text \<open>\<open>_CheckBenchmarkSupport\<close>\<close>

definition CheckBenchmarkSupport :: "'c build_env \<Rightarrow> string \<Rightarrow> exn + unit" where
  "CheckBenchmarkSupport B provider =
     (if compatibility_checking B = SkipCheck then Inr ()
      else let benchmark_ok = IsBenchmarkSupported B provider;
               benchmark_ok = (if compatibility_checking B = NotExcluded \<and> benchmark_ok = None then Some True else benchmark_ok)
           in if benchmark_ok = Some True then Inr ()
              else Inl (value_error (''Provider '' @ provider @ '' does not support the benchmark.''
                @ ''  Use --benchmark_compatibility_checking=none to override this check.'')))"

section \<open>One machine\<close>

text \<open>A new object, and its number\<close>

definition add_object :: "(int \<Rightarrow> exn + vm) \<Rightarrow> ('r, nat) vm_act" where
  "add_object mk = bindM (from_world (\<lambda>w. (object_count w, instance_counter w))) (\<lambda>(i, n).
     bindM (lift (mk n)) (\<lambda>v. thenM (in_world (new_object (\<lambda>_. v))) (ret i)))"

definition no_vm_class :: "string \<Rightarrow> string \<Rightarrow> exn" where
  "no_vm_class os provider = exn Error
     (''VMs of type '' @ os @ ''\" are not currently supported on cloud \"'' @ provider @ ''\".'')"

definition CreateVirtualMachine ::
  "resource_flags \<Rightarrow> 'r vm_env \<Rightarrow> 'c build_env \<Rightarrow> vm_spec \<Rightarrow> string \<Rightarrow> string \<Rightarrow> ('r, nat) vm_act" where
  "CreateVirtualMachine F E B spec os provider =
     bindM (GetStaticVirtualMachine F E) (\<lambda>pooled. case pooled of
       Some i \<Rightarrow> ret i
     | None \<Rightarrow> bindM (lift (GetVmClass B provider os)) (\<lambda>found. case found of
         None \<Rightarrow> raise (no_vm_class os provider)
       | Some c \<Rightarrow> add_object (construct B c spec)))"

text \<open>\<open>SetDiskSpec\<close>: without a count, all local disks; several disks get different mount points.\<close>

definition LOCAL :: pyval where "LOCAL = VStr ''local''"

definition numbered_disk :: "metadata_dict \<Rightarrow> nat \<Rightarrow> metadata_dict" where
  "numbered_disk d k = (case map_of d ''mount_point'' of
     Some (VStr p) \<Rightarrow> if p = [] then d else dict_set d ''mount_point'' (VStr (p @ str_of_nat k))
   | _ \<Rightarrow> d)"

definition disk_copies :: "metadata_dict \<Rightarrow> int option \<Rightarrow> int \<Rightarrow> exn + metadata_dict list" where
  "disk_copies d count local_count =
     (case (if map_of d ''disk_type'' = Some LOCAL \<and> count = None then Some local_count else count) of
        None \<Rightarrow> Inl (exn (Builtin TypeError) ''NoneType object cannot be interpreted as an integer'')
      | Some n \<Rightarrow> Inr (if n > 1 then map (numbered_disk d) [0..<nat n] else replicate (nat n) d))"

definition SetDiskSpec :: "nat \<Rightarrow> metadata_dict \<Rightarrow> int option \<Rightarrow> ('r, unit) vm_act" where
  "SetDiskSpec i d count = bindM (from_world (\<lambda>w. max_local_disks (objects w i))) (\<lambda>local_count.
     bindM (lift (disk_copies d count local_count)) (\<lambda>ds.
       in_world (set_object i (\<lambda>v. v\<lparr>disk_kwargs := ds\<rparr>))))"

section \<open>One group\<close>

definition next_zone_index :: "string list \<Rightarrow> nat \<Rightarrow> nat" where
  "next_zone_index zones z = (if z < length zones - 1 then z + 1 else 0)"

text \<open>The spec that the machine at index \<open>z\<close> of the zones is made of\<close>

definition zoned_spec :: "'c build_env \<Rightarrow> group_spec \<Rightarrow> nat \<Rightarrow> vm_spec" where
  "zoned_spec B g z = (let s = group_vm_spec g;
       s = (case placement_group_name g of None \<Rightarrow> s | Some p \<Rightarrow> s\<lparr>spec_placement_group := Some p\<rparr>);
       s = (if zone_flag B = [] then s else s\<lparr>spec_zone := Some (zone_flag B ! z)\<rparr>)
     in case group_cidr g of None \<Rightarrow> s | Some c \<Rightarrow> s\<lparr>spec_cidr := Some c\<rparr>)"

definition mount_point_of :: "'c build_env \<Rightarrow> metadata_dict \<Rightarrow> metadata_dict" where
  "mount_point_of B d = (if enforce_mount_point B then dict_set d ''mount_point'' (scratch_dir B) else d)"

definition finish_vm :: "'c build_env \<Rightarrow> string \<Rightarrow> group_spec \<Rightarrow> nat \<Rightarrow> ('r, unit) vm_act" where
  "finish_vm B name g i = thenM (in_world (set_object i (\<lambda>v. v\<lparr>vm_group := Some name\<rparr>)))
     (bindM (from_world (\<lambda>w. is_static (objects w i))) (\<lambda>static. case disk_spec g of
         None \<Rightarrow> ret ()
       | Some d \<Rightarrow> whenM (\<not> static) (SetDiskSpec i (mount_point_of B d) (disk_count g))))"

definition one_vm ::
  "resource_flags \<Rightarrow> 'r vm_env \<Rightarrow> 'c build_env \<Rightarrow> string \<Rightarrow> group_spec \<Rightarrow> nat \<Rightarrow> ('r, nat) vm_act" where
  "one_vm F E B name g z =
     bindM (CreateVirtualMachine F E B (zoned_spec B g z) (group_os_type g) (group_cloud g))
       (\<lambda>i. thenM (finish_vm B name g i) (ret i))"

text \<open>The loop over the remaining machines, with the index of the zones; it gives the new index.\<close>

fun remaining_vms ::
  "resource_flags \<Rightarrow> 'r vm_env \<Rightarrow> 'c build_env \<Rightarrow> string \<Rightarrow> group_spec \<Rightarrow> nat \<Rightarrow> nat \<Rightarrow> ('r, nat list \<times> nat) vm_act" where
  "remaining_vms F E B name g 0 z = ret ([], z)"
| "remaining_vms F E B name g (Suc n) z =
     bindM (one_vm F E B name g z) (\<lambda>i.
     bindM (remaining_vms F E B name g n (if zone_flag B = [] then z else next_zone_index (zone_flag B) z))
       (\<lambda>(vms, z'). ret (i # vms, z')))"

definition chosen_statics :: "'c build_env \<Rightarrow> group_spec \<Rightarrow> static_vm_spec list" where
  "chosen_statics B g = take (vm_count g)
     (filter (\<lambda>s. case static_vm_tags B of None \<Rightarrow> True
        | Some tags \<Rightarrow> (case vm_tag s of None \<Rightarrow> False | Some t \<Rightarrow> t \<in> set tags)) (static_vms g))"

definition construct_static :: "'c build_env \<Rightarrow> static_vm_spec \<Rightarrow> ('r, nat) vm_act" where
  "construct_static B s =
     bindM (lift (GetStaticVmClass (statics B) (static_os_type s))) (\<lambda>os.
       add_object (\<lambda>n. Inr (new_static_vm (statics B) (static_args s) (static_disks s) os n)))"

definition managed_vm ::
  "resource_flags \<Rightarrow> 'r vm_env \<Rightarrow> 'c build_env \<Rightarrow> group_spec \<Rightarrow> string option \<Rightarrow> ('r, nat) vm_act" where
  "managed_vm F E B g zn =
     bindM (CreateVirtualMachine F E B ((group_vm_spec g)\<lparr>spec_zone := zn\<rparr>) (group_os_type g) (group_cloud g)) (\<lambda>i.
       thenM (in_world (set_object i (\<lambda>v. v\<lparr>zone := (case zn of None \<Rightarrow> VNone | Some s \<Rightarrow> VStr s)\<rparr>))) (ret i))"

text \<open>The group's machines and the new index of the zones; a managed group has none yet.\<close>

definition ConstructVirtualMachineGroup ::
  "resource_flags \<Rightarrow> 'r vm_env \<Rightarrow> 'c build_env \<Rightarrow> string \<Rightarrow> group_spec \<Rightarrow> nat \<Rightarrow> ('r, nat list \<times> nat) vm_act" where
  "ConstructVirtualMachineGroup F E B name g z =
     (if static_vms g \<noteq> [] \<and> managed g then raise (exn (Builtin AssertionError) []) else
      bindM (mapPy (construct_static B) (chosen_statics B g)) (\<lambda>fixed_vms.
      thenM (lift (CheckBenchmarkSupport B (group_cloud g)))
        (if managed g then
           bindM (mapPy (managed_vm F E B g)
             (if zone_flag B = [] then [spec_zone (group_vm_spec g)] else map Some (zone_flag B))) (\<lambda>vm_configs.
           thenM (lift (build_managed B name vm_configs)) (ret ([], z)))
         else
           thenM (lift (case placement_group_name g of None \<Rightarrow> Inr ()
               | Some p \<Rightarrow> if p \<in> set (placement_groups B) then Inr () else Inl (missing_key p)))
           (bindM (remaining_vms F E B name g (vm_count g - length fixed_vms) z) (\<lambda>(vms, z').
             ret (fixed_vms @ vms, z'))))))"

section \<open>All groups\<close>

text \<open>\<open>ConstructVirtualMachines\<close>: the groups in the order of their names; \<open>unmanaged_vm_groups\<close> is the result.\<close>

fun construct_groups ::
  "resource_flags \<Rightarrow> 'r vm_env \<Rightarrow> 'c build_env \<Rightarrow> (string \<times> group_spec) list \<Rightarrow> nat
    \<Rightarrow> ('r, (string \<times> nat list) list) vm_act" where
  "construct_groups F E B [] z = ret []"
| "construct_groups F E B ((name, g) # gs) z =
     bindM (ConstructVirtualMachineGroup F E B name g z) (\<lambda>(vms, z').
     bindM (construct_groups F E B gs z') (\<lambda>rest. ret ((name, vms) # rest)))"

definition ConstructVirtualMachines ::
  "resource_flags \<Rightarrow> 'r vm_env \<Rightarrow> 'c build_env \<Rightarrow> (string \<times> group_spec) list \<Rightarrow> ('r, (string \<times> nat list) list) vm_act"
where
  "ConstructVirtualMachines F E B vms_to_boot = construct_groups F E B (sort_key fst vms_to_boot) 0"

section \<open>What a group is made of\<close>

lemma wp_from_world [wp_simps]: "wp (from_world f) Q E m = Q (f (world m)) m"
  by (simp add: from_world_def wp_getM)

lemma wp_in_world [wp_simps]: "wp (in_world f) Q E m = Q () (m\<lparr>world := f (world m)\<rparr>)"
  by (simp add: in_world_def wp_modifyM)

text \<open>Nothing but the object \<open>i\<close> changes.\<close>

definition touches :: "nat \<Rightarrow> 'r vm_world \<Rightarrow> 'r vm_world \<Rightarrow> bool" where
  "touches i w w' = (vm_pool w' = vm_pool w \<and> object_count w' = object_count w
     \<and> (\<exists>v. objects w' = (objects w)(i := v) \<and> life v = life (objects w i) \<and> zone v = zone (objects w i)))"

lemma SetDiskSpec_touches: "wp (SetDiskSpec i d n) (\<lambda>_ k. touches i (world m) (world k)) (\<lambda>_ _. True) m"
  unfolding SetDiskSpec_def
  by (auto simp: wp_simps set_object_def touches_def split: sum.split)

lemma touches_trans: "touches i w w' \<Longrightarrow> touches i w' w'' \<Longrightarrow> touches i w w''"
  by (fastforce simp: touches_def)

lemma finish_vm_touches:
  "wp (finish_vm B name g i) (\<lambda>_ k. touches i (world m) (world k)) (\<lambda>_ _. True) m"
proof -
  let ?m = "m\<lparr>world := set_object i (\<lambda>v. v\<lparr>vm_group := Some name\<rparr>) (world m)\<rparr>"
  have t: "touches i (world m) (world ?m)"
    by (auto simp: touches_def set_object_def)
  have "wp (SetDiskSpec i d n) (\<lambda>_ k. touches i (world m) (world k)) (\<lambda>_ _. True) ?m" for d n
    by (rule wp_mono [OF SetDiskSpec_touches]) (use t touches_trans in auto)
  with t show ?thesis
    by (cases "disk_spec g") (simp_all add: finish_vm_def wp_simps)
qed

lemma one_vm_pooled:
  assumes "vm_pool (world m) = i # rest" and "\<not> user_managed (life (objects (world m) i))"
  shows "wp (one_vm F E B name g z)
     (\<lambda>r k. r = i \<and> vm_pool (world k) = rest \<and> object_count (world k) = object_count (world m)
        \<and> (\<exists>v. objects (world k) = (objects (world m))(i := v))) (\<lambda>_ _. True) m"
  unfolding one_vm_def CreateVirtualMachine_def wp_bindM
  by (rule wp_mono [OF take_spec [OF assms]])
    (auto simp: wp_simps touches_def intro!: wp_mono [OF finish_vm_touches])

lemma one_vm_new:
  assumes "vm_pool (world m) = []"
  shows "wp (one_vm F E B name g z)
     (\<lambda>r k. r = object_count (world m) \<and> vm_pool (world k) = [] \<and> object_count (world k) = object_count (world m) + 1
        \<and> (\<exists>v. objects (world k) = (objects (world m))(object_count (world m) := v))
        \<and> (\<exists>c n v0. construct B c (zoned_spec B g z) n = Inr v0
            \<and> zone (objects (world k) (object_count (world m))) = zone v0)) (\<lambda>_ _. True) m"
proof -
  have make: "wp (add_object mk) (\<lambda>r k. r = object_count (world m) \<and> vm_pool (world k) = []
        \<and> object_count (world k) = object_count (world m) + 1
        \<and> (\<exists>n v0. mk n = Inr v0 \<and> objects (world k) = (objects (world m))(object_count (world m) := v0))) (\<lambda>_ _. True) m" for mk
    using assms by (auto simp: add_object_def wp_simps new_object_def split: sum.split)
  have pool: "wp (GetStaticVirtualMachine F E) Q R m = Q None m" for Q R
    using take_empty [OF assms] by (simp add: wp_def)
  show ?thesis
    unfolding one_vm_def CreateVirtualMachine_def wp_bindM pool
    by (auto simp: wp_simps touches_def intro!: wp_mono [OF make] wp_mono [OF finish_vm_touches]
        split: sum.split option.split) blast+
qed

text \<open>The machines of the pool that a group may take: different objects that the benchmarks manage.\<close>

definition pool_ready :: "'r vm_world \<Rightarrow> bool" where
  "pool_ready w = (distinct (vm_pool w)
     \<and> list_all (\<lambda>i. i < object_count w \<and> \<not> user_managed (life (objects w i))) (vm_pool w))"

text \<open>The zone flag, counted on from the index \<open>z\<close>\<close>

definition zone_index_after :: "string list \<Rightarrow> nat \<Rightarrow> nat \<Rightarrow> nat" where
  "zone_index_after zones z n = (if zones = [] then z else (z + n) mod length zones)"

lemma next_zone_index_mod: "z < length zones \<Longrightarrow> next_zone_index zones z = (z + 1) mod length zones"
  by (auto simp: next_zone_index_def mod_if)

lemma next_zone_index_less: "z < length zones \<Longrightarrow> next_zone_index zones z < length zones"
  by (auto simp: next_zone_index_def)

text \<open>Constructors keep the zone of the spec, as \<open>BaseVirtualMachine.__init__\<close> does.\<close>

definition keeps_zone :: "'c build_env \<Rightarrow> bool" where
  "keeps_zone B = (\<forall>c s n v. construct B c s n = Inr v \<longrightarrow> zone v = (case spec_zone s of None \<Rightarrow> VNone | Some x \<Rightarrow> VStr x))"

definition zone_of_slot :: "'c build_env \<Rightarrow> group_spec \<Rightarrow> nat \<Rightarrow> pyval" where
  "zone_of_slot B g z = (if zone_flag B = []
     then (case spec_zone (group_vm_spec g) of None \<Rightarrow> VNone | Some x \<Rightarrow> VStr x)
     else VStr (zone_flag B ! (z mod length (zone_flag B))))"

lemma zoned_spec_zone:
  "zone_flag B = [] \<or> z < length (zone_flag B) \<Longrightarrow>
     (case spec_zone (zoned_spec B g z) of None \<Rightarrow> VNone | Some x \<Rightarrow> VStr x) = zone_of_slot B g z"
  by (auto simp: zoned_spec_def zone_of_slot_def Let_def split: option.splits)

lemma zone_of_slot_next: "zone_of_slot B g (next_zone_index (zone_flag B) z + k) = zone_of_slot B g (z + Suc k)"
  if "z < length (zone_flag B)"
  using that by (simp add: zone_of_slot_def next_zone_index_mod mod_simps)

text \<open>The machines that the loop makes of the pool and of new objects.\<close>

definition made_of :: "'c build_env \<Rightarrow> group_spec \<Rightarrow> nat \<Rightarrow> nat \<Rightarrow> 'r vm_world \<Rightarrow> nat list \<Rightarrow> 'r vm_world \<Rightarrow> bool" where
  "made_of B g n z w vms w' =
     (let p = length (vm_pool w); new = n - p in
      vms = take n (vm_pool w) @ [object_count w ..< object_count w + new]
      \<and> vm_pool w' = drop n (vm_pool w) \<and> object_count w' = object_count w + new
      \<and> (\<forall>k < new. zone (objects w' (object_count w + k)) = zone_of_slot B g (z + p + k))
      \<and> (\<forall>i < object_count w. i \<notin> set (take n (vm_pool w)) \<longrightarrow> objects w' i = objects w i))"

lemma remaining_vms_made:
  fixes E :: "'r vm_env"
  assumes "pool_ready (world m)" and "keeps_zone B" and "zone_flag B = [] \<or> z < length (zone_flag B)"
  shows "wp (remaining_vms F E B name g n z)
     (\<lambda>(vms, z') k. made_of B g n z (world m) vms (world k) \<and> z' = zone_index_after (zone_flag B) z n) (\<lambda>_ _. True) m"
  using assms
proof (induction n arbitrary: z m)
  case 0
  then show ?case by (auto simp: wp_simps made_of_def zone_index_after_def)
next
  case (Suc n)
  let ?z = "if zone_flag B = [] then z else next_zone_index (zone_flag B) z"
  have z: "zone_flag B = [] \<or> ?z < length (zone_flag B)"
    and after: "zone_index_after (zone_flag B) ?z n = zone_index_after (zone_flag B) z (Suc n)"
    and slot: "zone_of_slot B g (?z + k) = zone_of_slot B g (z + Suc k)" for k
    using Suc.prems(3) by (auto simp: next_zone_index_less zone_index_after_def next_zone_index_mod mod_simps
        zone_of_slot_next zone_of_slot_def)
  have rest: "wp (bindM (remaining_vms F E B name g n ?z) (\<lambda>(vms, z'). ret (i # vms, z')))
      (\<lambda>(vms, z') k. made_of B g (Suc n) z (world m) vms (world k) \<and> z' = zone_index_after (zone_flag B) z (Suc n))
      (\<lambda>_ _. True) l"
    if "pool_ready (world l)" and "\<And>vms w. made_of B g n ?z (world l) vms w \<Longrightarrow> made_of B g (Suc n) z (world m) (i # vms) w"
    for i l
    unfolding wp_bindM
    by (rule wp_mono [OF Suc.IH [OF that(1) Suc.prems(2) z]]) (auto simp: wp_simps after that(2))
  show ?case
  proof (cases "vm_pool (world m)")
    case (Cons i pool)
    then have "\<not> user_managed (life (objects (world m) i))" and i: "i < object_count (world m)" "i \<notin> set pool"
      using Suc.prems(1) by (auto simp: pool_ready_def)
    from one_vm_pooled [OF Cons this(1)] show ?thesis
      unfolding remaining_vms.simps wp_bindM [of "one_vm F E B name g z"]
    proof (rule wp_mono)
      fix r and l :: "'r vm_world mach"
      assume l: "r = i \<and> vm_pool (world l) = pool \<and> object_count (world l) = object_count (world m)
        \<and> (\<exists>v. objects (world l) = (objects (world m))(i := v))"
      have "pool_ready (world l)"
        using Suc.prems(1) Cons l i by (auto simp: pool_ready_def list_all_iff split: if_splits)
      moreover have "made_of B g (Suc n) z (world m) (i # vms) w" if "made_of B g n ?z (world l) vms w" for vms w
        using that l Cons i by (auto simp: made_of_def Let_def slot add.assoc)
      ultimately show "wp (bindM (remaining_vms F E B name g n ?z) (\<lambda>(vms, z'). ret (r # vms, z')))
          (\<lambda>(vms, z') k. made_of B g (Suc n) z (world m) vms (world k) \<and> z' = zone_index_after (zone_flag B) z (Suc n))
          (\<lambda>_ _. True) l"
        using l by (intro rest) auto
    qed simp
  next
    case Nil
    from one_vm_new [OF Nil] show ?thesis
      unfolding remaining_vms.simps wp_bindM [of "one_vm F E B name g z"]
    proof (rule wp_mono)
      fix r and l :: "'r vm_world mach"
      assume l: "r = object_count (world m) \<and> vm_pool (world l) = [] \<and> object_count (world l) = object_count (world m) + 1
        \<and> (\<exists>v. objects (world l) = (objects (world m))(object_count (world m) := v))
        \<and> (\<exists>c n v0. construct B c (zoned_spec B g z) n = Inr v0
            \<and> zone (objects (world l) (object_count (world m))) = zone v0)"
      then have zone: "zone (objects (world l) (object_count (world m))) = zone_of_slot B g z"
        using Suc.prems(2,3) by (auto simp: keeps_zone_def zoned_spec_zone)
      have "pool_ready (world l)"
        using l by (simp add: pool_ready_def)
      moreover have "made_of B g (Suc n) z (world m) (r # vms) w" if "made_of B g n ?z (world l) vms w" for vms w
      proof -
        have "zone (objects w (object_count (world m) + k)) = zone_of_slot B g (z + k)" if "k < Suc n" for k
          using that \<open>made_of B g n ?z (world l) vms w\<close> l zone Nil
          by (cases k) (auto simp: made_of_def slot)
        then show ?thesis
          using that l Nil by (auto simp: made_of_def upt_conv_Cons)
      qed
      ultimately show "wp (bindM (remaining_vms F E B name g n ?z) (\<lambda>(vms, z'). ret (r # vms, z')))
          (\<lambda>(vms, z') k. made_of B g (Suc n) z (world m) vms (world k) \<and> z' = zone_index_after (zone_flag B) z (Suc n))
          (\<lambda>_ _. True) l"
        by (rule rest)
    qed simp
  qed
qed

lemma constructed_statics:
  "wp (mapPy (construct_static B) ss)
     (\<lambda>vms k. vms = [object_count (world m) ..< object_count (world m) + length ss]
        \<and> vm_pool (world k) = vm_pool (world m) \<and> object_count (world k) = object_count (world m) + length ss
        \<and> (\<forall>i < object_count (world m). objects (world k) i = objects (world m) i)) (\<lambda>_ _. True) m"
proof (induction ss arbitrary: m)
  case (Cons s ss)
  have one: "wp (construct_static B s)
     (\<lambda>i k. i = object_count (world m) \<and> vm_pool (world k) = vm_pool (world m)
        \<and> object_count (world k) = object_count (world m) + 1
        \<and> (\<forall>j < object_count (world m). objects (world k) j = objects (world m) j)) (\<lambda>_ _. True) m"
    by (auto simp: construct_static_def add_object_def wp_simps new_object_def split: sum.split)
  have upt: "[object_count (world m) ..< object_count (world m) + length (s # ss)]
      = object_count (world m) # [Suc (object_count (world m)) ..< Suc (object_count (world m)) + length ss]"
    by (simp add: upt_conv_Cons del: upt_Suc)
  show ?case
    unfolding mapPy.simps wp_bindM [of "construct_static B s"]
  proof (rule wp_mono [OF one])
    fix i and l :: "'a vm_world mach"
    assume l: "i = object_count (world m) \<and> vm_pool (world l) = vm_pool (world m)
        \<and> object_count (world l) = object_count (world m) + 1
        \<and> (\<forall>j < object_count (world m). objects (world l) j = objects (world m) j)"
    show "wp (bindM (mapPy (construct_static B) ss) (\<lambda>ys. ret (i # ys)))
      (\<lambda>vms k. vms = [object_count (world m) ..< object_count (world m) + length (s # ss)]
        \<and> vm_pool (world k) = vm_pool (world m) \<and> object_count (world k) = object_count (world m) + length (s # ss)
        \<and> (\<forall>i < object_count (world m). objects (world k) i = objects (world m) i)) (\<lambda>_ _. True) l"
      unfolding wp_bindM upt
      by (rule wp_mono [OF Cons.IH]) (use l in \<open>auto simp: wp_ret\<close>)
  qed simp
qed (simp add: wp_simps)

text \<open>C33: The machines of a group that is not managed: first the static machines of the configuration that
  the tags allow, then machines from the pool in its order, then new machines of the cloud, as many as the
  group has; the machines that are not static in the configuration get the zones of the flag in turn, from
  the index that the groups before have reached.\<close>

theorem group_machines:
  fixes E :: "'r vm_env"
  assumes "pool_ready (world m)" and "keeps_zone B" and "zone_flag B = [] \<or> z < length (zone_flag B)"
    and "\<not> managed g"
    and "ConstructVirtualMachineGroup F E B name g z m = Some (Inr (vms, z'), m')"
  shows "let s = length (chosen_statics B g); n = vm_count g - s; p = length (vm_pool (world m));
      first_new = object_count (world m) + s
    in length vms = vm_count g
      \<and> vms = [object_count (world m) ..< first_new] @ take n (vm_pool (world m)) @ [first_new ..< first_new + (n - p)]
      \<and> vm_pool (world m') = drop n (vm_pool (world m)) \<and> distinct vms
      \<and> z' = zone_index_after (zone_flag B) z n
      \<and> (\<forall>k < n - p. zone (objects (world m') (first_new + k)) = zone_of_slot B g (z + p + k))"
proof -
  let ?ss = "chosen_statics B g" and ?w = "world m"
  let ?n = "vm_count g - length ?ss" and ?o = "object_count (world m) + length (chosen_statics B g)"
  define Q where "Q = (\<lambda>(vms, z') (k :: 'r vm_world mach).
      vms = [object_count ?w ..< ?o] @ take ?n (vm_pool ?w) @ [?o ..< ?o + (?n - length (vm_pool ?w))]
      \<and> vm_pool (world k) = drop ?n (vm_pool ?w) \<and> z' = zone_index_after (zone_flag B) z ?n
      \<and> (\<forall>j < ?n - length (vm_pool ?w). zone (objects (world k) (?o + j)) = zone_of_slot B g (z + length (vm_pool ?w) + j)))"
  have rest: "wp (bindM (remaining_vms F E B name g (vm_count g - length fixed_vms) z)
      (\<lambda>(vms, z'). ret (fixed_vms @ vms, z'))) Q (\<lambda>_ _. True) l"
    if l: "fixed_vms = [object_count ?w ..< ?o] \<and> vm_pool (world l) = vm_pool ?w \<and> object_count (world l) = ?o
      \<and> (\<forall>i < object_count ?w. objects (world l) i = objects ?w i)"
    for fixed_vms and l :: "'r vm_world mach"
  proof -
    have "pool_ready (world l)"
      using assms(1) l by (auto simp: pool_ready_def list_all_iff)
    from remaining_vms_made [OF this assms(2,3)] show ?thesis
      unfolding wp_bindM by (rule wp_mono) (use l in \<open>auto simp: wp_ret made_of_def Let_def Q_def\<close>)
  qed
  have "wp (ConstructVirtualMachineGroup F E B name g z) Q (\<lambda>_ _. True) m"
    using assms(4) unfolding ConstructVirtualMachineGroup_def wp_if wp_bindM [of "mapPy _ _"]
    apply (simp only: simp_thms if_False)
    apply (rule wp_mono [OF constructed_statics])
    subgoal for fixed_vms l
      using rest [of fixed_vms l] by (simp add: wp_thenM wp_lift split: sum.split option.split)
    by simp
  from wp_returnsD [OF this assms(5)] have q: "Q (vms, z') m'" .
  note q = q [unfolded Q_def split_conv]
  have count: "length ?ss \<le> vm_count g"
    by (simp add: chosen_statics_def)
  have below: "i < object_count ?w" if "i \<in> set (take ?n (vm_pool ?w))" for i
    using assms(1) that by (auto simp: pool_ready_def list_all_iff dest: in_set_takeD)
  have "distinct (take ?n (vm_pool ?w))"
    using assms(1) by (simp add: pool_ready_def)
  then have "distinct vms"
    using q by (auto dest!: below)
  with q count show ?thesis
    by (simp add: Let_def min_def)
qed

definition two_zones :: "unit build_env" where
  "two_zones = \<lparr>statics = lax_specs, static_vm_tags = None, zone_flag = [''a'', ''b''],
     compatibility_checking = Supported, IsBenchmarkSupported = (\<lambda>_. Some True), GetVmClass = (\<lambda>_ _. Inr (Some ())),
     construct = (\<lambda>_ s n. Inr ((new_static_vm lax_specs [] [] VNone n)\<lparr>is_static := False,
       zone := (case spec_zone s of None \<Rightarrow> VNone | Some x \<Rightarrow> VStr x)\<rparr>)),
     placement_groups = [], enforce_mount_point = False, scratch_dir = VNone, build_managed = (\<lambda>_ _. Inr ())\<rparr>"

definition two_vms :: group_spec where
  "two_vms = \<lparr>vm_count = 2, static_vms = [], managed = False, group_os_type = ''ubuntu2404'', group_cloud = ''GCP'',
     group_vm_spec = \<lparr>spec_zone = None, spec_cidr = None, spec_placement_group = None\<rparr>, disk_spec = None,
     disk_count = None, placement_group_name = None, group_cidr = None\<rparr>"

lemma one_machine_count: "object_count one_machine = 1"
  by (simp add: one_machine_def empty_world_def ReadStaticVirtualMachineFile_def spec_of_item_def
      VerifyItemFormat_def required_linux optional_keys_def list_of_def lax_specs_def get_or_def WINDOWS_def
      GetStaticVmClass_def DEFAULT_OS_TYPE_def new_object_def Let_def)

theorem group_machines_witness:
  "\<exists>z' m'. ConstructVirtualMachineGroup simple_flags calm_env two_zones ''default'' two_vms 0 one_machine_mach
      = Some (Inr ([0, 1], z'), m')
    \<and> vm_pool (world m') = [] \<and> z' = 0 \<and> zone (objects (world m') 1) = VStr ''b''"
proof -
  have m: "world one_machine_mach = one_machine" "sane one_machine_mach"
    by (simp_all add: one_machine_mach_def sane_def)
  have nu: "\<not> user_managed (life (objects one_machine 0))"
    using one_machine_state(2) by (simp add: waiting_def)
  obtain m1 where m1: "GetStaticVirtualMachine simple_flags calm_env one_machine_mach = Some (Inr (Some 0), m1)"
    using take_returns [OF calm_env_time m(2), of 0 "[]"] one_machine_state(1) nu m(1) by metis
  from wp_returnsD [OF take_spec [of one_machine_mach 0 "[]"] m1] have pool: "vm_pool (world m1) = []"
    "object_count (world m1) = 1"
    using one_machine_state(1) nu m(1) one_machine_count by auto
  have "\<exists>vms z' m'. ConstructVirtualMachineGroup simple_flags calm_env two_zones ''default'' two_vms 0 one_machine_mach
      = Some (Inr (vms, z'), m')"
    by (simp add: ConstructVirtualMachineGroup_def two_vms_def two_zones_def chosen_statics_def CheckBenchmarkSupport_def
        lift_def run_at one_vm_def CreateVirtualMachine_def m1 finish_vm_def in_world_def from_world_def
        take_empty pool set_object_def add_object_def numeral_2_eq_2)
  then obtain vms z' m' where run: "ConstructVirtualMachineGroup simple_flags calm_env two_zones ''default'' two_vms 0
      one_machine_mach = Some (Inr (vms, z'), m')" by blast
  have "pool_ready (world one_machine_mach)" "keeps_zone two_zones"
    using one_machine_state(1) nu one_machine_count by (simp_all add: m pool_ready_def keeps_zone_def two_zones_def)
  from group_machines [OF this _ _ run] show ?thesis
    using run one_machine_state(1) one_machine_count
    by (auto simp: m two_vms_def two_zones_def chosen_statics_def Let_def zone_index_after_def zone_of_slot_def upt_rec numeral_2_eq_2)
qed

text \<open>A group whose construction fails does not give back what it has taken from the pool; its machines are in
  no group of the benchmark, so that nothing will delete them.\<close>

lemma failed_group_loses_machines:
  "\<exists>m'. ConstructVirtualMachineGroup simple_flags calm_env (two_zones\<lparr>GetVmClass := (\<lambda>_ _. Inr None)\<rparr>) ''default''
      two_vms 0 one_machine_mach = Some (Inl (no_vm_class ''ubuntu2404'' ''GCP''), m')
    \<and> vm_pool (world one_machine_mach) = [0] \<and> vm_pool (world m') = []"
proof -
  have m: "world one_machine_mach = one_machine" "sane one_machine_mach"
    by (simp_all add: one_machine_mach_def sane_def)
  have nu: "\<not> user_managed (life (objects one_machine 0))"
    using one_machine_state(2) by (simp add: waiting_def)
  obtain m1 where m1: "GetStaticVirtualMachine simple_flags calm_env one_machine_mach = Some (Inr (Some 0), m1)"
    using take_returns [OF calm_env_time m(2), of 0 "[]"] one_machine_state(1) nu m(1) by metis
  from wp_returnsD [OF take_spec [of one_machine_mach 0 "[]"] m1] have pool: "vm_pool (world m1) = []"
    using one_machine_state(1) nu m(1) by auto
  show ?thesis
    by (simp add: ConstructVirtualMachineGroup_def two_vms_def two_zones_def chosen_statics_def CheckBenchmarkSupport_def
        lift_def run_at one_vm_def CreateVirtualMachine_def m1 finish_vm_def in_world_def from_world_def
        take_empty pool set_object_def numeral_2_eq_2 m one_machine_state)
qed

end
