(* ===== verification/Disruption.thy ===== *)
theory Disruption
  imports FlagUtil Sample
begin

text \<open>
  \<open>perfkitbenchmarker/time_triggers/base_time_trigger.py\<close> and \<open>base_disruption_trigger.py\<close>:
  triggers that disturb a benchmark while it runs (a live migration, for example), and the metrics
  computed from the time series of the benchmark and the times of the disruptions.

  The state of a computation is the trigger object and the list of samples that the run phase sends
  to it.  Times of disruptions are in seconds, stamps of time series in milliseconds.  Floats are
  rational numbers.  What \<open>TriggerMethod\<close> and \<open>SetUp\<close> of a concrete trigger do is a parameter.
\<close>

section \<open>Triggers\<close>

record disruption_event =
  start_time :: rat
  end_time :: rat
  total_time :: rat
  trigger_index :: nat

record 'vm trigger =
  trigger_name :: string
  delay :: rat
  trigger_vms :: "'vm list"
  trigger_time :: "rat option"
  trigger_count :: nat
  trigger_metadata :: metadata_dict
  disruption_events :: "disruption_event list"

record 'vm disturbed =
  the_trigger :: "'vm trigger"
  the_samples :: "sample list"

type_synonym ('vm, 'a) trig = "(exn, 'vm disturbed mach, 'a) py"

definition on_trigger :: "('vm trigger \<Rightarrow> 'vm trigger) \<Rightarrow> ('vm, unit) trig" where
  "on_trigger f = modifyM (\<lambda>m. m\<lparr>world := (world m)\<lparr>the_trigger := f (the_trigger (world m))\<rparr>\<rparr>)"

definition on_samples :: "(sample list \<Rightarrow> sample list) \<Rightarrow> ('vm, unit) trig" where
  "on_samples f = modifyM (\<lambda>m. m\<lparr>world := (world m)\<lparr>the_samples := f (the_samples (world m))\<rparr>\<rparr>)"

definition my :: "('vm trigger \<Rightarrow> 'a) \<Rightarrow> ('vm, 'a) trig" where
  "my f = getM (\<lambda>m. f (the_trigger (world m)))"

lemmas trig_defs = on_trigger_def on_samples_def my_def

definition new_time_trigger :: "string \<Rightarrow> rat \<Rightarrow> 'vm trigger" where
  "new_time_trigger name d =
     \<lparr>trigger_name = name, delay = d, trigger_vms = [], trigger_time = None, trigger_count = 0,
      trigger_metadata = dict_set [(name, VBool True)] (name @ ''_delay'') (VNum d),
      disruption_events = []\<rparr>"

definition new_disruption_trigger :: "string \<Rightarrow> rat \<Rightarrow> 'vm trigger" where
  "new_disruption_trigger name d =
     (new_time_trigger name d)\<lparr>trigger_metadata := [], disruption_events := []\<rparr>"

text \<open>The thread that a trigger starts on a machine: \<open>call\<close> is \<open>TriggerMethod(vm)\<close>.\<close>

definition trigger_round :: "('vm, unit) trig \<Rightarrow> ('vm, unit) trig" where
  "trigger_round call = thenM call (on_trigger (\<lambda>t. t\<lparr>trigger_count := trigger_count t + 1\<rparr>))"

partial_function (option) trigger_loop ::
  "bool \<Rightarrow> rat \<Rightarrow> ('vm, unit) trig \<Rightarrow> 'vm disturbed mach \<Rightarrow> ((exn + unit) \<times> 'vm disturbed mach) option"
where
  "trigger_loop forever interval call m =
     (case trigger_round call m of
        None \<Rightarrow> None
      | Some rm \<Rightarrow>
         (case fst rm of
            Inl e \<Rightarrow> Some (Inl e, snd rm)
          | Inr _ \<Rightarrow>
              if \<not> forever then Some (Inr (), snd rm)
              else case time_sleep interval (snd rm) of
                None \<Rightarrow> None
              | Some qm \<Rightarrow> trigger_loop forever interval call (snd qm)))"

definition TriggerEvent :: "bool \<Rightarrow> rat \<Rightarrow> rat \<Rightarrow> ('vm, unit) trig \<Rightarrow> ('vm, unit) trig" where
  "TriggerEvent forever interval d call = thenM (time_sleep d) (trigger_loop forever interval call)"

text \<open>\<open>--trigger_vm_groups\<close> and \<open>--trigger_primary_server\<close>; the message about an unknown group is
  only logged.\<close>

fun group_vms :: "(string \<Rightarrow> 'vm list option) \<Rightarrow> string list \<Rightarrow> 'vm list \<Rightarrow> 'vm list" where
  "group_vms vm_groups [] vms = vms"
| "group_vms vm_groups (g # gs) vms =
     group_vms vm_groups gs (case vm_groups g of Some xs \<Rightarrow> vms @ xs | None \<Rightarrow> vms)"

definition SetUpTrigger ::
  "string list option \<Rightarrow> bool \<Rightarrow> (string \<Rightarrow> 'vm list option) \<Rightarrow> 'vm list \<Rightarrow> ('vm, unit) trig \<Rightarrow> ('vm, unit) trig"
where
  "SetUpTrigger named primary vm_groups spec_vms SetUp = seqM
     [on_trigger (\<lambda>t. t\<lparr>trigger_vms :=
        (if named \<noteq> None \<and> named \<noteq> Some [] then group_vms vm_groups (the named) (trigger_vms t)
         else spec_vms)\<rparr>),
      whenM primary (on_trigger (\<lambda>t. t\<lparr>trigger_vms := take 1 (trigger_vms t)\<rparr>)),
      SetUp]"

text \<open>\<open>RunTrigger\<close>, with the start of a thread and the text of a time given\<close>

definition RunTrigger :: "('vm \<Rightarrow> ('vm, unit) trig) \<Rightarrow> (rat \<Rightarrow> string) \<Rightarrow> ('vm, unit) trig" where
  "RunTrigger CreateAndStartTriggerThread str =
     bindM (my trigger_vms) (\<lambda>vms.
     thenM (forM vms CreateAndStartTriggerThread) (
     bindM time_time (\<lambda>t. seqM
       [on_trigger (\<lambda>g. g\<lparr>trigger_time := Some (t + delay g)\<rparr>),
        on_trigger (\<lambda>g. g\<lparr>trigger_metadata := dict_set (trigger_metadata g)
          (trigger_name g @ ''_time'') (VStr (str (the (trigger_time g))))\<rparr>)])))"

definition UpdateMetadata :: "('vm, unit) trig" where
  "UpdateMetadata =
     thenM (on_trigger (\<lambda>t. t\<lparr>trigger_metadata :=
       dict_set (trigger_metadata t) ''trigger_count'' (VInt (int (trigger_count t)))\<rparr>))
     (bindM (my trigger_metadata) (\<lambda>md.
       on_samples (map (\<lambda>s. s\<lparr>sample_metadata := dict_update (sample_metadata s) md\<rparr>))))"

section \<open>Times of an event\<close>

record event_times =
  disruption_start :: rat
  disruption_end :: rat
  baseline_start :: rat
  baseline_end :: rat
  degradation_start :: rat
  degradation_end :: rat

definition GetDisruptionEventTimestamps ::
  "rat option \<Rightarrow> disruption_event list \<Rightarrow> nat \<Rightarrow> disruption_event \<Rightarrow> rat \<Rightarrow> rat \<Rightarrow> event_times option"
where
  "GetDisruptionEventTimestamps window evs index event ramp_up_ends ramp_down_starts =
     (if end_time event > ramp_down_starts then None
      else let start = start_time event * 1000;
          (dis_end, deg_end) =
            (if index \<noteq> length evs - 1
             then (start_time (evs ! (index + 1)) * 1000, start_time (evs ! (index + 1)) * 1000)
             else (if window \<noteq> None \<and> the window > 0
                   then min (start + (ramp_down_starts - start) * the window) ramp_down_starts
                   else ramp_down_starts, ramp_down_starts))
        in Some \<lparr>disruption_start = start, disruption_end = dis_end, baseline_start = ramp_up_ends,
             baseline_end = start, degradation_start = end_time event * 1000, degradation_end = deg_end\<rparr>)"

definition ValidateMaintenanceDegradationWindow :: "rat option \<Rightarrow> bool" where
  "ValidateMaintenanceDegradationWindow v = (case v of None \<Rightarrow> True | Some w \<Rightarrow> 1 \<le> w \<and> w \<le> 10)"

definition asdict :: "event_times \<Rightarrow> metadata_dict" where
  "asdict e =
     [(''disruption_start'', VNum (disruption_start e)), (''disruption_end'', VNum (disruption_end e)),
      (''baseline_start'', VNum (baseline_start e)), (''baseline_end'', VNum (baseline_end e)),
      (''degradation_start'', VNum (degradation_start e)), (''degradation_end'', VNum (degradation_end e))]"

section \<open>A time series and an event\<close>

text \<open>The entries of metadata that are numbers and lists of numbers\<close>

definition number_error :: exn where
  "number_error = exn (Builtin TypeError) ''not a number''"

fun num_of :: "pyval \<Rightarrow> exn + rat" where
  "num_of (VNum r) = Inr r"
| "num_of (VInt i) = Inr (of_int i)"
| "num_of (VBool b) = Inr (if b then 1 else 0)"
| "num_of _ = Inl number_error"

fun nums_of :: "pyval \<Rightarrow> exn + rat list" where
  "nums_of (VList xs) = mapE num_of xs"
| "nums_of _ = Inl number_error"

definition getitem_md :: "metadata_dict \<Rightarrow> string \<Rightarrow> exn + pyval" where
  "getitem_md md k = (case map_of md k of None \<Rightarrow> Inl (missing_key k) | Some v \<Rightarrow> Inr v)"

text \<open>The values before the disruption, from its start, from its end, and the seconds without values\<close>

record split_values =
  base_line_values :: "rat list"
  values_after_disruption_starts :: "rat list"
  values_after_disruption_ends :: "rat list"
  total_missing_seconds :: rat

definition missing_entry_count :: "rat \<Rightarrow> rat \<Rightarrow> rat \<Rightarrow> int" where
  "missing_entry_count interval before t = py_int ((t - before) / 1000 / interval - 1)"

text \<open>A value after a gap stands for all the seconds of the gap.\<close>

definition spread :: "int \<Rightarrow> rat \<Rightarrow> rat list" where
  "spread n v = (if n > 1 then replicate (nat (n + 1)) (of_int (py_int (v / of_int (n + 1)))) else [v])"

definition interval_values :: "rat \<Rightarrow> rat option \<Rightarrow> rat \<Rightarrow> rat \<Rightarrow> exn + rat list \<times> rat" where
  "interval_values interval before t v =
     (case before of None \<Rightarrow> Inr ([v], 0)
      | Some b \<Rightarrow>
          if interval = 0 then Inl zero_division
          else let n = missing_entry_count interval b t
            in Inr (spread n v, if n > 1 then of_int n * interval else 0))"

definition add_values :: "event_times \<Rightarrow> rat \<Rightarrow> rat list \<times> rat \<Rightarrow> split_values \<Rightarrow> split_values" where
  "add_values e t xm a =
     \<lparr>base_line_values = base_line_values a @ (if t < baseline_end e then fst xm else []),
      values_after_disruption_starts = values_after_disruption_starts a
        @ (if disruption_start e \<le> t \<and> t \<le> disruption_end e then fst xm else []),
      values_after_disruption_ends = values_after_disruption_ends a
        @ (if degradation_start e < t \<and> t \<le> degradation_end e then fst xm else []),
      total_missing_seconds = total_missing_seconds a + snd xm\<rparr>"

fun split_loop ::
  "event_times \<Rightarrow> rat \<Rightarrow> rat option \<Rightarrow> rat list \<Rightarrow> rat list \<Rightarrow> split_values \<Rightarrow> exn + split_values"
where
  "split_loop e interval before [] stamps a = Inr a"
| "split_loop e interval before (v # vs) [] a = Inl index_error"
| "split_loop e interval before (v # vs) (t # stamps) a =
     (if t < baseline_start e then split_loop e interval (Some t) vs stamps a
      else bindE (interval_values interval before t v) (\<lambda>xm.
        split_loop e interval (Some t) vs stamps (add_values e t xm a)))"

definition no_values :: split_values where
  "no_values = \<lparr>base_line_values = [], values_after_disruption_starts = [],
     values_after_disruption_ends = [], total_missing_seconds = 0\<rparr>"

section \<open>Metrics of a disruption\<close>

text \<open>\<open>statistics.median\<close>, \<open>statistics.mean\<close> and \<open>round(x, 4)\<close>\<close>

definition statistics_error :: exn where
  "statistics_error =
     exn (Subclass (Builtin ValueError) ''StatisticsError'' None) ''no data points''"

definition median :: "rat list \<Rightarrow> exn + rat" where
  "median xs =
     (let s = sort xs; n = length xs
      in if n = 0 then Inl statistics_error
        else if odd n then Inr (s ! (n div 2)) else Inr ((s ! (n div 2 - 1) + s ! (n div 2)) / 2))"

definition mean :: "rat list \<Rightarrow> exn + rat" where
  "mean xs = (if xs = [] then Inl statistics_error else Inr (sum_list xs / of_nat (length xs)))"

definition round4 :: "rat \<Rightarrow> rat" where
  "round4 x = of_int (round_half_even (x * 10000)) / 10000"

definition PERCENTILES :: "rat list" where
  "PERCENTILES = [0, 1/10, 2/10, 3/10, 4/10, 5/10, 6/10, 7/10, 8/10, 9/10]"

definition dropped :: "(rat \<times> nat) list \<Rightarrow> rat \<Rightarrow> nat" where
  "dropped d p = (case map_of d p of None \<Rightarrow> 0 | Some n \<Rightarrow> n)"

fun seconds_dropped :: "rat \<Rightarrow> rat list \<Rightarrow> (rat \<times> nat) list \<Rightarrow> (rat \<times> nat) list" where
  "seconds_dropped m [] d = d"
| "seconds_dropped m (v # vs) d = seconds_dropped m vs
     (fold (\<lambda>p d. if v \<le> m * p then dict_set d p (dropped d p + 1) else d) PERCENTILES d)"

definition ComputeLossPercentile ::
  "rat \<Rightarrow> rat list \<Rightarrow> metadata_dict \<Rightarrow> (exn, 'w mach, sample list) py" where
  "ComputeLossPercentile m vs md =
     mapPy (\<lambda>p. new_sample (''seconds_dropped_below_'' @ str_of_int (py_int (p * 100)) @ ''_percent'')
       (Some (of_nat (dropped (seconds_dropped m vs []) p))) ''s'' (Some md) None) PERCENTILES"

fun loss_loop :: "rat \<Rightarrow> rat \<Rightarrow> rat \<Rightarrow> rat list \<Rightarrow> rat \<Rightarrow> rat \<Rightarrow> exn + rat \<times> rat" where
  "loss_loop percent med interval [] total_loss unresponsive = Inr (total_loss, unresponsive)"
| "loss_loop percent med interval (v # vs) total_loss unresponsive =
     (if v < med * percent / 100
      then if med = 0 then Inl zero_division
        else loss_loop percent med interval vs (total_loss + (med - v) / med * interval)
          (unresponsive + ((med - v) / med) ^ 3 * interval)
      else loss_loop percent med interval vs total_loss unresponsive)"

definition ComputeLossWork ::
  "rat \<Rightarrow> rat \<Rightarrow> rat list \<Rightarrow> rat \<Rightarrow> metadata_dict \<Rightarrow> (exn, 'w mach, sample list) py" where
  "ComputeLossWork percent med vs interval md =
     bindM (lift (loss_loop percent med interval vs 0 0)) (\<lambda>(total_loss, unresponsive).
     bindM (new_sample ''unresponsive_metric'' (Some (round4 unresponsive)) ''metric'' (Some md) None) (\<lambda>u.
     bindM (new_sample ''total_loss_seconds'' (Some (round4 total_loss)) ''seconds'' (Some md) None) (\<lambda>t.
       ret [u, t])))"

definition ComputeDegradation :: "rat \<Rightarrow> rat \<Rightarrow> metadata_dict \<Rightarrow> (exn, 'w mach, sample list) py" where
  "ComputeDegradation baseline_mean m md =
     (if baseline_mean = 0 then raise zero_division
      else bindM (new_sample ''degradation_percent''
        (Some (round4 ((baseline_mean - m) / baseline_mean * 100))) ''%'' (Some md) None) (\<lambda>s. ret [s]))"

definition TIME_SERIES_METADATA :: "string list" where
  "TIME_SERIES_METADATA = [''ramp_up_ends'', ''ramp_down_starts'', ''values'', ''timestamps'', ''interval'']"

definition event_metadata :: "metadata_dict \<Rightarrow> event_times \<Rightarrow> nat \<Rightarrow> metadata_dict" where
  "event_metadata md e index =
     dict_set (dict_update (filter (\<lambda>(k, _). k \<notin> set TIME_SERIES_METADATA) md) (asdict e))
       ''trigger_index'' (VInt (int index))"

definition split_sample :: "sample \<Rightarrow> event_times \<Rightarrow> exn + rat \<times> split_values" where
  "split_sample s e =
     bindE (bindE (getitem_md (sample_metadata s) ''timestamps'') nums_of) (\<lambda>time_series.
     bindE (bindE (getitem_md (sample_metadata s) ''values'') nums_of) (\<lambda>vals.
     bindE (bindE (getitem_md (sample_metadata s) ''interval'') num_of) (\<lambda>interval.
     bindE (split_loop e interval None vals time_series no_values) (\<lambda>a. Inr (interval, a)))))"

definition AggregateThroughputSample ::
  "rat \<Rightarrow> sample \<Rightarrow> event_times \<Rightarrow> nat \<Rightarrow> (exn, 'w mach, sample list) py" where
  "AggregateThroughputSample percent s e index =
     bindM (lift (split_sample s e)) (\<lambda>(interval, a).
     bindM (lift (median (base_line_values a))) (\<lambda>med.
     bindM (lift (mean (base_line_values a))) (\<lambda>avg.
     let md = event_metadata (sample_metadata s) e index in
     bindM (ComputeLossPercentile avg (values_after_disruption_starts a) md) (\<lambda>dropped_samples.
     bindM (ComputeLossWork percent med (values_after_disruption_starts a) interval md) (\<lambda>loss.
     bindM (if values_after_disruption_ends a \<noteq> []
            then bindM (lift (mean (values_after_disruption_ends a))) (\<lambda>m. ComputeDegradation avg m md)
            else ret []) (\<lambda>degradation.
     bindM (new_sample ''total_missing_seconds'' (Some (total_missing_seconds a)) ''s'' (Some md) None) (\<lambda>missing.
       ret (dropped_samples @ loss @ degradation @ [missing]))))))))"

section \<open>The samples that are appended\<close>

definition TIME_SERIES_SAMPLES_FOR_AGGREGATION :: "string list" where
  "TIME_SERIES_SAMPLES_FOR_AGGREGATION = [''TPM_time_series'', ''OPS_time_series'', ''QPS_time_series'']"

definition GetMetadataForTrigger :: "'vm trigger \<Rightarrow> disruption_event \<Rightarrow> metadata_dict" where
  "GetMetadataForTrigger t event = dict_update (trigger_metadata t)
     [(''LM_total_time'', VNum (total_time event)), (''Host_maintenance_start'', VNum (start_time event)),
      (''Host_maintenance_end'', VNum (end_time event)), (''trigger_index'', VInt (int (trigger_index event)))]"

definition GenerateDisruptionTotalTimeSamples ::
  "'vm trigger \<Rightarrow> sample list \<Rightarrow> (exn, 'w mach, sample list) py" where
  "GenerateDisruptionTotalTimeSamples t ss =
     (let md = (case ss of [] \<Rightarrow> [] | s # _ \<Rightarrow> sample_metadata s)
      in mapPy (\<lambda>d. new_sample ''LM Total Time'' (Some (total_time d)) ''seconds''
           (Some (dict_update md (GetMetadataForTrigger t d))) None) (disruption_events t))"

definition ramp_of :: "metadata_dict \<Rightarrow> string \<Rightarrow> rat \<Rightarrow> exn + rat" where
  "ramp_of md k t = (case map_of md k of None \<Rightarrow> Inr t | Some v \<Rightarrow> num_of v)"

text \<open>\<open>time_series[0]\<close> and \<open>time_series[-1]\<close> are computed also where they are not needed.\<close>

definition ramps :: "metadata_dict \<Rightarrow> exn + rat \<times> rat" where
  "ramps md =
     bindE (bindE (getitem_md md ''timestamps'') nums_of) (\<lambda>time_series.
       if time_series = [] then Inl index_error
       else bindE (ramp_of md ''ramp_up_ends'' (hd time_series)) (\<lambda>up.
         bindE (ramp_of md ''ramp_down_starts'' (last time_series)) (\<lambda>down. Inr (up, down))))"

fun event_samples ::
  "rat \<Rightarrow> rat option \<Rightarrow> disruption_event list \<Rightarrow> sample \<Rightarrow> rat \<Rightarrow> rat \<Rightarrow> nat \<Rightarrow> disruption_event list
     \<Rightarrow> (exn, 'w mach, sample list) py" where
  "event_samples percent window evs s up down index [] = ret []"
| "event_samples percent window evs s up down index (event # rest) =
     bindM (case GetDisruptionEventTimestamps window evs index event up down of
         None \<Rightarrow> ret []
       | Some e \<Rightarrow> AggregateThroughputSample percent s e (trigger_index event)) (\<lambda>new.
     bindM (event_samples percent window evs s up down (index + 1) rest) (\<lambda>more. ret (new @ more)))"

fun AppendAggregatedMetrics ::
  "rat \<Rightarrow> rat option \<Rightarrow> disruption_event list \<Rightarrow> sample list \<Rightarrow> (exn, 'w mach, sample list) py" where
  "AppendAggregatedMetrics percent window evs [] = ret []"
| "AppendAggregatedMetrics percent window evs (s # ss) =
     (if metric s \<in> set TIME_SERIES_SAMPLES_FOR_AGGREGATION
      then bindM (lift (ramps (sample_metadata s))) (\<lambda>(up, down).
        bindM (event_samples percent window evs s up down 0 evs) (\<lambda>new.
        bindM (AppendAggregatedMetrics percent window evs ss) (\<lambda>more. ret (new @ more))))
      else AppendAggregatedMetrics percent window evs ss)"

definition numbered_events :: "disruption_event list \<Rightarrow> disruption_event list" where
  "numbered_events evs = map (\<lambda>(i, e). e\<lparr>trigger_index := i\<rparr>) (enumerate 0 evs)"

definition AppendSamples :: "rat \<Rightarrow> rat option \<Rightarrow> ('vm, unit) trig" where
  "AppendSamples percent window =
     thenM (on_trigger (\<lambda>t. t\<lparr>disruption_events := numbered_events (disruption_events t)\<rparr>))
     (bindM (getM (\<lambda>m. (the_trigger (world m), the_samples (world m)))) (\<lambda>(t, ss).
      bindM (GenerateDisruptionTotalTimeSamples t ss) (\<lambda>times.
      thenM (on_samples (\<lambda>ss. ss @ times))
     (bindM (AppendAggregatedMetrics percent window (disruption_events t) (ss @ times)) (\<lambda>new.
        on_samples (\<lambda>ss. ss @ new))))))"

section \<open>Facts about the metrics\<close>

lemma round_half_even_mono:
  fixes x y :: "'a::floor_ceiling"
  assumes "x \<le> y"
  shows "round_half_even x \<le> round_half_even y"
proof (cases "\<lfloor>x\<rfloor> = \<lfloor>y\<rfloor>")
  case True
  then show ?thesis using assms by (auto simp: round_half_even_def Let_def)
next
  case False
  then have "\<lfloor>x\<rfloor> + 1 \<le> \<lfloor>y\<rfloor>" using floor_mono [OF assms] by simp
  then show ?thesis by (auto simp: round_half_even_def Let_def)
qed

lemma round4_mono: "x \<le> y \<Longrightarrow> round4 x \<le> round4 y"
  by (simp add: round4_def divide_right_mono round_half_even_mono)

lemma round4_zero [simp]: "round4 0 = 0"
  by (simp add: round4_def round_half_even_def)

lemma loss_loop_bounds:
  assumes "0 < med" "0 \<le> interval" "percent \<le> 100" "\<forall>v \<in> set vs. 0 \<le> v"
  shows "\<exists>t u. loss_loop percent med interval vs T U = Inr (t, u)
    \<and> U \<le> u \<and> u - U \<le> t - T \<and> t - T \<le> interval * of_nat (length vs)"
  using assms(4)
proof (induction vs arbitrary: T U)
  case (Cons v vs)
  define x where "x = (med - v) / med"
  show ?case
  proof (cases "v < med * percent / 100")
    case True
    have "med * percent \<le> med * 100" using assms by (intro mult_left_mono) auto
    with True have "v \<le> med" by simp
    then have x: "0 \<le> x" "x \<le> 1" using assms(1) Cons.prems by (auto simp: x_def)
    then have "x ^ 3 \<le> x" using power_decreasing [of 1 3 x] by simp
    then have s: "0 \<le> x ^ 3 * interval" "x ^ 3 * interval \<le> x * interval" "x * interval \<le> interval"
      using x assms(2) by (auto intro: mult_right_mono mult_left_le_one_le)
    have prems: "\<forall>v \<in> set vs. 0 \<le> v" using Cons.prems by simp
    obtain t u where tu: "loss_loop percent med interval vs (T + x * interval) (U + x ^ 3 * interval) = Inr (t, u)"
      "U + x ^ 3 * interval \<le> u" "u - (U + x ^ 3 * interval) \<le> t - (T + x * interval)"
      "t - (T + x * interval) \<le> interval * of_nat (length vs)"
      using Cons.IH [OF prems, of "T + x * interval" "U + x ^ 3 * interval"] by blast
    moreover have "U \<le> u" "u - U \<le> t - T" using s tu(2,3) by linarith+
    moreover have "t - T \<le> interval * of_nat (length vs) + interval" using s(3) tu(4) by linarith
    ultimately show ?thesis using True assms(1) by (simp add: x_def distrib_left)
  next
    case False
    have prems: "\<forall>v \<in> set vs. 0 \<le> v" using Cons.prems by simp
    obtain t u where "loss_loop percent med interval vs T U = Inr (t, u)" "U \<le> u" "u - U \<le> t - T"
      "t - T \<le> interval * of_nat (length vs)"
      using Cons.IH [OF prems] by blast
    then show ?thesis using False assms(2) by (simp add: distrib_left)
  qed
qed simp

lemma dropped_fold:
  assumes "distinct ps"
  shows "dropped (fold (\<lambda>p d. if v \<le> m * p then dict_set d p (dropped d p + 1) else d) ps d) q
    = dropped d q + (if q \<in> set ps \<and> v \<le> m * q then 1 else 0)"
  using assms by (induction ps arbitrary: d) (auto simp: dropped_def)

lemma PERCENTILES_distinct: "distinct PERCENTILES"
  by (simp add: PERCENTILES_def)

lemma dropped_seconds:
  assumes "p \<in> set PERCENTILES"
  shows "dropped (seconds_dropped m vs d) p = dropped d p + length (filter (\<lambda>v. v \<le> m * p) vs)"
  using assms PERCENTILES_distinct by (induction m vs d rule: seconds_dropped.induct) (auto simp: dropped_fold)

lemma py_int_nonneg: "0 \<le> x \<Longrightarrow> py_int x = \<lfloor>x\<rfloor>"
  by (simp add: py_int_def)

text \<open>The seconds of a gap get the value of the entry, rounded down to whole operations per second.\<close>

lemma spread_sum:
  assumes "0 \<le> v"
  shows "sum_list (spread n v) \<le> v" and "v < sum_list (spread n v) + of_nat (length (spread n v))"
proof -
  have "sum_list (spread n v) \<le> v \<and> v < sum_list (spread n v) + of_nat (length (spread n v))"
  proof (cases "n > 1")
    case True
    define k :: rat where "k = of_int (n + 1)"
    define q :: rat where "q = of_int \<lfloor>v / k\<rfloor>"
    have k: "0 < k" using True by (simp add: k_def)
    have nat: "of_nat (nat (n + 1)) = k" using True by (simp add: k_def)
    have p: "py_int (v / k) = \<lfloor>v / k\<rfloor>" using assms k by (simp add: py_int_nonneg)
    have "q \<le> v / k" "v / k < q + 1" unfolding q_def by linarith+
    then have q: "k * q \<le> v" "v < k * q + k" using k by (auto simp: field_simps)
    have "sum_list (spread n v) = k * q" "length (spread n v) = nat (n + 1)"
      using True p nat by (simp_all add: spread_def sum_list_replicate q_def flip: k_def)
    with q nat show ?thesis by simp
  qed (simp add: spread_def)
  then show "sum_list (spread n v) \<le> v" "v < sum_list (spread n v) + of_nat (length (spread n v))" by auto
qed

section \<open>The windows of an event\<close>

text \<open>The entries of a time series, each with the stamp before it, and the values of those in a window\<close>

definition series_entries :: "rat option \<Rightarrow> rat list \<Rightarrow> rat list \<Rightarrow> (rat \<times> rat option \<times> rat) list" where
  "series_entries before vs stamps = zip vs (zip (before # map Some stamps) stamps)"

definition values_at :: "rat \<Rightarrow> rat \<times> rat option \<times> rat \<Rightarrow> rat list" where
  "values_at interval = (\<lambda>(v, before, t). case before of None \<Rightarrow> [v]
     | Some b \<Rightarrow> spread (missing_entry_count interval b t) v)"

definition values_in ::
  "rat \<Rightarrow> (rat \<Rightarrow> bool) \<Rightarrow> (rat \<times> rat option \<times> rat) list \<Rightarrow> rat list" where
  "values_in interval W es = concat (map (values_at interval) (filter (\<lambda>(_, _, t). W t) es))"

lemma series_entries_simps [simp]:
  "series_entries before [] stamps = []"
  "series_entries before (v # vs) (t # stamps) = (v, before, t) # series_entries (Some t) vs stamps"
  by (simp_all add: series_entries_def)

lemma interval_values_at:
  "interval \<noteq> 0 \<Longrightarrow> \<exists>x. interval_values interval before t v = Inr (values_at interval (v, before, t), x)"
  by (cases before) (auto simp: interval_values_def values_at_def Let_def)

lemma values_in_simps [simp]:
  "values_in interval W [] = []"
  "values_in interval W ((v, before, t) # es)
     = (if W t then values_at interval (v, before, t) else []) @ values_in interval W es"
  by (simp_all add: values_in_def)

text \<open>What the loop adds to the lists it is given\<close>

definition windows_added ::
  "event_times \<Rightarrow> rat \<Rightarrow> (rat \<times> rat option \<times> rat) list \<Rightarrow> split_values \<Rightarrow> split_values \<Rightarrow> bool" where
  "windows_added e interval es a r \<longleftrightarrow>
     base_line_values r = base_line_values a
       @ values_in interval (\<lambda>t. baseline_start e \<le> t \<and> t < baseline_end e) es
   \<and> values_after_disruption_starts r = values_after_disruption_starts a
       @ values_in interval (\<lambda>t. baseline_start e \<le> t \<and> disruption_start e \<le> t \<and> t \<le> disruption_end e) es
   \<and> values_after_disruption_ends r = values_after_disruption_ends a
       @ values_in interval (\<lambda>t. baseline_start e \<le> t \<and> degradation_start e < t \<and> t \<le> degradation_end e) es"

lemma split_loop_windows:
  assumes "interval \<noteq> 0" and "length vs \<le> length stamps"
  shows "\<exists>r. split_loop e interval before vs stamps a = Inr r
    \<and> windows_added e interval (series_entries before vs stamps) a r"
  using assms
proof (induction e interval before vs stamps a rule: split_loop.induct)
  case (3 e interval before v vs t stamps a)
  show ?case
  proof (cases "t < baseline_start e")
    case True
    with 3 show ?thesis by (auto simp: windows_added_def)
  next
    case False
    obtain x where x: "interval_values interval before t v = Inr (values_at interval (v, before, t), x)"
      using interval_values_at 3(3) by blast
    let ?a = "add_values e t (values_at interval (v, before, t), x) a"
    obtain r where "split_loop e interval (Some t) vs stamps ?a = Inr r"
      "windows_added e interval (series_entries (Some t) vs stamps) ?a r"
      using 3(2) [OF False, of "(values_at interval (v, before, t), x)"] 3(3,4) by auto
    with False x show ?thesis by (auto simp: windows_added_def add_values_def)
  qed
qed (simp_all add: windows_added_def)

lemma values_in_sum:
  assumes "\<forall>(v, b, t) \<in> set es. 0 \<le> v"
  shows "sum_list (values_in interval W es) \<le> sum_list (map fst (filter (\<lambda>(_, _, t). W t) es))"
    and "sum_list (map fst (filter (\<lambda>(_, _, t). W t) es))
      \<le> sum_list (values_in interval W es) + of_nat (length (values_in interval W es))"
proof -
  have "sum_list (values_in interval W es) \<le> sum_list (map fst (filter (\<lambda>(_, _, t). W t) es))
      \<and> sum_list (map fst (filter (\<lambda>(_, _, t). W t) es))
        \<le> sum_list (values_in interval W es) + of_nat (length (values_in interval W es))"
    using assms
  proof (induction es)
    case (Cons x es)
    obtain v b t where x: "x = (v, b, t)" by (cases x)
    have v: "0 \<le> v" using Cons.prems x by simp
    have "sum_list (values_at interval x) \<le> v \<and> v \<le> sum_list (values_at interval x) + of_nat (length (values_at interval x))"
      using v spread_sum [of v] by (auto simp: x values_at_def less_imp_le split: option.split)
    with Cons x show ?case by auto
  qed simp
  then show "sum_list (values_in interval W es) \<le> sum_list (map fst (filter (\<lambda>(_, _, t). W t) es))"
    "sum_list (map fst (filter (\<lambda>(_, _, t). W t) es))
      \<le> sum_list (values_in interval W es) + of_nat (length (values_in interval W es))" by auto
qed

section \<open>Threads of triggers\<close>

text \<open>A trigger that is called once ends; one that is called for ever does not, unless a call
  raises.\<close>

lemma trigger_loop_once:
  assumes "call m = Some (Inr (), n)"
  shows "trigger_loop False interval call m =
    Some (Inr (), n\<lparr>world := (world n)\<lparr>the_trigger := (the_trigger (world n))
      \<lparr>trigger_count := trigger_count (the_trigger (world n)) + 1\<rparr>\<rparr>\<rparr>)"
  using assms by (simp add: trigger_loop.simps trigger_round_def run_at trig_defs)

lemma trigger_loop_forever:
  assumes "\<And>m. \<exists>n. call m = Some (Inr (), n)"
  shows "trigger_loop True interval call m = None"
proof -
  have "False" if "trigger_loop True interval call m = Some r" for r
  proof (rule trigger_loop.raw_induct
      [where P = "\<lambda>forever interval' call' m r. forever \<and> call' = call \<longrightarrow> False", THEN mp, OF _ that])
    fix loop and b i c and k :: "'a disturbed mach" and r
    assume IH: "\<And>b i c k r. loop b i c k = Some r \<Longrightarrow> b \<and> c = call \<longrightarrow> False"
      and step: "(case trigger_round c k of None \<Rightarrow> None
        | Some rm \<Rightarrow> case fst rm of Inl e \<Rightarrow> Some (Inl e, snd rm)
          | Inr _ \<Rightarrow> if \<not> b then Some (Inr (), snd rm)
              else case time_sleep i (snd rm) of None \<Rightarrow> None
                | Some qm \<Rightarrow> loop b i c (snd qm)) = Some r"
    show "b \<and> c = call \<longrightarrow> False"
    proof
      assume bc: "b \<and> c = call"
      obtain n where "call k = Some (Inr (), n)" using assms by blast
      with bc step obtain qm where "loop b i c (snd qm) = Some r"
        by (auto simp: trigger_round_def run_at trig_defs split: option.splits)
      with IH bc show False by blast
    qed
  qed simp
  then show ?thesis by (cases "trigger_loop True interval call m") blast+
qed

text \<open>The name and the delay that the base class puts into the metadata are lost.\<close>

lemma disruption_trigger_metadata:
  "trigger_metadata (new_disruption_trigger name d) = []"
  "map_of (trigger_metadata (new_time_trigger name d)) name = Some (VBool True)"
  by (simp_all add: new_disruption_trigger_def new_time_trigger_def)

text \<open>A second benchmark, or a retry, adds the machines of its groups to those that are there.\<close>

lemma group_vms_append: "group_vms g gs vms = vms @ group_vms g gs []"
proof (induction gs arbitrary: vms)
  case (Cons x gs)
  show ?case
    using Cons.IH [of "case g x of Some xs \<Rightarrow> vms @ xs | None \<Rightarrow> vms"] Cons.IH [of "case g x of Some xs \<Rightarrow> xs | None \<Rightarrow> []"]
    by (auto split: option.splits)
qed simp

lemma set_up_accumulates:
  assumes "gs \<noteq> []"
  shows "wp (SetUpTrigger (Some gs) False vm_groups vms (ret ()))
    (\<lambda>_ n. trigger_vms (the_trigger (world n)) = trigger_vms (the_trigger (world m)) @ group_vms vm_groups gs [])
    (\<lambda>_ _. False) m"
  using assms group_vms_append [of vm_groups gs "trigger_vms (the_trigger (world m))"]
  by (simp add: SetUpTrigger_def wp_simps trig_defs)

text \<open>The end of a disruption, in seconds, is compared with a time in milliseconds: a disruption that
  ended after the ramp-down began is not left out.\<close>

lemma late_event_kept:
  "GetDisruptionEventTimestamps None [\<lparr>start_time = 1700000900, end_time = 1700000960, total_time = 60, trigger_index = 0\<rparr>] 0
     \<lparr>start_time = 1700000900, end_time = 1700000960, total_time = 60, trigger_index = 0\<rparr>
     1700000000000 1700000600000 \<noteq> None"
  by (simp add: GetDisruptionEventTimestamps_def Let_def)

section \<open>Properties\<close>

text \<open>The loss of work is bounded: for values that are not negative, a positive median and a
  threshold of at most the median, ComputeLossWork returns exactly its two samples, and
  0 <= unresponsive_metric <= total_loss_seconds <= the (rounded) time that the values cover.\<close>

lemma loss_work_bounds:
  assumes "0 < med" and "0 \<le> interval" and "percent \<le> 100" and "\<forall>v \<in> set vs. 0 \<le> v"
  shows "\<exists>u t n. ComputeLossWork percent med vs interval md m = Some (Inr [u, t], n)
    \<and> metric u = ''unresponsive_metric'' \<and> metric t = ''total_loss_seconds''
    \<and> 0 \<le> sample_value u \<and> sample_value u \<le> sample_value t
    \<and> sample_value t \<le> round4 (interval * of_nat (length vs))"
proof -
  obtain t u where l: "loss_loop percent med interval vs 0 0 = Inr (t, u)" "0 \<le> u" "u \<le> t"
    "t \<le> interval * of_nat (length vs)"
    using loss_loop_bounds [OF assms, of 0 0] by auto
  then show ?thesis
    using round4_mono [of 0 u] round4_mono [of u t] round4_mono [of t]
    by (auto simp: ComputeLossWork_def run_at new_sample_def time_time_def Let_def)
qed

lemma loss_work_bounds_witness:
  "\<exists>u t n. ComputeLossWork 95 100 [50, 100, 0] 1 [] \<lparr>now = 0, lags = \<lambda>_. 0, draws = \<lambda>_. 0, world = ()\<rparr> = Some (Inr [u, t], n)
    \<and> metric u = ''unresponsive_metric'' \<and> metric t = ''total_loss_seconds''
    \<and> 0 \<le> sample_value u \<and> sample_value u \<le> sample_value t
    \<and> sample_value t \<le> round4 (1 * of_nat (length [50, 100, 0 :: rat]))"
  by (rule loss_work_bounds) simp_all

text \<open>The flag maintenance_degradation_window has no effect on the windows of an event that
  starts before the ramp-down: for every value that its validator accepts the times of the event are
  those without a window, so that the disruption is taken to last until the ramp-down.\<close>

lemma degradation_window_ineffective:
  assumes "ValidateMaintenanceDegradationWindow window" and "start_time event * 1000 \<le> down"
  shows "GetDisruptionEventTimestamps window evs index event up down
    = GetDisruptionEventTimestamps None evs index event up down"
proof (cases "window")
  case (Some w)
  define gap where "gap = down - start_time event * 1000"
  have "gap * 1 \<le> gap * w"
    using assms Some by (intro mult_left_mono) (auto simp: gap_def ValidateMaintenanceDegradationWindow_def)
  then have "min (start_time event * 1000 + gap * w) down = down" by (simp add: gap_def min_def)
  then show ?thesis using Some by (simp add: GetDisruptionEventTimestamps_def Let_def gap_def)
qed simp

lemma degradation_window_ineffective_witness:
  "GetDisruptionEventTimestamps (Some 2) [e] 0 \<lparr>start_time = 10, end_time = 12, total_time = 2, trigger_index = 0\<rparr> 0 60000
    = GetDisruptionEventTimestamps None [e] 0 \<lparr>start_time = 10, end_time = 12, total_time = 2, trigger_index = 0\<rparr> 0 60000"
  by (rule degradation_window_ineffective) (simp_all add: ValidateMaintenanceDegradationWindow_def)

text \<open>C36: The loop over a time series computes the three windows: with a nonzero interval and a stamp
  for every value it returns, the lists are the values of the entries in each window, an entry after a
  gap counting once for every second of the gap, and for values that are not negative the values of a
  window add up to those of the time series, less than one operation for each second short.\<close>

theorem time_series_windows:
  assumes "interval \<noteq> 0" and "length vs \<le> length stamps" and "\<forall>v \<in> set vs. 0 \<le> v"
  shows "\<exists>r. split_loop e interval None vs stamps no_values = Inr r
    \<and> base_line_values r
        = values_in interval (\<lambda>t. baseline_start e \<le> t \<and> t < baseline_end e) (series_entries None vs stamps)
    \<and> values_after_disruption_starts r
        = values_in interval (\<lambda>t. baseline_start e \<le> t \<and> disruption_start e \<le> t \<and> t \<le> disruption_end e)
            (series_entries None vs stamps)
    \<and> values_after_disruption_ends r
        = values_in interval (\<lambda>t. baseline_start e \<le> t \<and> degradation_start e < t \<and> t \<le> degradation_end e)
            (series_entries None vs stamps)
    \<and> \<bar>sum_list (map fst (filter (\<lambda>(_, _, t). baseline_start e \<le> t \<and> t < baseline_end e) (series_entries None vs stamps)))
        - sum_list (base_line_values r)\<bar> \<le> of_nat (length (base_line_values r))"
proof -
  have "\<forall>(v, b, t) \<in> set (series_entries None vs stamps). 0 \<le> v"
    using assms(3) by (auto simp: series_entries_def dest: set_zip_leftD)
  note sums = values_in_sum [OF this, where interval = interval and W = "\<lambda>t. baseline_start e \<le> t \<and> t < baseline_end e"]
  obtain r where "split_loop e interval None vs stamps no_values = Inr r"
    "windows_added e interval (series_entries None vs stamps) no_values r"
    using split_loop_windows [OF assms(1,2)] by blast
  with sums show ?thesis by (auto simp: windows_added_def no_values_def abs_le_iff)
qed

lemma time_series_windows_witness:
  "\<exists>r. split_loop \<lparr>disruption_start = 5000, disruption_end = 9000, baseline_start = 1000, baseline_end = 5000,
        degradation_start = 6000, degradation_end = 9000\<rparr> 1 None [10, 20, 30, 90] [1000, 2000, 3000, 8000] no_values = Inr r
    \<and> base_line_values r = [10, 20, 30] \<and> values_after_disruption_starts r = [18, 18, 18, 18, 18]"
proof -
  let ?e = "\<lparr>disruption_start = 5000, disruption_end = 9000, baseline_start = 1000, baseline_end = 5000,
        degradation_start = 6000, degradation_end = 9000\<rparr>"
  have entry: "values_at 1 (v, Some b, t) = [v]" if "t - b = 1000" for v b t :: rat
    using that by (simp add: values_at_def missing_entry_count_def spread_def py_int_def)
  have "values_at 1 (90, Some 3000, 8000) = [18, 18, 18, 18, 18]"
    by (simp add: values_at_def missing_entry_count_def spread_def py_int_def numeral_eq_Suc)
  with time_series_windows [of 1 "[10, 20, 30, 90]" "[1000, 2000, 3000, 8000]" ?e] entry
  show ?thesis by (auto simp: values_at_def)
qed

section \<open>The samples of a run\<close>

lemma keeps_lift [keeps_intros]: "keeps I (lift r)"
  by (cases r) (simp_all add: keeps_ret keeps_raise)

lemma keeps_world_new_sample [keeps_intros]: "keeps (\<lambda>m. world m = w) (new_sample name v u md ts)"
  by (rule keepsI) (auto simp: new_sample_def wp_def run_at time_time_def Let_def split: option.split)

lemma keeps_world_metrics:
  "keeps (\<lambda>m. world m = w) (AggregateThroughputSample percent s e index)"
  unfolding AggregateThroughputSample_def ComputeLossPercentile_def ComputeLossWork_def
    ComputeDegradation_def Let_def
  by (intro keeps_intros)

lemma keeps_world_event_samples:
  "keeps (\<lambda>m. world m = w) (event_samples percent window evs s up down index rest)"
  by (induction rest arbitrary: index) (auto intro!: keeps_intros keeps_world_metrics)

lemma keeps_world_aggregated:
  "keeps (\<lambda>m. world m = w) (AppendAggregatedMetrics percent window evs ss)"
  by (induction ss) (auto intro!: keeps_intros keeps_world_event_samples)

definition total_time_samples :: "disruption_event list \<Rightarrow> sample list \<Rightarrow> bool" where
  "total_time_samples evs ts \<longleftrightarrow> list_all2 (\<lambda>d s. metric s = ''LM Total Time''
     \<and> sample_value s = total_time d
     \<and> map_of (sample_metadata s) ''trigger_index'' = Some (VInt (int (trigger_index d)))
     \<and> map_of (sample_metadata s) ''Host_maintenance_start'' = Some (VNum (start_time d))) evs ts"

lemma wp_mapPy_samples:
  assumes "\<And>x m. world m = w \<Longrightarrow> wp (f x) (\<lambda>y n. world n = w \<and> P x y) (\<lambda>_ _. False) m" and "world m = w"
  shows "wp (mapPy f xs) (\<lambda>ys n. world n = w \<and> list_all2 P xs ys) (\<lambda>_ _. False) m"
  using assms(2)
proof (induction xs arbitrary: m)
  case (Cons x xs)
  have "wp (mapPy f xs) (\<lambda>ys n. world n = w \<and> list_all2 P (x # xs) (y # ys)) (\<lambda>_ _. False) n"
    if "world n = w \<and> P x y" for y n
    using Cons.IH [of n] that by (auto elim: wp_mono)
  then show ?case
    unfolding mapPy.simps wp_bindM wp_ret by (blast intro: wp_mono [OF assms(1) [OF Cons.prems]])
qed (simp add: wp_ret)

lemma dict_update_keys_distinct: "distinct (map fst d) \<Longrightarrow> distinct (map fst (dict_update d e))"
  unfolding dict_update_def by (induction e arbitrary: d) (auto intro: dict_set_distinct)

lemma map_of_reversed: "distinct (map fst d) \<Longrightarrow> map_of (rev d) = map_of d"
proof
  fix k
  assume d: "distinct (map fst d)"
  then have "map_of (rev d) k = Some v \<longleftrightarrow> map_of d k = Some v" for v
    by (simp add: map_of_eq_Some_iff flip: rev_map)
  then show "map_of (rev d) k = map_of d k" by (cases "map_of d k"; cases "map_of (rev d) k") auto
qed

lemma wp_total_time_samples:
  assumes "distinct (map fst (trigger_metadata t))"
  shows "wp (GenerateDisruptionTotalTimeSamples t ss)
    (\<lambda>ts n. world n = world m \<and> total_time_samples (disruption_events t) ts) (\<lambda>_ _. False) m"
  unfolding GenerateDisruptionTotalTimeSamples_def Let_def total_time_samples_def
  by (rule wp_mapPy_samples)
     (auto simp: new_sample_def wp_def run_at GetMetadataForTrigger_def time_time_def Let_def
       map_of_reversed [OF dict_update_keys_distinct [OF assms]])

text \<open>AppendSamples only appends, and numbers the disruptions: the samples that the run has stay, then
  there is one total time for each disruption, with its number, and then come the metrics.  If one of
  the metrics cannot be computed, the total times have been appended all the same.\<close>

lemma append_samples_order:
  assumes "the_trigger (world m) = t" and "the_samples (world m) = ss"
    and "distinct (map fst (trigger_metadata t))"
  shows "wp (AppendSamples percent window)
    (\<lambda>_ n. disruption_events (the_trigger (world n)) = numbered_events (disruption_events t)
      \<and> (\<exists>ts new. the_samples (world n) = ss @ ts @ new \<and> total_time_samples (numbered_events (disruption_events t)) ts))
    (\<lambda>_ n. \<exists>ts. the_samples (world n) = ss @ ts \<and> total_time_samples (numbered_events (disruption_events t)) ts) m"
proof -
  let ?t = "t\<lparr>disruption_events := numbered_events (disruption_events t)\<rparr>"
  define w where "w = (world m)\<lparr>the_trigger := ?t\<rparr>"
  have w: "the_samples w = ss" "the_trigger w = ?t" using assms by (simp_all add: w_def)
  have d: "distinct (map fst (trigger_metadata (the_trigger w)))" using assms(3) w by simp
  have rest: "wp (bindM (AppendAggregatedMetrics percent window (numbered_events (disruption_events t)) (ss @ ts)) (\<lambda>new. on_samples (\<lambda>ss. ss @ new)))
    (\<lambda>_ n. disruption_events (the_trigger (world n)) = numbered_events (disruption_events t)
      \<and> (\<exists>ts new. the_samples (world n) = ss @ ts @ new \<and> total_time_samples (numbered_events (disruption_events t)) ts))
    (\<lambda>_ n. \<exists>ts. the_samples (world n) = ss @ ts \<and> total_time_samples (numbered_events (disruption_events t)) ts) n"
    if "world n = w\<lparr>the_samples := ss @ ts\<rparr>" "total_time_samples (numbered_events (disruption_events t)) ts" for ts n
    unfolding wp_bindM
    by (rule wp_mono [OF keepsD [OF keeps_world_aggregated that(1)]])
       (use that(2) w in \<open>auto simp: wp_simps trig_defs\<close>)
  show ?thesis
    unfolding AppendSamples_def
    using assms(1,2)
    apply (simp add: wp_simps trig_defs(1) flip: w_def)
    apply (rule wp_mono [OF wp_total_time_samples [OF d]])
     apply (use rest w in \<open>auto simp: trig_defs wp_thenM wp_modifyM wp_bindM w_def\<close>)
    done
qed

end
