(* ===== verification/Maintenance.thy ===== *)
theory Maintenance
  imports Disruption
begin

text \<open>
  \<open>perfkitbenchmarker/time_triggers/maintenance_simulation_trigger.py\<close>: the trigger that has machines of
  Google Cloud migrated while a benchmark runs.  The log of the notifications is parsed into an event of
  \<open>Disruption\<close>.  The threads of the trigger, one for each machine, and the threads that wait for the
  notifications are a step relation.  What gcloud answers and what a machine's log holds are parameters.
\<close>

section \<open>The log of the notifications\<close>

text \<open>\<open>str.splitlines()\<close> and \<open>str.split(sep)\<close>\<close>

definition line_breaks :: string where
  "line_breaks = [CHR 0x0A, CHR 0x0B, CHR 0x0C, CHR 0x0D, CHR 0x1C, CHR 0x1D, CHR 0x1E]"

fun lines_loop :: "string \<Rightarrow> string \<Rightarrow> string list" where
  "lines_loop line [] = (if line = [] then [] else [line])"
| "lines_loop line (c # cs) =
     (if c = CHR 0x0D \<and> cs \<noteq> [] \<and> hd cs = CHR 0x0A then line # lines_loop [] (tl cs)
      else if c \<in> set line_breaks then line # lines_loop [] cs
      else lines_loop (line @ [c]) cs)"

definition splitlines :: "string \<Rightarrow> string list" where
  "splitlines = lines_loop []"

fun split_loop_at :: "string \<Rightarrow> string \<Rightarrow> nat \<Rightarrow> string \<Rightarrow> string list" where
  "split_loop_at sep part skip [] = [part]"
| "split_loop_at sep part (Suc k) (c # cs) = split_loop_at sep part k cs"
| "split_loop_at sep part 0 (c # cs) =
     (if prefix sep (c # cs) then part # split_loop_at sep [] (length sep - 1) cs
      else split_loop_at sep (part @ [c]) 0 cs)"

definition split_at :: "string \<Rightarrow> string \<Rightarrow> string list" where
  "split_at sep text_in = split_loop_at sep [] 0 text_in"

text \<open>\<open>float(x)\<close>, with the parser of texts given\<close>

fun to_float :: "(string \<Rightarrow> rat option) \<Rightarrow> pyval \<Rightarrow> exn + rat" where
  "to_float number (VNum r) = Inr r"
| "to_float number (VInt i) = Inr (of_int i)"
| "to_float number (VBool b) = Inr (if b then 1 else 0)"
| "to_float number (VStr s) = (case number s of None \<Rightarrow> Inl no_number | Some r \<Rightarrow> Inr r)"
| "to_float number _ = Inl number_error"

definition lm_start_key :: string where "lm_start_key = ''Host_maintenance_start''"
definition lm_end_key :: string where "lm_end_key = ''Host_maintenance_end''"
definition lm_total_key :: string where "lm_total_key = ''LM_total_time''"

lemmas lm_keys = lm_start_key_def lm_end_key_def lm_total_key_def

definition read_notice :: "string \<Rightarrow> metadata_dict \<Rightarrow> metadata_dict" where
  "read_notice line md =
     (let parts = split_at '' _at_ '' line
      in if length parts = 2 then dict_set md (parts ! 0) (VStr (parts ! 1)) else md)"

definition float_entry :: "(string \<Rightarrow> rat option) \<Rightarrow> metadata_dict \<Rightarrow> string \<Rightarrow> exn + rat" where
  "float_entry number md k = bindE (getitem_md md k) (to_float number)"

definition CollectLMNotificationsTime ::
  "(string \<Rightarrow> rat option) \<Rightarrow> int \<Rightarrow> string \<Rightarrow> exn + metadata_dict \<times> disruption_event" where
  "CollectLMNotificationsTime number instance_number lm_times =
     (if lm_times = [] then Inl (exn (Builtin ValueError) ''Cannot collect lm times. Live Migration might failed.'')
      else let md = fold read_notice (splitlines lm_times)
          [(''machine_instance'', VInt instance_number), (lm_start_key, VInt 0), (lm_end_key, VInt 0),
           (lm_total_key, VInt 0)] in
        bindE (float_entry number md lm_end_key) (\<lambda>stop.
        bindE (float_entry number md lm_start_key) (\<lambda>start.
        let md = dict_set md lm_total_key (VNum (stop - start)) in
        bindE (float_entry number md lm_start_key) (\<lambda>start.
        bindE (float_entry number md lm_end_key) (\<lambda>stop.
        bindE (float_entry number md lm_total_key) (\<lambda>time.
          Inr (md, \<lparr>start_time = start, end_time = stop, total_time = time, trigger_index = 0\<rparr>)))))))"

section \<open>The simulation of a maintenance\<close>

text \<open>The commands of gcloud give their output and their exit code.\<close>

datatype gcloud_command = SimulateMaintenance | ReadLog

definition simulation_error :: exn where
  "simulation_error = exn (VirtualMachine VirtualMachineError) ''Unable to simulate maintenance event.''"

definition SimulateMaintenanceEvent ::
  "(gcloud_command \<Rightarrow> (exn, 'w mach, string \<times> int) py) \<Rightarrow> (exn, 'w mach, unit) py" where
  "SimulateMaintenanceEvent Issue =
     bindM (Issue SimulateMaintenance) (\<lambda>(stdout, retcode).
     if retcode \<noteq> 0 \<or> str_in ''error'' stdout then raise simulation_error
     else thenM (time_sleep (10 * 60))
      (bindM (Issue ReadLog) (\<lambda>(stdout, retcode).
       if retcode = 0 \<and> str_in ''MIGRATION_TEMPORARILY_UNAVAILABLE'' stdout
       then bindM (Issue SimulateMaintenance) (\<lambda>(stdout, retcode).
         whenM (retcode \<noteq> 0 \<or> str_in ''error'' stdout) (raise simulation_error))
       else ret ())))"

text \<open>The helper of a machine.  The constructor of the one for Windows compares the machine with the
  class of Windows machines itself.\<close>

datatype 'vm gce_object = GceMachine 'vm bool | WindowsGceVirtualMachine

record 'vm lm_tool =
  tool_vm :: "'vm gce_object"
  for_windows :: bool

definition new_tool_for_windows :: "'vm gce_object \<Rightarrow> exn + 'vm lm_tool" where
  "new_tool_for_windows v =
     (if v \<noteq> WindowsGceVirtualMachine then Inl (exn (Builtin ValueError) ''WindowsGceVirtualMachine is required.'')
      else Inr \<lparr>tool_vm = v, for_windows = True\<rparr>)"

fun is_windows :: "'vm gce_object \<Rightarrow> bool" where
  "is_windows (GceMachine v windows) = windows"
| "is_windows WindowsGceVirtualMachine = False"

definition GCESimulateMaintenanceFactory :: "'vm gce_object \<Rightarrow> exn + 'vm lm_tool" where
  "GCESimulateMaintenanceFactory v =
     (if is_windows v then new_tool_for_windows v else Inr \<lparr>tool_vm = v, for_windows = False\<rparr>)"

text \<open>\<open>SetUp\<close>: a helper for each machine, then the script of each helper\<close>

fun make_helpers ::
  "'vm gce_object list \<Rightarrow> ('vm gce_object \<times> 'vm lm_tool) list \<Rightarrow> exn + ('vm gce_object \<times> 'vm lm_tool) list" where
  "make_helpers [] helpers = Inr helpers"
| "make_helpers (v # vs) helpers =
     bindE (GCESimulateMaintenanceFactory v) (\<lambda>h. make_helpers vs (dict_set helpers v h))"

definition SetUp ::
  "bool \<Rightarrow> ('vm lm_tool \<Rightarrow> (exn, 's, unit) py) \<Rightarrow> 'vm gce_object list \<Rightarrow> ('vm gce_object \<times> 'vm lm_tool) list
     \<Rightarrow> (exn, 's, ('vm gce_object \<times> 'vm lm_tool) list) py" where
  "SetUp capture SetupLMNotification vms helpers =
     bindM (lift (make_helpers vms helpers)) (\<lambda>helpers.
       thenM (if capture then forM (map snd helpers) SetupLMNotification else ret ()) (ret helpers))"

text \<open>\<open>MaintenanceEventTrigger()\<close>, and \<open>Register\<close>, which makes one if \<open>--simulate_maintenance\<close> is given\<close>

definition MaintenanceEventTrigger :: "rat \<Rightarrow> 'vm trigger" where
  "MaintenanceEventTrigger d = new_disruption_trigger ''simulate_maintenance'' d"

definition Register_maintenance :: "bool \<Rightarrow> rat \<Rightarrow> 'vm trigger option" where
  "Register_maintenance simulate_maintenance d =
     (if simulate_maintenance then Some (MaintenanceEventTrigger d) else None)"

section \<open>The threads of the trigger\<close>

text \<open>
  Thread \<open>k\<close> calls \<open>TriggerMethod\<close> for machine \<open>k\<close> of \<open>n\<close>: it starts a thread that waits for the
  notification and then releases the semaphore of the machine's helper, has the maintenance simulated, and in
  \<open>WaitForDisruption\<close> acquires the semaphores of all helpers in turn, and after each appends the event of
  the helper.  \<open>Waiting j\<close> is the place before the acquisition of semaphore \<open>j\<close>, \<open>Acquired j\<close> the one
  before the event is appended.
\<close>

datatype place = Asleep | Notified | Waiting nat | Acquired nat | Ended | Dead

record lm_state =
  threads :: "nat \<Rightarrow> place"
  subscribers :: "nat \<Rightarrow> nat"
  permits :: "nat \<Rightarrow> nat"
  collected :: "nat list"
  rounds :: nat

definition lm_initial :: lm_state where
  "lm_initial = \<lparr>threads = \<lambda>_. Asleep, subscribers = \<lambda>_. 0, permits = \<lambda>_. 0, collected = [], rounds = 0\<rparr>"

definition goes :: "nat \<Rightarrow> place \<Rightarrow> lm_state \<Rightarrow> lm_state" where
  "goes k p s = s\<lparr>threads := (threads s)(k := p)\<rparr>"

text \<open>A step is labelled with whether a call in it succeeds: the log may not be pulled, the simulation may
  raise, and so may the parser of the log.\<close>

inductive lm_step :: "bool \<Rightarrow> bool \<Rightarrow> nat \<Rightarrow> lm_state \<Rightarrow> bool \<Rightarrow> lm_state \<Rightarrow> bool" for capture forever n where
  start: "k < n \<Longrightarrow> threads s k = Asleep \<Longrightarrow> lm_step capture forever n s True
    (goes k Notified (if capture then s\<lparr>subscribers := (subscribers s)(k := subscribers s k + 1)\<rparr> else s))"
| release: "i < n \<Longrightarrow> subscribers s i > 0 \<Longrightarrow> lm_step capture forever n s True
    (s\<lparr>subscribers := (subscribers s)(i := subscribers s i - 1), permits := (permits s)(i := permits s i + 1)\<rparr>)"
| not_pulled: "i < n \<Longrightarrow> subscribers s i > 0 \<Longrightarrow> lm_step capture forever n s False
    (s\<lparr>subscribers := (subscribers s)(i := subscribers s i - 1)\<rparr>)"
| simulated: "k < n \<Longrightarrow> threads s k = Notified \<Longrightarrow>
    lm_step capture forever n s True (goes k (Waiting (if capture then 0 else n)) s)"
| not_simulated: "k < n \<Longrightarrow> threads s k = Notified \<Longrightarrow> lm_step capture forever n s False (goes k Dead s)"
| acquire: "k < n \<Longrightarrow> threads s k = Waiting i \<Longrightarrow> i < n \<Longrightarrow> permits s i > 0 \<Longrightarrow>
    lm_step capture forever n s True (goes k (Acquired i) (s\<lparr>permits := (permits s)(i := permits s i - 1)\<rparr>))"
| collect: "k < n \<Longrightarrow> threads s k = Acquired i \<Longrightarrow>
    lm_step capture forever n s True (goes k (Waiting (i + 1)) (s\<lparr>collected := collected s @ [i]\<rparr>))"
| not_collected: "k < n \<Longrightarrow> threads s k = Acquired i \<Longrightarrow> lm_step capture forever n s False (goes k Dead s)"
| counted: "k < n \<Longrightarrow> threads s k = Waiting n \<Longrightarrow>
    lm_step capture forever n s True (goes k (if forever then Asleep else Ended) (s\<lparr>rounds := rounds s + 1\<rparr>))"

inductive lm_run :: "bool \<Rightarrow> bool \<Rightarrow> nat \<Rightarrow> lm_state \<Rightarrow> bool list \<Rightarrow> lm_state \<Rightarrow> bool" for capture forever n s where
  none: "lm_run capture forever n s [] s"
| one_more: "lm_run capture forever n s bs t \<Longrightarrow> lm_step capture forever n t b u \<Longrightarrow>
    lm_run capture forever n s (bs @ [b]) u"

text \<open>The semaphore of helper \<open>i\<close> is released at most once: the notification is still to come, or can be
  acquired, or has been acquired by one thread that is past it.\<close>

fun past :: "nat \<Rightarrow> place \<Rightarrow> bool" where
  "past i (Waiting j) = (i < j)"
| "past i (Acquired j) = (i \<le> j)"
| "past i Ended = True"
| "past i _ = False"

definition past_count :: "nat \<Rightarrow> nat \<Rightarrow> (nat \<Rightarrow> place) \<Rightarrow> nat" where
  "past_count n i ths = (\<Sum>k<n. of_bool (past i (ths k)))"

definition tokens :: "nat \<Rightarrow> nat \<Rightarrow> lm_state \<Rightarrow> nat" where
  "tokens n i s = subscribers s i + permits s i + past_count n i (threads s) + of_bool (threads s i = Asleep)"

text \<open>Where the threads are: the one that is past the first semaphore has collected the events so far.\<close>

fun in_step :: "nat \<Rightarrow> nat \<Rightarrow> place \<Rightarrow> bool" where
  "in_step n m (Waiting j) = (j \<noteq> 0 \<longrightarrow> j = m)"
| "in_step n m (Acquired j) = (j = m \<and> j < n)"
| "in_step n m Ended = (m = n)"
| "in_step n m _ = True"

definition lm_inv :: "nat \<Rightarrow> lm_state \<Rightarrow> bool" where
  "lm_inv n s \<longleftrightarrow> (\<forall>i<n. tokens n i s \<le> 1) \<and> (\<forall>k<n. in_step n (length (collected s)) (threads s k))
    \<and> collected s = [0..<length (collected s)] \<and> length (collected s) \<le> n
    \<and> (collected s \<noteq> [] \<longrightarrow> subscribers s 0 = 0 \<and> permits s 0 = 0 \<and> threads s 0 \<noteq> Asleep)
    \<and> rounds s = (\<Sum>k<n. of_bool (threads s k = Ended))"

lemma sum_moved:
  assumes "k < (n :: nat)"
  shows "(\<Sum>j<n. of_bool (P ((ths(k := p)) j))) + of_bool (P (ths k)) = (\<Sum>j<n. of_bool (P (ths j))) + (of_bool (P p) :: nat)"
proof -
  have "(\<Sum>j<n. of_bool (P (f j))) = (of_bool (P (f k)) :: nat) + (\<Sum>j\<in>{..<n} - {k}. of_bool (P (f j)))" for f
    using assms by (intro sum.remove) auto
  from this [of ths] this [of "ths(k := p)"] show ?thesis by simp
qed

lemma past_count_moved:
  "k < n \<Longrightarrow> past_count n i (ths(k := p)) + of_bool (past i (ths k)) = past_count n i ths + of_bool (past i p)"
  unfolding past_count_def by (rule sum_moved)

lemma past_unique:
  assumes "past_count n i ths \<le> 1" and "j < n" "k < n" "past i (ths j)" "past i (ths k)"
  shows "j = k"
proof (rule ccontr)
  assume "j \<noteq> k"
  then have "(\<Sum>l\<in>{j, k}. of_bool (past i (ths l))) = (2 :: nat)" using assms by simp
  moreover have "(\<Sum>l\<in>{j, k}. of_bool (past i (ths l))) \<le> past_count n i ths"
    unfolding past_count_def using assms by (intro sum_mono2) auto
  ultimately show False using assms(1) by simp
qed

lemma lm_inv_initial: "lm_inv n lm_initial"
  by (simp add: lm_inv_def lm_initial_def tokens_def past_count_def)

lemma goes_simps [simp]:
  "threads (goes k p s) = (threads s)(k := p)" "subscribers (goes k p s) = subscribers s"
  "permits (goes k p s) = permits s" "collected (goes k p s) = collected s" "rounds (goes k p s) = rounds s"
  by (simp_all add: goes_def)

lemma tokens_step:
  assumes "lm_step True False n s b t" and "i < n"
  shows "tokens n i t \<le> tokens n i s \<and> (b \<longrightarrow> tokens n i t = tokens n i s)"
  using assms(1)
proof (cases rule: lm_step.cases)
  case (start k)
  then show ?thesis using past_count_moved [of k n i "threads s" Notified] by (auto simp: tokens_def)
next
  case (simulated k)
  then show ?thesis using past_count_moved [of k n i "threads s" "Waiting 0"] by (auto simp: tokens_def)
next
  case (not_simulated k)
  then show ?thesis using past_count_moved [of k n i "threads s" Dead] by (auto simp: tokens_def)
next
  case (acquire k j)
  have "past i (Acquired j) \<longleftrightarrow> past i (Waiting j) \<or> i = j" by auto
  with acquire show ?thesis
    using past_count_moved [of k n i "threads s" "Acquired j"] by (auto simp: tokens_def)
next
  case (collect k j)
  then show ?thesis
    using past_count_moved [of k n i "threads s" "Waiting (j + 1)"] by (auto simp: tokens_def less_Suc_eq_le)
next
  case (not_collected k j)
  then show ?thesis using past_count_moved [of k n i "threads s" Dead] by (auto simp: tokens_def)
next
  case (counted k)
  then show ?thesis using past_count_moved [of k n i "threads s" Ended] assms(2) by (auto simp: tokens_def)
qed (auto simp: tokens_def)

lemma not_past_first: "\<not> past 0 p \<Longrightarrow> in_step n m p \<Longrightarrow> in_step n m' p"
  by (cases p) auto

lemma lm_inv_step:
  assumes "lm_step True False n s b t" and I: "lm_inv n s"
  shows "lm_inv n t"
proof -
  have tok: "\<forall>i<n. tokens n i t \<le> 1"
    using I tokens_step [OF assms(1)] by (fastforce simp: lm_inv_def)
  have places: "in_step n (length (collected s)) (threads s k)" if "k < n" for k
    using I that by (simp add: lm_inv_def)
  note ended = sum_moved [where P = "\<lambda>p. p = Ended"]
  from assms(1) show ?thesis
  proof (cases rule: lm_step.cases)
    case (start k)
    with I tok ended [of k n "threads s" Notified] show ?thesis by (auto simp: lm_inv_def)
  next
    case (simulated k)
    with I tok ended [of k n "threads s" "Waiting 0"] show ?thesis by (auto simp: lm_inv_def)
  next
    case (not_simulated k)
    with I tok ended [of k n "threads s" Dead] show ?thesis by (auto simp: lm_inv_def)
  next
    case (acquire k j)
    have "j = length (collected s)"
      using places [of k] acquire I by (cases "j = 0") (auto simp: lm_inv_def)
    with acquire I tok ended [of k n "threads s" "Acquired j"] show ?thesis by (auto simp: lm_inv_def)
  next
    case (collect k j)
    have j: "j = length (collected s)" "j < n" using places [of k] collect by auto
    have "past_count n 0 (threads s) \<le> 1" using I j by (auto simp: lm_inv_def tokens_def)
    then have "\<not> past 0 (threads s l)" if "l < n" "l \<noteq> k" for l
      using past_unique [of n 0 "threads s" l k] that collect by auto
    then have others: "in_step n (length (collected t)) (threads s l)" if "l < n" "l \<noteq> k" for l
      using not_past_first places that by blast
    have "past_count n 0 (threads s) \<noteq> 0"
      using collect by (auto simp: past_count_def)
    moreover have "tokens n 0 s \<le> 1" using I j by (auto simp: lm_inv_def)
    ultimately have "subscribers s 0 = 0 \<and> permits s 0 = 0 \<and> threads s 0 \<noteq> Asleep"
      by (auto simp: tokens_def)
    with collect I tok j others ended [of k n "threads s" "Waiting (j + 1)"] show ?thesis
      by (auto simp: lm_inv_def)
  next
    case (not_collected k j)
    with I tok ended [of k n "threads s" Dead] show ?thesis by (auto simp: lm_inv_def)
  next
    case (counted k)
    have "n = length (collected s)" using places [of k] counted by auto
    with counted I tok ended [of k n "threads s" Ended] show ?thesis by (auto simp: lm_inv_def)
  qed (use I tok in \<open>auto simp: lm_inv_def\<close>)
qed

lemma lm_inv_run: "lm_run True False n lm_initial bs s \<Longrightarrow> lm_inv n s"
  by (induction rule: lm_run.induct) (auto intro: lm_inv_initial lm_inv_step)

text \<open>Every step brings the threads closer to their end.\<close>

fun place_weight :: "nat \<Rightarrow> place \<Rightarrow> nat" where
  "place_weight n Asleep = 2 * n + 4"
| "place_weight n Notified = 2 * n + 2"
| "place_weight n (Waiting j) = 2 * (n - j) + 1"
| "place_weight n (Acquired j) = 2 * (n - j)"
| "place_weight n _ = 0"

definition lm_weight :: "nat \<Rightarrow> lm_state \<Rightarrow> nat" where
  "lm_weight n s = (\<Sum>k<n. place_weight n (threads s k)) + (\<Sum>i<n. subscribers s i)"

lemma sum_updated:
  assumes "k < (n :: nat)"
  shows "(\<Sum>j<n. w ((f(k := p)) j)) + w (f k) = (\<Sum>j<n. w (f j)) + (w p :: nat)"
proof -
  have "(\<Sum>j<n. w (g j)) = w (g k) + (\<Sum>j\<in>{..<n} - {k}. w (g j))" for g
    using assms by (intro sum.remove) auto
  from this [of f] this [of "f(k := p)"] show ?thesis by simp
qed

lemma lm_weight_step:
  assumes "lm_step True False n s b t" and I: "lm_inv n s"
  shows "lm_weight n t < lm_weight n s"
proof -
  have places: "in_step n (length (collected s)) (threads s k)" if "k < n" for k
    using I that by (simp add: lm_inv_def)
  note moved = sum_updated [where w = "place_weight n" and f = "threads s"]
    and subs = sum_updated [where w = id and f = "subscribers s", simplified]
  from assms(1) show ?thesis
  proof (cases rule: lm_step.cases)
    case (start k)
    then show ?thesis using moved [of k n Notified] subs [of k n "Suc (subscribers s k)"] by (simp add: lm_weight_def)
  next
    case (release i)
    then show ?thesis using subs [of i n "subscribers s i - Suc 0"] by (simp add: lm_weight_def)
  next
    case (not_pulled i)
    then show ?thesis using subs [of i n "subscribers s i - Suc 0"] by (simp add: lm_weight_def)
  next
    case (simulated k)
    then show ?thesis using moved [of k n "Waiting 0"] by (simp add: lm_weight_def)
  next
    case (not_simulated k)
    then show ?thesis using moved [of k n Dead] by (simp add: lm_weight_def)
  next
    case (acquire k j)
    then show ?thesis using moved [of k n "Acquired j"] by (simp add: lm_weight_def)
  next
    case (collect k j)
    then have "j < n" using places [of k] by simp
    with collect show ?thesis using moved [of k n "Waiting (j + 1)"] by (simp add: lm_weight_def)
  next
    case (not_collected k j)
    then have "j < n" using places [of k] by simp
    with not_collected show ?thesis using moved [of k n Dead] by (simp add: lm_weight_def)
  next
    case (counted k)
    then show ?thesis using moved [of k n Ended] by (simp add: lm_weight_def)
  qed
qed

lemma lm_run_bounded:
  assumes "lm_run True False n lm_initial bs s"
  shows "length bs + lm_weight n s \<le> n * (2 * n + 4)"
  using assms
proof (induction rule: lm_run.induct)
  case none
  then show ?case by (simp add: lm_weight_def lm_initial_def)
next
  case (one_more bs s b t)
  then show ?case using lm_weight_step [OF one_more.hyps(2) lm_inv_run [OF one_more.hyps(1)]] by simp
qed

text \<open>Runs without failures\<close>

lemma lm_run_fine:
  assumes "lm_run True False n lm_initial bs s" and "list_all id bs"
  shows "(\<forall>i<n. tokens n i s = 1) \<and> (\<forall>k<n. threads s k \<noteq> Dead)"
  using assms
proof (induction rule: lm_run.induct)
  case none
  then show ?case by (simp add: tokens_def lm_initial_def past_count_def)
next
  case (one_more bs s b t)
  then have ok: "b" "(\<forall>i<n. tokens n i s = 1) \<and> (\<forall>k<n. threads s k \<noteq> Dead)" by auto
  have "threads t k \<noteq> Dead" if "k < n" for k
    using one_more.hyps(2)
    by (cases rule: lm_step.cases) (use ok that in \<open>auto split: if_splits\<close>)
  with ok show ?case using tokens_step [OF one_more.hyps(2)] by auto
qed

lemma lm_stuck:
  assumes run: "lm_run True False n lm_initial bs s" "list_all id bs" and "0 < n"
    and stuck: "\<And>t. \<not> lm_step True False n s True t"
  obtains k where "k < n" "threads s k = Ended" "\<And>l. l < n \<Longrightarrow> l \<noteq> k \<Longrightarrow> threads s l = Waiting 0"
proof -
  note I = lm_inv_run [OF run(1)]
  have fine: "tokens n i s = 1" "threads s i \<noteq> Dead" if "i < n" for i
    using lm_run_fine [OF run] that by auto
  have quiet: "subscribers s i = 0" "threads s i \<noteq> Asleep" "threads s i \<noteq> Notified" "threads s i \<noteq> Acquired j"
    "threads s i \<noteq> Waiting n" "threads s i = Waiting j \<Longrightarrow> j < n \<Longrightarrow> permits s j = 0" if "i < n" for i j
    using stuck that lm_step.release lm_step.start lm_step.simulated lm_step.collect lm_step.counted lm_step.acquire
    by (metis gr0I)+
  have places: "in_step n (length (collected s)) (threads s k)" if "k < n" for k
    using I that by (simp add: lm_inv_def)
  have le: "length (collected s) \<le> n" using I by (simp add: lm_inv_def)
  have one: "permits s i + past_count n i (threads s) = 1" if "i < n" for i
    using fine(1) [OF that] quiet(1,2) [OF that] by (simp add: tokens_def)
  have "\<exists>k<n. past i (threads s k)" if "i < n" "permits s i = 0" for i
  proof (rule ccontr)
    assume "\<not> (\<exists>k<n. past i (threads s k))"
    then have "past_count n i (threads s) = 0" unfolding past_count_def by (intro sum.neutral) auto
    with one [OF that(1)] that show False by simp
  qed
  moreover have waiting: "past 0 (threads s k) \<or> threads s k = Waiting 0" if "k < n" for k
    using quiet [OF that] fine(2) [OF that] by (cases "threads s k") auto
  moreover have "past_count n 0 (threads s) \<le> 1" using one [OF assms(3)] by simp
  ultimately obtain k where k: "k < n" "past 0 (threads s k)"
    using quiet(6) [of 0 0] assms(3) by (metis past.simps(1) less_irrefl)
  have others: "threads s l = Waiting 0" if "l < n" "l \<noteq> k" for l
    using past_unique [OF \<open>past_count n 0 (threads s) \<le> 1\<close> that(1) k(1) _ k(2)] that waiting by blast
  moreover have "threads s k = Ended"
  proof (rule ccontr)
    assume "threads s k \<noteq> Ended"
    with k quiet [OF k(1)] fine(2) [OF k(1)] obtain j where j: "threads s k = Waiting j" "0 < j" "j \<noteq> n"
      by (cases "threads s k") auto
    then have "j < n" using places [OF k(1)] le by auto
    with quiet(6) [OF k(1) j(1)] obtain l where "l < n" "past j (threads s l)"
      using \<open>\<And>i. i < n \<Longrightarrow> permits s i = 0 \<Longrightarrow> \<exists>k<n. past i (threads s k)\<close> by blast
    then show False using others [of l] j by (cases "l = k") auto
  qed
  ultimately show thesis using that k by blast
qed

section \<open>Parsing the log\<close>

lemma lines_loop_line:
  "set line \<inter> set line_breaks = {} \<Longrightarrow> lines_loop acc (line @ CHR 0x0A # rest) = (acc @ line) # lines_loop [] rest"
proof (induction line arbitrary: acc)
  case (Cons c line)
  then have "c \<noteq> CHR 0x0D" "c \<notin> set line_breaks" by (auto simp: line_breaks_def)
  with Cons show ?case by simp
qed (simp add: line_breaks_def)

lemma splitlines_join:
  assumes "\<forall>l \<in> set ls. set l \<inter> set line_breaks = {}"
  shows "splitlines (concat (map (\<lambda>l. l @ [CHR 0x0A]) ls)) = ls"
  using assms by (induction ls) (simp_all add: splitlines_def lines_loop_line)

lemma split_loop_at_plain:
  assumes "sep \<noteq> []" and "hd sep \<notin> set xs"
  shows "split_loop_at sep part 0 xs = [part @ xs]"
  using assms(2)
proof (induction xs arbitrary: part)
  case (Cons x xs)
  then have "\<not> prefix sep (x # xs)" using assms(1) by (cases sep) auto
  with Cons show ?case by simp
qed simp

lemma split_loop_at_skip: "split_loop_at sep part (length xs) (xs @ ys) = split_loop_at sep part 0 ys"
  by (induction xs) simp_all

lemma split_loop_at_sep:
  assumes "sep \<noteq> []"
  shows "split_loop_at sep part 0 (sep @ ys) = part # split_loop_at sep [] 0 ys"
proof -
  obtain c cs where "sep = c # cs" using assms by (cases sep) auto
  then show ?thesis using split_loop_at_skip [of "c # cs" "[]" cs ys] by (simp add: prefix_def)
qed

lemma split_at_pair:
  assumes "sep \<noteq> []" and "hd sep \<notin> set xs" and "hd sep \<notin> set ys"
  shows "split_at sep (xs @ sep @ ys) = [xs, ys]"
proof -
  have "split_loop_at sep part 0 (xs @ sep @ ys) = [part @ xs, ys]" for part
    using assms(2)
  proof (induction xs arbitrary: part)
    case Nil
    then show ?case
      using split_loop_at_sep [OF assms(1)] split_loop_at_plain [OF assms(1,3)] by simp
  next
    case (Cons x xs)
    then have "\<not> prefix sep ((x # xs) @ sep @ ys)" using assms(1) by (cases sep) auto
    with Cons show ?case by simp
  qed
  then show ?thesis by (simp add: split_at_def)
qed

text \<open>Lines that are not notifications are skipped.\<close>

definition noise :: "string \<Rightarrow> bool" where
  "noise line \<longleftrightarrow> set line \<inter> set line_breaks = {} \<and> length (split_at '' _at_ '' line) \<noteq> 2"

lemma fold_read_noise: "list_all noise ls \<Longrightarrow> fold read_notice ls md = md"
  by (induction ls) (auto simp: noise_def read_notice_def Let_def)

definition notice :: "string \<Rightarrow> string \<Rightarrow> string" where
  "notice k v = k @ '' _at_ '' @ v"

definition plain :: "string \<Rightarrow> bool" where
  "plain v \<longleftrightarrow> CHR '' '' \<notin> set v \<and> set v \<inter> set line_breaks = {}"

lemma read_notice_notice:
  assumes "CHR '' '' \<notin> set k" and "plain v"
  shows "read_notice (notice k v) md = dict_set md k (VStr v)"
  using split_at_pair [of "'' _at_ ''" k v] assms by (simp add: read_notice_def notice_def plain_def)

section \<open>Properties\<close>

text \<open>A Windows machine cannot be migrated: the constructor of its helper always raises.\<close>

lemma make_helpers_windows:
  "\<exists>e. make_helpers (vs @ GceMachine v True # vs') helpers = Inl e \<and> type_of e = Builtin ValueError"
proof (induction vs arbitrary: helpers)
  case (Cons x vs)
  then show ?case
    by (cases "GCESimulateMaintenanceFactory x")
       (auto simp: GCESimulateMaintenanceFactory_def new_tool_for_windows_def exn_def split: if_splits)
qed (simp add: GCESimulateMaintenanceFactory_def new_tool_for_windows_def exn_def)

lemma windows_helper_raises:
  "wp (SetUp capture S (vs @ GceMachine v True # vs') helpers) (\<lambda>_ _. False) (\<lambda>e _. type_of e = Builtin ValueError) m"
  using make_helpers_windows [of vs v vs' helpers] by (auto simp: SetUp_def wp_simps)

text \<open>C37: The log of the notifications is read back: whatever other lines are in the log, the event has
  the start and the end that the two notifications name, and the time between them as its total time.\<close>

theorem notifications_roundtrip:
  assumes "plain a" "plain b" "number a = Some x" "number b = Some y"
    and "list_all noise (before @ between @ after)"
  shows "\<exists>md. CollectLMNotificationsTime number i
      (concat (map (\<lambda>l. l @ [CHR 0x0A]) (before @ [notice ''Host_maintenance_start'' a] @ between
        @ [notice ''Host_maintenance_end'' b] @ after)))
    = Inr (md, \<lparr>start_time = x, end_time = y, total_time = y - x, trigger_index = 0\<rparr>)"
proof -
  let ?ls = "before @ [notice ''Host_maintenance_start'' a] @ between @ [notice ''Host_maintenance_end'' b] @ after"
  have breaks: "\<forall>l \<in> set ?ls. set l \<inter> set line_breaks = {}"
    using assms(1,2,5) by (auto simp: noise_def list_all_iff notice_def plain_def line_breaks_def)
  have "fold read_notice ?ls md = dict_set (dict_set md ''Host_maintenance_start'' (VStr a)) ''Host_maintenance_end'' (VStr b)" for md
    using assms(1,2,5) by (simp add: fold_read_noise read_notice_notice)
  moreover have "concat (map (\<lambda>l. l @ [CHR 0x0A]) ?ls) \<noteq> []" by simp
  ultimately show ?thesis
    using splitlines_join [OF breaks] assms(3,4)
    by (simp add: CollectLMNotificationsTime_def Let_def lm_keys float_entry_def getitem_md_def del: map_append concat_append)
qed

lemma notifications_roundtrip_witness:
  "\<exists>md. CollectLMNotificationsTime (\<lambda>s. if s = ''10'' then Some 10 else if s = ''25'' then Some 25 else None) 1
      (concat (map (\<lambda>l. l @ [CHR 0x0A]) ([''Traceback''] @ [notice ''Host_maintenance_start'' ''10''] @ []
        @ [notice ''Host_maintenance_end'' ''25''] @ [])))
    = Inr (md, \<lparr>start_time = 10, end_time = 25, total_time = 25 - 10, trigger_index = 0\<rparr>)"
  by (rule notifications_roundtrip)
     (simp_all add: plain_def noise_def line_breaks_def split_at_def prefix_def)

text \<open>C34: If timestamps are captured and the trigger is not repeated for ever, as by default, then in every
  interleaving of the threads of the trigger, with failures or without, the events of
  the machines are collected in order and none twice, and at most one thread counts its round, after it
  has collected the events of all machines.\<close>

theorem disruptions_collected_once:
  assumes "lm_run True False n lm_initial bs s" and "0 < n"
  shows "collected s = [0..<length (collected s)] \<and> length (collected s) \<le> n \<and> rounds s \<le> 1
    \<and> (rounds s = 1 \<longrightarrow> collected s = [0..<n])"
proof -
  note I = lm_inv_run [OF assms(1)]
  have "rounds s = (\<Sum>k<n. of_bool (threads s k = Ended))" using I by (simp add: lm_inv_def)
  also have "\<dots> \<le> past_count n 0 (threads s)"
    unfolding past_count_def by (rule sum_mono) simp
  also have "\<dots> \<le> 1" using I assms(2) by (auto simp: lm_inv_def tokens_def)
  finally have "rounds s \<le> 1" .
  moreover have "length (collected s) = n" if "rounds s = 1"
  proof -
    have "\<exists>k<n. threads s k = Ended"
    proof (rule ccontr)
      assume "\<not> (\<exists>k<n. threads s k = Ended)"
      then have "rounds s = 0" using I by (auto simp: lm_inv_def intro!: sum.neutral)
      with that show False by simp
    qed
    then show ?thesis using I by (auto simp: lm_inv_def)
  qed
  ultimately show ?thesis using I by (auto simp: lm_inv_def)
qed

text \<open>C35: If timestamps are captured and the trigger is not repeated for ever, as by default, the threads of the
  trigger cannot run for ever, and when no call fails and none can go on, the
  events of all machines have been collected, by one thread; the threads of all other machines wait for the
  first semaphore for ever and are never counted.\<close>

theorem disruptions_all_collected:
  assumes "lm_run True False n lm_initial bs s" and "0 < n"
  shows "length bs \<le> n * (2 * n + 4)
    \<and> (list_all id bs \<and> (\<forall>t. \<not> lm_step True False n s True t) \<longrightarrow>
      collected s = [0..<n] \<and> rounds s = 1 \<and> (\<exists>k<n. \<forall>l<n. threads s l = (if l = k then Ended else Waiting 0)))"
proof (intro conjI impI)
  show "length bs \<le> n * (2 * n + 4)" using lm_run_bounded [OF assms(1)] by simp
next
  assume "list_all id bs \<and> (\<forall>t. \<not> lm_step True False n s True t)"
  then obtain k where k: "k < n" "threads s k = Ended" "\<And>l. l < n \<Longrightarrow> l \<noteq> k \<Longrightarrow> threads s l = Waiting 0"
    using lm_stuck [OF assms(1) _ assms(2)] by metis
  note I = lm_inv_run [OF assms(1)]
  have "(\<Sum>l<n. of_bool (threads s l = Ended)) = (\<Sum>l\<in>{k}. (1 :: nat))"
    using k by (intro sum.mono_neutral_cong_right) auto
  then show "rounds s = 1" using I by (simp add: lm_inv_def)
  have "length (collected s) = n" using I k(1,2) by (auto simp: lm_inv_def)
  then show "collected s = [0..<n]" using I by (metis lm_inv_def)
  show "\<exists>k<n. \<forall>l<n. threads s l = (if l = k then Ended else Waiting 0)" using k by auto
qed

text \<open>Two machines: one thread collects both events, the other one waits.\<close>

definition fine_run :: "nat \<Rightarrow> lm_state \<Rightarrow> bool" where
  "fine_run n s \<longleftrightarrow> (\<exists>bs. list_all id bs \<and> lm_run True False n lm_initial bs s)"

lemma fine_run_initial: "fine_run n lm_initial"
  unfolding fine_run_def by (intro exI [of _ "[]"]) (simp add: lm_run.none)

lemma fine_run_step:
  assumes "fine_run n s" and "lm_step True False n s True t"
  shows "fine_run n t"
proof -
  obtain bs where "list_all id bs" "lm_run True False n lm_initial bs s" using assms(1) by (auto simp: fine_run_def)
  then show ?thesis
    unfolding fine_run_def using lm_run.one_more [OF _ assms(2)] by (intro exI [of _ "bs @ [True]"]) simp
qed

lemma two_machines:
  obtains s :: lm_state where "fine_run 2 s" "\<And>i. subscribers s i = 0" "\<And>i. permits s i = 0"
    "threads s 0 = Ended" "threads s 1 = Waiting 0"
proof -
  note norm = lm_initial_def goes_def
  note s1 = fine_run_step [OF fine_run_initial [of 2] lm_step.start [of 0], simplified norm, simplified]
  note s2 = fine_run_step [OF s1 lm_step.start [of 1], simplified norm, simplified]
  note s3 = fine_run_step [OF s2 lm_step.release [of 0], simplified norm, simplified]
  note s4 = fine_run_step [OF s3 lm_step.release [of 1], simplified norm, simplified]
  note s5 = fine_run_step [OF s4 lm_step.simulated [of 0], simplified norm, simplified]
  note s6 = fine_run_step [OF s5 lm_step.simulated [of 1], simplified norm, simplified]
  note s7 = fine_run_step [OF s6 lm_step.acquire [of 0 _ _ 0], simplified norm, simplified]
  note s8 = fine_run_step [OF s7 lm_step.collect [of 0 _ _ 0], simplified norm, simplified]
  note s9 = fine_run_step [OF s8 lm_step.acquire [of 0 _ _ 1], simplified norm, simplified]
  note s10 = fine_run_step [OF s9 lm_step.collect [of 0 _ _ 1], simplified norm, simplified]
  note s11 = fine_run_step [OF s10 lm_step.counted [of 0], simplified norm, simplified]
  show thesis by (rule that [OF s11]) simp_all
qed

lemma disruptions_collected_once_witness:
  "\<exists>s bs. lm_run True False 2 lm_initial bs s \<and> rounds s \<le> 1 \<and> (rounds s = 1 \<longrightarrow> collected s = [0, 1])"
proof -
  obtain s :: lm_state where "fine_run 2 s" by (rule two_machines) (rule that)
  then obtain bs where "lm_run True False 2 lm_initial bs s" by (auto simp: fine_run_def)
  with disruptions_collected_once [OF this] show ?thesis by (auto simp: upt_rec)
qed

lemma disruptions_all_collected_witness:
  "\<exists>s :: lm_state. collected s = [0, 1] \<and> rounds s = 1 \<and> threads s 1 = Waiting 0"
proof -
  obtain s :: lm_state where s: "fine_run 2 s" "\<And>i. subscribers s i = 0" "\<And>i. permits s i = 0"
    "threads s 0 = Ended" "threads s 1 = Waiting 0" by (rule two_machines) (rule that)
  then obtain bs where bs: "list_all id bs" "lm_run True False 2 lm_initial bs s" by (auto simp: fine_run_def)
  have "\<not> lm_step True False 2 s True t" for t
    using s(2-5) by (auto elim!: lm_step.cases simp: less_2_cases_iff)
  with disruptions_all_collected [OF bs(2)] bs(1) have "collected s = [0..<2] \<and> rounds s = 1" by auto
  then have "collected s = [0, 1] \<and> rounds s = 1 \<and> threads s 1 = Waiting 0" using s(5) by (simp add: upt_rec)
  then show ?thesis by blast
qed

end
