(* ===== verification/Disks.thy ===== *)
theory Disks
  imports VmGroups FlagValues
begin

text \<open>
  \<open>perfkitbenchmarker/disk_strategies.py\<close>: how the disks of a machine are created, prepared and
  detached.  The state is the list of the scratch disks of the machine and the commands that have been given
  to it, in order; what a command does and prints is a parameter, and so are the methods of the machine that
  only ask something.  What the providers' strategies do is a parameter too.
\<close>

section \<open>Machines and commands\<close>

datatype vm_command = RemoteCommand string | RemoteHostCommand string | RunDiskpartScript string
  | Install string | StripeDisks "string list" string | FormatDisk string string
  | MountDisk string string string string string

text \<open>A disk: whether it is an object of the class of striped disks, whether it is striped, its path, the
  paths of its parts, and its options\<close>

record scratch_disk =
  of_striped_class :: bool
  is_striped :: bool
  device_path :: string
  part_paths :: "string list"
  mount_options :: string
  fstab_options :: string

record disk_request =
  mount_point :: string
  disk_type :: string
  disk_size :: string
  spec_device_path :: string

record 'w disk_world =
  scratch_disks :: "scratch_disk list"
  commands :: "vm_command list"
  elsewhere :: 'w

type_synonym ('w, 'a) disk_act = "(exn, 'w disk_world mach, 'a) py"

record 'w disk_vm =
  os_type :: string
  local_disks :: int
  assigned_disk_letter :: string
  perform :: "vm_command \<Rightarrow> ('w, string) disk_act"
  IsMounted :: "string \<Rightarrow> string \<Rightarrow> ('w, bool) disk_act"
  hasStripedDiskDevice :: "string \<Rightarrow> ('w, bool) disk_act"
  DiskDriveIsLocal :: "string \<Rightarrow> string \<Rightarrow> ('w, bool) disk_act"
  lsblk_types :: "('w, string list option) disk_act"

text \<open>A command is given, and then its output is there.\<close>

definition issue :: "'w disk_vm \<Rightarrow> vm_command \<Rightarrow> ('w, string) disk_act" where
  "issue V c = thenM (modifyM (\<lambda>m. m\<lparr>world := (world m)\<lparr>commands := commands (world m) @ [c]\<rparr>\<rparr>)) (perform V c)"

definition tell :: "'w disk_vm \<Rightarrow> vm_command \<Rightarrow> ('w, unit) disk_act" where
  "tell V c = bindM (issue V c) (\<lambda>_. ret ())"

definition add_scratch_disk :: "scratch_disk \<Rightarrow> ('w, unit) disk_act" where
  "add_scratch_disk d =
     modifyM (\<lambda>m. m\<lparr>world := (world m)\<lparr>scratch_disks := scratch_disks (world m) @ [d]\<rparr>\<rparr>)"

definition disk_state :: "('w disk_world \<Rightarrow> 'a) \<Rightarrow> ('w, 'a) disk_act" where
  "disk_state f = getM (\<lambda>m. f (world m))"

lemmas disk_defs = issue_def tell_def add_scratch_disk_def disk_state_def

definition not_implemented :: "string \<Rightarrow> exn" where
  "not_implemented msg = exn (Builtin NotImplementedError) msg"

section \<open>Creating disks\<close>

text \<open>\<open>CreateDiskStrategy.__init__\<close>: the specs of the disks; the count keeps what was given.\<close>

record create_strategy =
  strategy_count :: "int option"
  strategy_specs :: "metadata_dict list"

definition new_create_strategy :: "metadata_dict \<Rightarrow> int option \<Rightarrow> int \<Rightarrow> exn + create_strategy" where
  "new_create_strategy d count local_count =
     bindE (disk_copies d count local_count) (\<lambda>ds. Inr \<lparr>strategy_count = count, strategy_specs = ds\<rparr>)"

definition CreateAndAttachDisk :: "bool \<Rightarrow> ('w, unit) disk_act \<Rightarrow> ('w, unit) disk_act" where
  "CreateAndAttachDisk DiskCreatedOnVMCreation create =
     (if \<not> DiskCreatedOnVMCreation then ret () else create)"

section \<open>Setting up\<close>

text \<open>\<open>posixpath.join(a, b)\<close> for a relative \<open>b\<close>\<close>

definition path_join :: "string \<Rightarrow> string \<Rightarrow> string" where
  "path_join a b = (if a = [] \<or> last a = CHR ''/'' then a @ b else a @ ''/'' @ b)"

definition SetUpDisk ::
  "'w disk_vm \<Rightarrow> (disk_request \<Rightarrow> ('w, unit) disk_act) \<Rightarrow> (disk_request \<Rightarrow> ('w, unit) disk_act) \<Rightarrow> disk_request
     \<Rightarrow> ('w, disk_request) disk_act" where
  "SetUpDisk V SetUpDiskOnLinux SetUpDiskOnWindows s =
     (let target = mount_point s
      in if os_type V \<in> set LINUX_OS_TYPES
         then bindM (if target \<noteq> [] \<and> \<not> prefix ''/'' target
             then bindM (issue V (RemoteCommand ''pwd'')) (\<lambda>pwd. ret (s\<lparr>mount_point := path_join (strip is_space pwd) target\<rparr>))
             else ret s) (\<lambda>s. thenM (SetUpDiskOnLinux s) (ret s))
         else thenM (SetUpDiskOnWindows s) (ret s))"

definition unsupported_setup :: "string \<Rightarrow> disk_request \<Rightarrow> ('w, unit) disk_act" where
  "unsupported_setup os s = raise (not_implemented (disk_type s @ '' is not supported on '' @ os @ ''.''))"

definition SetUpRamDisk :: "'w disk_vm \<Rightarrow> (disk_request \<Rightarrow> scratch_disk) \<Rightarrow> disk_request \<Rightarrow> ('w, unit) disk_act" where
  "SetUpRamDisk V BaseDisk s =
     thenM (tell V (RemoteHostCommand
       (''sudo mkdir -p '' @ mount_point s @ '';sudo mount -t tmpfs -o size='' @ disk_size s @ ''g tmpfs '' @ mount_point s
        @ '';sudo chown -R $USER:$USER '' @ mount_point s @ '';''))) (add_scratch_disk (BaseDisk s))"

definition SetUpNFSDisk :: "'w disk_vm \<Rightarrow> ('w, scratch_disk) disk_act \<Rightarrow> disk_request \<Rightarrow> ('w, unit) disk_act" where
  "SetUpNFSDisk V CreateNfsDisk s =
     thenM (tell V (Install ''nfs_utils'')) (bindM CreateNfsDisk (\<lambda>d.
     thenM (tell V (MountDisk (device_path d) (mount_point s) (disk_type s) (mount_options d) (fstab_options d)))
       (add_scratch_disk (d\<lparr>device_path := mount_point s\<rparr>))))"

text \<open>Lustre gives the mount point of its service, SMB the path of its disk.\<close>

definition SetUpMountedDisk ::
  "'w disk_vm \<Rightarrow> ('w, scratch_disk) disk_act \<Rightarrow> (scratch_disk \<Rightarrow> string) \<Rightarrow> disk_request \<Rightarrow> ('w, unit) disk_act" where
  "SetUpMountedDisk V create path s =
     bindM create (\<lambda>d.
     thenM (tell V (MountDisk (path d) (mount_point s) (disk_type s) (mount_options d) (fstab_options d)))
       (add_scratch_disk d))"

definition SetUpLustreDisk :: "'w disk_vm \<Rightarrow> ('w, scratch_disk) disk_act \<Rightarrow> string \<Rightarrow> disk_request \<Rightarrow> ('w, unit) disk_act" where
  "SetUpLustreDisk V CreateLustreDisk GetMountPoint = SetUpMountedDisk V CreateLustreDisk (\<lambda>_. GetMountPoint)"

definition SetUpSMBDisk :: "'w disk_vm \<Rightarrow> ('w, scratch_disk) disk_act \<Rightarrow> disk_request \<Rightarrow> ('w, unit) disk_act" where
  "SetUpSMBDisk V CreateSmbDisk = SetUpMountedDisk V CreateSmbDisk device_path"

section \<open>Preparing scratch disks\<close>

definition PrepareLinuxScratchDisk ::
  "'w disk_vm \<Rightarrow> scratch_disk \<Rightarrow> disk_request \<Rightarrow> ('w, disk_request) disk_act" where
  "PrepareLinuxScratchDisk V d s =
     bindM (disk_state (\<lambda>w. length (scratch_disks w))) (\<lambda>n.
     let path = ''/dev/md'' @ str_of_nat n in
     bindM (if of_striped_class d \<and> is_striped d then bindM (hasStripedDiskDevice V path) (\<lambda>b. ret (\<not> b)) else ret False) (\<lambda>stripe.
     let d = (if stripe then d\<lparr>device_path := path\<rparr> else d);
         s = (if stripe then s\<lparr>spec_device_path := path\<rparr> else s) in
     thenM (whenM stripe (tell V (StripeDisks (part_paths d) path)))
     (thenM (if mount_point s \<noteq> []
        then bindM (IsMounted V (mount_point s) (device_path d)) (\<lambda>mounted. whenM (\<not> mounted)
          (thenM (tell V (FormatDisk (device_path d) (disk_type s)))
            (tell V (MountDisk (device_path d) (mount_point s) (disk_type s) (mount_options d) (fstab_options d)))))
        else ret ())
      (thenM (add_scratch_disk d) (ret s)))))"

text \<open>The lines of the output name a disk and its model; the disks of the wanted kind are collected.\<close>

definition bad_unpacking :: exn where
  "bad_unpacking = exn (Builtin ValueError) ''not enough values to unpack''"

fun query_disks :: "'w disk_vm \<Rightarrow> bool \<Rightarrow> string list \<Rightarrow> ('w, string list) disk_act" where
  "query_disks V local_wanted [] = ret []"
| "query_disks V local_wanted (line # ls) =
     (if line = [] then query_disks V local_wanted ls
      else let stripped = strip is_space line; device = takeWhile (\<lambda>c. c \<noteq> CHR '' '') stripped
        in if CHR '' '' \<notin> set stripped then raise bad_unpacking
          else if str_in ''Number'' device \<or> str_in ''-----'' device then query_disks V local_wanted ls
          else bindM (DiskDriveIsLocal V device (drop (length device + 1) stripped)) (\<lambda>is_local.
            bindM (query_disks V local_wanted ls) (\<lambda>ds.
              ret (if is_local = local_wanted then device # ds else ds))))"

text \<open>The script of diskpart, line by line\<close>

definition clean_lines :: "string \<Rightarrow> string list" where
  "clean_lines n = [''select disk '' @ n, ''online disk noerr'', ''attributes disk clear readonly'', ''clean'',
     ''convert gpt'', ''convert dynamic'']"

definition volume_lines :: "bool \<Rightarrow> string list \<Rightarrow> string list" where
  "volume_lines striped ns =
     [if striped then ''create volume stripe disk='' @ str_join '','' ns else ''create volume simple'']"

definition script_text :: "string list \<Rightarrow> string" where
  "script_text ls = concat (map (\<lambda>l. l @ [CHR 0x0A]) ls)"

text \<open>One disk is its number, a text: the loop over it goes through its characters.\<close>

definition disk_numbers :: "bool \<Rightarrow> string list \<Rightarrow> exn + string list" where
  "disk_numbers striped found =
     (if striped then Inr found
      else case found of [] \<Rightarrow> Inl index_error | n # _ \<Rightarrow> Inr (map (\<lambda>c. [c]) n))"

definition prepare_script :: "bool \<Rightarrow> string list \<Rightarrow> bool \<Rightarrow> string \<Rightarrow> string \<Rightarrow> string list" where
  "prepare_script striped ns sqlserver letter mount =
     concat (map clean_lines ns) @ volume_lines striped ns
     @ [if sqlserver then ''format fs=ntfs quick unit=64k'' else ''format quick'', ''assign letter='' @ map lower letter]
     @ (if mount \<noteq> [] then [''assign mount='' @ mount] else [])"

definition grant_commands :: "string \<Rightarrow> vm_command list" where
  "grant_commands letter = [RemoteCommand (''icacls '' @ letter @ '': /grant Users:F /L''),
     RemoteCommand (''icacls '' @ letter @ '': --% /grant Users:(OI)(CI)F /L'')]"

definition TEMPDB_DISK_LETTER :: string where "TEMPDB_DISK_LETTER = ''T''"

definition GetLocalSSDDeviceIDs :: "'w disk_vm \<Rightarrow> string list \<Rightarrow> (string \<Rightarrow> exn + int) \<Rightarrow> ('w, string list) disk_act" where
  "GetLocalSSDDeviceIDs V names int_of_text =
     (if names = [] then ret []
      else bindM (issue V (RemoteCommand (''Get-PhysicalDisk | where-object {''
          @ str_join '' -or '' (map (\<lambda>n. ''($_.FriendlyName -like '' @ CHR 0x22 # n @ CHR 0x22 # '')'') names)
          @ ''} | Select -exp DeviceID''))) (\<lambda>stdout.
        mapPy (\<lambda>l. bindM (lift (int_of_text l)) (\<lambda>i. ret (str_of_int i)))
          (filter (\<lambda>l. l \<noteq> []) (split_on (CHR 0x0A) stdout))))"

definition PrepareTempDbDisk :: "'w disk_vm \<Rightarrow> string list \<Rightarrow> (string \<Rightarrow> exn + int) \<Rightarrow> ('w, unit) disk_act" where
  "PrepareTempDbDisk V names int_of_text =
     bindM (GetLocalSSDDeviceIDs V names int_of_text) (\<lambda>ns.
       if ns = [] then ret ()
       else seqM ([tell V (RunDiskpartScript (script_text (concat (map clean_lines ns)
             @ volume_lines (length ns > 1) ns
             @ [''format fs=ntfs quick unit=64k'', ''assign letter='' @ map lower TEMPDB_DISK_LETTER])))]
         @ map (tell V) (grant_commands TEMPDB_DISK_LETTER)
         @ [tell V (RemoteCommand (''mkdir '' @ TEMPDB_DISK_LETTER @ '':'' @ CHR 0x5C # ''TEMPDB''))]))"

definition PrepareWindowsScratchDisk ::
  "'w disk_vm \<Rightarrow> (string \<Rightarrow> string list) \<Rightarrow> string list \<Rightarrow> (string \<Rightarrow> exn + int) \<Rightarrow> scratch_disk \<Rightarrow> disk_request
     \<Rightarrow> ('w, disk_request) disk_act" where
  "PrepareWindowsScratchDisk V splitlines names int_of_text d s =
     bindM (issue V (RemoteCommand
       ''Get-Disk | Where partitionstyle -eq 'raw' | Select  Number,FriendlyName'')) (\<lambda>stdout.
     bindM (query_disks V (disk_type s = ''local'') (splitlines stdout)) (\<lambda>found.
     bindM (lift (disk_numbers (is_striped d) found)) (\<lambda>ns.
     let sqlserver = os_type V \<in> set WINDOWS_SQLSERVER_OS_TYPES;
         script = prepare_script (is_striped d) ns sqlserver (assigned_disk_letter V) (mount_point s) in
     thenM (seqM (
       [whenM (mount_point s \<noteq> []) (tell V (RemoteCommand (''mkdir '' @ mount_point s))),
        tell V (RunDiskpartScript ''list disk''),
        tell V (RunDiskpartScript (script_text script))]
       @ map (tell V) (grant_commands (assigned_disk_letter V))
       @ [add_scratch_disk d,
          whenM (sqlserver \<and> disk_type s \<noteq> ''local'') (PrepareTempDbDisk V names int_of_text)])) (ret s))))"

definition PrepareScratchDisk ::
  "'w disk_vm \<Rightarrow> (string \<Rightarrow> string list) \<Rightarrow> string list \<Rightarrow> (string \<Rightarrow> exn + int) \<Rightarrow> scratch_disk \<Rightarrow> disk_request
     \<Rightarrow> ('w, disk_request) disk_act" where
  "PrepareScratchDisk V splitlines names int_of_text d s =
     (if os_type V \<in> set LINUX_OS_TYPES then PrepareLinuxScratchDisk V d s
      else PrepareWindowsScratchDisk V splitlines names int_of_text d s)"

section \<open>Waiting for disks\<close>

definition no_json :: exn where
  "no_json = exn (Subclass (Builtin ValueError) ''JSONDecodeError'' None) ''Expecting value''"

definition GetNonBootDiskCount :: "'w disk_vm \<Rightarrow> ('w, int) disk_act" where
  "GetNonBootDiskCount V = bindM (lsblk_types V) (\<lambda>types. case types of
       None \<Rightarrow> raise no_json
     | Some ts \<Rightarrow> ret (int (length (filter (\<lambda>t. t = ''disk'') ts)) - 1))"

definition GetTotalDiskCount :: "'w disk_vm \<Rightarrow> scratch_disk list \<Rightarrow> int" where
  "GetTotalDiskCount V ds = int (sum_list (map (\<lambda>d. if of_striped_class d then length (part_paths d) else 1) ds)) + local_disks V"

definition CheckDisksVisibility :: "'w disk_vm \<Rightarrow> scratch_disk list \<Rightarrow> ('w, bool) disk_act" where
  "CheckDisksVisibility V ds = bindM (GetNonBootDiskCount V) (\<lambda>n. ret (n = GetTotalDiskCount V ds))"

definition DisksAreNotVisibleError :: exn where
  "DisksAreNotVisibleError = exn (Subclass (Builtin Exception) ''DisksAreNotVisibleError'' None) ''Disks not visible''"

definition DisksAreNotDetachedError :: exn where
  "DisksAreNotDetachedError = exn (Subclass (Builtin Exception) ''DisksAreNotDetachedError'' None) ''Disks not visible''"

definition disk_retry :: "exn \<Rightarrow> retry_config" where
  "disk_retry e = default_retry\<lparr>poll_interval := 1, timeout := Some 200, max_retries := 200,
     retryable := (\<lambda>e'. isinstance e' (type_of e))\<rparr>"

definition WaitForRemoteDisksToVisibleFromVm ::
  "rat \<Rightarrow> 'w disk_vm \<Rightarrow> scratch_disk list \<Rightarrow> rat \<Rightarrow> ('w, rat) disk_act" where
  "WaitForRemoteDisksToVisibleFromVm dflt V ds start =
     Retry dflt (disk_retry DisksAreNotVisibleError)
       (if os_type V \<notin> set LINUX_OS_TYPES then ret (- 1)
        else bindM (CheckDisksVisibility V ds) (\<lambda>visible.
          if \<not> visible then raise DisksAreNotVisibleError
          else bindM time_time (\<lambda>t. ret (t - start))))"

definition CheckDisksDetach :: "'w disk_vm \<Rightarrow> ('w, bool) disk_act" where
  "CheckDisksDetach V = bindM (GetNonBootDiskCount V) (\<lambda>n. ret (n - local_disks V = 0))"

definition WaitForDisksToDetachFromVm :: "rat \<Rightarrow> 'w disk_vm \<Rightarrow> ('w, rat) disk_act" where
  "WaitForDisksToDetachFromVm dflt V =
     Retry dflt (disk_retry DisksAreNotDetachedError)
       (bindM (CheckDisksDetach V) (\<lambda>detached. if \<not> detached then raise DisksAreNotDetachedError else time_time))"

text \<open>The tasks that run in parallel, and the result that is returned\<close>

datatype detach_task = Detach nat | WaitForDetach

definition DetachDisks ::
  "(detach_task list \<Rightarrow> ('w, rat option list) disk_act) \<Rightarrow> ('w, rat option) disk_act" where
  "DetachDisks RunParallelThreads =
     bindM (disk_state (\<lambda>w. length (scratch_disks w))) (\<lambda>n.
     bindM (RunParallelThreads (map Detach [0..<n] @ [WaitForDetach])) (\<lambda>time_returned.
       if length time_returned \<le> 1 then raise index_error else ret (time_returned ! 1)))"

section \<open>What is done to the disks\<close>

text \<open>A machine whose answers depend on the question only\<close>

definition answering ::
  "'w disk_vm \<Rightarrow> (vm_command \<Rightarrow> string) \<Rightarrow> (string \<Rightarrow> string \<Rightarrow> bool) \<Rightarrow> (string \<Rightarrow> bool)
     \<Rightarrow> (string \<Rightarrow> string \<Rightarrow> bool) \<Rightarrow> 'w disk_vm" where
  "answering V output mounted striped is_local =
     V\<lparr>perform := (\<lambda>c. ret (output c)), IsMounted := (\<lambda>p d. ret (mounted p d)),
       hasStripedDiskDevice := (\<lambda>p. ret (striped p)), DiskDriveIsLocal := (\<lambda>d m. ret (is_local d m))\<rparr>"

lemma answering_simps [simp]:
  "perform (answering V output mounted striped is_local) = (\<lambda>c. ret (output c))"
  "IsMounted (answering V output mounted striped is_local) = (\<lambda>p d. ret (mounted p d))"
  "hasStripedDiskDevice (answering V output mounted striped is_local) = (\<lambda>p. ret (striped p))"
  "DiskDriveIsLocal (answering V output mounted striped is_local) = (\<lambda>d m. ret (is_local d m))"
  "os_type (answering V output mounted striped is_local) = os_type V"
  "local_disks (answering V output mounted striped is_local) = local_disks V"
  "assigned_disk_letter (answering V output mounted striped is_local) = assigned_disk_letter V"
  "lsblk_types (answering V output mounted striped is_local) = lsblk_types V"
  by (simp_all add: answering_def)

text \<open>The state after some commands and some more disks\<close>

definition given :: "vm_command list \<Rightarrow> scratch_disk list \<Rightarrow> 'w disk_world mach \<Rightarrow> 'w disk_world mach" where
  "given cs ds m = m\<lparr>world := (world m)\<lparr>commands := commands (world m) @ cs, scratch_disks := scratch_disks (world m) @ ds\<rparr>\<rparr>"

lemma given_given [simp]: "given cs ds (given cs' ds' m) = given (cs' @ cs) (ds' @ ds) m"
  by (simp add: given_def)

lemma given_nothing [simp]: "given [] [] m = m"
  by (simp add: given_def)

lemma given_disks [simp]: "scratch_disks (world (given cs ds m)) = scratch_disks (world m) @ ds"
  by (simp add: given_def)

named_theorems runs \<open>what the operations do\<close>

lemma run_ret [runs]: "ret x m = Some (Inr x, m)" by (simp add: ret_def)

lemma run_raise [runs]: "raise e m = Some (Inl e, m)" by (simp add: raise_def)

lemma run_bindM [runs]:
  "bindM f g m = (case f m of None \<Rightarrow> None | Some (r, t) \<Rightarrow> (case r of Inl e \<Rightarrow> Some (Inl e, t) | Inr x \<Rightarrow> g x t))"
  by (auto simp: bindM_def split: option.splits sum.splits)

lemma run_thenM [runs]:
  "thenM f g m = (case f m of None \<Rightarrow> None | Some (r, t) \<Rightarrow> (case r of Inl e \<Rightarrow> Some (Inl e, t) | Inr x \<Rightarrow> g t))"
  by (auto simp: thenM_def bindM_def split: option.splits sum.splits)

lemma run_issue [runs]:
  "issue (answering V output mounted striped is_local) c m = Some (Inr (output c), given [c] [] m)"
  by (simp add: issue_def thenM_def bindM_def modifyM_def ret_def given_def)

lemma run_tell [runs]: "tell (answering V output mounted striped is_local) c m = Some (Inr (), given [c] [] m)"
  by (simp add: tell_def bindM_def runs)

lemma run_add [runs]: "add_scratch_disk d m = Some (Inr (), given [] [d] m)"
  by (simp add: add_scratch_disk_def modifyM_def given_def)

lemma run_when [runs]: "whenM b f m = (if b then f m else Some (Inr (), m))"
  by (simp add: whenM_def ret_def)

lemma run_state [runs]: "disk_state f m = Some (Inr (f (world m)), m)"
  by (simp add: disk_state_def getM_def)

lemma run_seqM_Nil [runs]: "seqM [] m = Some (Inr (), m)" by (simp add: ret_def)

lemma run_seqM_Cons [runs]: "seqM (f # fs) m = thenM f (seqM fs) m"
  by simp

subsection \<open>Linux\<close>

definition md_path :: "nat \<Rightarrow> string" where
  "md_path n = ''/dev/md'' @ str_of_nat n"

definition on_md :: "scratch_disk \<Rightarrow> bool \<Rightarrow> nat \<Rightarrow> scratch_disk" where
  "on_md d b n = (if of_striped_class d \<and> is_striped d \<and> \<not> b then d\<lparr>device_path := md_path n\<rparr> else d)"

definition linux_commands :: "scratch_disk \<Rightarrow> disk_request \<Rightarrow> bool \<Rightarrow> bool \<Rightarrow> nat \<Rightarrow> vm_command list" where
  "linux_commands d s b mounted n = (let d' = on_md d b n in
     (if of_striped_class d \<and> is_striped d \<and> \<not> b then [StripeDisks (part_paths d) (md_path n)] else [])
     @ (if mount_point s \<noteq> [] \<and> \<not> mounted
        then [FormatDisk (device_path d') (disk_type s),
              MountDisk (device_path d') (mount_point s) (disk_type s) (mount_options d) (fstab_options d)] else []))"

lemma run_PrepareLinux:
  fixes m :: "'w disk_world mach"
  defines "n \<equiv> length (scratch_disks (world m))"
  shows "PrepareLinuxScratchDisk (answering V output mounted striped is_local) d s m
    = Some (Inr (if of_striped_class d \<and> is_striped d \<and> \<not> striped (md_path n) then s\<lparr>spec_device_path := md_path n\<rparr> else s),
        given (linux_commands d s (striped (md_path n))
            (mounted (mount_point s) (device_path (on_md d (striped (md_path n)) n))) n)
          [on_md d (striped (md_path n)) n] m)"
  unfolding PrepareLinuxScratchDisk_def linux_commands_def on_md_def md_path_def n_def
  by (cases "of_striped_class d"; cases "is_striped d"; cases "striped (md_path n)"; cases "mount_point s = []";
      cases "mounted (mount_point s) (device_path (on_md d (striped (md_path n)) n))")
    (simp_all add: runs Let_def on_md_def md_path_def n_def)

subsection \<open>Setting up\<close>

lemma prefix_path_join: "prefix p a \<Longrightarrow> prefix p (path_join a b)"
  by (auto simp: path_join_def)

lemma SetUpDisk_absolute:
  assumes "SetUpDisk (answering V output mounted striped is_local) linux windows s m = Some (Inr s', m')"
    and "os_type V \<in> set LINUX_OS_TYPES" and "prefix ''/'' (strip is_space (output (RemoteCommand ''pwd'')))"
  shows "mount_point s' = [] \<or> prefix ''/'' (mount_point s')"
  using assms
  by (auto simp: SetUpDisk_def runs Let_def prefix_path_join split: if_splits option.splits sum.splits)

lemma run_SetUpMountedDisk:
  "create m = Some (Inr d, m') \<Longrightarrow> SetUpMountedDisk (answering V output mounted striped is_local) create path s m
     = Some (Inr (), given [MountDisk (path d) (mount_point s) (disk_type s) (mount_options d) (fstab_options d)] [d] m')"
  by (simp add: SetUpMountedDisk_def runs)

lemma run_SetUpNFSDisk:
  "create (given [Install ''nfs_utils''] [] m) = Some (Inr d, m') \<Longrightarrow> SetUpNFSDisk (answering V output mounted striped is_local) create s m
     = Some (Inr (), given [MountDisk (device_path d) (mount_point s) (disk_type s) (mount_options d) (fstab_options d)]
         [d\<lparr>device_path := mount_point s\<rparr>] m')"
  by (simp add: SetUpNFSDisk_def runs)

lemma md_path_inj: "inj md_path"
proof (rule injI)
  fix i j
  assume "md_path i = md_path j"
  then have "digits_value (str_of_nat i) = digits_value (str_of_nat j)" by (simp add: md_path_def)
  then show "i = j" by (simp add: str_of_nat_value)
qed

lemma mapPy_PrepareLinux:
  "\<exists>rs m'. mapPy (\<lambda>(d, s). PrepareLinuxScratchDisk (answering V output mounted (\<lambda>_. False) is_local) d s) ds m = Some (Inr rs, m')
     \<and> scratch_disks (world m') = scratch_disks (world m)
         @ map2 (\<lambda>(d, s) n. on_md d False n) ds [length (scratch_disks (world m)) ..< length (scratch_disks (world m)) + length ds]"
proof (induction ds arbitrary: m)
  case Nil
  show ?case by (simp add: runs)
next
  case (Cons ds1 ds)
  obtain d s where ds1: "ds1 = (d, s)" by (cases ds1)
  let ?n = "length (scratch_disks (world m))"
  obtain r cs where one: "PrepareLinuxScratchDisk (answering V output mounted (\<lambda>_. False) is_local) d s m
      = Some (Inr r, given cs [on_md d False ?n] m)"
    using run_PrepareLinux by blast
  obtain rs m' where rest: "mapPy (\<lambda>(d, s). PrepareLinuxScratchDisk (answering V output mounted (\<lambda>_. False) is_local) d s) ds
      (given cs [on_md d False ?n] m) = Some (Inr rs, m')"
    "scratch_disks (world m') = scratch_disks (world m) @ on_md d False ?n
       # map2 (\<lambda>(d, s) n. on_md d False n) ds [Suc ?n ..< Suc ?n + length ds]"
    using Cons.IH [of "given cs [on_md d False ?n] m"] by auto
  have "[?n ..< ?n + length (ds1 # ds)] = ?n # [Suc ?n ..< Suc ?n + length ds]" by (subst upt_conv_Cons) simp_all
  then show ?case using one rest by (simp add: ds1 runs)
qed

lemma on_md_paths:
  "\<exists>ns'. map device_path (filter (\<lambda>d. of_striped_class d \<and> is_striped d) (map2 (\<lambda>(d, s) n. on_md d False n) ds ns))
      = map md_path ns' \<and> set ns' \<subseteq> set ns \<and> (distinct ns \<longrightarrow> distinct ns')"
proof (induction ds ns rule: list_induct2')
  case (4 ds1 ds n ns)
  then obtain ns' where ns': "map device_path (filter (\<lambda>d. of_striped_class d \<and> is_striped d)
      (map2 (\<lambda>(d, s) n. on_md d False n) ds ns)) = map md_path ns'" "set ns' \<subseteq> set ns" "distinct ns \<longrightarrow> distinct ns'" by blast
  obtain d s where ds1: "ds1 = (d, s)" by (cases ds1)
  show ?case
  proof (cases "of_striped_class d \<and> is_striped d")
    case True
    with ns' show ?thesis by (intro exI [of _ "n # ns'"]) (auto simp: ds1 on_md_def)
  next
    case False
    with ns' show ?thesis by (intro exI [of _ "ns'"]) (auto simp: ds1 on_md_def)
  qed
qed auto

subsection \<open>Windows\<close>

text \<open>The disks of the wanted kind among those that the command prints\<close>

fun raw_disks :: "(string \<Rightarrow> string \<Rightarrow> bool) \<Rightarrow> bool \<Rightarrow> string list \<Rightarrow> exn + string list" where
  "raw_disks is_local wanted [] = Inr []"
| "raw_disks is_local wanted (line # ls) =
     (if line = [] then raw_disks is_local wanted ls
      else let stripped = strip is_space line; device = takeWhile (\<lambda>c. c \<noteq> CHR '' '') stripped
        in if CHR '' '' \<notin> set stripped then Inl bad_unpacking
          else if str_in ''Number'' device \<or> str_in ''-----'' device then raw_disks is_local wanted ls
          else bindE (raw_disks is_local wanted ls) (\<lambda>ds.
            Inr (if is_local device (drop (length device + 1) stripped) = wanted then device # ds else ds)))"

lemma run_query:
  "query_disks (answering V output mounted striped is_local) wanted ls m = Some (raw_disks is_local wanted ls, m)"
proof (induction ls)
  case (Cons line ls)
  then show ?case by (cases "raw_disks is_local wanted ls") (simp_all add: Let_def runs)
qed (simp add: runs)

text \<open>The disks that the command lists, as numbers with models, and the numbers of those that are wanted; a line
  has no number if it has no space.\<close>

definition numbered_lines :: "string list \<Rightarrow> (string \<times> string) list" where
  "numbered_lines ls = map (\<lambda>line. (takeWhile (\<lambda>c. c \<noteq> CHR '' '') (strip is_space line),
     tl (dropWhile (\<lambda>c. c \<noteq> CHR '' '') (strip is_space line)))) (filter (\<lambda>line. line \<noteq> []) ls)"

definition wanted_disks :: "(string \<Rightarrow> string \<Rightarrow> bool) \<Rightarrow> bool \<Rightarrow> string list \<Rightarrow> string list" where
  "wanted_disks is_local wanted ls = map fst (filter (\<lambda>(n, model). \<not> str_in ''Number'' n \<and> \<not> str_in ''-----'' n
     \<and> is_local n model = wanted) (numbered_lines ls))"

definition has_number :: "string \<Rightarrow> bool" where
  "has_number line = (line = [] \<or> CHR '' '' \<in> set (strip is_space line))"

lemma drop_takeWhile: "drop (length (takeWhile P xs) + 1) xs = tl (dropWhile P xs)"
  by (induction xs) (simp_all add: drop_Suc)

lemma raw_disks_wanted:
  "raw_disks is_local wanted ls =
     (if list_all has_number ls then Inr (wanted_disks is_local wanted ls) else Inl bad_unpacking)"
proof (induction is_local wanted ls rule: raw_disks.induct)
  case (2 is_local wanted line ls)
  let ?x = "strip is_space line"
  let ?d = "takeWhile (\<lambda>c. c \<noteq> CHR '' '') ?x"
  show ?case
  proof (cases "line = []")
    case True
    with 2(1) show ?thesis by (simp add: has_number_def wanted_disks_def numbered_lines_def)
  next
    case line: False
    show ?thesis
    proof (cases "CHR '' '' \<in> set ?x")
      case False
      with line show ?thesis by (simp add: has_number_def Let_def)
    next
      case True
      then have num: "has_number line" by (simp add: has_number_def)
      show ?thesis
      proof (cases "str_in ''Number'' ?d \<or> str_in ''-----'' ?d")
        case heading: True
        then have "raw_disks is_local wanted (line # ls) = raw_disks is_local wanted ls"
          using line True by (auto simp: Let_def)
        moreover have "wanted_disks is_local wanted (line # ls) = wanted_disks is_local wanted ls"
          using line heading by (auto simp: wanted_disks_def numbered_lines_def)
        ultimately show ?thesis using num 2(2) [OF line refl refl _ heading] True by simp
      next
        case disk: False
        then have "raw_disks is_local wanted (line # ls) = bindE (raw_disks is_local wanted ls) (\<lambda>ds.
            Inr (if is_local ?d (tl (dropWhile (\<lambda>c. c \<noteq> CHR '' '') ?x)) = wanted then ?d # ds else ds))"
          using line True by (simp add: Let_def drop_takeWhile [unfolded Suc_eq_plus1 [symmetric]])
        moreover have "wanted_disks is_local wanted (line # ls) =
            (if is_local ?d (tl (dropWhile (\<lambda>c. c \<noteq> CHR '' '') ?x)) = wanted
             then ?d # wanted_disks is_local wanted ls else wanted_disks is_local wanted ls)"
          using line disk by (simp add: wanted_disks_def numbered_lines_def)
        ultimately show ?thesis using num 2(3) [OF line refl refl _ disk] True by simp
      qed
    qed
  qed
qed (simp add: wanted_disks_def numbered_lines_def)

definition selected_disks :: "string list \<Rightarrow> string list" where
  "selected_disks ls = map (drop 12) (filter (prefix ''select disk '') ls)"

lemma selected_clean [simp]: "selected_disks (clean_lines n @ ls) = n # selected_disks ls"
  by (simp add: selected_disks_def clean_lines_def)

lemma selected_prepare [simp]: "selected_disks (prepare_script striped ns sqlserver letter mount) = ns"
proof (induction ns)
  case Nil
  show ?case by (simp add: selected_disks_def prepare_script_def volume_lines_def)
next
  case (Cons n ns)
  let ?rest = "\<lambda>ns. volume_lines striped ns
     @ [if sqlserver then ''format fs=ntfs quick unit=64k'' else ''format quick'', ''assign letter='' @ map lower letter]
     @ (if mount \<noteq> [] then [''assign mount='' @ mount] else [])"
  have none: "selected_disks (?rest xs) = []" for xs by (simp add: selected_disks_def volume_lines_def)
  have "selected_disks (concat (map clean_lines ns) @ r) = ns @ selected_disks r" for r
    by (induction ns) simp_all
  with none show ?case by (simp add: prepare_script_def)
qed

definition raw_disks_query :: vm_command where
  "raw_disks_query = RemoteCommand ''Get-Disk | Where partitionstyle -eq 'raw' | Select  Number,FriendlyName''"

definition windows_script :: "'w disk_vm \<Rightarrow> scratch_disk \<Rightarrow> disk_request \<Rightarrow> string list \<Rightarrow> string list" where
  "windows_script V d s ns = prepare_script (is_striped d) ns (os_type V \<in> set WINDOWS_SQLSERVER_OS_TYPES)
     (assigned_disk_letter V) (mount_point s)"

definition windows_commands :: "'w disk_vm \<Rightarrow> scratch_disk \<Rightarrow> disk_request \<Rightarrow> string list \<Rightarrow> vm_command list" where
  "windows_commands V d s ns = raw_disks_query
     # (if mount_point s \<noteq> [] then [RemoteCommand (''mkdir '' @ mount_point s)] else [])
     @ [RunDiskpartScript ''list disk'', RunDiskpartScript (script_text (windows_script V d s ns))]
     @ grant_commands (assigned_disk_letter V)"

lemma run_PrepareTempDbDisk_none: "PrepareTempDbDisk V [] int_of_text m = Some (Inr (), m)"
  by (simp add: PrepareTempDbDisk_def GetLocalSSDDeviceIDs_def runs)

lemma run_PrepareWindows:
  "PrepareWindowsScratchDisk (answering V output mounted striped is_local) splitlines [] int_of_text d s m =
     Some (case bindE (raw_disks is_local (disk_type s = ''local'') (splitlines (output raw_disks_query)))
         (disk_numbers (is_striped d)) of
       Inl e \<Rightarrow> (Inl e, given [raw_disks_query] [] m)
     | Inr ns \<Rightarrow> (Inr s, given (windows_commands V d s ns) [d] m))"
proof (cases "raw_disks is_local (disk_type s = ''local'') (splitlines (output raw_disks_query))")
  case (Inl e)
  then show ?thesis
    unfolding PrepareWindowsScratchDisk_def by (simp add: runs run_query flip: raw_disks_query_def)
next
  case found: (Inr found)
  show ?thesis
  proof (cases "disk_numbers (is_striped d) found")
    case (Inl e)
    with found show ?thesis
      unfolding PrepareWindowsScratchDisk_def by (simp add: runs run_query flip: raw_disks_query_def)
  next
    case (Inr ns)
    with found show ?thesis
      unfolding PrepareWindowsScratchDisk_def windows_commands_def windows_script_def grant_commands_def
      by (simp add: runs run_query run_PrepareTempDbDisk_none Let_def flip: raw_disks_query_def)
  qed
qed

subsection \<open>Detaching\<close>

lemma disk_retry_bounded: "bounded_retry dflt (disk_retry e)"
  by (simp add: bounded_retry_def disk_retry_def default_retry_def min_sleep_def retry_timeout_def)

lemma disk_retry_returns:
  assumes "keeps_time f" and "sane m"
  shows "\<exists>r m'. Retry dflt (disk_retry e) f m = Some (r, m') \<and> (\<forall>x. r = Inr x \<longrightarrow> (\<exists>m1. f m1 = Some (Inr x, m')))"
proof -
  obtain r m' where r: "Retry dflt (disk_retry e) f m = Some (r, m')"
    using keeps_timeD [OF keeps_time_Retry [OF assms(1) disk_retry_bounded] assms(2)] by blast
  then have "\<exists>m1. f m1 = Some (Inr x, m')" if "r = Inr x" for x
    using retried.call_returns_last [of dflt "disk_retry e" f m x m'] that by simp
  with r show ?thesis by blast
qed

lemma keeps_time_count: "keeps_time (lsblk_types V) \<Longrightarrow> keeps_time (GetNonBootDiskCount V)"
  unfolding GetNonBootDiskCount_def by (intro keeps_time_intros) (auto intro: keeps_time_intros split: option.split)

lemma keeps_time_detached:
  "keeps_time (lsblk_types V) \<Longrightarrow>
   keeps_time (bindM (CheckDisksDetach V) (\<lambda>detached. if \<not> detached then raise DisksAreNotDetachedError else time_time))"
  unfolding CheckDisksDetach_def by (intro keeps_time_intros keeps_time_count)

lemma bindM_Inr:
  "bindM f g m = Some (Inr x, m') \<longleftrightarrow> (\<exists>y m2. f m = Some (Inr y, m2) \<and> g y m2 = Some (Inr x, m'))"
  by (auto simp: bindM_def split: option.splits sum.splits)

lemma CheckDisksDetach_outcome:
  "CheckDisksDetach V m = Some (Inr b, m') \<longleftrightarrow> (\<exists>n. GetNonBootDiskCount V m = Some (Inr n, m') \<and> b = (n = local_disks V))"
  by (auto simp: CheckDisksDetach_def bindM_def ret_def split: option.splits sum.splits)

text \<open>The commands that may change what is on a disk\<close>

definition changes_disks :: "vm_command \<Rightarrow> bool" where
  "changes_disks c = (case c of RunDiskpartScript t \<Rightarrow> t \<noteq> ''list disk'' | StripeDisks _ _ \<Rightarrow> True
     | FormatDisk _ _ \<Rightarrow> True | _ \<Rightarrow> False)"

lemma raw_disks_Inl: "raw_disks is_local wanted ls = Inl e \<Longrightarrow> e = bad_unpacking"
  by (induction is_local wanted ls rule: raw_disks.induct) (auto simp: Let_def bindE_def split: if_splits sum.splits)

text \<open>For a single disk whose number has two digits, two other disks are selected and cleaned.\<close>

lemma windows_two_digits:
  assumes "\<not> is_striped d"
    and "raw_disks is_local (disk_type s = ''local'') (splitlines (output raw_disks_query)) = Inr (''10'' # ds)"
  shows "PrepareWindowsScratchDisk (answering V output mounted striped is_local) splitlines [] int_of_text d s m
      = Some (Inr s, given (windows_commands V d s [''1'', ''0'']) [d] m)"
    and "selected_disks (windows_script V d s [''1'', ''0'']) = [''1'', ''0'']"
  using assms by (simp_all add: run_PrepareWindows disk_numbers_def windows_script_def)

section \<open>Properties\<close>

text \<open>Scratch disks on Linux, one after the other: every disk is recorded in order, and the striped ones
  get device paths of their own, which are different from each other.\<close>

lemma linux_scratch_disks:
  "\<exists>rs m' new. mapPy (\<lambda>(d, s). PrepareLinuxScratchDisk (answering V output mounted (\<lambda>_. False) is_local) d s) ds m
       = Some (Inr rs, m')
     \<and> scratch_disks (world m') = scratch_disks (world m) @ new
     \<and> map (\<lambda>d. d\<lparr>device_path := []\<rparr>) new = map (\<lambda>(d, s). d\<lparr>device_path := []\<rparr>) ds
     \<and> distinct (map device_path (filter (\<lambda>d. of_striped_class d \<and> is_striped d) new))"
proof -
  let ?ns = "[length (scratch_disks (world m)) ..< length (scratch_disks (world m)) + length ds]"
  let ?new = "map2 (\<lambda>(d, s) n. on_md d False n) ds ?ns"
  obtain rs m' where run: "mapPy (\<lambda>(d, s). PrepareLinuxScratchDisk (answering V output mounted (\<lambda>_. False) is_local) d s) ds m
      = Some (Inr rs, m')" "scratch_disks (world m') = scratch_disks (world m) @ ?new"
    using mapPy_PrepareLinux by blast
  have "length ds = length ns \<Longrightarrow> map (\<lambda>d. d\<lparr>device_path := []\<rparr>) (map2 (\<lambda>(d, s) n. on_md d False n) ds ns)
      = map (\<lambda>(d, s). d\<lparr>device_path := []\<rparr>) ds" for ns
    by (induction ds ns rule: list_induct2) (auto simp: on_md_def)
  then have same: "map (\<lambda>d. d\<lparr>device_path := []\<rparr>) ?new = map (\<lambda>(d, s). d\<lparr>device_path := []\<rparr>) ds" by simp
  obtain ns' where "map device_path (filter (\<lambda>d. of_striped_class d \<and> is_striped d) ?new) = map md_path ns'" "distinct ns'"
    using on_md_paths [of ds ?ns] by auto
  then have "distinct (map device_path (filter (\<lambda>d. of_striped_class d \<and> is_striped d) ?new))"
    by (simp add: distinct_map inj_on_subset [OF md_path_inj subset_UNIV])
  with run same show ?thesis by blast
qed

text \<open>C40: Scratch disks on Windows, without disks for the temporary database: the one script of diskpart that
  changes disks selects, for a striped disk, exactly the raw disks of the wanted kind, in the order of the
  list, and otherwise the digits of the number of the first of these.  If a line has no number, or if a
  single disk is asked for and there is no disk of the wanted kind, it raises, and nothing is changed and
  nothing recorded.  A striped disk without any disks is not noticed: the script selects none, and the disk is
  recorded.\<close>

theorem windows_scratch_disk:
  fixes splitlines :: "string \<Rightarrow> string list" and out :: "vm_command \<Rightarrow> string"
    and is_local :: "string \<Rightarrow> string \<Rightarrow> bool" and s :: disk_request
  defines "ls \<equiv> splitlines (out raw_disks_query)"
  defines "found \<equiv> wanted_disks is_local (disk_type s = ''local'') ls"
  shows "case PrepareWindowsScratchDisk (answering V out mounted striped is_local) splitlines [] int_of_text d s m of
     Some (Inr s', m') \<Rightarrow> s' = s \<and> list_all has_number ls \<and> \<not> (\<not> is_striped d \<and> found = []) \<and> (\<exists>script before after.
        commands (world m') = commands (world m) @ before @ RunDiskpartScript (script_text script) # after
        \<and> list_all (\<lambda>c. \<not> changes_disks c) (before @ after)
        \<and> selected_disks script = (if is_striped d then found else map (\<lambda>c. [c]) (hd found))
        \<and> scratch_disks (world m') = scratch_disks (world m) @ [d])
   | Some (Inl e, m') \<Rightarrow> scratch_disks (world m') = scratch_disks (world m)
        \<and> commands (world m') = commands (world m) @ [raw_disks_query]
        \<and> (if list_all has_number ls then e = index_error \<and> \<not> is_striped d \<and> found = [] else e = bad_unpacking)
   | None \<Rightarrow> False"
proof (cases "list_all has_number ls \<and> \<not> (\<not> is_striped d \<and> found = [])")
  case False
  then have "bindE (raw_disks is_local (disk_type s = ''local'') ls) (disk_numbers (is_striped d))
      = Inl (if list_all has_number ls then index_error else bad_unpacking)"
    by (auto simp: raw_disks_wanted disk_numbers_def found_def)
  then show ?thesis using False by (simp add: run_PrepareWindows flip: ls_def) (simp add: given_def)
next
  case True
  let ?ns = "if is_striped d then found else map (\<lambda>c. [c]) (hd found)"
  let ?script = "windows_script V d s ?ns"
  let ?before = "raw_disks_query # (if mount_point s \<noteq> [] then [RemoteCommand (''mkdir '' @ mount_point s)] else [])
      @ [RunDiskpartScript ''list disk'']"
  let ?after = "grant_commands (assigned_disk_letter V)"
  have "bindE (raw_disks is_local (disk_type s = ''local'') ls) (disk_numbers (is_striped d)) = Inr ?ns"
    using True by (auto simp: raw_disks_wanted disk_numbers_def found_def [symmetric] split: list.split)
  then have run: "PrepareWindowsScratchDisk (answering V out mounted striped is_local) splitlines [] int_of_text d s m
      = Some (Inr s, given (windows_commands V d s ?ns) [d] m)"
    by (simp add: run_PrepareWindows flip: ls_def)
  have "windows_commands V d s ?ns = ?before @ RunDiskpartScript (script_text ?script) # ?after"
    by (simp add: windows_commands_def)
  moreover have "list_all (\<lambda>c. \<not> changes_disks c) (?before @ ?after)"
    by (simp add: changes_disks_def raw_disks_query_def grant_commands_def)
  moreover have "selected_disks ?script = ?ns" by (simp only: windows_script_def selected_prepare)
  moreover have "commands (world (given (windows_commands V d s ?ns) [d] m))
      = commands (world m) @ windows_commands V d s ?ns" by (simp add: given_def)
  ultimately show ?thesis using True unfolding run option.case sum.case prod.case given_disks by metis
qed

text \<open>What detaching disks returns: the second of the results of the tasks, which is the time that the
  waiting returned if there is one scratch disk; it fails after all have been detached if there is none, and
  returns what detaching the second disk returned if there are more.\<close>

lemma DetachDisks_result:
  "DetachDisks (\<lambda>tasks. ret (map result tasks)) m = Some (case length (scratch_disks (world m)) of
       0 \<Rightarrow> Inl index_error
     | Suc 0 \<Rightarrow> Inr (result WaitForDetach)
     | Suc (Suc n) \<Rightarrow> Inr (result (Detach 1)), m)"
  by (auto simp: DetachDisks_def runs nth_append simp del: upt_Suc split: nat.split)

text \<open>Waiting for the disks to be detached ends: after some attempts it returns or raises, and when it
  returns, the last look at the machine showed no disks but the one it boots from and its local ones.\<close>

lemma WaitForDisksToDetach_returns:
  assumes "keeps_time (lsblk_types V)" and "sane m"
  shows "\<exists>r m'. WaitForDisksToDetachFromVm dflt V m = Some (r, m')
     \<and> (case r of Inr t \<Rightarrow> \<exists>m1 m2. GetNonBootDiskCount V m1 = Some (Inr (local_disks V), m2) | Inl e \<Rightarrow> True)"
proof -
  obtain r m' where r: "WaitForDisksToDetachFromVm dflt V m = Some (r, m')"
    "\<forall>x. r = Inr x \<longrightarrow> (\<exists>m1. bindM (CheckDisksDetach V)
        (\<lambda>detached. if \<not> detached then raise DisksAreNotDetachedError else time_time) m1 = Some (Inr x, m'))"
    using disk_retry_returns [OF keeps_time_detached [OF assms(1)] assms(2)]
    unfolding WaitForDisksToDetachFromVm_def by blast
  have "\<exists>m1 m2. GetNonBootDiskCount V m1 = Some (Inr (local_disks V), m2)" if rt: "r = Inr t" for t
  proof -
    obtain m1 b m2 where "CheckDisksDetach V m1 = Some (Inr b, m2)"
      "(if \<not> b then raise DisksAreNotDetachedError else time_time) m2 = Some (Inr t, m')"
      using r(2) rt unfolding bindM_Inr by blast
    then show ?thesis by (cases b) (auto simp: CheckDisksDetach_outcome raise_def)
  qed
  with r(1) show ?thesis by (cases r) auto
qed

theorem WaitForDisksToDetach_returns_witness:
  "\<exists>r m'. WaitForDisksToDetachFromVm 300
     \<lparr>os_type = ''ubuntu2404'', local_disks = 0, assigned_disk_letter = [], perform = (\<lambda>_. ret []), IsMounted = (\<lambda>_ _. ret False),
      hasStripedDiskDevice = (\<lambda>_. ret False), DiskDriveIsLocal = (\<lambda>_ _. ret False), lsblk_types = ret (Some [''disk''])\<rparr>
     \<lparr>now = 0, lags = (\<lambda>_. 0), draws = (\<lambda>_. 0), world = \<lparr>scratch_disks = [], commands = [], elsewhere = ()\<rparr>\<rparr> = Some (r, m')"
  using WaitForDisksToDetach_returns [of
     "\<lparr>os_type = ''ubuntu2404'', local_disks = 0, assigned_disk_letter = [], perform = (\<lambda>_. ret []), IsMounted = (\<lambda>_ _. ret False),
      hasStripedDiskDevice = (\<lambda>_. ret False), DiskDriveIsLocal = (\<lambda>_ _. ret False), lsblk_types = ret (Some [''disk''])\<rparr>"
     "\<lparr>now = 0, lags = (\<lambda>_. 0), draws = (\<lambda>_. 0), world = \<lparr>scratch_disks = [], commands = [], elsewhere = ()\<rparr>\<rparr>" 300]
  by (auto simp: sane_def intro: keeps_time_intros)

end
