(* ===== verification/VmSpecs.thy ===== *)
theory VmSpecs
  imports Decoders BenchmarkSets Registry
begin

text \<open>
  \<open>perfkitbenchmarker/configs/vm_group_decoders.py\<close> and the specs a group of machines consists of:
  \<open>virtual_machine_spec.py\<close>, \<open>custom_virtual_machine_spec.py\<close>, the specs of \<open>disk.py\<close>,
  \<open>configs/static_vm_spec.py\<close> and \<open>configs/static_vm_decoders.py\<close>, over the decoders and the base
  class of \<open>Decoders\<close>.

  A spec is the dictionary of its attributes that come from options; a spec inside a spec is a dictionary
  inside a dictionary.  \<open>F\<close> are the flags of the run, if a spec is given any; every flag that is asked for
  is defined.  The spec classes of the providers, which are registered by their modules, are a parameter.
\<close>

section \<open>Flags over options\<close>

definition flag_present :: "flag_values \<Rightarrow> string \<Rightarrow> bool" where
  "flag_present F k = (case F k of None \<Rightarrow> False | Some f \<Rightarrow> present f)"

definition flag_value :: "flag_values \<Rightarrow> string \<Rightarrow> pyval" where
  "flag_value F k = (case F k of None \<Rightarrow> VNone | Some f \<Rightarrow> flag_contents f)"

text \<open>A sequence of \<open>if flag_values[flag].present: config_values[option] = flag_values.flag\<close>\<close>

fun apply_present :: "flag_values \<Rightarrow> (string \<times> string) list \<Rightarrow> metadata_dict \<Rightarrow> metadata_dict" where
  "apply_present F [] config = config"
| "apply_present F ((name, opt) # fs) config =
     apply_present F fs (if flag_present F name then dict_set config opt (flag_value F name) else config)"

section \<open>Specs of disks\<close>

definition BaseDiskSpec_options :: "(string \<times> (string option \<Rightarrow> option_decoder)) list" where
  "BaseDiskSpec_options =
     [(''device_path'', \<lambda>opt. StringDecoder True opt (Some VNone)),
      (''disk_number'', \<lambda>opt. IntDecoder None None True opt (Some VNone)),
      (''disk_size'', \<lambda>opt. IntDecoder None None True opt (Some VNone)),
      (''disk_type'', \<lambda>opt. StringDecoder True opt (Some VNone)),
      (''mount_point'', \<lambda>opt. StringDecoder True opt (Some VNone)),
      (''num_striped_disks'', \<lambda>opt. IntDecoder None (Some 1) False opt (Some (VInt 1))),
      (''num_partitions'', \<lambda>opt. IntDecoder None None True opt (Some VNone)),
      (''partition_size'', \<lambda>opt. StringDecoder True opt (Some VNone)),
      (''provisioned_iops'', \<lambda>opt. IntDecoder None None True opt (Some VNone)),
      (''provisioned_throughput'', \<lambda>opt. IntDecoder None None True opt (Some VNone)),
      (''multi_writer_mode'', \<lambda>opt. BooleanDecoder True opt (Some (VBool False))),
      (''multi_writer_group_name'', \<lambda>opt. StringDecoder True opt (Some (VBool False)))]"

definition BaseDiskSpec_flags :: "(string \<times> string) list" where
  "BaseDiskSpec_flags =
     [(''data_disk_size'', ''disk_size''), (''data_disk_type'', ''disk_type''),
      (''num_striped_disks'', ''num_striped_disks''), (''scratch_dir'', ''mount_point''),
      (''num_partitions'', ''num_partitions''), (''partition_size'', ''partition_size''),
      (''provisioned_iops'', ''provisioned_iops''), (''provisioned_throughput'', ''provisioned_throughput''),
      (''multi_writer_mode'', ''multi_writer_mode'')]"

definition spec_with ::
  "(string \<times> (string option \<Rightarrow> option_decoder)) list \<Rightarrow> (string \<times> string) list \<Rightarrow> flag_values option \<Rightarrow> spec_class"
where
  "spec_with options fs F =
     \<lparr>constructions = options, ApplyFlags = map_option (\<lambda>F config. Inr (apply_present F fs config)) F\<rparr>"

definition BaseDiskSpec :: "flag_values option \<Rightarrow> spec_class" where
  "BaseDiskSpec = spec_with BaseDiskSpec_options BaseDiskSpec_flags"

definition BaseNFSDiskSpec_options :: "(string \<times> (string option \<Rightarrow> option_decoder)) list" where
  "BaseNFSDiskSpec_options = BaseDiskSpec_options @
     [(''nfs_version'', \<lambda>opt. StringDecoder False opt (Some VNone)),
      (''nfs_ip_address'', \<lambda>opt. StringDecoder False opt (Some VNone)),
      (''nfs_managed'', \<lambda>opt. BooleanDecoder False opt (Some (VBool True))),
      (''nfs_directory'', \<lambda>opt. StringDecoder False opt (Some VNone)),
      (''nfs_rsize'', \<lambda>opt. IntDecoder None None False opt (Some (VInt 1048576))),
      (''nfs_wsize'', \<lambda>opt. IntDecoder None None False opt (Some (VInt 1048576))),
      (''nfs_timeout'', \<lambda>opt. IntDecoder None None False opt (Some (VInt 60))),
      (''nfs_timeout_hard'', \<lambda>opt. BooleanDecoder False opt (Some (VBool True))),
      (''nfs_retries'', \<lambda>opt. IntDecoder None None False opt (Some (VInt 2))),
      (''nfs_nconnect'', \<lambda>opt. IntDecoder None None False opt (Some VNone))]"

definition BaseNFSDiskSpec_flags :: "(string \<times> string) list" where
  "BaseNFSDiskSpec_flags = BaseDiskSpec_flags @ map (\<lambda>k. (k, k))
     [''nfs_version'', ''nfs_timeout_hard'', ''nfs_rsize'', ''nfs_wsize'', ''nfs_timeout'', ''nfs_retries'',
      ''nfs_nconnect'', ''nfs_ip_address'', ''nfs_managed'', ''nfs_directory'']"

definition BaseNFSDiskSpec :: "flag_values option \<Rightarrow> spec_class" where
  "BaseNFSDiskSpec = spec_with BaseNFSDiskSpec_options BaseNFSDiskSpec_flags"

text \<open>\<open>BaseNFSDiskSpec.__init__\<close> and \<open>BaseLustreDiskSpec.__init__\<close> set the type of the disk afterwards.\<close>

definition new_NFS_disk_spec :: "flag_values option \<Rightarrow> string \<Rightarrow> metadata_dict \<Rightarrow> exn + metadata_dict" where
  "new_NFS_disk_spec F component kwargs =
     bindE (new_spec (BaseNFSDiskSpec F) component kwargs) (\<lambda>attrs.
       Inr (dict_set attrs ''disk_type'' (VStr ''nfs'')))"

definition new_Lustre_disk_spec :: "flag_values option \<Rightarrow> string \<Rightarrow> metadata_dict \<Rightarrow> exn + metadata_dict" where
  "new_Lustre_disk_spec F component kwargs =
     bindE (new_spec (BaseDiskSpec F) component kwargs) (\<lambda>attrs.
       Inr (dict_set (dict_set attrs ''device_path'' VNone) ''disk_type'' (VStr ''lustre'')))"

definition BaseSMBDiskSpec :: "flag_values option \<Rightarrow> spec_class" where
  "BaseSMBDiskSpec = spec_with
     (BaseDiskSpec_options @ [(''smb_version'', \<lambda>opt. StringDecoder False opt (Some (VStr ''3.0'')))])
     (BaseDiskSpec_flags @ [(''smb_version'', ''smb_version'')])"

text \<open>The class for a cloud and a type of disks, or else the class for the cloud\<close>

definition GetDiskSpecClass ::
  "class_table \<Rightarrow> cls \<Rightarrow> pyval \<Rightarrow> pyval \<Rightarrow> class_state \<Rightarrow> (exn + cls) \<times> class_state" where
  "GetDiskSpecClass T base_class cloud disk_type s =
     (case GetRegisteredClass T base_class (Some base_class) [(''CLOUD'', cloud), (''DISK_TYPE'', disk_type)] s of
        (Inl e, s') \<Rightarrow> (Inl e, s')
      | (Inr c, s') \<Rightarrow> if c = base_class
          then GetRegisteredClass T base_class (Some base_class) [(''CLOUD'', cloud)] s' else (Inr c, s'))"

definition IsRemoteDisk :: "string \<Rightarrow> bool" where
  "IsRemoteDisk disk_type = (disk_type \<notin> {''local'', ''nfs'', ''smb'', ''ram''})"

section \<open>Specs of machines\<close>

definition VALID_GPU_TYPES :: "string list" where
  "VALID_GPU_TYPES =
     [''k80'', ''p100'', ''v100'', ''a100'', ''p4'', ''p4-vws'', ''t4'', ''a10''] @
     [''l4'', ''h100'', ''b200'', ''rtx-pro-6000'', ''v6e'']"

definition BaseVmSpec_options :: "(string \<times> (string option \<Rightarrow> option_decoder)) list" where
  "BaseVmSpec_options =
     [(''boot_disk_size'', \<lambda>opt. IntDecoder None None True opt (Some VNone)),
      (''disable_interrupt_moderation'', \<lambda>opt. BooleanDecoder False opt (Some (VBool False))),
      (''disable_rss'', \<lambda>opt. BooleanDecoder False opt (Some (VBool False))),
      (''image'', \<lambda>opt. StringDecoder True opt (Some VNone)),
      (''install_packages'', \<lambda>opt. BooleanDecoder False opt (Some (VBool True))),
      (''machine_type'', \<lambda>opt. StringDecoder True opt (Some VNone)),
      (''assign_external_ip'', \<lambda>opt. BooleanDecoder False opt (Some (VBool True))),
      (''assign_external_ip_all_nics'', \<lambda>opt. BooleanDecoder False opt (Some (VBool False))),
      (''gpu_type'', \<lambda>opt. EnumDecoder (map VStr VALID_GPU_TYPES) opt (Some VNone)),
      (''gpu_count'', \<lambda>opt. IntDecoder None (Some 1) False opt (Some VNone)),
      (''zone'', \<lambda>opt. StringDecoder True opt (Some VNone)),
      (''cidr'', \<lambda>opt. StringDecoder True opt (Some VNone)),
      (''use_dedicated_host'', \<lambda>opt. BooleanDecoder False opt (Some (VBool False))),
      (''num_vms_per_host'', \<lambda>opt. IntDecoder None None False opt (Some VNone)),
      (''background_network_mbits_per_sec'', \<lambda>opt. IntDecoder None None True opt (Some VNone)),
      (''background_network_ip_type'', \<lambda>opt. EnumDecoder [VStr ''EXTERNAL'', VStr ''INTERNAL''] opt
         (Some (VStr ''EXTERNAL''))),
      (''background_cpu_threads'', \<lambda>opt. IntDecoder None None True opt (Some VNone)),
      (''boot_startup_script'', \<lambda>opt. StringDecoder True opt (Some VNone)),
      (''vm_metadata'', \<lambda>opt. ListDecoder (StringDecoder False None None) False opt (Some (VList [])))]"

definition BaseVmSpec_flags :: "(string \<times> string) list" where
  "BaseVmSpec_flags = map (\<lambda>k. (k, k))
       [''boot_disk_size'', ''image'', ''install_packages'', ''machine_type'', ''background_cpu_threads'',
        ''background_network_mbits_per_sec'', ''background_network_ip_type''] @
     [(''dedicated_hosts'', ''use_dedicated_host'')] @ map (\<lambda>k. (k, k))
       [''num_vms_per_host'', ''gpu_type'', ''gpu_count'', ''assign_external_ip'', ''assign_external_ip_all_nics'',
        ''disable_interrupt_moderation'', ''disable_rss'', ''vm_metadata'', ''boot_startup_script'']"

definition missing_option :: "string \<Rightarrow> exn" where
  "missing_option m = exn (Config MissingOption) m"

definition BaseVmSpec_ApplyFlags :: "flag_values \<Rightarrow> metadata_dict \<Rightarrow> exn + metadata_dict" where
  "BaseVmSpec_ApplyFlags F config =
     (let config = apply_present F BaseVmSpec_flags config
      in if map_of config ''gpu_count'' \<noteq> None \<and> map_of config ''gpu_type'' = None
         then Inl (missing_option ''gpu_type must be specified if gpu_count is set'')
         else if map_of config ''gpu_type'' \<noteq> None \<and> map_of config ''gpu_count'' = None
         then Inl (missing_option ''gpu_count must be specified if gpu_type is set'')
         else Inr config)"

definition BaseVmSpec :: "flag_values option \<Rightarrow> spec_class" where
  "BaseVmSpec F = \<lparr>constructions = BaseVmSpec_options, ApplyFlags = map_option BaseVmSpec_ApplyFlags F\<rparr>"

section \<open>Custom types of machines\<close>

text \<open>\<open>_CONFIG_MEMORY_PATTERN.match\<close> does not look at what follows the unit.\<close>

definition memory_match :: "string \<Rightarrow> (string \<times> string) option" where
  "memory_match s =
     (let n = takeWhile (\<lambda>c. c \<in> set ''0123456789.'') s; rest = drop (length n) s
      in if n \<noteq> [] \<and> (prefix ''GiB'' rest \<or> prefix ''MiB'' rest) then Some (n, take 3 rest) else None)"

definition memory_mib :: "string option \<Rightarrow> string \<Rightarrow> string \<Rightarrow> exn + pyval" where
  "memory_mib opt component s =
     (case memory_match s of
        None \<Rightarrow> Inl (invalid_option opt component ''Examples of valid values: 1280MiB, 7.5GiB.'')
      | Some (n, units) \<Rightarrow>
         (case py_float_of n of
            Some (Finite x) \<Rightarrow>
              (let x = (if units = ''GiB'' then x * 1024 else x)
               in if x \<noteq> of_int (py_int x)
                  then Inl (invalid_option opt component ''The specified size must be an integer number of MiB.'')
                  else Inr (VInt (py_int x)))
          | _ \<Rightarrow> Inl (invalid_option opt component ''It is not a valid float.'')))"

definition MemoryDecoder :: "bool \<Rightarrow> string option \<Rightarrow> pyval option \<Rightarrow> option_decoder" where
  "MemoryDecoder none_ok opt dflt = \<lparr>option = opt, default_value = dflt,
     Decode = (\<lambda>component v. bindE (verify_type [TStr] none_ok opt component v) (\<lambda>v. case v of
         VStr s \<Rightarrow> memory_mib opt component s
       | _ \<Rightarrow> Inr v))\<rparr>"

definition CustomMachineTypeSpec :: "flag_values option \<Rightarrow> spec_class" where
  "CustomMachineTypeSpec = spec_with
     [(''cpus'', \<lambda>opt. IntDecoder None (Some 1) False opt None),
      (''memory'', \<lambda>opt. MemoryDecoder True opt (Some VNone))] []"

text \<open>\<open>S(name, flag_values=..., **value)\<close> for a value that may be no dictionary\<close>

definition not_a_mapping :: exn where
  "not_a_mapping = exn (Builtin TypeError) ''argument after ** must be a mapping''"

definition spec_of_value ::
  "(string \<Rightarrow> metadata_dict \<Rightarrow> exn + metadata_dict) \<Rightarrow> string \<Rightarrow> pyval \<Rightarrow> exn + pyval" where
  "spec_of_value build component v = (case v of
     VDict d \<Rightarrow> bindE (build component d) (\<lambda>attrs. Inr (VDict attrs))
   | _ \<Rightarrow> Inl not_a_mapping)"

definition MachineTypeDecoder ::
  "flag_values option \<Rightarrow> bool \<Rightarrow> string option \<Rightarrow> pyval option \<Rightarrow> option_decoder" where
  "MachineTypeDecoder F none_ok opt dflt = \<lparr>option = opt, default_value = dflt,
     Decode = (\<lambda>component v. bindE (verify_type [TStr, TDict] none_ok opt component v) (\<lambda>v. case v of
         VStr s \<Rightarrow> Inr v
       | _ \<Rightarrow> spec_of_value (new_spec (CustomMachineTypeSpec F)) (GetOptionFullName opt component) v))\<rparr>"

definition AzurePerformanceTierSpec :: "flag_values option \<Rightarrow> spec_class" where
  "AzurePerformanceTierSpec = spec_with
     [(''compute_units'', \<lambda>opt. IntDecoder None (Some 50) False opt None),
      (''tier'', \<lambda>opt. EnumDecoder [VStr ''Basic'', VStr ''Standard'', VStr ''Premium''] opt None)]
     [(''azure_tier'', ''tier''), (''azure_compute_units'', ''compute_units'')]"

definition AzureMachineTypeDecoder ::
  "flag_values option \<Rightarrow> bool \<Rightarrow> string option \<Rightarrow> pyval option \<Rightarrow> option_decoder" where
  "AzureMachineTypeDecoder F none_ok opt dflt = \<lparr>option = opt, default_value = dflt,
     Decode = (\<lambda>component v. bindE (verify_type [TStr, TDict] none_ok opt component v) (\<lambda>v. case v of
         VStr s \<Rightarrow> Inr v
       | VDict d \<Rightarrow> spec_of_value
           (if map_of d ''cpus'' \<noteq> None \<or> map_of d ''memory'' \<noteq> None then new_spec (CustomMachineTypeSpec F)
            else new_spec (AzurePerformanceTierSpec F)) (GetOptionFullName opt component) v
       | _ \<Rightarrow> Inl (exn (Builtin TypeError) ''argument is not iterable'')))\<rparr>"

section \<open>Static machines\<close>

definition static_vm_keywords :: "(string \<times> pyval) list" where
  "static_vm_keywords =
     [(''ip_address'', VNone), (''user_name'', VNone), (''ssh_private_key'', VNone), (''internal_ip'', VNone),
      (''internal_ips'', VNone), (''ssh_port'', VInt 22), (''password'', VNone), (''os_type'', VNone),
      (''tag'', VNone), (''zone'', VNone)]"

fun disk_specs_loop :: "flag_values option \<Rightarrow> string \<Rightarrow> nat \<Rightarrow> pyval list \<Rightarrow> exn + pyval list" where
  "disk_specs_loop F component i [] = Inr []"
| "disk_specs_loop F component i (d # ds) =
     bindE (spec_of_value (new_spec (BaseDiskSpec F)) (component @ ''.disk_specs['' @ str_of_nat i @ '']'') d) (\<lambda>s.
     bindE (disk_specs_loop F component (i + 1) ds) (\<lambda>ss. Inr (s # ss)))"

definition static_disk_specs :: "flag_values option \<Rightarrow> string \<Rightarrow> pyval \<Rightarrow> exn + pyval list" where
  "static_disk_specs F component v =
     (if \<not> py_true v then Inr []
      else case v of VList ds \<Rightarrow> disk_specs_loop F component 0 ds | _ \<Rightarrow> Inl not_a_mapping)"

text \<open>\<open>StaticVmSpec(component, flag_values=F, **kwargs)\<close>: the named arguments do not reach the base class,
  and become attributes after its constructor.\<close>

definition new_static_vm_spec :: "flag_values option \<Rightarrow> string \<Rightarrow> metadata_dict \<Rightarrow> exn + metadata_dict" where
  "new_static_vm_spec F component kwargs =
     (let names = ''disk_specs'' # map fst static_vm_keywords;
          given = map (\<lambda>(k, dflt). (k, case map_of kwargs k of None \<Rightarrow> dflt | Some v \<Rightarrow> v)) static_vm_keywords
      in bindE (new_spec (BaseVmSpec F) component (filter (\<lambda>(k, _). k \<notin> set names) kwargs)) (\<lambda>attrs.
         bindE (static_disk_specs F component (case map_of kwargs ''disk_specs'' of None \<Rightarrow> VNone | Some v \<Rightarrow> v)) (\<lambda>ds.
           Inr (dict_set (dict_update attrs given) ''disk_specs'' (VList ds)))))"

definition StaticVmDecoder :: "flag_values option \<Rightarrow> option_decoder" where
  "StaticVmDecoder F = \<lparr>option = None, default_value = None,
     Decode = (\<lambda>component v. bindE (verify_type [TDict] False None component v)
       (spec_of_value (new_static_vm_spec F) component))\<rparr>"

definition StaticVmListDecoder :: "flag_values option \<Rightarrow> string option \<Rightarrow> option_decoder" where
  "StaticVmListDecoder F opt = ListDecoder (StaticVmDecoder F) False opt (Some (VList []))"

section \<open>Groups of machines\<close>

definition ManagedVmGroupSpec :: "flag_values option \<Rightarrow> spec_class" where
  "ManagedVmGroupSpec = spec_with [] []"

definition ManagedVmGroupSpecDecoder ::
  "flag_values option \<Rightarrow> bool \<Rightarrow> string option \<Rightarrow> pyval option \<Rightarrow> option_decoder" where
  "ManagedVmGroupSpecDecoder F none_ok opt dflt = \<lparr>option = opt, default_value = dflt,
     Decode = (\<lambda>component v. bindE (verify_type [TDict] none_ok opt component v)
       (spec_of_value (new_spec (ManagedVmGroupSpec F)) (GetOptionFullName opt component)))\<rparr>"

definition VmGroupSpec_options :: "flag_values option \<Rightarrow> (string \<times> (string option \<Rightarrow> option_decoder)) list" where
  "VmGroupSpec_options F =
     [(''cloud'', \<lambda>opt. EnumDecoder (map VStr VALID_CLOUDS) opt None),
      (''disk_count'', \<lambda>opt. IntDecoder None (Some 0) True opt (Some (VInt 1))),
      (''vm_as_nfs'', \<lambda>opt. BooleanDecoder True opt (Some (VBool False))),
      (''disk_spec'', \<lambda>opt. PerCloudConfigDecoder True opt (Some VNone)),
      (''os_type'', \<lambda>opt. EnumDecoder (map VStr ALL_OS_TYPES) opt None),
      (''static_vms'', StaticVmListDecoder F),
      (''vm_count'', \<lambda>opt. IntDecoder None (Some 0) False opt (Some (VInt 1))),
      (''cidr'', \<lambda>opt. StringDecoder False opt (Some VNone)),
      (''vm_spec'', \<lambda>opt. PerCloudConfigDecoder False opt None),
      (''managed_spec'', \<lambda>opt. ManagedVmGroupSpecDecoder F True opt (Some VNone)),
      (''placement_group_name'', \<lambda>opt. StringDecoder True opt (Some VNone)),
      (''provision_order'', \<lambda>opt. IntDecoder None (Some 0) False opt (Some (VInt 0))),
      (''provision_delay_seconds'', \<lambda>opt. IntDecoder None (Some 0) True opt (Some (VInt 0)))]"

definition flag_or_config :: "flag_values \<Rightarrow> string \<Rightarrow> metadata_dict \<Rightarrow> metadata_dict" where
  "flag_or_config F k config =
     (if flag_present F k \<or> map_of config k = None then dict_set config k (flag_value F k) else config)"

definition VmGroupSpec_ApplyFlags :: "flag_values \<Rightarrow> metadata_dict \<Rightarrow> metadata_dict" where
  "VmGroupSpec_ApplyFlags F config =
     (let config = flag_or_config F ''os_type'' (flag_or_config F ''cloud'' config);
          config = (if map_of config ''vm_count'' = Some VNone
            then dict_set config ''vm_count'' (flag_value F ''num_vms'') else config)
      in if py_true (flag_value F ''use_managed_vm_groups'')
         then dict_set config ''managed_spec'' (VDict []) else config)"

definition VmGroupSpec :: "flag_values option \<Rightarrow> spec_class" where
  "VmGroupSpec F = \<lparr>constructions = VmGroupSpec_options F,
     ApplyFlags = map_option (\<lambda>F config. Inr (VmGroupSpec_ApplyFlags F config)) F\<rparr>"

text \<open>What the modules of the providers have registered\<close>

record provider_classes =
  LoadProvider :: "string \<Rightarrow> exn + unit"
  vm_spec_class :: "string \<Rightarrow> exn + spec_class"
  disk_spec_class :: "string \<Rightarrow> pyval \<Rightarrow> exn + spec_class"

definition DEFAULT_VM_PLATFORM :: string where
  "DEFAULT_VM_PLATFORM = ''DEFAULT_VM''"

definition provider_of :: "flag_values option \<Rightarrow> string \<Rightarrow> string" where
  "provider_of F cloud_name = (case F of
     None \<Rightarrow> cloud_name
   | Some F \<Rightarrow> (case flag_value F ''vm_platform'' of
       VStr p \<Rightarrow> if flag_present F ''vm_platform'' \<and> p \<noteq> DEFAULT_VM_PLATFORM then p else cloud_name
     | _ \<Rightarrow> cloud_name))"

text \<open>\<open>getattr(per_cloud_spec, provider, None)\<close>\<close>

definition provider_config :: "pyval \<Rightarrow> string \<Rightarrow> metadata_dict option" where
  "provider_config v p = (case v of
     VDict attrs \<Rightarrow> (case map_of attrs p of Some (VDict d) \<Rightarrow> Some d | _ \<Rightarrow> None) | _ \<Rightarrow> None)"

definition string_attr :: "metadata_dict \<Rightarrow> string \<Rightarrow> string" where
  "string_attr attrs k = (case map_of attrs k of Some (VStr s) \<Rightarrow> s | _ \<Rightarrow> [])"

definition no_config :: "string \<Rightarrow> string \<Rightarrow> string \<Rightarrow> exn" where
  "no_config component cloud_name what = missing_option (component @ ''.cloud is '' @ cloud_name @ '', but '' @ component
     @ what @ '' does not contain a configuration for '' @ cloud_name @ ''.'')"

definition disk_type_of :: "flag_values option \<Rightarrow> metadata_dict \<Rightarrow> pyval" where
  "disk_type_of F config =
     (let given = (case map_of config ''disk_type'' of None \<Rightarrow> VNone | Some t \<Rightarrow> t)
      in case F of None \<Rightarrow> given
        | Some F \<Rightarrow> if flag_present F ''data_disk_type'' then flag_value F ''data_disk_type'' else given)"

text \<open>The disk of the group, and the disk of a machine that serves it over NFS\<close>

definition build_disk_specs ::
  "flag_values option \<Rightarrow> provider_classes \<Rightarrow> string \<Rightarrow> metadata_dict \<Rightarrow> exn + metadata_dict" where
  "build_disk_specs F B component attrs =
     (let cloud_name = string_attr attrs ''cloud'';
          name = component @ ''.disk_spec.'' @ cloud_name
      in case map_of attrs ''disk_spec'' of
        Some (VDict per_cloud) \<Rightarrow>
          (case provider_config (VDict per_cloud) (provider_of F cloud_name) of
             None \<Rightarrow> Inl (no_config component cloud_name ''.disk_spec'')
           | Some config \<Rightarrow>
              bindE (disk_spec_class B cloud_name (disk_type_of F config)) (\<lambda>C.
                 bindE (new_spec C name config) (\<lambda>s.
                 let attrs = dict_set attrs ''disk_spec'' (VDict s)
                 in if map_of attrs ''vm_as_nfs'' = Some (VBool True)
                    then bindE (new_NFS_disk_spec F name config) (\<lambda>s. Inr (dict_set attrs ''vm_as_nfs_disk_spec'' (VDict s)))
                    else Inr attrs)))
      | _ \<Rightarrow> Inr attrs)"

definition build_vm_spec ::
  "flag_values option \<Rightarrow> provider_classes \<Rightarrow> string \<Rightarrow> metadata_dict \<Rightarrow> exn + metadata_dict" where
  "build_vm_spec F B component attrs =
     (let cloud_name = string_attr attrs ''cloud''
      in case provider_config (case map_of attrs ''vm_spec'' of None \<Rightarrow> VNone | Some v \<Rightarrow> v) (provider_of F cloud_name) of
        None \<Rightarrow> Inl (no_config component cloud_name ''.vm_spec'')
      | Some config \<Rightarrow>
          bindE (vm_spec_class B cloud_name) (\<lambda>C.
          bindE (new_spec C (component @ ''.vm_spec.'' @ cloud_name) config) (\<lambda>s.
            Inr (dict_set attrs ''vm_spec'' (VDict s)))))"

definition new_VmGroupSpec ::
  "flag_values option \<Rightarrow> provider_classes \<Rightarrow> string \<Rightarrow> metadata_dict \<Rightarrow> exn + metadata_dict" where
  "new_VmGroupSpec F B component kwargs =
     bindE (new_spec (VmGroupSpec F) component kwargs) (\<lambda>attrs.
     bindE (LoadProvider B (string_attr attrs ''cloud'')) (\<lambda>_.
     bindE (build_disk_specs F B component attrs) (build_vm_spec F B component)))"

text \<open>The decoders of one group and of the groups of a benchmark\<close>

fun groups_loop ::
  "flag_values option \<Rightarrow> provider_classes \<Rightarrow> string \<Rightarrow> metadata_dict \<Rightarrow> metadata_dict \<Rightarrow> exn + metadata_dict" where
  "groups_loop F B name [] result = Inr result"
| "groups_loop F B name ((g, config) # gs) result =
     bindE (spec_of_value (new_VmGroupSpec F B) (name @ ''.'' @ g) config) (\<lambda>s.
       groups_loop F B name gs (dict_set result g s))"

definition VmGroupsDecoder ::
  "flag_values option \<Rightarrow> provider_classes \<Rightarrow> string option \<Rightarrow> pyval option \<Rightarrow> option_decoder" where
  "VmGroupsDecoder F B opt dflt = \<lparr>option = opt, default_value = dflt,
     Decode = (\<lambda>component v. bindE (verify_type [TDict] False opt component v) (\<lambda>v. case v of
         VDict gs \<Rightarrow> bindE (groups_loop F B (GetOptionFullName opt component) gs []) (\<lambda>r. Inr (VDict r))
       | _ \<Rightarrow> Inr v))\<rparr>"

definition VmGroupSpecDecoder ::
  "flag_values option \<Rightarrow> provider_classes \<Rightarrow> string option \<Rightarrow> pyval option \<Rightarrow> option_decoder" where
  "VmGroupSpecDecoder F B opt dflt = \<lparr>option = opt, default_value = dflt,
     Decode = (\<lambda>component v. bindE (verify_type [TDict] False opt component v)
       (spec_of_value (new_VmGroupSpec F B) (GetOptionFullName opt component)))\<rparr>"

section \<open>What specs promise\<close>

text \<open>
  A decoder whose values have a property and whose exceptions are of a kind; a class of specs all of whose
  decoders are such decoders, with defaults that have the property too.
\<close>

locale typed_decoder =
  fixes D :: option_decoder and P :: "pyval \<Rightarrow> bool" and E :: "exn \<Rightarrow> bool"
  assumes value_typed: "Decode D component v = Inr w \<Longrightarrow> P w"
    and failure_typed: "Decode D component v = Inl e \<Longrightarrow> E e"

sublocale sound_decoder \<subseteq> typed_decoder D P config_failure
  by unfold_locales (fact decodes, fact fails)

locale typed_spec =
  fixes S :: spec_class and A :: "string \<Rightarrow> pyval \<Rightarrow> bool" and E :: "exn \<Rightarrow> bool"
  assumes decoder_typed: "(k, mk) \<in> set (constructions S) \<Longrightarrow> typed_decoder (mk (Some k)) (A k) E"
    and default_typed: "(k, mk) \<in> set (constructions S) \<Longrightarrow> default_value (mk (Some k)) = Some v \<Longrightarrow> A k v"
    and flags_typed: "ApplyFlags S = Some f \<Longrightarrow> f config = Inl e \<Longrightarrow> E e"
    and config_failures: "config_failure e \<Longrightarrow> E e"
    and names_distinct: "distinct (map fst (constructions S))"
begin

lemma decoders: "(k, D) \<in> set (InitDecoders S) \<Longrightarrow> typed_decoder D (A k) E \<and> (\<forall>v. default_value D = Some v \<longrightarrow> A k v)"
  by (auto simp: InitDecoders_def decoder_typed default_typed)

lemma attributes_typed:
  assumes "new_spec S component kwargs = Inr attrs"
  shows "map fst attrs = sort (map fst (constructions S))" and "map_of attrs k = Some v \<Longrightarrow> A k v"
proof -
  obtain kw where "DecodeAndInit component kw (InitDecoders S) = Inr attrs"
    using assms by (auto simp: new_spec_def Let_def bindE_Inr split: if_splits)
  from DecodeAndInit_Inr [OF this] have l: "list_all2 (attribute_of component kw) (InitDecoders S) attrs" .
  then have "map fst attrs = map fst (InitDecoders S)"
    by (induction rule: list_all2_induct) (auto simp: attribute_of_def)
  also have "\<dots> = map fst (sort_key fst (constructions S))"
    by (simp add: InitDecoders_def comp_def case_prod_beta)
  also have "\<dots> = sort (map fst (constructions S))"
    using names_distinct by (intro sorted_distinct_set_unique) (simp_all add: distinct_map)
  finally show "map fst attrs = sort (map fst (constructions S))" .
  assume "map_of attrs k = Some v"
  then have "(k, v) \<in> set attrs" by (rule map_of_SomeD)
  then obtain i where "i < length attrs" "attrs ! i = (k, v)" by (auto simp: in_set_conv_nth)
  with l have "InitDecoders S ! i \<in> set (InitDecoders S)" "attribute_of component kw (InitDecoders S ! i) (k, v)"
    by (auto simp: list_all2_conv_all_nth)
  moreover obtain k' D where "InitDecoders S ! i = (k', D)" by (cases "InitDecoders S ! i")
  ultimately have "(k, D) \<in> set (InitDecoders S)" "attribute_of component kw (k, D) (k, v)"
    by (auto simp: attribute_of_def)
  with decoders [of k D] show "A k v"
    by (auto simp: attribute_of_def typed_decoder_def split: option.splits)
qed

lemma attribute_exists:
  assumes "new_spec S component kwargs = Inr attrs" and "k \<in> set (map fst (constructions S))"
  shows "\<exists>v. map_of attrs k = Some v \<and> A k v"
proof -
  have "k \<in> set (map fst attrs)" using assms(2) attributes_typed(1) [OF assms(1)] by simp
  then obtain v where "map_of attrs k = Some v" by (cases "map_of attrs k") (auto simp: map_of_eq_None_iff)
  with attributes_typed(2) [OF assms(1)] show ?thesis by blast
qed

lemma spec_failure:
  assumes "new_spec S component kwargs = Inl e"
  shows "E e"
proof -
  have config: "E (exn (Config MissingOption) m)" "E (exn (Config UnrecognizedOption) m)" for m
    by (auto intro!: config_failures simp: config_failure_def exn_def)
  show ?thesis
  proof (cases "case ApplyFlags S of None \<Rightarrow> Inr kwargs | Some f \<Rightarrow> f kwargs")
    case (Inl e')
    with assms show ?thesis
      by (auto simp: new_spec_def Let_def split: option.splits dest: flags_typed)
  next
    case (Inr kw)
    show ?thesis
    proof (cases "filter (\<lambda>k. map_of kw k = None) (required_options (InitDecoders S)) = []")
      case False
      with Inr assms config show ?thesis by (auto simp: new_spec_def Let_def)
    next
      case True
      then have required: "map_of kw k \<noteq> None" if "(k, D) \<in> set (InitDecoders S)" "required D" for k D
        using that by (force simp: filter_empty_conv required_options_def)
      show ?thesis
      proof (cases "E e")
        case False
        then have "DecodeAndInit component kw (InitDecoders S) = Inl e"
          using Inr True assms config by (auto simp: new_spec_def Let_def split: if_splits)
        then obtain k D v where "(k, D) \<in> set (InitDecoders S)" "Decode D component v = Inl e"
          using DecodeAndInit_Inl required by metis
        with decoders show ?thesis by (blast dest: typed_decoder.failure_typed)
      qed
    qed
  qed
qed

end

section \<open>The decoders of the specs\<close>

named_theorems decoder_types \<open>what decoders return, weakened to a given property\<close>

definition any_failure :: "(exn \<Rightarrow> bool) \<Rightarrow> bool" where
  "any_failure E \<longleftrightarrow> (\<forall>e. config_failure e \<longrightarrow> E e)"

lemma any_failureD: "any_failure E \<Longrightarrow> config_failure e \<Longrightarrow> E e"
  by (simp add: any_failure_def)

lemma TypeVerifier_typed:
  assumes "any_failure E" and "\<And>v. none_ok \<and> v = VNone \<or> list_ex (has_type v) types \<Longrightarrow> Q v"
  shows "typed_decoder (TypeVerifier types none_ok opt dflt) Q E"
  using assms by unfold_locales (auto simp: TypeVerifier_def verify_type_Inr dest!: verify_type_Inl any_failureD)

lemma StringDecoder_typed [decoder_types]:
  assumes "any_failure E" and "none_ok \<Longrightarrow> Q VNone" and "\<And>s. Q (VStr s)"
  shows "typed_decoder (StringDecoder none_ok opt dflt) Q E"
  unfolding StringDecoder_def
proof (rule TypeVerifier_typed [OF assms(1)])
  show "Q v" if "none_ok \<and> v = VNone \<or> list_ex (has_type v) [TStr]" for v
    using assms(2,3) that by (cases v) auto
qed

lemma BooleanDecoder_typed [decoder_types]:
  assumes "any_failure E" and "none_ok \<Longrightarrow> Q VNone" and "\<And>b. Q (VBool b)"
  shows "typed_decoder (BooleanDecoder none_ok opt dflt) Q E"
  unfolding BooleanDecoder_def
proof (rule TypeVerifier_typed [OF assms(1)])
  show "Q v" if "none_ok \<and> v = VNone \<or> list_ex (has_type v) [TBool]" for v
    using assms(2,3) that by (cases v) auto
qed

lemma IntDecoder_typed [decoder_types]:
  assumes "any_failure E" and "\<And>v. int_within mx mn none_ok v \<Longrightarrow> Q v"
  shows "typed_decoder (IntDecoder mx mn none_ok opt dflt) Q E"
  using assms by unfold_locales (auto simp: IntDecoder_Inr dest!: IntDecoder_fails any_failureD)

lemma all_strings [simp]: "list_all (\<lambda>x. \<exists>s. x = VStr s) (map VStr ss)"
  by (simp add: list_all_iff)

lemma EnumDecoder_typed [decoder_types]:
  assumes "any_failure E" and "list_all (\<lambda>x. \<exists>s. x = VStr s) xs" and "\<And>x. x \<in> set xs \<Longrightarrow> Q x"
  shows "typed_decoder (EnumDecoder xs opt dflt) Q E"
proof
  fix component v w
  assume "Decode (EnumDecoder xs opt dflt) component v = Inr w"
  then obtain x where x: "x \<in> set xs" "w = v" "py_eq v x"
    by (auto simp: EnumDecoder_def list_ex_iff split: if_splits)
  moreover from x assms(2) obtain s where "x = VStr s" by (auto simp: list_all_iff)
  ultimately have "w = x" by (cases v) (auto simp: py_eq_def num_value_def int_value_def)
  with x assms(3) show "Q w" by blast
next
  fix component v e
  assume "Decode (EnumDecoder xs opt dflt) component v = Inl e"
  then show "E e" using assms(1) by (auto simp: EnumDecoder_def split: if_splits dest!: any_failureD)
qed

lemma typed_items:
  assumes "typed_decoder D P E"
  shows "case decode_items D list_name i vs of Inr ws \<Rightarrow> list_all P ws | Inl e \<Rightarrow> E e"
proof (induction vs arbitrary: i)
  case (Cons v vs)
  show ?case
    using Cons.IH [of "Suc i"] typed_decoder.value_typed [OF assms] typed_decoder.failure_typed [OF assms]
    by (auto simp: bindE_def split: sum.splits)
qed simp

lemma ListDecoder_typed:
  assumes "any_failure E" and "typed_decoder D P E" and "none_ok \<Longrightarrow> Q VNone" and "\<And>vs. list_all P vs \<Longrightarrow> Q (VList vs)"
  shows "typed_decoder (ListDecoder D none_ok opt dflt) Q E"
proof
  fix component v w
  assume "Decode (ListDecoder D none_ok opt dflt) component v = Inr w"
  then show "Q w"
    using assms(3,4) typed_items [OF assms(2)]
    by (cases v) (auto simp: ListDecoder_def bindE_Inr verify_type_Inr split: sum.splits, metis sum.simps(6))
next
  fix component v e
  assume "Decode (ListDecoder D none_ok opt dflt) component v = Inl e"
  then show "E e"
    using typed_items [OF assms(2)] assms(1)
    by (auto simp: ListDecoder_def bindE_def split: sum.splits pyval.splits dest!: verify_type_Inl any_failureD, metis sum.simps(5))
qed

text \<open>A spec as the value of an option\<close>

lemma spec_of_value_typed:
  assumes "any_failure E" and "E not_a_mapping" and "\<And>d e. build (GetOptionFullName opt component) d = Inl e \<Longrightarrow> E e"
  shows "bindE (verify_type types none_ok opt component v) (spec_of_value build (GetOptionFullName opt component)) = Inl e \<Longrightarrow> E e"
    and "bindE (verify_type types none_ok opt component v) (spec_of_value build (GetOptionFullName opt component)) = Inr w
      \<Longrightarrow> \<exists>d attrs. v = VDict d \<and> build (GetOptionFullName opt component) d = Inr attrs \<and> w = VDict attrs"
  using assms by (auto simp: bindE_def spec_of_value_def verify_type_Inr split: sum.splits pyval.splits
      dest!: verify_type_Inl any_failureD)

lemma any_config_failure [simp]: "any_failure config_failure"
  by (simp add: any_failure_def)

lemma MemoryDecoder_typed [decoder_types]:
  assumes "any_failure E" and "none_ok \<Longrightarrow> Q VNone" and "\<And>n. Q (VInt n)"
  shows "typed_decoder (MemoryDecoder none_ok opt dflt) Q E"
proof
  fix component v w
  assume "Decode (MemoryDecoder none_ok opt dflt) component v = Inr w"
  then show "Q w"
    using assms(2,3) by (cases v) (auto simp: MemoryDecoder_def bindE_Inr verify_type_Inr memory_mib_def Let_def
      split: option.splits prod.splits py_float.splits if_splits)
next
  fix component v e
  assume "Decode (MemoryDecoder none_ok opt dflt) component v = Inl e"
  then show "E e"
    using assms(1) by (auto simp: MemoryDecoder_def bindE_def memory_mib_def Let_def any_failure_def
      split: sum.splits option.splits prod.splits py_float.splits pyval.splits if_splits dest!: verify_type_Inl)
qed

section \<open>Interpretations\<close>

interpretation per_cloud: typed_spec PerCloudConfigSpec "\<lambda>_ v. v = VNone \<or> (\<exists>d. v = VDict d)" config_failure
proof (rule typed_spec.intro)
  fix k mk
  assume "(k, mk) \<in> set (constructions PerCloudConfigSpec)"
  then have mk: "mk = (\<lambda>opt. TypeVerifier [TDict] False opt (Some VNone))" by (auto simp: PerCloudConfigSpec_def)
  show "typed_decoder (mk (Some k)) (\<lambda>v. v = VNone \<or> (\<exists>d. v = VDict d)) config_failure"
    unfolding mk
  proof (rule TypeVerifier_typed)
    show "v = VNone \<or> (\<exists>d. v = VDict d)" if "False \<and> v = VNone \<or> list_ex (has_type v) [TDict]" for v
      using that by (cases v) auto
  qed simp
  show "v = VNone \<or> (\<exists>d. v = VDict d)" if "default_value (mk (Some k)) = Some v" for v
    using that by (simp add: mk TypeVerifier_def)
qed (auto simp: PerCloudConfigSpec_def VALID_CLOUDS_def comp_def)

lemma PerCloudConfigDecoder_typed [decoder_types]:
  assumes "any_failure E" and "none_ok \<Longrightarrow> Q VNone" and "\<And>d. Q (VDict d)"
  shows "typed_decoder (PerCloudConfigDecoder none_ok opt dflt) Q E"
proof
  fix component v w
  assume "Decode (PerCloudConfigDecoder none_ok opt dflt) component v = Inr w"
  then show "Q w"
    using assms(2,3) by (cases v) (auto simp: PerCloudConfigDecoder_def bindE_Inr verify_type_Inr)
next
  fix component v e
  assume "Decode (PerCloudConfigDecoder none_ok opt dflt) component v = Inl e"
  then show "E e"
    using assms(1) by (auto simp: PerCloudConfigDecoder_def bindE_def any_failure_def
      split: sum.splits pyval.splits dest!: verify_type_Inl per_cloud.spec_failure)
qed

text \<open>What is known of the attributes of a disk\<close>

definition disk_attribute :: "string \<Rightarrow> pyval \<Rightarrow> bool" where
  "disk_attribute k v \<longleftrightarrow> (k = ''num_striped_disks'' \<longrightarrow> (\<exists>n. int_value v = Some n \<and> 1 \<le> n))"

lemma int_from: "int_within None (Some m) False v \<Longrightarrow> \<exists>n. int_value v = Some n \<and> m \<le> n"
  by (auto simp: int_within_def split: option.splits)

interpretation disks: typed_spec "BaseDiskSpec F" disk_attribute config_failure for F
proof (rule typed_spec.intro)
  fix k mk
  assume k: "(k, mk) \<in> set (constructions (BaseDiskSpec F))"
  show "typed_decoder (mk (Some k)) (disk_attribute k) config_failure"
    using k by (auto simp: BaseDiskSpec_def spec_with_def BaseDiskSpec_options_def disk_attribute_def
      intro!: decoder_types dest: int_from)
  show "disk_attribute k v" if "default_value (mk (Some k)) = Some v" for v
    using k that by (auto simp: BaseDiskSpec_def spec_with_def BaseDiskSpec_options_def disk_attribute_def
      IntDecoder_def number_decoder_def int_value_def)
qed (auto simp: BaseDiskSpec_def spec_with_def BaseDiskSpec_options_def)

interpretation nfs_disks: typed_spec "BaseNFSDiskSpec F" disk_attribute config_failure for F
proof (rule typed_spec.intro)
  fix k mk
  assume k: "(k, mk) \<in> set (constructions (BaseNFSDiskSpec F))"
  show "typed_decoder (mk (Some k)) (disk_attribute k) config_failure"
    using k by (auto simp: BaseNFSDiskSpec_def spec_with_def BaseNFSDiskSpec_options_def BaseDiskSpec_options_def
      disk_attribute_def intro!: decoder_types dest: int_from)
  show "disk_attribute k v" if "default_value (mk (Some k)) = Some v" for v
    using k that by (auto simp: BaseNFSDiskSpec_def spec_with_def BaseNFSDiskSpec_options_def BaseDiskSpec_options_def
      disk_attribute_def IntDecoder_def number_decoder_def int_value_def)
next
  fix f config e
  assume "ApplyFlags (BaseNFSDiskSpec F) = Some f" "f config = Inl e"
  then show "config_failure e" by (auto simp: BaseNFSDiskSpec_def spec_with_def)
qed (simp_all add: BaseNFSDiskSpec_def spec_with_def BaseNFSDiskSpec_options_def BaseDiskSpec_options_def)

text \<open>The graphics cards of a machine, if any\<close>

definition vm_attribute :: "string \<Rightarrow> pyval \<Rightarrow> bool" where
  "vm_attribute k v \<longleftrightarrow>
     (k = ''gpu_type'' \<longrightarrow> v = VNone \<or> v \<in> VStr ` set VALID_GPU_TYPES) \<and>
     (k = ''gpu_count'' \<longrightarrow> v = VNone \<or> (\<exists>n. int_value v = Some n \<and> 1 \<le> n))"

interpretation vms: typed_spec "BaseVmSpec F" vm_attribute config_failure for F
proof (rule typed_spec.intro)
  fix k mk
  assume k: "(k, mk) \<in> set (constructions (BaseVmSpec F))"
  show "typed_decoder (mk (Some k)) (vm_attribute k) config_failure"
    using k by (auto simp: BaseVmSpec_def BaseVmSpec_options_def vm_attribute_def
      intro!: decoder_types ListDecoder_typed [where P = "\<lambda>_. True"] dest: int_from)
  show "vm_attribute k v" if "default_value (mk (Some k)) = Some v" for v
    using k that by (auto simp: BaseVmSpec_def BaseVmSpec_options_def vm_attribute_def
      IntDecoder_def number_decoder_def int_value_def EnumDecoder_def)
next
  fix f config e
  assume "ApplyFlags (BaseVmSpec F) = Some f" "f config = Inl e"
  then show "config_failure e"
    by (auto simp: BaseVmSpec_def BaseVmSpec_ApplyFlags_def Let_def missing_option_def config_failure_def exn_def
      split: if_splits)
qed (auto simp: BaseVmSpec_def BaseVmSpec_options_def)

interpretation custom: typed_spec "CustomMachineTypeSpec F"
    "\<lambda>k v. (k = ''cpus'' \<longrightarrow> (\<exists>n. int_value v = Some n \<and> 1 \<le> n)) \<and> (k = ''memory'' \<longrightarrow> v = VNone \<or> (\<exists>n. v = VInt n))"
    config_failure for F
proof (rule typed_spec.intro)
  fix k mk
  assume k: "(k, mk) \<in> set (constructions (CustomMachineTypeSpec F))"
  show "typed_decoder (mk (Some k)) (\<lambda>v. (k = ''cpus'' \<longrightarrow> (\<exists>n. int_value v = Some n \<and> 1 \<le> n))
      \<and> (k = ''memory'' \<longrightarrow> v = VNone \<or> (\<exists>n. v = VInt n))) config_failure"
    using k by (auto simp: CustomMachineTypeSpec_def spec_with_def intro!: decoder_types dest: int_from)
  show "(k = ''cpus'' \<longrightarrow> (\<exists>n. int_value v = Some n \<and> 1 \<le> n)) \<and> (k = ''memory'' \<longrightarrow> v = VNone \<or> (\<exists>n. v = VInt n))"
    if "default_value (mk (Some k)) = Some v" for v
    using k that by (auto simp: CustomMachineTypeSpec_def spec_with_def IntDecoder_def number_decoder_def MemoryDecoder_def)
qed (auto simp: CustomMachineTypeSpec_def spec_with_def)

text \<open>Static machines and groups may also be given something that is no dictionary.\<close>

definition group_failure :: "exn \<Rightarrow> bool" where
  "group_failure e \<longleftrightarrow> config_failure e \<or> e = not_a_mapping"

lemma group_failure_any [simp]: "any_failure group_failure" "group_failure not_a_mapping"
  by (simp_all add: any_failure_def group_failure_def)

lemma disk_specs_fail: "disk_specs_loop F component i ds = Inl e \<Longrightarrow> group_failure e"
  by (induction F component i ds rule: disk_specs_loop.induct)
     (auto simp: bindE_def spec_of_value_def group_failure_def split: sum.splits pyval.splits dest: disks.spec_failure)

lemma static_vm_fails: "new_static_vm_spec F component kwargs = Inl e \<Longrightarrow> group_failure e"
  by (auto simp: new_static_vm_spec_def Let_def bindE_def static_disk_specs_def
      split: sum.splits if_splits pyval.splits dest!: vms.spec_failure disk_specs_fail)
     (auto simp: group_failure_def)

lemma spec_option_fails:
  assumes "bindE (verify_type types none_ok opt component v) (spec_of_value build name) = Inl e"
    and "\<And>d e. build name d = Inl e \<Longrightarrow> group_failure e"
  shows "group_failure e"
proof (cases "verify_type types none_ok opt component v")
  case (Inl e')
  with assms(1) verify_type_Inl [OF Inl] show ?thesis by (simp add: group_failure_def)
next
  case (Inr w)
  with assms show ?thesis
    by (cases w) (auto simp: spec_of_value_def bindE_def split: sum.splits)
qed

lemma spec_option_dict:
  assumes "bindE (verify_type types none_ok opt component v) (spec_of_value build name) = Inr w"
  shows "\<exists>d attrs. v = VDict d \<and> build name d = Inr attrs \<and> w = VDict attrs"
  using assms by (cases v) (auto simp: bindE_Inr spec_of_value_def verify_type_Inr)

lemma spec_option_typed:
  assumes "\<And>component v. Decode D component v
      = bindE (verify_type types none_ok opt component v) (spec_of_value build (name component))"
    and "\<And>component d e. build (name component) d = Inl e \<Longrightarrow> group_failure e"
  shows "typed_decoder D (\<lambda>v. \<exists>attrs. v = VDict attrs) group_failure"
proof
  show "\<exists>attrs. w = VDict attrs" if "Decode D component v = Inr w" for component v w
    using that spec_option_dict unfolding assms(1) by blast
  show "group_failure e" if "Decode D component v = Inl e" for component v e
    using that spec_option_fails assms(2) unfolding assms(1) by blast
qed

lemma StaticVmDecoder_typed: "typed_decoder (StaticVmDecoder F) (\<lambda>v. \<exists>attrs. v = VDict attrs) group_failure"
  by (rule spec_option_typed [where name = "\<lambda>c. c"]) (simp add: StaticVmDecoder_def, erule static_vm_fails)

interpretation managed: typed_spec "ManagedVmGroupSpec F" "\<lambda>_ _. True" config_failure for F
  by (rule typed_spec.intro) (auto simp: ManagedVmGroupSpec_def spec_with_def)

lemma ManagedVmGroupSpecDecoder_typed:
  "typed_decoder (ManagedVmGroupSpecDecoder F none_ok opt dflt) (\<lambda>v. \<exists>attrs. v = VDict attrs) group_failure"
  by (rule spec_option_typed [where name = "GetOptionFullName opt"])
     (simp add: ManagedVmGroupSpecDecoder_def, simp add: group_failure_def managed.spec_failure)

text \<open>The attributes of a group\<close>

definition group_attribute :: "string \<Rightarrow> pyval \<Rightarrow> bool" where
  "group_attribute k v \<longleftrightarrow>
     (k = ''cloud'' \<longrightarrow> v \<in> VStr ` set VALID_CLOUDS) \<and>
     (k = ''os_type'' \<longrightarrow> v \<in> VStr ` set ALL_OS_TYPES) \<and>
     (k \<in> {''vm_count'', ''provision_order''} \<longrightarrow> (\<exists>n. int_value v = Some n \<and> 0 \<le> n)) \<and>
     (k \<in> {''disk_count'', ''provision_delay_seconds''} \<longrightarrow> v = VNone \<or> (\<exists>n. int_value v = Some n \<and> 0 \<le> n)) \<and>
     (k = ''static_vms'' \<longrightarrow> (\<exists>vs. v = VList vs \<and> list_all (\<lambda>v. \<exists>attrs. v = VDict attrs) vs)) \<and>
     (k = ''vm_spec'' \<longrightarrow> (\<exists>d. v = VDict d)) \<and>
     (k = ''disk_spec'' \<longrightarrow> v = VNone \<or> (\<exists>d. v = VDict d))"

lemma int_from_or_none: "int_within None (Some m) b v \<Longrightarrow> v = VNone \<or> (\<exists>n. int_value v = Some n \<and> m \<le> n)"
  by (auto simp: int_within_def split: option.splits)

lemma typed_weaken: "typed_decoder D P E \<Longrightarrow> (\<And>v. P v \<Longrightarrow> Q v) \<Longrightarrow> typed_decoder D Q E"
  by (auto simp: typed_decoder_def)

interpretation groups: typed_spec "VmGroupSpec F" group_attribute group_failure for F
proof (rule typed_spec.intro)
  fix k mk
  assume k: "(k, mk) \<in> set (constructions (VmGroupSpec F))"
  show "typed_decoder (mk (Some k)) (group_attribute k) group_failure"
    using k by (auto simp: VmGroupSpec_def VmGroupSpec_options_def group_attribute_def StaticVmListDecoder_def
      intro!: decoder_types ListDecoder_typed [OF _ StaticVmDecoder_typed]
        typed_weaken [OF ManagedVmGroupSpecDecoder_typed] dest: int_from int_from_or_none)
  show "group_attribute k v" if "default_value (mk (Some k)) = Some v" for v
    using k that by (auto simp: VmGroupSpec_def VmGroupSpec_options_def group_attribute_def IntDecoder_def
      number_decoder_def int_value_def EnumDecoder_def StaticVmListDecoder_def ListDecoder_def PerCloudConfigDecoder_def)
qed (auto simp: VmGroupSpec_def VmGroupSpec_options_def group_failure_def)

text \<open>The parts that are built after the options have been decoded\<close>

definition built_from ::
  "(exn + spec_class) \<Rightarrow> string \<Rightarrow> pyval \<Rightarrow> bool" where
  "built_from r component v \<longleftrightarrow> (\<exists>C config s. r = Inr C \<and> new_spec C component config = Inr s \<and> v = VDict s)"

lemma build_disk_specs_Inr:
  assumes "build_disk_specs F B component attrs = Inr attrs'"
  shows "(\<forall>k. k \<notin> {''disk_spec'', ''vm_as_nfs_disk_spec''} \<longrightarrow> map_of attrs' k = map_of attrs k)
    \<and> (case map_of attrs ''disk_spec'' of
        Some (VDict d) \<Rightarrow> \<exists>t v. map_of attrs' ''disk_spec'' = Some v
          \<and> built_from (disk_spec_class B (string_attr attrs ''cloud'') t) (component @ ''.disk_spec.'' @ string_attr attrs ''cloud'') v
      | r \<Rightarrow> map_of attrs' ''disk_spec'' = r)"
proof (cases "\<exists>d. map_of attrs ''disk_spec'' = Some (VDict d)")
  case False
  then have "attrs' = attrs" using assms
    by (auto simp: build_disk_specs_def Let_def split: option.splits pyval.splits)
  with False show ?thesis by (auto split: option.splits pyval.splits)
next
  case True
  then obtain d where d: "map_of attrs ''disk_spec'' = Some (VDict d)" by blast
  let ?c = "string_attr attrs ''cloud''"
  obtain config C s where r: "disk_spec_class B ?c (disk_type_of F config) = Inr C"
    "new_spec C (component @ ''.disk_spec.'' @ ?c) config = Inr s"
    "attrs' = dict_set attrs ''disk_spec'' (VDict s)
     \<or> (\<exists>n. attrs' = dict_set (dict_set attrs ''disk_spec'' (VDict s)) ''vm_as_nfs_disk_spec'' (VDict n))"
    using assms d by (auto simp: build_disk_specs_def Let_def bindE_Inr split: option.splits if_splits)
  from r(3) have "map_of attrs' ''disk_spec'' = Some (VDict s)"
    "\<forall>k. k \<notin> {''disk_spec'', ''vm_as_nfs_disk_spec''} \<longrightarrow> map_of attrs' k = map_of attrs k" by auto
  with r(1,2) d show ?thesis by (auto simp: built_from_def)
qed

lemma build_vm_spec_Inr:
  assumes "build_vm_spec F B component attrs = Inr attrs'"
  shows "(\<forall>k. k \<noteq> ''vm_spec'' \<longrightarrow> map_of attrs' k = map_of attrs k)
    \<and> (\<exists>v. map_of attrs' ''vm_spec'' = Some v
      \<and> built_from (vm_spec_class B (string_attr attrs ''cloud'')) (component @ ''.vm_spec.'' @ string_attr attrs ''cloud'') v)"
  using assms by (auto simp: build_vm_spec_def Let_def bindE_Inr built_from_def split: option.splits)

text \<open>An option that is given is decoded, after the flags have been applied.\<close>

lemma new_spec_given:
  assumes "new_spec S component kwargs = Inr attrs" and "distinct (map fst (constructions S))"
    and "(case ApplyFlags S of None \<Rightarrow> Inr kwargs | Some f \<Rightarrow> f kwargs) = Inr kw"
    and "(k, mk) \<in> set (constructions S)" and "map_of kw k = Some v" and "map_of attrs k = Some w"
  shows "Decode (mk (Some k)) component v = Inr w"
proof -
  have "DecodeAndInit component kw (InitDecoders S) = Inr attrs"
    using assms(1,3) by (auto simp: new_spec_def Let_def split: if_splits)
  from DecodeAndInit_Inr [OF this] have l: "list_all2 (attribute_of component kw) (InitDecoders S) attrs" .
  have "(k, w) \<in> set attrs" using assms(6) by (rule map_of_SomeD)
  then obtain i where "i < length attrs" "attrs ! i = (k, w)" by (auto simp: in_set_conv_nth)
  with l have "InitDecoders S ! i \<in> set (InitDecoders S)" "attribute_of component kw (InitDecoders S ! i) (k, w)"
    by (auto simp: list_all2_conv_all_nth)
  moreover obtain k' D where "InitDecoders S ! i = (k', D)" by (cases "InitDecoders S ! i")
  ultimately have "(k, D) \<in> set (InitDecoders S)" and dec: "Decode D component v = Inr w"
    using assms(5) by (auto simp: attribute_of_def)
  then obtain mk' where "(k, mk') \<in> set (constructions S)" "D = mk' (Some k)" by (auto simp: InitDecoders_def)
  moreover from this(1) have "mk' = mk" by (rule eq_key_imp_eq_value [OF assms(2) _ assms(4)])
  ultimately show ?thesis using dec by simp
qed

lemma new_spec_required:
  assumes "new_spec S component kwargs = Inr attrs"
    and "(case ApplyFlags S of None \<Rightarrow> Inr kwargs | Some f \<Rightarrow> f kwargs) = Inr kw"
    and "(k, mk) \<in> set (constructions S)" and "required (mk (Some k))"
  shows "map_of kw k \<noteq> None"
proof -
  have "(k, mk (Some k)) \<in> set (InitDecoders S)" using assms(3) by (force simp: InitDecoders_def)
  then have "k \<in> set (required_options (InitDecoders S))" using assms(4) by (force simp: required_options_def)
  with assms(1,2) show ?thesis by (auto simp: new_spec_def Let_def filter_empty_conv split: if_splits)
qed

text \<open>The cloud that a group is for: that of the flag, if it is given or the group does not name one.\<close>

definition group_cloud :: "flag_values option \<Rightarrow> metadata_dict \<Rightarrow> pyval option" where
  "group_cloud F kwargs = (case F of
     None \<Rightarrow> map_of kwargs ''cloud''
   | Some F \<Rightarrow> if flag_present F ''cloud'' \<or> map_of kwargs ''cloud'' = None then Some (flag_value F ''cloud'')
       else map_of kwargs ''cloud'')"

lemma flag_or_config_of:
  "map_of (flag_or_config F k config) k' =
     (if k' = k \<and> (flag_present F k \<or> map_of config k = None) then Some (flag_value F k) else map_of config k')"
  by (simp add: flag_or_config_def)

lemma applied_cloud: "map_of (VmGroupSpec_ApplyFlags F config) ''cloud'' = group_cloud (Some F) config"
proof -
  have "map_of (VmGroupSpec_ApplyFlags F config) ''cloud''
      = map_of (flag_or_config F ''os_type'' (flag_or_config F ''cloud'' config)) ''cloud''"
    by (simp add: VmGroupSpec_ApplyFlags_def Let_def)
  then show ?thesis by (simp add: flag_or_config_of group_cloud_def)
qed

lemma group_attrs:
  assumes "new_spec (VmGroupSpec F) component kwargs = Inr attrs"
  shows "k \<in> set (map fst (VmGroupSpec_options F)) \<Longrightarrow> \<exists>v. map_of attrs k = Some v \<and> group_attribute k v"
    and "map_of attrs ''cloud'' = group_cloud F kwargs"
proof -
  show exists: "\<exists>v. map_of attrs k = Some v \<and> group_attribute k v" if "k \<in> set (map fst (VmGroupSpec_options F))" for k
    using groups.attribute_exists [OF assms] that by (simp add: VmGroupSpec_def)
  obtain w where w: "map_of attrs ''cloud'' = Some w" using exists [of "''cloud''"] by (auto simp: VmGroupSpec_options_def)
  obtain kw where kw: "(case ApplyFlags (VmGroupSpec F) of None \<Rightarrow> Inr kwargs | Some f \<Rightarrow> f kwargs) = Inr kw"
    "map_of kw ''cloud'' = group_cloud F kwargs"
    by (cases F) (auto simp: VmGroupSpec_def applied_cloud, simp add: group_cloud_def)
  have mk: "(''cloud'', \<lambda>opt. EnumDecoder (map VStr VALID_CLOUDS) opt None) \<in> set (constructions (VmGroupSpec F))"
    by (simp add: VmGroupSpec_def VmGroupSpec_options_def)
  have "map_of kw ''cloud'' \<noteq> None"
    by (rule new_spec_required [OF assms kw(1) mk]) (simp add: required_def EnumDecoder_def)
  then obtain v where v: "map_of kw ''cloud'' = Some v" by blast
  from new_spec_given [OF assms groups.names_distinct kw(1) mk v w] have "w = v"
    by (auto simp: EnumDecoder_def split: if_splits)
  with kw(2) v w show "map_of attrs ''cloud'' = group_cloud F kwargs" by simp
qed

text \<open>Where the exceptions come from\<close>

lemma bindE_Inl: "bindE r f = Inl e \<longleftrightarrow> r = Inl e \<or> (\<exists>x. r = Inr x \<and> f x = Inl e)"
  by (cases r) simp_all

lemma missing_option_failure: "group_failure (no_config component c what)"
  by (simp add: no_config_def missing_option_def group_failure_def config_failure_def exn_def)

lemma build_vm_spec_Inl:
  assumes "build_vm_spec F B component attrs = Inl e"
  shows "group_failure e
    \<or> (\<exists>c. vm_spec_class B c = Inl e \<or> (\<exists>C name config. vm_spec_class B c = Inr C \<and> new_spec C name config = Inl e))"
  using assms
  by (auto simp: build_vm_spec_def Let_def bindE_Inl missing_option_failure split: option.splits)

lemma new_NFS_disk_spec_Inl: "new_NFS_disk_spec F component config = Inl e \<Longrightarrow> group_failure e"
  by (auto simp: new_NFS_disk_spec_def bindE_Inl group_failure_def dest: nfs_disks.spec_failure)

lemma build_disk_specs_Inl:
  assumes "build_disk_specs F B component attrs = Inl e"
  shows "group_failure e
    \<or> (\<exists>c t. disk_spec_class B c t = Inl e \<or> (\<exists>C name config. disk_spec_class B c t = Inr C \<and> new_spec C name config = Inl e))"
proof -
  obtain d where "map_of attrs ''disk_spec'' = Some (VDict d)"
    using assms by (auto simp: build_disk_specs_def Let_def split: option.splits pyval.splits)
  with assms show ?thesis
    by (auto simp: build_disk_specs_def Let_def bindE_Inl missing_option_failure
        split: option.splits if_splits dest: new_NFS_disk_spec_Inl)
qed

section \<open>Properties\<close>

text \<open>C38: A group of machines: the spec of a group has a valid cloud, which is that of the flag if that is
  given, a valid operating system, counts that are not negative, specs of static machines, and a spec of
  machines (and of disks, if any) of the class that the provider has for that cloud; otherwise the exception
  is one of the configuration, one of the loading or the classes of the provider, or tells of a value that is
  no dictionary.\<close>

theorem group_spec_result:
  "case new_VmGroupSpec F B component kwargs of
     Inr attrs \<Rightarrow> (\<exists>cloud_name t. map_of attrs ''cloud'' = Some (VStr cloud_name) \<and> group_cloud F kwargs = Some (VStr cloud_name)
         \<and> list_all (\<lambda>k. \<exists>v. map_of attrs k = Some v \<and> group_attribute k v)
             [''cloud'', ''os_type'', ''vm_count'', ''disk_count'', ''static_vms'', ''provision_order'']
         \<and> (\<exists>v. map_of attrs ''vm_spec'' = Some v
             \<and> built_from (vm_spec_class B cloud_name) (component @ ''.vm_spec.'' @ cloud_name) v)
         \<and> (\<exists>v. map_of attrs ''disk_spec'' = Some v
             \<and> (v = VNone \<or> built_from (disk_spec_class B cloud_name t) (component @ ''.disk_spec.'' @ cloud_name) v)))
   | Inl e \<Rightarrow> group_failure e \<or> (\<exists>c. LoadProvider B c = Inl e)
       \<or> (\<exists>c. vm_spec_class B c = Inl e \<or> (\<exists>C name config. vm_spec_class B c = Inr C \<and> new_spec C name config = Inl e))
       \<or> (\<exists>c t. disk_spec_class B c t = Inl e \<or> (\<exists>C name config. disk_spec_class B c t = Inr C \<and> new_spec C name config = Inl e))"
proof (cases "new_VmGroupSpec F B component kwargs")
  case (Inr attrs)
  then obtain a1 a2 where a: "new_spec (VmGroupSpec F) component kwargs = Inr a1"
    "build_disk_specs F B component a1 = Inr a2" "build_vm_spec F B component a2 = Inr attrs"
    by (auto simp: new_VmGroupSpec_def bindE_Inr)
  note disk = build_disk_specs_Inr [OF a(2)] and vm = build_vm_spec_Inr [OF a(3)]
  have A: "\<exists>v. map_of a1 k = Some v \<and> group_attribute k v" if "k \<in> set (map fst (VmGroupSpec_options F))" for k
    using group_attrs(1) [OF a(1) that] .
  obtain c where c: "map_of a1 ''cloud'' = Some (VStr c)" "c \<in> set VALID_CLOUDS"
    using A [of "''cloud''"] by (auto simp: VmGroupSpec_options_def group_attribute_def)
  have same: "map_of attrs k = map_of a1 k" "map_of a2 k = map_of a1 k"
    if "k \<notin> {''vm_spec'', ''disk_spec'', ''vm_as_nfs_disk_spec''}" for k
    using disk [THEN conjunct1, rule_format, of k] vm [THEN conjunct1, rule_format, of k] that by simp_all
  have c12: "string_attr a1 ''cloud'' = c" "string_attr a2 ''cloud'' = c"
    using c(1) same(2) [of "''cloud''"] by (simp_all add: string_attr_def)
  have kept: "\<exists>v. map_of attrs k = Some v \<and> group_attribute k v"
    if "k \<in> {''cloud'', ''os_type'', ''vm_count'', ''disk_count'', ''static_vms'', ''provision_order''}" for k
  proof -
    from that have "k \<in> set (map fst (VmGroupSpec_options F))" "k \<notin> {''vm_spec'', ''disk_spec'', ''vm_as_nfs_disk_spec''}"
      by (auto simp: VmGroupSpec_options_def)
    then show ?thesis using A [of k] same(1) [of k] by simp
  qed
  obtain d where d: "map_of a1 ''disk_spec'' = Some d" "d = VNone \<or> (\<exists>x. d = VDict x)"
    using A [of "''disk_spec''"] by (auto simp: VmGroupSpec_options_def group_attribute_def)
  have "map_of attrs ''disk_spec'' = map_of a2 ''disk_spec''"
    using vm [THEN conjunct1, rule_format, of "''disk_spec''"] by simp
  moreover have "\<exists>t v. map_of a2 ''disk_spec'' = Some v
      \<and> (v = VNone \<or> built_from (disk_spec_class B c t) (component @ ''.disk_spec.'' @ c) v)"
    using d(2)
  proof
    assume "d = VNone"
    then show ?thesis using disk [THEN conjunct2] d(1) by simp
  next
    assume "\<exists>x. d = VDict x"
    then show ?thesis using disk [THEN conjunct2] d(1) c12(1) by auto
  qed
  ultimately obtain t v where "map_of attrs ''disk_spec'' = Some v"
    "v = VNone \<or> built_from (disk_spec_class B c t) (component @ ''.disk_spec.'' @ c) v" by metis
  moreover have "map_of attrs ''cloud'' = Some (VStr c)" using same(1) c by simp
  moreover have "group_cloud F kwargs = Some (VStr c)" using group_attrs(2) [OF a(1)] c by simp
  moreover have "list_all (\<lambda>k. \<exists>v. map_of attrs k = Some v \<and> group_attribute k v)
      [''cloud'', ''os_type'', ''vm_count'', ''disk_count'', ''static_vms'', ''provision_order'']"
    using kept unfolding list_all_iff by simp
  moreover have "\<exists>v. map_of attrs ''vm_spec'' = Some v
      \<and> built_from (vm_spec_class B c) (component @ ''.vm_spec.'' @ c) v"
    using vm [THEN conjunct2] c12(2) by simp
  ultimately show ?thesis unfolding Inr sum.case by blast
next
  case (Inl e)
  have disk: "build_disk_specs F B component attrs = Inl e \<Longrightarrow> group_failure e
      \<or> (\<exists>c t. disk_spec_class B c t = Inl e \<or> (\<exists>C name config. disk_spec_class B c t = Inr C \<and> new_spec C name config = Inl e))" for attrs
    by (rule build_disk_specs_Inl)
  have vm: "build_vm_spec F B component attrs = Inl e \<Longrightarrow> group_failure e
      \<or> (\<exists>c. vm_spec_class B c = Inl e \<or> (\<exists>C name config. vm_spec_class B c = Inr C \<and> new_spec C name config = Inl e))" for attrs
    by (rule build_vm_spec_Inl)
  from Inl consider "new_spec (VmGroupSpec F) component kwargs = Inl e" | c where "LoadProvider B c = Inl e"
    | attrs where "build_disk_specs F B component attrs = Inl e" | attrs where "build_vm_spec F B component attrs = Inl e"
    by (auto simp: new_VmGroupSpec_def bindE_Inl)
  then have "group_failure e \<or> (\<exists>c. LoadProvider B c = Inl e)
       \<or> (\<exists>c. vm_spec_class B c = Inl e \<or> (\<exists>C name config. vm_spec_class B c = Inr C \<and> new_spec C name config = Inl e))
       \<or> (\<exists>c t. disk_spec_class B c t = Inl e \<or> (\<exists>C name config. disk_spec_class B c t = Inr C \<and> new_spec C name config = Inl e))"
    using groups.spec_failure disk vm by cases blast+
  with Inl show ?thesis by simp
qed

text \<open>An option that is not given has its default.\<close>

lemma new_spec_default:
  assumes "new_spec S component kwargs = Inr attrs" and "distinct (map fst (constructions S))"
    and "(case ApplyFlags S of None \<Rightarrow> Inr kwargs | Some f \<Rightarrow> f kwargs) = Inr kw"
    and "(k, mk) \<in> set (constructions S)" and "map_of kw k = None" and "map_of attrs k = Some w"
  shows "default_value (mk (Some k)) = Some w"
proof -
  have "DecodeAndInit component kw (InitDecoders S) = Inr attrs"
    using assms(1,3) by (auto simp: new_spec_def Let_def split: if_splits)
  from DecodeAndInit_Inr [OF this] have l: "list_all2 (attribute_of component kw) (InitDecoders S) attrs" .
  have "(k, w) \<in> set attrs" using assms(6) by (rule map_of_SomeD)
  then obtain i where "i < length attrs" "attrs ! i = (k, w)" by (auto simp: in_set_conv_nth)
  with l have "InitDecoders S ! i \<in> set (InitDecoders S)" "attribute_of component kw (InitDecoders S ! i) (k, w)"
    by (auto simp: list_all2_conv_all_nth)
  moreover obtain k' D where "InitDecoders S ! i = (k', D)" by (cases "InitDecoders S ! i")
  ultimately have "(k, D) \<in> set (InitDecoders S)" and dec: "default_value D = Some w"
    using assms(5) by (auto simp: attribute_of_def)
  then obtain mk' where "(k, mk') \<in> set (constructions S)" "D = mk' (Some k)" by (auto simp: InitDecoders_def)
  moreover from this(1) have "mk' = mk" by (rule eq_key_imp_eq_value [OF assms(2) _ assms(4)])
  ultimately show ?thesis using dec by simp
qed

text \<open>The kind and the number of graphics cards\<close>

lemma gpu_options:
  "(''gpu_type'', \<lambda>opt. EnumDecoder (map VStr VALID_GPU_TYPES) opt (Some VNone)) \<in> set BaseVmSpec_options"
  "(''gpu_count'', \<lambda>opt. IntDecoder None (Some 1) False opt (Some VNone)) \<in> set BaseVmSpec_options"
  by (simp_all add: BaseVmSpec_options_def)

lemma gpu_type_given: "Decode (EnumDecoder (map VStr VALID_GPU_TYPES) opt dflt) component v = Inr w \<Longrightarrow> w \<noteq> VNone"
  by (auto simp: EnumDecoder_def list_ex_iff py_eq_def num_value_def int_value_def split: if_splits)

lemma gpu_count_given: "Decode (IntDecoder None (Some 1) False opt dflt) component v = Inr w \<Longrightarrow> w \<noteq> VNone"
proof -
  assume a: "Decode (IntDecoder None (Some 1) False opt dflt) component v = Inr w"
  have "typed_decoder (IntDecoder None (Some 1) False opt dflt) (\<lambda>v. \<exists>n. int_value v = Some n \<and> 1 \<le> n) config_failure"
    by (intro decoder_types) (auto dest: int_from)
  from typed_decoder.value_typed [OF this a] show ?thesis by (auto simp: int_value_def)
qed

lemma gpu_attributes:
  assumes "new_spec (BaseVmSpec (Some F)) component kwargs = Inr attrs"
  shows "map_of attrs ''gpu_type'' = Some VNone \<longleftrightarrow> map_of attrs ''gpu_count'' = Some VNone"
proof -
  let ?S = "BaseVmSpec (Some F)"
  obtain kw where kw: "BaseVmSpec_ApplyFlags F kwargs = Inr kw"
    using assms by (auto simp: new_spec_def Let_def BaseVmSpec_def bindE_Inr)
  then have flags: "(case ApplyFlags ?S of None \<Rightarrow> Inr kwargs | Some f \<Rightarrow> f kwargs) = Inr kw"
    by (simp add: BaseVmSpec_def)
  have both: "map_of kw ''gpu_type'' = None \<longleftrightarrow> map_of kw ''gpu_count'' = None"
    using kw by (auto simp: BaseVmSpec_ApplyFlags_def Let_def split: if_splits)
  have mk: "(k, mk) \<in> set BaseVmSpec_options \<Longrightarrow> (k, mk) \<in> set (constructions ?S)" for k mk
    by (simp add: BaseVmSpec_def)
  have attr: "k \<in> set (map fst BaseVmSpec_options) \<Longrightarrow> \<exists>v. map_of attrs k = Some v" for k
    using vms.attribute_exists [OF assms] by (auto simp: BaseVmSpec_def)
  obtain t n where t: "map_of attrs ''gpu_type'' = Some t" and n: "map_of attrs ''gpu_count'' = Some n"
    using attr [of "''gpu_type''"] attr [of "''gpu_count''"] by (auto simp: BaseVmSpec_options_def)
  show ?thesis
  proof (cases "map_of kw ''gpu_type''")
    case None
    with both have "map_of kw ''gpu_count'' = None" by simp
    from new_spec_default [OF assms vms.names_distinct flags mk [OF gpu_options(1)] None t]
      new_spec_default [OF assms vms.names_distinct flags mk [OF gpu_options(2)] this n]
    show ?thesis using t n by (simp add: EnumDecoder_def IntDecoder_def number_decoder_def)
  next
    case (Some v)
    with both obtain v' where v': "map_of kw ''gpu_count'' = Some v'" by (cases "map_of kw ''gpu_count''") simp_all
    from new_spec_given [OF assms vms.names_distinct flags mk [OF gpu_options(1)] Some t]
      new_spec_given [OF assms vms.names_distinct flags mk [OF gpu_options(2)] v' n]
    have "t \<noteq> VNone" "n \<noteq> VNone" by (auto dest: gpu_type_given gpu_count_given)
    with t n show ?thesis by simp
  qed
qed

text \<open>The memory of a custom type of machine: the decoder does not look at what follows the unit.\<close>

lemma memory_match_append:
  assumes "memory_match s = Some (n, u)"
  shows "memory_match (s @ junk) = Some (n, u)"
proof -
  let ?P = "\<lambda>c. c \<in> set ''0123456789.''" and ?GiB = "''GiB''" and ?MiB = "''MiB''"
  define rest where "rest = drop (length (takeWhile ?P s)) s"
  have s: "s = n @ rest" "n = takeWhile ?P s" "n \<noteq> []" "u = take 3 rest" "prefix ?GiB rest \<or> prefix ?MiB rest"
  proof -
    have "n = takeWhile ?P s \<and> n \<noteq> [] \<and> u = take 3 rest \<and> (prefix ?GiB rest \<or> prefix ?MiB rest)"
      using assms unfolding memory_match_def Let_def rest_def by (simp only: split: if_splits) auto
    moreover have "s = takeWhile ?P s @ rest"
      unfolding rest_def dropWhile_eq_drop [symmetric] by (rule takeWhile_dropWhile_id [symmetric])
    ultimately show "s = n @ rest" "n = takeWhile ?P s" "n \<noteq> []" "u = take 3 rest"
      "prefix ?GiB rest \<or> prefix ?MiB rest" by blast+
  qed
  from s(5) have "\<exists>r. rest = u @ r \<and> u \<in> {?GiB, ?MiB}" unfolding s(4)
  proof
    assume "prefix ?GiB rest"
    then obtain r where "rest = ?GiB @ r" unfolding prefix_def by blast
    then show "\<exists>r. rest = take 3 rest @ r \<and> take 3 rest \<in> {?GiB, ?MiB}" by simp
  next
    assume "prefix ?MiB rest"
    then obtain r where "rest = ?MiB @ r" unfolding prefix_def by blast
    then show "\<exists>r. rest = take 3 rest @ r \<and> take 3 rest \<in> {?GiB, ?MiB}" by simp
  qed
  then obtain r where r: "rest = u @ r" "u \<in> {?GiB, ?MiB}" by blast
  have "?P c" if "c \<in> set n" for c
    using that unfolding s(2) by (rule set_takeWhileD [THEN conjunct2])
  then have "takeWhile ?P (n @ (rest @ junk)) = n @ takeWhile ?P (rest @ junk)" by (rule takeWhile_append2)
  moreover have "takeWhile ?P (rest @ junk) = []" using r by auto
  ultimately have t: "takeWhile ?P (s @ junk) = n" unfolding s(1) by simp
  have "drop (length n) (s @ junk) = rest @ junk" unfolding s(1) by simp
  moreover have "prefix ?GiB (rest @ junk) \<or> prefix ?MiB (rest @ junk)" "take 3 (rest @ junk) = u" using r by auto
  ultimately show ?thesis unfolding memory_match_def Let_def t using s(3) by presburger
qed

lemma memory_mib_append: "memory_match s \<noteq> None \<Longrightarrow> memory_mib opt component (s @ junk) = memory_mib opt component s"
  by (auto simp: memory_mib_def memory_match_append)

text \<open>A null where a null is allowed\<close>

lemma managed_spec_null: "Decode (ManagedVmGroupSpecDecoder F True opt dflt) component VNone = Inl not_a_mapping"
  by (simp add: ManagedVmGroupSpecDecoder_def verify_type_def spec_of_value_def)

text \<open>The groups of a benchmark\<close>

lemma groups_loop_Inr:
  assumes "groups_loop F B name gs done_groups = Inr r" and "distinct (map fst gs)"
    and "set (map fst gs) \<inter> set (map fst done_groups) = {}"
  shows "\<exists>r'. r = done_groups @ r' \<and> list_all2 (\<lambda>(g, config) (g', s). g' = g
    \<and> (\<exists>kwargs attrs. config = VDict kwargs \<and> new_VmGroupSpec F B (name @ ''.'' @ g) kwargs = Inr attrs \<and> s = VDict attrs)) gs r'"
  using assms
proof (induction F B name gs done_groups arbitrary: r rule: groups_loop.induct)
  case (2 F B name g config gs result)
  then obtain s where s: "spec_of_value (new_VmGroupSpec F B) (name @ ''.'' @ g) config = Inr s"
    "groups_loop F B name gs (dict_set result g s) = Inr r" by (auto simp: bindE_Inr)
  have new: "dict_set result g s = result @ [(g, s)]" using 2(4) by (intro dict_set_new) simp
  with 2(3,4) have "set (map fst gs) \<inter> set (map fst (dict_set result g s)) = {}" by auto
  with 2(1) [OF s(2)] 2(3) obtain r' where "r = (result @ [(g, s)]) @ r'" and l: "list_all2 (\<lambda>(g, config) (g', s). g' = g
    \<and> (\<exists>kwargs attrs. config = VDict kwargs \<and> new_VmGroupSpec F B (name @ ''.'' @ g) kwargs = Inr attrs \<and> s = VDict attrs)) gs r'"
    unfolding new by auto
  moreover have "\<exists>kwargs attrs. config = VDict kwargs
      \<and> new_VmGroupSpec F B (name @ ''.'' @ g) kwargs = Inr attrs \<and> s = VDict attrs"
    using s(1) by (auto simp: spec_of_value_def bindE_Inr split: pyval.splits)
  ultimately show ?case by (intro exI [of _ "(g, s) # r'"]) simp
qed simp

text \<open>The graphics cards of a machine: the spec of a machine that is given the flags either has neither a
  kind nor a number of them, or a valid kind and a positive number, wherever the two come from; otherwise
  the exception is one of the configuration.\<close>

lemma vm_spec_gpus:
  "case new_spec (BaseVmSpec (Some F)) component kwargs of
     Inr attrs \<Rightarrow> map_of attrs ''gpu_type'' = Some VNone \<and> map_of attrs ''gpu_count'' = Some VNone
       \<or> (\<exists>t v n. map_of attrs ''gpu_type'' = Some (VStr t) \<and> t \<in> set VALID_GPU_TYPES
           \<and> map_of attrs ''gpu_count'' = Some v \<and> int_value v = Some n \<and> 1 \<le> n)
   | Inl e \<Rightarrow> config_failure e"
proof (cases "new_spec (BaseVmSpec (Some F)) component kwargs")
  case (Inr attrs)
  have attr: "k \<in> set (map fst BaseVmSpec_options) \<Longrightarrow> \<exists>v. map_of attrs k = Some v \<and> vm_attribute k v" for k
    using vms.attribute_exists [OF Inr] by (auto simp: BaseVmSpec_def)
  obtain t n where "map_of attrs ''gpu_type'' = Some t" "vm_attribute ''gpu_type'' t"
    "map_of attrs ''gpu_count'' = Some n" "vm_attribute ''gpu_count'' n"
    using attr [of "''gpu_type''"] attr [of "''gpu_count''"] by (auto simp: BaseVmSpec_options_def)
  with gpu_attributes [OF Inr] Inr show ?thesis by (auto simp: vm_attribute_def)
qed (simp add: vms.spec_failure)

end
