(* ===== verification/ContainerSpecs.thy ===== *)
theory ContainerSpecs
  imports VmSpecs
begin

text \<open>
  \<open>perfkitbenchmarker/configs/container_spec.py\<close>: the specs of containers, registries and clusters of
  containers, over the specs of \<open>VmSpecs\<close>.  Here there always are flags; the flag \<open>zone\<close> holds a list.
  The classes that other modules register are a parameter.
\<close>

section \<open>Classes and errors\<close>

text \<open>What a spec class does with a component and options\<close>

type_synonym spec_builder = "string \<Rightarrow> metadata_dict \<Rightarrow> exn + metadata_dict"

text \<open>Machines of the default platform; classes by the name of their base class and their attributes;
  the decoder of inference servers; and what making the spec of a relational database leaves of the flags, the one
  spec that changes them\<close>

record service_classes = provider_classes +
  default_vm_spec_class :: "string \<Rightarrow> exn + spec_class"
  spec_class_for :: "string \<Rightarrow> (string \<times> pyval) list \<Rightarrow> exn + (flag_values \<Rightarrow> spec_builder)"
  InferenceServerConfigDecoder :: "flag_values \<Rightarrow> bool \<Rightarrow> string option \<Rightarrow> pyval option \<Rightarrow> option_decoder"
  flags_after_db :: "string \<Rightarrow> metadata_dict \<Rightarrow> flag_values \<Rightarrow> flag_values"

definition type_error :: "string \<Rightarrow> exn" where
  "type_error msg = exn (Builtin TypeError) msg"

definition attribute_error :: "string \<Rightarrow> exn" where
  "attribute_error msg = exn (Builtin AttributeError) msg"

definition invalid :: "string \<Rightarrow> exn" where
  "invalid msg = exn (Config config_error.InvalidValue) msg"

text \<open>\<open>config.get(key)\<close>\<close>

definition opt_get :: "metadata_dict \<Rightarrow> string \<Rightarrow> pyval" where
  "opt_get d k = (case map_of d k of None \<Rightarrow> VNone | Some v \<Rightarrow> v)"

section \<open>Zones\<close>

text \<open>\<open>flag_values.zone[0]\<close>, and the loop that writes it to the configuration of every cloud\<close>

definition first_zone :: "flag_values \<Rightarrow> exn + pyval" where
  "first_zone F = (case flag_value F ''zone'' of
     VList (z # zs) \<Rightarrow> Inr z
   | VList [] \<Rightarrow> Inl index_error
   | _ \<Rightarrow> Inl (type_error ''object is not subscriptable''))"

fun set_zones :: "flag_values \<Rightarrow> metadata_dict \<Rightarrow> exn + metadata_dict" where
  "set_zones F [] = Inr []"
| "set_zones F ((c, v) # cs) = bindE (first_zone F) (\<lambda>z. case v of
       VDict d \<Rightarrow> bindE (set_zones F cs) (\<lambda>cs'. Inr ((c, VDict (dict_set d ''zone'' z)) # cs'))
     | _ \<Rightarrow> Inl (type_error ''object does not support item assignment''))"

text \<open>A list that is not empty: its items are used as its indices, which always ends in an exception.\<close>

fun list_zone_error :: "pyval list \<Rightarrow> pyval list \<Rightarrow> exn" where
  "list_zone_error vs [] = type_error ''list indices must be integers or slices''"
| "list_zone_error vs (v # rest) = (case int_value v of
     None \<Rightarrow> type_error ''list indices must be integers or slices''
   | Some n \<Rightarrow> if n < - int (length vs) \<or> int (length vs) \<le> n then index_error
       else (case vs ! nat (n mod int (length vs)) of
           VDict _ \<Rightarrow> list_zone_error vs rest
         | _ \<Rightarrow> type_error ''object does not support item assignment''))"

definition zone_to_clouds :: "flag_values \<Rightarrow> metadata_dict \<Rightarrow> exn + metadata_dict" where
  "zone_to_clouds F config = (case map_of config ''vm_spec'' of
     None \<Rightarrow> Inl (missing_key ''vm_spec'')
   | Some (VDict cs) \<Rightarrow> bindE (set_zones F cs) (\<lambda>cs'. Inr (dict_set config ''vm_spec'' (VDict cs')))
   | Some (VList []) \<Rightarrow> Inr config
   | Some (VList vs) \<Rightarrow> bindE (first_zone F) (\<lambda>_. Inl (list_zone_error vs vs))
   | Some (VStr []) \<Rightarrow> Inr config
   | Some (VStr s) \<Rightarrow> bindE (first_zone F) (\<lambda>_. Inl (type_error ''string indices must be integers''))
   | Some _ \<Rightarrow> Inl (type_error ''object is not iterable''))"

section \<open>Decoders of dictionaries\<close>

text \<open>A \<open>TypeVerifier\<close> of dictionaries whose value goes to a constructor; \<open>null\<close> is what happens to a null
  where one is allowed.\<close>

definition dict_decoder ::
  "bool \<Rightarrow> exn \<Rightarrow> (string \<Rightarrow> metadata_dict \<Rightarrow> exn + pyval) \<Rightarrow> string option \<Rightarrow> pyval option \<Rightarrow> option_decoder" where
  "dict_decoder none_ok null build opt dflt = \<lparr>option = opt, default_value = dflt,
     Decode = (\<lambda>component v. bindE (verify_type [TDict] none_ok opt component v) (\<lambda>v. case v of
         VDict d \<Rightarrow> build (GetOptionFullName opt component) d
       | _ \<Rightarrow> Inl null))\<rparr>"

definition as_spec :: "spec_builder \<Rightarrow> string \<Rightarrow> metadata_dict \<Rightarrow> exn + pyval" where
  "as_spec build component d = bindE (build component d) (\<lambda>attrs. Inr (VDict attrs))"

text \<open>A dictionary of specs by their names\<close>

fun named_specs ::
  "(string \<Rightarrow> spec_builder) \<Rightarrow> string \<Rightarrow> metadata_dict \<Rightarrow> metadata_dict \<Rightarrow> exn + metadata_dict" where
  "named_specs build component [] result = Inr result"
| "named_specs build component ((n, v) # ds) result =
     bindE (spec_of_value (build n) (component @ ''.'' @ n) v) (\<lambda>s.
       named_specs build component ds (dict_set result n s))"

definition specs_decoder ::
  "bool \<Rightarrow> (string \<Rightarrow> spec_builder) \<Rightarrow> string option \<Rightarrow> pyval option \<Rightarrow> option_decoder" where
  "specs_decoder none_ok build = dict_decoder none_ok (attribute_error ''NoneType object has no attribute items'')
     (\<lambda>component d. bindE (named_specs build component d []) (\<lambda>r. Inr (VDict r)))"

section \<open>Containers\<close>

definition ContainerSpec :: "flag_values \<Rightarrow> spec_class" where
  "ContainerSpec F = spec_with
     [(''image'', \<lambda>opt. StringDecoder False opt (Some VNone)),
      (''static_image'', \<lambda>opt. BooleanDecoder False opt (Some (VBool False))),
      (''cpus'', \<lambda>opt. FloatDecoder None None False opt (Some VNone)),
      (''memory'', \<lambda>opt. MemoryDecoder False opt (Some VNone)),
      (''command'', \<lambda>opt. ListDecoder (StringDecoder False None None) True opt (Some VNone)),
      (''container_port'', \<lambda>opt. IntDecoder None None False opt (Some (VInt 8080)))]
     [(''image'', ''image''), (''static_container_image'', ''static_image'')] (Some F)"

definition ContainerSpecsDecoder :: "flag_values \<Rightarrow> bool \<Rightarrow> string option \<Rightarrow> pyval option \<Rightarrow> option_decoder" where
  "ContainerSpecsDecoder F none_ok = specs_decoder none_ok (\<lambda>_. new_spec (ContainerSpec F))"

text \<open>The zone and the project of the flags go to the configuration of the one cloud of a registry.  A cloud
  that is no text cannot be a key here; the decoder of \<open>cloud\<close>, which comes first, refuses it.\<close>

definition registry_flags :: "flag_values \<Rightarrow> exn + metadata_dict" where
  "registry_flags F =
     (let updated = (if flag_present F ''project'' then [(''project'', flag_value F ''project'')] else [])
      in if flag_present F ''zone'' then bindE (first_zone F) (\<lambda>z. Inr (dict_set updated ''zone'' z)) else Inr updated)"

definition ContainerRegistrySpec_ApplyFlags :: "flag_values \<Rightarrow> metadata_dict \<Rightarrow> exn + metadata_dict" where
  "ContainerRegistrySpec_ApplyFlags F config =
     (let config = flag_or_config F ''cloud'' config
      in bindE (registry_flags F) (\<lambda>updated.
        case (case map_of config ''spec'' of None \<Rightarrow> VDict [] | Some v \<Rightarrow> v) of
          VDict per_cloud \<Rightarrow>
            (case opt_get config ''cloud'' of
               VStr c \<Rightarrow> (case map_of per_cloud c of
                   None \<Rightarrow> Inr (dict_set config ''spec'' (VDict [(c, VDict updated)]))
                 | Some (VDict d) \<Rightarrow> Inr (dict_set config ''spec'' (VDict [(c, VDict (dict_update d updated))]))
                 | Some _ \<Rightarrow> Inl (attribute_error ''object has no attribute update''))
             | VList _ \<Rightarrow> Inl (type_error ''unhashable type'')
             | VDict _ \<Rightarrow> Inl (type_error ''unhashable type'')
             | _ \<Rightarrow> Inr (dict_set config ''spec'' (VDict [])))
        | _ \<Rightarrow> Inl (attribute_error ''object has no attribute get'')))"

definition ContainerRegistrySpec :: "flag_values \<Rightarrow> spec_class" where
  "ContainerRegistrySpec F = \<lparr>constructions =
     [(''cloud'', \<lambda>opt. StringDecoder False opt None), (''spec'', \<lambda>opt. PerCloudConfigDecoder False opt (Some (VDict [])))],
     ApplyFlags = Some (ContainerRegistrySpec_ApplyFlags F)\<rparr>"

definition new_ContainerRegistrySpec :: "flag_values \<Rightarrow> spec_builder" where
  "new_ContainerRegistrySpec F component kwargs =
     bindE (new_spec (ContainerRegistrySpec F) component kwargs) (\<lambda>attrs.
       case opt_get attrs ''spec'' of
         VDict per_cloud \<Rightarrow> (case map_of per_cloud (string_attr attrs ''cloud'') of
             None \<Rightarrow> Inr (dict_update attrs [(''project'', VNone), (''zone'', VNone), (''name'', VNone)])
           | Some (VDict d) \<Rightarrow> Inr (dict_update attrs
               [(''project'', opt_get d ''project''), (''zone'', opt_get d ''zone''), (''name'', opt_get d ''name'')])
           | Some _ \<Rightarrow> Inl (attribute_error ''object has no attribute get''))
       | _ \<Rightarrow> Inl (attribute_error ''object has no attribute get''))"

definition ContainerRegistryDecoder :: "flag_values \<Rightarrow> bool \<Rightarrow> string option \<Rightarrow> pyval option \<Rightarrow> option_decoder" where
  "ContainerRegistryDecoder F none_ok = dict_decoder none_ok not_a_mapping (as_spec (new_ContainerRegistrySpec F))"

section \<open>Clusters\<close>

definition SandboxSpec :: "flag_values \<Rightarrow> spec_class" where
  "SandboxSpec F = spec_with [(''type'', \<lambda>opt. StringDecoder True opt (Some VNone))] [] (Some F)"

definition ToSandboxFlag :: "metadata_dict \<Rightarrow> string" where
  "ToSandboxFlag attrs = ''type='' @ (case opt_get attrs ''type'' of VStr s \<Rightarrow> s | _ \<Rightarrow> ''None'')"

definition SandboxDecoder :: "flag_values \<Rightarrow> bool \<Rightarrow> string option \<Rightarrow> pyval option \<Rightarrow> option_decoder" where
  "SandboxDecoder F none_ok = dict_decoder none_ok not_a_mapping (as_spec (new_spec (SandboxSpec F)))"

definition NodepoolSpec_options :: "flag_values \<Rightarrow> (string \<times> (string option \<Rightarrow> option_decoder)) list" where
  "NodepoolSpec_options F =
     [(''machine_families'', \<lambda>opt. ListDecoder (StringDecoder False None None) False opt (Some VNone)),
      (''vm_count'', \<lambda>opt. IntDecoder None (Some 0) False opt (Some (VInt 1))),
      (''min_vm_count'', \<lambda>opt. IntDecoder None (Some 0) True opt (Some VNone)),
      (''max_vm_count'', \<lambda>opt. IntDecoder None (Some 0) True opt (Some VNone)),
      (''vm_spec'', \<lambda>opt. PerCloudConfigDecoder False opt None),
      (''sandbox_config'', \<lambda>opt. SandboxDecoder F False opt (Some VNone)),
      (''tpu_topology'', \<lambda>opt. StringDecoder False opt (Some VNone)),
      (''tpu_count'', \<lambda>opt. IntDecoder None None False opt (Some VNone))]"

definition zone_if_present :: "flag_values \<Rightarrow> metadata_dict \<Rightarrow> exn + metadata_dict" where
  "zone_if_present F config = (if flag_present F ''zone'' then zone_to_clouds F config else Inr config)"

definition NodepoolSpec_ApplyFlags :: "flag_values \<Rightarrow> metadata_dict \<Rightarrow> exn + metadata_dict" where
  "NodepoolSpec_ApplyFlags F config = zone_if_present F (apply_present F
     [(''container_cluster_num_vms'', ''vm_count''), (''k8s_machine_families'', ''machine_families'')] config)"

definition NodepoolSpec :: "flag_values \<Rightarrow> spec_class" where
  "NodepoolSpec F = \<lparr>constructions = NodepoolSpec_options F, ApplyFlags = Some (NodepoolSpec_ApplyFlags F)\<rparr>"

definition NodepoolsDecoder :: "flag_values \<Rightarrow> bool \<Rightarrow> string option \<Rightarrow> pyval option \<Rightarrow> option_decoder" where
  "NodepoolsDecoder F none_ok = specs_decoder none_ok (\<lambda>_. new_spec (NodepoolSpec F))"

definition ContainerClusterSpec_options ::
  "flag_values \<Rightarrow> 'z service_classes_scheme \<Rightarrow> (string \<times> (string option \<Rightarrow> option_decoder)) list" where
  "ContainerClusterSpec_options F B =
     [(''static_cluster'', \<lambda>opt. StringDecoder True opt (Some VNone)),
      (''cloud'', \<lambda>opt. EnumDecoder (map VStr VALID_CLOUDS) opt None),
      (''type'', \<lambda>opt. StringDecoder False opt (Some (VStr ''Kubernetes''))),
      (''vm_count'', \<lambda>opt. IntDecoder None (Some 0) False opt (Some (VInt 1))),
      (''min_vm_count'', \<lambda>opt. IntDecoder None (Some 0) True opt (Some VNone)),
      (''max_vm_count'', \<lambda>opt. IntDecoder None (Some 0) True opt (Some VNone)),
      (''poll_for_events'', \<lambda>opt. BooleanDecoder True opt (Some (VBool True))),
      (''vm_spec'', \<lambda>opt. PerCloudConfigDecoder False opt None),
      (''machine_families'', \<lambda>opt. ListDecoder (StringDecoder False None None) False opt (Some VNone)),
      (''nodepools'', \<lambda>opt. NodepoolsDecoder F True opt (Some (VDict []))),
      (''inference_server'', \<lambda>opt. InferenceServerConfigDecoder B F True opt (Some VNone)),
      (''enable_vpa'', \<lambda>opt. BooleanDecoder False opt (Some (VBool False))),
      (''enable_aam'', \<lambda>opt. BooleanDecoder False opt (Some (VBool False))),
      (''tpu_topology'', \<lambda>opt. StringDecoder False opt (Some VNone)),
      (''tpu_count'', \<lambda>opt. IntDecoder None None False opt (Some VNone))]"

definition ContainerClusterSpec_ApplyFlags :: "flag_values \<Rightarrow> metadata_dict \<Rightarrow> exn + metadata_dict" where
  "ContainerClusterSpec_ApplyFlags F config = zone_if_present F (apply_present F
     [(''container_cluster_type'', ''type''), (''container_cluster_num_vms'', ''vm_count''),
      (''k8s_machine_families'', ''machine_families'')] (flag_or_config F ''cloud'' config))"

definition ContainerClusterSpec :: "flag_values \<Rightarrow> 'z service_classes_scheme \<Rightarrow> spec_class" where
  "ContainerClusterSpec F B = \<lparr>constructions = ContainerClusterSpec_options F B,
     ApplyFlags = Some (ContainerClusterSpec_ApplyFlags F)\<rparr>"

text \<open>The machines of the node pools, in the order of their names\<close>

definition DEFAULT_NODEPOOL :: string where "DEFAULT_NODEPOOL = ''default''"

fun nodepools_loop :: "spec_class \<Rightarrow> string \<Rightarrow> string \<Rightarrow> metadata_dict \<Rightarrow> exn + metadata_dict" where
  "nodepools_loop C component cloud_name [] = Inr []"
| "nodepools_loop C component cloud_name ((n, v) # ps) =
     (if n = DEFAULT_NODEPOOL then Inl (invalid (''Nodepool name '' @ n @ '' is reserved for use during cluster creation. ''
        @ ''Please rename nodepool''))
      else case v of
        VDict pool \<Rightarrow> (case provider_config (opt_get pool ''vm_spec'') cloud_name of
            None \<Rightarrow> Inl (no_config component cloud_name ''.vm_spec'')
          | Some config \<Rightarrow> bindE (new_spec C (component @ ''.vm_spec.'' @ cloud_name) config) (\<lambda>s.
              bindE (nodepools_loop C component cloud_name ps) (\<lambda>ps'.
                Inr ((n, VDict (dict_set pool ''vm_spec'' (VDict s))) # ps'))))
      | _ \<Rightarrow> Inl (attribute_error ''object has no attribute vm_spec''))"

definition new_ContainerClusterSpec :: "flag_values \<Rightarrow> 'z service_classes_scheme \<Rightarrow> spec_builder" where
  "new_ContainerClusterSpec F B component kwargs =
     bindE (new_spec (ContainerClusterSpec F B) component kwargs) (\<lambda>attrs.
       let cloud_name = string_attr attrs ''cloud''
       in case provider_config (opt_get attrs ''vm_spec'') cloud_name of
         None \<Rightarrow> Inl (no_config component cloud_name ''.vm_spec'')
       | Some config \<Rightarrow>
           bindE (LoadProvider B cloud_name) (\<lambda>_.
           bindE (default_vm_spec_class B cloud_name) (\<lambda>C.
           bindE (new_spec C (component @ ''.vm_spec.'' @ cloud_name) config) (\<lambda>s.
           case opt_get attrs ''nodepools'' of
             VDict pools \<Rightarrow> bindE (nodepools_loop C component cloud_name (sort_key fst pools)) (\<lambda>pools'.
               Inr (dict_set (dict_set attrs ''vm_spec'' (VDict s)) ''nodepools'' (VDict pools')))
           | _ \<Rightarrow> Inl (attribute_error ''object has no attribute items'')))))"

definition ContainerClusterSpecDecoder ::
  "flag_values \<Rightarrow> 'z service_classes_scheme \<Rightarrow> bool \<Rightarrow> string option \<Rightarrow> pyval option \<Rightarrow> option_decoder" where
  "ContainerClusterSpecDecoder F B none_ok =
     dict_decoder none_ok not_a_mapping (as_spec (new_ContainerClusterSpec F B))"

end
