(* ===== verification/BenchmarkConfig.thy ===== *)
theory BenchmarkConfig
  imports ContainerSpecs
begin

text \<open>
  \<open>perfkitbenchmarker/configs/benchmark_config_spec.py\<close>: the spec of the configuration of a benchmark, with
  its groups of machines (\<open>VmSpecs\<close>), clusters of containers (\<open>ContainerSpecs\<close>) and services, and the
  specs in \<open>resources/\<close> and \<open>configs/freeze_restore_spec.py\<close>.  The options are decoded with the
  flags of the benchmark in force (\<open>OverrideFlags\<close> of \<open>FlagValues\<close>), in the order of their names, since the
  spec of a relational database (\<open>DbSpecs\<close>) may change a flag.  The spec classes of services that other
  modules register are a parameter, asked for by the name of their base class and their attributes.
\<close>

section \<open>Helpers\<close>

text \<open>An option that is a text or an integer, and may be null\<close>

definition text_or_null :: "string \<Rightarrow> string \<times> (string option \<Rightarrow> option_decoder)" where
  "text_or_null k = (k, \<lambda>opt. StringDecoder True opt (Some VNone))"

definition int_or_null :: "string \<Rightarrow> string \<times> (string option \<Rightarrow> option_decoder)" where
  "int_or_null k = (k, \<lambda>opt. IntDecoder None None True opt (Some VNone))"

text \<open>A text that is null only if it is not given\<close>

definition text_if_given :: "string \<Rightarrow> string \<times> (string option \<Rightarrow> option_decoder)" where
  "text_if_given k = (k, \<lambda>opt. StringDecoder False opt (Some VNone))"

definition one_of :: "string \<Rightarrow> string list \<Rightarrow> pyval option \<Rightarrow> string \<times> (string option \<Rightarrow> option_decoder)" where
  "one_of k vs dflt = (k, \<lambda>opt. EnumDecoder (map VStr vs) opt dflt)"

text \<open>\<open>'key' in dictionary\<close>, and text of a value in a name\<close>

definition has_key :: "metadata_dict \<Rightarrow> string \<Rightarrow> bool" where
  "has_key d k = (map_of d k \<noteq> None)"

text \<open>\<open>providers.LoadProvider(cloud)\<close>\<close>

definition load_cloud :: "'z service_classes_scheme \<Rightarrow> pyval \<Rightarrow> exn + unit" where
  "load_cloud B v = (case v of
     VStr s \<Rightarrow> LoadProvider B s
   | VList _ \<Rightarrow> Inl (type_error ''unhashable type'')
   | VDict _ \<Rightarrow> Inl (type_error ''unhashable type'')
   | _ \<Rightarrow> Inl (attribute_error ''object has no attribute lower''))"

definition cloud_of_config :: "flag_values \<Rightarrow> metadata_dict \<Rightarrow> pyval" where
  "cloud_of_config F config =
     (if \<not> py_true (opt_get config ''cloud'') \<or> flag_present F ''cloud'' then flag_value F ''cloud''
      else opt_get config ''cloud'')"

definition LoadProvider_of_config :: "'z service_classes_scheme \<Rightarrow> flag_values \<Rightarrow> metadata_dict \<Rightarrow> exn + unit" where
  "LoadProvider_of_config B F config =
     (if py_true (cloud_of_config F config) then load_cloud B (cloud_of_config F config) else Inr ())"

text \<open>\<open>spec_class(name, flag_values, **config)\<close> for a registered class\<close>

definition registered_spec ::
  "'z service_classes_scheme \<Rightarrow> flag_values \<Rightarrow> string \<Rightarrow> (string \<times> pyval) list \<Rightarrow> string \<Rightarrow> metadata_dict
     \<Rightarrow> exn + pyval" where
  "registered_spec B F base_class attributes component config =
     bindE (spec_class_for B base_class attributes) (\<lambda>build. as_spec (build F) component config)"

section \<open>Data processing services\<close>

definition DpbApplicationListDecoder :: "string option \<Rightarrow> option_decoder" where
  "DpbApplicationListDecoder opt =
     ListDecoder (EnumDecoder (map VStr [''flink'', ''hive'', ''DELTA'', ''ICEBERG'']) None None) False opt (Some VNone)"

definition DPB_SERVICE_TYPES :: "string list" where
  "DPB_SERVICE_TYPES =
     [''dataproc'', ''dataproc_flink'', ''dataproc_gke'', ''dataproc_serverless'', ''dataflow'', ''emr'',
      ''emr_serverless'', ''glue'', ''unmanaged_dpb_svc_yarn_cluster'', ''unmanaged_spark_cluster'',
      ''kubernetes_spark_cluster'', ''kubernetes_flink_cluster'']"

definition DpbServiceSpec_options ::
  "flag_values \<Rightarrow> 'z service_classes_scheme \<Rightarrow> (string \<times> (string option \<Rightarrow> option_decoder)) list" where
  "DpbServiceSpec_options F B =
     [text_or_null ''static_dpb_service_instance'',
      one_of ''service_type'' DPB_SERVICE_TYPES (Some (VStr ''dataproc'')),
      (''worker_group'', \<lambda>opt. VmGroupSpecDecoder (Some F) (provider_classes.truncate B) opt None),
      (''worker_count'', \<lambda>opt. IntDecoder None (Some 0) False opt (Some (VInt 2))),
      (''applications'', DpbApplicationListDecoder)]
     @ map text_or_null [''version'', ''gke_cluster_name'', ''gke_cluster_nodepools'', ''gke_cluster_location'']
     @ map int_or_null
         [''dataflow_max_worker_count'', ''dataproc_serverless_core_count'', ''dataproc_serverless_initial_executors'',
          ''dataproc_serverless_min_executors'', ''dataproc_serverless_max_executors'', ''dataproc_serverless_memory'',
          ''dataproc_serverless_driver_memory'', ''dataproc_serverless_executor_memory'',
          ''dataproc_serverless_off_heap_memory'']
     @ [one_of ''dataproc_serverless_runtime_engine'' [''default'', ''native''] (Some (VStr ''default'')),
        one_of ''dataproc_serverless_engine'' [''default'', ''lightningEngine''] (Some (VStr ''default'')),
        one_of ''dataproc_serverless_lightning_engine_runtime'' [''default'', ''native''] (Some (VStr ''default''))]
     @ map int_or_null
         [''dataproc_serverless_memory_overhead'', ''emr_serverless_executor_count'', ''emr_serverless_core_count'',
          ''emr_serverless_memory'']"

text \<open>The zone of the flags goes to the group of the workers.\<close>

definition DpbServiceSpec_ApplyFlags :: "flag_values \<Rightarrow> metadata_dict \<Rightarrow> exn + metadata_dict" where
  "DpbServiceSpec_ApplyFlags F config =
     (let config = apply_present F [(''static_dpb_service_instance'', ''static_dpb_service_instance'')] config
      in if \<not> flag_present F ''zone'' then Inr config
         else case map_of config ''worker_group'' of
           None \<Rightarrow> Inr config
         | Some (VDict g) \<Rightarrow> bindE (zone_to_clouds F g) (\<lambda>g'. Inr (dict_set config ''worker_group'' (VDict g')))
         | Some _ \<Rightarrow> Inl (type_error ''object is not subscriptable by a text''))"

definition DpbServiceSpec :: "flag_values \<Rightarrow> 'z service_classes_scheme \<Rightarrow> spec_class" where
  "DpbServiceSpec F B = \<lparr>constructions = DpbServiceSpec_options F B, ApplyFlags = Some (DpbServiceSpec_ApplyFlags F)\<rparr>"

definition new_dpb_service ::
  "flag_values \<Rightarrow> 'z service_classes_scheme \<Rightarrow> string \<Rightarrow> spec_builder" where
  "new_dpb_service F B component name config =
     (case map_of config ''service_type'' of
        None \<Rightarrow> Inl (missing_key ''service_type'')
      | Some t \<Rightarrow>
          if t = VStr ''emr'' \<and> component = ''dpb_wordcount_benchmark'' \<and> flag_value F ''dpb_wordcount_fs'' \<noteq> VStr ''s3''
          then Inl (invalid ''EMR service requires S3.'')
          else bindE (new_spec (DpbServiceSpec F B) name config) (\<lambda>attrs.
            if opt_get attrs ''dataproc_serverless_runtime_engine'' \<noteq> VStr ''default''
              \<and> opt_get attrs ''dataproc_serverless_engine'' \<noteq> VStr ''default''
            then Inl (invalid (''Non-default legacy dataproc_serverless_runtime_engine config is not compatible with ''
              @ ''newer dataproc_serverless_engine config (for Lightning Engine).''))
            else Inr attrs))"

definition DpbServiceDecoder ::
  "flag_values \<Rightarrow> 'z service_classes_scheme \<Rightarrow> string option \<Rightarrow> pyval option \<Rightarrow> option_decoder" where
  "DpbServiceDecoder F B opt dflt = \<lparr>option = opt, default_value = dflt,
     Decode = (\<lambda>component. Decode (dict_decoder False not_a_mapping (as_spec (new_dpb_service F B component)) opt dflt) component)\<rparr>"

section \<open>Resources and jobs\<close>

definition ExampleResourceSpec :: "flag_values \<Rightarrow> spec_class" where
  "ExampleResourceSpec F = spec_with
     [(''example_type'', \<lambda>opt. StringDecoder True opt (Some (VStr ''ImplementedExampleResource''))),
      (''log_text'', \<lambda>opt. StringDecoder True opt (Some (VStr ''Default Set By Decoder'')))] [] (Some F)"

definition ExampleResourceDecoder ::
  "flag_values \<Rightarrow> 'z service_classes_scheme \<Rightarrow> string option \<Rightarrow> pyval option \<Rightarrow> option_decoder" where
  "ExampleResourceDecoder F B = dict_decoder False not_a_mapping (\<lambda>name config.
     if has_key config ''example_type''
     then registered_spec B F ''BaseExampleResourceSpec'' [(''EXAMPLE_TYPE'', opt_get config ''example_type'')] name config
     else Inl (invalid ''Required attribute `example_type` missing from example_resource config.''))"

definition ClusterDecoder ::
  "flag_values \<Rightarrow> 'z service_classes_scheme \<Rightarrow> string option \<Rightarrow> pyval option \<Rightarrow> option_decoder" where
  "ClusterDecoder F B = dict_decoder False not_a_mapping
     (registered_spec B F ''BaseClusterSpec'' [(''CLOUD'', flag_value F ''cloud'')])"

definition BaseJobSpec :: "flag_values \<Rightarrow> spec_class" where
  "BaseJobSpec F = spec_with
     (map text_or_null [''job_type'', ''job_region'', ''job_backend'', ''image_directory'', ''job_gpu_type''] @
      [(''job_count'', \<lambda>opt. IntDecoder None None True opt (Some (VInt 1))),
       (''job_gpu_count'', \<lambda>opt. IntDecoder None None True opt (Some (VInt 0))),
       (''task_count'', \<lambda>opt. IntDecoder None None True opt (Some (VInt 1)))]) [] (Some F)"

definition BaseJobDecoder ::
  "flag_values \<Rightarrow> 'z service_classes_scheme \<Rightarrow> string option \<Rightarrow> pyval option \<Rightarrow> option_decoder" where
  "BaseJobDecoder F B = dict_decoder False not_a_mapping (\<lambda>name config.
     bindE (LoadProvider_of_config B F config) (\<lambda>_.
       if has_key config ''job_type''
       then registered_spec B F ''BaseJobSpec'' [(''SERVICE'', opt_get config ''job_type'')] name config
       else Inl (invalid ''job_type is required for base_job config'')))"

definition ManagedAiModelSpec :: "flag_values \<Rightarrow> spec_class" where
  "ManagedAiModelSpec F = \<lparr>constructions =
     [one_of ''cloud'' VALID_CLOUDS (Some (VStr ''GCP'')),
      one_of ''interface'' [''CLI'', ''SDK'', ''MODEL-GARDEN-CLI''] (Some (VStr ''CLI'')),
      (''model_name'', \<lambda>opt. StringDecoder True opt (Some (VStr []))),
      (''model_size'', \<lambda>opt. StringDecoder True opt (Some (VStr []))),
      (''max_scale'', \<lambda>opt. IntDecoder None None True opt (Some (VInt 1)))],
     ApplyFlags = Some (\<lambda>config. Inr (flag_or_config F ''cloud'' config))\<rparr>"

definition ManagedAiModelSpecDecoder ::
  "flag_values \<Rightarrow> 'z service_classes_scheme \<Rightarrow> string option \<Rightarrow> pyval option \<Rightarrow> option_decoder" where
  "ManagedAiModelSpecDecoder F B = dict_decoder False not_a_mapping (\<lambda>name config.
     if F ''cloud'' \<noteq> None \<and> has_key config ''model_name''
     then bindE (load_cloud B (flag_value F ''cloud'')) (\<lambda>_.
       case map_of config ''model_size'' of
         None \<Rightarrow> Inl (missing_key ''model_size'')
       | Some model_size \<Rightarrow> registered_spec B F ''BaseManagedAiModelSpec''
           [(''CLOUD'', flag_value F ''cloud''), (''MODEL_NAME'', opt_get config ''model_name''), (''MODEL_SIZE'', model_size)]
           name config)
     else Inl (invalid ''Required attribute missing from model spec config.''))"

text \<open>Sandboxes for agents, and services of agents: a class that is not registered is the base class.\<close>

definition DEFAULT_SANDBOX_TYPE :: string where "DEFAULT_SANDBOX_TYPE = ''Kubernetes''"

definition AgentSandboxConfigSpec :: "flag_values \<Rightarrow> spec_class" where
  "AgentSandboxConfigSpec F =
     spec_with [(''type'', \<lambda>opt. StringDecoder False opt (Some (VStr DEFAULT_SANDBOX_TYPE)))] [] (Some F)"

definition AgentSandboxConfigDecoder ::
  "flag_values \<Rightarrow> 'z service_classes_scheme \<Rightarrow> bool \<Rightarrow> string option \<Rightarrow> pyval option \<Rightarrow> option_decoder" where
  "AgentSandboxConfigDecoder F B none_ok =
     dict_decoder none_ok (type_error ''argument of type NoneType is not iterable'') (\<lambda>name config.
       registered_spec B F ''BaseAgentSandboxConfigSpec'' [(''SANDBOX_TYPE'',
         if has_key config ''type'' then opt_get config ''type'' else VStr DEFAULT_SANDBOX_TYPE)] name config)"

definition AiAgentServiceSpec_ApplyFlags :: "flag_values \<Rightarrow> metadata_dict \<Rightarrow> metadata_dict" where
  "AiAgentServiceSpec_ApplyFlags F config =
     foldl (\<lambda>config (name, k). if F name \<noteq> None \<and> (flag_present F name \<or> \<not> has_key config k)
         then dict_set config k (flag_value F name) else config)
       (flag_or_config F ''cloud'' config)
       [(''agentic_framework'', ''framework''), (''agent_model'', ''model''), (''agent_model_location'', ''model_location'')]"

definition AiAgentServiceSpec_options :: "(string \<times> (string option \<Rightarrow> option_decoder)) list" where
  "AiAgentServiceSpec_options =
     [(''cloud'', \<lambda>opt. EnumDecoder (map VStr VALID_CLOUDS @ [VNone]) opt (Some (VStr ''GCP''))),
      text_if_given ''deployment_type'', text_if_given ''agent'',
      (''framework'', \<lambda>opt. StringDecoder False opt (Some (VStr ''adk''))),
      text_if_given ''model'', text_or_null ''model_location'']"

definition AiAgentServiceSpec :: "flag_values \<Rightarrow> spec_class" where
  "AiAgentServiceSpec F = \<lparr>constructions = AiAgentServiceSpec_options,
     ApplyFlags = Some (\<lambda>config. Inr (AiAgentServiceSpec_ApplyFlags F config))\<rparr>"

definition VertexAiCustomJobAiAgentServiceSpec :: "flag_values \<Rightarrow> spec_class" where
  "VertexAiCustomJobAiAgentServiceSpec F = \<lparr>constructions = AiAgentServiceSpec_options @
     [(''replica_count'', \<lambda>opt. IntDecoder None None False opt (Some (VInt 1))),
      (''machine_type'', \<lambda>opt. StringDecoder False opt (Some (VStr ''n2-standard-8''))),
      text_or_null ''executor_image_uri''],
     ApplyFlags = Some (\<lambda>config. Inr (AiAgentServiceSpec_ApplyFlags F config))\<rparr>"

definition GetAiAgentServiceSpecClass ::
  "'z service_classes_scheme \<Rightarrow> pyval \<Rightarrow> pyval \<Rightarrow> exn + (flag_values \<Rightarrow> spec_builder)" where
  "GetAiAgentServiceSpecClass B cloud_name deployment_type =
     (case spec_class_for B ''BaseAiAgentServiceSpec''
         [(''CLOUD'', cloud_name), (''DEPLOYMENT_TYPE'', deployment_type)] of
        Inr build \<Rightarrow> Inr build
      | Inl e \<Rightarrow> if isinstance e (Resource SubclassNotFoundError) then Inr (\<lambda>F. new_spec (AiAgentServiceSpec F)) else Inl e)"

definition AiAgentServiceDecoder ::
  "flag_values \<Rightarrow> 'z service_classes_scheme \<Rightarrow> string option \<Rightarrow> pyval option \<Rightarrow> option_decoder" where
  "AiAgentServiceDecoder F B = dict_decoder False not_a_mapping (\<lambda>name config.
     let deployment_type = opt_get config ''deployment_type'';
         cloud_name = (if py_true (opt_get config ''cloud'') then opt_get config ''cloud'' else flag_value F ''cloud'')
     in if \<not> py_true deployment_type
        then Inl (invalid ''Required attribute `deployment_type` missing from ai_agent_service spec config.'')
        else if \<not> py_true cloud_name then Inl (invalid ''ai_agent_service requires a cloud to be set.'')
        else bindE (load_cloud B cloud_name) (\<lambda>_.
          bindE (GetAiAgentServiceSpecClass B cloud_name deployment_type) (\<lambda>build. as_spec (build F) name config)))"

text \<open>Vector databases\<close>

definition PineconeResourcesSpec_ApplyFlags :: "flag_values \<Rightarrow> metadata_dict \<Rightarrow> metadata_dict" where
  "PineconeResourcesSpec_ApplyFlags F config =
     apply_present F [(''pinecone_api_key'', ''server_api_key''), (''pinecone_server_replicas'', ''server_replicas''),
         (''pinecone_server_shards'', ''server_shards'')]
       (dict_set (apply_present F [(''cloud'', ''cloud''), (''pinecone_server_type'', ''server_type''),
           (''pinecone_server_environment'', ''server_environment'')] config)
         ''server_pod_type'' (flag_value F ''pinecone_server_pod_type''))"

definition PineconeResourcesSpec :: "flag_values \<Rightarrow> spec_class" where
  "PineconeResourcesSpec F = \<lparr>constructions =
     [one_of ''cloud'' VALID_CLOUDS None, one_of ''server_type'' [''pod'', ''serverless''] (Some (VStr ''pod'')),
      text_if_given ''server_environment'', text_if_given ''server_pod_type'', text_if_given ''server_api_key'',
      (''server_replicas'', \<lambda>opt. IntDecoder None None False opt (Some (VInt 1))),
      (''server_shards'', \<lambda>opt. IntDecoder None None False opt (Some (VInt 1)))],
     ApplyFlags = Some (\<lambda>config. Inr (PineconeResourcesSpec_ApplyFlags F config))\<rparr>"

definition PineconeResourcesDecoder :: "flag_values \<Rightarrow> string option \<Rightarrow> pyval option \<Rightarrow> option_decoder" where
  "PineconeResourcesDecoder F = dict_decoder False not_a_mapping (as_spec (new_spec (PineconeResourcesSpec F)))"

definition VVSResourcesSpec :: "flag_values \<Rightarrow> spec_class" where
  "VVSResourcesSpec F = spec_with
     [one_of ''cloud'' VALID_CLOUDS None, text_if_given ''location'', text_if_given ''dataset_bucket_url'',
      text_if_given ''vpc_network'', (''machine_type'', \<lambda>opt. StringDecoder False opt (Some (VStr ''n2d-standard-32''))),
      (''min_replica_count'', \<lambda>opt. IntDecoder None None False opt (Some (VInt 2))),
      (''max_replica_count'', \<lambda>opt. IntDecoder None None False opt (Some (VInt 2))), text_if_given ''base_url'']
     [(''cloud'', ''cloud''), (''vvs_location'', ''location''), (''vvs_dataset_bucket_url'', ''dataset_bucket_url''),
      (''vvs_vpc_network'', ''vpc_network''), (''vvs_machine_type'', ''machine_type''),
      (''vvs_min_replica_count'', ''min_replica_count''), (''vvs_max_replica_count'', ''max_replica_count''),
      (''vvs_base_url'', ''base_url'')] (Some F)"

definition VVSResourcesDecoder :: "flag_values \<Rightarrow> string option \<Rightarrow> pyval option \<Rightarrow> option_decoder" where
  "VVSResourcesDecoder F opt dflt = \<lparr>option = opt, default_value = dflt,
     Decode = (\<lambda>component v. bindE (verify_type [TDict, TNone] False opt component v) (\<lambda>v.
       spec_of_value (new_spec (VVSResourcesSpec F)) (GetOptionFullName opt component)
         (if py_true v then v else VDict [])))\<rparr>"

definition FreezeRestoreSpec_options :: "(string \<times> (string option \<Rightarrow> option_decoder)) list" where
  "FreezeRestoreSpec_options = map (\<lambda>k. (k, \<lambda>opt. BooleanDecoder True opt (Some (VBool False))))
     [''enable_freeze_restore'', ''delete_on_freeze_error'', ''create_on_restore_error'']"

definition NonRelationalDbSpec :: "flag_values \<Rightarrow> spec_class" where
  "NonRelationalDbSpec F = spec_with
     (FreezeRestoreSpec_options @ [one_of ''service_type'' [''dynamodb'', ''bigtable'', ''documentdb'', ''firestore''] (Some VNone)])
     [(''non_relational_db_service_type'', ''service_type'')] (Some F)"

section \<open>Services\<close>

definition TpuGroupSpec :: "flag_values \<Rightarrow> spec_class" where
  "TpuGroupSpec F = spec_with
     (one_of ''cloud'' VALID_CLOUDS None
      # map text_if_given [''tpu_name'', ''tpu_type'', ''tpu_topology'', ''tpu_tf_version'', ''tpu_zone''])
     (map (\<lambda>k. (k, k)) [''cloud'', ''tpu_name'', ''tpu_type'', ''tpu_topology'', ''tpu_tf_version'', ''tpu_zone'']) (Some F)"

text \<open>The text of \<open>flag_values.run_uri\<close>, a flag that holds a text\<close>

definition run_uri_of :: "flag_values \<Rightarrow> string" where
  "run_uri_of F = (case flag_value F ''run_uri'' of VStr s \<Rightarrow> s | _ \<Rightarrow> ''None'')"

definition new_TpuGroupSpec :: "flag_values \<Rightarrow> string \<Rightarrow> spec_builder" where
  "new_TpuGroupSpec F group_name component kwargs = bindE (new_spec (TpuGroupSpec F) component kwargs) (\<lambda>attrs.
     Inr (if py_true (opt_get attrs ''tpu_name'') then attrs
       else dict_set attrs ''tpu_name'' (VStr (''pkb-tpu-'' @ group_name @ ''-'' @ run_uri_of F))))"

definition TpuGroupsDecoder :: "flag_values \<Rightarrow> string option \<Rightarrow> pyval option \<Rightarrow> option_decoder" where
  "TpuGroupsDecoder F = specs_decoder False (new_TpuGroupSpec F)"

definition EdwServiceSpec :: "flag_values \<Rightarrow> spec_class" where
  "EdwServiceSpec F = spec_with
     ([(''type'', \<lambda>opt. StringDecoder False opt (Some (VStr ''redshift''))),
       (''concurrency'', \<lambda>opt. IntDecoder None None True opt (Some (VInt 5))),
       (''node_count'', \<lambda>opt. IntDecoder None (Some 1) False opt (Some (VInt 1)))]
      @ map text_or_null [''cluster_identifier'', ''endpoint'', ''db'', ''user'', ''password'', ''node_type'', ''snapshot'',
          ''cluster_subnet_group'', ''cluster_parameter_group'', ''resource_group'', ''server_name'', ''iam_role''])
     [(''edw_service_cluster_snapshot'', ''snapshot''), (''edw_service_cluster_identifier'', ''cluster_identifier''),
      (''edw_service_endpoint'', ''endpoint''), (''edw_service_cluster_concurrency'', ''concurrency''),
      (''edw_service_cluster_db'', ''db''), (''edw_service_cluster_user'', ''user''),
      (''edw_service_cluster_password'', ''password'')] (Some F)"

definition EdwServiceDecoder :: "flag_values \<Rightarrow> string option \<Rightarrow> pyval option \<Rightarrow> option_decoder" where
  "EdwServiceDecoder F = dict_decoder False not_a_mapping (as_spec (new_spec (EdwServiceSpec F)))"

definition EdwComputeResourceSpec :: "flag_values \<Rightarrow> spec_class" where
  "EdwComputeResourceSpec F = \<lparr>constructions =
     [(''type'', \<lambda>opt. StringDecoder False opt (Some (VStr ''bigquery_slots''))), text_or_null ''cloud''],
     ApplyFlags = Some (\<lambda>config. Inr (if has_key config ''cloud'' then config
       else dict_set config ''cloud'' (flag_value F ''cloud'')))\<rparr>"

definition EdwComputeResourceDecoder :: "flag_values \<Rightarrow> string option \<Rightarrow> pyval option \<Rightarrow> option_decoder" where
  "EdwComputeResourceDecoder F = dict_decoder False not_a_mapping (as_spec (new_spec (EdwComputeResourceSpec F)))"

text \<open>The class of a placement group is asked for by \<open>self.cloud\<close>, which the decoder does not have.\<close>

definition PlacementGroupSpecsDecoder :: "string option \<Rightarrow> pyval option \<Rightarrow> option_decoder" where
  "PlacementGroupSpecsDecoder = dict_decoder False not_a_mapping (\<lambda>name d.
     if d = [] then Inr (VDict [])
     else Inl (attribute_error ''_PlacementGroupSpecsDecoder object has no attribute cloud''))"

definition RelationalDbDecoder ::
  "flag_values \<Rightarrow> 'z service_classes_scheme \<Rightarrow> string option \<Rightarrow> pyval option \<Rightarrow> option_decoder" where
  "RelationalDbDecoder F B = dict_decoder False not_a_mapping (\<lambda>name config.
     bindE (LoadProvider_of_config B F config) (\<lambda>_.
       if has_key config ''engine''
       then registered_spec B F ''RelationalDbSpec'' [(''CLOUD'', cloud_of_config F config),
         (''ENGINE'', if flag_present F ''db_engine'' then flag_value F ''db_engine'' else opt_get config ''engine'')] name config
       else Inl (invalid ''Required attribute `engine` missing from relational_db config.'')))"

text \<open>The flags after this decoder: they may have changed if it has come to make the spec.\<close>

definition relational_db_flags :: "'z service_classes_scheme \<Rightarrow> string \<Rightarrow> pyval \<Rightarrow> flag_values \<Rightarrow> flag_values" where
  "relational_db_flags B component v F = (case v of
     VDict config \<Rightarrow> (case (LoadProvider_of_config B F config, spec_class_for B ''RelationalDbSpec''
           [(''CLOUD'', cloud_of_config F config),
            (''ENGINE'', if flag_present F ''db_engine'' then flag_value F ''db_engine'' else opt_get config ''engine'')]) of
         (Inr _, Inr _) \<Rightarrow> if has_key config ''engine''
           then flags_after_db B (component @ ''.relational_db'') config F else F
       | _ \<Rightarrow> F)
   | _ \<Rightarrow> F)"

definition NonRelationalDbDecoder ::
  "flag_values \<Rightarrow> 'z service_classes_scheme \<Rightarrow> bool \<Rightarrow> string option \<Rightarrow> pyval option \<Rightarrow> option_decoder" where
  "NonRelationalDbDecoder F B none_ok = dict_decoder none_ok (attribute_error ''NoneType object has no attribute get'')
     (\<lambda>name config. bindE (LoadProvider_of_config B F config) (\<lambda>_.
       let service_type = (if flag_present F ''non_relational_db_service_type''
             then flag_value F ''non_relational_db_service_type'' else opt_get config ''service_type'')
       in if py_true service_type
          then registered_spec B F ''BaseNonRelationalDbSpec'' [(''SERVICE_TYPE'', service_type)] name config
          else Inl (invalid ''Required attribute `service_type` missing from non_relational_db config.'')))"

definition MEMORY_STORE_VERSIONS :: "string list" where
  "MEMORY_STORE_VERSIONS =
     [''redis_3_2'', ''redis_4_0'', ''redis_5_0'', ''redis_6_x'', ''redis_7_0'', ''redis_7_1'', ''redis_7_2'', ''redis_7_x'',
      ''redis_8_0'', ''VALKEY_7_2'', ''VALKEY_8_0'', ''VALKEY_8_2'', ''VALKEY_9_0'']"

definition MemoryStoreSpec_ApplyFlags :: "flag_values \<Rightarrow> metadata_dict \<Rightarrow> exn + metadata_dict" where
  "MemoryStoreSpec_ApplyFlags F config =
     (let config = flag_or_config F ''cloud'' config
      in bindE (if flag_present F ''zone'' then bindE (first_zone F) (\<lambda>z. Inr (dict_set config ''zone'' z)) else Inr config)
        (\<lambda>config. Inr (apply_present F
          [(''managed_memory_store_version'', ''version''), (''managed_memory_store_type'', ''memory_store_type''),
           (''managed_memory_store_service_type'', ''service_type'')] config)))"

definition MemoryStoreSpec :: "flag_values \<Rightarrow> spec_class" where
  "MemoryStoreSpec F = \<lparr>constructions =
     [one_of ''cloud'' VALID_CLOUDS None, text_or_null ''zone'',
      one_of ''version'' MEMORY_STORE_VERSIONS (Some VNone), text_or_null ''service_type'',
      one_of ''memory_store_type'' [''REDIS'', ''MEMCACHED'', ''VALKEY''] (Some VNone)],
     ApplyFlags = Some (MemoryStoreSpec_ApplyFlags F)\<rparr>"

definition MemoryStoreDecoder :: "flag_values \<Rightarrow> string option \<Rightarrow> pyval option \<Rightarrow> option_decoder" where
  "MemoryStoreDecoder F = dict_decoder False not_a_mapping (as_spec (new_spec (MemoryStoreSpec F)))"

definition VPNServiceSpec :: "flag_values \<Rightarrow> spec_class" where
  "VPNServiceSpec F = spec_with
     [text_or_null ''shared_key'', text_or_null ''name'',
      (''tunnel_count'', \<lambda>opt. IntDecoder None None True opt (Some (VInt 1))),
      (''gateway_count'', \<lambda>opt. IntDecoder None None True opt (Some (VInt 1))),
      (''routing_type'', \<lambda>opt. StringDecoder True opt (Some (VStr ''static''))),
      (''ike_version'', \<lambda>opt. IntDecoder None None True opt (Some (VInt 1)))]
     [(''vpn_service_tunnel_count'', ''tunnel_count''), (''vpn_service_gateway_count'', ''gateway_count''),
      (''vpn_service_name'', ''name''), (''vpn_service_shared_key'', ''shared_key''),
      (''vpn_service_routing_type'', ''routing_type''), (''vpn_service_ike_version'', ''ike_version'')] (Some F)"

definition new_VPNServiceSpec :: "flag_values \<Rightarrow> spec_builder" where
  "new_VPNServiceSpec F component kwargs = bindE (new_spec (VPNServiceSpec F) component kwargs) (\<lambda>attrs.
     Inr (if py_true (opt_get attrs ''name'') then attrs
       else dict_set attrs ''name'' (VStr (''pkb-vpn-svc-'' @ run_uri_of F))))"

definition VPNServiceDecoder :: "flag_values \<Rightarrow> string option \<Rightarrow> pyval option \<Rightarrow> option_decoder" where
  "VPNServiceDecoder F = dict_decoder False not_a_mapping (as_spec (new_VPNServiceSpec F))"

definition AppServiceDecoder ::
  "flag_values \<Rightarrow> 'z service_classes_scheme \<Rightarrow> string option \<Rightarrow> pyval option \<Rightarrow> option_decoder" where
  "AppServiceDecoder F B = dict_decoder False not_a_mapping (\<lambda>name config.
     registered_spec B F ''BaseAppServiceSpec'' [(''SERVICE'',
       if py_true (flag_value F ''appservice'') then flag_value F ''appservice'' else opt_get config ''appservice'')] name config)"

definition AppGroupSpec :: "flag_values \<Rightarrow> 'z service_classes_scheme \<Rightarrow> spec_class" where
  "AppGroupSpec F B = spec_with
     [text_or_null ''app_runtime'', text_or_null ''app_type'',
      (''appservice_count'', \<lambda>opt. IntDecoder None None False opt (Some (VInt 1))),
      (''appservice_spec'', \<lambda>opt. AppServiceDecoder F B opt None)]
     [(''appservice_count'', ''appservice_count''), (''app_runtime'', ''app_runtime''), (''app_type'', ''app_type'')] (Some F)"

definition AppGroupsDecoder ::
  "flag_values \<Rightarrow> 'z service_classes_scheme \<Rightarrow> string option \<Rightarrow> pyval option \<Rightarrow> option_decoder" where
  "AppGroupsDecoder F B = specs_decoder False (\<lambda>_. new_spec (AppGroupSpec F B))"

definition cloud_service :: "flag_values \<Rightarrow> (string \<times> (string option \<Rightarrow> option_decoder)) list \<Rightarrow> spec_class" where
  "cloud_service F options = \<lparr>constructions = one_of ''cloud'' VALID_CLOUDS None # options,
     ApplyFlags = Some (\<lambda>config. Inr (flag_or_config F ''cloud'' config))\<rparr>"

definition MessagingServiceSpec :: "flag_values \<Rightarrow> spec_class" where
  "MessagingServiceSpec F = cloud_service F [one_of ''delivery'' [''pull''] None]"

definition MessagingServiceDecoder :: "flag_values \<Rightarrow> string option \<Rightarrow> pyval option \<Rightarrow> option_decoder" where
  "MessagingServiceDecoder F = dict_decoder False not_a_mapping (as_spec (new_spec (MessagingServiceSpec F)))"

definition DataDiscoveryServiceSpec :: "flag_values \<Rightarrow> spec_class" where
  "DataDiscoveryServiceSpec F = cloud_service F [one_of ''service_type'' [''glue''] (Some (VStr ''glue''))]"

definition DataDiscoveryServiceDecoder :: "flag_values \<Rightarrow> bool \<Rightarrow> string option \<Rightarrow> pyval option \<Rightarrow> option_decoder" where
  "DataDiscoveryServiceDecoder F none_ok opt dflt = \<lparr>option = opt, default_value = dflt,
     Decode = (\<lambda>component v.
       Decode (dict_decoder none_ok not_a_mapping (as_spec (new_spec (DataDiscoveryServiceSpec F))) opt dflt) component
         (if v = VNone then VDict [] else v))\<rparr>"

definition KeyDecoder ::
  "flag_values \<Rightarrow> 'z service_classes_scheme \<Rightarrow> bool \<Rightarrow> string option \<Rightarrow> pyval option \<Rightarrow> option_decoder" where
  "KeyDecoder F B none_ok = dict_decoder none_ok (type_error ''argument of type NoneType is not iterable'') (\<lambda>name config.
     case map_of config ''cloud'' of
       None \<Rightarrow> Inl (invalid ''Required attribute cloud missing from key config.'')
     | Some c \<Rightarrow> bindE (load_cloud B c) (\<lambda>_. registered_spec B F ''BaseKeySpec'' [(''CLOUD'', c)] name config))"

section \<open>The configuration of a benchmark\<close>

text \<open>The flags \<open>F\<close> are those that are in force while the options are decoded.\<close>

definition BenchmarkConfigSpec_options ::
  "'z service_classes_scheme \<Rightarrow> flag_values \<Rightarrow> (string \<times> (string option \<Rightarrow> option_decoder)) list" where
  "BenchmarkConfigSpec_options B F =
     [text_if_given ''description'', text_if_given ''name'',
      (''flags'', \<lambda>opt. TypeVerifier [TDict] True opt (Some VNone)),
      (''vm_groups'', \<lambda>opt. VmGroupsDecoder (Some F) (provider_classes.truncate B) opt (Some (VDict []))),
      (''ai_agent_service'', \<lambda>opt. AiAgentServiceDecoder F B opt (Some VNone)),
      (''agent_sandbox'', \<lambda>opt. AgentSandboxConfigDecoder F B True opt (Some VNone)),
      (''placement_group_specs'', \<lambda>opt. PlacementGroupSpecsDecoder opt (Some (VDict []))),
      (''container_cluster'', \<lambda>opt. ContainerClusterSpecDecoder F B False opt (Some VNone)),
      (''container_registry'', \<lambda>opt. ContainerRegistryDecoder F False opt (Some VNone)),
      (''container_specs'', \<lambda>opt. ContainerSpecsDecoder F False opt (Some VNone)),
      (''cluster'', \<lambda>opt. ClusterDecoder F B opt (Some VNone)),
      (''dpb_service'', \<lambda>opt. DpbServiceDecoder F B opt (Some VNone)),
      (''relational_db'', \<lambda>opt. RelationalDbDecoder F B opt (Some VNone)),
      (''tpu_groups'', \<lambda>opt. TpuGroupsDecoder F opt (Some (VDict []))),
      (''edw_compute_resource'', \<lambda>opt. EdwComputeResourceDecoder F opt (Some VNone)),
      (''edw_service'', \<lambda>opt. EdwServiceDecoder F opt (Some VNone)),
      (''example_resource'', \<lambda>opt. ExampleResourceDecoder F B opt (Some VNone)),
      (''base_job'', \<lambda>opt. BaseJobDecoder F B opt (Some VNone)),
      (''memory_store'', \<lambda>opt. MemoryStoreDecoder F opt (Some VNone)),
      (''vpn_service'', \<lambda>opt. VPNServiceDecoder F opt (Some VNone)),
      (''app_groups'', \<lambda>opt. AppGroupsDecoder F B opt (Some (VDict []))),
      (''vpc_peering'', \<lambda>opt. BooleanDecoder True opt (Some (VBool False))),
      (''non_relational_db'', \<lambda>opt. NonRelationalDbDecoder F B True opt (Some VNone)),
      (''messaging_service'', \<lambda>opt. MessagingServiceDecoder F opt (Some VNone)),
      (''ai_model'', \<lambda>opt. ManagedAiModelSpecDecoder F B opt (Some VNone)),
      (''pinecone'', \<lambda>opt. PineconeResourcesDecoder F opt (Some VNone)),
      (''vvs'', \<lambda>opt. VVSResourcesDecoder F opt (Some VNone)),
      (''data_discovery_service'', \<lambda>opt. DataDiscoveryServiceDecoder F True opt (Some VNone)),
      (''key'', \<lambda>opt. KeyDecoder F B True opt (Some VNone)),
      (''temporary'', \<lambda>opt. TypeVerifier [TDict] True opt (Some VNone))]"

definition BenchmarkConfigSpec :: "'z service_classes_scheme \<Rightarrow> flag_values \<Rightarrow> spec_class" where
  "BenchmarkConfigSpec B F = \<lparr>constructions = BenchmarkConfigSpec_options B F, ApplyFlags = Some Inr\<rparr>"

text \<open>The part of \<open>BaseSpec.__init__\<close> before \<open>_DecodeAndInit\<close>\<close>

definition check_options :: "spec_class \<Rightarrow> string \<Rightarrow> metadata_dict \<Rightarrow> exn + unit" where
  "check_options S component_full_name kwargs =
     (let decoders = InitDecoders S;
          missing_options = filter (\<lambda>k. map_of kwargs k = None) (required_options decoders);
          unrecognized_options = filter (\<lambda>k. map_of decoders k = None) (map fst kwargs)
      in if missing_options \<noteq> [] then Inl (exn (Config MissingOption)
           (''Required options were missing from '' @ component_full_name @ '': ''
            @ str_join '', '' (sort missing_options) @ ''.''))
         else if unrecognized_options \<noteq> [] then Inl (exn (Config UnrecognizedOption)
           (''Unrecognized options were found in '' @ component_full_name @ '': ''
            @ str_join '', '' (sort unrecognized_options) @ ''.''))
         else Inr ())"

text \<open>\<open>RedirectFlags\<close>: \<open>self.flags\<close> is what the configuration gives, of whatever type.\<close>

definition RedirectFlags ::
  "flag_library \<Rightarrow> pyval \<Rightarrow> (flag_values \<Rightarrow> (exn + 'a) \<times> flag_values) \<Rightarrow> flag_values \<Rightarrow> (exn + 'a) \<times> flag_values" where
  "RedirectFlags L flags body F = (case flags of
     VDict d \<Rightarrow> with_OverrideFlags L d body F
   | v \<Rightarrow> if py_true v then (Inl (attribute_error ''object has no attribute items''), F) else body F)"

text \<open>Groups whose operating system is not expected\<close>

definition wrong_os_groups :: "string list \<Rightarrow> metadata_dict \<Rightarrow> string list" where
  "wrong_os_groups expected groups_of =
     map fst (filter (\<lambda>(g, s). case s of
         VDict attrs \<Rightarrow> opt_get attrs ''os_type'' \<notin> VStr ` set expected | _ \<Rightarrow> False) (sort_key fst groups_of))"

definition check_os_types :: "string list option \<Rightarrow> string \<Rightarrow> metadata_dict \<Rightarrow> exn + metadata_dict" where
  "check_os_types expected component attrs = (case expected of
     None \<Rightarrow> Inr attrs
   | Some os \<Rightarrow> (case opt_get attrs ''vm_groups'' of
       VDict gs \<Rightarrow> if wrong_os_groups os gs = [] then Inr attrs
         else Inl (invalid (''VM groups in '' @ component @ '' may only have the following OS types: '' @ str_join '', '' os
           @ ''. The following VM group options are invalid: '' @ str_join '', '' (wrong_os_groups os gs)))
     | _ \<Rightarrow> Inr attrs))"

text \<open>\<open>_DecodeAndInit\<close>, which also hands on the flags\<close>

definition decoded_or_default :: "option_decoder \<Rightarrow> string \<Rightarrow> pyval option \<Rightarrow> exn + pyval" where
  "decoded_or_default D component v = (case v of
     Some v \<Rightarrow> Decode D component v
   | None \<Rightarrow> (case default_value D of Some w \<Rightarrow> Inr w
       | None \<Rightarrow> Inl (exn (Builtin AssertionError) ''default value of required config option'')))"

fun DecodeConfig ::
  "'z service_classes_scheme \<Rightarrow> string \<Rightarrow> metadata_dict \<Rightarrow> string list \<Rightarrow> flag_values
     \<Rightarrow> (exn + metadata_dict) \<times> flag_values" where
  "DecodeConfig B component kwargs [] F = (Inr [], F)"
| "DecodeConfig B component kwargs (k # ks) F = (case decoder_of (BenchmarkConfigSpec B F) k of
     None \<Rightarrow> (Inl (missing_key k), F)
   | Some D \<Rightarrow>
       let F' = (case map_of kwargs k of None \<Rightarrow> F
         | Some v \<Rightarrow> if k = ''relational_db'' then relational_db_flags B component v F else F)
       in (case decoded_or_default D component (map_of kwargs k) of
            Inl e \<Rightarrow> (Inl e, F')
          | Inr w \<Rightarrow> (case DecodeConfig B component kwargs ks F' of
              (r, F'') \<Rightarrow> (bindE r (\<lambda>attrs. Inr ((k, w) # attrs)), F''))))"

definition new_BenchmarkConfigSpec ::
  "flag_library \<Rightarrow> 'z service_classes_scheme \<Rightarrow> string list option \<Rightarrow> string \<Rightarrow> metadata_dict
     \<Rightarrow> flag_values \<Rightarrow> (exn + metadata_dict) \<times> flag_values" where
  "new_BenchmarkConfigSpec L B expected_os_types component kwargs F =
     (case check_options (BenchmarkConfigSpec B F) component kwargs of
        Inl e \<Rightarrow> (Inl e, F)
      | Inr _ \<Rightarrow> (case RedirectFlags L (opt_get kwargs ''flags'')
            (DecodeConfig B component kwargs (map fst (InitDecoders (BenchmarkConfigSpec B F)))) F of
          (r, F2) \<Rightarrow> (bindE r (check_os_types expected_os_types component), F2)))"

section \<open>What the spec of a benchmark holds\<close>

lemma new_spec_check:
  "new_spec S component kwargs =
     bindE (case ApplyFlags S of None \<Rightarrow> Inr kwargs | Some f \<Rightarrow> f kwargs) (\<lambda>kwargs.
     bindE (check_options S component kwargs) (\<lambda>_. DecodeAndInit component kwargs (InitDecoders S)))"
  by (simp add: new_spec_def check_options_def Let_def bindE_def split: sum.split)

text \<open>The flags of a benchmark do not replace those of the command line, and are undone.\<close>

lemma with_OverrideFlags_same:
  assumes "with_OverrideFlags L d body F = (r, F2)"
  shows "(\<exists>F1. r = fst (body F1) \<and> {k. flag_present F k} \<subseteq> {k. F1 k = F k} \<and> (snd (body F1) = F1 \<longrightarrow> F2 = F)
      \<and> fst (with_OverrideFlags L d (\<lambda>G. (Inr G, G)) F) = Inr F1)
    \<or> (\<exists>e. r = Inl e \<and> with_OverrideFlags L d (\<lambda>F1. (Inr (), F1)) F = (Inl e, F2))"
proof (cases "AliasFlagsFromYaml ALL_TRANSLATIONS d")
  case (Inl e)
  with assms show ?thesis by (simp add: with_OverrideFlags_def)
next
  case (Inr overrides)
  obtain failed F1 reapply where e: "enter_overrides L overrides F [] = (failed, F1, reapply)"
    by (cases "enter_overrides L overrides F []")
  show ?thesis
  proof (cases failed)
    case (Some x)
    with assms Inr e show ?thesis by (simp add: with_OverrideFlags_def)
  next
    case None
    note restores = with_OverrideFlags_restores [OF Inr e [unfolded None] assms]
    have "F2 = F" if "snd (body F1) = F1"
    proof
      fix k
      show "F2 k = F k" using restores [of k] that by (cases "k \<in> set (map fst reapply)") simp_all
    qed
    moreover have "F1 k = F k" if "flag_present F k" for k
      using restores [of k] that by (cases "k \<in> set (map fst reapply)") (auto simp: flag_present_def)
    moreover have "r = fst (body F1)" using restores by simp
    moreover have "fst (with_OverrideFlags L d (\<lambda>G. (Inr G, G)) F) = Inr F1"
      using Inr e None by (simp add: with_OverrideFlags_def)
    ultimately show ?thesis by blast
  qed
qed

lemma RedirectFlags_same:
  assumes "RedirectFlags L flags body F = (r, F2)"
  shows "(\<exists>F1. r = fst (body F1) \<and> {k. flag_present F k} \<subseteq> {k. F1 k = F k} \<and> (snd (body F1) = F1 \<longrightarrow> F2 = F)
      \<and> fst (RedirectFlags L flags (\<lambda>G. (Inr G, G)) F) = Inr F1)
    \<or> (\<exists>e. r = Inl e \<and> F2 = F)
    \<or> (\<exists>d e. flags = VDict d \<and> r = Inl e \<and> with_OverrideFlags L d (\<lambda>F1. (Inr (), F1)) F = (Inl e, F2))"
proof (cases "\<exists>d. flags = VDict d")
  case True
  then obtain d where "flags = VDict d" by blast
  with assms with_OverrideFlags_same [of L d body F r F2] show ?thesis by (auto simp: RedirectFlags_def)
next
  case False
  then have all: "RedirectFlags L flags body F
      = (if py_true flags then (Inl (attribute_error ''object has no attribute items''), F) else body F)"
    "RedirectFlags L flags (\<lambda>G. (Inr G, G)) F
      = (if py_true flags then (Inl (attribute_error ''object has no attribute items''), F) else (Inr F, F))"
    by (cases flags; simp add: RedirectFlags_def)+
  show ?thesis
  proof (cases "py_true flags")
    case True
    with assms all(1) show ?thesis by auto
  next
    case False
    with assms all show ?thesis by (intro disjI1 exI [of _ F]) simp
  qed
qed

lemma spec_of_value_Inr:
  "spec_of_value build component v = Inr s \<longleftrightarrow> (\<exists>d ga. v = VDict d \<and> build component d = Inr ga \<and> s = VDict ga)"
  by (cases v) (auto simp: spec_of_value_def bindE_Inr)

lemma groups_loop_members:
  "groups_loop F B name gs result = Inr r \<Longrightarrow> (g, s) \<in> set r \<Longrightarrow> (g, s) \<in> set result
     \<or> (\<exists>config. (g, config) \<in> set gs \<and> spec_of_value (new_VmGroupSpec F B) (name @ ''.'' @ g) config = Inr s)"
proof (induction F B name gs result arbitrary: r rule: groups_loop.induct)
  case (2 F B name g' config gs result)
  then obtain s' where s': "spec_of_value (new_VmGroupSpec F B) (name @ ''.'' @ g') config = Inr s'"
    "groups_loop F B name gs (dict_set result g' s') = Inr r" by (auto simp: bindE_Inr)
  have "x \<in> set (dict_set result g' s') \<Longrightarrow> x = (g', s') \<or> x \<in> set result" for x
    by (induction result g' s' rule: dict_set.induct) (auto split: if_splits)
  with 2(1) [OF s'(2) 2(3)] s'(1) show ?case by auto
qed simp

lemma groups_loop_names:
  "groups_loop F B name gs result = Inr r \<Longrightarrow> set (map fst r) = set (map fst result) \<union> set (map fst gs)"
proof (induction F B name gs result arbitrary: r rule: groups_loop.induct)
  case (2 F B name g config gs result)
  then obtain s where s: "groups_loop F B name gs (dict_set result g s) = Inr r" by (auto simp: bindE_Inr)
  show ?case unfolding 2(1) [OF s] dict_set_keys by auto
qed simp

lemma groups_loop_distinct:
  "groups_loop F B name gs result = Inr r \<Longrightarrow> distinct (map fst result) \<Longrightarrow> distinct (map fst r)"
proof (induction F B name gs result arbitrary: r rule: groups_loop.induct)
  case (2 F B name g config gs result)
  then obtain s where s: "groups_loop F B name gs (dict_set result g s) = Inr r" by (auto simp: bindE_Inr)
  show ?case by (rule 2(1) [OF s dict_set_distinct [OF 2(3)]])
qed simp

lemma config_names: "map fst (BenchmarkConfigSpec_options B F) = map fst (BenchmarkConfigSpec_options B F')"
  by (simp add: BenchmarkConfigSpec_options_def text_if_given_def)

lemma config_names_distinct: "distinct (map fst (BenchmarkConfigSpec_options B F))"
  by (simp add: BenchmarkConfigSpec_options_def text_if_given_def)

lemma decoder_of_construction:
  assumes "distinct (map fst (constructions S))" and "(k, mk) \<in> set (constructions S)"
  shows "decoder_of S k = Some (mk (Some k))"
proof -
  have "map fst (InitDecoders S) = map fst (sort_key fst (constructions S))"
    by (simp add: InitDecoders_def comp_def case_prod_beta)
  then have "distinct (map fst (InitDecoders S))" using assms(1) by (simp add: distinct_map)
  moreover have "(k, mk (Some k)) \<in> set (InitDecoders S)" using assms(2) by (force simp: InitDecoders_def)
  ultimately show ?thesis by (simp add: decoder_of_def)
qed

text \<open>Without a relational database the flags stay the same; every option is decoded with some flags, which are
  these ones then.\<close>

lemma DecodeConfig_flags:
  assumes "\<not> has_key kwargs ''relational_db''"
  shows "snd (DecodeConfig B component kwargs ks F) = F"
  using assms
proof (induction B component kwargs ks F rule: DecodeConfig.induct)
  case (2 B component kwargs k ks F)
  then show ?case by (auto simp: Let_def has_key_def split: option.splits sum.splits prod.splits)
qed simp

lemma DecodeConfig_option:
  assumes "DecodeConfig B component kwargs ks F = (Inr attrs, F2)" and "k \<in> set ks" and "distinct ks"
  shows "\<exists>F1 D w. decoder_of (BenchmarkConfigSpec B F1) k = Some D \<and> map_of attrs k = Some w
    \<and> decoded_or_default D component (map_of kwargs k) = Inr w \<and> (has_key kwargs ''relational_db'' \<or> F1 = F)"
  using assms
proof (induction B component kwargs ks F arbitrary: attrs F2 rule: DecodeConfig.induct)
  case (2 B component kwargs k' ks F)
  let ?F = "case map_of kwargs k' of None \<Rightarrow> F
    | Some v \<Rightarrow> if k' = ''relational_db'' then relational_db_flags B component v F else F"
  obtain D w rest where D: "decoder_of (BenchmarkConfigSpec B F) k' = Some D"
    and w: "decoded_or_default D component (map_of kwargs k') = Inr w"
    and rest: "DecodeConfig B component kwargs ks ?F = (Inr rest, F2)" and attrs: "attrs = (k', w) # rest"
    using 2(2) by (auto simp: Let_def bindE_Inr split: option.splits sum.splits prod.splits)
  show ?case
  proof (cases "k = k'")
    case True
    with D w attrs show ?thesis by auto
  next
    case False
    have "\<exists>F1 D w. decoder_of (BenchmarkConfigSpec B F1) k = Some D \<and> map_of rest k = Some w
      \<and> decoded_or_default D component (map_of kwargs k) = Inr w \<and> (has_key kwargs ''relational_db'' \<or> F1 = ?F)"
      by (rule 2(1) [OF D refl w rest]) (use 2(3,4) False in auto)
    moreover have "has_key kwargs ''relational_db'' \<or> ?F = F" by (auto simp: has_key_def split: option.split)
    ultimately show ?thesis using False attrs by auto
  qed
qed simp

lemma config_decoder_names: "''vm_groups'' \<in> set (map fst (InitDecoders (BenchmarkConfigSpec B F)))"
  "distinct (map fst (InitDecoders (BenchmarkConfigSpec B F)))"
proof -
  have n: "map fst (InitDecoders (BenchmarkConfigSpec B F)) = map fst (sort_key fst (BenchmarkConfigSpec_options B F))"
    by (simp add: InitDecoders_def BenchmarkConfigSpec_def comp_def case_prod_beta)
  show "distinct (map fst (InitDecoders (BenchmarkConfigSpec B F)))"
    unfolding n using config_names_distinct [of B F] by (simp add: distinct_map)
  have "''vm_groups'' \<in> set (map fst (BenchmarkConfigSpec_options B F))" by (simp add: BenchmarkConfigSpec_options_def)
  then show "''vm_groups'' \<in> set (map fst (InitDecoders (BenchmarkConfigSpec B F)))" unfolding n by simp
qed

text \<open>The groups of machines of a benchmark\<close>

lemma vm_groups_decoded:
  assumes "DecodeConfig B component kw (map fst (InitDecoders (BenchmarkConfigSpec B F0))) F = (Inr attrs, F2)"
  shows "\<exists>F1 gs. map_of attrs ''vm_groups'' = Some (VDict gs) \<and> (has_key kw ''relational_db'' \<or> F1 = F)
    \<and> (case opt_get kw ''vm_groups'' of
        VDict cs \<Rightarrow> distinct (map fst gs) \<and> set (map fst gs) = set (map fst cs)
          \<and> list_all (\<lambda>(g, s). \<exists>config ga. (g, VDict config) \<in> set cs \<and> s = VDict ga
              \<and> new_VmGroupSpec (Some F1) (provider_classes.truncate B) (component @ ''.vm_groups.'' @ g) config = Inr ga) gs
      | _ \<Rightarrow> gs = [])"
proof -
  from DecodeConfig_option [OF assms config_decoder_names] obtain F1 D w
    where D: "decoder_of (BenchmarkConfigSpec B F1) ''vm_groups'' = Some D" "map_of attrs ''vm_groups'' = Some w"
      "decoded_or_default D component (map_of kw ''vm_groups'') = Inr w" "has_key kw ''relational_db'' \<or> F1 = F" by blast
  let ?mk = "\<lambda>opt. VmGroupsDecoder (Some F1) (provider_classes.truncate B) opt (Some (VDict []))"
  have "decoder_of (BenchmarkConfigSpec B F1) ''vm_groups'' = Some (?mk (Some ''vm_groups''))"
    by (rule decoder_of_construction)
      (simp add: BenchmarkConfigSpec_def config_names_distinct, simp add: BenchmarkConfigSpec_def BenchmarkConfigSpec_options_def)
  with D(1,3) have w: "decoded_or_default (?mk (Some ''vm_groups'')) component (map_of kw ''vm_groups'') = Inr w" by simp
  show ?thesis
  proof (cases "map_of kw ''vm_groups''")
    case None
    with w D(2,4) show ?thesis by (auto simp: VmGroupsDecoder_def opt_get_def decoded_or_default_def)
  next
    case (Some v)
    with w obtain cs r where v: "v = VDict cs" and w': "w = VDict r" and
      r: "groups_loop (Some F1) (provider_classes.truncate B) (component @ ''.vm_groups'') cs [] = Inr r"
      by (cases v) (auto simp: VmGroupsDecoder_def decoded_or_default_def bindE_Inr verify_type_Inr GetOptionFullName_def)
    have "\<exists>config ga. (g, VDict config) \<in> set cs \<and> s = VDict ga
        \<and> new_VmGroupSpec (Some F1) (provider_classes.truncate B) (component @ ''.vm_groups.'' @ g) config = Inr ga"
      if "(g, s) \<in> set r" for g s
      using groups_loop_members [OF r that] by (auto simp: spec_of_value_Inr)
    moreover have "set (map fst r) = set (map fst cs)" "distinct (map fst r)"
      using groups_loop_names [OF r] groups_loop_distinct [OF r] by simp_all
    ultimately show ?thesis using D(2,4) w' v Some
      by (intro exI [of _ F1] exI [of _ r]) (auto simp: list_all_iff opt_get_def)
  qed
qed

lemma check_os_types_Inr:
  assumes "check_os_types expected component attrs = Inr attrs'" and "map_of attrs ''vm_groups'' = Some (VDict gs)"
  shows "attrs' = attrs \<and> (case expected of None \<Rightarrow> True | Some os \<Rightarrow>
    list_all (\<lambda>(g, s). case s of VDict ga \<Rightarrow> opt_get ga ''os_type'' \<in> VStr ` set os | _ \<Rightarrow> True) gs)"
proof -
  have "wrong_os_groups os gs = [] \<longleftrightarrow>
      list_all (\<lambda>(g, s). case s of VDict ga \<Rightarrow> opt_get ga ''os_type'' \<in> VStr ` set os | _ \<Rightarrow> True) gs" for os
    by (simp add: wrong_os_groups_def filter_empty_conv list_all_iff case_prod_beta split: pyval.split)
  moreover have "opt_get attrs ''vm_groups'' = VDict gs" using assms(2) by (simp add: opt_get_def)
  ultimately show ?thesis using assms(1) by (auto simp: check_os_types_def split: option.splits if_splits)
qed

section \<open>Configurations that are declared valid and raise\<close>

text \<open>The type of a data processing service has a default, which is never used.\<close>

lemma dpb_type_without_default:
  "(''service_type'', \<lambda>opt. EnumDecoder (map VStr DPB_SERVICE_TYPES) opt (Some (VStr ''dataproc'')))
     \<in> set (constructions (DpbServiceSpec F B))"
  "Decode (DpbServiceDecoder F B opt dflt) component (VDict [(''worker_group'', g)]) = Inl (missing_key ''service_type'')"
  by (simp_all add: DpbServiceSpec_def DpbServiceSpec_options_def one_of_def DpbServiceDecoder_def dict_decoder_def
      verify_type_def as_spec_def new_dpb_service_def)

text \<open>A null that is allowed by \<open>none_ok\<close>\<close>

lemma null_options_raise:
  "Decode (NonRelationalDbDecoder F B True opt dflt) component VNone
     = Inl (attribute_error ''NoneType object has no attribute get'')"
  "Decode (KeyDecoder F B True opt dflt) component VNone = Inl (type_error ''argument of type NoneType is not iterable'')"
  "Decode (AgentSandboxConfigDecoder F B True opt dflt) component VNone
     = Inl (type_error ''argument of type NoneType is not iterable'')"
  "Decode (NodepoolsDecoder F True opt dflt) component VNone
     = Inl (attribute_error ''NoneType object has no attribute items'')"
  by (simp_all add: NonRelationalDbDecoder_def KeyDecoder_def AgentSandboxConfigDecoder_def NodepoolsDecoder_def
      specs_decoder_def dict_decoder_def verify_type_def)

lemma placement_group_specs_raise:
  "Decode (PlacementGroupSpecsDecoder opt dflt) component (VDict [(n, v)])
     = Inl (attribute_error ''_PlacementGroupSpecsDecoder object has no attribute cloud'')"
  by (simp add: PlacementGroupSpecsDecoder_def dict_decoder_def verify_type_def)

section \<open>Properties\<close>

text \<open>C24: The spec of a benchmark: it has one group of machines for each one of its configuration, built from the
  configuration of that group, with an operating system that is expected; all are built with the same flags, which
  unless there is a relational database are those of RedirectFlags and keep those of the command line, and
  afterwards all flags are as before.  The flags are also as before if decoding fails without a relational
  database, except where the flags of the benchmark cannot be applied.\<close>

theorem benchmark_config_result:
  "case new_BenchmarkConfigSpec L B expected_os_types component kwargs F of
     (Inr attrs, F2) \<Rightarrow> \<exists>F1 gs. (has_key kwargs ''relational_db'' \<or> F2 = F \<and> {k. flag_present F k} \<subseteq> {k. F1 k = F k}
           \<and> fst (RedirectFlags L (opt_get kwargs ''flags'') (\<lambda>G. (Inr G, G)) F) = Inr F1)
       \<and> map_of attrs ''vm_groups'' = Some (VDict gs)
       \<and> (case opt_get kwargs ''vm_groups'' of
           VDict cs \<Rightarrow> distinct (map fst gs) \<and> set (map fst gs) = set (map fst cs)
             \<and> list_all (\<lambda>(g, s). \<exists>config ga. (g, VDict config) \<in> set cs \<and> s = VDict ga
                 \<and> new_VmGroupSpec (Some F1) (provider_classes.truncate B) (component @ ''.vm_groups.'' @ g) config = Inr ga
                 \<and> (case expected_os_types of None \<Rightarrow> True | Some os \<Rightarrow> opt_get ga ''os_type'' \<in> VStr ` set os)) gs
         | _ \<Rightarrow> gs = [])
   | (Inl e, F2) \<Rightarrow> has_key kwargs ''relational_db'' \<or> F2 = F \<or> (\<exists>d. opt_get kwargs ''flags'' = VDict d
       \<and> with_OverrideFlags L d (\<lambda>F1. (Inr (), F1)) F = (Inl e, F2))"
proof (cases "check_options (BenchmarkConfigSpec B F) component kwargs")
  case (Inl e)
  then show ?thesis by (simp add: new_BenchmarkConfigSpec_def)
next
  case ok: (Inr u)
  let ?decode = "DecodeConfig B component kwargs (map fst (InitDecoders (BenchmarkConfigSpec B F)))"
  obtain r F2 where r: "RedirectFlags L (opt_get kwargs ''flags'') ?decode F = (r, F2)"
    by (cases "RedirectFlags L (opt_get kwargs ''flags'') ?decode F")
  have new: "new_BenchmarkConfigSpec L B expected_os_types component kwargs F
      = (bindE r (check_os_types expected_os_types component), F2)"
    using ok r by (simp add: new_BenchmarkConfigSpec_def)
  from RedirectFlags_same [OF r] consider
      F1 where "r = fst (?decode F1)" "{k. flag_present F k} \<subseteq> {k. F1 k = F k}" "snd (?decode F1) = F1 \<longrightarrow> F2 = F"
        "fst (RedirectFlags L (opt_get kwargs ''flags'') (\<lambda>G. (Inr G, G)) F) = Inr F1"
    | e where "r = Inl e" "F2 = F"
    | d e where "opt_get kwargs ''flags'' = VDict d" "r = Inl e" "with_OverrideFlags L d (\<lambda>F1. (Inr (), F1)) F = (Inl e, F2)"
    by blast
  then show ?thesis
  proof cases
    case 1
    have same: "has_key kwargs ''relational_db'' \<or> F2 = F" using 1(3) DecodeConfig_flags by blast
    show ?thesis
    proof (cases "bindE r (check_os_types expected_os_types component)")
      case (Inl e)
      with same show ?thesis by (auto simp: new)
    next
      case (Inr attrs')
      then obtain attrs F3 where a: "?decode F1 = (Inr attrs, F3)" "check_os_types expected_os_types component attrs = Inr attrs'"
        using 1(1) by (cases "?decode F1") (auto simp: bindE_Inr)
      from vm_groups_decoded [OF a(1)] obtain F4 gs where gs: "map_of attrs ''vm_groups'' = Some (VDict gs)"
        "has_key kwargs ''relational_db'' \<or> F4 = F1"
        "case opt_get kwargs ''vm_groups'' of
           VDict cs \<Rightarrow> distinct (map fst gs) \<and> set (map fst gs) = set (map fst cs)
             \<and> list_all (\<lambda>(g, s). \<exists>config ga. (g, VDict config) \<in> set cs \<and> s = VDict ga
                 \<and> new_VmGroupSpec (Some F4) (provider_classes.truncate B) (component @ ''.vm_groups.'' @ g) config = Inr ga) gs
         | _ \<Rightarrow> gs = []" by blast
      from check_os_types_Inr [OF a(2) gs(1)] have os: "attrs' = attrs" "case expected_os_types of None \<Rightarrow> True | Some os \<Rightarrow>
          list_all (\<lambda>(g, s). case s of VDict ga \<Rightarrow> opt_get ga ''os_type'' \<in> VStr ` set os | _ \<Rightarrow> True) gs" by auto
      have "case opt_get kwargs ''vm_groups'' of
           VDict cs \<Rightarrow> distinct (map fst gs) \<and> set (map fst gs) = set (map fst cs)
             \<and> list_all (\<lambda>(g, s). \<exists>config ga. (g, VDict config) \<in> set cs \<and> s = VDict ga
                 \<and> new_VmGroupSpec (Some F4) (provider_classes.truncate B) (component @ ''.vm_groups.'' @ g) config = Inr ga
                 \<and> (case expected_os_types of None \<Rightarrow> True | Some os \<Rightarrow> opt_get ga ''os_type'' \<in> VStr ` set os)) gs
         | _ \<Rightarrow> gs = []"
        using gs(3) os(2) by (cases "opt_get kwargs ''vm_groups''") (fastforce simp: list_all_iff split: option.splits)+
      moreover have "has_key kwargs ''relational_db'' \<or> F2 = F \<and> {k. flag_present F k} \<subseteq> {k. F4 k = F k}
          \<and> fst (RedirectFlags L (opt_get kwargs ''flags'') (\<lambda>G. (Inr G, G)) F) = Inr F4"
        using same gs(2) 1(2,4) by blast
      ultimately show ?thesis using gs(1) os(1) unfolding new Inr prod.case sum.case by blast
    qed
  qed (simp_all add: new)
qed

end
