(* ===== verification/DbSpecs.thy ===== *)
theory DbSpecs
  imports BenchmarkConfig
begin

text \<open>
  \<open>perfkitbenchmarker/relational_db_spec.py\<close>: the spec of a relational database and how the flags go into its
  configuration, step by step.  The cloud of the configuration is a text; the flags \<open>zone\<close>, \<open>db_zone\<close> and
  \<open>db_replica_zones\<close> hold lists.  One step changes a flag, which is why the flags are part of the result.
\<close>

section \<open>Places in a configuration\<close>

text \<open>\<open>config[k1][k2]...\<close> and \<open>config[k1][k2]... = x\<close>\<close>

fun get_path :: "pyval \<Rightarrow> string list \<Rightarrow> exn + pyval" where
  "get_path v [] = Inr v"
| "get_path v (k # ks) = (case v of
     VDict d \<Rightarrow> (case map_of d k of None \<Rightarrow> Inl (missing_key k) | Some v' \<Rightarrow> get_path v' ks)
   | _ \<Rightarrow> Inl (type_error ''object is not subscriptable by a text''))"

fun put :: "string list \<Rightarrow> pyval \<Rightarrow> metadata_dict \<Rightarrow> exn + metadata_dict" where
  "put [] x d = Inr d"
| "put [k] x d = Inr (dict_set d k x)"
| "put (k # k' # ks) x d = (case map_of d k of
     None \<Rightarrow> Inl (missing_key k)
   | Some (VDict d') \<Rightarrow> bindE (put (k' # ks) x d') (\<lambda>d''. Inr (dict_set d k (VDict d'')))
   | Some _ \<Rightarrow> Inl (type_error ''object is not subscriptable by a text''))"

text \<open>\<open>k in v\<close>\<close>

definition in_value :: "string \<Rightarrow> pyval \<Rightarrow> exn + bool" where
  "in_value k v = (case v of
     VDict d \<Rightarrow> Inr (has_key d k)
   | VList vs \<Rightarrow> Inr (VStr k \<in> set vs)
   | VStr s \<Rightarrow> Inr (str_in k s)
   | _ \<Rightarrow> Inl (type_error ''argument is not iterable''))"

text \<open>\<open>flag_values.name[i]\<close>\<close>

definition flag_item :: "flag_values \<Rightarrow> string \<Rightarrow> nat \<Rightarrow> exn + pyval" where
  "flag_item F name i = (case flag_value F name of
     VList vs \<Rightarrow> if i < length vs then Inr (vs ! i) else Inl index_error
   | _ \<Rightarrow> Inl (type_error ''object is not subscriptable''))"

text \<open>Steps on a configuration\<close>

type_synonym config_step = "metadata_dict \<Rightarrow> exn + metadata_dict"

fun steps :: "config_step list \<Rightarrow> config_step" where
  "steps [] config = Inr config"
| "steps (f # fs) config = bindE (f config) (steps fs)"

definition only_if :: "bool \<Rightarrow> config_step \<Rightarrow> config_step" where
  "only_if b f = (if b then f else Inr)"

definition only_ifE :: "(metadata_dict \<Rightarrow> exn + bool) \<Rightarrow> config_step \<Rightarrow> config_step" where
  "only_ifE c f config = bindE (c config) (\<lambda>b. if b then f config else Inr config)"

definition put_flag :: "flag_values \<Rightarrow> string \<Rightarrow> string list \<Rightarrow> config_step" where
  "put_flag F name path = only_if (flag_present F name) (put path (flag_value F name))"

definition put_item :: "flag_values \<Rightarrow> string \<Rightarrow> nat \<Rightarrow> string list \<Rightarrow> config_step" where
  "put_item F name i path config = bindE (flag_item F name i) (\<lambda>x. put path x config)"

definition of_vms :: "string \<Rightarrow> string \<Rightarrow> string \<Rightarrow> string list" where
  "of_vms g cloud_name k = [''vm_groups'', g, ''vm_spec'', cloud_name, k]"

definition of_disks :: "string \<Rightarrow> string \<Rightarrow> string \<Rightarrow> string list" where
  "of_disks g cloud_name k = [''vm_groups'', g, ''disk_spec'', cloud_name, k]"

section \<open>Flags\<close>

definition check_machine_flags :: "flag_values \<Rightarrow> exn + unit" where
  "check_machine_flags F =
     (let custom = flag_present F ''db_cpus'' \<or> flag_present F ''db_memory'';
          client_cpus = flag_present F ''client_vm_cpus''; client_memory = flag_present F ''client_vm_memory''
      in if custom \<and> flag_present F ''db_machine_type''
         then Inl (exn (Config UnrecognizedOption) (''db_cpus/db_memory can not be specified with db_machine_type.''))
         else if (client_cpus \<and> client_memory) \<and> flag_present F ''client_vm_machine_type''
         then Inl (exn (Config UnrecognizedOption)
           (''client_vm_cpus/client_vm_memory can not be specified with client_vm_machine_type.''))
         else if client_cpus \<noteq> client_memory
         then Inl (missing_option
           (''To specify a custom client VM, both client_vm_cpus and client_vm_memory must be specified.''))
         else Inr ())"

definition plain_db_flags :: "flag_values \<Rightarrow> metadata_dict \<Rightarrow> metadata_dict" where
  "plain_db_flags F config = apply_present F
     [(''db_engine'', ''engine''), (''db_engine_version'', ''engine_version''), (''database_name'', ''database_name''),
      (''database_username'', ''database_username''), (''database_password'', ''database_password''),
      (''db_high_availability'', ''high_availability''), (''db_high_availability_type'', ''high_availability_type''),
      (''db_backup_enabled'', ''backup_enabled''), (''db_flags'', ''db_flags'')]
     (flag_or_config F ''cloud'' (apply_present F [(''use_managed_db'', ''is_managed_db'')] config))"

definition vm_group_named :: "string \<Rightarrow> metadata_dict \<Rightarrow> exn + bool" where
  "vm_group_named g config = (case map_of config ''vm_groups'' of None \<Rightarrow> Inr False | Some v \<Rightarrow> in_value g v)"

definition has_unmanaged_dbs :: "metadata_dict \<Rightarrow> exn + bool" where
  "has_unmanaged_dbs config = bindE (vm_group_named ''servers'' config) (\<lambda>b.
     if b then Inr True else vm_group_named ''servers_replicas'' config)"

text \<open>Whether the zones of the servers are those of the flag \<open>zone\<close>\<close>

definition takes_zone_flag :: "flag_values \<Rightarrow> metadata_dict \<Rightarrow> bool" where
  "takes_zone_flag F config = (\<not> flag_present F ''db_zone'' \<and> flag_present F ''zone''
     \<and> has_key config ''db_spec'' \<and> has_key config ''zones'')"

definition server_zone_from :: "flag_values \<Rightarrow> bool \<Rightarrow> string \<Rightarrow> string \<Rightarrow> config_step" where
  "server_zone_from F unmanaged cloud_name name = steps
     [put_item F name 0 [''db_spec'', cloud_name, ''zone''], put [''zones''] (flag_value F name),
      only_if unmanaged (put_item F name 0 (of_vms ''servers'' cloud_name ''zone''))]"

definition server_zone :: "flag_values \<Rightarrow> bool \<Rightarrow> string \<Rightarrow> config_step" where
  "server_zone F unmanaged cloud_name config =
     (if flag_present F ''db_zone'' then server_zone_from F unmanaged cloud_name ''db_zone'' config
      else if takes_zone_flag F config then server_zone_from F unmanaged cloud_name ''zone'' config
      else Inr config)"

definition other_zones :: "flag_values \<Rightarrow> string \<Rightarrow> config_step list" where
  "other_zones F cloud_name =
     [put_flag F ''client_vm_count'' [''vm_groups'', ''clients'', ''vm_count''],
      if flag_present F ''client_vm_zone'' then put_flag F ''client_vm_zone'' (of_vms ''clients'' cloud_name ''zone'')
      else only_if (flag_present F ''zone'') (only_ifE (vm_group_named ''clients'')
        (put_item F ''zone'' 0 (of_vms ''clients'' cloud_name ''zone''))),
      only_if (flag_present F ''zone'') (only_ifE (vm_group_named ''controller'')
        (put_item F ''zone'' 0 (of_vms ''controller'' cloud_name ''zone'')))]"

definition custom_machine :: "flag_values \<Rightarrow> string \<Rightarrow> pyval" where
  "custom_machine F whose =
     VDict [(''cpus'', flag_value F (whose @ ''_cpus'')), (''memory'', flag_value F (whose @ ''_memory''))]"

definition need_vm_groups :: "config_step" where
  "need_vm_groups config = (if has_key config ''vm_groups'' then Inr config else Inl (missing_key ''vm_groups''))"

definition machine_types :: "flag_values \<Rightarrow> bool \<Rightarrow> string \<Rightarrow> config_step list" where
  "machine_types F unmanaged cloud_name =
     (let servers = flag_present F ''db_machine_type'';
          custom = flag_present F ''db_cpus'' \<or> flag_present F ''db_memory'';
          client_custom = flag_present F ''client_vm_cpus'' \<and> flag_present F ''client_vm_memory''
      in [put_flag F ''db_machine_type'' [''db_spec'', cloud_name, ''machine_type''],
          only_if unmanaged (put_flag F ''db_machine_type'' (of_vms ''servers'' cloud_name ''machine_type'')),
          only_if custom (steps
            [put [''db_spec'', cloud_name, ''machine_type''] (custom_machine F ''db''), need_vm_groups,
             only_if unmanaged (put (of_vms ''servers'' cloud_name ''machine_type'') (custom_machine F ''db''))]),
          put_flag F ''managed_db_azure_compute_units'' [''db_spec'', cloud_name, ''machine_type'', ''compute_units''],
          put_flag F ''managed_db_tier'' [''db_tier''], put_flag F ''db_family'' [''family''],
          put_flag F ''client_vm_machine_type'' (of_vms ''clients'' cloud_name ''machine_type''),
          only_if client_custom (put (of_vms ''clients'' cloud_name ''machine_type'') (custom_machine F ''client_vm''))])"

definition db_disks :: "flag_values \<Rightarrow> bool \<Rightarrow> string \<Rightarrow> config_step list" where
  "db_disks F unmanaged cloud_name =
     only_if unmanaged (put_flag F ''db_num_striped_disks'' (of_disks ''servers'' cloud_name ''num_striped_disks''))
     # concat (map (\<lambda>(name, k). [put_flag F name [''db_disk_spec'', cloud_name, k],
         only_if unmanaged (put_flag F name (of_disks ''servers'' cloud_name k))])
       [(''db_disk_size'', ''disk_size''), (''db_disk_type'', ''disk_type''),
        (''db_disk_iops'', ''provisioned_iops''), (''db_disk_throughput'', ''provisioned_throughput'')])"

definition other_machine_flags :: "flag_values \<Rightarrow> bool \<Rightarrow> string \<Rightarrow> config_step list" where
  "other_machine_flags F unmanaged cloud_name =
     [put_flag F ''client_vm_os_type'' [''vm_groups'', ''clients'', ''os_type''],
      put_flag F ''server_vm_os_type'' [''vm_groups'', ''servers'', ''os_type''],
      put_flag F ''client_gcp_min_cpu_platform'' (of_vms ''clients'' cloud_name ''min_cpu_platform''),
      put_flag F ''server_gcp_min_cpu_platform'' (of_vms ''servers'' cloud_name ''min_cpu_platform''),
      only_if unmanaged (put_flag F ''server_gce_num_local_ssds'' (of_vms ''servers'' cloud_name ''num_local_ssds'')),
      only_if unmanaged (put_flag F ''server_gce_ssd_interface'' (of_vms ''servers'' cloud_name ''ssd_interface'')),
      only_if unmanaged (put_flag F ''server_gce_ssd_interface'' (of_disks ''servers'' cloud_name ''interface'')),
      put_flag F ''client_vm_disk_size'' (of_disks ''clients'' cloud_name ''disk_size''),
      put_flag F ''client_vm_disk_type'' (of_disks ''clients'' cloud_name ''disk_type''),
      put_flag F ''client_vm_disk_iops'' (of_disks ''clients'' cloud_name ''provisioned_iops'')]"

section \<open>Replicas\<close>

text \<open>The group of the replicas of unmanaged servers becomes a copy of the group of the servers.\<close>

definition has_replicas :: "metadata_dict \<Rightarrow> exn + bool" where
  "has_replicas config = bindE (vm_group_named ''servers_replicas'' config) (\<lambda>b. if \<not> b then Inr False
     else bindE (get_path (VDict config) [''vm_groups'', ''servers_replicas'']) (\<lambda>g.
       bindE (in_value ''vm_count'' g) (\<lambda>b. if \<not> b then Inr False
       else bindE (get_path g [''vm_count'']) (\<lambda>n. case num_value n of
           None \<Rightarrow> Inl (type_error ''> not supported'') | Some x \<Rightarrow> Inr (x > 0)))))"

definition replica_zone :: "flag_values \<Rightarrow> string \<Rightarrow> config_step" where
  "replica_zone F cloud_name config =
     bindE (get_path (VDict config) (of_vms ''servers'' cloud_name ''zone'')) (\<lambda>z.
     bindE (flag_item F ''db_replica_zones'' 0) (\<lambda>z'.
       put_item F ''db_replica_zones'' (if py_eq z z' then 1 else 0) (of_vms ''servers_replicas'' cloud_name ''zone'') config))"

definition copy_servers :: "flag_values \<Rightarrow> string \<Rightarrow> config_step" where
  "copy_servers F cloud_name config =
     bindE (get_path (VDict config) [''vm_groups'', ''servers'']) (\<lambda>g.
     bindE (put [''vm_groups'', ''servers_replicas''] g config)
       (only_if (flag_present F ''db_replica_zones'') (replica_zone F cloud_name)))"

text \<open>\<open>flag_values.zone.clear()\<close>: the list is that of the flag, and also that of the configuration if the zones were
  taken from the flag.  The second result tells whether this happened.\<close>

definition clear_zones :: "flag_values \<Rightarrow> bool \<Rightarrow> metadata_dict \<Rightarrow> exn + metadata_dict \<times> bool" where
  "clear_zones F shared config =
     (if \<not> flag_present F ''zone'' then Inr (config, False)
      else case flag_value F ''zone'' of
        VList _ \<Rightarrow> Inr (if shared then dict_set config ''zones'' (VList []) else config, True)
      | _ \<Rightarrow> Inl (attribute_error ''object has no attribute clear''))"

definition db_steps :: "flag_values \<Rightarrow> bool \<Rightarrow> string \<Rightarrow> config_step list" where
  "db_steps F unmanaged cloud_name = server_zone F unmanaged cloud_name # other_zones F cloud_name
     @ machine_types F unmanaged cloud_name @ db_disks F unmanaged cloud_name @ other_machine_flags F unmanaged cloud_name"

definition RelationalDbSpec_ApplyFlags :: "flag_values \<Rightarrow> metadata_dict \<Rightarrow> exn + metadata_dict \<times> bool" where
  "RelationalDbSpec_ApplyFlags F config =
     bindE (check_machine_flags F) (\<lambda>_.
     let config0 = plain_db_flags F config; cloud_name = string_attr config0 ''cloud'' in
     bindE (has_unmanaged_dbs config0) (\<lambda>unmanaged.
     bindE (steps (db_steps F unmanaged cloud_name) config0) (\<lambda>config1.
     bindE (if unmanaged then has_replicas config1 else Inr False) (\<lambda>replicas.
       if \<not> replicas then Inr (config1, False)
       else bindE (copy_servers F cloud_name config1) (clear_zones F (takes_zone_flag F config0))))))"

definition ALL_ENGINES :: "string list" where
  "ALL_ENGINES =
     [''timescaledb'', ''omni'', ''mariadb'', ''mysql'', ''postgres'', ''aurora-dsql-postgres'', ''aurora-postgresql'',
      ''aurora-mysql'', ''sqlserver'', ''sqlserver-ex'', ''sqlserver-ee'', ''sqlserver-se'', ''spanner-googlesql'',
      ''spanner-postgres'', ''flexible-server-mysql'', ''flexible-server-postgres'', ''alloydb-postgresql'']"

definition RelationalDbSpec_options ::
  "flag_values \<Rightarrow> 'z service_classes_scheme \<Rightarrow> (string \<times> (string option \<Rightarrow> option_decoder)) list" where
  "RelationalDbSpec_options F B = FreezeRestoreSpec_options @
     [one_of ''cloud'' VALID_CLOUDS None, one_of ''engine'' ALL_ENGINES None,
      (''zones'', \<lambda>opt. ListDecoder (StringDecoder False None None) False opt (Some VNone)),
      text_if_given ''engine_version'', text_if_given ''database_name'', text_if_given ''database_password'',
      text_if_given ''database_username'',
      (''high_availability'', \<lambda>opt. BooleanDecoder False opt (Some (VBool False))), text_if_given ''high_availability_type'',
      (''backup_enabled'', \<lambda>opt. BooleanDecoder False opt (Some (VBool True))),
      (''is_managed_db'', \<lambda>opt. BooleanDecoder False opt (Some (VBool True))),
      text_if_given ''family'', text_if_given ''db_tier'',
      (''db_spec'', \<lambda>opt. PerCloudConfigDecoder False opt None), (''db_disk_spec'', \<lambda>opt. PerCloudConfigDecoder False opt None),
      (''vm_groups'', \<lambda>opt. VmGroupsDecoder (Some F) (provider_classes.truncate B) opt (Some (VDict []))),
      (''db_flags'', \<lambda>opt. ListDecoder (StringDecoder False None None) False opt (Some VNone)),
      text_if_given ''load_machine_type'']"

text \<open>The disk and the machine of a database, of the classes of its cloud\<close>

definition db_disk :: "'z service_classes_scheme \<Rightarrow> string \<Rightarrow> string \<Rightarrow> metadata_dict \<Rightarrow> exn + metadata_dict" where
  "db_disk B component cloud_name attrs =
     (case provider_config (opt_get attrs ''db_disk_spec'') cloud_name of
        None \<Rightarrow> Inl (no_config component cloud_name ''.db_disk_spec'')
      | Some d \<Rightarrow> bindE (disk_spec_class B cloud_name (opt_get d ''disk_type'')) (\<lambda>C.
          bindE (new_spec C (component @ ''.db_disk_spec.'' @ cloud_name) d) (\<lambda>s.
            Inr (dict_set attrs ''db_disk_spec'' (VDict s)))))"

definition db_machine :: "'z service_classes_scheme \<Rightarrow> string \<Rightarrow> string \<Rightarrow> metadata_dict \<Rightarrow> exn + metadata_dict" where
  "db_machine B component cloud_name attrs =
     (case provider_config (opt_get attrs ''db_spec'') cloud_name of
        None \<Rightarrow> Inl (no_config component cloud_name ''.db_spec'')
      | Some d \<Rightarrow> bindE (vm_spec_class B cloud_name) (\<lambda>C.
          bindE (new_spec C (component @ ''.db_spec.'' @ cloud_name) d) (\<lambda>s.
            Inr (dict_set attrs ''db_spec'' (VDict s)))))"

definition default_attr :: "string \<Rightarrow> string \<Rightarrow> metadata_dict \<Rightarrow> metadata_dict" where
  "default_attr k s attrs = (if py_true (opt_get attrs k) then attrs else dict_set attrs k (VStr s))"

text \<open>The spec, and the flags afterwards; the password that is made up is a parameter.\<close>

definition new_RelationalDbSpec ::
  "'z service_classes_scheme \<Rightarrow> string \<Rightarrow> string \<Rightarrow> metadata_dict \<Rightarrow> flag_values \<Rightarrow> (exn + metadata_dict) \<times> flag_values" where
  "new_RelationalDbSpec B password component kwargs F =
     (case RelationalDbSpec_ApplyFlags F kwargs of
        Inl e \<Rightarrow> (Inl e, F)
      | Inr (config, cleared) \<Rightarrow>
          let F = (if cleared then F(''zone'' \<mapsto> \<lparr>flag_contents = VList [], present = True\<rparr>) else F)
          in (bindE (new_spec \<lparr>constructions = RelationalDbSpec_options F B, ApplyFlags = None\<rparr> component config) (\<lambda>attrs.
                let cloud_name = string_attr attrs ''cloud'' in
                bindE (LoadProvider B cloud_name) (\<lambda>_.
                bindE (db_disk B component cloud_name attrs) (\<lambda>attrs.
                bindE (db_machine B component cloud_name attrs) (\<lambda>attrs.
                  Inr (default_attr ''database_password'' password
                    (default_attr ''database_username'' (''pkb'' @ run_uri_of F)
                    (default_attr ''database_name'' (''pkb-db-'' @ run_uri_of F) attrs))))))), F))"

section \<open>What steps keep\<close>

declare get_path.simps(2) [simp del] put.simps(3) [simp del]

lemma get_put_same: "put p x d = Inr d' \<Longrightarrow> p \<noteq> [] \<Longrightarrow> get_path (VDict d') p = Inr x"
proof (induction p x d arbitrary: d' rule: put.induct)
  case (3 k k' ks x d)
  obtain d1 d2 where d: "map_of d k = Some (VDict d1)" "put (k' # ks) x d1 = Inr d2" "d' = dict_set d k (VDict d2)"
    using 3(2) by (auto simp: put.simps(3) bindE_Inr split: option.splits pyval.splits)
  have "get_path (VDict d2) (k' # ks) = Inr x" by (rule 3(1) [OF d(1) refl d(2)]) simp
  then show ?case by (simp add: d(3) get_path.simps(2) [of _ k])
qed (auto simp: get_path.simps(2))

lemma get_put_other:
  "put p x d = Inr d' \<Longrightarrow> \<not> prefix p q \<Longrightarrow> \<not> prefix q p \<Longrightarrow> get_path (VDict d') q = get_path (VDict d) q"
proof (induction p x d arbitrary: d' q rule: put.induct)
  case (2 k x d)
  then show ?case by (cases q) (auto simp: get_path.simps(2))
next
  case (3 k k' ks x d)
  obtain d1 d2 where d: "map_of d k = Some (VDict d1)" "put (k' # ks) x d1 = Inr d2" "d' = dict_set d k (VDict d2)"
    using 3(2) by (auto simp: put.simps(3) bindE_Inr split: option.splits pyval.splits)
  show ?case
  proof (cases q)
    case (Cons k2 q')
    show ?thesis
    proof (cases "k2 = k")
      case True
      with 3(3,4) Cons have "\<not> prefix (k' # ks) q'" "\<not> prefix q' (k' # ks)" by auto
      from 3(1) [OF d(1) refl d(2) this] show ?thesis using d Cons True by (simp add: get_path.simps(2) [of _ k])
    next
      case False
      with d Cons show ?thesis by (simp add: get_path.simps(2))
    qed
  qed (use 3(4) in simp)
qed simp

text \<open>A step that does not change what is at a place\<close>

definition untouched :: "string list \<Rightarrow> config_step \<Rightarrow> bool" where
  "untouched q f \<longleftrightarrow> (\<forall>d d'. f d = Inr d' \<longrightarrow> get_path (VDict d') q = get_path (VDict d) q)"

named_theorems untouched_intros \<open>steps that do not change what is at a place\<close>

lemma untouched_put [untouched_intros]: "\<not> prefix p q \<Longrightarrow> \<not> prefix q p \<Longrightarrow> untouched q (put p x)"
  by (auto simp: untouched_def dest: get_put_other)

lemma untouched_only_if [untouched_intros]: "(b \<Longrightarrow> untouched q f) \<Longrightarrow> untouched q (only_if b f)"
  by (auto simp: untouched_def only_if_def)

lemma untouched_only_ifE [untouched_intros]: "untouched q f \<Longrightarrow> untouched q (only_ifE c f)"
  by (auto simp: untouched_def only_ifE_def bindE_Inr split: if_splits)

lemma untouched_put_flag [untouched_intros]:
  "\<not> prefix p q \<Longrightarrow> \<not> prefix q p \<Longrightarrow> untouched q (put_flag F name p)"
  unfolding put_flag_def by (intro untouched_intros)

lemma untouched_put_item [untouched_intros]:
  "\<not> prefix p q \<Longrightarrow> \<not> prefix q p \<Longrightarrow> untouched q (put_item F name i p)"
  by (auto simp: untouched_def put_item_def bindE_Inr dest: get_put_other)

lemma untouched_need [untouched_intros]: "untouched q need_vm_groups"
  by (auto simp: untouched_def need_vm_groups_def split: if_splits)

lemma untouched_if [untouched_intros]: "untouched q f \<Longrightarrow> untouched q g \<Longrightarrow> untouched q (if b then f else g)"
  by simp

lemma untouchedD: "untouched q f \<Longrightarrow> f d = Inr d' \<Longrightarrow> get_path (VDict d') q = get_path (VDict d) q"
  by (simp add: untouched_def)

lemma untouched_steps [untouched_intros]: "list_all (untouched q) fs \<Longrightarrow> untouched q (steps fs)"
proof (induction fs)
  case (Cons f fs)
  have "untouched q f" "untouched q (steps fs)" using Cons by simp_all
  then show ?case unfolding untouched_def [of q "steps (f # fs)"]
    by (auto simp: bindE_Inr simp del: get_path.simps intro: untouchedD [THEN trans] untouchedD)
qed (simp add: untouched_def)

lemma steps_append: "steps (fs @ gs) config = bindE (steps fs config) (steps gs)"
  by (induction fs arbitrary: config) (simp_all add: bindE_def split: sum.split)

text \<open>The zone of the database and the list of zones are set once.\<close>

lemma later_steps:
  assumes "q \<in> {[''db_spec'', c, ''zone''], [''zones'']}"
  shows "list_all (untouched q) (other_zones F c @ machine_types F u c @ db_disks F u c @ other_machine_flags F u c)"
proof -
  have hd: "\<not> prefix p q \<and> \<not> prefix q p" if "p \<noteq> []" "hd p \<notin> {''db_spec'', ''zones''}" for p
    using assms that by (cases p) auto
  have machine: "\<not> prefix (''db_spec'' # c # ''machine_type'' # r) q \<and> \<not> prefix q (''db_spec'' # c # ''machine_type'' # r)" for r
    using assms by auto
  have "\<not> prefix p q \<and> \<not> prefix q p"
    if "p \<noteq> []" "hd p \<notin> {''db_spec'', ''zones''} \<or> (\<exists>r. p = ''db_spec'' # c # ''machine_type'' # r)" for p
    using hd [of p] machine that by blast
  then have p: "untouched q (put p x)" "untouched q (put_flag F name p)" "untouched q (put_item F name i p)"
    if "p \<noteq> []" "hd p \<notin> {''db_spec'', ''zones''} \<or> (\<exists>r. p = ''db_spec'' # c # ''machine_type'' # r)" for p x name i
    using that by (blast intro: untouched_put untouched_put_flag untouched_put_item)+
  show ?thesis
    by (simp add: other_zones_def machine_types_def db_disks_def other_machine_flags_def of_vms_def of_disks_def Let_def
        p untouched_only_if untouched_only_ifE untouched_need untouched_steps)
qed

lemma server_zone_from_Inr:
  assumes "server_zone_from F u c name config = Inr config'"
  shows "\<exists>z. flag_item F name 0 = Inr z \<and> get_path (VDict config') [''db_spec'', c, ''zone''] = Inr z
    \<and> get_path (VDict config') [''zones''] = Inr (flag_value F name)"
proof -
  obtain z c1 c2 where z: "flag_item F name 0 = Inr z" "put [''db_spec'', c, ''zone''] z config = Inr c1"
    and c2: "put [''zones''] (flag_value F name) c1 = Inr c2"
    and c3: "only_if u (put_item F name 0 (of_vms ''servers'' c ''zone'')) c2 = Inr config'"
    using assms by (auto simp: server_zone_from_def put_item_def bindE_Inr)
  have u: "untouched q (only_if u (put_item F name 0 (of_vms ''servers'' c ''zone'')))"
    if "q \<in> {[''db_spec'', c, ''zone''], [''zones'']}" for q
    using that by (auto simp: of_vms_def intro!: untouched_intros)
  have "get_path (VDict c1) [''db_spec'', c, ''zone''] = Inr z" by (rule get_put_same [OF z(2)]) simp
  moreover have "get_path (VDict c2) [''db_spec'', c, ''zone''] = get_path (VDict c1) [''db_spec'', c, ''zone'']"
    by (rule get_put_other [OF c2]) simp_all
  moreover have "get_path (VDict c2) [''zones''] = Inr (flag_value F name)" by (rule get_put_same [OF c2]) simp
  ultimately show ?thesis
    using z(1) untouchedD [OF u c3, of "[''db_spec'', c, ''zone'']"] untouchedD [OF u c3, of "[''zones'']"] by simp
qed

lemma untouched_copy_servers: "q \<noteq> [] \<Longrightarrow> hd q \<noteq> ''vm_groups'' \<Longrightarrow> untouched q (copy_servers F c)"
proof -
  assume q: "q \<noteq> []" "hd q \<noteq> ''vm_groups''"
  then have p: "\<not> prefix (''vm_groups'' # r) q" "\<not> prefix q (''vm_groups'' # r)" for r by (cases q; simp)+
  have "untouched q (replica_zone F c)"
    using p by (auto simp: untouched_def replica_zone_def put_item_def of_vms_def bindE_Inr dest!: get_put_other)
  then show "untouched q (copy_servers F c)"
    using p untouched_only_if [of "flag_present F ''db_replica_zones''" q "replica_zone F c"]
    by (auto simp: untouched_def copy_servers_def bindE_Inr dest!: get_put_other)
qed

lemma clear_zones_Inr:
  assumes "clear_zones F shared config = Inr (config', cleared)"
  shows "get_path (VDict config') [''db_spec'', c, ''zone''] = get_path (VDict config) [''db_spec'', c, ''zone'']"
    and "get_path (VDict config') [''zones''] = (if cleared \<and> shared then Inr (VList []) else get_path (VDict config) [''zones''])"
    and "cleared = flag_present F ''zone''"
  using assms by (auto simp: clear_zones_def get_path.simps(2) split: if_splits pyval.splits)

lemma db_steps_zone:
  assumes "steps (db_steps F u c) config0 = Inr config1" and "flag_present F ''db_zone'' \<or> takes_zone_flag F config0"
  defines "name \<equiv> (if flag_present F ''db_zone'' then ''db_zone'' else ''zone'')"
  shows "\<exists>z. flag_item F name 0 = Inr z \<and> get_path (VDict config1) [''db_spec'', c, ''zone''] = Inr z
    \<and> get_path (VDict config1) [''zones''] = Inr (flag_value F name)"
proof -
  let ?rest = "other_zones F c @ machine_types F u c @ db_disks F u c @ other_machine_flags F u c"
  obtain c1 where c1: "server_zone F u c config0 = Inr c1" "steps ?rest c1 = Inr config1"
    using assms(1) by (auto simp: db_steps_def bindE_Inr)
  have "server_zone_from F u c name config0 = Inr c1"
    using c1(1) assms(2) by (auto simp: server_zone_def name_def)
  from server_zone_from_Inr [OF this] obtain z where z: "flag_item F name 0 = Inr z"
    "get_path (VDict c1) [''db_spec'', c, ''zone''] = Inr z" "get_path (VDict c1) [''zones''] = Inr (flag_value F name)" by blast
  have "get_path (VDict config1) q = get_path (VDict c1) q" if "q \<in> {[''db_spec'', c, ''zone''], [''zones'']}" for q
    by (rule untouchedD [OF untouched_steps [OF later_steps [OF that]] c1(2)])
  with z show ?thesis by simp
qed

lemma RelationalDbSpec_ApplyFlags_Inr:
  assumes "RelationalDbSpec_ApplyFlags F config = Inr (config', cleared)"
  shows "\<exists>config0 c u config1. config0 = plain_db_flags F config \<and> c = string_attr config0 ''cloud''
    \<and> has_unmanaged_dbs config0 = Inr u \<and> steps (db_steps F u c) config0 = Inr config1
    \<and> (cleared = False \<and> config' = config1
       \<or> (\<exists>config2. copy_servers F c config1 = Inr config2
         \<and> clear_zones F (takes_zone_flag F config0) config2 = Inr (config', cleared)))"
  using assms by (auto simp: RelationalDbSpec_ApplyFlags_def Let_def bindE_Inr split: if_splits)

text \<open>Without zones of their own the replicas are a copy of the servers; and making them empties the flag \<open>zone\<close> of the
  whole run.\<close>

lemma replicas_copied:
  assumes "copy_servers F c config = Inr config'" and "\<not> flag_present F ''db_replica_zones''"
  shows "get_path (VDict config') [''vm_groups'', ''servers_replicas''] = get_path (VDict config) [''vm_groups'', ''servers'']"
  using assms by (auto simp: copy_servers_def only_if_def bindE_Inr dest!: get_put_same)

lemma relational_db_clears_zone_flag:
  "RelationalDbSpec_ApplyFlags F kwargs = Inr (config, True) \<Longrightarrow>
   snd (new_RelationalDbSpec B password component kwargs F) ''zone'' = Some \<lparr>flag_contents = VList [], present = True\<rparr>"
  by (simp add: new_RelationalDbSpec_def Let_def)

section \<open>Properties\<close>

text \<open>C39: The zones of a relational database: if the flags give a zone to its servers, the flag db_zone goes before
  the flag zone, the first of the zones is that of the machine of the database whatever other flags are given, and
  the list of zones is the whole flag, but is empty if it was taken from the flag zone and the replicas have been made.\<close>

theorem relational_db_zones:
  assumes "RelationalDbSpec_ApplyFlags F config = Inr (config', cleared)"
    and "flag_present F ''db_zone'' \<or> takes_zone_flag F (plain_db_flags F config)"
  defines "name \<equiv> (if flag_present F ''db_zone'' then ''db_zone'' else ''zone'')"
  shows "\<exists>z. flag_item F name 0 = Inr z
    \<and> get_path (VDict config') [''db_spec'', string_attr (plain_db_flags F config) ''cloud'', ''zone''] = Inr z
    \<and> get_path (VDict config') [''zones'']
        = Inr (if cleared \<and> \<not> flag_present F ''db_zone'' then VList [] else flag_value F name)"
proof -
  let ?c = "string_attr (plain_db_flags F config) ''cloud''" and ?shared = "takes_zone_flag F (plain_db_flags F config)"
  obtain u config1 where c1: "steps (db_steps F u ?c) (plain_db_flags F config) = Inr config1"
    and c2: "cleared = False \<and> config' = config1 \<or> (\<exists>config2. copy_servers F ?c config1 = Inr config2
       \<and> clear_zones F ?shared config2 = Inr (config', cleared))"
    using RelationalDbSpec_ApplyFlags_Inr [OF assms(1)] by auto
  obtain z where z: "flag_item F name 0 = Inr z" "get_path (VDict config1) [''db_spec'', ?c, ''zone''] = Inr z"
    "get_path (VDict config1) [''zones''] = Inr (flag_value F name)"
    using db_steps_zone [OF c1 assms(2)] unfolding name_def by blast
  from c2 show ?thesis
  proof
    assume "cleared = False \<and> config' = config1"
    with z show ?thesis by simp
  next
    assume "\<exists>config2. copy_servers F ?c config1 = Inr config2 \<and> clear_zones F ?shared config2 = Inr (config', cleared)"
    then obtain config2 where copy: "copy_servers F ?c config1 = Inr config2"
      and clear: "clear_zones F ?shared config2 = Inr (config', cleared)" by blast
    have same: "get_path (VDict config2) q = get_path (VDict config1) q"
      if "q \<in> {[''db_spec'', ?c, ''zone''], [''zones'']}" for q
      by (rule untouchedD [OF untouched_copy_servers copy]) (use that in auto)
    have "?shared = (\<not> flag_present F ''db_zone'')" using assms(2) by (auto simp: takes_zone_flag_def)
    with z same clear_zones_Inr [OF clear] show ?thesis by auto
  qed
qed

text \<open>A configuration with a server and a replica, and the zones of the flag\<close>

definition db_flags_example :: flag_values where
  "db_flags_example = [''cloud'' \<mapsto> \<lparr>flag_contents = VStr ''GCP'', present = False\<rparr>,
     ''zone'' \<mapsto> \<lparr>flag_contents = VList [VStr ''a'', VStr ''b''], present = True\<rparr>]"

definition db_config_example :: metadata_dict where
  "db_config_example =
     [(''cloud'', VStr ''GCP''), (''db_spec'', VDict [(''GCP'', VDict [])]), (''zones'', VList []),
      (''vm_groups'', VDict
        [(''servers'', VDict [(''vm_spec'', VDict [(''GCP'', VDict [])])]),
         (''servers_replicas'', VDict [(''vm_spec'', VDict [(''GCP'', VDict [])]), (''vm_count'', VInt 1)])])]"

lemmas db_example_defs = db_flags_example_def db_config_example_def RelationalDbSpec_ApplyFlags_def check_machine_flags_def
  plain_db_flags_def flag_or_config_def flag_present_def flag_value_def string_attr_def has_unmanaged_dbs_def vm_group_named_def
  in_value_def has_key_def db_steps_def server_zone_def takes_zone_flag_def server_zone_from_def put_item_def flag_item_def
  only_if_def of_vms_def of_disks_def other_zones_def put_flag_def only_ifE_def machine_types_def db_disks_def
  other_machine_flags_def has_replicas_def copy_servers_def clear_zones_def get_path.simps put.simps Let_def num_value_def
  int_value_def

lemma db_example:
  "\<exists>config'. RelationalDbSpec_ApplyFlags db_flags_example db_config_example = Inr (config', True)"
  by (simp add: db_example_defs)

theorem relational_db_zones_witness:
  "\<exists>config'. RelationalDbSpec_ApplyFlags db_flags_example db_config_example = Inr (config', True)
     \<and> get_path (VDict config') [''db_spec'', ''GCP'', ''zone''] = Inr (VStr ''a'')
     \<and> get_path (VDict config') [''zones''] = Inr (VList [])"
proof -
  obtain config' where c: "RelationalDbSpec_ApplyFlags db_flags_example db_config_example = Inr (config', True)"
    using db_example by blast
  have "takes_zone_flag db_flags_example (plain_db_flags db_flags_example db_config_example)"
    by (simp add: db_example_defs)
  then have "flag_present db_flags_example ''db_zone''
      \<or> takes_zone_flag db_flags_example (plain_db_flags db_flags_example db_config_example)" by simp
  from relational_db_zones [OF c this] have "\<exists>z. flag_item db_flags_example ''zone'' 0 = Inr z
      \<and> get_path (VDict config') [''db_spec'', ''GCP'', ''zone''] = Inr z \<and> get_path (VDict config') [''zones''] = Inr (VList [])"
    by (simp add: flag_present_def db_flags_example_def db_config_example_def plain_db_flags_def flag_or_config_def
        string_attr_def)
  then show ?thesis using c by (simp add: flag_item_def flag_value_def db_flags_example_def)
qed

end
