(* ===== verification/Publishers.thy ===== *)
theory Publishers
  imports Collector Decoders
begin

text \<open>
  The rest of \<open>perfkitbenchmarker/publisher.py\<close>: the metadata that is added to samples, and what the
  publishers write.  \<open>Collector\<close> has the collector that calls them.

  A publisher of a file gives the text that it writes; a publisher that runs a command gives the command.  The
  text of a float, a list or a dictionary is a parameter \<open>R\<close> (Python's \<open>repr\<close>); letters are those of ASCII.  The
  metadata of resources, which the resources compute, are fields of the view of the benchmark spec.
\<close>

section \<open>Values\<close>

text \<open>\<open>str(v)\<close>\<close>

type_synonym value_text = "pyval \<Rightarrow> string"

definition py_str :: "value_text \<Rightarrow> pyval \<Rightarrow> string" where
  "py_str R v = (case v of
     VStr s \<Rightarrow> s
   | VNone \<Rightarrow> ''None''
   | VBool b \<Rightarrow> if b then ''True'' else ''False''
   | VInt n \<Rightarrow> str_of_int n
   | _ \<Rightarrow> R v)"

text \<open>\<open>a == b\<close>, also inside lists and dictionaries: numbers of different types may be equal, and the order of the
  keys is not looked at.\<close>

fun canonical :: "pyval \<Rightarrow> pyval" where
  "canonical (VBool b) = VNum (if b then 1 else 0)"
| "canonical (VInt n) = VNum (of_int n)"
| "canonical (VList vs) = VList (map canonical vs)"
| "canonical (VDict d) = VDict (sort_key fst (map (\<lambda>(k, v). (k, canonical v)) d))"
| "canonical v = v"

definition same_value :: "pyval \<Rightarrow> pyval \<Rightarrow> bool" where
  "same_value a b = (canonical a = canonical b)"

text \<open>Lists and dictionaries have no hash.\<close>

definition hashable :: "pyval \<Rightarrow> bool" where
  "hashable v = (case v of VList _ \<Rightarrow> False | VDict _ \<Rightarrow> False | _ \<Rightarrow> True)"

definition py_upper :: "string \<Rightarrow> string" where
  "py_upper = map (\<lambda>c. if of_char c \<in> {97..122::nat} then char_of (of_char c - 32 :: nat) else c)"

definition py_lower :: "string \<Rightarrow> string" where
  "py_lower = map (\<lambda>c. if of_char c \<in> {65..90::nat} then char_of (of_char c + 32 :: nat) else c)"

section \<open>Labels\<close>

definition GetLabelsFromDict :: "value_text \<Rightarrow> metadata_dict \<Rightarrow> string" where
  "GetLabelsFromDict R metadata =
     str_join '','' (map (\<lambda>(k, v). ''|'' @ k @ '':'' @ py_str R v @ ''|'') (sort_key fst metadata))"

text \<open>\<open>s[1:-1]\<close> and \<open>s.split('|,|')\<close>\<close>

definition cut_ends :: "string \<Rightarrow> string" where
  "cut_ends s = butlast (tl s)"

fun split_labels :: "string \<Rightarrow> string list" where
  "split_labels [] = [[]]"
| "split_labels (c # cs) = (if take 3 (c # cs) = ''|,|'' then [] # split_labels (drop 2 cs)
     else (case split_labels cs of [] \<Rightarrow> [[c]] | y # ys \<Rightarrow> (c # y) # ys))"

definition LabelsToDict :: "string \<Rightarrow> exn + (string \<times> string) list" where
  "LabelsToDict labels_str =
     bindE (mapE (\<lambda>e. case split_pair e of
         None \<Rightarrow> Inl (exn (Builtin ValueError) ''not enough values to unpack (expected 2, got 1)'')
       | Some kv \<Rightarrow> Inr kv) (split_labels (cut_ends labels_str)))
     (\<lambda>split_entries. Inr (dict_update [] split_entries))"

text \<open>A sample that was read from a file: its labels become its metadata again.\<close>

definition republish_sample :: "metadata_dict \<Rightarrow> exn + metadata_dict" where
  "republish_sample sample = (case map_of sample ''labels'' of
     None \<Rightarrow> Inl (missing_key ''labels'')
   | Some (VStr labels) \<Rightarrow> bindE (LabelsToDict labels) (\<lambda>md. Inr (dict_set
       (filter (\<lambda>(k, _). k \<noteq> ''labels'') sample) ''metadata'' (VDict (map (\<lambda>(k, v). (k, VStr v)) md))))
   | Some (VList _) \<Rightarrow> Inl (exn (Builtin AttributeError) ''list object has no attribute split'')
   | Some _ \<Rightarrow> Inl (exn (Builtin TypeError) ''object is not subscriptable by a slice''))"

definition RepublishJSONSamples :: "metadata_dict list \<Rightarrow> exn + metadata_dict list" where
  "RepublishJSONSamples = mapE republish_sample"

section \<open>Files\<close>

text \<open>\<open>json.dumps\<close>\<close>

definition hex_digit :: "nat \<Rightarrow> char" where
  "hex_digit n = ''0123456789abcdef'' ! n"

definition json_char :: "char \<Rightarrow> string" where
  "json_char c = (let n = of_char c :: nat in
     if n = 34 \<or> n = 92 then [CHR 0x5C, c]
     else if n = 10 then [CHR 0x5C, CHR ''n''] else if n = 13 then [CHR 0x5C, CHR ''r'']
     else if n = 9 then [CHR 0x5C, CHR ''t''] else if n = 8 then [CHR 0x5C, CHR ''b'']
     else if n = 12 then [CHR 0x5C, CHR ''f''] else if 32 \<le> n \<and> n \<le> 126 then [c]
     else [CHR 0x5C, CHR ''u'', CHR ''0'', CHR ''0'', hex_digit (n div 16), hex_digit (n mod 16)])"

definition json_string :: "string \<Rightarrow> string" where
  "json_string s = [CHR 0x22] @ concat (map json_char s) @ [CHR 0x22]"

fun json_dumps :: "value_text \<Rightarrow> pyval \<Rightarrow> string" where
  "json_dumps R VNone = ''null''"
| "json_dumps R (VBool b) = (if b then ''true'' else ''false'')"
| "json_dumps R (VInt n) = str_of_int n"
| "json_dumps R (VNum x) = R (VNum x)"
| "json_dumps R (VStr s) = json_string s"
| "json_dumps R (VList vs) = ''['' @ str_join '', '' (map (json_dumps R) vs) @ '']''"
| "json_dumps R (VDict d) = ''{'' @ str_join '', '' (map (\<lambda>(k, v). json_string k @ '': '' @ json_dumps R v) d) @ ''}''"

definition json_sample :: "value_text \<Rightarrow> bool \<Rightarrow> sample_dict \<Rightarrow> metadata_dict" where
  "json_sample R collapse_labels s = (if collapse_labels
     then filter (\<lambda>(k, _). k \<noteq> ''metadata'') (as_dict s)
       @ [(''labels'', VStr (GetLabelsFromDict R (sample_metadata (sd_sample s))))]
     else as_dict s)"

text \<open>What is in the file afterwards\<close>

definition NewlineDelimitedJSON_file :: "value_text \<Rightarrow> string \<Rightarrow> bool \<Rightarrow> sample_dict list \<Rightarrow> string \<Rightarrow> string" where
  "NewlineDelimitedJSON_file R mode collapse_labels ss before = (if mode = ''a'' then before else [])
     @ concat (map (\<lambda>s. json_dumps R (VDict (json_sample R collapse_labels s)) @ [CHR 0x0A]) ss)"

text \<open>CSV: the fields, then all keys of metadata\<close>

definition DEFAULT_FIELDS :: "string list" where
  "DEFAULT_FIELDS = [''timestamp'', ''test'', ''metric'', ''value'', ''unit'', ''product_name'', ''official'', ''owner'',
     ''run_uri'', ''sample_uri'']"

definition csv_fields :: "sample_dict list \<Rightarrow> string list" where
  "csv_fields ss = DEFAULT_FIELDS @ sort (remdups (concat (map (\<lambda>s. map fst (sample_metadata (sd_sample s))) ss)))"

definition csv_dict :: "sample_dict \<Rightarrow> metadata_dict" where
  "csv_dict s = dict_update (filter (\<lambda>(k, _). k \<noteq> ''metadata'') (as_dict s)) (sample_metadata (sd_sample s))"

definition csv_row :: "value_text \<Rightarrow> string list \<Rightarrow> sample_dict \<Rightarrow> string list" where
  "csv_row R fieldnames s = map (\<lambda>f. case map_of (csv_dict s) f of
     None \<Rightarrow> [] | Some VNone \<Rightarrow> [] | Some v \<Rightarrow> py_str R v) fieldnames"

text \<open>\<open>csv.writer\<close> with its default dialect\<close>

definition csv_text :: "string \<Rightarrow> string" where
  "csv_text t = (if set t \<inter> {CHR '','', CHR 0x22, CHR 0x0A, CHR 0x0D} = {} then t
     else [CHR 0x22] @ concat (map (\<lambda>c. if c = CHR 0x22 then [c, c] else [c]) t) @ [CHR 0x22])"

definition csv_line :: "string list \<Rightarrow> string" where
  "csv_line ts = str_join '','' (map csv_text ts) @ [CHR 0x0D, CHR 0x0A]"

definition CSV_file :: "value_text \<Rightarrow> sample_dict list \<Rightarrow> string" where
  "CSV_file R ss = concat (map csv_line (csv_fields ss # map (csv_row R (csv_fields ss)) ss))"

text \<open>InfluxDB: a line for each sample\<close>

definition FormatToKeyValue :: "value_text \<Rightarrow> metadata_dict \<Rightarrow> string list" where
  "FormatToKeyValue R d = map (\<lambda>(k, v).
     let t = (if v = VStr [] then [CHR 0x5C, CHR 0x22, CHR 0x5C, CHR 0x22] else py_str R v);
         t = concat (map (\<lambda>c. if c = CHR '','' then [CHR 0x5C, c] else [c]) t)
     in k @ ''='' @ concat (map (\<lambda>c. if c = CHR '' '' then [CHR 0x5C, c] else [c]) t)) d"

definition TAG_KEYS :: "string list" where
  "TAG_KEYS = [''test'', ''official'', ''owner'', ''run_uri'', ''sample_uri'', ''metric'', ''unit'', ''product_name'']"

definition ConstructSample :: "value_text \<Rightarrow> string \<Rightarrow> sample_dict \<Rightarrow> string" where
  "ConstructSample R flag_product s =
     (let d = as_dict (s\<lparr>product_name := flag_product\<rparr>);
          tags = List.map_filter (\<lambda>k. map_option (\<lambda>v. (k, v)) (map_of d k)) TAG_KEYS;
          metadata = sample_metadata (sd_sample s);
          tag_set = str_join '','' (FormatToKeyValue R tags)
            @ (if metadata = [] then [] else '','' @ str_join '','' (FormatToKeyValue R metadata))
      in ''perfkitbenchmarker,'' @ tag_set @ '' value='' @ R (VNum (sample_value (sd_sample s))) @ '' ''
         @ str_of_int (py_int (10 ^ 9 * timestamp (sd_sample s))))"

definition InfluxDB_body :: "value_text \<Rightarrow> string \<Rightarrow> sample_dict list \<Rightarrow> string" where
  "InfluxDB_body R flag_product ss = str_join [CHR 0x0A] (map (ConstructSample R flag_product) ss)"

section \<open>Default metadata\<close>

text \<open>What the provider looks at: \<open>GetResourceMetadata()\<close>, \<open>GetOSResourceMetadata()\<close> and scratch disks of machines,
  the resources of the spec that are there, and flags\<close>

record vm_view =
  hostname :: string
  resource_metadata :: metadata_dict
  os_metadata :: metadata_dict
  disk_metadata :: "metadata_dict list"

record spec_view =
  container_cluster_of :: "metadata_dict option"
  relational_db_of :: "metadata_dict option"
  pinecone_of :: "metadata_dict option"
  vvs_of :: "metadata_dict option"
  memory_store_of :: "metadata_dict option"
  tpu_groups_of :: "(string \<times> metadata_dict) list"
  vm_groups_of :: "(string \<times> vm_view list) list"
  vms_of :: "vm_view list"

record metadata_flags =
  simulate_maintenance :: bool
  hostname_metadata :: bool
  set_files :: "string list"
  sysctl :: "string list"
  metadata_flag :: "string list"
  throw_on_metadata_conflict :: bool
  pkb_version :: string

definition VM_METADATA_TO_LIST_PLURAL :: "(string \<times> string) list" where
  "VM_METADATA_TO_LIST_PLURAL = [(''id'', ''ids''), (''name'', ''names''), (''ip_address'', ''ip_addresses'')]"

definition with_prefix :: "string \<Rightarrow> metadata_dict \<Rightarrow> metadata_dict" where
  "with_prefix p = map (\<lambda>(k, v). (p @ k, v))"

definition set_if :: "bool \<Rightarrow> string \<Rightarrow> pyval \<Rightarrow> metadata_dict \<Rightarrow> metadata_dict" where
  "set_if b k v d = (if b then dict_set d k v else d)"

definition add_resource :: "string \<Rightarrow> metadata_dict option \<Rightarrow> metadata_dict \<Rightarrow> metadata_dict" where
  "add_resource p r d = (case r of None \<Rightarrow> d | Some m \<Rightarrow> dict_update d (with_prefix p m))"

definition flags_and_resources :: "metadata_flags \<Rightarrow> spec_view \<Rightarrow> metadata_dict" where
  "flags_and_resources F spec =
     (let d = [(''perfkitbenchmarker_version'', VStr (pkb_version F))];
          d = set_if (simulate_maintenance F) ''simulate_maintenance'' (VBool True) d;
          d = set_if (hostname_metadata F) ''hostnames'' (VStr (str_join '','' (map hostname (vms_of spec)))) d;
          d = add_resource ''container_cluster_'' (container_cluster_of spec) d;
          d = add_resource ''managed_relational_db_'' (relational_db_of spec) d;
          d = add_resource ''pinecone_'' (pinecone_of spec) d;
          d = add_resource [] (memory_store_of spec) d
      in foldl (\<lambda>d (_, m). dict_update d (with_prefix ''tpu_'' m)) d (tpu_groups_of spec))"

text \<open>The last machine of a group stands for all of them.\<close>

definition group_metadata :: "metadata_dict \<Rightarrow> string \<times> vm_view list \<Rightarrow> metadata_dict" where
  "group_metadata d = (\<lambda>(name, machines). if machines = [] then d else
     let vm = last machines;
         p = (if name = ''default'' then [] else name @ ''_'');
         d = dict_update d (with_prefix p
           (filter (\<lambda>(k, _). map_of VM_METADATA_TO_LIST_PLURAL k = None) (resource_metadata vm)));
         d = dict_set d (p @ ''vm_count'') (VInt (int (length machines)));
         d = dict_update d (with_prefix p (os_metadata vm))
     in case disk_metadata vm of
          [] \<Rightarrow> d
        | disk # disks \<Rightarrow> dict_update (dict_set d (p @ ''data_disk_count'') (VInt (int (Suc (length disks)))))
            (with_prefix (p @ ''data_disk_0_'') disk))"

text \<open>The values of a key of all machines, joined by commas: they have to be texts.\<close>

definition join_values :: "pyval list \<Rightarrow> exn + string" where
  "join_values vs = bindE (mapE (\<lambda>v. case v of VStr s \<Rightarrow> Inr s
     | _ \<Rightarrow> Inl (exn (Builtin TypeError) ''sequence item: expected str instance'')) vs) (\<lambda>ss. Inr (str_join '','' ss))"

fun list_metadata :: "string \<Rightarrow> vm_view list \<Rightarrow> (string \<times> string) list \<Rightarrow> metadata_dict \<Rightarrow> exn + metadata_dict" where
  "list_metadata p machines [] d = Inr d"
| "list_metadata p machines ((key, key_plural) # keys) d =
     (let vs = filter truth (List.map_filter (\<lambda>vm. map_of (resource_metadata vm) key) machines)
      in if vs = [] then list_metadata p machines keys d
         else bindE (join_values vs) (\<lambda>s. list_metadata p machines keys (dict_set d (p @ key_plural) (VStr s))))"

fun all_list_metadata :: "(string option \<times> vm_view list) list \<Rightarrow> metadata_dict \<Rightarrow> exn + metadata_dict" where
  "all_list_metadata [] d = Inr d"
| "all_list_metadata ((g, machines) # gs) d =
     (let p = (case g of None \<Rightarrow> [] | Some [] \<Rightarrow> [] | Some name \<Rightarrow> name @ ''_'') @ ''vm_''
      in bindE (list_metadata p machines VM_METADATA_TO_LIST_PLURAL d) (all_list_metadata gs))"

definition default_metadata :: "metadata_flags \<Rightarrow> spec_view \<Rightarrow> exn + metadata_dict" where
  "default_metadata F spec =
     bindE (all_list_metadata (map (\<lambda>(g, machines). (Some g, machines)) (vm_groups_of spec) @ [(None, vms_of spec)])
         (foldl group_metadata (flags_and_resources F spec) (vm_groups_of spec))) (\<lambda>d.
       Inr (set_if (sysctl F \<noteq> []) ''sysctl'' (VStr (str_join '','' (sysctl F)))
         (set_if (set_files F \<noteq> []) ''set_files'' (VStr (str_join '','' (set_files F))) d)))"

text \<open>The metadata of a vector search goes straight to the metadata of the sample.\<close>

definition sample_side :: "spec_view \<Rightarrow> metadata_dict \<Rightarrow> metadata_dict" where
  "sample_side spec metadata = add_resource ''vvs_'' (vvs_of spec) metadata"

definition conflicts :: "metadata_dict \<Rightarrow> metadata_dict \<Rightarrow> string list" where
  "conflicts new old = filter (\<lambda>k. case (map_of new k, map_of old k) of
       (Some v, Some w) \<Rightarrow> \<not> same_value v w | _ \<Rightarrow> False) (map fst new)"

definition AddMetadata :: "metadata_flags \<Rightarrow> spec_view \<Rightarrow> metadata_dict \<Rightarrow> exn + metadata_dict" where
  "AddMetadata F spec metadata =
     (let metadata = sample_side spec metadata
      in bindE (default_metadata F spec) (\<lambda>new_metadata.
        if throw_on_metadata_conflict F \<and> conflicts new_metadata metadata \<noteq> []
        then Inl (exn (Builtin ValueError) (''Conflicting keys are already set in metadata: ''
          @ str_join '', '' (conflicts new_metadata metadata)))
        else Inr (dict_update (dict_update new_metadata metadata)
          (map (\<lambda>(k, v). (k, VStr v)) (ParseKeyValuePairs (metadata_flag F))))))"

section \<open>Text for the console\<close>

text \<open>The values of a key, without repetitions, and no more than two of them\<close>

definition note_value :: "(string \<times> pyval list) list \<Rightarrow> string \<times> pyval \<Rightarrow> (string \<times> pyval list) list" where
  "note_value unique = (\<lambda>(k, v).
     let vs = (case map_of unique k of None \<Rightarrow> [] | Some vs \<Rightarrow> vs)
     in dict_set unique k (if length vs < 2 \<and> hashable v \<and> \<not> list_ex (same_value v) vs then vs @ [v] else vs))"

text \<open>A key that a sample does not have gets the value None there.\<close>

definition note_missing :: "(string \<times> pyval list) list \<Rightarrow> metadata_dict \<Rightarrow> (string \<times> pyval list) list" where
  "note_missing unique metadata = map (\<lambda>(k, vs).
     (k, if map_of metadata k = None \<and> VNone \<notin> set vs then vs @ [VNone] else vs)) unique"

definition FindConstantMetadataKeys :: "metadata_dict list \<Rightarrow> string list" where
  "FindConstantMetadataKeys metadata =
     (let unique_values = foldl note_missing (foldl note_value [] (concat metadata)) metadata
      in map fst (filter (\<lambda>(k, vs). length vs = 1 \<and> VNone \<notin> set vs) unique_values))"

definition metadata_of :: "sample_dict \<Rightarrow> metadata_dict" where
  "metadata_of s = sample_metadata (sd_sample s)"

definition constant_keys :: "sample_dict list \<Rightarrow> string list" where
  "constant_keys ss = FindConstantMetadataKeys (map metadata_of ss)"

definition FormatMetadata :: "value_text \<Rightarrow> metadata_dict \<Rightarrow> string" where
  "FormatMetadata R metadata = str_join '' '' (map (\<lambda>(k, v). k @ ''='' @ [CHR 0x22] @ py_str R v @ [CHR 0x22])
     (sort_key fst metadata))"

definition restrict :: "(string \<Rightarrow> bool) \<Rightarrow> metadata_dict \<Rightarrow> metadata_dict" where
  "restrict P = filter (\<lambda>(k, _). P k)"

text \<open>\<open>itertools.groupby\<close>\<close>

function groupby :: "('a \<Rightarrow> 'b) \<Rightarrow> 'a list \<Rightarrow> ('b \<times> 'a list) list" where
  "groupby f [] = []"
| "groupby f (x # xs) = (f x, x # takeWhile (\<lambda>y. f y = f x) xs) # groupby f (dropWhile (\<lambda>y. f y = f x) xs)"
  by pat_completeness auto

termination groupby
  by (relation "measure (length \<circ> snd)") (auto simp: le_imp_less_Suc length_dropWhile_le)

definition end_to_end :: "sample_dict \<Rightarrow> bool" where
  "end_to_end s = (metric (sd_sample s) = ''End to End Runtime'')"

definition locally_constant :: "string list \<Rightarrow> sample_dict list \<Rightarrow> string list" where
  "locally_constant globally test_samples =
     filter (\<lambda>k. k \<notin> set globally) (constant_keys (filter (\<lambda>s. \<not> end_to_end s) test_samples))"

definition benchmark_meta :: "string list \<Rightarrow> sample_dict list \<Rightarrow> metadata_dict" where
  "benchmark_meta globally test_samples =
     restrict (\<lambda>k. k \<in> set (locally_constant globally test_samples)) (metadata_of (hd test_samples))"

definition own_meta :: "string list \<Rightarrow> sample_dict list \<Rightarrow> sample_dict \<Rightarrow> metadata_dict" where
  "own_meta globally test_samples s =
     restrict (\<lambda>k. k \<notin> set globally \<and> k \<notin> set (locally_constant globally test_samples)) (metadata_of s)"

definition global_meta :: "sample_dict list \<Rightarrow> metadata_dict" where
  "global_meta ss = restrict (\<lambda>k. k \<in> set (constant_keys ss)) (metadata_of (hd ss))"

text \<open>\<open>'{:<30s}'\<close>, \<open>'{:>15s}'\<close> and \<open>'{:f}'\<close>\<close>

definition ljust :: "nat \<Rightarrow> string \<Rightarrow> string" where
  "ljust n s = s @ replicate (n - length s) CHR '' ''"

definition rjust :: "nat \<Rightarrow> string \<Rightarrow> string" where
  "rjust n s = replicate (n - length s) CHR '' '' @ s"

definition six_digits :: "rat \<Rightarrow> string" where
  "six_digits x =
     (let n = nat (round_half_even (\<bar>x\<bar> * 10 ^ 6)); t = str_of_nat (n mod 10 ^ 6)
      in (if x < 0 then ''-'' else []) @ str_of_nat (n div 10 ^ 6) @ ''.'' @ replicate (6 - length t) CHR ''0'' @ t)"

definition sample_line :: "value_text \<Rightarrow> metadata_dict \<Rightarrow> sample_dict \<Rightarrow> string" where
  "sample_line R meta s = ''  '' @ ljust 30 (metric (sd_sample s)) @ '' '' @ rjust 15 (six_digits (sample_value (sd_sample s)))
     @ '' '' @ ljust 30 (unit (sd_sample s)) @ (if meta = [] then [] else '' ('' @ FormatMetadata R meta @ '')'') @ [CHR 0x0A]"

definition benchmark_text :: "value_text \<Rightarrow> string list \<Rightarrow> string \<times> sample_dict list \<Rightarrow> string" where
  "benchmark_text R globally = (\<lambda>(benchmark, test_samples).
     py_upper benchmark @ '':'' @ [CHR 0x0A]
     @ (let meta = benchmark_meta globally test_samples
        in if meta = [] then [] else ''  '' @ FormatMetadata R meta @ [CHR 0x0A])
     @ concat (map (\<lambda>s. sample_line R (own_meta globally test_samples s) s) test_samples))"

definition PrettyPrint_text :: "value_text \<Rightarrow> sample_dict list \<Rightarrow> string" where
  "PrettyPrint_text R ss =
     (let dashes = replicate 25 CHR ''-'';
          head = [CHR 0x0A] @ dashes @ ''PerfKitBenchmarker Results Summary'' @ dashes @ [CHR 0x0A];
          sorted_samples = sort_key test ss
      in if ss = [] then head
         else head @ concat (map (benchmark_text R (constant_keys sorted_samples)) (groupby test sorted_samples))
           @ [CHR 0x0A] @ dashes @ [CHR 0x0A]
           @ ''For all tests: '' @ FormatMetadata R (global_meta sorted_samples) @ [CHR 0x0A])"

section \<open>Commands, and the choice of publishers\<close>

record bigquery =
  bigquery_table :: string
  project_id :: "string option"
  bq_path :: string
  service_account :: "string option"
  service_account_private_key_file :: "string option"
  application_default_credential_file :: "string option"

definition new_BigQueryPublisher :: "bigquery \<Rightarrow> exn + bigquery" where
  "new_BigQueryPublisher q =
     (if (service_account q = None) \<noteq> (service_account_private_key_file q = None)
      then Inl (exn (Builtin ValueError) ''service_account and service_account_private_key must be specified together.'')
      else if application_default_credential_file q \<noteq> None \<and> service_account q \<noteq> None
      then Inl (exn (Builtin ValueError)
        ''application_default_credential_file cannot be used alongside service_account.'')
      else Inr q)"

text \<open>The command that loads the file \<open>tmp\<close>, if there are samples; the empty text is false.\<close>

definition given :: "string option \<Rightarrow> bool" where
  "given t = (t \<noteq> None \<and> t \<noteq> Some [])"

definition bq_load_cmd :: "bigquery \<Rightarrow> string \<Rightarrow> string \<Rightarrow> string list" where
  "bq_load_cmd q credentials_file tmp = [bq_path q]
     @ (if given (project_id q) then [''--project_id='' @ the (project_id q)] else [])
     @ (if given (service_account q)
        then [''--service_account='' @ the (service_account q), ''--service_account_credential_file='' @ credentials_file,
          ''--service_account_private_key_file='' @ the (service_account_private_key_file q)]
        else case application_default_credential_file q of None \<Rightarrow> []
          | Some f \<Rightarrow> [''--application_default_credential_file='' @ f])
     @ [''load'', ''--autodetect'', ''--source_format=NEWLINE_DELIMITED_JSON'', bigquery_table q, tmp]"

definition BigQuery_PublishSamples :: "bigquery \<Rightarrow> string \<Rightarrow> string \<Rightarrow> sample_dict list \<Rightarrow> string list option" where
  "BigQuery_PublishSamples q credentials_file tmp ss = (if ss = [] then None else Some (bq_load_cmd q credentials_file tmp))"

definition GCS_OBJECT_NAME_LENGTH :: nat where "GCS_OBJECT_NAME_LENGTH = 20"

definition gcs_directory :: "string \<Rightarrow> string option \<Rightarrow> string" where
  "gcs_directory bucket sub_folder =
     ''gs://'' @ bucket @ (if given sub_folder then ''/'' @ the sub_folder else [])"

definition GenerateObjectName :: "rat \<Rightarrow> string \<Rightarrow> string" where
  "GenerateObjectName time_now uuid = take GCS_OBJECT_NAME_LENGTH (str_of_int (py_int (time_now * 100)) @ ''_'' @ uuid)"

definition gcs_copy_cmd :: "string \<Rightarrow> string \<Rightarrow> string \<Rightarrow> string \<Rightarrow> string list" where
  "gcs_copy_cmd gsutil_path directory tmp object_name = [gsutil_path, ''cp'', tmp, directory @ ''/'' @ object_name]"

datatype publisher =
    Log
  | PrettyPrintStream
  | NewlineDelimitedJSON string string bool
  | BigQuery bigquery
  | CloudStorage string string
  | CSV string
  | Elasticsearch string string string
  | InfluxDB string string

record publisher_flags =
  json_path :: string
  json_write_mode :: string
  collapse_labels :: bool
  bq :: bigquery
  gsutil_path :: string
  cloud_storage_bucket :: "string option"
  partitioned_bucket :: "string option"
  csv_path :: "string option"
  es_uri :: "string option"
  es_index :: string
  es_type :: string
  influx_uri :: "string option"
  influx_db_name :: string
  record_log_publisher :: bool

definition DEFAULT_JSON_OUTPUT_NAME :: string where "DEFAULT_JSON_OUTPUT_NAME = ''perfkitbenchmarker_results.json''"

definition if_given :: "string option \<Rightarrow> (string \<Rightarrow> publisher) \<Rightarrow> publisher list" where
  "if_given t f = (if given t then [f (the t)] else [])"

text \<open>The hour of the day in California, and where temporary files go, are given.\<close>

definition PublishersFromFlags :: "publisher_flags \<Rightarrow> (string \<Rightarrow> string) \<Rightarrow> string \<Rightarrow> exn + publisher list" where
  "PublishersFromFlags F temp hour =
     (let json = (if json_path F = [] then [] else
            [NewlineDelimitedJSON (if json_path F = DEFAULT_JSON_OUTPUT_NAME then temp (json_path F) else json_path F)
              (json_write_mode F) (collapse_labels F)])
      in bindE (if bigquery_table (bq F) = [] then Inr [] else bindE (new_BigQueryPublisher (bq F)) (\<lambda>q. Inr [BigQuery q]))
        (\<lambda>queries. Inr (json @ queries
          @ if_given (cloud_storage_bucket F) (\<lambda>b. CloudStorage (gcs_directory b None) (gsutil_path F))
          @ if_given (partitioned_bucket F) (\<lambda>b. CloudStorage (gcs_directory b (Some hour)) (gsutil_path F))
          @ if_given (csv_path F) CSV
          @ if_given (es_uri F) (\<lambda>u. Elasticsearch u (py_lower (es_index F)) (es_type F))
          @ if_given (influx_uri F) (\<lambda>u. InfluxDB u (influx_db_name F)))))"

definition DefaultPublishers :: "publisher_flags \<Rightarrow> publisher list" where
  "DefaultPublishers F = (if record_log_publisher F then [Log] else []) @ [PrettyPrintStream]"

definition new_SampleCollector ::
  "publisher_flags \<Rightarrow> (string \<Rightarrow> string) \<Rightarrow> string \<Rightarrow> publisher list \<Rightarrow> publisher list \<Rightarrow> bool \<Rightarrow> bool
     \<Rightarrow> exn + publisher list" where
  "new_SampleCollector F temp hour external own publishers_from_flags add_default_publishers =
     bindE (if publishers_from_flags then PublishersFromFlags F temp hour else Inr []) (\<lambda>from_flags.
       Inr (own @ external @ from_flags @ (if add_default_publishers then DefaultPublishers F else [])))"

section \<open>Labels are read back\<close>

lemma split_labels_no_bar: "CHR ''|'' \<notin> set e \<Longrightarrow> split_labels e = [e]"
  by (induction e rule: split_labels.induct) auto

lemma split_labels_append: "CHR ''|'' \<notin> set e \<Longrightarrow> split_labels (e @ ''|,|'' @ s) = e # split_labels s"
proof (induction e)
  case (Cons c e)
  then have "c \<noteq> CHR ''|''" "CHR ''|'' \<noteq> c" by auto
  then have "split_labels ((c # e) @ ''|,|'' @ s)
      = (case split_labels (e @ ''|,|'' @ s) of [] \<Rightarrow> [[c]] | y # ys \<Rightarrow> (c # y) # ys)"
    by (subst append_Cons, subst split_labels.simps(2)) simp
  with Cons show ?case by simp
qed simp

lemma split_labels_join:
  "es \<noteq> [] \<Longrightarrow> \<forall>e \<in> set es. CHR ''|'' \<notin> set e \<Longrightarrow> split_labels (str_join ''|,|'' es) = es"
proof (induction "''|,|''" es rule: str_join.induct)
  case (3 e e' es)
  then show ?case using split_labels_append [of e "str_join ''|,|'' (e' # es)"] by simp
qed (simp_all add: split_labels_no_bar)

lemma join_barred:
  "es \<noteq> [] \<Longrightarrow> str_join '','' (map (\<lambda>e. ''|'' @ e @ ''|'') es) = ''|'' @ str_join ''|,|'' es @ ''|''"
  by (induction "''|,|''" es rule: str_join.induct) simp_all

lemma split_pair_colon: "CHR '':'' \<notin> set k \<Longrightarrow> split_pair (k @ CHR '':'' # t) = Some (k, t)"
  by (induction k) (auto simp: split_pair_def)

lemma dict_update_fresh:
  "distinct (map fst (d @ e)) \<Longrightarrow> dict_update d e = d @ e"
proof (induction e arbitrary: d)
  case (Cons kv e)
  have "dict_set d (fst kv) (snd kv) = d @ [kv]" if "fst kv \<notin> fst ` set d"
    using that by (induction d) auto
  with Cons Cons.IH [of "d @ [kv]"] show ?case by (cases kv) (simp add: dict_update_def)
qed (simp add: dict_update_def)

lemma mapE_all_Inr: "(\<And>x. x \<in> set xs \<Longrightarrow> f x = Inr (g x)) \<Longrightarrow> mapE f xs = Inr (map g xs)"
  by (induction xs) (auto simp: bindE_def)

section \<open>Which keys are constant\<close>

definition same_values :: "pyval list \<Rightarrow> pyval list \<Rightarrow> bool" where
  "same_values vs ws = (vs \<noteq> [] \<and> set vs \<subseteq> set ws \<and> length vs \<le> 2
     \<and> (if length vs = 1 then \<forall>w \<in> set ws. same_value w (hd vs)
        else \<exists>v w. vs = [v, w] \<and> \<not> same_value v w))"

lemma same_value_refl: "same_value v v"
  by (simp add: same_value_def)

lemma same_value_sym: "same_value v w = same_value w v"
  by (auto simp: same_value_def)

definition values_of :: "string \<Rightarrow> metadata_dict \<Rightarrow> pyval list" where
  "values_of k kvs = map snd (filter (\<lambda>kv. fst kv = k) kvs)"

lemma values_of_snoc: "values_of k (kvs @ [kv]) = values_of k kvs @ (if fst kv = k then [snd kv] else [])"
  by (simp add: values_of_def)

lemma note_value_step:
  assumes "hashable v" and "vs = [] \<and> ws = [] \<or> same_values vs ws"
  shows "same_values (if length vs < 2 \<and> hashable v \<and> \<not> list_ex (same_value v) vs then vs @ [v] else vs) (ws @ [v])"
proof (cases "vs = []")
  case True
  with assms show ?thesis by (auto simp: same_values_def same_value_refl)
next
  case False
  with assms(2) have s: "same_values vs ws" by simp
  show ?thesis
  proof (cases "length vs = 1")
    case True
    then obtain x where "vs = [x]" by (auto simp: length_Suc_conv)
    with s assms(1) show ?thesis by (auto simp: same_values_def same_value_sym [of x])
  next
    case False
    with s show ?thesis by (auto simp: same_values_def)
  qed
qed

lemma note_value_map_of:
  "map_of (note_value U (k, v)) = (let vs = (case map_of U k of None \<Rightarrow> [] | Some vs \<Rightarrow> vs)
     in (map_of U)(k \<mapsto> if length vs < 2 \<and> hashable v \<and> \<not> list_ex (same_value v) vs then vs @ [v] else vs))"
  by (simp add: note_value_def Let_def)

lemma noted_values:
  "\<forall>kv \<in> set kvs. hashable (snd kv) \<Longrightarrow> (case map_of (foldl note_value [] kvs) k of
     None \<Rightarrow> values_of k kvs = [] | Some vs \<Rightarrow> same_values vs (values_of k kvs))"
proof (induction kvs rule: rev_induct)
  case (snoc kv kvs)
  obtain k' v where kv: "kv = (k', v)" by fastforce
  let ?U = "foldl note_value [] kvs"
  let ?vs = "case map_of ?U k' of None \<Rightarrow> [] | Some vs \<Rightarrow> vs"
  have IH: "case map_of ?U k of None \<Rightarrow> values_of k kvs = [] | Some vs \<Rightarrow> same_values vs (values_of k kvs)"
    using snoc by simp
  show ?case
  proof (cases "k' = k")
    case True
    have "?vs = [] \<and> values_of k kvs = [] \<or> same_values ?vs (values_of k kvs)"
      using IH True by (auto split: option.splits)
    moreover have "hashable v" using snoc(2) kv by simp
    ultimately have "same_values (if length ?vs < 2 \<and> hashable v \<and> \<not> list_ex (same_value v) ?vs then ?vs @ [v] else ?vs)
      (values_of k kvs @ [v])" using note_value_step by blast
    then show ?thesis
      unfolding foldl_append foldl_Cons foldl_Nil kv note_value_map_of values_of_snoc by (simp only: Let_def True fun_upd_same option.case fst_conv snd_conv if_True simp_thms)
  next
    case False
    then have "map_of (note_value ?U (k', v)) k = map_of ?U k" by (simp add: note_value_map_of Let_def)
    with IH False show ?thesis unfolding foldl_append foldl_Cons foldl_Nil kv values_of_snoc
      by (auto split: option.splits)
  qed
qed (simp add: values_of_def)

lemma noted_distinct: "distinct (map fst (foldl note_value [] kvs))"
proof (induction kvs rule: rev_induct)
  case (snoc kv kvs)
  then show ?case by (cases kv) (simp add: note_value_def Let_def dict_set_distinct)
qed simp

definition missed :: "string \<Rightarrow> pyval list \<Rightarrow> metadata_dict \<Rightarrow> pyval list" where
  "missed k vs metadata = (if map_of metadata k = None \<and> VNone \<notin> set vs then vs @ [VNone] else vs)"

lemma foldl_note_missing: "foldl note_missing U mds = map (\<lambda>(k, vs). (k, foldl (missed k) vs mds)) U"
  by (induction mds arbitrary: U) (simp_all add: note_missing_def missed_def case_prod_beta comp_def map_idI)

lemma foldl_missed:
  "foldl (missed k) vs mds
     = (if VNone \<in> set vs \<or> (\<forall>m \<in> set mds. map_of m k \<noteq> None) then vs else vs @ [VNone])"
  by (induction mds arbitrary: vs) (auto simp: missed_def)

lemma values_of_map_of:
  assumes "\<forall>m \<in> set mds. distinct (map fst m)"
  shows "w \<in> set (values_of k (concat mds)) \<longleftrightarrow> (\<exists>m \<in> set mds. map_of m k = Some w)"
proof -
  have "w \<in> set (values_of k (concat mds)) \<longleftrightarrow> (\<exists>m \<in> set mds. (k, w) \<in> set m)"
    by (force simp: values_of_def image_iff)
  with assms show ?thesis by auto
qed

lemma constant_iff:
  assumes hash: "\<forall>m \<in> set mds. \<forall>kv \<in> set m. hashable (snd kv)" and dist: "\<forall>m \<in> set mds. distinct (map fst m)"
  shows "k \<in> set (FindConstantMetadataKeys mds)
    \<longleftrightarrow> mds \<noteq> [] \<and> (\<exists>c. c \<noteq> VNone \<and> (\<forall>m \<in> set mds. map_option canonical (map_of m k) = Some c))"
    (is "?l = ?r")
proof -
  let ?U = "foldl note_value [] (concat mds)"
  note vals = noted_values [of "concat mds" k] and mem = values_of_map_of [OF dist, of _ k]
  have none: "canonical x = VNone \<longleftrightarrow> x = VNone" for x by (cases x) simp_all
  have "?l \<longleftrightarrow> (\<exists>vs. (k, vs) \<in> set ?U \<and> length (foldl (missed k) vs mds) = 1 \<and> VNone \<notin> set (foldl (missed k) vs mds))"
    by (auto simp: FindConstantMetadataKeys_def foldl_note_missing image_iff) force+
  also have "\<dots> \<longleftrightarrow> (\<exists>vs. map_of ?U k = Some vs \<and> length vs = 1 \<and> VNone \<notin> set vs \<and> (\<forall>m \<in> set mds. map_of m k \<noteq> None))"
    using vals hash by (auto simp: foldl_missed noted_distinct same_values_def split: if_splits)
  also have "\<dots> \<longleftrightarrow> ?r"
  proof
    assume "\<exists>vs. map_of ?U k = Some vs \<and> length vs = 1 \<and> VNone \<notin> set vs \<and> (\<forall>m \<in> set mds. map_of m k \<noteq> None)"
    then obtain x where x: "map_of ?U k = Some [x]" "x \<noteq> VNone" "\<forall>m \<in> set mds. map_of m k \<noteq> None"
      by (auto simp: length_Suc_conv)
    then have s: "same_values [x] (values_of k (concat mds))" using vals hash by auto
    then have "x \<in> set (values_of k (concat mds))" by (simp add: same_values_def)
    then have "mds \<noteq> []" by (auto simp: values_of_def)
    moreover have "map_option canonical (map_of m k) = Some (canonical x)" if m: "m \<in> set mds" for m
    proof -
      obtain w where w: "map_of m k = Some w" using bspec [OF x(3) m] by auto
      have "w \<in> set (values_of k (concat mds))" by (rule iffD2 [OF mem]) (use w m in blast)
      with s have "same_value w x" by (simp add: same_values_def)
      with w show ?thesis by (simp add: same_value_def)
    qed
    ultimately show ?r using x(2) none by blast
  next
    assume r: ?r
    then obtain c where c: "c \<noteq> VNone" "\<forall>m \<in> set mds. map_option canonical (map_of m k) = Some c" by blast
    have some: "\<forall>m \<in> set mds. map_of m k \<noteq> None"
    proof
      fix m assume "m \<in> set mds"
      from bspec [OF c(2) this] show "map_of m k \<noteq> None" by auto
    qed
    have same: "canonical w = c" if w: "w \<in> set (values_of k (concat mds))" for w
    proof -
      obtain m where m: "m \<in> set mds" "map_of m k = Some w" using iffD1 [OF mem w] by blast
      from bspec [OF c(2) m(1)] m(2) show ?thesis by simp
    qed
    obtain m where m: "m \<in> set mds" using r by (cases mds) auto
    obtain w where "map_of m k = Some w" using bspec [OF some m] by auto
    with m mem have "values_of k (concat mds) \<noteq> []" by (metis list.set(1) empty_iff)
    then obtain vs where vs: "map_of ?U k = Some vs" "same_values vs (values_of k (concat mds))"
      using vals hash by (cases "map_of ?U k") auto
    have cs: "canonical v = c" if "v \<in> set vs" for v using vs(2) same that unfolding same_values_def by blast
    then have "length vs = 1" using vs(2) by (auto simp: same_values_def same_value_def split: if_splits)
    moreover have "VNone \<notin> set vs" using cs c(1) by force
    ultimately show "\<exists>vs. map_of ?U k = Some vs \<and> length vs = 1 \<and> VNone \<notin> set vs \<and> (\<forall>m \<in> set mds. map_of m k \<noteq> None)"
      using vs(1) some by blast
  qed
  finally show ?thesis .
qed

section \<open>Dictionaries\<close>

lemma map_of_rev_distinct: "distinct (map fst d) \<Longrightarrow> map_of (rev d) = map_of d"
  by (subst map_of_inject_set) (simp_all add: rev_map [symmetric])

lemma dict_update_distinct: "distinct (map fst d) \<Longrightarrow> distinct (map fst (dict_update d e))"
  unfolding dict_update_def by (induction e arbitrary: d) (auto simp: dict_set_distinct)

lemma sample_side_distinct: "distinct (map fst d) \<Longrightarrow> distinct (map fst (sample_side spec d))"
  by (simp add: sample_side_def add_resource_def dict_update_distinct split: option.split)

lemma sample_side_map_of:
  "map_of (sample_side spec d)
     = map_of d ++ (case vvs_of spec of None \<Rightarrow> Map.empty | Some m \<Rightarrow> map_of (rev (with_prefix ''vvs_'' m)))"
  by (simp add: sample_side_def add_resource_def split: option.split)

lemma add_pairs_distinct: "distinct (map fst pairs) \<Longrightarrow> distinct (map fst (add_pairs pairs ss))"
  by (induction pairs ss rule: add_pairs.induct) (auto simp: dict_set_distinct split: option.split)

lemma parsed_map_of:
  "map_of (rev (map (\<lambda>(k, v). (k, VStr v)) (ParseKeyValuePairs ss))) = map_option VStr \<circ> map_of (ParseKeyValuePairs ss)"
proof -
  have "distinct (map fst (ParseKeyValuePairs ss))" by (simp add: ParseKeyValuePairs_def add_pairs_distinct)
  then have "distinct (map fst (map (\<lambda>(k, v). (k, VStr v)) (ParseKeyValuePairs ss)))" by (simp add: comp_def case_prod_beta)
  then show ?thesis by (simp only: map_of_rev_distinct map_of_map)
qed

section \<open>Parts of the text for the console\<close>

lemma mapE_map: "mapE f (map g xs) = mapE (\<lambda>x. f (g x)) xs"
  by (induction xs) simp_all

lemma restrict_map_of: "map_of (restrict P d) k = (if P k then map_of d k else None)"
  by (induction d) (auto simp: restrict_def)

lemma groupby_concat: "concat (map snd (groupby f xs)) = xs"
  by (induction f xs rule: groupby.induct) simp_all

lemma groupby_group:
  "(b, ts) \<in> set (groupby f xs) \<Longrightarrow> ts \<noteq> [] \<and> set ts \<subseteq> set xs \<and> (\<forall>s \<in> set ts. f s = b)"
proof (induction f xs rule: groupby.induct)
  case (2 f x xs)
  have t: "set (takeWhile (\<lambda>y. f y = f x) xs) \<subseteq> set xs" "\<forall>y \<in> set (takeWhile (\<lambda>y. f y = f x) xs). f y = f x"
    by (rule subsetI, drule set_takeWhileD, simp) (rule ballI, drule set_takeWhileD, simp)
  have d: "set (dropWhile (\<lambda>y. f y = f x) xs) \<subseteq> set xs" by (rule subsetI, erule set_dropWhileD)
  from 2(2) consider "b = f x" "ts = x # takeWhile (\<lambda>y. f y = f x) xs"
    | "(b, ts) \<in> set (groupby f (dropWhile (\<lambda>y. f y = f x) xs))" by auto
  then show ?case
  proof cases
    case 1
    then have "ts \<noteq> []" "set ts \<subseteq> set (x # xs)" using t(1) by auto
    moreover have "\<forall>s \<in> set ts. f s = b"
    proof
      fix s assume "s \<in> set ts"
      then have "s = x \<or> f s = f x" using 1(2) bspec [OF t(2), of s] by auto
      then show "f s = b" using 1(1) by blast
    qed
    ultimately show ?thesis by blast
  next
    case 2
    from "2.IH" [OF this] d show ?thesis by auto
  qed
qed simp

text \<open>A constant key has the same value in two of the samples.\<close>

lemma constant_keys_same:
  assumes "k \<in> set (constant_keys ss)" and "s \<in> set ss" and "s' \<in> set ss"
    and "\<forall>s \<in> set ss. \<forall>kv \<in> set (metadata_of s). hashable (snd kv)" and "\<forall>s \<in> set ss. distinct (map fst (metadata_of s))"
  shows "map_option canonical (map_of (metadata_of s) k) = map_option canonical (map_of (metadata_of s') k)"
    and "map_of (metadata_of s) k \<noteq> None"
proof -
  have "k \<in> set (FindConstantMetadataKeys (map metadata_of ss))" using assms(1) by (simp add: constant_keys_def)
  moreover have "\<forall>m \<in> set (map metadata_of ss). \<forall>kv \<in> set m. hashable (snd kv)" using assms(4) by simp
  moreover have "\<forall>m \<in> set (map metadata_of ss). distinct (map fst m)" using assms(5) by simp
  ultimately obtain c where c: "\<forall>s \<in> set ss. map_option canonical (map_of (metadata_of s) k) = Some c"
    by (auto simp: constant_iff)
  note cs = bspec [OF c assms(2)] bspec [OF c assms(3)]
  show "map_option canonical (map_of (metadata_of s) k) = map_option canonical (map_of (metadata_of s') k)"
    by (simp only: cs)
  show "map_of (metadata_of s) k \<noteq> None"
  proof
    assume "map_of (metadata_of s) k = None"
    with cs(1) show False by simp
  qed
qed

section \<open>Surprises\<close>

text \<open>A sample without metadata has labels that cannot be read back, and cannot be published again.\<close>

lemma labels_of_nothing:
  "GetLabelsFromDict R [] = []"
  "LabelsToDict [] = Inl (exn (Builtin ValueError) ''not enough values to unpack (expected 2, got 1)'')"
  by (simp_all add: GetLabelsFromDict_def LabelsToDict_def cut_ends_def split_pair_def bindE_def)

text \<open>A column with the name of a field has the value of the metadata in the place of that of the sample.\<close>

lemma csv_metadata_wins:
  "distinct (map fst (metadata_of s)) \<Longrightarrow> map_of (metadata_of s) k = Some v \<Longrightarrow> map_of (csv_dict s) k = Some v"
  by (simp add: csv_dict_def metadata_of_def map_add_def map_of_rev_distinct)

text \<open>Lists are not looked at when constant keys are found.\<close>

definition a_sample :: "string \<Rightarrow> metadata_dict \<Rightarrow> sample_dict" where
  "a_sample name md = \<lparr>sd_sample = \<lparr>metric = name, sample_value = 1, unit = ''s'', sample_metadata = md, timestamp = 1\<rparr>,
     test = ''t'', product_name = [], official = False, owner = [], run_uri = [], sample_uri = []\<rparr>"

lemmas constant_defs = constant_keys_def FindConstantMetadataKeys_def note_value_def note_missing_def metadata_of_def
  a_sample_def hashable_def same_value_def Let_def

lemma lists_not_constant:
  "constant_keys [a_sample ''x'' [(''k'', VInt 1)], a_sample ''y'' [(''k'', VList [VInt 2])]] = [''k'']"
  by (simp add: constant_defs)

text \<open>If the first sample of a benchmark is its runtime, metadata may be printed nowhere.\<close>

lemma metadata_lost:
  defines "ts \<equiv> [a_sample ''End to End Runtime'' [], a_sample ''x'' [(''k'', VInt 1)]]"
  shows "own_meta (constant_keys ts) ts (ts ! 1) = []" and "benchmark_meta (constant_keys ts) ts = []" and "global_meta ts = []"
  by (simp_all add: ts_def own_meta_def benchmark_meta_def global_meta_def locally_constant_def end_to_end_def restrict_def
      constant_defs)

section \<open>Properties\<close>

text \<open>C25: Labels are read back as the dictionary they were made from, its values as texts and its keys in order,
  unless it is empty, a key has a colon or a bar, or a value has a bar.\<close>

theorem labels_roundtrip:
  assumes "metadata \<noteq> []" and "distinct (map fst metadata)"
    and "\<forall>(k, v) \<in> set metadata. CHR '':'' \<notin> set k \<and> CHR ''|'' \<notin> set k \<and> CHR ''|'' \<notin> set (py_str R v)"
  shows "LabelsToDict (GetLabelsFromDict R metadata) = Inr (map (\<lambda>(k, v). (k, py_str R v)) (sort_key fst metadata))"
proof -
  let ?d = "sort_key fst metadata" and ?e = "\<lambda>(k, v). k @ CHR '':'' # py_str R v"
  have d: "?d \<noteq> []" "distinct (map fst ?d)" using assms(1,2)
    by (metis set_sort set_empty, simp add: distinct_map)
  have clean: "CHR '':'' \<notin> set k" "CHR ''|'' \<notin> set k" "CHR ''|'' \<notin> set (py_str R v)" if "(k, v) \<in> set metadata" for k v
    using assms(3) that by auto
  have labels: "GetLabelsFromDict R metadata = str_join '','' (map (\<lambda>e. ''|'' @ e @ ''|'') (map ?e ?d))"
    unfolding GetLabelsFromDict_def map_map by (rule arg_cong [where f = "str_join '',''"]) (auto simp: fun_eq_iff)
  have "split_labels (cut_ends (GetLabelsFromDict R metadata)) = map ?e ?d"
    unfolding labels using d(1) clean
    by (subst join_barred) (auto simp: cut_ends_def intro!: split_labels_join)
  moreover have "mapE (\<lambda>e. case split_pair e of
      None \<Rightarrow> Inl (exn (Builtin ValueError) ''not enough values to unpack (expected 2, got 1)'') | Some kv \<Rightarrow> Inr kv) (map ?e ?d)
    = Inr (map (\<lambda>(k, v). (k, py_str R v)) ?d)"
    unfolding mapE_map by (intro mapE_all_Inr) (auto simp: split_pair_colon clean)
  moreover have "dict_update [] (map (\<lambda>(k, v). (k, py_str R v)) ?d) = map (\<lambda>(k, v). (k, py_str R v)) ?d"
    using dict_update_fresh [of "[]" "map (\<lambda>(k, v). (k, py_str R v)) ?d"] d(2) by (simp add: comp_def case_prod_beta)
  ultimately show ?thesis by (simp add: LabelsToDict_def bindE_def)
qed

theorem labels_roundtrip_witness:
  "LabelsToDict (GetLabelsFromDict (\<lambda>_. []) [(''cloud'', VStr ''GCP''), (''b'', VBool True)])
     = Inr [(''b'', ''True''), (''cloud'', ''GCP'')]"
  by (subst labels_roundtrip) (simp_all add: py_str_def)

text \<open>C12: The metadata of a sample: what the flag for metadata gives goes before the metadata of a vector search,
  this before what the sample has, and this before the default metadata.  If conflicts are to be
  reported, the defaults agree with the sample; an exception is that of the defaults or reports such a conflict.\<close>

theorem AddMetadata_precedence:
  assumes "distinct (map fst metadata)"
  shows "case AddMetadata F spec metadata of
     Inr r \<Rightarrow> \<exists>new. default_metadata F spec = Inr new
       \<and> map_of r = map_of new ++ map_of metadata ++ (case vvs_of spec of None \<Rightarrow> Map.empty | Some m \<Rightarrow> map_of (rev (with_prefix ''vvs_'' m)))
           ++ (map_option VStr \<circ> map_of (ParseKeyValuePairs (metadata_flag F)))
       \<and> (throw_on_metadata_conflict F \<longrightarrow> (\<forall>k v w. map_of new k = Some v \<longrightarrow> map_of (sample_side spec metadata) k = Some w
           \<longrightarrow> same_value v w))
   | Inl e \<Rightarrow> default_metadata F spec = Inl e \<or> throw_on_metadata_conflict F
       \<and> (\<exists>new k v w. default_metadata F spec = Inr new \<and> map_of new k = Some v
           \<and> map_of (sample_side spec metadata) k = Some w \<and> \<not> same_value v w)"
proof (cases "default_metadata F spec")
  case (Inl e)
  then show ?thesis by (simp add: AddMetadata_def Let_def bindE_def)
next
  case (Inr new)
  let ?m = "sample_side spec metadata"
  have conf: "k \<in> set (conflicts new ?m) \<longleftrightarrow> (\<exists>v w. map_of new k = Some v \<and> map_of ?m k = Some w \<and> \<not> same_value v w)" for k
    using map_of_SomeD [of new k] by (force simp: conflicts_def image_iff split: option.splits)
  show ?thesis
  proof (cases "throw_on_metadata_conflict F \<and> conflicts new ?m \<noteq> []")
    case True
    then obtain k where "k \<in> set (conflicts new ?m)" by (meson list.set_sel(1))
    with True Inr conf show ?thesis by (auto simp: AddMetadata_def Let_def bindE_def)
  next
    case False
    then have no: "throw_on_metadata_conflict F \<longrightarrow> map_of new k = Some v \<longrightarrow> map_of ?m k = Some w \<longrightarrow> same_value v w" for k v w
      using conf [of k] by auto
    have "map_of (rev ?m) = map_of ?m" using assms sample_side_distinct by (intro map_of_rev_distinct)
    then show ?thesis using False Inr no
      by (auto simp: AddMetadata_def Let_def bindE_def sample_side_map_of parsed_map_of)
  qed
qed

text \<open>The metadata of a machine and of a sample\<close>

definition a_spec :: spec_view where
  "a_spec = \<lparr>container_cluster_of = None, relational_db_of = None, pinecone_of = None, vvs_of = None, memory_store_of = None,
     tpu_groups_of = [], vm_groups_of = [(''default'', [\<lparr>hostname = ''h'', resource_metadata = [(''cloud'', VStr ''GCP'')],
       os_metadata = [], disk_metadata = []\<rparr>])], vms_of = []\<rparr>"

definition some_metadata_flags :: metadata_flags where
  "some_metadata_flags = \<lparr>simulate_maintenance = False, hostname_metadata = False, set_files = [], sysctl = [],
     metadata_flag = [], throw_on_metadata_conflict = False, pkb_version = ''v1''\<rparr>"

theorem AddMetadata_precedence_witness:
  "\<exists>r. AddMetadata some_metadata_flags a_spec [(''cloud'', VStr ''AWS'')] = Inr r \<and> map_of r ''cloud'' = Some (VStr ''AWS'')
     \<and> map_of r ''vm_count'' = Some (VInt 1)"
proof -
  have d: "default_metadata some_metadata_flags a_spec = Inr [(''perfkitbenchmarker_version'', VStr ''v1''),
      (''cloud'', VStr ''GCP''), (''vm_count'', VInt 1)]"
    by (simp add: default_metadata_def flags_and_resources_def set_if_def add_resource_def group_metadata_def Let_def
        some_metadata_flags_def a_spec_def with_prefix_def VM_METADATA_TO_LIST_PLURAL_def map_filter_simps dict_update_def bindE_def)
  have p: "ParseKeyValuePairs (metadata_flag some_metadata_flags) = []"
    by (simp add: ParseKeyValuePairs_def some_metadata_flags_def)
  obtain r where r: "AddMetadata some_metadata_flags a_spec [(''cloud'', VStr ''AWS'')] = Inr r"
    using d by (simp add: AddMetadata_def some_metadata_flags_def Let_def bindE_def)
  have "distinct (map fst [(''cloud'', VStr ''AWS'')])" by simp
  from AddMetadata_precedence [OF this, of some_metadata_flags a_spec] r d p show ?thesis by (simp add: a_spec_def map_add_def)
qed

text \<open>The groups of sorted samples are those of the keys, in order.\<close>

lemma dropWhile_others:
  "sorted (map f (x # xs)) \<Longrightarrow> y \<in> set (dropWhile (\<lambda>y. f y = f x) xs) \<Longrightarrow> f y \<noteq> f x"
proof (induction xs)
  case (Cons z zs)
  show ?case
  proof (cases "f z = f x")
    case True
    with Cons show ?thesis by simp
  next
    case False
    with Cons.prems have "f x \<le> f z" "f z \<le> f y" by auto
    with False show ?thesis by auto
  qed
qed simp

lemma sorted_takeWhile_filter:
  assumes "sorted (map f (x # xs))"
  shows "takeWhile (\<lambda>y. f y = f x) xs = filter (\<lambda>y. f y = f x) xs"
    and "dropWhile (\<lambda>y. f y = f x) xs = filter (\<lambda>y. f y \<noteq> f x) xs"
proof -
  let ?P = "\<lambda>y. f y = f x"
  show "takeWhile ?P xs = filter ?P xs" by (rule takeWhile_eq_filter) (rule dropWhile_others [OF assms])
  have "filter (\<lambda>y. \<not> ?P y) (takeWhile ?P xs) = []" unfolding filter_empty_conv
    by (meson set_takeWhileD)
  moreover have "filter (\<lambda>y. \<not> ?P y) (dropWhile ?P xs) = dropWhile ?P xs"
    unfolding filter_id_conv using dropWhile_others [OF assms] by blast
  moreover have "filter (\<lambda>y. \<not> ?P y) xs = filter (\<lambda>y. \<not> ?P y) (takeWhile ?P xs @ dropWhile ?P xs)" by simp
  ultimately show "dropWhile ?P xs = filter (\<lambda>y. f y \<noteq> f x) xs" unfolding filter_append by simp
qed

lemma groupby_sorted:
  "sorted (map f xs) \<Longrightarrow> \<exists>bs. sorted bs \<and> distinct bs \<and> set bs = f ` set xs
     \<and> groupby f xs = map (\<lambda>b. (b, filter (\<lambda>x. f x = b) xs)) bs"
proof (induction f xs rule: groupby.induct)
  case (2 f x xs)
  note tw = sorted_takeWhile_filter [OF 2(2)]
  let ?rest = "filter (\<lambda>y. f y \<noteq> f x) xs"
  have "sorted (map f ?rest)" using 2(2) by (simp add: sorted_filter)
  then obtain bs where bs: "sorted bs" "distinct bs" "set bs = f ` set ?rest"
    "groupby f ?rest = map (\<lambda>b. (b, filter (\<lambda>x. f x = b) ?rest)) bs"
    using 2(1) unfolding tw by blast
  have above: "f x \<le> b" "b \<noteq> f x" if "b \<in> set bs" for b using that 2(2) unfolding bs(3) by auto
  have "filter (\<lambda>z. f z = b) ?rest = filter (\<lambda>z. f z = b) (x # xs)" if "b \<in> set bs" for b
    using above(2) [OF that] by (auto intro: filter_cong)
  then have "map (\<lambda>b. (b, filter (\<lambda>x. f x = b) ?rest)) bs = map (\<lambda>b. (b, filter (\<lambda>z. f z = b) (x # xs))) bs"
    by simp
  then have groups: "groupby f (x # xs) = map (\<lambda>b. (b, filter (\<lambda>z. f z = b) (x # xs))) (f x # bs)"
    by (simp add: tw bs(4))
  have "set (f x # bs) = f ` set (x # xs)" unfolding list.set bs(3) by auto
  moreover have "sorted (f x # bs)" "distinct (f x # bs)" using above bs(1,2) by auto
  ultimately show ?case using groups by blast
qed simp

lemma sort_key_fst_map_of: "distinct (map fst d) \<Longrightarrow> map_of (sort_key fst d) = map_of d"
  by (rule map_of_inject_set [THEN iffD2]) (simp_all add: distinct_map)

text \<open>What is expected in the text: \<open>key="value"\<close> with spaces between; and the line of a sample\<close>

definition entries :: "value_text \<Rightarrow> metadata_dict \<Rightarrow> string" where
  "entries R d = str_join '' '' (map (\<lambda>(k, v). k @ ''='' @ [CHR 0x22] @ py_str R v @ [CHR 0x22]) d)"

definition printed_line :: "value_text \<Rightarrow> metadata_dict \<Rightarrow> sample_dict \<Rightarrow> string" where
  "printed_line R d s = ''  '' @ ljust 30 (metric (sd_sample s)) @ '' '' @ rjust 15 (six_digits (sample_value (sd_sample s)))
     @ '' '' @ ljust 30 (unit (sd_sample s)) @ (if d = [] then [] else '' ('' @ entries R d @ '')'') @ [CHR 0x0A]"

definition benchmark_heading :: "value_text \<Rightarrow> string \<Rightarrow> metadata_dict \<Rightarrow> string" where
  "benchmark_heading R b d = py_upper b @ '':'' @ [CHR 0x0A] @ (if d = [] then [] else ''  '' @ entries R d @ [CHR 0x0A])"

definition dashes_around :: "string \<Rightarrow> string" where
  "dashes_around t = [CHR 0x0A] @ replicate 25 CHR ''-'' @ t @ [CHR 0x0A]"

lemma FormatMetadata_entries: "FormatMetadata R d = entries R (sort_key fst d)"
  by (simp add: FormatMetadata_def entries_def)

lemma sort_key_Nil_iff: "sort_key f d = [] \<longleftrightarrow> d = []"
  by (metis set_empty set_sort)

lemma sample_line_printed: "sample_line R d s = printed_line R (sort_key fst d) s"
  by (simp add: sample_line_def printed_line_def FormatMetadata_entries sort_key_Nil_iff)

lemma benchmark_text_printed:
  "benchmark_text R globally (b, ts) = benchmark_heading R b (sort_key fst (benchmark_meta globally ts))
     @ concat (map (\<lambda>s. printed_line R (sort_key fst (own_meta globally ts s)) s) ts)"
  by (simp add: benchmark_text_def benchmark_heading_def FormatMetadata_entries sort_key_Nil_iff sample_line_printed Let_def)

text \<open>The metadata of a sample is divided into three parts.\<close>

lemma metadata_divided:
  assumes hash: "\<forall>s \<in> set ss. \<forall>kv \<in> set (metadata_of s). hashable (snd kv)"
    and dist: "\<forall>s \<in> set ss. distinct (map fst (metadata_of s))"
    and ts: "set ts \<subseteq> set ss" and s: "s \<in> set ts" and not_runtime: "\<not> end_to_end s" "\<not> end_to_end (hd ts)"
  defines "globally \<equiv> constant_keys ss"
  shows "map_option canonical (map_of (own_meta globally ts s @ benchmark_meta globally ts @ global_meta ss) k)
        = map_option canonical (map_of (metadata_of s) k)"
proof -
  let ?local = "filter (\<lambda>s. \<not> end_to_end s) ts"
  have loc: "\<forall>s \<in> set ?local. \<forall>kv \<in> set (metadata_of s). hashable (snd kv)"
    "\<forall>s \<in> set ?local. distinct (map fst (metadata_of s))" using ts hash dist by auto
  have "ss \<noteq> []" "ts \<noteq> []" using ts s by auto
  then have mem: "s \<in> set ss" "hd ss \<in> set ss" "s \<in> set ?local" "hd ts \<in> set ?local"
    using ts s not_runtime by (auto intro!: hd_in_set)
  note own = own_meta_def benchmark_meta_def global_meta_def restrict_map_of map_add_def
  consider "k \<in> set globally" | "k \<notin> set globally" "k \<in> set (constant_keys ?local)"
    | "k \<notin> set globally" "k \<notin> set (constant_keys ?local)" by blast
  then show ?thesis
  proof cases
    case 1
    then have k: "k \<in> set (constant_keys ss)" by (simp add: globally_def)
    from constant_keys_same [OF k mem(2,1) hash dist] 1 k show ?thesis
      by (simp add: own locally_constant_def split: option.split)
  next
    case 2
    then have k: "k \<notin> set (constant_keys ss)" by (simp add: globally_def)
    from constant_keys_same [OF 2(2) mem(4,3) loc] 2 k show ?thesis
      by (cases "map_of (metadata_of (hd ts)) k") (simp_all add: own locally_constant_def)
  next
    case 3
    then have k: "k \<notin> set (constant_keys ss)" by (simp add: globally_def)
    with 3 show ?thesis by (simp add: own locally_constant_def split: option.split)
  qed
qed

lemma restrict_keys: "set (map fst (restrict P d)) = {k \<in> set (map fst d). P k}"
    "distinct (map fst d) \<Longrightarrow> distinct (map fst (restrict P d))"
  by (force simp: restrict_def, simp add: restrict_def distinct_map_filter)

lemma metadata_printed_once:
  assumes "distinct (map fst (metadata_of s))" and "distinct (map fst (metadata_of (hd ts)))"
    and "distinct (map fst (metadata_of (hd ss)))"
  shows "distinct (map fst (own_meta (constant_keys ss) ts s @ benchmark_meta (constant_keys ss) ts @ global_meta ss))"
  using assms unfolding own_meta_def benchmark_meta_def global_meta_def map_append distinct_append set_append
  by (auto simp: restrict_keys locally_constant_def simp del: set_map)

text \<open>C26: The text for the console.  All samples are printed, under the headings of their benchmarks, in the order
  of the benchmarks and otherwise in the order given; every key of the metadata stands at most once in the line of
  a sample, in the heading of its benchmark or in the last line; and what stands there is exactly the metadata of
  the sample, up to equality of values, provided that values are neither lists nor dictionaries (which the code
  does not look at), and that neither the sample nor the first one of its benchmark is the runtime of the
  benchmark.\<close>

theorem pretty_print_complete:
  assumes "ss \<noteq> []" and "\<forall>s \<in> set ss. distinct (map fst (metadata_of s))"
    and "\<forall>s \<in> set ss. \<forall>kv \<in> set (metadata_of s). hashable (snd kv)"
  shows "\<exists>bs heading own all. sorted bs \<and> distinct bs \<and> set bs = test ` set ss
    \<and> PrettyPrint_text R ss = dashes_around (''PerfKitBenchmarker Results Summary'' @ replicate 25 CHR ''-'')
        @ concat (map (\<lambda>b. benchmark_heading R b (heading b)
            @ concat (map (\<lambda>s. printed_line R (own s) s) (filter (\<lambda>s. test s = b) ss))) bs)
        @ dashes_around [] @ ''For all tests: '' @ entries R all @ [CHR 0x0A]
    \<and> (\<forall>s \<in> set ss. distinct (map fst (own s @ heading (test s) @ all))
        \<and> (\<not> end_to_end s \<and> \<not> end_to_end (hd (filter (\<lambda>t. test t = test s) ss)) \<longrightarrow>
            (\<forall>k. map_option canonical (map_of (own s @ heading (test s) @ all) k) = map_option canonical (map_of (metadata_of s) k))))"
proof -
  let ?ss = "sort_key test ss"
  let ?ts = "\<lambda>b. filter (\<lambda>s. test s = b) ss"
  let ?heading = "\<lambda>b. sort_key fst (benchmark_meta (constant_keys ?ss) (?ts b))"
  let ?own = "\<lambda>s. sort_key fst (own_meta (constant_keys ?ss) (?ts (test s)) s)"
  let ?all = "sort_key fst (global_meta ?ss)"
  obtain bs where bs: "sorted bs" "distinct bs" "set bs = test ` set ss" "groupby test ?ss = map (\<lambda>b. (b, ?ts b)) bs"
    using groupby_sorted [of test ?ss] by (auto simp: sort_key_stable)
  have "benchmark_text R (constant_keys ?ss) (b, ?ts b)
      = benchmark_heading R b (?heading b) @ concat (map (\<lambda>s. printed_line R (?own s) s) (?ts b))" for b
    unfolding benchmark_text_printed by (intro arg_cong2 [where f = "(@)"] refl arg_cong [where f = concat]) simp
  then have printed: "PrettyPrint_text R ss = dashes_around (''PerfKitBenchmarker Results Summary'' @ replicate 25 CHR ''-'')
        @ concat (map (\<lambda>b. benchmark_heading R b (?heading b) @ concat (map (\<lambda>s. printed_line R (?own s) s) (?ts b))) bs)
        @ dashes_around [] @ ''For all tests: '' @ entries R ?all @ [CHR 0x0A]"
    using assms(1) bs(4) by (simp add: PrettyPrint_text_def FormatMetadata_entries dashes_around_def Let_def comp_def)
  have sorted_same: "set ?ss = set ss" "?ss \<noteq> []" using assms(1) by (simp_all add: sort_key_Nil_iff)
  have parts: "distinct (map fst (?own s @ ?heading (test s) @ ?all))
      \<and> (\<not> end_to_end s \<and> \<not> end_to_end (hd (?ts (test s))) \<longrightarrow>
          (\<forall>k. map_option canonical (map_of (?own s @ ?heading (test s) @ ?all) k) = map_option canonical (map_of (metadata_of s) k)))"
    if s: "s \<in> set ss" for s
  proof -
    let ?t = "?ts (test s)"
    have t: "set ?t \<subseteq> set ?ss" "s \<in> set ?t" using s by auto
    then have "hd ?t \<in> set ?ss" "hd ?ss \<in> set ?ss" using sorted_same(2) by (metis empty_iff hd_in_set list.set(1) subsetD)+
    then have once: "distinct (map fst (own_meta (constant_keys ?ss) ?t s @ benchmark_meta (constant_keys ?ss) ?t @ global_meta ?ss))"
      using metadata_printed_once [of s ?t ?ss] assms(2) s sorted_same(1) by blast
    then have "map_of (?own s @ ?heading (test s) @ ?all)
        = map_of (own_meta (constant_keys ?ss) ?t s @ benchmark_meta (constant_keys ?ss) ?t @ global_meta ?ss)"
      by (simp add: sort_key_fst_map_of)
    moreover have "distinct (map fst (?own s @ ?heading (test s) @ ?all))"
      using once by (simp add: distinct_map)
    ultimately show ?thesis
      using metadata_divided [OF _ _ t, of] assms(2,3) sorted_same(1) by simp
  qed
  show ?thesis
    by (rule exI [of _ bs], rule exI [of _ ?heading], rule exI [of _ ?own], rule exI [of _ ?all], intro conjI ballI)
      (use bs(1-3) printed parts in \<open>blast | simp only:\<close>)+
qed

theorem pretty_print_complete_witness:
  "\<exists>bs heading own all. PrettyPrint_text (\<lambda>_. []) [a_sample ''x'' [(''k'', VInt 1), (''n'', VInt 1)], a_sample ''y'' [(''k'', VInt 1), (''n'', VInt 2)]]
      = dashes_around (''PerfKitBenchmarker Results Summary'' @ replicate 25 CHR ''-'')
        @ concat (map (\<lambda>b. benchmark_heading (\<lambda>_. []) b (heading b)
            @ concat (map (\<lambda>s. printed_line (\<lambda>_. []) (own s) s) (filter (\<lambda>s. test s = b)
                [a_sample ''x'' [(''k'', VInt 1), (''n'', VInt 1)], a_sample ''y'' [(''k'', VInt 1), (''n'', VInt 2)]]))) bs)
        @ dashes_around [] @ ''For all tests: '' @ entries (\<lambda>_. []) all @ [CHR 0x0A]
     \<and> map_option canonical (map_of (own (a_sample ''x'' [(''k'', VInt 1), (''n'', VInt 1)]) @ heading ''t'' @ all) ''n'') = Some (VNum 1)"
proof -
  let ?x = "a_sample ''x'' [(''k'', VInt 1), (''n'', VInt 1)]" and ?y = "a_sample ''y'' [(''k'', VInt 1), (''n'', VInt 2)]"
  have "[?x, ?y] \<noteq> []" "\<forall>s \<in> set [?x, ?y]. distinct (map fst (metadata_of s))"
    "\<forall>s \<in> set [?x, ?y]. \<forall>kv \<in> set (metadata_of s). hashable (snd kv)"
    by (simp_all add: a_sample_def metadata_of_def hashable_def)
  from pretty_print_complete [OF this, of "\<lambda>_. []"] obtain bs heading own all where
    "PrettyPrint_text (\<lambda>_. []) [?x, ?y] = dashes_around (''PerfKitBenchmarker Results Summary'' @ replicate 25 CHR ''-'')
        @ concat (map (\<lambda>b. benchmark_heading (\<lambda>_. []) b (heading b)
            @ concat (map (\<lambda>s. printed_line (\<lambda>_. []) (own s) s) (filter (\<lambda>s. test s = b) [?x, ?y]))) bs)
        @ dashes_around [] @ ''For all tests: '' @ entries (\<lambda>_. []) all @ [CHR 0x0A]"
    and parts: "\<forall>s \<in> set [?x, ?y]. distinct (map fst (own s @ heading (test s) @ all))
        \<and> (\<not> end_to_end s \<and> \<not> end_to_end (hd (filter (\<lambda>t. test t = test s) [?x, ?y])) \<longrightarrow>
            (\<forall>k. map_option canonical (map_of (own s @ heading (test s) @ all) k) = map_option canonical (map_of (metadata_of s) k)))"
    by blast
  moreover have "map_option canonical (map_of (own ?x @ heading (test ?x) @ all) ''n'') = map_option canonical (map_of (metadata_of ?x) ''n'')"
    using parts by (simp add: a_sample_def end_to_end_def)
  then have "map_option canonical (map_of (own ?x @ heading ''t'' @ all) ''n'') = Some (VNum 1)"
    by (simp add: a_sample_def metadata_of_def)
  ultimately show ?thesis by blast
qed

end
