(* ===== verification/Construct.thy ===== *)
theory Construct
  imports SpecLifecycle VmGroups ContainerSpecs
begin

text \<open>
  \<open>perfkitbenchmarker/benchmark_spec.py\<close> once more: \<open>ConstructResources\<close>, which makes the objects of the resources
  that the configuration of a benchmark asks for; \<open>SpecLifecycle\<close> has what happens to them afterwards.

  Objects are numbered as they are made; what they are told afterwards, such as their machines, stays with them and
  is not part of the state.  The classes of the providers and their constructors are parameters that
  may fail.  How machines are made is modelled in \<open>VmGroups\<close>; here it is a parameter as well.  Of the attributes
  that \<open>slot\<close> of \<open>SpecLifecycle\<close> has no name for there is one, the service for agents.
\<close>

section \<open>State and parameters\<close>

datatype held = Attribute slot | AiAgent

record builder =
  held_object :: "held \<Rightarrow> nat option"
  resources :: "nat list"
  objects_made :: "held list"
  to_boot :: "(string \<times> group_spec) list"
  machine_groups :: "(string \<times> nat list) list"
  tpu_objects :: "(string \<times> nat) list"
  reservation_objects :: "nat list"
  placement_objects :: "(string \<times> nat option) list"

text \<open>The configuration: the spec of a resource if there is one; and the parameters.  A class is asked for by
  attributes of the spec.  \<open>frozen\<close> says whether a frozen benchmark has an attribute, and if so, whether it holds
  an object.\<close>

record construct_env =
  option_of :: "held \<Rightarrow> metadata_dict option"
  frozen :: "held \<Rightarrow> bool option"
  load :: "pyval \<Rightarrow> exn + unit"
  class_for :: "held \<Rightarrow> pyval list \<Rightarrow> exn + unit"
  constructor :: "held \<Rightarrow> exn + unit"
  set_vms :: "held \<Rightarrow> (string \<times> nat list) list \<Rightarrow> exn + unit"
  set_registry :: "exn + unit"
  edw_provider :: "pyval \<Rightarrow> pyval"
  set_cluster :: "exn + unit"
  is_kubernetes :: bool
  default_engine_version :: "exn + unit"
  exported_groups :: "(string \<times> group_spec) list"
  worker_group :: group_spec
  dpb_zone :: "string option"
  make_machines :: "(string \<times> group_spec) list \<Rightarrow> exn + (string \<times> nat list) list"
  tpu_specs :: "(string \<times> metadata_dict) list"
  machine_cloud :: "nat \<Rightarrow> pyval"
  use_capacity_reservations :: bool
  placement_specs :: "(string \<times> pyval) list"
  placement_class :: "pyval \<Rightarrow> exn + bool"

type_synonym 'a construct_act = "(exn, builder, 'a) py"

section \<open>A new benchmark spec\<close>

text \<open>\<open>VmsToBoot\<close> of \<open>perfkitbenchmarker/relational_db.py\<close>: the groups of a database for which there are machines\<close>

definition VmsToBoot :: "bool \<Rightarrow> (string \<times> group_spec) list \<Rightarrow> (string \<times> group_spec) list" where
  "VmsToBoot use_managed_db vm_groups = filter (\<lambda>(name, _). name \<in> {''clients'', ''default'', ''controller''}
     \<or> \<not> use_managed_db \<and> name = ''servers'' \<or> \<not> use_managed_db \<and> name = ''servers_replicas'') vm_groups"

text \<open>The groups of the database, if there is one, are replaced by those of the configuration.\<close>

definition new_builder :: "bool \<Rightarrow> (string \<times> group_spec) list option \<Rightarrow> (string \<times> group_spec) list \<Rightarrow> builder" where
  "new_builder use_managed_db db_groups vm_groups = \<lparr>held_object = (\<lambda>_. None), resources = [], objects_made = [],
     to_boot = dict_update (case db_groups of None \<Rightarrow> [] | Some gs \<Rightarrow> dict_update [] (VmsToBoot use_managed_db gs)) vm_groups,
     machine_groups = [], tpu_objects = [], reservation_objects = [], placement_objects = []\<rparr>"

section \<open>Objects\<close>

definition new_instance :: "construct_env \<Rightarrow> held \<Rightarrow> nat construct_act" where
  "new_instance E s = thenM (lift (constructor E s)) (bindM (getM (\<lambda>b. length (objects_made b))) (\<lambda>i.
     thenM (modifyM (\<lambda>b. b\<lparr>objects_made := objects_made b @ [s]\<rparr>)) (ret i)))"

definition hold :: "held \<Rightarrow> nat \<Rightarrow> unit construct_act" where
  "hold s i = modifyM (\<lambda>b. b\<lparr>held_object := (held_object b)(s := Some i)\<rparr>)"

definition register :: "nat \<Rightarrow> unit construct_act" where
  "register i = modifyM (\<lambda>b. b\<lparr>resources := resources b @ [i]\<rparr>)"

text \<open>\<open>self.x = cls(spec)\<close>, then more, and \<open>self.resources.append(self.x)\<close>\<close>

definition made_held :: "construct_env \<Rightarrow> held \<Rightarrow> unit construct_act \<Rightarrow> bool \<Rightarrow> unit construct_act" where
  "made_held E s rest registered = bindM (new_instance E s) (\<lambda>i.
     thenM (hold s i) (thenM rest (whenM registered (register i))))"

definition if_asked :: "construct_env \<Rightarrow> held \<Rightarrow> (metadata_dict \<Rightarrow> unit construct_act) \<Rightarrow> unit construct_act" where
  "if_asked E s f = (case option_of E s of None \<Rightarrow> ret () | Some spec \<Rightarrow> f spec)"

definition find_class :: "construct_env \<Rightarrow> held \<Rightarrow> string list \<Rightarrow> metadata_dict \<Rightarrow> unit construct_act" where
  "find_class E s ks spec = lift (class_for E s (map (opt_get spec) ks))"

definition load_cloud_of :: "construct_env \<Rightarrow> metadata_dict \<Rightarrow> unit construct_act" where
  "load_cloud_of E spec = lift (load E (opt_get spec ''cloud''))"

text \<open>What most methods do: load the provider, find the class, make the object\<close>

definition usual :: "construct_env \<Rightarrow> held \<Rightarrow> string list \<Rightarrow> unit construct_act \<Rightarrow> bool \<Rightarrow> unit construct_act" where
  "usual E s ks rest registered = if_asked E s (\<lambda>spec.
     thenM (load_cloud_of E spec) (thenM (find_class E s ks spec) (made_held E s rest registered)))"

definition give_vms :: "construct_env \<Rightarrow> held \<Rightarrow> unit construct_act" where
  "give_vms E s = bindM (getM machine_groups) (\<lambda>gs. lift (set_vms E s gs))"

section \<open>Resources of the configuration\<close>

definition ConstructContainerRegistry :: "construct_env \<Rightarrow> unit construct_act" where
  "ConstructContainerRegistry E = usual E (Attribute Registry) [''cloud''] (ret ()) True"

definition ConstructContainerCluster :: "construct_env \<Rightarrow> unit construct_act" where
  "ConstructContainerCluster E = usual E (Attribute ContainerCluster) [''cloud'', ''type'']
     (bindM (getM (\<lambda>b. held_object b (Attribute Registry))) (\<lambda>r. whenM (r \<noteq> None) (lift (set_registry E)))) True"

definition ConstructCluster :: "construct_env \<Rightarrow> unit construct_act" where
  "ConstructCluster E = if_asked E (Attribute Cluster) (\<lambda>spec. thenM (usual E (Attribute Cluster) [''cloud''] (ret ()) True)
     (modifyM (\<lambda>b. b\<lparr>to_boot := dict_update (to_boot b) (exported_groups E)\<rparr>)))"

text \<open>A data processing service that PKB runs on machines of its own brings their groups.\<close>

definition unmanaged_dpb :: "metadata_dict \<Rightarrow> bool" where
  "unmanaged_dpb spec =
     (opt_get spec ''service_type'' \<in> {VStr ''unmanaged_dpb_svc_yarn_cluster'', VStr ''unmanaged_spark_cluster''})"

definition dpb_groups :: "construct_env \<Rightarrow> metadata_dict \<Rightarrow> unit construct_act" where
  "dpb_groups E spec = bindM (getM to_boot) (\<lambda>groups.
     if groups \<noteq> [] then raise (exn (Benchmarks UnsupportedConfigError) ''Invalid Non cluster vm group'')
     else let n = (case opt_get spec ''worker_count'' of VInt n \<Rightarrow> nat n | _ \<Rightarrow> 0);
              w = (worker_group E)\<lparr>vm_count := n, group_vm_spec := (group_vm_spec (worker_group E))\<lparr>spec_zone := dpb_zone E\<rparr>\<rparr>
          in modifyM (\<lambda>b. b\<lparr>to_boot := (if n \<noteq> 0 then [(''worker_group'', w)] else [])
               @ [(''master_group'', w\<lparr>vm_count := 1, disk_spec := None\<rparr>)]\<rparr>))"

definition ConstructDpbService :: "construct_env \<Rightarrow> unit construct_act" where
  "ConstructDpbService E = if_asked E (Attribute Dpb) (\<lambda>spec.
     thenM (lift (load E (VStr (VmGroups.group_cloud (worker_group E)))))
     (thenM (lift (class_for E (Attribute Dpb) [VStr (VmGroups.group_cloud (worker_group E)), opt_get spec ''service_type'']))
     (made_held E (Attribute Dpb) (whenM (unmanaged_dpb spec) (dpb_groups E spec)) True)))"

text \<open>The groups of machines, and those that the data processing service asks for\<close>

definition ConstructPlacementGroups :: "construct_env \<Rightarrow> unit construct_act" where
  "ConstructPlacementGroups E = forM (placement_specs E) (\<lambda>(name, provider).
     bindM (lift (placement_class E provider)) (\<lambda>found.
     bindM (if found then bindM (new_instance E (Attribute (PlacementGroup name))) (\<lambda>i. ret (Some i)) else ret None) (\<lambda>i.
       modifyM (\<lambda>b. b\<lparr>placement_objects := dict_set (placement_objects b) name i\<rparr>))))"

definition dpb_machines :: "construct_env \<Rightarrow> unit construct_act" where
  "dpb_machines E = if_asked E (Attribute Dpb) (\<lambda>spec. whenM (unmanaged_dpb spec) (bindM (getM machine_groups) (\<lambda>gs.
     lift (if map_of gs ''master_group'' = None then Inl (missing_key ''master_group'')
       else if py_true (opt_get spec ''worker_count'') \<and> map_of gs ''worker_group'' = None then Inl (missing_key ''worker_group'')
       else Inr ()))))"

definition make_groups :: "construct_env \<Rightarrow> unit construct_act" where
  "make_groups E = thenM (ConstructPlacementGroups E) (bindM (getM to_boot) (\<lambda>groups.
     bindM (lift (make_machines E groups)) (\<lambda>gs. thenM (modifyM (\<lambda>b. b\<lparr>machine_groups := gs\<rparr>)) (dpb_machines E))))"

text \<open>A database may be taken from a frozen benchmark instead.\<close>

definition InitializeFromSpec :: "construct_env \<Rightarrow> held \<Rightarrow> metadata_dict \<Rightarrow> bool construct_act" where
  "InitializeFromSpec E s spec = (case frozen E s of
     None \<Rightarrow> ret False
   | Some is_object \<Rightarrow> if \<not> py_true (opt_get spec ''enable_freeze_restore'') then ret False
       else if is_object
         then bindM (getM (\<lambda>b. length (objects_made b))) (\<lambda>i.
           thenM (modifyM (\<lambda>b. b\<lparr>objects_made := objects_made b @ [s]\<rparr>)) (thenM (hold s i) (ret True)))
         else thenM (modifyM (\<lambda>b. b\<lparr>held_object := (held_object b)(s := None)\<rparr>)) (ret True))"

definition ConstructRelationalDb :: "construct_env \<Rightarrow> unit construct_act" where
  "ConstructRelationalDb E = if_asked E (Attribute RelationalDb) (\<lambda>spec.
     bindM (InitializeFromSpec E (Attribute RelationalDb) spec) (\<lambda>restored. whenM (\<not> restored)
       (thenM (load_cloud_of E spec) (thenM (find_class E (Attribute RelationalDb) [''cloud'', ''is_managed_db'', ''engine''] spec)
       (thenM (whenM (\<not> py_true (opt_get spec ''engine_version'')) (lift (default_engine_version E)))
       (made_held E (Attribute RelationalDb) (ret ()) True))))))"

definition ConstructNonRelationalDb :: "construct_env \<Rightarrow> unit construct_act" where
  "ConstructNonRelationalDb E = if_asked E (Attribute NonRelationalDb) (\<lambda>spec.
     bindM (InitializeFromSpec E (Attribute NonRelationalDb) spec) (\<lambda>restored. whenM (\<not> restored)
       (thenM (find_class E (Attribute NonRelationalDb) [''service_type''] spec)
       (made_held E (Attribute NonRelationalDb) (ret ()) False))))"

definition ConstructKey :: "construct_env \<Rightarrow> unit construct_act" where
  "ConstructKey E = if_asked E (Attribute Key) (\<lambda>spec.
     thenM (find_class E (Attribute Key) [''cloud''] spec) (made_held E (Attribute Key) (ret ()) True))"

definition ConstructMessagingService :: "construct_env \<Rightarrow> unit construct_act" where
  "ConstructMessagingService E =
     usual E (Attribute Messaging) [''cloud'', ''delivery''] (give_vms E (Attribute Messaging)) False"

text \<open>The machine that a service is used from: the first client, or the first of the default group\<close>

definition client_machine :: "unit construct_act" where
  "client_machine = bindM (getM machine_groups) (\<lambda>gs. lift
     (if gs = [] then Inl (exn (Builtin AssertionError) [])
      else let name = (if map_of gs ''clients'' \<noteq> None then ''clients'' else ''default'')
           in case map_of gs name of None \<Rightarrow> Inl (missing_key name) | Some [] \<Rightarrow> Inl index_error | Some _ \<Rightarrow> Inr ()))"

definition ConstructManagedAiModel :: "construct_env \<Rightarrow> unit construct_act" where
  "ConstructManagedAiModel E = if_asked E (Attribute AiModel) (\<lambda>spec.
     thenM (load_cloud_of E spec) (thenM (find_class E (Attribute AiModel) [''cloud'', ''interface''] spec)
     (thenM client_machine (made_held E (Attribute AiModel) (ret ()) True))))"

definition ConstructAiAgentService :: "construct_env \<Rightarrow> unit construct_act" where
  "ConstructAiAgentService E = if_asked E AiAgent (\<lambda>spec.
     thenM (load_cloud_of E spec) (thenM client_machine
     (thenM (find_class E AiAgent [''cloud'', ''deployment_type''] spec) (made_held E AiAgent (ret ()) True))))"

definition ConstructCapacityReservations :: "construct_env \<Rightarrow> unit construct_act" where
  "ConstructCapacityReservations E = whenM (use_capacity_reservations E) (bindM (getM machine_groups) (\<lambda>gs.
     forM gs (\<lambda>(_, vms). case vms of
         [] \<Rightarrow> raise index_error
       | v # _ \<Rightarrow> thenM (lift (load E (machine_cloud E v))) (bindM (getM (\<lambda>b. length (reservation_objects b))) (\<lambda>n.
           thenM (lift (class_for E (Attribute (Reservation n)) [machine_cloud E v]))
           (bindM (new_instance E (Attribute (Reservation n))) (\<lambda>i.
             modifyM (\<lambda>b. b\<lparr>reservation_objects := reservation_objects b @ [i]\<rparr>))))))))"

text \<open>A group has a spec, since its decoder makes one.\<close>

definition ConstructTpu :: "construct_env \<Rightarrow> unit construct_act" where
  "ConstructTpu E = forM (sort_key fst (tpu_specs E)) (\<lambda>(name, spec).
     thenM (load_cloud_of E spec) (bindM (getM (\<lambda>b. length (tpu_objects b))) (\<lambda>n.
       thenM (find_class E (Attribute (Tpu n)) [''cloud''] spec)
       (bindM (new_instance E (Attribute (Tpu n))) (\<lambda>i. modifyM (\<lambda>b. b\<lparr>tpu_objects := tpu_objects b @ [(name, i)]\<rparr>))))))"

definition ConstructEdwService :: "construct_env \<Rightarrow> unit construct_act" where
  "ConstructEdwService E = if_asked E (Attribute EdwService) (\<lambda>spec.
     thenM (lift (load E (edw_provider E (opt_get spec ''type''))))
     (thenM (find_class E (Attribute EdwService) [''type''] spec)
     (made_held E (Attribute EdwService)
       (bindM (getM (\<lambda>b. held_object b (Attribute ContainerCluster))) (\<lambda>c. whenM (c \<noteq> None)
         (if is_kubernetes E then lift (set_cluster E) else raise (exn (Builtin AssertionError) [])))) False)))"

definition ConstructEdwComputeResource :: "construct_env \<Rightarrow> unit construct_act" where
  "ConstructEdwComputeResource E = usual E (Attribute EdwCompute) [''cloud'', ''type''] (ret ()) True"

definition ConstructExampleResource :: "construct_env \<Rightarrow> unit construct_act" where
  "ConstructExampleResource E = if_asked E (Attribute ExampleResource) (\<lambda>spec.
     thenM (find_class E (Attribute ExampleResource) [''example_type''] spec)
     (made_held E (Attribute ExampleResource) (ret ()) True))"

definition ConstructBaseJob :: "construct_env \<Rightarrow> unit construct_act" where
  "ConstructBaseJob E = if_asked E (Attribute BaseJob) (\<lambda>spec. thenM (lift (load E (opt_get spec ''CLOUD'')))
     (thenM (find_class E (Attribute BaseJob) [''job_type''] spec) (made_held E (Attribute BaseJob) (ret ()) True)))"

definition ConstructVPNService :: "construct_env \<Rightarrow> unit construct_act" where
  "ConstructVPNService E = if_asked E (Attribute VpnService) (\<lambda>_. made_held E (Attribute VpnService) (ret ()) False)"

definition ConstructDataDiscoveryService :: "construct_env \<Rightarrow> unit construct_act" where
  "ConstructDataDiscoveryService E = usual E (Attribute DataDiscovery) [''cloud'', ''service_type''] (ret ()) False"

definition ConstructMemoryStore :: "construct_env \<Rightarrow> unit construct_act" where
  "ConstructMemoryStore E = usual E (Attribute MemoryStore) [''cloud'', ''service_type'', ''memory_store_type'']
     (give_vms E (Attribute MemoryStore)) True"

definition ConstructPinecone :: "construct_env \<Rightarrow> unit construct_act" where
  "ConstructPinecone E = usual E (Attribute Pinecone) [''cloud''] (give_vms E (Attribute Pinecone)) True"

definition ConstructVertexVectorSearch :: "construct_env \<Rightarrow> unit construct_act" where
  "ConstructVertexVectorSearch E = usual E (Attribute VectorSearch) [''cloud''] (give_vms E (Attribute VectorSearch)) True"

section \<open>Resources that disks ask for\<close>

text \<open>The first group with machines that has a disk of the type\<close>

fun group_with_disk :: "string \<Rightarrow> (string \<times> group_spec) list \<Rightarrow> (group_spec \<times> metadata_dict) option" where
  "group_with_disk t [] = None"
| "group_with_disk t ((_, g) # gs) = (case disk_spec g of
     None \<Rightarrow> group_with_disk t gs
   | Some d \<Rightarrow> if vm_count g \<noteq> 0 \<and> opt_get d ''disk_type'' = VStr t then Some (g, d) else group_with_disk t gs)"

definition cloud_disk_service :: "construct_env \<Rightarrow> held \<Rightarrow> group_spec \<Rightarrow> unit construct_act" where
  "cloud_disk_service E s g = thenM (lift (load E (VStr (VmGroups.group_cloud g))))
     (thenM (lift (class_for E s [VStr (VmGroups.group_cloud g)])) (made_held E s (ret ()) False))"

definition disk_service ::
  "construct_env \<Rightarrow> held \<Rightarrow> string \<Rightarrow> (group_spec \<Rightarrow> metadata_dict \<Rightarrow> unit construct_act) \<Rightarrow> unit construct_act" where
  "disk_service E s t f = bindM (getM (\<lambda>b. (held_object b s, to_boot b))) (\<lambda>(h, gs).
     if h \<noteq> None then ret () else case group_with_disk t gs of None \<Rightarrow> ret () | Some (g, d) \<Rightarrow> f g d)"

definition ConstructNfsService :: "construct_env \<Rightarrow> unit construct_act" where
  "ConstructNfsService E = disk_service E (Attribute Nfs) ''nfs'' (\<lambda>g d.
     if py_true (opt_get d ''nfs_ip_address'') then made_held E (Attribute Nfs) (ret ()) False
     else if py_true (opt_get d ''nfs_managed'') then cloud_disk_service E (Attribute Nfs) g
     else bindM (getM machine_groups) (\<lambda>gs. if concat (map snd gs) = [] then raise index_error
       else made_held E (Attribute Nfs) (ret ()) False))"

definition ConstructLustreService :: "construct_env \<Rightarrow> unit construct_act" where
  "ConstructLustreService E = disk_service E (Attribute Lustre) ''lustre'' (\<lambda>g _. cloud_disk_service E (Attribute Lustre) g)"

definition ConstructSmbService :: "construct_env \<Rightarrow> unit construct_act" where
  "ConstructSmbService E = disk_service E (Attribute Smb) ''smb'' (\<lambda>g _. cloud_disk_service E (Attribute Smb) g)"

text \<open>The loop goes on after a disk has been made.\<close>

definition multi_attach_group :: "construct_env \<Rightarrow> group_spec \<Rightarrow> unit construct_act" where
  "multi_attach_group E g = (case disk_spec g of
     None \<Rightarrow> ret ()
   | Some d \<Rightarrow> if opt_get d ''disk_type'' \<noteq> VStr ''hyperdisk-ml'' then ret ()
       else case opt_get d ''num_striped_disks'' of
         VInt n \<Rightarrow> if n > 1
           then raise (exn (Benchmarks UnsupportedConfigError) ''Disk type hyperdisk-ml allows only 1 striped disk.'')
           else cloud_disk_service E (Attribute MultiAttachDisk) g
       | _ \<Rightarrow> raise (exn (Builtin TypeError) ''> not supported''))"

definition ConstructMultiAttachDisk :: "construct_env \<Rightarrow> unit construct_act" where
  "ConstructMultiAttachDisk E = bindM (getM (\<lambda>b. (held_object b (Attribute MultiAttachDisk), to_boot b))) (\<lambda>(h, gs).
     if h \<noteq> None then ret () else forM gs (\<lambda>(_, g). multi_attach_group E g))"

definition ConstructResources :: "construct_env \<Rightarrow> unit construct_act" where
  "ConstructResources E = seqM (map (\<lambda>f. f E)
     [ConstructContainerRegistry, ConstructContainerCluster, ConstructDpbService, ConstructCluster, make_groups,
      ConstructRelationalDb, ConstructNonRelationalDb, ConstructKey, ConstructMessagingService, ConstructManagedAiModel,
      ConstructCapacityReservations, ConstructTpu, ConstructEdwService, ConstructEdwComputeResource,
      ConstructExampleResource, ConstructBaseJob, ConstructVPNService, ConstructNfsService, ConstructLustreService,
      ConstructSmbService, ConstructDataDiscoveryService, ConstructBaseJob, ConstructMemoryStore, ConstructPinecone,
      ConstructVertexVectorSearch, ConstructAiAgentService, ConstructMultiAttachDisk])"

text \<open>\<open>GetSamples\<close>: the samples of the resources, one after the other\<close>

definition GetSamples_spec :: "(nat \<Rightarrow> sample list) \<Rightarrow> builder \<Rightarrow> sample list" where
  "GetSamples_spec samples_of b = concat (map samples_of (resources b))"

section \<open>Tags\<close>

text \<open>\<open>_SafeLabelKeyOrValue\<close>, for texts of ASCII\<close>

definition safe_character :: "char \<Rightarrow> bool" where
  "safe_character c = (let n = of_char c :: nat in
     48 \<le> n \<and> n \<le> 57 \<or> 65 \<le> n \<and> n \<le> 90 \<or> 97 \<le> n \<and> n \<le> 122 \<or> c = CHR ''_'')"

definition lower_character :: "char \<Rightarrow> char" where
  "lower_character c = (let n = of_char c :: nat in if 65 \<le> n \<and> n \<le> 90 then char_of (n + 32) else c)"

definition strip_underscores :: "string \<Rightarrow> string" where
  "strip_underscores s = rev (dropWhile (\<lambda>c. c = CHR ''_'') (rev (dropWhile (\<lambda>c. c = CHR ''_'') s)))"

definition SafeLabelKeyOrValue :: "string \<Rightarrow> string" where
  "SafeLabelKeyOrValue key = strip_underscores (take 63
     (map (\<lambda>c. if safe_character c then c else CHR ''_'') (map lower_character key)))"

text \<open>The times are texts; the tags that come first may be replaced by the user's.\<close>

definition GetResourceDict :: "(string \<times> string) list \<Rightarrow> string list \<Rightarrow> (string \<times> string) list" where
  "GetResourceDict tags metadata_flag = foldl (\<lambda>d (k, v). dict_set d (SafeLabelKeyOrValue k) (SafeLabelKeyOrValue v))
     tags (ParseKeyValuePairs metadata_flag)"

section \<open>What each method adds\<close>

definition config_attributes :: "held list" where
  "config_attributes = map Attribute [Registry, ContainerCluster, Dpb, Cluster, RelationalDb, NonRelationalDb, Key, Messaging,
     AiModel, EdwService, EdwCompute, ExampleResource, BaseJob, VpnService, DataDiscovery, MemoryStore, Pinecone, VectorSearch]
     @ [AiAgent]"

text \<open>An attribute that is restored from a frozen benchmark which has no object in it\<close>

definition lost :: "construct_env \<Rightarrow> held \<Rightarrow> bool" where
  "lost E s = (s \<in> {Attribute RelationalDb, Attribute NonRelationalDb} \<and> frozen E s = Some False
     \<and> (case option_of E s of None \<Rightarrow> False | Some spec \<Rightarrow> py_true (opt_get spec ''enable_freeze_restore'')))"

definition numbered :: "construct_env \<Rightarrow> builder \<Rightarrow> bool" where
  "numbered E b = ((\<forall>i \<in> set (resources b). i < length (objects_made b))
     \<and> (\<forall>s i. held_object b s = Some i \<longrightarrow> i < length (objects_made b) \<and> objects_made b ! i = s)
     \<and> (\<forall>s. lost E s \<longrightarrow> held_object b s = None))"

definition kinds :: "builder \<Rightarrow> held list" where
  "kinds b = map (\<lambda>i. objects_made b ! i) (resources b)"

text \<open>\<open>adds E f H K\<close>: if \<open>f\<close> returns, the attributes \<open>H\<close> of the configuration have got objects, and objects of the kinds
  \<open>K\<close> have been added to the resources.\<close>

definition adds :: "construct_env \<Rightarrow> 'a construct_act \<Rightarrow> held set \<Rightarrow> held list \<Rightarrow> bool" where
  "adds E f H K = (\<forall>b. numbered E b \<longrightarrow> wp f (\<lambda>_ b'. numbered E b' \<and> (\<exists>os. objects_made b' = objects_made b @ os)
     \<and> (\<forall>s \<in> set config_attributes. held_object b' s \<noteq> None \<longleftrightarrow> held_object b s \<noteq> None \<or> s \<in> H)
     \<and> kinds b' = kinds b @ K) (\<lambda>_ _. True) b)"

named_theorems adds_intros

lemma addsD:
  "adds E f H K \<Longrightarrow> numbered E b \<Longrightarrow> wp f (\<lambda>_ b'. numbered E b' \<and> (\<exists>os. objects_made b' = objects_made b @ os)
     \<and> (\<forall>s \<in> set config_attributes. held_object b' s \<noteq> None \<longleftrightarrow> held_object b s \<noteq> None \<or> s \<in> H)
     \<and> kinds b' = kinds b @ K) (\<lambda>_ _. True) b"
  by (simp add: adds_def)

lemma adds_ret [adds_intros]: "adds E (ret x) {} []"
  by (simp add: adds_def wp_ret)

lemma adds_getM [adds_intros]: "adds E (getM f) {} []"
  by (simp add: adds_def wp_getM)

lemma adds_lift [adds_intros]: "adds E (lift r) {} []"
  by (cases r) (simp_all add: adds_def lift_def wp_ret wp_raise)

lemma adds_raise [adds_intros]: "adds E (raise e) H K"
  by (simp add: adds_def wp_raise)

lemma adds_modify [adds_intros]:
  assumes "\<And>b. held_object (f b) = held_object b" and "\<And>b. resources (f b) = resources b"
    and "\<And>b. objects_made (f b) = objects_made b"
  shows "adds E (modifyM f) {} []"
  using assms by (simp add: adds_def wp_modifyM numbered_def kinds_def)

lemma adds_bindM:
  assumes "adds E f H K" and "\<And>x. adds E (g x) H' K'"
  shows "adds E (bindM f g) (H \<union> H') (K @ K')"
  unfolding adds_def wp_bindM
proof (intro allI impI)
  fix b
  assume "numbered E b"
  show "wp f (\<lambda>x t. wp (g x) (\<lambda>_ b'. numbered E b' \<and> (\<exists>os. objects_made b' = objects_made b @ os)
     \<and> (\<forall>s \<in> set config_attributes. held_object b' s \<noteq> None \<longleftrightarrow> held_object b s \<noteq> None \<or> s \<in> H \<union> H')
     \<and> kinds b' = kinds b @ K @ K') (\<lambda>_ _. True) t) (\<lambda>_ _. True) b"
  proof (rule wp_mono [OF addsD [OF assms(1) \<open>numbered E b\<close>]])
    fix x t
    assume t: "numbered E t \<and> (\<exists>os. objects_made t = objects_made b @ os)
     \<and> (\<forall>s \<in> set config_attributes. held_object t s \<noteq> None \<longleftrightarrow> held_object b s \<noteq> None \<or> s \<in> H)
     \<and> kinds t = kinds b @ K"
    then have "numbered E t" by blast
    from addsD [OF assms(2) this]
    show "wp (g x) (\<lambda>_ b'. numbered E b' \<and> (\<exists>os. objects_made b' = objects_made b @ os)
     \<and> (\<forall>s \<in> set config_attributes. held_object b' s \<noteq> None \<longleftrightarrow> held_object b s \<noteq> None \<or> s \<in> H \<union> H')
     \<and> kinds b' = kinds b @ K @ K') (\<lambda>_ _. True) t"
    proof (rule wp_mono)
      fix y u
      assume u: "numbered E u \<and> (\<exists>os. objects_made u = objects_made t @ os)
       \<and> (\<forall>s \<in> set config_attributes. held_object u s \<noteq> None \<longleftrightarrow> held_object t s \<noteq> None \<or> s \<in> H')
       \<and> kinds u = kinds t @ K'"
      from t u have "\<exists>os. objects_made u = objects_made b @ os" by (metis append.assoc)
      with t u show "numbered E u \<and> (\<exists>os. objects_made u = objects_made b @ os)
       \<and> (\<forall>s \<in> set config_attributes. held_object u s \<noteq> None \<longleftrightarrow> held_object b s \<noteq> None \<or> s \<in> H \<union> H')
       \<and> kinds u = kinds b @ K @ K'" by auto
    qed simp
  qed simp
qed

lemma adds_bindM_none [adds_intros]: "adds E f {} [] \<Longrightarrow> (\<And>x. adds E (g x) H K) \<Longrightarrow> adds E (bindM f g) H K"
  using adds_bindM [of E f "{}" "[]" g H K] by simp

lemma adds_thenM_none [adds_intros]: "adds E f {} [] \<Longrightarrow> adds E g H K \<Longrightarrow> adds E (thenM f g) H K"
  unfolding thenM_def by (rule adds_bindM_none)

lemma adds_thenM: "adds E f H K \<Longrightarrow> adds E g H' K' \<Longrightarrow> adds E (thenM f g) (H \<union> H') (K @ K')"
  unfolding thenM_def by (rule adds_bindM)

lemma adds_whenM [adds_intros]: "adds E f {} [] \<Longrightarrow> adds E (whenM c f) {} []"
  by (simp add: whenM_def adds_ret)

lemma adds_if [adds_intros]: "adds E f H K \<Longrightarrow> adds E g H K \<Longrightarrow> adds E (if c then f else g) H K"
  by simp

lemma adds_forM [adds_intros]: "(\<And>x. adds E (f x) {} []) \<Longrightarrow> adds E (forM xs f) {} []"
  by (induction xs) (simp_all add: adds_ret adds_thenM_none)

lemma adds_seqM: "list_all2 (\<lambda>f (H, K). adds E f H K) fs hs \<Longrightarrow> adds E (seqM fs) (\<Union> (fst ` set hs)) (concat (map snd hs))"
proof (induction fs hs rule: list_all2_induct)
  case (Cons f fs h hs)
  then show ?case using adds_thenM [of E f "fst h" "snd h" "seqM fs"] by (cases h) simp
qed (simp add: adds_ret)

section \<open>What a new object adds\<close>

lemma numbered_more: "numbered E b \<Longrightarrow> numbered E (b\<lparr>objects_made := objects_made b @ os\<rparr>)"
  by (auto simp: numbered_def nth_append less_Suc_eq trans_less_add1)

lemma kinds_more: "numbered E b \<Longrightarrow> kinds (b\<lparr>objects_made := objects_made b @ os\<rparr>) = kinds b"
  by (simp add: numbered_def kinds_def nth_append)

lemma adds_new_instance [adds_intros]: "adds E (new_instance E s) {} []"
proof -
  have "adds E (thenM (modifyM (\<lambda>b. b\<lparr>objects_made := objects_made b @ [s]\<rparr>)) (ret i)) {} []" for i :: nat
    by (simp add: adds_def wp_thenM wp_modifyM wp_ret numbered_more kinds_more)
  then show ?thesis unfolding new_instance_def
    by (rule adds_thenM_none [OF adds_lift adds_bindM_none [OF adds_getM]])
qed

text \<open>A new object becomes the value of an attribute, and perhaps a resource.\<close>

lemma adds_held:
  assumes "adds E rest {} []" and "\<not> lost E s"
  shows "adds E (bindM (getM (\<lambda>b. length (objects_made b))) (\<lambda>i. thenM (modifyM (\<lambda>b. b\<lparr>objects_made := objects_made b @ [s]\<rparr>))
     (thenM (hold s i) (thenM rest (whenM registered (register i)))))) {s} (if registered then [s] else [])"
  unfolding adds_def
proof (intro allI impI)
  fix b :: builder
  let ?b = "b\<lparr>objects_made := objects_made b @ [s], held_object := (held_object b)(s := Some (length (objects_made b)))\<rparr>"
  assume b: "numbered E b"
  then have c: "numbered E ?b" using assms(2) by (auto simp: numbered_def nth_append less_Suc_eq)
  have k: "kinds ?b = kinds b" using b by (simp add: numbered_def kinds_def nth_append)
  have "wp (thenM rest (whenM registered (register (length (objects_made b))))) (\<lambda>_ b'. numbered E b'
     \<and> (\<exists>os. objects_made b' = objects_made b @ os)
     \<and> (\<forall>s' \<in> set config_attributes. held_object b' s' \<noteq> None \<longleftrightarrow> held_object b s' \<noteq> None \<or> s' \<in> {s})
     \<and> kinds b' = kinds b @ (if registered then [s] else [])) (\<lambda>_ _. True) ?b"
    unfolding wp_thenM
  proof (rule wp_mono [OF addsD [OF assms(1) c]])
    fix x t
    assume t: "numbered E t \<and> (\<exists>os. objects_made t = objects_made ?b @ os)
     \<and> (\<forall>s' \<in> set config_attributes. held_object t s' \<noteq> None \<longleftrightarrow> held_object ?b s' \<noteq> None \<or> s' \<in> {}) \<and> kinds t = kinds ?b @ []"
    then obtain os where os: "objects_made t = objects_made b @ s # os" by auto
    have "numbered E (t\<lparr>resources := resources t @ [length (objects_made b)]\<rparr>)" using t os by (simp add: numbered_def)
    moreover have "kinds (t\<lparr>resources := resources t @ [length (objects_made b)]\<rparr>) = kinds t @ [s]"
      using os by (simp add: kinds_def)
    ultimately show "wp (whenM registered (register (length (objects_made b)))) (\<lambda>_ b'. numbered E b'
     \<and> (\<exists>os. objects_made b' = objects_made b @ os)
     \<and> (\<forall>s' \<in> set config_attributes. held_object b' s' \<noteq> None \<longleftrightarrow> held_object b s' \<noteq> None \<or> s' \<in> {s})
     \<and> kinds b' = kinds b @ (if registered then [s] else [])) (\<lambda>_ _. True) t"
      using t os k by (auto simp: whenM_def register_def wp_ret wp_modifyM)
  qed simp
  then show "wp (bindM (getM (\<lambda>b. length (objects_made b))) (\<lambda>i. thenM (modifyM (\<lambda>b. b\<lparr>objects_made := objects_made b @ [s]\<rparr>))
     (thenM (hold s i) (thenM rest (whenM registered (register i)))))) (\<lambda>_ b'. numbered E b'
     \<and> (\<exists>os. objects_made b' = objects_made b @ os)
     \<and> (\<forall>s' \<in> set config_attributes. held_object b' s' \<noteq> None \<longleftrightarrow> held_object b s' \<noteq> None \<or> s' \<in> {s})
     \<and> kinds b' = kinds b @ (if registered then [s] else [])) (\<lambda>_ _. True) b"
    by (simp add: wp_bindM wp_getM wp_thenM wp_modifyM hold_def)
qed

lemma bindM_assoc: "bindM (bindM m f) g = bindM m (\<lambda>x. bindM (f x) g)"
  by (rule ext) (simp add: bindM_def split: option.split sum.split prod.split)

lemma bindM_ret: "bindM (ret x) f = f x"
  by (rule ext) (simp add: bindM_def ret_def)

lemma adds_weaken: "adds E f H K \<Longrightarrow> H \<inter> set config_attributes = H' \<inter> set config_attributes \<Longrightarrow> adds E f H' K"
proof -
  assume a: "adds E f H K" "H \<inter> set config_attributes = H' \<inter> set config_attributes"
  then have "s \<in> H \<longleftrightarrow> s \<in> H'" if "s \<in> set config_attributes" for s using that by blast
  with a(1) show "adds E f H' K" by (simp add: adds_def)
qed

lemma adds_made_held:
  assumes "adds E rest {} []" and "\<not> lost E s"
  shows "adds E (made_held E s rest registered) {s} (if registered then [s] else [])"
proof -
  have m: "made_held E s rest registered = thenM (lift (constructor E s)) (bindM (getM (\<lambda>b. length (objects_made b))) (\<lambda>i.
     thenM (modifyM (\<lambda>b. b\<lparr>objects_made := objects_made b @ [s]\<rparr>)) (thenM (hold s i) (thenM rest (whenM registered (register i))))))"
    by (simp add: made_held_def new_instance_def thenM_def bindM_assoc bindM_ret)
  show ?thesis unfolding m by (rule adds_thenM_none [OF adds_lift adds_held [OF assms]])
qed

lemma adds_made_other [adds_intros]:
  assumes "s \<notin> set config_attributes" and "adds E rest {} []"
  shows "adds E (made_held E s rest False) {} []"
proof -
  have "\<not> lost E s" using assms(1) by (auto simp: lost_def config_attributes_def)
  from adds_made_held [OF assms(2) this, of False] assms(1) show ?thesis by (auto intro: adds_weaken [of E _ "{s}"])
qed

text \<open>Only databases are restored.\<close>

lemma not_lost [adds_intros]: "s \<noteq> RelationalDb \<Longrightarrow> s \<noteq> NonRelationalDb \<Longrightarrow> \<not> lost E (Attribute s)" "\<not> lost E AiAgent"
  by (simp_all add: lost_def)

section \<open>The methods\<close>

text \<open>The attribute and the object that a spec asks for\<close>

definition got :: "construct_env \<Rightarrow> held \<Rightarrow> held set" where
  "got E s = (if option_of E s = None \<or> lost E s then {} else {s})"

definition added :: "construct_env \<Rightarrow> held \<Rightarrow> held list" where
  "added E s = (if option_of E s = None then [] else [s])"

definition restored :: "construct_env \<Rightarrow> held \<Rightarrow> bool" where
  "restored E s = (case option_of E s of None \<Rightarrow> False
     | Some spec \<Rightarrow> frozen E s \<noteq> None \<and> py_true (opt_get spec ''enable_freeze_restore''))"

lemma adds_if_asked:
  assumes "\<not> lost E s" and "\<And>spec. option_of E s = Some spec \<Longrightarrow> adds E (f spec) {s} [s]"
  shows "adds E (if_asked E s f) (got E s) (added E s)"
  using assms by (cases "option_of E s") (simp_all add: if_asked_def got_def added_def adds_ret)

lemma adds_if_asked_only:
  assumes "\<not> lost E s" and "\<And>spec. option_of E s = Some spec \<Longrightarrow> adds E (f spec) {s} []"
  shows "adds E (if_asked E s f) (got E s) []"
  using assms by (cases "option_of E s") (simp_all add: if_asked_def got_def adds_ret)

lemma adds_if_asked_none [adds_intros]: "(\<And>spec. adds E (f spec) {} []) \<Longrightarrow> adds E (if_asked E s f) {} []"
  by (cases "option_of E s") (simp_all add: if_asked_def adds_ret)

lemma adds_registered [adds_intros]: "\<not> lost E s \<Longrightarrow> adds E rest {} [] \<Longrightarrow> adds E (made_held E s rest True) {s} [s]"
  using adds_made_held [of E rest s True] by simp

lemma adds_unregistered [adds_intros]: "\<not> lost E s \<Longrightarrow> adds E rest {} [] \<Longrightarrow> adds E (made_held E s rest False) {s} []"
  using adds_made_held [of E rest s False] by simp

lemma adds_find [adds_intros]: "adds E (find_class E s ks spec) {} []" "adds E (load_cloud_of E spec) {} []" "adds E (give_vms E s) {} []"
  "adds E client_machine {} []"
  unfolding find_class_def load_cloud_of_def give_vms_def client_machine_def by (intro adds_intros)+

lemma adds_usual: "\<not> lost E s \<Longrightarrow> adds E rest {} [] \<Longrightarrow> adds E (usual E s ks rest True) (got E s) (added E s)"
  "\<not> lost E s \<Longrightarrow> adds E rest {} [] \<Longrightarrow> adds E (usual E s ks rest False) (got E s) []"
  unfolding usual_def by (rule adds_if_asked adds_if_asked_only, assumption, intro adds_intros; assumption)+

lemma adds_dpb_groups [adds_intros]: "adds E (dpb_groups E spec) {} []"
  unfolding dpb_groups_def Let_def by (intro adds_intros) simp_all

lemma usual_methods:
  "adds E (ConstructContainerRegistry E) (got E (Attribute Registry)) (added E (Attribute Registry))"
  "adds E (ConstructContainerCluster E) (got E (Attribute ContainerCluster)) (added E (Attribute ContainerCluster))"
  "adds E (ConstructMessagingService E) (got E (Attribute Messaging)) []"
  "adds E (ConstructEdwComputeResource E) (got E (Attribute EdwCompute)) (added E (Attribute EdwCompute))"
  "adds E (ConstructDataDiscoveryService E) (got E (Attribute DataDiscovery)) []"
  "adds E (ConstructMemoryStore E) (got E (Attribute MemoryStore)) (added E (Attribute MemoryStore))"
  "adds E (ConstructPinecone E) (got E (Attribute Pinecone)) (added E (Attribute Pinecone))"
  "adds E (ConstructVertexVectorSearch E) (got E (Attribute VectorSearch)) (added E (Attribute VectorSearch))"
  unfolding ConstructContainerRegistry_def ConstructContainerCluster_def ConstructMessagingService_def
    ConstructEdwComputeResource_def ConstructDataDiscoveryService_def ConstructMemoryStore_def ConstructPinecone_def
    ConstructVertexVectorSearch_def
  by (intro adds_usual adds_intros; simp)+

lemma other_methods:
  "adds E (ConstructDpbService E) (got E (Attribute Dpb)) (added E (Attribute Dpb))"
  "adds E (ConstructKey E) (got E (Attribute Key)) (added E (Attribute Key))"
  "adds E (ConstructManagedAiModel E) (got E (Attribute AiModel)) (added E (Attribute AiModel))"
  "adds E (ConstructAiAgentService E) (got E AiAgent) (added E AiAgent)"
  "adds E (ConstructExampleResource E) (got E (Attribute ExampleResource)) (added E (Attribute ExampleResource))"
  "adds E (ConstructBaseJob E) (got E (Attribute BaseJob)) (added E (Attribute BaseJob))"
  unfolding ConstructDpbService_def ConstructKey_def ConstructManagedAiModel_def ConstructAiAgentService_def
    ConstructExampleResource_def ConstructBaseJob_def
  by (rule adds_if_asked; intro adds_intros; simp)+

lemma unregistered_methods:
  "adds E (ConstructVPNService E) (got E (Attribute VpnService)) []"
  "adds E (ConstructEdwService E) (got E (Attribute EdwService)) []"
  unfolding ConstructVPNService_def ConstructEdwService_def by (rule adds_if_asked_only; intro adds_intros; simp)+

lemma adds_ConstructCluster: "adds E (ConstructCluster E) (got E (Attribute Cluster)) (added E (Attribute Cluster))"
proof -
  have "adds E (thenM (usual E (Attribute Cluster) [''cloud''] (ret ()) True)
      (modifyM (\<lambda>b. b\<lparr>to_boot := dict_update (to_boot b) (exported_groups E)\<rparr>))) {Attribute Cluster} [Attribute Cluster]"
    if "option_of E (Attribute Cluster) = Some spec" for spec
    using adds_thenM [OF adds_usual(1) [OF not_lost(1) adds_ret, of Cluster E "[''cloud'']"] adds_modify] that
    by (simp add: got_def added_def not_lost)
  then show ?thesis unfolding ConstructCluster_def by (intro adds_if_asked not_lost) simp_all
qed

text \<open>An attribute that is lost has no object before, so that nothing changes.\<close>

lemma adds_clear:
  assumes "lost E s"
  shows "adds E (modifyM (\<lambda>b. b\<lparr>held_object := (held_object b)(s := None)\<rparr>)) {} []"
proof -
  have "b\<lparr>held_object := (held_object b)(s := None)\<rparr> = b" if "numbered E b" for b
  proof -
    have "held_object b s = None" using that assms by (simp add: numbered_def)
    then have "(held_object b)(s := None) = held_object b" by auto
    then show ?thesis by simp
  qed
  then show ?thesis by (simp add: adds_def wp_modifyM)
qed

lemma adds_restore:
  assumes "option_of E s = Some spec" and "s \<in> {Attribute RelationalDb, Attribute NonRelationalDb}"
    and "\<not> lost E s \<Longrightarrow> adds E f {s} K"
  shows "adds E (bindM (InitializeFromSpec E s spec) (\<lambda>r. whenM (\<not> r) f)) (got E s) (if restored E s then [] else K)"
proof -
  consider "lost E s" | "restored E s" "\<not> lost E s" | "\<not> restored E s" "\<not> lost E s"
    by (cases "lost E s"; cases "restored E s") auto
  then show ?thesis
  proof cases
    case 1
    then have "InitializeFromSpec E s spec = thenM (modifyM (\<lambda>b. b\<lparr>held_object := (held_object b)(s := None)\<rparr>)) (ret True)"
      "restored E s" using assms(1) by (auto simp: InitializeFromSpec_def lost_def restored_def)
    then have "bindM (InitializeFromSpec E s spec) (\<lambda>r. whenM (\<not> r) f)
        = thenM (modifyM (\<lambda>b. b\<lparr>held_object := (held_object b)(s := None)\<rparr>)) (ret ())"
      by (simp add: bindM_assoc thenM_def bindM_ret whenM_def)
    with adds_thenM_none [OF adds_clear [OF 1] adds_ret [of E "()"]] \<open>restored E s\<close> 1 show ?thesis
      by (simp add: got_def)
  next
    case 2
    have "adds E (bindM (getM (\<lambda>b. length (objects_made b))) (\<lambda>i. thenM (modifyM (\<lambda>b. b\<lparr>objects_made := objects_made b @ [s]\<rparr>))
       (thenM (hold s i) (thenM (ret ()) (whenM False (register i)))))) {s} []"
      using adds_held [OF adds_ret [of E "()"] 2(2), where registered = False] by simp
    moreover have "frozen E s = Some True" using 2 assms(1,2) by (auto simp: lost_def restored_def)
    ultimately show ?thesis using 2 assms(1)
      by (simp add: InitializeFromSpec_def restored_def got_def bindM_assoc thenM_def bindM_ret whenM_def)
  next
    case 3
    then have "InitializeFromSpec E s spec = ret False"
      using assms(1) by (auto simp: InitializeFromSpec_def restored_def split: option.split)
    with 3 assms(1,3) show ?thesis by (simp add: bindM_ret whenM_def got_def)
  qed
qed

lemma adds_databases:
  "adds E (ConstructRelationalDb E) (got E (Attribute RelationalDb))
     (if restored E (Attribute RelationalDb) then [] else added E (Attribute RelationalDb))"
  "adds E (ConstructNonRelationalDb E) (got E (Attribute NonRelationalDb)) []"
proof -
  show "adds E (ConstructRelationalDb E) (got E (Attribute RelationalDb))
     (if restored E (Attribute RelationalDb) then [] else added E (Attribute RelationalDb))"
  proof (cases "option_of E (Attribute RelationalDb)")
    case None
    then show ?thesis by (simp add: ConstructRelationalDb_def if_asked_def got_def added_def adds_ret)
  next
    case (Some spec)
    have "adds E (thenM (load_cloud_of E spec) (thenM (find_class E (Attribute RelationalDb) [''cloud'', ''is_managed_db'', ''engine''] spec)
       (thenM (whenM (\<not> py_true (opt_get spec ''engine_version'')) (lift (default_engine_version E)))
       (made_held E (Attribute RelationalDb) (ret ()) True)))) {Attribute RelationalDb} [Attribute RelationalDb]"
      if "\<not> lost E (Attribute RelationalDb)"
      by (intro adds_intros that)
    from adds_restore [OF Some _ this] have r: "adds E (ConstructRelationalDb E) (got E (Attribute RelationalDb))
        (if restored E (Attribute RelationalDb) then [] else [Attribute RelationalDb])"
      using Some by (simp add: ConstructRelationalDb_def if_asked_def)
    have "added E (Attribute RelationalDb) = [Attribute RelationalDb]" using Some by (simp add: added_def)
    with r show ?thesis by (simp only:)
  qed
  show "adds E (ConstructNonRelationalDb E) (got E (Attribute NonRelationalDb)) []"
  proof (cases "option_of E (Attribute NonRelationalDb)")
    case None
    then show ?thesis by (simp add: ConstructNonRelationalDb_def if_asked_def got_def adds_ret)
  next
    case (Some spec)
    have "adds E (thenM (find_class E (Attribute NonRelationalDb) [''service_type''] spec)
       (made_held E (Attribute NonRelationalDb) (ret ()) False)) {Attribute NonRelationalDb} []"
      if "\<not> lost E (Attribute NonRelationalDb)"
      by (intro adds_intros that)
    from adds_restore [OF Some _ this] Some show ?thesis by (simp add: ConstructNonRelationalDb_def if_asked_def)
  qed
qed

lemma adds_case_pair [adds_intros]: "(\<And>x y. adds E (f x y) {} []) \<Longrightarrow> adds E (case p of (x, y) \<Rightarrow> f x y) {} []"
  by (cases p) simp

lemma adds_case_option [adds_intros]:
  "adds E f {} [] \<Longrightarrow> (\<And>x. adds E (g x) {} []) \<Longrightarrow> adds E (case r of None \<Rightarrow> f | Some x \<Rightarrow> g x) {} []"
  by (cases r) simp_all

lemma adds_case_list [adds_intros]:
  "adds E f {} [] \<Longrightarrow> (\<And>x xs. adds E (g x xs) {} []) \<Longrightarrow> adds E (case r of [] \<Rightarrow> f | x # xs \<Rightarrow> g x xs) {} []"
  by (cases r) simp_all

lemma not_config:
  "Attribute Nfs \<notin> set config_attributes" "Attribute Lustre \<notin> set config_attributes" "Attribute Smb \<notin> set config_attributes"
  "Attribute MultiAttachDisk \<notin> set config_attributes"
  by (simp_all add: config_attributes_def)

lemma adds_cloud_disk_service [adds_intros]: "s \<notin> set config_attributes \<Longrightarrow> adds E (cloud_disk_service E s g) {} []"
  unfolding cloud_disk_service_def by (intro adds_intros)

lemma adds_disk_service: "(\<And>g d. adds E (f g d) {} []) \<Longrightarrow> adds E (disk_service E s t f) {} []"
  unfolding disk_service_def by (intro adds_intros)

lemma disk_methods:
  "adds E (ConstructNfsService E) {} []" "adds E (ConstructLustreService E) {} []" "adds E (ConstructSmbService E) {} []"
  unfolding ConstructNfsService_def ConstructLustreService_def ConstructSmbService_def
  by (rule adds_disk_service, intro adds_intros not_config)+

lemma adds_multi_attach_group [adds_intros]: "adds E (multi_attach_group E g) {} []"
  unfolding multi_attach_group_def
  by (cases "disk_spec g") (auto intro!: adds_intros not_config split: pyval.split)

lemma loop_methods:
  "adds E (ConstructMultiAttachDisk E) {} []" "adds E (ConstructCapacityReservations E) {} []" "adds E (ConstructTpu E) {} []"
  "adds E (ConstructPlacementGroups E) {} []"
  unfolding ConstructMultiAttachDisk_def ConstructCapacityReservations_def ConstructTpu_def ConstructPlacementGroups_def
  by ((intro adds_intros; simp)+)

lemma adds_make_groups: "adds E (make_groups E) {} []"
  unfolding make_groups_def dpb_machines_def by (intro adds_intros loop_methods; simp)

lemmas methods = usual_methods other_methods unregistered_methods adds_ConstructCluster adds_databases disk_methods
  loop_methods adds_make_groups

text \<open>The objects that \<open>ConstructResources\<close> appends to the resources, in order\<close>

definition registered_order :: "held list" where
  "registered_order = map Attribute [Registry, ContainerCluster, Dpb, Cluster, RelationalDb, Key, AiModel, EdwCompute,
     ExampleResource, BaseJob, BaseJob, MemoryStore, Pinecone, VectorSearch] @ [AiAgent]"

lemma filter_asked: "s \<noteq> Attribute RelationalDb \<Longrightarrow>
    filter (\<lambda>s. option_of E s \<noteq> None \<and> \<not> (s = Attribute RelationalDb \<and> restored E s)) [s] = added E s"
  by (simp add: added_def)

lemma got_one: "{t. t \<in> set [s] \<and> option_of E t \<noteq> None \<and> \<not> lost E t} = got E s"
  by (auto simp: got_def)

lemma got_nothing: "{t. t \<in> set [] \<and> option_of E t \<noteq> None \<and> \<not> lost E t} = {}"
  by simp

lemma Union_asked:
  assumes "map fst hs = map (\<lambda>xs. {s. s \<in> set xs \<and> P s}) oss"
  shows "\<Union> (fst ` set hs) = {s. s \<in> set (concat oss) \<and> P s}"
proof -
  have "fst ` set hs = set (map fst hs)" by simp
  also have "\<dots> = (\<lambda>xs. {s. s \<in> set xs \<and> P s}) ` set oss" by (simp add: assms)
  finally show ?thesis by auto
qed

lemma filter_database:
  "filter (\<lambda>s. option_of E s \<noteq> None \<and> \<not> (s = Attribute RelationalDb \<and> restored E s)) [Attribute RelationalDb]
     = (if restored E (Attribute RelationalDb) then [] else added E (Attribute RelationalDb))"
  by (simp add: added_def)

lemma adds_ConstructResources:
  "adds E (ConstructResources E) {s. s \<in> set config_attributes \<and> option_of E s \<noteq> None \<and> \<not> lost E s}
     (filter (\<lambda>s. option_of E s \<noteq> None \<and> \<not> (s = Attribute RelationalDb \<and> restored E s)) registered_order)"
proof -
  let ?P = "\<lambda>s. option_of E s \<noteq> None \<and> \<not> (s = Attribute RelationalDb \<and> restored E s)"
  let ?a = "\<lambda>s. (got E (Attribute s), added E (Attribute s))" and ?u = "\<lambda>s. (got E (Attribute s), [])"
  let ?hs = "[?a Registry, ?a ContainerCluster, ?a Dpb, ?a Cluster, ({}, []),
    (got E (Attribute RelationalDb), if restored E (Attribute RelationalDb) then [] else added E (Attribute RelationalDb)),
    ?u NonRelationalDb, ?a Key, ?u Messaging, ?a AiModel, ({}, []), ({}, []), ?u EdwService, ?a EdwCompute,
    ?a ExampleResource, ?a BaseJob, ?u VpnService, ({}, []), ({}, []), ({}, []), ?u DataDiscovery, ?a BaseJob, ?a MemoryStore,
    ?a Pinecone, ?a VectorSearch, (got E AiAgent, added E AiAgent), ({}, [])]"
  have "list_all2 (\<lambda>f (H, K). adds E f H K) (map (\<lambda>f. f E)
     [ConstructContainerRegistry, ConstructContainerCluster, ConstructDpbService, ConstructCluster, make_groups,
      ConstructRelationalDb, ConstructNonRelationalDb, ConstructKey, ConstructMessagingService, ConstructManagedAiModel,
      ConstructCapacityReservations, ConstructTpu, ConstructEdwService, ConstructEdwComputeResource,
      ConstructExampleResource, ConstructBaseJob, ConstructVPNService, ConstructNfsService, ConstructLustreService,
      ConstructSmbService, ConstructDataDiscoveryService, ConstructBaseJob, ConstructMemoryStore, ConstructPinecone,
      ConstructVertexVectorSearch, ConstructAiAgentService, ConstructMultiAttachDisk]) ?hs"
    by (simp only: list.map list_all2_Cons list_all2_Nil prod.case methods simp_thms)
  from adds_seqM [OF this]
  have "adds E (ConstructResources E) (\<Union> (fst ` set ?hs)) (concat (map snd ?hs))"
    unfolding ConstructResources_def .
  moreover have "\<Union> (fst ` set ?hs) = {s. s \<in> set config_attributes \<and> option_of E s \<noteq> None \<and> \<not> lost E s}"
  proof -
    let ?s = "\<lambda>s. [Attribute s]"
    let ?os = "[?s Registry, ?s ContainerCluster, ?s Dpb, ?s Cluster, [], ?s RelationalDb, ?s NonRelationalDb, ?s Key,
      ?s Messaging, ?s AiModel, [], [], ?s EdwService, ?s EdwCompute, ?s ExampleResource, ?s BaseJob, ?s VpnService, [], [], [],
      ?s DataDiscovery, ?s BaseJob, ?s MemoryStore, ?s Pinecone, ?s VectorSearch, [AiAgent], []]"
    have u: "map fst ?hs = map (\<lambda>xs. {s. s \<in> set xs \<and> option_of E s \<noteq> None \<and> \<not> lost E s}) ?os"
      by (simp only: list.map fst_conv got_one got_nothing)
    have c: "set (concat ?os) = set config_attributes"
      by (simp add: config_attributes_def insert_commute)
    from Union_asked [OF u] show ?thesis by (simp only: c)
  qed
  moreover have "concat (map snd ?hs) = filter ?P registered_order"
  proof -
    let ?s = "\<lambda>s. [Attribute s]"
    let ?os = "[?s Registry, ?s ContainerCluster, ?s Dpb, ?s Cluster, [], ?s RelationalDb, [], ?s Key, [], ?s AiModel, [], [],
      [], ?s EdwCompute, ?s ExampleResource, ?s BaseJob, [], [], [], [], [], ?s BaseJob, ?s MemoryStore, ?s Pinecone,
      ?s VectorSearch, [AiAgent], []]"
    have m: "map snd ?hs = map (filter ?P) ?os"
      by (simp only: list.map snd_conv filter.simps(1) filter_asked filter_database held.inject held.distinct slot.distinct
        not_False_eq_True)
    have c: "concat ?os = registered_order" by (simp add: registered_order_def)
    from arg_cong [OF m, of concat] show ?thesis by (simp only: filter_concat [symmetric] c)
  qed
  ultimately show ?thesis by simp
qed
section \<open>Construction as a whole\<close>

lemma new_builder_numbered [simp]: "numbered E (new_builder m d g)" "kinds (new_builder m d g) = []"
    "held_object (new_builder m d g) s = None"
  by (simp_all add: numbered_def kinds_def new_builder_def)


definition job_env :: construct_env where
  "job_env = \<lparr>option_of = (\<lambda>s. if s = Attribute Key \<or> s = Attribute BaseJob then Some [(''job_type'', VStr ''test'')] else None),
     frozen = (\<lambda>_. None), load = (\<lambda>_. Inr ()), class_for = (\<lambda>_ _. Inr ()), constructor = (\<lambda>_. Inr ()),
     set_vms = (\<lambda>_ _. Inr ()), set_registry = Inr (), edw_provider = id, set_cluster = Inr (), is_kubernetes = False,
     default_engine_version = Inr (), exported_groups = [], worker_group = two_vms, dpb_zone = None,
     make_machines = (\<lambda>gs. Inr (map (\<lambda>(name, _). (name, [])) gs)), tpu_specs = [], machine_cloud = (\<lambda>_. VNone),
     use_capacity_reservations = False, placement_specs = [], placement_class = (\<lambda>_. Inr False)\<rparr>"

lemmas construct_defs = ConstructContainerRegistry_def ConstructContainerCluster_def ConstructDpbService_def ConstructCluster_def
  make_groups_def ConstructPlacementGroups_def dpb_machines_def ConstructRelationalDb_def ConstructNonRelationalDb_def
  ConstructKey_def ConstructMessagingService_def ConstructManagedAiModel_def ConstructCapacityReservations_def
  ConstructTpu_def ConstructEdwService_def ConstructEdwComputeResource_def ConstructExampleResource_def ConstructBaseJob_def
  ConstructVPNService_def ConstructNfsService_def ConstructLustreService_def ConstructSmbService_def
  ConstructDataDiscoveryService_def ConstructMemoryStore_def ConstructPinecone_def ConstructVertexVectorSearch_def
  ConstructAiAgentService_def ConstructMultiAttachDisk_def usual_def if_asked_def made_held_def new_instance_def hold_def
  register_def find_class_def load_cloud_of_def disk_service_def new_builder_def

text \<open>Two jobs are made, and the second is the value of the attribute.\<close>

lemma job_made_twice:
  "ConstructResources job_env (new_builder False None []) = Some (Inr (), (new_builder False None [])
     \<lparr>held_object := (\<lambda>_. None)(Attribute Key \<mapsto> 0, Attribute BaseJob \<mapsto> 2), resources := [0, 1, 2],
      objects_made := [Attribute Key, Attribute BaseJob, Attribute BaseJob]\<rparr>)"
  by (simp add: ConstructResources_def construct_defs job_env_def py_defs lift_def dict_update_def numeral_2_eq_2)


text \<open>A disk for several machines is made for every group that asks for one; only the last is kept.\<close>

lemma multi_attach_disk_lost:
  assumes "load E (VStr (VmGroups.group_cloud g)) = Inr ()" and "constructor E (Attribute MultiAttachDisk) = Inr ()"
    and "class_for E (Attribute MultiAttachDisk) [VStr (VmGroups.group_cloud g)] = Inr ()"
    and "disk_spec g = Some [(''disk_type'', VStr ''hyperdisk-ml''), (''num_striped_disks'', VInt 1)]"
    and "held_object b (Attribute MultiAttachDisk) = None" and "to_boot b = [(x, g), (y, g)]"
  shows "ConstructMultiAttachDisk E b = Some (Inr (), b\<lparr>
     held_object := (held_object b)(Attribute MultiAttachDisk := Some (length (objects_made b) + 1)),
     objects_made := objects_made b @ [Attribute MultiAttachDisk, Attribute MultiAttachDisk]\<rparr>)"
  using assms by (simp add: ConstructMultiAttachDisk_def multi_attach_group_def cloud_disk_service_def made_held_def
    new_instance_def hold_def opt_get_def py_defs lift_def)

section \<open>Labels\<close>

lemma safe_underscore: "safe_character (CHR ''_'')"
  by (simp add: safe_character_def)

lemma strip_underscores_subset: "set (strip_underscores s) \<subseteq> set s"
  by (auto simp: strip_underscores_def dest!: set_dropWhileD)

lemma strip_underscores_length: "length (strip_underscores s) \<le> length s"
  unfolding strip_underscores_def length_rev by (rule order_trans [OF length_dropWhile_le])
    (simp add: length_dropWhile_le)

lemma strip_underscores_ends:
  assumes "strip_underscores s \<noteq> []"
  shows "hd (strip_underscores s) \<noteq> CHR ''_''" and "last (strip_underscores s) \<noteq> CHR ''_''"
proof -
  let ?P = "\<lambda>c. c = CHR ''_''"
  let ?t = "dropWhile ?P s"
  from assms show "last (strip_underscores s) \<noteq> CHR ''_''"
    using hd_dropWhile [of ?P "rev ?t"] by (simp add: strip_underscores_def last_rev)
  obtain u where u: "rev ?t = u @ dropWhile ?P (rev ?t)" by (metis takeWhile_dropWhile_id)
  then have "?t = strip_underscores s @ rev u" by (metis rev_append rev_rev_ident strip_underscores_def)
  with assms have "hd (strip_underscores s) = hd ?t" "?t \<noteq> []" by (simp_all add: hd_append)
  then show "hd (strip_underscores s) \<noteq> CHR ''_''" using hd_dropWhile [of ?P s] by simp
qed

text \<open>What a label must be like: at most 63 characters, all of them safe, the first and the last no underscore\<close>

lemma SafeLabelKeyOrValue_safe:
  "length (SafeLabelKeyOrValue key) \<le> 63" "c \<in> set (SafeLabelKeyOrValue key) \<Longrightarrow> safe_character c"
  "SafeLabelKeyOrValue key \<noteq> [] \<Longrightarrow> hd (SafeLabelKeyOrValue key) \<noteq> CHR ''_'' \<and> last (SafeLabelKeyOrValue key) \<noteq> CHR ''_''"
proof -
  let ?s = "take 63 (map (\<lambda>c. if safe_character c then c else CHR ''_'') (map lower_character key))"
  show "length (SafeLabelKeyOrValue key) \<le> 63"
    unfolding SafeLabelKeyOrValue_def by (rule order_trans [OF strip_underscores_length]) simp
  have "safe_character d" if "d \<in> set ?s" for d
  proof -
    from in_set_takeD [OF that] obtain c where "d = (if safe_character c then c else CHR ''_'')"
      unfolding set_map by (elim imageE)
    then show ?thesis by (cases "safe_character c") (simp_all add: safe_underscore)
  qed
  then show "c \<in> set (SafeLabelKeyOrValue key) \<Longrightarrow> safe_character c"
    using strip_underscores_subset [of ?s] unfolding SafeLabelKeyOrValue_def by blast
  show "SafeLabelKeyOrValue key \<noteq> [] \<Longrightarrow> hd (SafeLabelKeyOrValue key) \<noteq> CHR ''_'' \<and> last (SafeLabelKeyOrValue key) \<noteq> CHR ''_''"
    using strip_underscores_ends [of ?s] unfolding SafeLabelKeyOrValue_def by blast
qed

end
