(* ===== verification/Spec2Isabelle.thy ===== *)
theory Spec2Isabelle
  imports ResourceModel Task Parallel Waiting FlagValues BenchmarkSets Registry Decoders Status SpecRun Ycsb Edw VmGroups Maintenance Disks DbSpecs Publishers Construct
begin

text \<open>
  PerfKitBenchmarker: the core of the program, from its configuration to the exit status.  File names
  are relative to \<open>src/perfkitbenchmarker/\<close>.

  \<^bold>\<open>The program.\<close>  A run reads flags and configurations (\<open>configs/__init__.py\<close>, \<open>flag_util.py\<close>,
  \<open>flag_alias.py\<close>), decides which benchmarks to run with which configurations
  (\<open>benchmark_sets.py\<close>), checks and decodes these into specs (\<open>configs/spec.py\<close>,
  \<open>configs/option_decoders.py\<close>, classes from \<open>configs/auto_registry.py\<close>), and takes every benchmark
  through the stages provision, prepare, run, cleanup and teardown (\<open>pkb.py\<close>, \<open>stages.py\<close>), again if
  it fails in a way that may be retried.  The resources of a benchmark are created and deleted by the
  life cycle of \<open>resource.py\<close>, whose steps are retried by the decorator \<open>vm_util.Retry\<close>; things are
  done in parallel by \<open>background_tasks.py\<close>; the measured samples (\<open>sample.py\<close>, \<open>timing_util.py\<close>) are
  collected and published by the \<open>SampleCollector\<close> of \<open>publisher.py\<close>; failures become statuses
  (\<open>errors.py\<close>, \<open>benchmark_status.py\<close>), from which the summary and the exit status are made.

  \<^bold>\<open>How it is modelled.\<close>  Code with effects is a function from a state to an outcome and a state (the
  type \<open>py\<close> of \<open>Prelude\<close>): \<open>Inl\<close> an exception, \<open>Inr\<close> a value; \<open>None\<close> stands for not returning, so
  that a loop that may run forever is a \<open>partial_function (option)\<close>, and that a call returns is a
  theorem of its own.  Pure code that may raise gives \<open>Inl\<close> or \<open>Inr\<close>.  Concurrent code is a step
  relation.  The state of a run holds a clock, which other computations may advance (\<open>lags\<close>), and a
  stream of random numbers (\<open>draws\<close>); both are arbitrary.  Exceptions are classes with their base
  classes and a text (\<open>Errors\<close>).  What the source only calls (clouds, benchmark modules, publishers,
  YAML, files) is a parameter.  Integers of Python are unbounded; floats are exact numbers.

  \<^bold>\<open>Theories.\<close>
  \<^item> \<open>Prelude\<close>: Python's control structures over explicit state, weakest preconditions, the
    collections of rules for returning and for keeping an invariant, strings.
  \<^item> \<open>Errors\<close>: \<open>errors.py\<close>, the exception hierarchy and \<open>GetBenchmarkStatusFromException\<close>.
    \<open>Status\<close>: \<open>benchmark_status.py\<close>, the summary of a run.
  \<^item> \<open>Stages\<close>: \<open>stages.py\<close>, the parser of \<open>--run_stage\<close>.
  \<^item> \<open>Retry\<close>: \<open>vm_util.Retry\<close>: calls that are retried end, within the retry limit, and with the
    outcome of the last call or an error of giving up.
  \<^item> \<open>ResourceModel\<close>: \<open>resource.py\<close>, the life cycle of \<open>BaseResource\<close>; a subclass is a record of
    hooks.  Lemmas: what Create and Delete establish, that they return, and that no reported duration
    is negative.
  \<^item> \<open>Sample\<close>, \<open>Timing\<close>, \<open>Collector\<close>: \<open>sample.py\<close>, \<open>timing_util.py\<close> and the \<open>SampleCollector\<close>.
    \<open>Publishers\<close>: the rest of \<open>publisher.py\<close>: the metadata added to samples, the texts that are written to files and
    the console, and the choice of publishers; the text of a float is a parameter.
  \<^item> \<open>Conditions\<close>: the decisions of \<open>pkb.py\<close> on flags and samples (teardown, run URI).
    \<open>Phases\<close>, \<open>Runner\<close>, \<open>StageOrder\<close>, \<open>RunProperties\<close>: the phases and \<open>RunBenchmark\<close> with its
    error paths, and what holds of a run however it ends.
    \<open>Zones\<close> and \<open>Task\<close>: \<open>ZoneRetryManager\<close>, \<open>RunBenchmarkTask\<close> and \<open>RunBenchmarks\<close>.
  \<^item> \<open>Background\<close>, \<open>Parallel\<close>, \<open>Waiting\<close>: \<open>background_tasks.py\<close>.  The loop of \<open>_RunParallelTasks\<close>
    relies on an interface, the locales \<open>task_manager\<close> and \<open>live_task_manager\<close>; the thread manager
    and the process manager of the code are its interpretations, and the theorems on parallel calls
    follow from the locale.
  \<^item> \<open>FlagUtil\<close>, \<open>FlagValues\<close>: integer lists, overrides of flags, deprecated names of flags.
  \<^item> \<open>Configs\<close>: imports, merging and overrides of configurations.  \<open>BenchmarkSets\<close>: which benchmarks
    are run, with the flag matrices.  \<open>Registry\<close>: classes by their attributes.  \<open>Decoders\<close>: options
    and specs; what a decoder promises is the locale \<open>sound_decoder\<close>, interpreted for integers and
    for lists of them.
  \<^item> \<open>VmSpecs\<close>: \<open>configs/vm_group_decoders.py\<close> and the specs of machines, disks and static machines that a
    group of machines consists of.  The locale \<open>typed_spec\<close> says what the values of the options of a spec
    are and how decoding fails; it extends to specs what \<open>typed_decoder\<close>, to which \<open>sound_decoder\<close> is a
    sublocale, says of a decoder, and every spec class of these files is an interpretation.
  \<^item> \<open>ContainerSpecs\<close>: \<open>configs/container_spec.py\<close>, the specs of containers and their clusters.
    \<open>BenchmarkConfig\<close>: \<open>configs/benchmark_config_spec.py\<close> and the specs in \<open>resources/\<close>: the whole configuration of a
    benchmark becomes a spec, with the flags of the benchmark in force (\<open>FlagValues\<close>) while it is decoded; the spec
    classes that other modules register are a parameter.  \<open>DbSpecs\<close>: \<open>relational_db_spec.py\<close>, the flags that go
    into the configuration of a database step by step; a step is known by the places that it leaves untouched, and
    one step changes a flag.
  \<^item> \<open>SpecLifecycle\<close>: Provision and Delete of \<open>benchmark_spec.py\<close>; what has been created is deleted, and
    Delete goes on after the errors that it tolerates.  \<open>SpecRun\<close> puts these methods into
    \<open>RunBenchmark\<close>: the locale \<open>outside_frame\<close> says that the other code of a run does not create
    resources, and a run with teardown has deleted what it has created, however it ends, except VMs of managed
    groups, which are left to their group, and static VMs that cannot be cleaned up.
  \<^item> \<open>StaticVms\<close>: \<open>static_virtual_machine.py\<close>, the pool of machines, which are resources of
    \<open>ResourceModel\<close> in a store of objects; each process has a pool (\<open>processes_run\<close>); \<open>VmGroups\<close>: how \<open>benchmark_spec.py\<close> constructs the
    machines of the groups from the configuration, the pool and the cloud.
  \<^item> \<open>Construct\<close>: \<open>ConstructResources\<close> of \<open>benchmark_spec.py\<close>: which objects are made for a configuration, under
    which attribute they are kept and which of them are resources; \<open>adds\<close> says this of one method, and its rules put
    the methods together.  The classes of the providers are parameters.  Labels of resources.
  \<^item> \<open>Ycsb\<close>: \<open>linux_packages/ycsb_stats.py\<close>, percentiles and the combination of results of clients.
    \<open>Edw\<close>: \<open>edw_benchmark_results_aggregator.py\<close>; what a benchmark asks of an iteration is the locale
    \<open>query_results\<close>, interpreted for the three kinds of iterations and for their base class.
  \<^item> \<open>Disruption\<close>: \<open>time_triggers/base_time_trigger.py\<close> and \<open>base_disruption_trigger.py\<close>, the metrics of a
    disruption of a benchmark; \<open>Maintenance\<close>: \<open>maintenance_simulation_trigger.py\<close>, the log of its
    notifications, and its threads and semaphores as a step relation, over all interleavings.
  \<^item> \<open>Disks\<close>: \<open>disk_strategies.py\<close>, the commands that create, prepare and detach the disks of a machine,
    over the list of its scratch disks and of the commands it has been given.

  \<^bold>\<open>Bounds.\<close>  The recursion of \<open>_GetImportFiles\<close> has a bound on its depth as an argument; more than the
  number of files that can be reached is enough (\<open>GetImportFiles_reachable\<close>).  The loops of retries,
  of polling and of the run phase have no bound: \<open>Retry_returns\<close>, \<open>WaitForCondition_ends\<close> and
  \<open>DoRunPhase_iterations\<close> say when they end.  Everything else is a total function.

  \<^bold>\<open>Not modelled.\<close>  Cloud providers, virtual machines, disks and networks, benchmarks and packages,
  databases, warehouses, clusters and traces, which run commands on machines and parse their output; requests to
  databases of samples (Elasticsearch, InfluxDB), logging,
  signals and pickling; \<open>UnitsParser\<close> and \<open>StringToBytes\<close>, which rest on the library pint; keyboard
  interrupts in background tasks; Juju controllers; the parsers of the text that YCSB prints, and NaN in its numbers.
\<close>

end
